(* ===== verification/Prelude.thy ===== *)
theory Prelude
  imports Main "HOL-Library.Word" "HOL-Library.Sublist"
begin

unbundle bit_operations_syntax

text \<open>
  Prelude: the vocabulary the components share.

  Machine types are words: \<^typ>\<open>8 word\<close> is \<^verbatim>\<open>uint8_t\<close>, \<^typ>\<open>16 word\<close> is
  \<^verbatim>\<open>uint16_t\<close>/\<^verbatim>\<open>int16_t\<close>, and so on; signedness is the reading (\<^const>\<open>unat\<close> or
  \<^const>\<open>sint\<close>), not the type. A \<^verbatim>\<open>float\<close> or \<^verbatim>\<open>double\<close> is its IEEE bit pattern, since the
  library only ever copies it. \<^verbatim>\<open>size_t\<close> is a \<^typ>\<open>nat\<close> below \<open>2 ^ 64\<close> whose arithmetic wraps
  explicitly (\<open>size_add\<close>, \<open>size_sub\<close>, \<open>size_mul\<close>).

  The theory also holds the little-endian byte image of a word, its inverse, and the list lemmas
  about \<^const>\<open>take\<close> and \<^const>\<open>drop\<close> that the reader proofs use.
\<close>

type_synonym byte = "8 word"
type_synonym bytes = "8 word list"
type_synonym u16 = "16 word"
type_synonym u32 = "32 word"
type_synonym u64 = "64 word"
type_synonym size_t = nat

text \<open>The collections of introduction rules for the three program logics of the development.\<close>

named_theorems reader_intros "a reader action is safe and keeps the reader invariant"
named_theorems emit_intros "a writer action appends exactly the stated bytes"
named_theorems decode_intros "a reader action decodes the stated bytes to the stated value"

section \<open>size_t arithmetic\<close>

definition size_add :: "size_t \<Rightarrow> size_t \<Rightarrow> size_t" where
  "size_add a b = (a + b) mod 2 ^ 64"

definition size_sub :: "size_t \<Rightarrow> size_t \<Rightarrow> size_t" where
  "size_sub a b = (a + 2 ^ 64 - b) mod 2 ^ 64"

definition size_mul :: "size_t \<Rightarrow> size_t \<Rightarrow> size_t" where
  "size_mul a b = (a * b) mod 2 ^ 64"

lemma size_add_exact [simp]: "a + b < 2 ^ 64 \<Longrightarrow> size_add a b = a + b"
  by (simp add: size_add_def)

lemma size_sub_exact [simp]: "b \<le> a \<Longrightarrow> a < 2 ^ 64 \<Longrightarrow> size_sub a b = a - b"
  unfolding size_sub_def by (simp only: diff_add_assoc2 mod_add_self2) (rule mod_less, linarith)

lemma size_mul_exact [simp]: "a * b < 2 ^ 64 \<Longrightarrow> size_mul a b = a * b"
  by (simp add: size_mul_def)

section \<open>Words as little-endian bytes\<close>

definition sizeof :: "'a::len itself \<Rightarrow> size_t" where
  "sizeof _ = LENGTH('a) div 8"

lemma sizeof_simps [simp]:
  "sizeof TYPE(8) = 1" "sizeof TYPE(16) = 2" "sizeof TYPE(32) = 4" "sizeof TYPE(64) = 8"
  by (simp_all add: sizeof_def)

definition le_bytes :: "'a::len word \<Rightarrow> bytes" where
  "le_bytes w = map (\<lambda>i. ucast (drop_bit (8 * i) w)) [0 ..< sizeof TYPE('a)]"

primrec of_le_bytes :: "bytes \<Rightarrow> 'a::len word" where
  "of_le_bytes [] = 0"
| "of_le_bytes (b # bs) = ucast b OR push_bit 8 (of_le_bytes bs)"

lemma length_le_bytes [simp]: "length (le_bytes (w :: 'a::len word)) = sizeof TYPE('a)"
  by (simp add: le_bytes_def)

lemma bit_of_le_bytes:
  "bit (of_le_bytes bs :: 'a::len word) n \<longleftrightarrow>
     n < LENGTH('a) \<and> n div 8 < length bs \<and> bit (bs ! (n div 8)) (n mod 8)"
proof (induction bs arbitrary: n)
  case Nil
  then show ?case by simp
next
  case (Cons b bs)
  show ?case
  proof (cases "n < 8")
    case True
    then show ?thesis
      by (auto simp: bit_or_iff bit_push_bit_iff bit_ucast_iff dest: bit_imp_le_length)
  next
    case False
    then have "n div 8 = Suc ((n - 8) div 8)" "n mod 8 = (n - 8) mod 8"
      by (simp_all add: le_div_geq le_mod_geq)
    moreover have "\<not> bit b n" using False by (auto dest: bit_imp_le_length)
    ultimately show ?thesis using False Cons.IH[of "n - 8"]
      by (auto simp: bit_or_iff bit_push_bit_iff bit_ucast_iff)
  qed
qed

lemma of_le_bytes_le_bytes [simp]:
  assumes "8 dvd LENGTH('a::len)"
  shows "of_le_bytes (le_bytes (w :: 'a word)) = w"
proof (rule bit_word_eqI)
  fix n assume n: "n < LENGTH('a)"
  have "n div 8 < LENGTH('a) div 8" using n assms by (auto elim!: dvdE)
  moreover have "bit (ucast (drop_bit (8 * (n div 8)) w) :: byte) (n mod 8) \<longleftrightarrow> bit w n"
    by (simp add: bit_ucast_iff bit_drop_bit_eq)
  ultimately show "bit (of_le_bytes (le_bytes w) :: 'a word) n \<longleftrightarrow> bit w n"
    using n by (simp add: bit_of_le_bytes le_bytes_def sizeof_def)
qed

lemma le_bytes_of_le_bytes:
  assumes "length bs = sizeof TYPE('a::len)"
  shows "le_bytes (of_le_bytes bs :: 'a word) = bs"
proof (rule nth_equalityI)
  show "length (le_bytes (of_le_bytes bs :: 'a word)) = length bs" using assms by simp
next
  fix i assume "i < length (le_bytes (of_le_bytes bs :: 'a word))"
  then have i: "i < LENGTH('a) div 8" by (simp add: sizeof_def)
  show "le_bytes (of_le_bytes bs :: 'a word) ! i = bs ! i"
  proof (rule bit_word_eqI)
    fix n assume "n < LENGTH(8)"
    then have n: "n < 8" by simp
    have "8 * i + n < LENGTH('a)" using i n by auto
    moreover have "(8 * i + n) div 8 = i" "(8 * i + n) mod 8 = n" using n by simp_all
    ultimately show "bit (le_bytes (of_le_bytes bs :: 'a word) ! i) n = bit (bs ! i) n"
      using i n assms
      by (simp add: le_bytes_def sizeof_def bit_ucast_iff bit_drop_bit_eq bit_of_le_bytes)
  qed
qed

lemma le_bytes_inject:
  assumes "8 dvd LENGTH('a::len)" "le_bytes (v :: 'a word) = le_bytes w"
  shows "v = w"
  using assms by (metis of_le_bytes_le_bytes)

lemma le_bytes_8 [simp]: "le_bytes (w :: byte) = [w]"
  by (simp add: le_bytes_def)

lemma of_le_bytes_8 [simp]: "of_le_bytes [b] = (b :: byte)"
  by simp

section \<open>Lists\<close>

lemma drop_eq_append_drop: "drop n xs = ys @ zs \<Longrightarrow> drop (n + length ys) xs = zs"
  by (metis add.commute append_eq_conv_conj drop_drop)

lemma drop_eq_append_take: "drop n xs = ys @ zs \<Longrightarrow> take (length ys) (drop n xs) = ys"
  by simp

lemma drop_eq_append_length: "drop n xs = ys @ zs \<Longrightarrow> n \<le> length xs \<Longrightarrow>
  n + length ys + length zs = length xs"
  by (metis add.assoc le_add_diff_inverse length_append length_drop)

lemma length_concat_map_const:
  "(\<And>x. x \<in> set xs \<Longrightarrow> length (f x) = k) \<Longrightarrow> length (concat (map f xs)) = length xs * k"
  by (induction xs) auto

lemma length_concat_map_ge:
  "(\<And>x. x \<in> set xs \<Longrightarrow> k \<le> length (f x)) \<Longrightarrow> length xs * k \<le> length (concat (map f xs))"
  by (induction xs) (simp_all add: add_mono)

section \<open>Lengths as int32\<close>

lemma sint_of_int_64: "\<bar>n\<bar> < 2 ^ 63 \<Longrightarrow> sint (word_of_int n :: u64) = n"
  by (simp add: sint_sbintrunc' signed_take_bit_int_eq_self abs_if split: if_splits)

lemma sint_of_nat_32: "n < 2 ^ 31 \<Longrightarrow> sint (word_of_nat n :: u32) = int n"
proof -
  assume "n < 2 ^ 31"
  then have "signed_take_bit 31 (int n) = int n"
    by (intro signed_take_bit_int_eq_self) simp_all
  then show ?thesis by (simp add: signed_of_nat)
qed

lemma unat_of_nat_32: "n < 2 ^ 32 \<Longrightarrow> unat (word_of_nat n :: u32) = n"
  by (simp add: unat_of_nat take_bit_nat_eq_self)

lemma unat_less_32: "unat (w :: u32) < 4294967296"
  using unsigned_less [of w, where 'a = nat] by simp

lemma unat_ucast_le:
  "unat (w :: 'a::len word) < 2 ^ LENGTH('b::len) \<Longrightarrow> unat (ucast w :: 'b word) = unat w"
  by (simp add: unsigned_ucast_eq take_bit_nat_eq_self)

text \<open>A narrowing conversion of a value that fits is undone by widening.\<close>

lemma ucast_ucast_id:
  assumes "unat (w :: 'a::len word) < 2 ^ LENGTH('b::len)"
  shows "ucast (ucast w :: 'b word) = w"
proof -
  have "unat (ucast (ucast w :: 'b word) :: 'a word) = unat w"
    using assms unat_ucast_le [of "ucast w :: 'b word", where 'b = 'a]
    by (simp add: unat_ucast_le unsigned_less)
  then show ?thesis by (simp add: word_unat_eq_iff)
qed

section \<open>Bit positions\<close>

text \<open>Splitting a bit position into its values lets \<open>simp\<close> decide word identities bit by bit.\<close>

lemma nat_less_8_cases: "(idx :: nat) < 8 \<longleftrightarrow>
     idx = 0 \<or> idx = 1 \<or> idx = 2 \<or> idx = 3 \<or> idx = 4 \<or> idx = 5 \<or> idx = 6 \<or> idx = 7"
  by presburger

lemma nat_less_16_cases: "(n :: nat) < 16 \<longleftrightarrow> n < 8 \<or> (\<exists>m. n = 8 + m \<and> m < 8)"
  by (cases "n < 8") (auto intro: exI [of _ "n - 8"])

lemma nat_less_32_cases: "(idx :: nat) < 32 \<longleftrightarrow>
     idx = 0 \<or> idx = 1 \<or> idx = 2 \<or> idx = 3 \<or> idx = 4 \<or> idx = 5 \<or> idx = 6 \<or> idx = 7 \<or>
     idx = 8 \<or> idx = 9 \<or> idx = 10 \<or> idx = 11 \<or> idx = 12 \<or> idx = 13 \<or> idx = 14 \<or> idx = 15 \<or>
     idx = 16 \<or> idx = 17 \<or> idx = 18 \<or> idx = 19 \<or> idx = 20 \<or> idx = 21 \<or> idx = 22 \<or> idx = 23 \<or>
     idx = 24 \<or> idx = 25 \<or> idx = 26 \<or> idx = 27 \<or> idx = 28 \<or> idx = 29 \<or> idx = 30 \<or> idx = 31"
  by presburger

lemma not_bit_above:
  fixes w :: "'a::len word"
  assumes "unat w < 2 ^ k" "k \<le> n"
  shows "\<not> bit w n"
proof -
  have "unat w < 2 ^ n"
    using assms(1) power_increasing [OF assms(2), of "2 :: nat"] by linarith
  then have "\<not> bit (unat w) n" by (simp add: bit_iff_odd)
  then show ?thesis by (auto simp: bit_unsigned_iff dest: bit_imp_le_length)
qed

lemma length_concat_map_le:
  "(\<And>x. x \<in> set xs \<Longrightarrow> length (f x) \<le> k) \<Longrightarrow> length (concat (map f xs)) \<le> length xs * k"
  by (induction xs) (simp_all add: add_mono)

end
