(* ===== verification/Errors.thy ===== *)
theory Errors
  imports Prelude
begin

text \<open>
  Wire-format constants, error codes, the exception object and the outcome of an operation
  (\<^verbatim>\<open>core.hpp\<close>, first part).

  The library is built either with C++ exceptions or without them
  (\<^verbatim>\<open>MEMORYPACK_HAS_EXCEPTIONS\<close>), and for a little- or a big-endian host. Both choices are fields of
  the record \<open>build\<close>, an argument of every operation, so each definition is the code of all four
  builds at once. An operation is a function from a state to an outcome and a new state. The outcome
  \<open>Ret\<close> is a normal return, \<open>Throw\<close> a C++ exception leaving the call, and \<open>UB\<close> an access outside an
  object (or a loop the standard lets the compiler assume away): behaviour C++ does not define.
  Theorems that an operation never returns \<open>UB\<close> are memory safety.
\<close>

section \<open>Wire format constants\<close>

definition NULL_OBJECT :: byte where [simp]: "NULL_OBJECT = 255"
definition WIDE_TAG :: byte where [simp]: "WIDE_TAG = 250"
definition MAX_MEMBER_COUNT :: byte where [simp]: "MAX_MEMBER_COUNT = 249"
definition NULL_COLLECTION :: u32 where [simp]: "NULL_COLLECTION = -1"
definition VARINT_MAX_SINGLE :: byte where [simp]: "VARINT_MAX_SINGLE = 127"
definition VARINT_UINT16_TAG :: byte where [simp]: "VARINT_UINT16_TAG = 0x84"
definition VARINT_UINT32_TAG :: byte where [simp]: "VARINT_UINT32_TAG = 0x82"

section \<open>Errors\<close>

datatype MemoryPackError =
    ErrorNone
  | BufferUnderflow
  | BufferOverflow
  | InvalidHeader
  | LengthLimit
  | InvalidString
  | TrailingBytes
  | NotSupported

fun ToString :: "MemoryPackError \<Rightarrow> string" where
  "ToString ErrorNone = ''none''"
| "ToString BufferUnderflow = ''buffer underflow''"
| "ToString BufferOverflow = ''buffer overflow''"
| "ToString InvalidHeader = ''invalid header''"
| "ToString LengthLimit = ''length limit exceeded''"
| "ToString InvalidString = ''invalid string payload''"
| "ToString TrailingBytes = ''trailing bytes''"
| "ToString NotSupported = ''not supported''"

text \<open>\<^verbatim>\<open>std::to_string\<close> of a \<^verbatim>\<open>size_t\<close>.\<close>

definition decimal_digit :: "nat \<Rightarrow> char" where
  "decimal_digit d = char_of (48 + d)"

fun to_string :: "nat \<Rightarrow> string" where
  "to_string n =
     (if n < 10 then [decimal_digit n] else to_string (n div 10) @ [decimal_digit (n mod 10)])"

declare to_string.simps [simp del]

text \<open>A C++ string literal or the result of \<^verbatim>\<open>to_string\<close> as bytes.\<close>

definition bytes_of_string :: "string \<Rightarrow> bytes" where
  "bytes_of_string s = map (\<lambda>c. word_of_nat (of_char c)) s"

definition BuildMessage :: "MemoryPackError \<Rightarrow> size_t \<Rightarrow> string \<Rightarrow> string" where
  "BuildMessage code offset what =
     ''memorypack: '' @ ToString code
     @ (if what \<noteq> [] then '' ('' @ what @ '')'' else [])
     @ '' at offset '' @ to_string offset"

datatype MemoryPackException =
  MemoryPackException (exn_code: MemoryPackError) (exn_offset: size_t) (exn_message: string)

definition make_exception :: "MemoryPackError \<Rightarrow> size_t \<Rightarrow> string \<Rightarrow> MemoryPackException" where
  "make_exception code offset what =
     MemoryPackException code offset (BuildMessage code offset what)"

lemma code_make_exception [simp]: "exn_code (make_exception c off w) = c"
  by (simp add: make_exception_def)

section \<open>Builds, outcomes, operations\<close>

datatype endian = Little | Big

record build =
  has_exceptions :: bool
  native :: endian

datatype 'a outcome = Ret 'a | Throw MemoryPackException | UB

type_synonym ('s, 'a) op = "'s \<Rightarrow> 'a outcome \<times> 's"

definition return :: "'a \<Rightarrow> ('s, 'a) op" where
  "return x = (\<lambda>s. (Ret x, s))"

definition bind :: "('s, 'a) op \<Rightarrow> ('a \<Rightarrow> ('s, 'b) op) \<Rightarrow> ('s, 'b) op" where
  "bind m f = (\<lambda>s. case m s of
     (Ret x, s') \<Rightarrow> f x s'
   | (Throw e, s') \<Rightarrow> (Throw e, s')
   | (UB, s') \<Rightarrow> (UB, s'))"

text \<open>Sequencing of two statements.\<close>

definition seq :: "('s, 'a) op \<Rightarrow> ('s, 'b) op \<Rightarrow> ('s, 'b) op" where
  "seq m k = bind m (\<lambda>_. k)"

definition gets :: "('s \<Rightarrow> 'a) \<Rightarrow> ('s, 'a) op" where
  "gets f = (\<lambda>s. (Ret (f s), s))"

definition modify :: "('s \<Rightarrow> 's) \<Rightarrow> ('s, unit) op" where
  "modify f = (\<lambda>s. (Ret (), f s))"

text \<open>A range-based \<^verbatim>\<open>for\<close> loop.\<close>

primrec for_each :: "('x \<Rightarrow> ('s, unit) op) \<Rightarrow> 'x list \<Rightarrow> ('s, unit) op" where
  "for_each body [] = return ()"
| "for_each body (x # xs) = seq (body x) (for_each body xs)"

lemma return_apply [simp]: "return x s = (Ret x, s)"
  by (simp add: return_def)

lemma gets_apply [simp]: "gets f s = (Ret (f s), s)"
  by (simp add: gets_def)

lemma modify_apply [simp]: "modify f s = (Ret (), f s)"
  by (simp add: modify_def)

lemma bind_Ret [simp]: "m s = (Ret x, s') \<Longrightarrow> bind m f s = f x s'"
  by (simp add: bind_def)

lemma bind_Throw [simp]: "m s = (Throw e, s') \<Longrightarrow> bind m f s = (Throw e, s')"
  by (simp add: bind_def)

lemma bind_UB [simp]: "m s = (UB, s') \<Longrightarrow> bind m f s = (UB, s')"
  by (simp add: bind_def)

lemma seq_Ret [simp]: "m s = (Ret x, s') \<Longrightarrow> seq m k s = k s'"
  by (simp add: seq_def)

lemma seq_Throw [simp]: "m s = (Throw e, s') \<Longrightarrow> seq m k s = (Throw e, s')"
  by (simp add: seq_def)

lemma bind_gets [simp]: "bind (gets f) g s = g (f s) s"
  by simp

lemma bind_modify [simp]: "bind (modify f) g s = g () (f s)"
  by simp

lemma seq_modify [simp]: "seq (modify f) k s = k (f s)"
  by (simp add: seq_def)

lemma seq_return [simp]: "seq (return x) k = k"
  by (rule ext) simp

lemma outcome_state_cases:
  obtains (Ret) x s' where "(p :: 'a outcome \<times> 's) = (Ret x, s')"
  | (Throw) e s' where "p = (Throw e, s')"
  | (UB) s' where "p = (UB, s')"
  by (metis outcome.exhaust surj_pair)

lemma bind_cases:
  obtains (Ret) x s' where "m s = (Ret x, s')" "bind m f s = f x s'"
  | (Throw) e s' where "m s = (Throw e, s')" "bind m f s = (Throw e, s')"
  | (UB) s' where "m s = (UB, s')" "bind m f s = (UB, s')"
  by (cases "m s" rule: outcome_state_cases) simp_all

lemma return_bind [simp]: "bind (return x) f = f x"
  by (rule ext) simp

lemma bind_return [simp]: "bind m return = m"
proof (rule ext)
  fix s show "bind m return s = m s" by (cases "m s" rule: outcome_state_cases) simp_all
qed

lemma bind_assoc: "bind (bind m f) g = bind m (\<lambda>x. bind (f x) g)"
proof (rule ext)
  fix s show "bind (bind m f) g s = bind m (\<lambda>x. bind (f x) g) s"
    by (cases m s f rule: bind_cases) (simp_all add: bind_def)
qed

lemma to_string_nonempty [simp]: "to_string n \<noteq> []"
  by (subst to_string.simps) simp

lemma length_to_string: "length (to_string n) \<le> Suc n"
proof (induction n rule: to_string.induct)
  case (1 n)
  show ?case
  proof (cases "n < 10")
    case False
    with 1 have "length (to_string (n div 10)) \<le> Suc (n div 10)" by simp
    then show ?thesis using False by (subst to_string.simps) simp
  qed (simp add: to_string.simps)
qed

end
