(* ===== verification/Encoding.thy ===== *)
theory Encoding
  imports Errors
begin

text \<open>
  Byte order (\<^verbatim>\<open>detail::byteswap\<close>, \<^verbatim>\<open>detail::endian_convert\<close>) and the object representation of an
  arithmetic value in memory. \<open>mem_bytes\<close> is what \<^verbatim>\<open>memcpy\<close> out of a variable yields on a host of the
  given byte order, \<open>of_mem\<close> what \<^verbatim>\<open>memcpy\<close> into it stores. The two lemmas at the end show that the
  library's conversion makes the wire little-endian on every host.
\<close>

definition mem_bytes :: "endian \<Rightarrow> 'a::len word \<Rightarrow> bytes" where
  "mem_bytes e w = (case e of Little \<Rightarrow> le_bytes w | Big \<Rightarrow> rev (le_bytes w))"

definition of_mem :: "endian \<Rightarrow> bytes \<Rightarrow> 'a::len word" where
  "of_mem e bs = of_le_bytes (case e of Little \<Rightarrow> bs | Big \<Rightarrow> rev bs)"

text \<open>The loop of the fallback \<^verbatim>\<open>byteswap\<close>; the first argument counts the remaining rounds.\<close>

primrec byteswap_loop :: "nat \<Rightarrow> 'a::len word \<Rightarrow> 'a word \<Rightarrow> 'a word" where
  "byteswap_loop 0 out raw = out"
| "byteswap_loop (Suc i) out raw =
     byteswap_loop i (push_bit 8 out OR (raw AND 0xFF)) (drop_bit 8 raw)"

definition byteswap :: "'a::len word \<Rightarrow> 'a word" where
  "byteswap value = byteswap_loop (sizeof TYPE('a)) 0 value"

definition endian_convert :: "endian \<Rightarrow> 'a::len word \<Rightarrow> 'a word" where
  "endian_convert e value = (if e = Little \<or> sizeof TYPE('a) = 1 then value else byteswap value)"

lemma length_mem_bytes [simp]: "length (mem_bytes e (w :: 'a::len word)) = sizeof TYPE('a)"
  by (simp add: mem_bytes_def split: endian.split)

lemma bit_and_FF: "bit ((w :: 'a::len word) AND 0xFF) n \<longleftrightarrow> n < 8 \<and> bit w n"
proof -
  have "w AND 0xFF = take_bit 8 w" by (simp add: take_bit_eq_mask mask_eq_exp_minus_1)
  then show ?thesis by (simp add: bit_take_bit_iff)
qed

lemma bit_byteswap_loop:
  "bit (byteswap_loop n out (raw :: 'a::len word)) k \<longleftrightarrow>
     k < LENGTH('a) \<and>
     (if k < 8 * n then bit raw (8 * (n - Suc (k div 8)) + k mod 8) else bit out (k - 8 * n))"
proof (induction n arbitrary: out raw)
  case 0
  then show ?case by (auto dest: bit_imp_le_length)
next
  case (Suc n)
  show ?case
  proof (cases "k < 8 * n")
    case True
    then have "8 * (Suc n - Suc (k div 8)) + k mod 8 = 8 + (8 * (n - Suc (k div 8)) + k mod 8)"
      by auto
    with True show ?thesis by (simp add: Suc.IH bit_drop_bit_eq add.assoc)
  next
    case False
    show ?thesis
    proof (cases "k < 8 * Suc n")
      case True
      define j where "j = k - 8 * n"
      have "k = 8 * n + j" "j < 8" using True False by (simp_all add: j_def)
      then have "k div 8 = n" "k mod 8 = k - 8 * n" by simp_all
      with True False show ?thesis
        by (auto simp: Suc.IH bit_or_iff bit_push_bit_iff bit_and_FF)
    next
      case F: False
      then have "k - 8 * n - 8 = k - 8 * Suc n" by simp
      with F False show ?thesis
        by (auto simp: Suc.IH bit_or_iff bit_push_bit_iff bit_and_FF)
    qed
  qed
qed

lemma le_bytes_byteswap: "le_bytes (byteswap (w :: 'a::len word)) = rev (le_bytes w)"
proof (rule nth_equalityI)
  fix i assume "i < length (le_bytes (byteswap w))"
  then have i: "i < sizeof TYPE('a)" by simp
  then have len: "8 * sizeof TYPE('a) \<le> LENGTH('a)" by (simp add: sizeof_def)
  have "ucast (drop_bit (8 * i) (byteswap w)) =
        (ucast (drop_bit (8 * (sizeof TYPE('a) - Suc i)) w) :: byte)" (is "?l = ?r")
  proof (rule bit_word_eqI)
    fix n assume "n < LENGTH(8)"
    then have n: "n < 8" by simp
    have "8 * i + n < 8 * sizeof TYPE('a)" using i n by auto
    moreover have "(8 * i + n) div 8 = i" "(8 * i + n) mod 8 = n" using n by simp_all
    ultimately show "bit ?l n = bit ?r n" using n len
      by (simp add: bit_ucast_iff bit_drop_bit_eq byteswap_def bit_byteswap_loop)
  qed
  with i show "le_bytes (byteswap w) ! i = rev (le_bytes w) ! i"
    by (simp add: rev_nth le_bytes_def)
qed simp

lemma mem_bytes_single: "sizeof TYPE('a::len) = 1 \<Longrightarrow> mem_bytes e (w :: 'a word) = le_bytes w"
  using length_le_bytes [of w] by (cases "le_bytes w") (auto simp: mem_bytes_def split: endian.split)

lemma wire_bytes [simp]: "mem_bytes e (endian_convert e w) = le_bytes (w :: 'a::len word)"
proof (cases e)
  case Little
  then show ?thesis by (simp add: mem_bytes_def endian_convert_def)
next
  case Big
  show ?thesis
  proof (cases "sizeof TYPE('a) = 1")
    case True
    then show ?thesis by (simp add: mem_bytes_single endian_convert_def)
  next
    case False
    with Big show ?thesis by (simp add: mem_bytes_def endian_convert_def le_bytes_byteswap)
  qed
qed

lemma unwire_bytes [simp]:
  assumes "8 dvd LENGTH('a::len)" "length bs = sizeof TYPE('a)"
  shows "endian_convert e (of_mem e bs) = (of_le_bytes bs :: 'a word)"
proof (rule le_bytes_inject [OF assms(1)])
  consider (native) "e = Little" | (one) "e = Big" "sizeof TYPE('a) = 1"
    | (swap) "e = Big" "sizeof TYPE('a) \<noteq> 1"
    by (cases e) auto
  then show "le_bytes (endian_convert e (of_mem e bs) :: 'a word) =
             le_bytes (of_le_bytes bs :: 'a word)"
  proof cases
    case native
    then show ?thesis by (simp add: endian_convert_def of_mem_def)
  next
    case one
    then obtain b where "bs = [b]" using assms(2)
      by (metis One_nat_def length_0_conv length_Suc_conv)
    with one show ?thesis by (simp add: endian_convert_def of_mem_def)
  next
    case swap
    then show ?thesis using assms(2)
      by (simp add: endian_convert_def of_mem_def le_bytes_byteswap le_bytes_of_le_bytes)
  qed
qed

end
