(* ===== verification/Unicode.thy ===== *)
theory Unicode
  imports Encoding
begin

text \<open>
  The text conversions of the library: the UTF-16 length of a UTF-8 string
  (\<^verbatim>\<open>utf16_length_from_utf8\<close>, with its eight-byte ASCII fast path), the UTF-8 form of a code point
  (\<^verbatim>\<open>append_utf8_codepoint\<close>), the UTF-16 to UTF-8 conversion of \<^verbatim>\<open>ReadUtf16String\<close> as a function of the
  code units, and the UTF-8 to UTF-16 conversion of the \<^verbatim>\<open>std::u16string\<close> formatter.

  A \<^verbatim>\<open>std::string\<close> is its byte list, a \<^verbatim>\<open>std::u16string\<close> its list of 16-bit units.
\<close>

section \<open>UTF-16 length of a UTF-8 string\<close>

text \<open>The fast path: whole blocks of eight bytes while none has its top bit set. The result is the
  units counted and the bytes from the index the loop stopped at.\<close>

fun utf16_length_blocks :: "endian \<Rightarrow> u32 \<Rightarrow> bytes \<Rightarrow> u32 \<times> bytes" where
  "utf16_length_blocks e units data =
     (if 8 \<le> length data
      then if (of_mem e (take 8 data) :: u64) AND 0x8080808080808080 \<noteq> 0 then (units, data)
           else utf16_length_blocks e (units + 8) (drop 8 data)
      else (units, data))"

declare utf16_length_blocks.simps [simp del]

primrec utf16_length_bytes :: "u32 \<Rightarrow> bytes \<Rightarrow> u32" where
  "utf16_length_bytes units [] = units"
| "utf16_length_bytes units (b # bs) =
     (if b AND 0xC0 = 0x80 then utf16_length_bytes units bs
      else utf16_length_bytes (units + (if 0xF0 \<le> b then 2 else 1)) bs)"

definition utf16_length_from_utf8 :: "endian \<Rightarrow> bytes \<Rightarrow> u32" where
  "utf16_length_from_utf8 e data =
     (let (units, rest) = utf16_length_blocks e 0 data in utf16_length_bytes units rest)"

section \<open>UTF-8 form of a code point\<close>

definition append_utf8_codepoint :: "bytes \<Rightarrow> u32 \<Rightarrow> bytes" where
  "append_utf8_codepoint out cp =
     (if cp \<le> 0x7F then out @ [ucast cp]
      else if cp \<le> 0x7FF then
        out @ [ucast (0xC0 OR drop_bit 6 cp)] @ [ucast (0x80 OR (cp AND 0x3F))]
      else if cp \<le> 0xFFFF then
        out @ [ucast (0xE0 OR drop_bit 12 cp)]
            @ [ucast (0x80 OR (drop_bit 6 cp AND 0x3F))] @ [ucast (0x80 OR (cp AND 0x3F))]
      else
        out @ [ucast (0xF0 OR drop_bit 18 cp)]
            @ [ucast (0x80 OR (drop_bit 12 cp AND 0x3F))]
            @ [ucast (0x80 OR (drop_bit 6 cp AND 0x3F))] @ [ucast (0x80 OR (cp AND 0x3F))])"

section \<open>UTF-16 code units to code points\<close>

definition is_high_surrogate :: "u16 \<Rightarrow> bool" where
  "is_high_surrogate u \<longleftrightarrow> 0xD800 \<le> u \<and> u \<le> 0xDBFF"

definition is_low_surrogate :: "u16 \<Rightarrow> bool" where
  "is_low_surrogate u \<longleftrightarrow> 0xDC00 \<le> u \<and> u \<le> 0xDFFF"

definition combine_surrogates :: "u16 \<Rightarrow> u16 \<Rightarrow> u32" where
  "combine_surrogates hi lo = 0x10000 + (push_bit 10 (ucast (hi - 0xD800)) OR ucast (lo - 0xDC00))"

text \<open>The code points the decoding loop of \<^verbatim>\<open>ReadUtf16String\<close> appends, for the units it reads: an
  unpaired surrogate becomes U+FFFD and the unit after it is examined again.\<close>

fun utf16_codepoints :: "u16 list \<Rightarrow> u32 list" where
  "utf16_codepoints [] = []"
| "utf16_codepoints [hi] =
     [if is_high_surrogate hi \<or> is_low_surrogate hi then 0xFFFD else ucast hi]"
| "utf16_codepoints (hi # lo # us) =
     (if is_high_surrogate hi then
        if is_low_surrogate lo then combine_surrogates hi lo # utf16_codepoints us
        else 0xFFFD # utf16_codepoints (lo # us)
      else if is_low_surrogate hi then 0xFFFD # utf16_codepoints (lo # us)
      else ucast hi # utf16_codepoints (lo # us))"

definition utf16_to_utf8 :: "u16 list \<Rightarrow> bytes" where
  "utf16_to_utf8 us = foldl append_utf8_codepoint [] (utf16_codepoints us)"

section \<open>UTF-8 to UTF-16\<close>

text \<open>Lead byte: the initial code point bits and the sequence length.\<close>

definition utf8_lead :: "byte \<Rightarrow> u32 \<times> nat" where
  "utf8_lead b0 =
     (if b0 < 0x80 then (ucast b0, 1)
      else if b0 AND 0xE0 = 0xC0 then (ucast b0 AND 0x1F, 2)
      else if b0 AND 0xF0 = 0xE0 then (ucast b0 AND 0x0F, 3)
      else (ucast b0 AND 0x07, 4))"

definition push_continuation :: "u32 \<Rightarrow> byte \<Rightarrow> u32" where
  "push_continuation cp b = push_bit 6 cp OR (ucast b AND 0x3F)"

definition utf16_of_codepoint :: "u32 \<Rightarrow> u16 list" where
  "utf16_of_codepoint cp =
     (if cp \<le> 0xFFFF then [ucast cp]
      else [ucast (0xD800 + drop_bit 10 (cp - 0x10000)), ucast (0xDC00 + ((cp - 0x10000) AND 0x3FF))])"

lemma utf8_lead_pos [simp]: "0 < snd (utf8_lead b)"
  by (simp add: utf8_lead_def)

text \<open>The transcoding loop of \<^verbatim>\<open>MemoryPackFormatter<std::u16string>::Deserialize\<close>; the argument is the
  part of the string from the current index, and a truncated sequence ends the loop.\<close>

function utf8_to_utf16 :: "bytes \<Rightarrow> u16 list" where
  "utf8_to_utf16 [] = []"
| "utf8_to_utf16 (b0 # bs) =
     (let (cp, len) = utf8_lead b0 in
      if Suc (length bs) < len then []
      else utf16_of_codepoint (foldl push_continuation cp (take (len - 1) bs))
           @ utf8_to_utf16 (drop (len - 1) bs))"
  by pat_completeness auto
termination by (relation "measure length") auto

declare utf8_to_utf16.simps(2) [simp del]

section \<open>The fast path counts what the byte loop counts\<close>

lemma high_bits_mask:
  "(0x8080808080808080 :: u64) = of_le_bytes [0x80, 0x80, 0x80, 0x80, 0x80, 0x80, 0x80, 0x80]"
  by simp

lemma bit_128_int: "bit (128 :: int) n \<longleftrightarrow> n = 7"
  using bit_exp_iff [of 7 n, where 'a = int] by auto

lemma bit_0x80: "bit (0x80 :: byte) n \<longleftrightarrow> n = 7"
  by (auto simp: bit_128_int)

lemma block_has_high_bit:
  assumes "length bs = 8"
  shows "(of_mem e bs :: u64) AND 0x8080808080808080 = 0 \<longleftrightarrow> (\<forall>b \<in> set bs. \<not> bit b 7)"
proof -
  have le: "(of_le_bytes cs :: u64) AND 0x8080808080808080 = 0 \<longleftrightarrow> (\<forall>b \<in> set cs. \<not> bit b 7)"
    if len: "length cs = 8" for cs
  proof -
    let ?h = "[0x80, 0x80, 0x80, 0x80, 0x80, 0x80, 0x80, 0x80] :: bytes"
    have nth: "?h ! i = 0x80" if "i < 8" for i
      using that unfolding nat_less_8_cases by (elim disjE) simp_all
    have bit: "bit ((of_le_bytes cs :: u64) AND 0x8080808080808080) n \<longleftrightarrow>
          n < 64 \<and> n mod 8 = 7 \<and> bit (cs ! (n div 8)) 7" for n
      unfolding high_bits_mask bit_and_iff bit_of_le_bytes using len
      by (auto simp: nth bit_128_int)
    show ?thesis
    proof
      assume z: "(of_le_bytes cs :: u64) AND 0x8080808080808080 = 0"
      show "\<forall>b \<in> set cs. \<not> bit b 7"
      proof
        fix b assume "b \<in> set cs"
        then obtain i where i: "i < 8" "b = cs ! i" using len by (auto simp: in_set_conv_nth)
        have "(8 * i + 7) mod 8 = 7" "(8 * i + 7) div 8 = i" by simp_all
        then show "\<not> bit b 7" using bit [of "8 * i + 7"] i by (simp add: z)
      qed
    next
      assume "\<forall>b \<in> set cs. \<not> bit b 7"
      then show "(of_le_bytes cs :: u64) AND 0x8080808080808080 = 0"
        by (intro bit_word_eqI) (auto simp: bit len)
    qed
  qed
  show ?thesis using le [of bs] le [of "rev bs"] assms by (cases e) (simp_all add: of_mem_def)
qed

lemma ascii_not_continuation: "\<not> bit (b :: byte) 7 \<Longrightarrow> b AND 0xC0 \<noteq> 0x80 \<and> \<not> 0xF0 \<le> b"
proof -
  assume b: "\<not> bit b 7"
  have 1: "\<not> bit (b AND 0xC0) 7" using b by (simp add: bit_and_iff)
  have 2: "b < 0x80"
  proof -
    have "take_bit 7 b = b"
      by (rule bit_word_eqI) (use b in \<open>auto simp: bit_take_bit_iff nat_less_8_cases\<close>)
    then have "unat b < 2 ^ 7" by (metis take_bit_nat_less_exp unsigned_take_bit_eq)
    then show ?thesis by (simp add: word_less_nat_alt)
  qed
  from 1 have "b AND 0xC0 \<noteq> 0x80" by (metis bit_0x80)
  moreover from 2 have "\<not> 0xF0 \<le> b" by (simp add: word_le_nat_alt word_less_nat_alt)
  ultimately show ?thesis by simp
qed

lemma utf16_length_bytes_ascii:
  "\<forall>b \<in> set bs. \<not> bit b 7 \<Longrightarrow>
     utf16_length_bytes units (bs @ cs) = utf16_length_bytes (units + word_of_nat (length bs)) cs"
  by (induction bs arbitrary: units) (auto simp: ascii_not_continuation add.assoc)

lemma utf16_length_blocks_sound:
  "utf16_length_blocks e units data = (units', rest) \<Longrightarrow>
     utf16_length_bytes units' rest = utf16_length_bytes units data"
proof (induction e units data rule: utf16_length_blocks.induct)
  case (1 e units data)
  show ?case
  proof (cases "8 \<le> length data \<and> (of_mem e (take 8 data) :: u64) AND 0x8080808080808080 = 0")
    case True
    then have "\<forall>b \<in> set (take 8 data). \<not> bit b 7" using block_has_high_bit [of "take 8 data" e] by simp
    then have "utf16_length_bytes (units + 8) (drop 8 data) = utf16_length_bytes units data"
      using utf16_length_bytes_ascii [of "take 8 data" units "drop 8 data"] True by simp
    then show ?thesis using True "1.prems" "1.IH"
      by (simp add: utf16_length_blocks.simps [of e units data])
  next
    case False
    then show ?thesis using "1.prems"
      by (auto simp: utf16_length_blocks.simps [of e units data] split: if_splits)
  qed
qed

theorem utf16_length_fast_path: "utf16_length_from_utf8 e data = utf16_length_bytes 0 data"
  using utf16_length_blocks_sound
  by (auto simp: utf16_length_from_utf8_def split: prod.split)

section \<open>UTF-8 and UTF-16 forms of a code point\<close>

abbreviation utf8_of_codepoint :: "u32 \<Rightarrow> bytes" where
  "utf8_of_codepoint cp \<equiv> append_utf8_codepoint [] cp"

lemma append_utf8_codepoint_eq: "append_utf8_codepoint out cp = out @ utf8_of_codepoint cp"
  by (simp add: append_utf8_codepoint_def)

lemma foldl_append_utf8:
  "foldl append_utf8_codepoint out cps = out @ concat (map utf8_of_codepoint cps)"
proof (induction cps arbitrary: out)
  case Nil
  show ?case by simp
next
  case (Cons cp cps)
  show ?case
    by (simp only: foldl_Cons Cons.IH list.map concat.simps append_utf8_codepoint_eq [of out] append_assoc)
qed

lemma byte_top_bit: "bit (b :: byte) 7 \<Longrightarrow> \<not> b < 0x80"
  using not_bit_above [of b 7 7] by (auto simp: word_less_nat_alt)

lemma utf8_lead_1: "cp \<le> 0x7F \<Longrightarrow> utf8_lead (ucast cp) = (cp, 1)"
proof -
  assume cp: "cp \<le> 0x7F"
  then have h: "\<not> bit cp n" if "7 \<le> n" for n
    using not_bit_above [of cp 7 n] that by (simp add: word_le_nat_alt)
  have "ucast (ucast cp :: byte) = cp"
    by (rule bit_word_eqI; simp add: nat_less_32_cases; elim disjE; simp add: h bit_simps)
  moreover have "unat (ucast cp :: byte) = unat cp"
    using cp by (simp add: unsigned_ucast_eq word_le_nat_alt take_bit_nat_eq_self del: unsigned_take_bit_eq)
  ultimately show ?thesis using cp by (simp add: utf8_lead_def word_less_nat_alt word_le_nat_alt)
qed

lemma utf8_lead_2: "cp \<le> 0x7FF \<Longrightarrow> utf8_lead (ucast (0xC0 OR drop_bit 6 cp)) = (drop_bit 6 cp, 2)"
proof -
  let ?b = "ucast (0xC0 OR drop_bit 6 cp) :: byte"
  assume "cp \<le> 0x7FF"
  then have h: "\<not> bit cp n" if "11 \<le> n" for n
    using not_bit_above [of cp 11 n] that by (simp add: word_le_nat_alt)
  have "?b AND 0xE0 = 0xC0"
    by (rule bit_word_eqI; simp add: nat_less_8_cases; elim disjE; simp add: h bit_simps)
  moreover have "ucast ?b AND (0x1F :: u32) = drop_bit 6 cp"
    by (rule bit_word_eqI; simp add: nat_less_32_cases; elim disjE; simp add: h bit_simps)
  ultimately show ?thesis using byte_top_bit [of ?b] by (simp add: utf8_lead_def bit_simps)
qed

lemma utf8_lead_3:
  "cp \<le> 0xFFFF \<Longrightarrow> utf8_lead (ucast (0xE0 OR drop_bit 12 cp)) = (drop_bit 12 cp, 3)"
proof -
  let ?b = "ucast (0xE0 OR drop_bit 12 cp) :: byte"
  assume "cp \<le> 0xFFFF"
  then have h: "\<not> bit cp n" if "16 \<le> n" for n
    using not_bit_above [of cp 16 n] that by (simp add: word_le_nat_alt)
  have "?b AND 0xF0 = 0xE0" "?b AND 0xE0 = 0xE0"
    by (rule bit_word_eqI; simp add: nat_less_8_cases; elim disjE; simp add: h bit_simps)+
  moreover have "ucast ?b AND (0x0F :: u32) = drop_bit 12 cp"
    by (rule bit_word_eqI; simp add: nat_less_32_cases; elim disjE; simp add: h bit_simps)
  ultimately show ?thesis using byte_top_bit [of ?b] by (simp add: utf8_lead_def bit_simps)
qed

lemma utf8_lead_4:
  "cp < 0x110000 \<Longrightarrow> utf8_lead (ucast (0xF0 OR drop_bit 18 cp)) = (drop_bit 18 cp, 4)"
proof -
  let ?b = "ucast (0xF0 OR drop_bit 18 cp) :: byte"
  assume "cp < 0x110000"
  then have h: "\<not> bit cp n" if "21 \<le> n" for n
    using not_bit_above [of cp 21 n] that by (simp add: word_less_nat_alt)
  have "?b AND 0xF0 = 0xF0" "?b AND 0xE0 = 0xE0"
    by (rule bit_word_eqI; simp add: nat_less_8_cases; elim disjE; simp add: h bit_simps)+
  moreover have "ucast ?b AND (0x07 :: u32) = drop_bit 18 cp"
    by (rule bit_word_eqI; simp add: nat_less_32_cases; elim disjE; simp add: h bit_simps)
  ultimately show ?thesis using byte_top_bit [of ?b] by (simp add: utf8_lead_def bit_simps)
qed

lemma push_continuation_drop:
  "push_continuation (drop_bit (n + 6) cp) (ucast (0x80 OR (drop_bit n cp AND 0x3F))) = drop_bit n cp"
proof -
  have low: "ucast (ucast (0x80 OR (x AND 0x3F)) :: byte) AND 0x3F = x AND (0x3F :: u32)" for x :: u32
    by (rule bit_word_eqI; simp add: nat_less_32_cases; elim disjE; simp add: bit_simps)
  have "push_bit 6 (drop_bit 6 x) OR (x AND 0x3F) = x" for x :: u32
    by (rule bit_word_eqI; simp add: nat_less_32_cases; elim disjE; simp add: bit_simps)
  from this [of "drop_bit n cp"] show ?thesis
    by (simp add: push_continuation_def low drop_bit_drop_bit add.commute)
qed

lemmas push_continuation_steps =
  push_continuation_drop [of 0, simplified] push_continuation_drop [of 6, simplified]
  push_continuation_drop [of 12, simplified]

text \<open>Decoding the UTF-8 form of a code point yields its UTF-16 form.\<close>

lemma utf8_to_utf16_codepoint:
  assumes "cp < 0x110000"
  shows "utf8_to_utf16 (utf8_of_codepoint cp @ rest) = utf16_of_codepoint cp @ utf8_to_utf16 rest"
  using assms utf8_lead_1 [of cp] utf8_lead_2 [of cp] utf8_lead_3 [of cp] utf8_lead_4 [of cp]
  by (simp add: append_utf8_codepoint_def utf8_to_utf16.simps(2) push_continuation_steps)

lemma utf8_to_utf16_codepoints:
  "\<forall>cp \<in> set cps. cp < 0x110000 \<Longrightarrow>
     utf8_to_utf16 (concat (map utf8_of_codepoint cps)) = concat (map utf16_of_codepoint cps)"
  by (induction cps) (simp_all add: utf8_to_utf16_codepoint)

section \<open>Surrogate pairs\<close>

lemma unat_surrogate_offset:
  fixes u base :: u16
  assumes "base \<le> u" "u \<le> base + 0x3FF" "unat base + 1023 < 2 ^ 16"
  shows "unat (ucast (u - base) :: u32) < 1024"
    and "ucast (ucast base + (ucast (u - base) :: u32)) = u"
proof -
  have "unat (base + 0x3FF) = unat base + 1023"
    using assms(3) by (simp add: unat_word_ariths)
  then have diff: "unat (u - base) = unat u - unat base" "unat u - unat base < 1024"
    using assms(1,2) by (simp_all add: unat_sub word_le_nat_alt)
  then show "unat (ucast (u - base) :: u32) < 1024"
    by (simp add: unsigned_ucast_eq take_bit_nat_eq_self)
  have "unat u < 65536" using unsigned_less [of u, where 'a = nat] by simp
  then have "unat (ucast base + (ucast (u - base) :: u32)) = unat u"
    using diff assms(1) by (simp add: unat_word_ariths unsigned_ucast_eq take_bit_nat_eq_self word_le_nat_alt)
  then show "ucast (ucast base + (ucast (u - base) :: u32)) = u"
    using \<open>unat u < 65536\<close> by (simp add: word_unat_eq_iff unsigned_ucast_eq take_bit_nat_eq_self)
qed

lemma pack_10:
  fixes x y :: u32
  assumes "unat x < 1024" "unat y < 1024"
  shows "drop_bit 10 (push_bit 10 x OR y) = x" "(push_bit 10 x OR y) AND 0x3FF = y"
    and "unat (push_bit 10 x OR y) < 2 ^ 20"
proof -
  have hx: "\<not> bit x n" and hy: "\<not> bit y n" if "10 \<le> n" for n
    using not_bit_above [of x 10 n] not_bit_above [of y 10 n] that assms by simp_all
  show "drop_bit 10 (push_bit 10 x OR y) = x" "(push_bit 10 x OR y) AND 0x3FF = y"
    by (rule bit_word_eqI; simp add: nat_less_32_cases; elim disjE; simp add: hx hy bit_simps)+
  have "take_bit 20 (push_bit 10 x OR y) = push_bit 10 x OR y"
    by (rule bit_word_eqI; simp add: nat_less_32_cases; elim disjE; simp add: hx hy bit_simps)
  then show "unat (push_bit 10 x OR y) < 2 ^ 20"
    by (metis take_bit_nat_less_exp unsigned_take_bit_eq)
qed

lemma combine_surrogates_inverse:
  assumes "is_high_surrogate hi" "is_low_surrogate lo"
  shows "utf16_of_codepoint (combine_surrogates hi lo) = [hi, lo]"
    and "combine_surrogates hi lo < 0x110000" "\<not> combine_surrogates hi lo \<le> 0xFFFF"
proof -
  define x :: u32 where "x = ucast (hi - 0xD800)"
  define y :: u32 where "y = ucast (lo - 0xDC00)"
  have x: "unat x < 1024" "ucast (0xD800 + x) = hi"
    using unat_surrogate_offset [of "0xD800" hi] assms(1) by (simp_all add: x_def is_high_surrogate_def)
  have y: "unat y < 1024" "ucast (0xDC00 + y) = lo"
    using unat_surrogate_offset [of "0xDC00" lo] assms(2) by (simp_all add: y_def is_low_surrogate_def)
  define z where "z = push_bit 10 x OR y"
  note z = pack_10 [OF x(1) y(1), folded z_def]
  have c: "combine_surrogates hi lo = 0x10000 + z"
    by (simp add: combine_surrogates_def z_def x_def y_def)
  have u: "unat (0x10000 + z) = 65536 + unat z" using z(3) by (simp add: unat_word_ariths)
  show "combine_surrogates hi lo < 0x110000" "\<not> combine_surrogates hi lo \<le> 0xFFFF"
    using u z(3) by (simp_all add: c word_less_nat_alt word_le_nat_alt)
  then show "utf16_of_codepoint (combine_surrogates hi lo) = [hi, lo]"
    using x(2) y(2) z(1,2) by (simp add: utf16_of_codepoint_def c)
qed

lemma bmp_unit: "(ucast (u :: u16) :: u32) \<le> 0xFFFF"
  using unsigned_less [of u, where 'a = nat] by (simp add: word_le_nat_alt unsigned_ucast_eq take_bit_nat_eq_self)

lemma utf16_of_bmp [simp]: "utf16_of_codepoint (ucast (u :: u16)) = [u]"
proof -
  have "ucast (ucast u :: u32) = u" by (rule bit_word_eqI) (simp add: bit_simps)
  then show ?thesis using bmp_unit [of u] by (simp add: utf16_of_codepoint_def)
qed

lemma bmp_less: "(ucast (u :: u16) :: u32) < 0x110000"
  using bmp_unit [of u] by (simp add: word_le_nat_alt word_less_nat_alt)

text \<open>Every code point the UTF-16 decoder produces is below U+110000.\<close>

lemma utf16_codepoints_range: "\<forall>cp \<in> set (utf16_codepoints us). cp < 0x110000"
  by (induction us rule: utf16_codepoints.induct) (auto simp: combine_surrogates_inverse bmp_less)

text \<open>A UTF-16 string in which every surrogate is part of a pair.\<close>

fun well_formed_utf16 :: "u16 list \<Rightarrow> bool" where
  "well_formed_utf16 [] = True"
| "well_formed_utf16 [u] = (\<not> is_high_surrogate u \<and> \<not> is_low_surrogate u)"
| "well_formed_utf16 (u # v # us) =
     (if is_high_surrogate u then is_low_surrogate v \<and> well_formed_utf16 us
      else \<not> is_low_surrogate u \<and> well_formed_utf16 (v # us))"

lemma utf16_codepoints_well_formed:
  "well_formed_utf16 us \<Longrightarrow> concat (map utf16_of_codepoint (utf16_codepoints us)) = us"
  by (induction us rule: utf16_codepoints.induct) (auto simp: combine_surrogates_inverse split: if_splits)

theorem utf16_utf8_transcoding:
  "utf8_to_utf16 (utf16_to_utf8 us) = concat (map utf16_of_codepoint (utf16_codepoints us))"
  using utf8_to_utf16_codepoints [OF utf16_codepoints_range]
  by (simp add: utf16_to_utf8_def foldl_append_utf8)

section \<open>The length written before a UTF-8 payload\<close>

lemma continuation_byte [simp]: "(ucast (0x80 OR (x AND (0x3F :: u32))) :: byte) AND 0xC0 = 0x80"
  by (rule bit_word_eqI; simp add: nat_less_8_cases; elim disjE; simp add: bit_simps)

lemma four_byte_lead_iff: "0xF0 \<le> (b :: byte) \<longleftrightarrow> drop_bit 4 b = 0xF"
proof -
  have "unat b < 256" using unsigned_less [of b, where 'a = nat] by simp
  then have "240 \<le> unat b \<longleftrightarrow> unat b div 16 = 15" by auto
  moreover have "unat (drop_bit 4 b) = unat b div 16"
    by (simp add: drop_bit_eq_div unat_div)
  ultimately show ?thesis by (simp add: word_le_nat_alt word_unat_eq_iff)
qed

lemma not_four_byte_lead: "\<not> bit (b :: byte) n \<Longrightarrow> 4 \<le> n \<Longrightarrow> n < 8 \<Longrightarrow> \<not> 0xF0 \<le> b"
proof
  assume b: "\<not> bit b n" "4 \<le> n" "n < 8" and "0xF0 \<le> b"
  then have "bit (drop_bit 4 b) (n - 4) = bit (0xF :: byte) (n - 4)"
    by (simp only: four_byte_lead_iff)
  moreover have "n - 4 = 0 \<or> n - 4 = 1 \<or> n - 4 = 2 \<or> n - 4 = 3" using b by auto
  ultimately show False using b by (auto simp: bit_drop_bit_eq)
qed

lemma not_continuation: "bit (b :: byte) 6 \<Longrightarrow> b AND 0xC0 \<noteq> 0x80"
proof
  assume b: "bit b 6" and eq: "b AND 0xC0 = 0x80"
  from b have "bit (b AND 0xC0) 6" by (simp add: bit_and_iff)
  then show False unfolding eq by simp
qed

lemma lead_byte_2:
  assumes "cp \<le> 0x7FF"
  shows "(ucast (0xC0 OR drop_bit 6 cp :: u32) :: byte) AND 0xC0 \<noteq> 0x80"
    and "\<not> 0xF0 \<le> (ucast (0xC0 OR drop_bit 6 cp) :: byte)"
proof -
  have h: "\<not> bit cp n" if "11 \<le> n" for n
    using not_bit_above [of cp 11 n] assms that by (simp add: word_le_nat_alt)
  show "(ucast (0xC0 OR drop_bit 6 cp :: u32) :: byte) AND 0xC0 \<noteq> 0x80"
    by (rule not_continuation) (simp add: bit_simps)
  show "\<not> 0xF0 \<le> (ucast (0xC0 OR drop_bit 6 cp) :: byte)"
    by (rule not_four_byte_lead [of _ 5]) (simp_all add: h bit_simps)
qed

lemma lead_byte_3:
  assumes "cp \<le> 0xFFFF"
  shows "(ucast (0xE0 OR drop_bit 12 cp :: u32) :: byte) AND 0xC0 \<noteq> 0x80"
    and "\<not> 0xF0 \<le> (ucast (0xE0 OR drop_bit 12 cp) :: byte)"
proof -
  have h: "\<not> bit cp n" if "16 \<le> n" for n
    using not_bit_above [of cp 16 n] assms that by (simp add: word_le_nat_alt)
  show "(ucast (0xE0 OR drop_bit 12 cp :: u32) :: byte) AND 0xC0 \<noteq> 0x80"
    by (rule not_continuation) (simp add: bit_simps)
  show "\<not> 0xF0 \<le> (ucast (0xE0 OR drop_bit 12 cp) :: byte)"
    by (rule not_four_byte_lead [of _ 4]) (simp_all add: h bit_simps)
qed

lemma lead_byte_4:
  shows "(ucast (0xF0 OR drop_bit 18 cp :: u32) :: byte) AND 0xC0 \<noteq> 0x80"
    and "0xF0 \<le> (ucast (0xF0 OR drop_bit 18 cp :: u32) :: byte)"
proof -
  show "(ucast (0xF0 OR drop_bit 18 cp :: u32) :: byte) AND 0xC0 \<noteq> 0x80"
    by (rule not_continuation) (simp add: bit_simps)
  show "0xF0 \<le> (ucast (0xF0 OR drop_bit 18 cp :: u32) :: byte)"
    unfolding four_byte_lead_iff
    by (rule bit_word_eqI; simp add: nat_less_8_cases; elim disjE; simp add: bit_simps)
qed

lemma utf16_length_codepoint:
  "utf16_length_bytes units (utf8_of_codepoint cp @ rest) =
     utf16_length_bytes (units + word_of_nat (length (utf16_of_codepoint cp))) rest"
proof -
  consider "cp \<le> 0x7F" | "\<not> cp \<le> 0x7F" "cp \<le> 0x7FF" | "\<not> cp \<le> 0x7FF" "cp \<le> 0xFFFF"
    | "\<not> cp \<le> 0xFFFF" by blast
  then show ?thesis
  proof cases
    case 1
    have "\<not> bit (ucast cp :: byte) 7"
      using not_bit_above [of cp 7 7] 1 by (simp add: word_le_nat_alt bit_simps)
    moreover have "cp \<le> 0xFFFF" using 1 by (simp add: word_le_nat_alt)
    ultimately show ?thesis using 1 ascii_not_continuation [of "ucast cp"]
      by (simp add: append_utf8_codepoint_def utf16_of_codepoint_def)
  next
    case 2
    then have "cp \<le> 0xFFFF" by (simp add: word_le_nat_alt)
    with 2 lead_byte_2 [of cp] show ?thesis
      by (simp add: append_utf8_codepoint_def utf16_of_codepoint_def)
  next
    case 3
    then have "\<not> cp \<le> 0x7F" by (simp add: word_le_nat_alt)
    with 3 lead_byte_3 [of cp] show ?thesis
      by (simp add: append_utf8_codepoint_def utf16_of_codepoint_def)
  next
    case 4
    then have "\<not> cp \<le> 0x7F" "\<not> cp \<le> 0x7FF" by (simp_all add: word_le_nat_alt)
    with 4 lead_byte_4 [of cp] show ?thesis
      by (simp add: append_utf8_codepoint_def utf16_of_codepoint_def)
  qed
qed

lemma utf16_length_codepoints:
  "utf16_length_bytes units (concat (map utf8_of_codepoint cps)) =
     units + word_of_nat (length (concat (map utf16_of_codepoint cps)))"
  by (induction cps arbitrary: units) (simp_all add: utf16_length_codepoint)

end
