(* ===== verification/Writer.thy ===== *)
theory Writer
  imports Unicode
begin

text \<open>
  \<^verbatim>\<open>class MemoryPackWriter\<close> (\<^verbatim>\<open>core.hpp\<close>): the three buffer modes, the low-level appends, headers,
  primitives, strings, unmanaged values and collections.

  The pointers of the class are options: \<open>w_vec = Some v\<close> is a caller-owned vector with contents
  \<open>v\<close>, \<open>w_fixedBuf = Some mem\<close> a caller-owned memory area \<open>mem\<close>, and both \<open>None\<close> (null pointers)
  select the internal vector \<open>w_owned\<close>. A store outside \<open>mem\<close> or outside the vector is \<open>UB\<close>.

  The program logic of the writer is \<open>emits B m bs\<close>: on every well-formed writer the action
  appends exactly \<open>bs\<close>, or, in a fixed buffer without room for \<open>bs\<close>, reports
  \<open>BufferOverflow\<close> (by an exception or in the error state, as the build says) and stays in
  bounds. Each operation has one \<open>emits\<close> lemma; they compose.
\<close>

section \<open>State\<close>

record writer =
  w_owned :: bytes
  w_ownedPos :: size_t
  w_vec :: "bytes option"
  w_fixedBuf :: "bytes option"
  w_fixedCap :: size_t
  w_fixedPos :: size_t
  w_error :: MemoryPackError

type_synonym 'a wop = "(writer, 'a) op"

text \<open>A \<^verbatim>\<open>std::span<uint8_t>\<close>: \<open>None\<close> is the span whose data pointer is null (its size is 0).\<close>

type_synonym span = "bytes option"

definition span_size :: "span \<Rightarrow> size_t" where
  "span_size s = (case s of None \<Rightarrow> 0 | Some mem \<Rightarrow> length mem)"

definition writer_default :: writer where
  "writer_default = \<lparr>w_owned = [], w_ownedPos = 0, w_vec = None, w_fixedBuf = None,
     w_fixedCap = 0, w_fixedPos = 0, w_error = ErrorNone\<rparr>"

definition writer_vector :: "bytes \<Rightarrow> writer" where
  "writer_vector externalBuffer = writer_default\<lparr>w_vec := Some externalBuffer\<rparr>"

definition writer_fixed :: "bytes option \<Rightarrow> size_t \<Rightarrow> writer" where
  "writer_fixed data capacity = writer_default\<lparr>w_fixedBuf := data, w_fixedCap := capacity\<rparr>"

definition writer_span :: "span \<Rightarrow> writer" where
  "writer_span buffer = writer_default\<lparr>w_fixedBuf := buffer, w_fixedCap := span_size buffer\<rparr>"

definition writer_array :: "bytes \<Rightarrow> writer" where
  "writer_array arr = writer_default\<lparr>w_fixedBuf := Some arr, w_fixedCap := length arr\<rparr>"

definition Reset_writer :: "writer \<Rightarrow> writer" where
  "Reset_writer w = w\<lparr>w_owned := [], w_ownedPos := 0, w_vec := None, w_fixedBuf := None,
     w_fixedCap := 0, w_fixedPos := 0, w_error := ErrorNone\<rparr>"

text \<open>Move construction: the new writer and what is left of the old one.\<close>

definition move_construct :: "writer \<Rightarrow> writer \<times> writer" where
  "move_construct other =
     (\<lparr>w_owned = w_owned other, w_ownedPos = w_ownedPos other, w_vec = w_vec other,
       w_fixedBuf = w_fixedBuf other, w_fixedCap = w_fixedCap other,
       w_fixedPos = w_fixedPos other, w_error = w_error other\<rparr>,
      Reset_writer (other\<lparr>w_owned := []\<rparr>))"

text \<open>Move assignment between two distinct writers.\<close>

definition move_assign :: "writer \<Rightarrow> writer \<Rightarrow> writer \<times> writer" where
  "move_assign self other =
     (self\<lparr>w_owned := w_owned other, w_ownedPos := w_ownedPos other, w_vec := w_vec other,
        w_fixedBuf := w_fixedBuf other, w_fixedCap := w_fixedCap other,
        w_fixedPos := w_fixedPos other, w_error := w_error other\<rparr>,
      Reset_writer (other\<lparr>w_owned := []\<rparr>))"

section \<open>Buffer management\<close>

text \<open>\<^verbatim>\<open>std::vector::resize\<close>: truncate or extend with zero bytes.\<close>

definition resize :: "bytes \<Rightarrow> nat \<Rightarrow> bytes" where
  "resize v n = take n v @ replicate (n - length v) 0"

definition Reserve :: "size_t \<Rightarrow> unit wop" where
  "Reserve capacity = modify (\<lambda>w.
     if w_vec w \<noteq> None then w
     else if w_fixedBuf w = None \<and> length (w_owned w) < capacity
          then w\<lparr>w_owned := resize (w_owned w) capacity\<rparr>
          else w)"

definition Clear :: "unit wop" where
  "Clear = modify (\<lambda>w.
     (if w_vec w \<noteq> None then w\<lparr>w_vec := Some []\<rparr>
      else if w_fixedBuf w \<noteq> None then w\<lparr>w_fixedPos := 0\<rparr>
      else w\<lparr>w_ownedPos := 0\<rparr>)\<lparr>w_error := ErrorNone\<rparr>)"

definition Data :: "writer \<Rightarrow> bytes" where
  "Data w = (case w_vec w of Some v \<Rightarrow> v
     | None \<Rightarrow> (case w_fixedBuf w of Some mem \<Rightarrow> mem | None \<Rightarrow> w_owned w))"

definition Size :: "writer \<Rightarrow> size_t" where
  "Size w = (case w_vec w of Some v \<Rightarrow> length v
     | None \<Rightarrow> (if w_fixedBuf w \<noteq> None then w_fixedPos w else w_ownedPos w))"

definition GetSpan :: "writer \<Rightarrow> bytes" where
  "GetSpan w = take (Size w) (Data w)"

definition RemainingCapacity :: "writer \<Rightarrow> size_t" where
  "RemainingCapacity w =
     (if w_fixedBuf w \<noteq> None then size_sub (w_fixedCap w) (w_fixedPos w) else 2 ^ 64 - 1)"

definition WriterFailed :: "writer \<Rightarrow> bool" where
  "WriterFailed w \<longleftrightarrow> w_error w \<noteq> ErrorNone"

definition WriterFail :: "build \<Rightarrow> MemoryPackError \<Rightarrow> string \<Rightarrow> unit wop" where
  "WriterFail B code what = (\<lambda>w.
     let w' = (if w_error w = ErrorNone then w\<lparr>w_error := code\<rparr> else w)
     in if has_exceptions B then (Throw (make_exception code (Size w') what), w')
        else (Ret (), w'))"

definition GetBuffer :: "build \<Rightarrow> bytes wop" where
  "GetBuffer B = (\<lambda>w. case w_vec w of
     Some v \<Rightarrow> (Ret v, w)
   | None \<Rightarrow>
       if w_fixedBuf w \<noteq> None then
         seq (WriterFail B NotSupported ''GetBuffer() is unavailable for a fixed-size buffer'')
             (return []) w
       else let v = resize (w_owned w) (w_ownedPos w) in (Ret v, w\<lparr>w_owned := v\<rparr>))"

definition TakeBuffer :: "build \<Rightarrow> bytes wop" where
  "TakeBuffer B = (\<lambda>w.
     if w_vec w \<noteq> None \<or> w_fixedBuf w \<noteq> None then
       seq (WriterFail B NotSupported ''TakeBuffer() is only available for the owned buffer'')
           (return []) w
     else (Ret (resize (w_owned w) (w_ownedPos w)), w\<lparr>w_owned := [], w_ownedPos := 0\<rparr>))"

section \<open>Low-level append\<close>

text \<open>\<open>while (next < target) next *= 2\<close>; \<open>None\<close> is the loop that never ends.\<close>

partial_function (option) grow_loop :: "size_t \<Rightarrow> size_t \<Rightarrow> size_t option" where
  "grow_loop target next =
     (if next < target then grow_loop target (size_mul next 2) else Some next)"

definition GrowOwned :: "size_t \<Rightarrow> unit wop" where
  "GrowOwned needed = (\<lambda>w.
     let target = size_add (w_ownedPos w) needed;
         next = (if w_owned w \<noteq> [] then size_mul (length (w_owned w)) 2 else 64)
     in case grow_loop target next of
          None \<Rightarrow> (UB, w)
        | Some n \<Rightarrow> (Ret (), w\<lparr>w_owned := resize (w_owned w) n\<rparr>))"

text \<open>\<^verbatim>\<open>memcpy\<close> of \<open>src\<close> to offset \<open>at\<close> of a memory area.\<close>

definition store :: "bytes \<Rightarrow> nat \<Rightarrow> bytes \<Rightarrow> bytes option" where
  "store mem at src =
     (if at + length src \<le> length mem
      then Some (take at mem @ src @ drop (at + length src) mem) else None)"

definition AppendByte :: "build \<Rightarrow> byte \<Rightarrow> unit wop" where
  "AppendByte B b = (\<lambda>w. case w_vec w of
     Some v \<Rightarrow> (Ret (), w\<lparr>w_vec := Some (v @ [b])\<rparr>)
   | None \<Rightarrow> (case w_fixedBuf w of
       Some mem \<Rightarrow>
         if w_fixedPos w \<ge> w_fixedCap w then
           WriterFail B BufferOverflow ''fixed buffer is full'' w
         else (case store mem (w_fixedPos w) [b] of
             None \<Rightarrow> (UB, w)
           | Some mem' \<Rightarrow>
               (Ret (), w\<lparr>w_fixedBuf := Some mem', w_fixedPos := size_add (w_fixedPos w) 1\<rparr>))
     | None \<Rightarrow>
         seq (if w_ownedPos w \<ge> length (w_owned w) then GrowOwned 1 else return ())
             (\<lambda>w. case store (w_owned w) (w_ownedPos w) [b] of
                None \<Rightarrow> (UB, w)
              | Some o' \<Rightarrow> (Ret (), w\<lparr>w_owned := o', w_ownedPos := size_add (w_ownedPos w) 1\<rparr>)) w))"

definition AppendBytes :: "build \<Rightarrow> bytes \<Rightarrow> unit wop" where
  "AppendBytes B src = (\<lambda>w.
     if length src = 0 then (Ret (), w)
     else case w_vec w of
       Some v \<Rightarrow> (Ret (), w\<lparr>w_vec := Some (v @ src)\<rparr>)
     | None \<Rightarrow> (case w_fixedBuf w of
         Some mem \<Rightarrow>
           if length src > size_sub (w_fixedCap w) (w_fixedPos w) then
             WriterFail B BufferOverflow ''fixed buffer is full'' w
           else (case store mem (w_fixedPos w) src of
               None \<Rightarrow> (UB, w)
             | Some mem' \<Rightarrow>
                 (Ret (), w\<lparr>w_fixedBuf := Some mem',
                            w_fixedPos := size_add (w_fixedPos w) (length src)\<rparr>))
       | None \<Rightarrow>
           seq (if length src > size_sub (length (w_owned w)) (w_ownedPos w)
                then GrowOwned (length src) else return ())
               (\<lambda>w. case store (w_owned w) (w_ownedPos w) src of
                  None \<Rightarrow> (UB, w)
                | Some o' \<Rightarrow>
                    (Ret (), w\<lparr>w_owned := o',
                               w_ownedPos := size_add (w_ownedPos w) (length src)\<rparr>)) w))"

definition WriteRaw :: "build \<Rightarrow> 'a::len word \<Rightarrow> unit wop" where
  "WriteRaw B value = AppendBytes B (mem_bytes (native B) (endian_convert (native B) value))"

definition ToInt32Length :: "build \<Rightarrow> size_t \<Rightarrow> u32 wop" where
  "ToInt32Length B sz =
     (if sz > 0x7FFFFFFF
      then seq (WriterFail B LengthLimit ''collection or string exceeds 2^31-1 elements'')
               (return (-1))
      else return (word_of_nat sz))"

definition CheckedLength :: "build \<Rightarrow> size_t \<Rightarrow> u32 wop" where
  "CheckedLength B sz = ToInt32Length B sz"

section \<open>Headers\<close>

definition WriteObjectHeader :: "build \<Rightarrow> byte \<Rightarrow> unit wop" where
  "WriteObjectHeader B memberCount =
     (if memberCount > MAX_MEMBER_COUNT
      then WriterFail B InvalidHeader ''member count above 249 collides with reserved codes''
      else AppendByte B memberCount)"

definition WriteNullObjectHeader :: "build \<Rightarrow> unit wop" where
  "WriteNullObjectHeader B = AppendByte B NULL_OBJECT"

definition WriteCollectionHeader :: "build \<Rightarrow> u32 \<Rightarrow> unit wop" where
  "WriteCollectionHeader B len = WriteRaw B len"

definition WriteNullCollectionHeader :: "build \<Rightarrow> unit wop" where
  "WriteNullCollectionHeader B = WriteRaw B NULL_COLLECTION"

definition WriteUnionHeader :: "build \<Rightarrow> u16 \<Rightarrow> unit wop" where
  "WriteUnionHeader B tag =
     (if tag < ucast WIDE_TAG then AppendByte B (ucast tag)
      else seq (AppendByte B WIDE_TAG) (WriteRaw B tag))"

definition WriteNullUnionHeader :: "build \<Rightarrow> unit wop" where
  "WriteNullUnionHeader B = AppendByte B NULL_OBJECT"

section \<open>Primitives\<close>

definition WriteBool :: "build \<Rightarrow> bool \<Rightarrow> unit wop" where
  "WriteBool B v = AppendByte B (if v then 1 else 0)"

definition WriteInt8 :: "build \<Rightarrow> byte \<Rightarrow> unit wop" where "WriteInt8 B v = AppendByte B v"
definition WriteUInt8 :: "build \<Rightarrow> byte \<Rightarrow> unit wop" where "WriteUInt8 B v = AppendByte B v"
definition WriteInt16 :: "build \<Rightarrow> u16 \<Rightarrow> unit wop" where "WriteInt16 B v = WriteRaw B v"
definition WriteUInt16 :: "build \<Rightarrow> u16 \<Rightarrow> unit wop" where "WriteUInt16 B v = WriteRaw B v"
definition WriteInt32 :: "build \<Rightarrow> u32 \<Rightarrow> unit wop" where "WriteInt32 B v = WriteRaw B v"
definition WriteUInt32 :: "build \<Rightarrow> u32 \<Rightarrow> unit wop" where "WriteUInt32 B v = WriteRaw B v"
definition WriteInt64 :: "build \<Rightarrow> u64 \<Rightarrow> unit wop" where "WriteInt64 B v = WriteRaw B v"
definition WriteUInt64 :: "build \<Rightarrow> u64 \<Rightarrow> unit wop" where "WriteUInt64 B v = WriteRaw B v"
definition WriteFloat :: "build \<Rightarrow> u32 \<Rightarrow> unit wop" where "WriteFloat B v = WriteRaw B v"
definition WriteDouble :: "build \<Rightarrow> u64 \<Rightarrow> unit wop" where "WriteDouble B v = WriteRaw B v"
definition WriteChar16 :: "build \<Rightarrow> u16 \<Rightarrow> unit wop" where "WriteChar16 B v = WriteRaw B v"

text \<open>The value of an enum is its underlying integer.\<close>

definition WriteEnum :: "build \<Rightarrow> 'a::len word \<Rightarrow> unit wop" where
  "WriteEnum B v = WriteRaw B v"

definition WriteVarIntLength :: "build \<Rightarrow> u32 \<Rightarrow> unit wop" where
  "WriteVarIntLength B value =
     (if value \<le> ucast VARINT_MAX_SINGLE then AppendByte B (ucast value)
      else if value \<le> 0xFFFF then
        seq (AppendByte B VARINT_UINT16_TAG) (WriteRaw B (ucast value :: u16))
      else seq (AppendByte B VARINT_UINT32_TAG) (WriteRaw B value))"

section \<open>Strings\<close>

definition WriteString :: "build \<Rightarrow> bytes \<Rightarrow> unit wop" where
  "WriteString B s =
     (if s = [] then WriteRaw B (0 :: u32)
      else bind (ToInt32Length B (length s)) (\<lambda>byteCount.
        if sint byteCount < 0 then return ()
        else seq (WriteRaw B (NOT byteCount))
            (seq (WriteRaw B (utf16_length_from_utf8 (native B) s))
                 (AppendBytes B s))))"

definition WriteNullString :: "build \<Rightarrow> unit wop" where
  "WriteNullString B = WriteRaw B (-1 :: u32)"

definition WriteOptionalString :: "build \<Rightarrow> bytes option \<Rightarrow> unit wop" where
  "WriteOptionalString B s =
     (case s of Some v \<Rightarrow> WriteString B v | None \<Rightarrow> WriteNullString B)"

definition WriteStringUtf16 :: "build \<Rightarrow> u16 list \<Rightarrow> unit wop" where
  "WriteStringUtf16 B s =
     (if s = [] then WriteRaw B (0 :: u32)
      else bind (ToInt32Length B (length s)) (\<lambda>units.
        if sint units < 0 then return ()
        else seq (WriteRaw B units) (for_each (WriteRaw B) s)))"

section \<open>Unmanaged structs and raw bytes\<close>

text \<open>An unmanaged value is its object representation, which is copied as it is. All operations on unmanaged structs
  (\<^verbatim>\<open>WriteUnmanaged\<close>, \<^verbatim>\<open>ReadUnmanaged\<close>, their variants for collections, and \<^verbatim>\<open>WriteNullable\<close> and \<^verbatim>\<open>ReadNullable\<close> of a struct)
  have a \<^verbatim>\<open>static_assert\<close> that the host is little-endian: a program that uses them is not compiled for another host.
  \<open>unmanaged_assert\<close> is this condition. The definitions say what a compiled program does, and the statements on what
  unmanaged structs mean to their receiver assume it of every build that takes part.\<close>

definition unmanaged_assert :: "build \<Rightarrow> bool" where
  "unmanaged_assert B \<longleftrightarrow> native B = Little"

definition WriteUnmanaged :: "build \<Rightarrow> bytes \<Rightarrow> unit wop" where
  "WriteUnmanaged B representation = AppendBytes B representation"

definition WriteBytes :: "build \<Rightarrow> bytes \<Rightarrow> unit wop" where
  "WriteBytes B data = AppendBytes B data"

section \<open>Collections\<close>

definition WriteContiguous :: "build \<Rightarrow> 'a::len word list \<Rightarrow> unit wop" where
  "WriteContiguous B data =
     (if data = [] then return ()
      else if native B = Little then AppendBytes B (concat (map (mem_bytes Little) data))
      else for_each (WriteRaw B) data)"

definition WriteVector :: "build \<Rightarrow> 'a::len word list \<Rightarrow> unit wop" where
  "WriteVector B vec =
     bind (ToInt32Length B (length vec)) (\<lambda>n.
       if sint n < 0 then return ()
       else seq (WriteCollectionHeader B n) (WriteContiguous B vec))"

definition WriteVector_bool :: "build \<Rightarrow> bool list \<Rightarrow> unit wop" where
  "WriteVector_bool B vec =
     bind (ToInt32Length B (length vec)) (\<lambda>n.
       if sint n < 0 then return ()
       else seq (WriteCollectionHeader B n)
                (for_each (\<lambda>b. AppendByte B (if b then 1 else 0)) vec))"

definition WriteStringVector :: "build \<Rightarrow> bytes list \<Rightarrow> unit wop" where
  "WriteStringVector B vec =
     bind (ToInt32Length B (length vec)) (\<lambda>n.
       if sint n < 0 then return ()
       else seq (WriteCollectionHeader B n) (for_each (WriteString B) vec))"

text \<open>\<^verbatim>\<open>WriteArray(const T* arr, int32_t count)\<close>: \<open>arr\<close> is the array the pointer refers to; reading
  past its end is \<open>UB\<close>.\<close>

definition WriteArray :: "build \<Rightarrow> 'a::len word list \<Rightarrow> u32 \<Rightarrow> unit wop" where
  "WriteArray B arr count =
     seq (WriteCollectionHeader B count)
       (if sint count \<le> 0 then return ()
        else if unat count \<le> length arr then WriteContiguous B (take (unat count) arr)
        else (\<lambda>w. (UB, w)))"

definition WriteArray_std :: "build \<Rightarrow> 'a::len word list \<Rightarrow> unit wop" where
  "WriteArray_std B arr =
     bind (ToInt32Length B (length arr)) (\<lambda>n.
       if sint n < 0 then return ()
       else seq (WriteCollectionHeader B n) (WriteContiguous B arr))"

text \<open>The element type is unmanaged: \<open>items\<close> are the object representations. The \<^verbatim>\<open>static_assert\<close> on the byte order of
  the host is \<^const>\<open>unmanaged_assert\<close>.\<close>

definition WriteUnmanagedCollection :: "build \<Rightarrow> bytes list \<Rightarrow> unit wop" where
  "WriteUnmanagedCollection B items =
     bind (ToInt32Length B (length items)) (\<lambda>n.
       if sint n < 0 then return ()
       else seq (WriteCollectionHeader B n)
                (if items \<noteq> [] then AppendBytes B (concat items) else return ()))"

section \<open>Well-formed writers and their contents\<close>

definition writer_inv :: "writer \<Rightarrow> bool" where
  "writer_inv w \<longleftrightarrow>
     w_ownedPos w \<le> length (w_owned w) \<and> length (w_owned w) < 2 ^ 64 \<and>
     (case w_fixedBuf w of None \<Rightarrow> True
      | Some mem \<Rightarrow> length mem = w_fixedCap w \<and> w_fixedPos w \<le> w_fixedCap w \<and> w_fixedCap w < 2 ^ 64)"

definition is_fixed :: "writer \<Rightarrow> bool" where
  "is_fixed w \<longleftrightarrow> w_vec w = None \<and> w_fixedBuf w \<noteq> None"

text \<open>How many bytes the target can hold: unbounded for a caller-owned vector, the capacity of a
  fixed buffer, and \<open>2 ^ 62\<close> for the internal vector, beyond which doubling its size would leave
  the range of \<^verbatim>\<open>size_t\<close>.\<close>

definition room :: "writer \<Rightarrow> nat \<Rightarrow> bool" where
  "room w n \<longleftrightarrow>
     w_vec w \<noteq> None \<or> Size w + n \<le> (if w_fixedBuf w \<noteq> None then w_fixedCap w else 2 ^ 62)"

definition same_target :: "writer \<Rightarrow> writer \<Rightarrow> bool" where
  "same_target w w' \<longleftrightarrow>
     (w_vec w' = None \<longleftrightarrow> w_vec w = None) \<and> (w_fixedBuf w' = None \<longleftrightarrow> w_fixedBuf w = None) \<and>
     w_fixedCap w' = w_fixedCap w"

lemma same_target_refl [simp]: "same_target w w"
  by (simp add: same_target_def)

lemma same_target_trans: "same_target w v \<Longrightarrow> same_target v u \<Longrightarrow> same_target w u"
  by (simp add: same_target_def)

lemma is_fixed_same: "same_target w v \<Longrightarrow> is_fixed v \<longleftrightarrow> is_fixed w"
  by (auto simp: same_target_def is_fixed_def)

lemma length_GetSpan: "writer_inv w \<Longrightarrow> length (GetSpan w) = Size w"
  by (auto simp: writer_inv_def GetSpan_def Size_def Data_def split: option.splits)

lemma room_same:
  "same_target w v \<Longrightarrow> writer_inv w \<Longrightarrow> writer_inv v \<Longrightarrow> GetSpan v = GetSpan w @ bs \<Longrightarrow>
     room v n \<longleftrightarrow> room w (length bs + n)"
  using length_GetSpan [of w] length_GetSpan [of v]
  by (auto simp: room_def same_target_def)

lemma room_mono: "room w n \<Longrightarrow> m \<le> n \<Longrightarrow> room w m"
  by (auto simp: room_def)

section \<open>The writer logic\<close>

text \<open>The three situations of an append: room for the bytes, a fixed buffer without room, and a
  fixed-buffer writer that has failed before (only reached without exceptions).\<close>

definition appended :: "writer \<Rightarrow> bytes \<Rightarrow> unit outcome \<times> writer \<Rightarrow> bool" where
  "appended w bs res \<longleftrightarrow>
     (case res of (out, w') \<Rightarrow> out = Ret () \<and> writer_inv w' \<and> same_target w w' \<and>
        w_error w' = ErrorNone \<and> GetSpan w' = GetSpan w @ bs)"

definition overflowed :: "build \<Rightarrow> writer \<Rightarrow> unit outcome \<times> writer \<Rightarrow> bool" where
  "overflowed B w res \<longleftrightarrow>
     (case res of (out, w') \<Rightarrow> writer_inv w' \<and> same_target w w' \<and> w_error w' = BufferOverflow \<and>
        (if has_exceptions B then \<exists>e. out = Throw e \<and> exn_code e = BufferOverflow else out = Ret ()))"

definition stays_failed :: "writer \<Rightarrow> unit outcome \<times> writer \<Rightarrow> bool" where
  "stays_failed w res \<longleftrightarrow>
     (case res of (out, w') \<Rightarrow> out = Ret () \<and> writer_inv w' \<and> same_target w w' \<and>
        w_error w' = w_error w)"

definition emits :: "build \<Rightarrow> unit wop \<Rightarrow> bytes \<Rightarrow> bool" where
  "emits B m bs \<longleftrightarrow> (\<forall>w. writer_inv w \<longrightarrow>
     (w_error w = ErrorNone \<and> room w (length bs) \<longrightarrow> appended w bs (m w)) \<and>
     (w_error w = ErrorNone \<and> is_fixed w \<and> \<not> room w (length bs) \<longrightarrow> overflowed B w (m w)) \<and>
     (w_error w \<noteq> ErrorNone \<and> is_fixed w \<and> \<not> has_exceptions B \<longrightarrow> stays_failed w (m w)))"

lemma emitsD:
  assumes "emits B m bs" "writer_inv w"
  shows "w_error w = ErrorNone \<Longrightarrow> room w (length bs) \<Longrightarrow> appended w bs (m w)"
    and "w_error w = ErrorNone \<Longrightarrow> is_fixed w \<Longrightarrow> \<not> room w (length bs) \<Longrightarrow> overflowed B w (m w)"
    and "w_error w \<noteq> ErrorNone \<Longrightarrow> is_fixed w \<Longrightarrow> \<not> has_exceptions B \<Longrightarrow> stays_failed w (m w)"
  using assms by (simp_all add: emits_def)

lemma appendedE:
  assumes "appended w bs res"
  obtains w' where "res = (Ret (), w')" "writer_inv w'" "same_target w w'"
    "w_error w' = ErrorNone" "GetSpan w' = GetSpan w @ bs"
  using assms by (auto simp: appended_def)

lemma emits_return [emit_intros]: "emits B (return ()) []"
  by (simp add: emits_def appended_def stays_failed_def room_def is_fixed_def writer_inv_def Size_def
      split: option.splits)

lemma emits_seq [emit_intros]:
  assumes m: "emits B m bs" and k: "emits B k cs"
  shows "emits B (seq m k) (bs @ cs)"
  unfolding emits_def
proof (intro allI impI conjI)
  fix w
  assume w: "writer_inv w"
  { assume "w_error w = ErrorNone \<and> room w (length (bs @ cs))"
    then have none: "w_error w = ErrorNone" and r: "room w (length bs + length cs)" by simp_all
    from emitsD(1) [OF m w none] room_mono [OF r, of "length bs"]
    obtain v where v: "m w = (Ret (), v)" "writer_inv v" "same_target w v" "w_error v = ErrorNone"
      "GetSpan v = GetSpan w @ bs" by (auto elim: appendedE)
    from r room_same [OF v(3) w v(2,5)] have "room v (length cs)" by simp
    from emitsD(1) [OF k v(2,4) this] v show "appended w (bs @ cs) (seq m k w)"
      by (auto simp: appended_def intro: same_target_trans split: prod.splits)
  }
  { assume "w_error w = ErrorNone \<and> is_fixed w \<and> \<not> room w (length (bs @ cs))"
    then have none: "w_error w = ErrorNone" and f: "is_fixed w"
      and r: "\<not> room w (length bs + length cs)" by simp_all
    show "overflowed B w (seq m k w)"
    proof (cases "room w (length bs)")
      case True
      from emitsD(1) [OF m w none True]
      obtain v where v: "m w = (Ret (), v)" "writer_inv v" "same_target w v" "w_error v = ErrorNone"
        "GetSpan v = GetSpan w @ bs" by (auto elim: appendedE)
      from r room_same [OF v(3) w v(2,5)] have "\<not> room v (length cs)" by simp
      from emitsD(2) [OF k v(2,4) _ this] is_fixed_same [OF v(3)] f v show ?thesis
        by (auto simp: overflowed_def intro: same_target_trans split: prod.splits)
    next
      case False
      from emitsD(2) [OF m w none f False] obtain out v where v: "m w = (out, v)" "writer_inv v"
        "same_target w v" "w_error v = BufferOverflow"
        "if has_exceptions B then \<exists>e. out = Throw e \<and> exn_code e = BufferOverflow else out = Ret ()"
        by (auto simp: overflowed_def split: prod.splits)
      show ?thesis
      proof (cases "has_exceptions B")
        case True
        with v show ?thesis by (auto simp: overflowed_def)
      next
        case False
        from emitsD(3) [OF k v(2)] is_fixed_same [OF v(3)] f v False show ?thesis
          by (auto simp: overflowed_def stays_failed_def intro: same_target_trans split: prod.splits)
      qed
    qed
  }
  { assume a: "w_error w \<noteq> ErrorNone \<and> is_fixed w \<and> \<not> has_exceptions B"
    from emitsD(3) [OF m w] a obtain v where v: "m w = (Ret (), v)" "writer_inv v"
      "same_target w v" "w_error v = w_error w" by (auto simp: stays_failed_def split: prod.splits)
    from emitsD(3) [OF k v(2)] is_fixed_same [OF v(3)] a v show "stays_failed w (seq m k w)"
      by (auto simp: stays_failed_def intro: same_target_trans split: prod.splits)
  }
qed

lemma emits_cong: "emits B m bs \<Longrightarrow> bs = cs \<Longrightarrow> emits B m cs"
  by simp

lemma emits_for_each [emit_intros]:
  "(\<And>x. x \<in> set xs \<Longrightarrow> emits B (body x) (f x)) \<Longrightarrow> emits B (for_each body xs) (concat (map f xs))"
  by (induction xs) (auto intro!: emit_intros)

section \<open>The appends\<close>

lemma grow_loop_terminates:
  assumes "0 < next" "next \<le> 2 ^ 63" "target \<le> 2 ^ 62"
  shows "\<exists>n. grow_loop target next = Some n \<and> target \<le> n \<and> next \<le> n \<and> n \<le> 2 ^ 63"
  using assms
proof (induction "target - next" arbitrary: "next" rule: less_induct)
  case less
  show ?case
  proof (cases "next < target")
    case True
    then have m: "size_mul next 2 = next * 2" using less.prems by simp
    have "\<exists>n. grow_loop target (next * 2) = Some n \<and> target \<le> n \<and> next * 2 \<le> n \<and> n \<le> 2 ^ 63"
      using True less.prems by (intro less.hyps) simp_all
    then show ?thesis using True by (subst grow_loop.simps) (auto simp: m)
  next
    case False
    then show ?thesis using less.prems by (subst grow_loop.simps) auto
  qed
qed

lemma length_resize [simp]: "length (resize v n) = n"
  by (simp add: resize_def)

lemma take_resize: "k \<le> length v \<Longrightarrow> k \<le> n \<Longrightarrow> take k (resize v n) = take k v"
  by (simp add: resize_def)

text \<open>The internal vector grows until the bytes fit.\<close>

lemma GrowOwned_ok:
  assumes "writer_inv w" "w_ownedPos w + n \<le> 2 ^ 62" "length (w_owned w) < w_ownedPos w + n"
  obtains o' where "GrowOwned n w = (Ret (), w\<lparr>w_owned := o'\<rparr>)"
    "w_ownedPos w + n \<le> length o'" "length o' \<le> 2 ^ 63"
    "take (w_ownedPos w) o' = take (w_ownedPos w) (w_owned w)"
proof -
  define nxt where "nxt = (if w_owned w \<noteq> [] then size_mul (length (w_owned w)) 2 else 64)"
  have "nxt = (if w_owned w \<noteq> [] then length (w_owned w) * 2 else 64)"
    using assms by (simp add: nxt_def)
  then have "0 < nxt" "nxt \<le> 2 ^ 63" using assms by (auto split: if_splits)
  from grow_loop_terminates [OF this assms(2)] obtain m
    where m: "grow_loop (w_ownedPos w + n) nxt = Some m" "w_ownedPos w + n \<le> m" "m \<le> 2 ^ 63"
    by auto
  have "size_add (w_ownedPos w) n = w_ownedPos w + n" using assms(2) by simp
  then have "GrowOwned n w = (Ret (), w\<lparr>w_owned := resize (w_owned w) m\<rparr>)"
    using m(1) by (simp add: GrowOwned_def nxt_def [symmetric])
  moreover have "take (w_ownedPos w) (resize (w_owned w) m) = take (w_ownedPos w) (w_owned w)"
    using assms(1) m(2) by (intro take_resize) (simp_all add: writer_inv_def)
  ultimately show ?thesis using that m(2,3) by simp
qed

lemma store_ok:
  assumes "at + length src \<le> length mem"
  shows "store mem at src = Some (take at mem @ src @ drop (at + length src) mem)"
  using assms by (simp add: store_def)

lemma WriterFail_apply:
  "w_error w = ErrorNone \<Longrightarrow> \<not> has_exceptions B \<Longrightarrow> WriterFail B c s w = (Ret (), w\<lparr>w_error := c\<rparr>)"
  "w_error w = ErrorNone \<Longrightarrow> has_exceptions B \<Longrightarrow>
     WriterFail B c s w =
       (Throw (make_exception c (Size (w\<lparr>w_error := c\<rparr>)) s), w\<lparr>w_error := c\<rparr>)"
  "w_error w \<noteq> ErrorNone \<Longrightarrow> \<not> has_exceptions B \<Longrightarrow> WriterFail B c s w = (Ret (), w)"
  by (simp_all add: WriterFail_def Let_def)

lemma writer_inv_update [simp]:
  "writer_inv (w\<lparr>w_error := c\<rparr>) \<longleftrightarrow> writer_inv w"
  "writer_inv (w\<lparr>w_vec := v\<rparr>) \<longleftrightarrow> writer_inv w"
  by (simp_all add: writer_inv_def split: option.split)

lemma Fail_overflowed:
  "writer_inv w \<Longrightarrow> w_error w = ErrorNone \<Longrightarrow> overflowed B w (WriterFail B BufferOverflow s w)"
  by (cases "has_exceptions B")
    (auto simp: overflowed_def WriterFail_apply same_target_def)

lemma Fail_stays_failed:
  "writer_inv w \<Longrightarrow> w_error w \<noteq> ErrorNone \<Longrightarrow> \<not> has_exceptions B \<Longrightarrow>
     stays_failed w (WriterFail B c s w)"
  by (simp add: stays_failed_def WriterFail_apply)

text \<open>Storing into each kind of target.\<close>

lemma appended_vec:
  "writer_inv w \<Longrightarrow> w_error w = ErrorNone \<Longrightarrow> w_vec w = Some v \<Longrightarrow>
     appended w bs (Ret (), w\<lparr>w_vec := Some (v @ bs)\<rparr>)"
  by (simp add: appended_def same_target_def GetSpan_def Size_def Data_def)

lemma fixed_store:
  assumes "writer_inv w" "w_vec w = None" "w_fixedBuf w = Some mem"
    "w_fixedPos w + length bs \<le> w_fixedCap w"
  shows "\<exists>mem'. store mem (w_fixedPos w) bs = Some mem' \<and>
     (let w' = w\<lparr>w_fixedBuf := Some mem', w_fixedPos := size_add (w_fixedPos w) (length bs)\<rparr>
      in writer_inv w' \<and> same_target w w' \<and> w_error w' = w_error w \<and>
         GetSpan w' = GetSpan w @ bs)"
proof -
  have len: "length mem = w_fixedCap w" "w_fixedCap w < 2 ^ 64" using assms by (simp_all add: writer_inv_def)
  then have "size_add (w_fixedPos w) (length bs) = w_fixedPos w + length bs" using assms by simp
  then show ?thesis using assms len
    by (simp add: store_ok writer_inv_def same_target_def GetSpan_def Size_def Data_def Let_def)
qed

lemma owned_store:
  assumes "writer_inv w" "w_vec w = None" "w_fixedBuf w = None"
    "w_ownedPos w + length bs \<le> length (w_owned w)"
  shows "\<exists>o'. store (w_owned w) (w_ownedPos w) bs = Some o' \<and>
     (let w' = w\<lparr>w_owned := o', w_ownedPos := size_add (w_ownedPos w) (length bs)\<rparr>
      in writer_inv w' \<and> same_target w w' \<and> w_error w' = w_error w \<and>
         GetSpan w' = GetSpan w @ bs)"
proof -
  have "length (w_owned w) < 2 ^ 64" using assms by (simp add: writer_inv_def)
  then have "size_add (w_ownedPos w) (length bs) = w_ownedPos w + length bs" using assms by simp
  then show ?thesis using assms
    by (simp add: store_ok writer_inv_def same_target_def GetSpan_def Size_def Data_def Let_def)
qed

text \<open>Growing first, if needed, and then storing into the internal vector.\<close>

lemma owned_append:
  assumes w: "writer_inv w" "w_error w = ErrorNone" "w_vec w = None" "w_fixedBuf w = None"
    and r: "room w (length bs)"
    and c: "c \<longleftrightarrow> length (w_owned w) < w_ownedPos w + length bs"
  shows "appended w bs
    (seq (if c then GrowOwned (length bs) else return ())
      (\<lambda>w. case store (w_owned w) (w_ownedPos w) bs of
           None \<Rightarrow> (UB, w)
         | Some o' \<Rightarrow> (Ret (), w\<lparr>w_owned := o', w_ownedPos := size_add (w_ownedPos w) (length bs)\<rparr>)) w)"
proof -
  have *: "\<exists>v. (if c then GrowOwned (length bs) else return ()) w = (Ret (), v) \<and> writer_inv v \<and>
      same_target w v \<and> w_error v = ErrorNone \<and> w_vec v = None \<and> w_fixedBuf v = None \<and>
      GetSpan v = GetSpan w \<and> w_ownedPos v + length bs \<le> length (w_owned v)"
  proof (cases c)
    case True
    have "w_ownedPos w + length bs \<le> 2 ^ 62" using r w by (simp add: room_def Size_def)
    from GrowOwned_ok [OF w(1) this] True c obtain o' where
      "GrowOwned (length bs) w = (Ret (), w\<lparr>w_owned := o'\<rparr>)" "w_ownedPos w + length bs \<le> length o'"
      "length o' \<le> 2 ^ 63" "take (w_ownedPos w) o' = take (w_ownedPos w) (w_owned w)" by auto
    then show ?thesis using w True
      by (simp add: writer_inv_def same_target_def GetSpan_def Size_def Data_def)
  next
    case False
    then show ?thesis using w c by simp
  qed
  then obtain v where v: "(if c then GrowOwned (length bs) else return ()) w = (Ret (), v)"
    "writer_inv v" "same_target w v" "w_error v = ErrorNone" "w_vec v = None" "w_fixedBuf v = None"
    "GetSpan v = GetSpan w" "w_ownedPos v + length bs \<le> length (w_owned v)" by blast
  from owned_store [OF v(2,5,6,8)] v show ?thesis
    by (auto simp: appended_def Let_def intro: same_target_trans)
qed

lemma emits_AppendBytes [emit_intros]: "emits B (AppendBytes B bs) bs"
proof (cases "bs = []")
  case True
  then have "AppendBytes B bs = return ()" by (simp add: AppendBytes_def return_def)
  with True show ?thesis using emits_return by simp
next
  case False
  show ?thesis unfolding emits_def
  proof (intro allI impI conjI; elim conjE)
    fix w assume w: "writer_inv w"
    { assume e: "w_error w = ErrorNone" and r: "room w (length bs)"
      show "appended w bs (AppendBytes B bs w)"
      proof (cases "w_vec w")
        case (Some v)
        with appended_vec [OF w e Some] False show ?thesis by (simp add: AppendBytes_def)
      next
        case vec: None
        show ?thesis
        proof (cases "w_fixedBuf w")
          case (Some mem)
          have fit: "w_fixedPos w + length bs \<le> w_fixedCap w"
            using r vec Some by (simp add: room_def Size_def)
          moreover have "size_sub (w_fixedCap w) (w_fixedPos w) = w_fixedCap w - w_fixedPos w"
            using w Some by (simp add: writer_inv_def)
          ultimately show ?thesis using fixed_store [OF w vec Some fit] vec Some False e
            by (auto simp: AppendBytes_def appended_def Let_def)
        next
          case None
          have "size_sub (length (w_owned w)) (w_ownedPos w) = length (w_owned w) - w_ownedPos w"
            using w by (simp add: writer_inv_def)
          then have "size_sub (length (w_owned w)) (w_ownedPos w) < length bs \<longleftrightarrow>
              length (w_owned w) < w_ownedPos w + length bs" using w by (auto simp: writer_inv_def)
          from owned_append [OF w e vec None r this] vec None False show ?thesis
            by (simp add: AppendBytes_def)
        qed
      qed
    }
    { assume e: "w_error w = ErrorNone" and f: "is_fixed w" and r: "\<not> room w (length bs)"
      from f obtain mem where m: "w_vec w = None" "w_fixedBuf w = Some mem" by (auto simp: is_fixed_def)
      then have "size_sub (w_fixedCap w) (w_fixedPos w) < length bs"
        using w r by (auto simp: writer_inv_def room_def Size_def)
      then show "overflowed B w (AppendBytes B bs w)"
        using Fail_overflowed [OF w e] m False by (simp add: AppendBytes_def)
    }
    { assume e: "w_error w \<noteq> ErrorNone" and f: "is_fixed w" and b: "\<not> has_exceptions B"
      from f obtain mem where m: "w_vec w = None" "w_fixedBuf w = Some mem" by (auto simp: is_fixed_def)
      then have s: "size_sub (w_fixedCap w) (w_fixedPos w) = w_fixedCap w - w_fixedPos w"
        "w_fixedPos w \<le> w_fixedCap w" using w by (simp_all add: writer_inv_def)
      show "stays_failed w (AppendBytes B bs w)"
      proof (cases "w_fixedPos w + length bs \<le> w_fixedCap w")
        case True
        then show ?thesis using fixed_store [OF w m True] m False s
          by (auto simp: AppendBytes_def stays_failed_def Let_def)
      next
        case F: False
        then have "size_sub (w_fixedCap w) (w_fixedPos w) < length bs" using s by simp
        then show ?thesis using Fail_stays_failed [OF w e b] m False by (simp add: AppendBytes_def)
      qed
    }
  qed
qed

text \<open>On a well-formed writer the one-byte append is the general one.\<close>

lemma AppendByte_AppendBytes: "writer_inv w \<Longrightarrow> AppendByte B b w = AppendBytes B [b] w"
  unfolding AppendByte_def AppendBytes_def list.size One_nat_def add_0
  by (auto simp: writer_inv_def split: option.split)

lemma emits_AppendByte [emit_intros]: "emits B (AppendByte B b) [b]"
  using emits_AppendBytes [of B "[b]"] by (simp add: emits_def AppendByte_AppendBytes)

section \<open>What each operation emits\<close>

text \<open>The reference encodings, after the wire format document.\<close>

definition enc_i32 :: "u32 \<Rightarrow> bytes" where "enc_i32 n = le_bytes n"

definition enc_length :: "nat \<Rightarrow> bytes" where "enc_length n = le_bytes (word_of_nat n :: u32)"

definition enc_union_tag :: "u16 \<Rightarrow> bytes" where
  "enc_union_tag tag = (if tag < 250 then [ucast tag] else 250 # le_bytes tag)"

definition enc_varint :: "u32 \<Rightarrow> bytes" where
  "enc_varint n = (if n \<le> 127 then [ucast n]
     else if n \<le> 0xFFFF then 0x84 # le_bytes (ucast n :: u16) else 0x82 # le_bytes n)"

definition enc_string :: "bytes \<Rightarrow> bytes" where
  "enc_string s = (if s = [] then le_bytes (0 :: u32)
     else le_bytes (NOT (word_of_nat (length s)) :: u32) @ le_bytes (utf16_length_bytes 0 s) @ s)"

definition enc_utf16_string :: "u16 list \<Rightarrow> bytes" where
  "enc_utf16_string s = enc_length (length s) @ concat (map le_bytes s)"

definition enc_collection :: "('a \<Rightarrow> bytes) \<Rightarrow> 'a list \<Rightarrow> bytes" where
  "enc_collection enc xs = enc_length (length xs) @ concat (map enc xs)"

lemma emits_WriteRaw [emit_intros]: "emits B (WriteRaw B w) (le_bytes w)"
  using emits_AppendBytes [of B "le_bytes w"] by (simp add: WriteRaw_def)

lemma ToInt32Length_small [simp]: "n \<le> 0x7FFFFFFF \<Longrightarrow> ToInt32Length B n = return (word_of_nat n)"
  by (simp add: ToInt32Length_def)

lemma ToInt32Length_nonneg [simp]: "n \<le> 0x7FFFFFFF \<Longrightarrow> \<not> sint (word_of_nat n :: u32) < 0"
  using sint_of_nat_32 [of n] by simp

lemma emits_seq_eq: "emits B m bs \<Longrightarrow> emits B k cs \<Longrightarrow> ds = bs @ cs \<Longrightarrow> emits B (seq m k) ds"
  using emits_seq by simp

lemma emits_WriteContiguous [emit_intros]:
  "emits B (WriteContiguous B (xs :: 'a::len word list)) (concat (map le_bytes xs))"
proof -
  have "(mem_bytes Little :: 'a word \<Rightarrow> bytes) = le_bytes"
    by (simp add: fun_eq_iff mem_bytes_def)
  then show ?thesis
    using emits_AppendBytes [of B "concat (map le_bytes xs)"] emits_return [of B]
      emits_for_each [of xs B "WriteRaw B" le_bytes, OF emits_WriteRaw]
    by (simp add: WriteContiguous_def)
qed

lemma emits_WriteObjectHeader [emit_intros]:
  "n \<le> 249 \<Longrightarrow> emits B (WriteObjectHeader B n) [n]"
  by (simp add: WriteObjectHeader_def emits_AppendByte leD)

lemma emits_WriteUnionHeader [emit_intros]: "emits B (WriteUnionHeader B tag) (enc_union_tag tag)"
  by (auto simp: WriteUnionHeader_def enc_union_tag_def
      intro!: emits_AppendByte emits_seq_eq [OF emits_AppendByte emits_WriteRaw])

lemma emits_WriteVarIntLength [emit_intros]: "emits B (WriteVarIntLength B n) (enc_varint n)"
  by (auto simp: WriteVarIntLength_def enc_varint_def
      intro!: emits_AppendByte emits_seq_eq [OF emits_AppendByte emits_WriteRaw])

lemma emits_WriteString [emit_intros]:
  assumes "length s \<le> 0x7FFFFFFF"
  shows "emits B (WriteString B s) (enc_string s)"
proof (cases "s = []")
  case True
  then show ?thesis using emits_WriteRaw [of B "0 :: u32"] by (simp add: WriteString_def enc_string_def)
next
  case False
  have "emits B (seq (WriteRaw B (NOT (word_of_nat (length s)) :: u32))
      (seq (WriteRaw B (utf16_length_from_utf8 (native B) s)) (AppendBytes B s))) (enc_string s)"
    using False by (intro emits_seq_eq [OF emits_WriteRaw emits_seq [OF emits_WriteRaw emits_AppendBytes]])
      (simp add: enc_string_def utf16_length_fast_path)
  then show ?thesis using False assms by (simp add: WriteString_def)
qed

lemma emits_WriteStringUtf16 [emit_intros]:
  assumes "length s \<le> 0x7FFFFFFF"
  shows "emits B (WriteStringUtf16 B s) (enc_utf16_string s)"
proof (cases "s = []")
  case True
  then show ?thesis using emits_WriteRaw [of B "0 :: u32"]
    by (simp add: WriteStringUtf16_def enc_utf16_string_def enc_length_def)
next
  case False
  have "emits B (seq (WriteRaw B (word_of_nat (length s) :: u32)) (for_each (WriteRaw B) s))
      (enc_utf16_string s)"
    by (intro emits_seq_eq [OF emits_WriteRaw emits_for_each [OF emits_WriteRaw]])
      (simp add: enc_utf16_string_def enc_length_def)
  then show ?thesis using False assms by (simp add: WriteStringUtf16_def)
qed

lemma emits_length_prefixed:
  assumes "n \<le> 0x7FFFFFFF" "emits B body bs"
  shows "emits B (bind (ToInt32Length B n) (\<lambda>k. if sint k < 0 then return ()
     else seq (WriteCollectionHeader B k) body)) (enc_length n @ bs)"
  using assms by (simp add: WriteCollectionHeader_def enc_length_def emits_seq [OF emits_WriteRaw])

lemma emits_WriteVector [emit_intros]:
  "length xs \<le> 0x7FFFFFFF \<Longrightarrow> emits B (WriteVector B xs) (enc_collection le_bytes xs)"
  unfolding WriteVector_def enc_collection_def
  by (rule emits_length_prefixed [OF _ emits_WriteContiguous])

lemma emits_WriteArray_std [emit_intros]:
  "length xs \<le> 0x7FFFFFFF \<Longrightarrow> emits B (WriteArray_std B xs) (enc_collection le_bytes xs)"
  unfolding WriteArray_std_def enc_collection_def
  by (rule emits_length_prefixed [OF _ emits_WriteContiguous])

lemma emits_WriteVector_bool [emit_intros]:
  "length xs \<le> 0x7FFFFFFF \<Longrightarrow>
     emits B (WriteVector_bool B xs) (enc_collection (\<lambda>b. [if b then 1 else 0]) xs)"
  unfolding WriteVector_bool_def enc_collection_def
  by (rule emits_length_prefixed [OF _ emits_for_each [OF emits_AppendByte]])

lemma emits_WriteStringVector [emit_intros]:
  "length xs \<le> 0x7FFFFFFF \<Longrightarrow> \<forall>s \<in> set xs. length s \<le> 0x7FFFFFFF \<Longrightarrow>
     emits B (WriteStringVector B xs) (enc_collection enc_string xs)"
  unfolding WriteStringVector_def enc_collection_def
  by (rule emits_length_prefixed [OF _ emits_for_each [OF emits_WriteString]]) simp_all

lemma emits_WriteUnmanagedCollection [emit_intros]:
  assumes "length items \<le> 0x7FFFFFFF"
  shows "emits B (WriteUnmanagedCollection B items) (enc_collection (\<lambda>r. r) items)"
proof -
  have "emits B (if items \<noteq> [] then AppendBytes B (concat items) else return ()) (concat items)"
    using emits_AppendBytes [of B "concat items"] emits_return [of B] by simp
  from emits_length_prefixed [OF assms this] show ?thesis
    by (simp add: WriteUnmanagedCollection_def enc_collection_def)
qed

text \<open>A C array of which \<open>count\<close> elements are in use.\<close>

lemma emits_WriteArray [emit_intros]:
  assumes "n \<le> length arr" "n \<le> 0x7FFFFFFF"
  shows "emits B (WriteArray B arr (word_of_nat n)) (enc_collection le_bytes (take n arr))"
proof (cases "n = 0")
  case True
  then show ?thesis using emits_seq [OF emits_WriteRaw [of B "0 :: u32"] emits_return [of B]]
    by (simp add: WriteArray_def WriteCollectionHeader_def enc_collection_def enc_length_def)
next
  case False
  have "\<not> sint (word_of_nat n :: u32) \<le> 0" using sint_of_nat_32 [of n] assms(2) False by simp
  moreover have "unat (word_of_nat n :: u32) = n" using assms(2) by (intro unat_of_nat_32) simp
  ultimately show ?thesis
    using emits_seq [OF emits_WriteRaw [of B "word_of_nat n :: u32"] emits_WriteContiguous [of B "take n arr"]] assms
    by (simp add: WriteArray_def WriteCollectionHeader_def enc_collection_def enc_length_def min.absorb2)
qed

lemma writer_inv_target [simp]: "writer_inv (w\<lparr>w_vec := v\<rparr>) = writer_inv w" "writer_inv (w\<lparr>w_error := e\<rparr>) = writer_inv w"
  by (cases "w_fixedBuf w"; simp add: writer_inv_def)+

end
