(* ===== verification/Reader.thy ===== *)
theory Reader
  imports Writer
begin

text \<open>
  \<^verbatim>\<open>class MemoryPackReader\<close> (\<^verbatim>\<open>core.hpp\<close>): position and error state, headers, primitives, strings,
  unmanaged values and collections of primitives.

  The input is \<open>r_data\<close>, the bytes from the data pointer that belong to the buffer; a read that is
  not inside it is \<open>UB\<close>. Loops over a declared count are recursions on that count.

  Two facts are proved of every operation, packaged as the locale \<open>reader_action\<close>: it is safe on any
  input (never \<open>UB\<close>, the reader stays well-formed, an error once recorded stays), and the build
  without exceptions records an error exactly when the build with exceptions throws it.
\<close>

section \<open>State\<close>

record ReaderOptions =
  maxCollectionLength :: u32
  maxStringLength :: u32
  maxDepth :: u32

definition default_options :: ReaderOptions where
  "default_options =
     \<lparr>maxCollectionLength = 0xFFFFFFFF, maxStringLength = 0xFFFFFFFF, maxDepth = 256\<rparr>"

record reader =
  r_data :: bytes
  r_size :: size_t
  r_pos :: size_t
  r_depth :: u32
  r_options :: ReaderOptions
  r_error :: MemoryPackError

type_synonym 'a rop = "(reader, 'a) op"

definition make_reader_with :: "bytes \<Rightarrow> ReaderOptions \<Rightarrow> reader" where
  "make_reader_with buf options = \<lparr>r_data = buf, r_size = length buf, r_pos = 0, r_depth = 0,
     r_options = options, r_error = ErrorNone\<rparr>"

definition make_reader :: "bytes \<Rightarrow> reader" where
  "make_reader buf = make_reader_with buf default_options"

definition SetOptions :: "ReaderOptions \<Rightarrow> unit rop" where
  "SetOptions options = modify (\<lambda>r. r\<lparr>r_options := options\<rparr>)"

definition Failed :: "reader \<Rightarrow> bool" where
  "Failed r \<longleftrightarrow> r_error r \<noteq> ErrorNone"

definition IsEnd :: "reader \<Rightarrow> bool" where
  "IsEnd r \<longleftrightarrow> r_pos r \<ge> r_size r"

definition Remaining :: "reader \<Rightarrow> size_t" where
  "Remaining r = size_sub (r_size r) (r_pos r)"

section \<open>Errors and bounds checks\<close>

definition Fail :: "build \<Rightarrow> MemoryPackError \<Rightarrow> string \<Rightarrow> unit rop" where
  "Fail B code what = (\<lambda>r.
     let r' = (if r_error r = ErrorNone then r\<lparr>r_error := code\<rparr> else r)
     in if has_exceptions B then (Throw (make_exception code (r_pos r') what), r')
        else (Ret (), r'))"

definition EnsureBytes :: "build \<Rightarrow> size_t \<Rightarrow> bool rop" where
  "EnsureBytes B n = (\<lambda>r.
     if r_error r \<noteq> ErrorNone then (Ret False, r)
     else if n > size_sub (r_size r) (r_pos r) then
       seq (Fail B BufferUnderflow ''not enough bytes remaining'') (return False) r
     else (Ret True, r))"

text \<open>Reading the next \<open>n\<close> bytes at the data pointer and moving the position past them.\<close>

definition take_bytes :: "size_t \<Rightarrow> bytes rop" where
  "take_bytes n = (\<lambda>r.
     if r_pos r + n \<le> length (r_data r)
     then (Ret (take n (drop (r_pos r) (r_data r))), r\<lparr>r_pos := size_add (r_pos r) n\<rparr>)
     else (UB, r))"

definition Advance :: "build \<Rightarrow> size_t \<Rightarrow> unit rop" where
  "Advance B n = bind (EnsureBytes B n) (\<lambda>ok.
     if \<not> ok then return () else bind (take_bytes n) (\<lambda>_. return ()))"

definition Seek :: "build \<Rightarrow> size_t \<Rightarrow> unit rop" where
  "Seek B position = (\<lambda>r.
     if position > r_size r then Fail B BufferUnderflow ''seek past end'' r
     else (Ret (), r\<lparr>r_pos := position\<rparr>))"

definition Reset :: "unit rop" where
  "Reset = modify (\<lambda>r. r\<lparr>r_pos := 0, r_depth := 0, r_error := ErrorNone\<rparr>)"

definition SubReader :: "build \<Rightarrow> size_t \<Rightarrow> reader rop" where
  "SubReader B len = bind (EnsureBytes B len) (\<lambda>ok.
     if \<not> ok then gets (\<lambda>r. make_reader_with [] (r_options r))
     else bind (take_bytes len) (\<lambda>bs. gets (\<lambda>r. make_reader_with bs (r_options r))))"

definition ReadByte :: "build \<Rightarrow> byte rop" where
  "ReadByte B = bind (EnsureBytes B 1) (\<lambda>ok.
     if \<not> ok then return 0 else bind (take_bytes 1) (\<lambda>bs. return (hd bs)))"

definition ReadRaw :: "build \<Rightarrow> 'a::len word rop" where
  "ReadRaw B = bind (EnsureBytes B (sizeof TYPE('a))) (\<lambda>ok.
     if \<not> ok then return 0
     else bind (take_bytes (sizeof TYPE('a))) (\<lambda>bs.
       return (endian_convert (native B) (of_mem (native B) bs))))"

section \<open>Headers\<close>

record ObjectHeader =
  count :: byte
  isNull :: bool

definition ReadObjectHeader :: "build \<Rightarrow> ObjectHeader rop" where
  "ReadObjectHeader B = bind (ReadByte B) (\<lambda>b.
     if b = NULL_OBJECT then return \<lparr>count = 0, isNull = True\<rparr>
     else if b > MAX_MEMBER_COUNT then
       seq (Fail B InvalidHeader ''reserved object header value 250..254'')
           (return \<lparr>count = 0, isNull = True\<rparr>)
     else return \<lparr>count = b, isNull = False\<rparr>)"

definition PeekIsNull :: "bool rop" where
  "PeekIsNull = (\<lambda>r.
     if r_pos r \<ge> r_size r then (Ret False, r)
     else if r_pos r < length (r_data r) then (Ret (r_data r ! r_pos r = NULL_OBJECT), r)
     else (UB, r))"

definition ReadCollectionHeader :: "build \<Rightarrow> u32 rop" where
  "ReadCollectionHeader B = ReadRaw B"

definition ReadCollectionLength :: "build \<Rightarrow> size_t \<Rightarrow> u32 rop" where
  "ReadCollectionLength B minElementSize = bind (ReadRaw B) (\<lambda>len.
     if sint len < 0 then
       if len \<noteq> NULL_COLLECTION then
         seq (Fail B LengthLimit ''negative collection length'') (return (-1))
       else return (-1)
     else bind (gets (\<lambda>r. (r_options r, Remaining r))) (\<lambda>(options, remaining).
       if len > maxCollectionLength options then
         seq (Fail B LengthLimit ''collection length above the configured limit'') (return (-1))
       else if minElementSize > 0 \<and> unat len > remaining div minElementSize then
         seq (Fail B LengthLimit ''collection length exceeds the remaining input'') (return (-1))
       else return len))"

definition ReadUnionHeader :: "build \<Rightarrow> u16 option rop" where
  "ReadUnionHeader B = bind (ReadByte B) (\<lambda>b.
     if b = NULL_OBJECT then return None
     else if b = WIDE_TAG then bind (ReadRaw B) (\<lambda>tag. return (Some tag))
     else if b > WIDE_TAG then
       seq (Fail B InvalidHeader ''reserved union header value 251..254'') (return None)
     else return (Some (ucast b)))"

section \<open>Primitives\<close>

definition ReadBool :: "build \<Rightarrow> bool rop" where
  "ReadBool B = bind (ReadByte B) (\<lambda>b. return (b \<noteq> 0))"

definition ReadInt8 :: "build \<Rightarrow> byte rop" where "ReadInt8 B = ReadByte B"
definition ReadUInt8 :: "build \<Rightarrow> byte rop" where "ReadUInt8 B = ReadByte B"
definition ReadInt16 :: "build \<Rightarrow> u16 rop" where "ReadInt16 B = ReadRaw B"
definition ReadUInt16 :: "build \<Rightarrow> u16 rop" where "ReadUInt16 B = ReadRaw B"
definition ReadInt32 :: "build \<Rightarrow> u32 rop" where "ReadInt32 B = ReadRaw B"
definition ReadUInt32 :: "build \<Rightarrow> u32 rop" where "ReadUInt32 B = ReadRaw B"
definition ReadInt64 :: "build \<Rightarrow> u64 rop" where "ReadInt64 B = ReadRaw B"
definition ReadUInt64 :: "build \<Rightarrow> u64 rop" where "ReadUInt64 B = ReadRaw B"
definition ReadFloat :: "build \<Rightarrow> u32 rop" where "ReadFloat B = ReadRaw B"
definition ReadDouble :: "build \<Rightarrow> u64 rop" where "ReadDouble B = ReadRaw B"
definition ReadChar16 :: "build \<Rightarrow> u16 rop" where "ReadChar16 B = ReadRaw B"

definition ReadEnum :: "build \<Rightarrow> 'a::len word rop" where
  "ReadEnum B = ReadRaw B"

definition ReadVarIntLength :: "build \<Rightarrow> u32 rop" where
  "ReadVarIntLength B = bind (ReadByte B) (\<lambda>b.
     if b \<le> VARINT_MAX_SINGLE then return (ucast b)
     else if b = VARINT_UINT16_TAG then bind (ReadRaw B) (\<lambda>n :: u16. return (ucast n))
     else if b = VARINT_UINT32_TAG then ReadRaw B
     else seq (Fail B InvalidHeader ''unsupported member length marker'') (return 0))"

section \<open>Strings\<close>

definition CheckStringLength :: "build \<Rightarrow> u32 \<Rightarrow> size_t \<Rightarrow> bool rop" where
  "CheckStringLength B byteCount unitSize =
     bind (gets (\<lambda>r. (r_options r, Remaining r))) (\<lambda>(options, remaining).
       if byteCount > maxStringLength options then
         seq (Fail B LengthLimit ''string length above the configured limit'') (return False)
       else if unitSize > 0 \<and> unat byteCount > remaining div unitSize then
         seq (Fail B LengthLimit ''string length exceeds the remaining input'') (return False)
       else return True)"

text \<open>The decoding loop of \<^verbatim>\<open>ReadUtf16String\<close>; the argument counts the units not yet consumed.\<close>

fun utf16_loop :: "build \<Rightarrow> nat \<Rightarrow> bytes \<Rightarrow> bytes rop" where
  "utf16_loop B 0 out = return out"
| "utf16_loop B (Suc n) out = bind (ReadRaw B) (\<lambda>hi :: u16.
     if is_high_surrogate hi then
       if 0 < n then
         bind (ReadRaw B) (\<lambda>lo :: u16.
           if is_low_surrogate lo then
             utf16_loop B (n - 1) (append_utf8_codepoint out (combine_surrogates hi lo))
           else
             seq (modify (\<lambda>r. r\<lparr>r_pos := size_sub (r_pos r) 2\<rparr>))
                 (utf16_loop B n (append_utf8_codepoint out 0xFFFD)))
       else utf16_loop B n (append_utf8_codepoint out 0xFFFD)
     else if is_low_surrogate hi then utf16_loop B n (append_utf8_codepoint out 0xFFFD)
     else utf16_loop B n (append_utf8_codepoint out (ucast hi)))"

definition ReadUtf16String :: "build \<Rightarrow> u32 \<Rightarrow> bytes rop" where
  "ReadUtf16String B units =
     bind (CheckStringLength B units 2) (\<lambda>ok.
       if \<not> ok then return []
       else bind (EnsureBytes B (size_mul (unat units) 2)) (\<lambda>ok.
         if \<not> ok then return []
         else utf16_loop B (unat units) []))"

definition ReadString :: "build \<Rightarrow> bytes option rop" where
  "ReadString B = bind (ReadRaw B) (\<lambda>header :: u32.
     bind (gets Failed) (\<lambda>failed.
       if failed then return (Some [])
       else if header = -1 then return None
       else if header = 0 then return (Some [])
       else if sint header > 0 then bind (ReadUtf16String B header) (\<lambda>s. return (Some s))
       else bind (ReadRaw B) (\<lambda>_ :: u32.
         bind (CheckStringLength B (NOT header) 1) (\<lambda>ok.
           if \<not> ok then return (Some [])
           else bind (EnsureBytes B (unat (NOT header))) (\<lambda>ok.
             if \<not> ok then return (Some [])
             else bind (take_bytes (unat (NOT header))) (\<lambda>s. return (Some s)))))))"

text \<open>The in-place variant: the new contents of the caller's string and the returned flag.\<close>

definition ReadString_into :: "build \<Rightarrow> (bytes \<times> bool) rop" where
  "ReadString_into B = bind (ReadString B) (\<lambda>s.
     case s of None \<Rightarrow> return ([], False) | Some v \<Rightarrow> return (v, True))"

definition ReadStringView :: "build \<Rightarrow> bytes option rop" where
  "ReadStringView B = bind (gets r_pos) (\<lambda>start.
     bind (ReadRaw B) (\<lambda>header :: u32.
       bind (gets Failed) (\<lambda>failed.
         if failed then return None
         else if header = -1 then return None
         else if header = 0 then return (Some [])
         else if sint header > 0 then seq (modify (\<lambda>r. r\<lparr>r_pos := start\<rparr>)) (return None)
         else bind (ReadRaw B) (\<lambda>_ :: u32.
           bind (CheckStringLength B (NOT header) 1) (\<lambda>ok.
             if \<not> ok then return None
             else bind (EnsureBytes B (unat (NOT header))) (\<lambda>ok.
               if \<not> ok then return None
               else bind (take_bytes (unat (NOT header))) (\<lambda>s. return (Some s))))))))"

section \<open>Unmanaged structs\<close>

text \<open>A value of an unmanaged type is its object representation; \<open>sz\<close> is \<^verbatim>\<open>sizeof(T)\<close>, and a
  value-initialised object is all zero. The \<^verbatim>\<open>static_assert\<close> of \<^verbatim>\<open>ReadUnmanaged\<close> on the byte order of the host is
  \<^const>\<open>unmanaged_assert\<close>: the definition says what the function does in the programs that compile.\<close>

definition ReadUnmanaged :: "build \<Rightarrow> size_t \<Rightarrow> bytes rop" where
  "ReadUnmanaged B sz = bind (EnsureBytes B sz) (\<lambda>ok.
     if \<not> ok then return (replicate sz 0) else bind (take_bytes sz) return)"

section \<open>Collections\<close>

definition chunks :: "nat \<Rightarrow> nat \<Rightarrow> bytes \<Rightarrow> bytes list" where
  "chunks n k bs = map (\<lambda>i. take k (drop (i * k) bs)) [0 ..< n]"

text \<open>\<open>for (size_t i = 0; i < count; ++i) out.push_back(ReadRaw<T>())\<close>\<close>

primrec read_times :: "nat \<Rightarrow> 'a rop \<Rightarrow> 'a list \<Rightarrow> 'a list rop" where
  "read_times 0 m out = return out"
| "read_times (Suc n) m out = bind m (\<lambda>x. read_times n m (out @ [x]))"

text \<open>\<open>for (int32_t i = 0; i < len && !Failed(); ++i)\<close> with a body that updates an accumulator.\<close>

primrec read_loop :: "nat \<Rightarrow> ('acc \<Rightarrow> 'acc rop) \<Rightarrow> 'acc \<Rightarrow> 'acc rop" where
  "read_loop 0 body acc = return acc"
| "read_loop (Suc n) body acc =
     bind (gets Failed) (\<lambda>failed.
       if failed then return acc else bind (body acc) (read_loop n body))"

text \<open>On a little-endian host the elements are copied in one block (whether by \<^verbatim>\<open>assign\<close> or by
  \<^verbatim>\<open>memcpy\<close> depends on the address, the values do not).\<close>

definition ReadVector :: "build \<Rightarrow> 'a::len word list rop" where
  "ReadVector B =
     bind (ReadCollectionLength B (sizeof TYPE('a))) (\<lambda>len.
       if sint len \<le> 0 then return []
       else bind (EnsureBytes B (size_mul (unat len) (sizeof TYPE('a)))) (\<lambda>ok.
         if \<not> ok then return []
         else if native B = Little then
           bind (take_bytes (size_mul (unat len) (sizeof TYPE('a)))) (\<lambda>bs.
             return (map (of_mem Little) (chunks (unat len) (sizeof TYPE('a)) bs)))
         else read_times (unat len) (ReadRaw B) []))"

definition ReadVector_bool :: "build \<Rightarrow> bool list rop" where
  "ReadVector_bool B =
     bind (ReadCollectionLength B 1) (\<lambda>len.
       if sint len \<le> 0 then return []
       else bind (EnsureBytes B (unat len)) (\<lambda>ok.
         if \<not> ok then return []
         else bind (take_bytes (unat len)) (\<lambda>bs. return (map (\<lambda>b. b \<noteq> 0) bs))))"

definition ReadStringVector :: "build \<Rightarrow> bytes list rop" where
  "ReadStringVector B =
     bind (ReadCollectionLength B 4) (\<lambda>len.
       if sint len \<le> 0 then return []
       else read_loop (unat len) (\<lambda>out. bind (ReadString B) (\<lambda>s.
         return (out @ [case s of None \<Rightarrow> [] | Some v \<Rightarrow> v]))) [])"

text \<open>\<^verbatim>\<open>ReadArray(T* arr, int32_t maxCount)\<close>: the new contents of the array and the returned count. A
  store past the end of the caller's array is \<open>UB\<close>.\<close>

definition copy_front :: "'a list \<Rightarrow> 'a list \<Rightarrow> 'a list rop" where
  "copy_front arr xs = (\<lambda>r.
     if length xs \<le> length arr then (Ret (xs @ drop (length xs) arr), r) else (UB, r))"

definition ReadArray :: "build \<Rightarrow> 'a::len word list \<Rightarrow> u32 \<Rightarrow> ('a word list \<times> u32) rop" where
  "ReadArray B arr maxCount =
     bind (ReadCollectionLength B (sizeof TYPE('a))) (\<lambda>len.
       if sint len \<le> 0 then return (arr, 0)
       else let readCount = (if sint len \<le> sint maxCount then len else maxCount) in
         bind (if sint readCount > 0 then
                 bind (EnsureBytes B (size_mul (unat readCount) (sizeof TYPE('a)))) (\<lambda>ok.
                   if \<not> ok then return None
                   else bind
                     (if native B = Little then
                        bind (take_bytes (size_mul (unat readCount) (sizeof TYPE('a)))) (\<lambda>bs.
                          return (map (of_mem Little) (chunks (unat readCount) (sizeof TYPE('a)) bs)))
                      else read_times (unat readCount) (ReadRaw B) [])
                     (\<lambda>xs. bind (copy_front arr xs) (\<lambda>a. return (Some a))))
               else return (Some arr)) (\<lambda>res.
           case res of
             None \<Rightarrow> return (arr, 0)
           | Some a \<Rightarrow>
               if sint (len - readCount) > 0 then
                 bind (EnsureBytes B (size_mul (unat (len - readCount)) (sizeof TYPE('a)))) (\<lambda>ok.
                   if \<not> ok then return (a, readCount)
                   else bind (take_bytes (size_mul (unat (len - readCount)) (sizeof TYPE('a))))
                          (\<lambda>_. return (a, readCount)))
               else return (a, readCount)))"

text \<open>\<^verbatim>\<open>ReadArray<T, N>()\<close>.\<close>

definition ReadArray_std :: "build \<Rightarrow> nat \<Rightarrow> 'a::len word list rop" where
  "ReadArray_std B N =
     bind (ReadArray B (replicate N 0) (word_of_nat N)) (\<lambda>(a, _). return a)"

text \<open>The \<^verbatim>\<open>static_assert\<close> on the byte order of the host is \<^const>\<open>unmanaged_assert\<close>.\<close>

definition ReadUnmanagedCollection :: "build \<Rightarrow> size_t \<Rightarrow> bytes list rop" where
  "ReadUnmanagedCollection B sz =
     bind (ReadCollectionLength B sz) (\<lambda>len.
       if sint len \<le> 0 then return []
       else bind (EnsureBytes B (size_mul (unat len) sz)) (\<lambda>ok.
         if \<not> ok then return []
         else bind (take_bytes (size_mul (unat len) sz)) (\<lambda>bs.
           return (chunks (unat len) sz bs))))"

section \<open>Depth and end of input\<close>

definition EnterObject :: "build \<Rightarrow> bool rop" where
  "EnterObject B = seq (modify (\<lambda>r. r\<lparr>r_depth := r_depth r + 1\<rparr>))
     (bind (gets (\<lambda>r. r_depth r > maxDepth (r_options r))) (\<lambda>tooDeep.
       if tooDeep then
         seq (Fail B LengthLimit ''object nesting deeper than the configured limit'') (return False)
       else return True))"

definition LeaveObject :: "unit rop" where
  "LeaveObject = modify (\<lambda>r. if r_depth r > 0 then r\<lparr>r_depth := r_depth r - 1\<rparr> else r)"

definition RequireEnd :: "build \<Rightarrow> bool rop" where
  "RequireEnd B = bind (gets IsEnd) (\<lambda>atEnd.
     if \<not> atEnd then
       seq (Fail B TrailingBytes ''input contains unread bytes'') (return False)
     else return True)"

section \<open>Safe actions\<close>

text \<open>The class invariant: the position is inside the input, whose size is that of an object.\<close>

definition reader_inv :: "reader \<Rightarrow> bool" where
  "reader_inv r \<longleftrightarrow> r_size r = length (r_data r) \<and> r_pos r \<le> r_size r \<and> r_size r < 2 ^ 63"

definition same_input :: "reader \<Rightarrow> reader \<Rightarrow> bool" where
  "same_input r r' \<longleftrightarrow>
     r_data r' = r_data r \<and> r_size r' = r_size r \<and> r_options r' = r_options r"

text \<open>What one run of an operation may do to a reader.\<close>

definition reader_step :: "build \<Rightarrow> reader \<Rightarrow> 'a outcome \<times> reader \<Rightarrow> bool" where
  "reader_step B r res \<longleftrightarrow> (case res of (out, r') \<Rightarrow>
     reader_inv r' \<and> same_input r r' \<and> out \<noteq> UB \<and>
     (r_error r \<noteq> ErrorNone \<longrightarrow> r_error r' = r_error r) \<and>
     (\<forall>e. out = Throw e \<longrightarrow> has_exceptions B \<and> r_error r' \<noteq> ErrorNone \<and>
        (r_error r = ErrorNone \<longrightarrow> exn_code e = r_error r')) \<and>
     (\<forall>x. out = Ret x \<longrightarrow> has_exceptions B \<longrightarrow> r_error r' = r_error r))"

definition no_exceptions :: "endian \<Rightarrow> build" where
  "no_exceptions e = \<lparr>has_exceptions = False, native = e\<rparr>"

definition with_exceptions :: "endian \<Rightarrow> build" where
  "with_exceptions e = \<lparr>has_exceptions = True, native = e\<rparr>"

lemma build_simps [simp]:
  "has_exceptions (no_exceptions e) = False" "native (no_exceptions e) = e"
  "has_exceptions (with_exceptions e) = True" "native (with_exceptions e) = e"
  by (simp_all add: no_exceptions_def with_exceptions_def)

text \<open>The results of the two builds on the same reader correspond: the same value and state when
  no error is recorded, otherwise an exception that carries the recorded error.\<close>

definition corresponds :: "'a outcome \<times> reader \<Rightarrow> 'a outcome \<times> reader \<Rightarrow> bool" where
  "corresponds quiet loud \<longleftrightarrow> (case quiet of (out, r) \<Rightarrow>
     if r_error r = ErrorNone then loud = quiet
     else \<exists>e r'. loud = (Throw e, r') \<and> exn_code e = r_error r \<and> r_error r' = r_error r)"

locale reader_action =
  fixes act :: "build \<Rightarrow> 'a rop"
  assumes step: "reader_inv r \<Longrightarrow> reader_step B r (act B r)"
    and builds_agree: "reader_inv r \<Longrightarrow> r_error r = ErrorNone \<Longrightarrow>
      corresponds (act (no_exceptions e) r) (act (with_exceptions e) r)"
begin

lemma no_UB: "reader_inv r \<Longrightarrow> fst (act B r) \<noteq> UB"
  using step [of r B] by (auto simp: reader_step_def split: prod.splits)

lemma keeps_inv: "reader_inv r \<Longrightarrow> reader_inv (snd (act B r))"
  using step [of r B] by (auto simp: reader_step_def split: prod.splits)

lemma error_sticks: "reader_inv r \<Longrightarrow> r_error r \<noteq> ErrorNone \<Longrightarrow> r_error (snd (act B r)) = r_error r"
  using step [of r B] by (auto simp: reader_step_def split: prod.splits)

lemma quiet_returns: "reader_inv r \<Longrightarrow> \<not> has_exceptions B \<Longrightarrow> \<exists>x. fst (act B r) = Ret x"
  using step [of r B] by (cases "fst (act B r)") (auto simp: reader_step_def split: prod.splits)

end

lemma same_input_refl [simp]: "same_input r r"
  by (simp add: same_input_def)

lemma same_input_trans: "same_input r s \<Longrightarrow> same_input s t \<Longrightarrow> same_input r t"
  by (simp add: same_input_def)

lemma reader_step_refl [simp]: "reader_inv r \<Longrightarrow> reader_step B r (Ret x, r)"
  by (simp add: reader_step_def)

lemma reader_step_bind:
  assumes m: "reader_step B r (m r)"
    and f: "\<And>x s. m r = (Ret x, s) \<Longrightarrow> reader_step B s (f x s)"
  shows "reader_step B r (bind m f r)"
proof (cases m r f rule: bind_cases)
  case (Ret x s)
  from m Ret f [OF Ret(1)] show ?thesis
    by (auto simp: reader_step_def intro: same_input_trans split: prod.splits)
next
  case (Throw e s)
  with m show ?thesis by (simp add: reader_step_def)
next
  case (UB s)
  with m show ?thesis by (simp add: reader_step_def)
qed

lemma corresponds_bind:
  assumes m: "corresponds (m r) (m' r)" and s: "reader_step B r (m r)" and B: "\<not> has_exceptions B"
    and f: "\<And>x s. m r = (Ret x, s) \<Longrightarrow> r_error s = ErrorNone \<Longrightarrow> corresponds (f x s) (f' x s)"
    and step: "\<And>x s. m r = (Ret x, s) \<Longrightarrow> reader_step B s (f x s)"
  shows "corresponds (bind m f r) (bind m' f' r)"
proof (cases m r f rule: bind_cases)
  case (Ret x t)
  show ?thesis
  proof (cases "r_error t = ErrorNone")
    case True
    with m Ret have "m' r = (Ret x, t)" by (simp add: corresponds_def)
    with Ret f [OF Ret(1) True] show ?thesis by simp
  next
    case False
    with m Ret obtain e r' where "m' r = (Throw e, r')" "exn_code e = r_error t" "r_error r' = r_error t"
      by (auto simp: corresponds_def)
    moreover have "r_error (snd (f x t)) = r_error t"
      using step [OF Ret(1)] False by (auto simp: reader_step_def split: prod.splits)
    ultimately show ?thesis using Ret False by (auto simp: corresponds_def split: prod.splits)
  qed
next
  case (Throw e t)
  with s B show ?thesis by (simp add: reader_step_def)
next
  case (UB t)
  with s show ?thesis by (simp add: reader_step_def)
qed

lemma reader_actionI:
  assumes "\<And>B r. reader_inv r \<Longrightarrow> reader_step B r (act B r)"
    and "\<And>r e. reader_inv r \<Longrightarrow> r_error r = ErrorNone \<Longrightarrow>
      corresponds (act (no_exceptions e) r) (act (with_exceptions e) r)"
  shows "reader_action act"
  using assms by unfold_locales

lemma reader_action_return [reader_intros]: "reader_action (\<lambda>B. return x)"
  by unfold_locales (simp_all add: corresponds_def)

lemma reader_action_gets [reader_intros]: "reader_action (\<lambda>B. gets f)"
  by unfold_locales (simp_all add: corresponds_def)

text \<open>In a sequence, the second part may rely on a property \<open>Q\<close> of what the first returns.\<close>

lemma reader_action_bind_post:
  assumes m: "reader_action m" and post: "\<And>B r x s. reader_inv r \<Longrightarrow> m B r = (Ret x, s) \<Longrightarrow> Q x"
    and f: "\<And>x. Q x \<Longrightarrow> reader_action (\<lambda>B. f B x)"
  shows "reader_action (\<lambda>B. bind (m B) (f B))"
proof -
  have Q: "reader_action (\<lambda>B. f B x) \<and> reader_inv s" if "m B r = (Ret x, s)" "reader_inv r" for B x r s
    using f [OF post [OF that(2,1)]] reader_action.step [OF m that(2), of B] that
    by (simp add: reader_step_def)
  have step: "reader_step B s (f B x s)" if "m B r = (Ret x, s)" "reader_inv r" for B x r s
    using Q [OF that] reader_action.step by blast
  have agree: "corresponds (f (no_exceptions e) x s) (f (with_exceptions e) x s)"
    if "m (no_exceptions e) r = (Ret x, s)" "reader_inv r" "r_error s = ErrorNone" for e x r s
    using Q [OF that(1,2)] that(3) reader_action.builds_agree by blast
  show ?thesis
  proof (rule reader_actionI)
    fix B r assume r: "reader_inv r"
    show "reader_step B r (bind (m B) (f B) r)"
      by (rule reader_step_bind [where m = "m B"])
        (simp_all add: reader_action.step [OF m r] step [OF _ r])
  next
    fix r e assume r: "reader_inv r" "r_error r = ErrorNone"
    show "corresponds (bind (m (no_exceptions e)) (f (no_exceptions e)) r)
            (bind (m (with_exceptions e)) (f (with_exceptions e)) r)"
    proof (rule corresponds_bind [where B = "no_exceptions e"])
      show "corresponds (m (no_exceptions e) r) (m (with_exceptions e) r)"
        by (rule reader_action.builds_agree [OF m r])
      show "reader_step (no_exceptions e) r (m (no_exceptions e) r)"
        by (rule reader_action.step [OF m r(1)])
    qed (simp_all add: agree [OF _ r(1)] step [OF _ r(1)])
  qed
qed

lemma reader_action_bind [reader_intros]:
  "reader_action m \<Longrightarrow> (\<And>x. reader_action (\<lambda>B. f B x)) \<Longrightarrow> reader_action (\<lambda>B. bind (m B) (f B))"
  by (rule reader_action_bind_post [where Q = "\<lambda>_. True"]) simp_all

lemma reader_action_seq [reader_intros]:
  "reader_action m \<Longrightarrow> reader_action k \<Longrightarrow> reader_action (\<lambda>B. seq (m B) (k B))"
  unfolding seq_def by (intro reader_intros)

lemma reader_action_if [reader_intros]:
  "(c \<Longrightarrow> reader_action m) \<Longrightarrow> (\<not> c \<Longrightarrow> reader_action k) \<Longrightarrow>
     reader_action (\<lambda>B. if c then m B else k B)"
  by (cases c) simp_all

lemma reader_action_case_option [reader_intros]:
  "(x = None \<Longrightarrow> reader_action m) \<Longrightarrow> (\<And>y. x = Some y \<Longrightarrow> reader_action (\<lambda>B. k B y)) \<Longrightarrow>
     reader_action (\<lambda>B. case x of None \<Rightarrow> m B | Some y \<Rightarrow> k B y)"
  by (cases x) simp_all

lemma reader_action_case_prod [reader_intros]:
  "(\<And>y z. x = (y, z) \<Longrightarrow> reader_action (\<lambda>B. k B y z)) \<Longrightarrow>
     reader_action (\<lambda>B. case x of (y, z) \<Rightarrow> k B y z)"
  by (cases x) simp_all

text \<open>An action that depends on the host byte order: one byte order at a time.\<close>

lemma reader_action_switch:
  assumes "\<And>e. reader_action (m e)"
  shows "reader_action (\<lambda>B. m (native B) B)"
proof (rule reader_actionI)
  fix B r assume "reader_inv r"
  from reader_action.step [OF assms this] show "reader_step B r (m (native B) B r)" .
next
  fix r e assume "reader_inv r" "r_error r = ErrorNone"
  from reader_action.builds_agree [OF assms this, of e e]
  show "corresponds (m (native (no_exceptions e)) (no_exceptions e) r)
      (m (native (with_exceptions e)) (with_exceptions e) r)" by simp
qed

lemma reader_action_native [reader_intros]:
  assumes "reader_action m" "reader_action k"
  shows "reader_action (\<lambda>B. if native B = x then m B else k B)"
  by (rule reader_action_switch [where m = "\<lambda>e B. if e = x then m B else k B"])
    (intro reader_intros assms)

lemma reader_action_Fail [reader_intros]: "c \<noteq> ErrorNone \<Longrightarrow> reader_action (\<lambda>B. Fail B c what)"
  by unfold_locales
    (auto simp: Fail_def reader_step_def corresponds_def reader_inv_def same_input_def Let_def)

text \<open>The bounds check followed by the read it guards.\<close>

lemma Remaining_eq: "reader_inv r \<Longrightarrow> Remaining r = length (r_data r) - r_pos r"
  by (simp add: Remaining_def reader_inv_def)

lemma EnsureBytes_cases [consumes 1, case_names ok failed short]:
  assumes "reader_inv r"
  obtains (ok) "EnsureBytes B n r = (Ret True, r)" "r_error r = ErrorNone"
      "r_pos r + n \<le> length (r_data r)"
  | (failed) "EnsureBytes B n r = (Ret False, r)" "r_error r \<noteq> ErrorNone"
  | (short) "EnsureBytes B n r =
        seq (Fail B BufferUnderflow ''not enough bytes remaining'') (return False) r"
      "r_error r = ErrorNone" "length (r_data r) < r_pos r + n"
proof -
  have "size_sub (r_size r) (r_pos r) = length (r_data r) - r_pos r"
    using assms by (simp add: reader_inv_def)
  moreover have "r_pos r \<le> length (r_data r)" using assms by (simp add: reader_inv_def)
  ultimately show ?thesis using that
    by (cases "r_error r = ErrorNone"; cases "length (r_data r) < r_pos r + n")
      (auto simp: EnsureBytes_def)
qed

lemma take_bytes_ok:
  assumes "reader_inv r" "r_pos r + n \<le> length (r_data r)"
  shows "take_bytes n r =
      (Ret (take n (drop (r_pos r) (r_data r))), r\<lparr>r_pos := r_pos r + n\<rparr>)"
    and "reader_inv (r\<lparr>r_pos := r_pos r + n\<rparr>)"
  using assms by (simp_all add: take_bytes_def reader_inv_def)

lemma reader_step_moved:
  assumes "reader_step B (r\<lparr>r_pos := p\<rparr>) res"
  shows "reader_step B r res"
  using assms by (auto simp: reader_step_def same_input_def split: prod.splits)

lemma reader_action_ensure [reader_intros]:
  assumes f: "\<And>bs. length bs = n \<Longrightarrow> reader_action (\<lambda>B. f B bs)" and g: "reader_action g"
  shows "reader_action (\<lambda>B. bind (EnsureBytes B n) (\<lambda>ok.
     if \<not> ok then g B else bind (take_bytes n) (f B)))" (is "reader_action ?act")
proof -
  let ?fail = "\<lambda>B. seq (Fail B BufferUnderflow ''not enough bytes remaining'') (g B)"
  let ?take = "\<lambda>r. take n (drop (r_pos r) (r_data r))"
  have fail: "reader_action ?fail" by (intro reader_intros g) simp
  have eq: "?act B r = (if r_error r = ErrorNone then
       if r_pos r + n \<le> length (r_data r) then
         f B (?take r) (r\<lparr>r_pos := r_pos r + n\<rparr>) else ?fail B r
       else g B r)" if r: "reader_inv r" for B r
    using r
  proof (cases rule: EnsureBytes_cases [where B = B and n = n])
    case ok
    then show ?thesis by (simp add: take_bytes_ok [OF r])
  next
    case failed
    then show ?thesis by simp
  next
    case short
    then show ?thesis
      by (simp add: bind_def seq_def split: prod.splits outcome.splits)
  qed
  show ?thesis
  proof (rule reader_actionI)
    fix B r assume r: "reader_inv r"
    have "reader_step B r (f B (?take r) (r\<lparr>r_pos := r_pos r + n\<rparr>))"
      if "r_pos r + n \<le> length (r_data r)"
      using that by (intro reader_step_moved [OF reader_action.step [OF f]] take_bytes_ok(2) r) simp_all
    then show "reader_step B r (?act B r)"
      using reader_action.step [OF g r] reader_action.step [OF fail r] eq [OF r] by simp
  next
    fix r e assume r: "reader_inv r" "r_error r = ErrorNone"
    have "corresponds (f (no_exceptions e) (?take r) (r\<lparr>r_pos := r_pos r + n\<rparr>))
        (f (with_exceptions e) (?take r) (r\<lparr>r_pos := r_pos r + n\<rparr>))"
      if "r_pos r + n \<le> length (r_data r)"
      using that r by (intro reader_action.builds_agree [OF f] take_bytes_ok(2)) simp_all
    then show "corresponds (?act (no_exceptions e) r) (?act (with_exceptions e) r)"
      using reader_action.builds_agree [OF fail r] eq [OF r(1)] r by simp
  qed
qed

lemma reader_action_modify:
  assumes "\<And>r. reader_inv r \<Longrightarrow> reader_inv (f r) \<and> same_input r (f r) \<and> r_error (f r) = r_error r"
  shows "reader_action (\<lambda>B. modify f)"
  using assms by unfold_locales (auto simp: reader_step_def corresponds_def)

lemma reader_action_EnsureBytes [reader_intros]: "reader_action (\<lambda>B. EnsureBytes B n)"
proof (rule reader_actionI)
  fix B r assume r: "reader_inv r"
  have "reader_action (\<lambda>B. seq (Fail B BufferUnderflow ''not enough bytes remaining'') (return False))"
    by (intro reader_intros) simp
  from reader_action.step [OF this r, of B] r show "reader_step B r (EnsureBytes B n r)"
    by (simp add: EnsureBytes_def)
next
  fix r e assume r: "reader_inv r" "r_error r = ErrorNone"
  have "reader_action (\<lambda>B. seq (Fail B BufferUnderflow ''not enough bytes remaining'') (return False))"
    by (intro reader_intros) simp
  from reader_action.builds_agree [OF this r, of e] r
  show "corresponds (EnsureBytes (no_exceptions e) n r) (EnsureBytes (with_exceptions e) n r)"
    by (simp add: EnsureBytes_def corresponds_def)
qed

lemma reader_action_Advance [reader_intros]: "reader_action (\<lambda>B. Advance B n)"
  unfolding Advance_def by (intro reader_intros)

lemma reader_action_ReadByte [reader_intros]: "reader_action ReadByte"
  unfolding ReadByte_def [abs_def] by (intro reader_intros)

text \<open>The value read depends on the host byte order only.\<close>

lemma reader_action_native_return [reader_intros]: "reader_action (\<lambda>B. return (f (native B)))"
  by unfold_locales (simp_all add: corresponds_def)

lemma reader_action_ReadRaw [reader_intros]: "reader_action (\<lambda>B. ReadRaw B :: 'a::len word rop)"
  unfolding ReadRaw_def
  by (intro reader_intros reader_action_native_return
      [where f = "\<lambda>e. endian_convert e (of_mem e bs)" for bs])

lemma reader_action_ReadObjectHeader [reader_intros]: "reader_action ReadObjectHeader"
  unfolding ReadObjectHeader_def [abs_def] by (intro reader_intros) simp

lemma reader_action_PeekIsNull [reader_intros]: "reader_action (\<lambda>B. PeekIsNull)"
  by unfold_locales (auto simp: PeekIsNull_def reader_step_def corresponds_def reader_inv_def)

lemma reader_action_ReadCollectionLength [reader_intros]:
  "reader_action (\<lambda>B. ReadCollectionLength B n)"
  unfolding ReadCollectionLength_def by (intro reader_intros) simp_all

lemma reader_action_ReadUnionHeader [reader_intros]: "reader_action ReadUnionHeader"
  unfolding ReadUnionHeader_def [abs_def] by (intro reader_intros) simp_all

lemma reader_action_ReadBool [reader_intros]: "reader_action ReadBool"
  unfolding ReadBool_def [abs_def] by (intro reader_intros)

lemma reader_action_ReadVarIntLength [reader_intros]: "reader_action ReadVarIntLength"
  unfolding ReadVarIntLength_def [abs_def] by (intro reader_intros) simp_all

lemma reader_action_CheckStringLength [reader_intros]:
  "reader_action (\<lambda>B. CheckStringLength B n k)"
  unfolding CheckStringLength_def by (intro reader_intros) simp_all

lemma reader_action_Seek [reader_intros]: "reader_action (\<lambda>B. Seek B p)"
  by unfold_locales (auto simp: Seek_def Fail_def Let_def reader_step_def corresponds_def
      reader_inv_def same_input_def)

lemma reader_action_EnterObject [reader_intros]: "reader_action EnterObject"
  unfolding EnterObject_def [abs_def]
  by (intro reader_intros reader_action_modify) (auto simp: reader_inv_def same_input_def)

lemma reader_action_LeaveObject [reader_intros]: "reader_action (\<lambda>B. LeaveObject)"
  unfolding LeaveObject_def
  by (intro reader_action_modify) (auto simp: reader_inv_def same_input_def)

lemma reader_action_RequireEnd [reader_intros]: "reader_action RequireEnd"
  unfolding RequireEnd_def [abs_def] by (intro reader_intros) simp

lemma reader_action_SubReader [reader_intros]: "reader_action (\<lambda>B. SubReader B n)"
  unfolding SubReader_def by (intro reader_intros)

lemma reader_action_ReadUnmanaged [reader_intros]: "reader_action (\<lambda>B. ReadUnmanaged B n)"
  unfolding ReadUnmanaged_def by (intro reader_intros)

lemma reader_action_read_times [reader_intros]:
  assumes "reader_action m"
  shows "reader_action (\<lambda>B. read_times n (m B) out)"
proof (induction n arbitrary: out)
  case 0
  show ?case unfolding read_times.simps read_loop.simps by (rule reader_action_return)
next
  case (Suc n)
  show ?case unfolding read_times.simps by (intro reader_intros assms Suc)
qed

lemma reader_action_read_loop [reader_intros]:
  assumes "\<And>acc. reader_action (\<lambda>B. body B acc)"
  shows "reader_action (\<lambda>B. read_loop n (body B) acc)"
proof (induction n arbitrary: acc)
  case 0
  show ?case unfolding read_times.simps read_loop.simps by (rule reader_action_return)
next
  case (Suc n)
  show ?case unfolding read_loop.simps by (intro reader_intros assms Suc)
qed

lemma reader_action_ensure_native [reader_intros]:
  assumes m: "reader_action (\<lambda>B. bind (EnsureBytes B n) (\<lambda>ok. if \<not> ok then g B else m B))"
    and k: "reader_action (\<lambda>B. bind (EnsureBytes B n) (\<lambda>ok. if \<not> ok then g B else k B))"
  shows "reader_action (\<lambda>B. bind (EnsureBytes B n) (\<lambda>ok.
     if \<not> ok then g B else if native B = x then m B else k B))"
proof (rule reader_action_switch [where m = "\<lambda>e B. bind (EnsureBytes B n) (\<lambda>ok.
     if \<not> ok then g B else if e = x then m B else k B)"])
  fix e show "reader_action (\<lambda>B. bind (EnsureBytes B n) (\<lambda>ok.
     if \<not> ok then g B else if e = x then m B else k B))"
    using m k by (cases "e = x") (simp_all cong: if_cong)
qed

lemma reader_action_ReadVector [reader_intros]:
  "reader_action (\<lambda>B. ReadVector B :: 'a::len word list rop)"
  unfolding ReadVector_def by (intro reader_intros)

lemma reader_action_ReadVector_bool [reader_intros]: "reader_action ReadVector_bool"
  unfolding ReadVector_bool_def [abs_def] by (intro reader_intros)

lemma reader_action_ReadUnmanagedCollection [reader_intros]:
  "reader_action (\<lambda>B. ReadUnmanagedCollection B sz)"
  unfolding ReadUnmanagedCollection_def by (intro reader_intros)

section \<open>Decoding\<close>

text \<open>\<open>decodes F m bs v\<close>: on every well-formed reader without an error whose unread input starts with
  \<open>bs\<close>, and whose limits and nesting depth satisfy \<open>F\<close>, the operation returns \<open>v\<close> and consumes
  exactly \<open>bs\<close>.\<close>

definition decodes :: "(ReaderOptions \<Rightarrow> nat \<Rightarrow> bool) \<Rightarrow> 'a rop \<Rightarrow> bytes \<Rightarrow> 'a \<Rightarrow> bool" where
  "decodes F m bs v \<longleftrightarrow> (\<forall>r rest.
     reader_inv r \<longrightarrow> r_error r = ErrorNone \<longrightarrow> drop (r_pos r) (r_data r) = bs @ rest \<longrightarrow>
     F (r_options r) (unat (r_depth r)) \<longrightarrow>
     m r = (Ret v, r\<lparr>r_pos := r_pos r + length bs\<rparr>))"

lemma decodesI:
  assumes "\<And>r rest. reader_inv r \<Longrightarrow> r_error r = ErrorNone \<Longrightarrow>
    drop (r_pos r) (r_data r) = bs @ rest \<Longrightarrow> F (r_options r) (unat (r_depth r)) \<Longrightarrow>
    r_pos r + length bs + length rest = length (r_data r) \<Longrightarrow>
    m r = (Ret v, r\<lparr>r_pos := r_pos r + length bs\<rparr>)"
  shows "decodes F m bs v"
  unfolding decodes_def
proof (intro allI impI)
  fix r rest
  assume "reader_inv r" "r_error r = ErrorNone" "drop (r_pos r) (r_data r) = bs @ rest"
    "F (r_options r) (unat (r_depth r))"
  with drop_eq_append_length [of "r_pos r" "r_data r" bs rest]
  show "m r = (Ret v, r\<lparr>r_pos := r_pos r + length bs\<rparr>)"
    by (intro assms) (simp_all add: reader_inv_def)
qed

lemma decodesD:
  "decodes F m bs v \<Longrightarrow> reader_inv r \<Longrightarrow> r_error r = ErrorNone \<Longrightarrow>
     drop (r_pos r) (r_data r) = bs @ rest \<Longrightarrow> F (r_options r) (unat (r_depth r)) \<Longrightarrow>
     m r = (Ret v, r\<lparr>r_pos := r_pos r + length bs\<rparr>)"
  unfolding decodes_def by blast

abbreviation any_limits :: "ReaderOptions \<Rightarrow> nat \<Rightarrow> bool" where
  "any_limits \<equiv> \<lambda>_ _. True"

lemma decodes_mono:
  "decodes F m bs v \<Longrightarrow> (\<And>opts d. G opts d \<Longrightarrow> F opts d) \<Longrightarrow> decodes G m bs v"
  unfolding decodes_def by blast

lemma decodes_return [decode_intros]: "decodes F (return v) [] v"
  by (simp add: decodes_def)

lemma decodes_return_simp [simp]: "decodes F (return v) [] v" "decodes F (Pair (Ret v)) [] v"
  by (simp_all add: decodes_def)

lemma decodes_bind:
  assumes m: "decodes F m bs v" and f: "decodes F (f v) cs w"
  shows "decodes F (bind m f) (bs @ cs) w"
proof (rule decodesI)
  fix r rest
  assume r: "reader_inv r" "r_error r = ErrorNone" "drop (r_pos r) (r_data r) = (bs @ cs) @ rest"
    "F (r_options r) (unat (r_depth r))" "r_pos r + length (bs @ cs) + length rest = length (r_data r)"
  let ?s = "r\<lparr>r_pos := r_pos r + length bs\<rparr>"
  have "m r = (Ret v, ?s)" using decodesD [OF m r(1,2) _ r(4)] r(3) by simp
  moreover have "f v ?s = (Ret w, ?s\<lparr>r_pos := r_pos ?s + length cs\<rparr>)"
    using r by (intro decodesD [OF f]) (simp_all add: reader_inv_def drop_eq_append_drop [of _ _ bs])
  ultimately show "bind m f r = (Ret w, r\<lparr>r_pos := r_pos r + length (bs @ cs)\<rparr>)"
    by (simp add: add.assoc)
qed

lemma decodes_bind_eq:
  "decodes F m bs v \<Longrightarrow> decodes F (f v) cs w \<Longrightarrow> ds = bs @ cs \<Longrightarrow> decodes F (bind m f) ds w"
  by (simp add: decodes_bind)

lemma decodes_skip: "decodes F m bs v \<Longrightarrow> decodes F k cs w \<Longrightarrow> decodes F (bind m (\<lambda>_. k)) (bs @ cs) w"
  by (rule decodes_bind)

lemma decodes_seq: "decodes F m bs v \<Longrightarrow> decodes F k cs w \<Longrightarrow> decodes F (seq m k) (bs @ cs) w"
  unfolding seq_def by (rule decodes_skip)

lemma decodes_map:
  "decodes F m bs v \<Longrightarrow> g v = w \<Longrightarrow> decodes F (bind m (\<lambda>x. return (g x))) bs w"
  using decodes_bind [of F m bs v "\<lambda>x. return (g x)" "[]" w] decodes_return [of F w] by simp

lemma decodes_gets_Failed: "decodes F (f False) bs w \<Longrightarrow> decodes F (bind (gets Failed) f) bs w"
  by (simp add: decodes_def Failed_def)

text \<open>The bounds check passes when the bytes it guards are there.\<close>

lemma EnsureBytes_ok:
  assumes "reader_inv r" "r_error r = ErrorNone" "r_pos r + n \<le> length (r_data r)"
  shows "EnsureBytes B n r = (Ret True, r)"
  using assms(1) assms by (cases rule: EnsureBytes_cases [where B = B and n = n]) simp_all

lemma decodes_ensure:
  assumes "decodes F (f True) bs v" "n \<le> length bs"
  shows "decodes F (bind (EnsureBytes B n) f) bs v"
proof (rule decodesI)
  fix r rest
  assume r: "reader_inv r" "r_error r = ErrorNone" "drop (r_pos r) (r_data r) = bs @ rest"
    "F (r_options r) (unat (r_depth r))" "r_pos r + length bs + length rest = length (r_data r)"
  have "EnsureBytes B n r = (Ret True, r)" using r assms(2) by (intro EnsureBytes_ok) simp_all
  with decodesD [OF assms(1) r(1-4)] show
    "bind (EnsureBytes B n) f r = (Ret v, r\<lparr>r_pos := r_pos r + length bs\<rparr>)" by simp
qed

lemma decodes_take_bytes [decode_intros]: "n = length bs \<Longrightarrow> decodes F (take_bytes n) bs bs"
  by (rule decodesI) (simp add: take_bytes_ok(1))

lemma decodes_take:
  assumes "n = length bs" "decodes F (f bs) [] v"
  shows "decodes F (bind (EnsureBytes B n) (\<lambda>ok. if \<not> ok then g else bind (take_bytes n) f)) bs v"
  using assms by (intro decodes_ensure) (simp_all add: decodes_bind_eq [OF decodes_take_bytes])

lemma decodes_ReadByte [decode_intros]: "decodes F (ReadByte B) [b] b"
  unfolding ReadByte_def by (rule decodes_take) (simp_all add: decodes_return)

lemma decodes_ReadRaw [decode_intros]:
  assumes "8 dvd LENGTH('a::len)"
  shows "decodes F (ReadRaw B) (le_bytes w) (w :: 'a word)"
  unfolding ReadRaw_def by (rule decodes_take) (simp_all add: decodes_return assms)

lemma decodes_ReadObjectHeader [decode_intros]:
  assumes "n \<le> 249"
  shows "decodes F (ReadObjectHeader B) [n] \<lparr>count = n, isNull = False\<rparr>"
  unfolding ReadObjectHeader_def using assms
  by (intro decodes_bind_eq [OF decodes_ReadByte, where cs = "[]"]) (auto simp: decodes_return)

lemma decodes_ReadObjectHeader_null [decode_intros]:
  "decodes F (ReadObjectHeader B) [255] \<lparr>count = 0, isNull = True\<rparr>"
  unfolding ReadObjectHeader_def
  by (intro decodes_bind_eq [OF decodes_ReadByte, where cs = "[]"]) (simp_all add: decodes_return)

lemma decodes_PeekIsNull: "bs \<noteq> [] \<Longrightarrow> decodes F (f (hd bs = 255)) bs v \<Longrightarrow> decodes F (bind PeekIsNull f) bs v"
  apply (rule decodesI)
  apply (cases bs)
   apply simp
  subgoal for r rest b bs'
    by (auto simp: PeekIsNull_def reader_inv_def decodes_def bind_def nth_via_drop)
  done

lemma decodes_ReadCollectionLength [decode_intros]:
  assumes n: "n < 2 ^ 31" and len: "n * k \<le> length bs"
    and lim: "\<And>opts d. F opts d \<Longrightarrow> n \<le> unat (maxCollectionLength opts)"
    and f: "decodes F (f (word_of_nat n)) bs v"
  shows "decodes F (bind (ReadCollectionLength B k) f) (enc_length n @ bs) v"
proof (rule decodesI)
  let ?n = "word_of_nat n :: u32"
  have n': "unat ?n = n" "sint ?n = int n" using n by (simp_all add: unat_of_nat_32 sint_of_nat_32)
  fix r rest
  assume r: "reader_inv r" "r_error r = ErrorNone"
    "drop (r_pos r) (r_data r) = (enc_length n @ bs) @ rest" "F (r_options r) (unat (r_depth r))"
    "r_pos r + length (enc_length n @ bs) + length rest = length (r_data r)"
  let ?s = "r\<lparr>r_pos := r_pos r + 4\<rparr>"
  have raw: "ReadRaw B r = (Ret ?n, ?s)"
    using decodesD [OF decodes_ReadRaw [where w = ?n and F = F and B = B] r(1,2) _ r(4)] r(3)
    by (simp add: enc_length_def)
  have s: "reader_inv ?s" "r_pos ?s + length bs + length rest = length (r_data ?s)"
    "drop (r_pos ?s) (r_data ?s) = bs @ rest"
    using r drop_eq_append_drop [of "r_pos r" "r_data r" "enc_length n" "bs @ rest"]
    by (simp_all add: reader_inv_def enc_length_def)
  have "n \<le> Remaining ?s div k" if "0 < k"
    using len s that by (simp add: Remaining_eq less_eq_div_iff_mult_less_eq)
  then have "\<not> (0 < k \<and> Remaining ?s div k < n)" by auto
  moreover have "\<not> maxCollectionLength (r_options r) < ?n"
    using lim [OF r(4)] by (simp add: word_less_nat_alt n')
  ultimately have "ReadCollectionLength B k r = (Ret ?n, ?s)"
    by (auto simp: ReadCollectionLength_def bind_Ret [where m = "ReadRaw B", OF raw] n')
  moreover have "f ?n ?s = (Ret v, ?s\<lparr>r_pos := r_pos ?s + length bs\<rparr>)"
    using r s by (intro decodesD [OF f]) simp_all
  ultimately show "bind (ReadCollectionLength B k) f r =
      (Ret v, r\<lparr>r_pos := r_pos r + length (enc_length n @ bs)\<rparr>)"
    by (simp add: enc_length_def add.assoc)
qed

lemma decodes_ReadCollectionLength_null:
  assumes "decodes F (f (-1)) bs v"
  shows "decodes F (bind (ReadCollectionLength B k) f) (le_bytes (-1 :: u32) @ bs) v"
  unfolding ReadCollectionLength_def bind_assoc
  using assms by (intro decodes_bind [OF decodes_ReadRaw]) simp_all

lemma decodes_ReadUnionHeader [decode_intros]:
  "decodes F (ReadUnionHeader B) (enc_union_tag tag) (Some tag)"
proof (cases "tag < 250")
  case True
  then have "unat tag < 250" by (simp add: word_less_nat_alt)
  then have u: "unat (ucast tag :: byte) = unat tag"
    by (intro unat_ucast_le) simp
  have "(ucast (ucast tag :: byte) :: u16) = tag"
    using \<open>unat tag < 250\<close> by (intro ucast_ucast_id) simp
  moreover have "(ucast tag :: byte) \<noteq> 255" "(ucast tag :: byte) \<noteq> 250" "\<not> (ucast tag :: byte) > 250"
    using u \<open>unat tag < 250\<close> by (auto simp: word_unat_eq_iff word_less_nat_alt)
  ultimately show ?thesis unfolding ReadUnionHeader_def enc_union_tag_def using True
    by (intro decodes_bind_eq [OF decodes_ReadByte, where cs = "[]"]) (simp_all add: decodes_return)
next
  case False
  then show ?thesis unfolding ReadUnionHeader_def enc_union_tag_def
    by (intro decodes_bind_eq [OF decodes_ReadByte, where cs = "le_bytes tag"])
      (simp_all add: decodes_bind_eq [OF decodes_ReadRaw decodes_return])
qed

lemma decodes_ReadUnionHeader_null [decode_intros]: "decodes F (ReadUnionHeader B) [255] None"
  unfolding ReadUnionHeader_def
  by (intro decodes_bind_eq [OF decodes_ReadByte, where cs = "[]"]) (simp_all add: decodes_return)

lemma decodes_ReadBool [decode_intros]: "decodes F (ReadBool B) [if b then 1 else 0] b"
  unfolding ReadBool_def
  by (intro decodes_bind_eq [OF decodes_ReadByte, where cs = "[]"]) (simp_all add: decodes_return)

lemma decodes_ReadVarIntLength [decode_intros]:
  "decodes F (ReadVarIntLength B) (enc_varint n) n"
proof -
  consider (one) "n \<le> 127" | (two) "\<not> n \<le> 127" "n \<le> 0xFFFF" | (four) "\<not> n \<le> 127" "\<not> n \<le> 0xFFFF"
    by blast
  then show ?thesis
  proof cases
    case one
    then have "unat n \<le> 127" by (simp add: word_le_nat_alt)
    then have u: "unat (ucast n :: byte) = unat n" by (intro unat_ucast_le) simp
    then have "(ucast n :: byte) \<le> 127" using \<open>unat n \<le> 127\<close> by (simp add: word_le_nat_alt)
    moreover have "(ucast (ucast n :: byte) :: u32) = n"
      using \<open>unat n \<le> 127\<close> by (intro ucast_ucast_id) simp
    ultimately show ?thesis unfolding ReadVarIntLength_def enc_varint_def using one
      by (intro decodes_bind_eq [OF decodes_ReadByte, where cs = "[]"]) (simp_all add: decodes_return)
  next
    case two
    then have "unat n \<le> 0xFFFF" by (simp add: word_le_nat_alt)
    then have "(ucast (ucast n :: u16) :: u32) = n" by (intro ucast_ucast_id) simp
    with two show ?thesis unfolding ReadVarIntLength_def enc_varint_def
      by (intro decodes_bind_eq [OF decodes_ReadByte, where cs = "le_bytes (ucast n :: u16)"])
        (simp_all add: decodes_map [OF decodes_ReadRaw])
  next
    case four
    then show ?thesis unfolding ReadVarIntLength_def enc_varint_def
      by (intro decodes_bind_eq [OF decodes_ReadByte, where cs = "le_bytes n"])
        (simp_all add: decodes_ReadRaw)
  qed
qed

section \<open>Strings\<close>

lemma decodes_CheckStringLength:
  assumes len: "unat n * k \<le> length bs" and lim: "\<And>opts d. F opts d \<Longrightarrow> n \<le> maxStringLength opts"
    and f: "decodes F (f True) bs v"
  shows "decodes F (bind (CheckStringLength B n k) f) bs v"
proof (rule decodesI)
  fix r rest
  assume r: "reader_inv r" "r_error r = ErrorNone" "drop (r_pos r) (r_data r) = bs @ rest"
    "F (r_options r) (unat (r_depth r))" "r_pos r + length bs + length rest = length (r_data r)"
  have "unat n \<le> Remaining r div k" if "0 < k"
    using len r that by (simp add: Remaining_eq less_eq_div_iff_mult_less_eq)
  moreover have "\<not> maxStringLength (r_options r) < n" using lim [OF r(4)] by (simp add: leD)
  ultimately have "CheckStringLength B n k r = (Ret True, r)"
    by (auto simp: CheckStringLength_def)
  with decodesD [OF f r(1-4)]
  show "bind (CheckStringLength B n k) f r = (Ret v, r\<lparr>r_pos := r_pos r + length bs\<rparr>)" by simp
qed

text \<open>A string that its header can announce and the limits admit.\<close>

definition string_fits :: "bytes \<Rightarrow> ReaderOptions \<Rightarrow> bool" where
  "string_fits s opts \<longleftrightarrow> length s \<le> unat (maxStringLength opts)"

lemma string_header:
  assumes "0 < n" "n < 2 ^ 31"
  shows "\<not> 0 < sint (NOT (word_of_nat n) :: u32)" "NOT (word_of_nat n :: u32) \<noteq> -1"
    "NOT (word_of_nat n :: u32) \<noteq> 0"
proof -
  have s: "sint (NOT (word_of_nat n) :: u32) = - int n - 1"
  proof -
    have "sint (NOT (word_of_nat n) :: u32) = NOT (sint (word_of_nat n :: u32))"
      by (rule bit_eqI) (simp add: bit_not_iff bit_signed_iff min.strict_coboundedI1)
    then show ?thesis using sint_of_nat_32 [OF assms(2)] by (simp add: not_int_def)
  qed
  then show "\<not> 0 < sint (NOT (word_of_nat n) :: u32)" by simp
  show "NOT (word_of_nat n :: u32) \<noteq> -1" "NOT (word_of_nat n :: u32) \<noteq> 0" using s assms by auto
qed

lemma decodes_ReadString [decode_intros]:
  assumes len: "length s < 2 ^ 31" and lim: "\<And>opts d. F opts d \<Longrightarrow> string_fits s opts"
  shows "decodes F (ReadString B) (enc_string s) (Some s)"
proof (cases "s = []")
  case True
  then show ?thesis unfolding ReadString_def enc_string_def
    by (intro decodes_bind_eq [OF decodes_ReadRaw, where cs = "[]"] decodes_gets_Failed)
      (simp_all add: decodes_return)
next
  case False
  let ?n = "word_of_nat (length s) :: u32"
  have n: "unat ?n = length s" using len by (intro unat_of_nat_32) simp
  note h = string_header [of "length s"]
  let ?body = "bind (CheckStringLength B ?n 1) (\<lambda>ok.
           if \<not> ok then return (Some [])
           else bind (EnsureBytes B (unat ?n)) (\<lambda>ok.
             if \<not> ok then return (Some [])
             else bind (take_bytes (unat ?n)) (\<lambda>s. return (Some s))))"
  have body: "decodes F ?body s (Some s)"
    using lim unfolding n
    by (intro decodes_CheckStringLength)
      (auto simp: n string_fits_def word_le_nat_alt intro!: decodes_take decodes_return)
  have "decodes F (bind (ReadRaw B) (\<lambda>_ :: u32. ?body)) (le_bytes (utf16_length_bytes 0 s) @ s) (Some s)"
    by (rule decodes_skip [OF decodes_ReadRaw body]) simp
  then
  show ?thesis unfolding ReadString_def
    by (intro decodes_bind_eq [OF decodes_ReadRaw [where w = "NOT ?n"],
          where cs = "le_bytes (utf16_length_bytes 0 s) @ s"] decodes_gets_Failed)
      (use False h len in \<open>simp_all add: enc_string_def cong: if_cong\<close>)
qed

text \<open>Bytes that an operation looks at and puts rewind.\<close>

lemma decodes_unread:
  assumes m: "decodes F m bs v" and k: "decodes F k (bs @ cs) w"
    and f: "f v = seq (modify (\<lambda>r. r\<lparr>r_pos := size_sub (r_pos r) (length bs)\<rparr>)) k"
  shows "decodes F (bind m f) (bs @ cs) w"
proof (rule decodesI)
  fix r rest
  assume r: "reader_inv r" "r_error r = ErrorNone" "drop (r_pos r) (r_data r) = (bs @ cs) @ rest"
    "F (r_options r) (unat (r_depth r))" "r_pos r + length (bs @ cs) + length rest = length (r_data r)"
  have "m r = (Ret v, r\<lparr>r_pos := r_pos r + length bs\<rparr>)" using decodesD [OF m r(1,2) _ r(4)] r(3) by simp
  moreover have "size_sub (r_pos r + length bs) (length bs) = r_pos r"
    using r by (intro trans [OF size_sub_exact]) (simp_all add: reader_inv_def)
  ultimately show "bind m f r = (Ret w, r\<lparr>r_pos := r_pos r + length (bs @ cs)\<rparr>)"
    using decodesD [OF k r(1-4)] by (simp add: f)
qed

lemma decodes_utf16_loop:
  "decodes F (utf16_loop B (length us) out) (concat (map le_bytes us))
     (foldl append_utf8_codepoint out (utf16_codepoints us))"
proof (induction us arbitrary: out rule: utf16_codepoints.induct)
  case 1
  then show ?case by simp
next
  case (2 hi)
  show ?case
    unfolding list.size add_0 utf16_loop.simps(2) add_0_right add_Suc_right
    by (rule decodes_bind_eq [OF decodes_ReadRaw [where w = hi], where cs = "[]"]) simp_all
next
  case (3 hi lo us)
  show ?case
  proof (cases "is_high_surrogate hi \<and> \<not> is_low_surrogate lo")
    case True
    have "decodes F (bind (ReadRaw B) (\<lambda>lo. if is_low_surrogate lo then
             utf16_loop B (Suc (length us) - 1) (append_utf8_codepoint out (combine_surrogates hi lo))
           else seq (modify (\<lambda>r. r\<lparr>r_pos := size_sub (r_pos r) 2\<rparr>))
                 (utf16_loop B (Suc (length us)) (append_utf8_codepoint out 0xFFFD))))
        (le_bytes lo @ concat (map le_bytes us))
        (foldl append_utf8_codepoint (append_utf8_codepoint out 0xFFFD) (utf16_codepoints (lo # us)))"
      using True 3(2) [of "append_utf8_codepoint out 0xFFFD"]
      by (intro decodes_unread [OF decodes_ReadRaw]) simp_all
    with True show ?thesis
      unfolding list.size add_Suc_right add_0_right utf16_loop.simps(2)
      by (intro decodes_bind_eq [OF decodes_ReadRaw [where w = hi],
            where cs = "concat (map le_bytes (lo # us))"]) simp_all
  next
    case False
    show ?thesis
    proof (cases "is_high_surrogate hi")
      case True
      have "decodes F (bind (ReadRaw B) (\<lambda>lo. if is_low_surrogate lo then
             utf16_loop B (Suc (length us) - 1) (append_utf8_codepoint out (combine_surrogates hi lo))
           else seq (modify (\<lambda>r. r\<lparr>r_pos := size_sub (r_pos r) 2\<rparr>))
                 (utf16_loop B (Suc (length us)) (append_utf8_codepoint out 0xFFFD))))
        (le_bytes lo @ concat (map le_bytes us))
        (foldl append_utf8_codepoint (append_utf8_codepoint out (combine_surrogates hi lo))
          (utf16_codepoints us))"
        using True False 3(1) by (intro decodes_bind [OF decodes_ReadRaw [where w = lo]]) simp_all
      with True False show ?thesis
        unfolding list.size add_Suc_right add_0_right utf16_loop.simps(2)
        by (intro decodes_bind_eq [OF decodes_ReadRaw [where w = hi],
              where cs = "concat (map le_bytes (lo # us))"]) simp_all
    next
      case high: False
      with 3(3,4) show ?thesis
        unfolding list.size add_Suc_right add_0_right utf16_loop.simps(2)
        by (intro decodes_bind_eq [OF decodes_ReadRaw [where w = hi],
              where cs = "concat (map le_bytes (lo # us))"]) simp_all
    qed
  qed
qed

lemma decodes_ReadUtf16String:
  assumes len: "length us < 2 ^ 31"
    and lim: "\<And>opts d. F opts d \<Longrightarrow> length us \<le> unat (maxStringLength opts)"
  shows "decodes F (ReadUtf16String B (word_of_nat (length us))) (concat (map le_bytes us))
    (utf16_to_utf8 us)"
proof -
  let ?n = "word_of_nat (length us) :: u32"
  have n: "unat ?n = length us" using len by (intro unat_of_nat_32) simp
  have bytes: "length (concat (map le_bytes us)) = length us * 2"
    by (rule length_concat_map_const) simp
  have m: "size_mul (length us) 2 = length us * 2" using len by simp
  have loop: "decodes F (utf16_loop B (length us) []) (concat (map le_bytes us)) (utf16_to_utf8 us)"
    using decodes_utf16_loop [of F B us "[]"] by (simp add: utf16_to_utf8_def)
  show ?thesis unfolding ReadUtf16String_def n m
    using lim loop
    by (intro decodes_CheckStringLength decodes_ensure) (simp_all add: n bytes word_le_nat_alt decodes_ensure)
qed

lemma decodes_ReadString_utf16 [decode_intros]:
  assumes len: "0 < length us" "length us < 2 ^ 31"
    and lim: "\<And>opts d. F opts d \<Longrightarrow> length us \<le> unat (maxStringLength opts)"
  shows "decodes F (ReadString B) (enc_utf16_string us) (Some (utf16_to_utf8 us))"
proof -
  let ?n = "word_of_nat (length us) :: u32"
  have "sint ?n = int (length us)" using len(2) by (rule sint_of_nat_32)
  then have h: "?n \<noteq> -1" "?n \<noteq> 0" "0 < sint ?n" using len(1) by auto
  show ?thesis unfolding ReadString_def enc_utf16_string_def enc_length_def
    by (rule decodes_bind [OF decodes_ReadRaw [where w = ?n]], simp, rule decodes_gets_Failed)
      (use h decodes_map [where g = Some, OF decodes_ReadUtf16String [OF len(2), where F = F and B = B]] lim
        in simp)
qed

section \<open>Collections\<close>

lemma decodes_small:
  assumes "length bs < 2 ^ 63 \<Longrightarrow> decodes F m bs v"
  shows "decodes F m bs v"
proof (rule decodesI)
  fix r rest
  assume r: "reader_inv r" "r_error r = ErrorNone" "drop (r_pos r) (r_data r) = bs @ rest"
    "F (r_options r) (unat (r_depth r))" "r_pos r + length bs + length rest = length (r_data r)"
  then have "length bs < 2 ^ 63" by (simp add: reader_inv_def)
  from decodesD [OF assms [OF this] r(1-4)] show "m r = (Ret v, r\<lparr>r_pos := r_pos r + length bs\<rparr>)" .
qed

lemma chunks_concat:
  assumes "\<And>x. x \<in> set xs \<Longrightarrow> length x = k"
  shows "chunks (length xs) k (concat xs) = xs"
  using assms
proof (induction xs)
  case Nil
  then show ?case by (simp add: chunks_def)
next
  case (Cons x xs)
  have "chunks (Suc n) k (x @ bs) = x # chunks n k bs" if "length x = k" for n bs
    using that unfolding chunks_def by (simp add: map_upt_Suc del: upt_Suc)
  with Cons show ?case by simp
qed

lemma chunks_concat_map:
  assumes "\<And>x. x \<in> set xs \<Longrightarrow> length (f x) = k"
  shows "chunks (length xs) k (concat (map f xs)) = map f xs"
  using chunks_concat [of "map f xs" k] assms by auto

lemma decodes_read_times:
  assumes "\<And>x. x \<in> set xs \<Longrightarrow> decodes F m (enc x) x"
  shows "decodes F (read_times (length xs) m out) (concat (map enc xs)) (out @ xs)"
  using assms
proof (induction xs arbitrary: out)
  case Nil
  then show ?case by simp
next
  case (Cons x xs)
  from Cons.IH [of "out @ [x]"] Cons.prems
  have "decodes F (read_times (length xs) m (out @ [x])) (concat (map enc xs)) (out @ x # xs)"
    by (simp only: append_assoc append_Cons append_Nil list.set_intros)
  then show ?case unfolding list.size add_Suc_right add_0_right read_times.simps list.map concat.simps
    by (rule decodes_bind [OF Cons.prems [OF list.set_intros(1)]])
qed

lemma decodes_read_loop:
  assumes "\<And>x acc. x \<in> set xs \<Longrightarrow> decodes F (body acc) (enc x) (upd acc x)"
  shows "decodes F (read_loop (length xs) body acc) (concat (map enc xs)) (foldl upd acc xs)"
  using assms
proof (induction xs arbitrary: acc)
  case Nil
  then show ?case by simp
next
  case (Cons x xs)
  then have "decodes F (read_loop (length xs) body (upd acc x)) (concat (map enc xs))
      (foldl upd (upd acc x) xs)" by simp
  then show ?case
    unfolding list.size add_Suc_right add_0_right read_loop.simps list.map concat.simps foldl.simps
    by (intro decodes_gets_Failed) (simp add: decodes_bind [OF Cons.prems])
qed

lemma foldl_snoc: "foldl (\<lambda>acc x. acc @ [f x]) out xs = out @ map f xs"
  by (induction xs arbitrary: out) simp_all

text \<open>The header of every collection: a positive count leads to the element code, a zero count to an
  empty result.\<close>

lemma decodes_counted:
  assumes n: "length xs < 2 ^ 31" and k: "\<And>x. x \<in> set xs \<Longrightarrow> k \<le> length (enc x)"
    and lim: "\<And>opts d. F opts d \<Longrightarrow> length xs \<le> unat (maxCollectionLength opts)"
    and empty: "xs = [] \<Longrightarrow> decodes F (f 0) [] v"
    and body: "xs \<noteq> [] \<Longrightarrow> \<not> sint (word_of_nat (length xs) :: u32) \<le> 0 \<Longrightarrow>
      unat (word_of_nat (length xs) :: u32) = length xs \<Longrightarrow>
      decodes F (f (word_of_nat (length xs))) (concat (map enc xs)) v"
  shows "decodes F (bind (ReadCollectionLength B k) f) (enc_collection enc xs) v"
proof -
  have "decodes F (f (word_of_nat (length xs))) (concat (map enc xs)) v"
  proof (cases "xs = []")
    case True
    with empty show ?thesis by simp
  next
    case False
    then have "\<not> sint (word_of_nat (length xs) :: u32) \<le> 0"
      using sint_of_nat_32 [OF n] by simp
    moreover have "unat (word_of_nat (length xs) :: u32) = length xs"
      using n by (intro unat_of_nat_32) simp
    ultimately show ?thesis by (rule body [OF False])
  qed
  then show ?thesis unfolding enc_collection_def
    by (intro decodes_ReadCollectionLength n length_concat_map_ge k lim)
qed

lemma decodes_elements_body:
  assumes "8 dvd LENGTH('a::len)" "length (xs :: 'a word list) * sizeof TYPE('a) < 2 ^ 64"
    "unat n = length xs"
  shows "decodes F (if native B = Little then
           bind (take_bytes (size_mul (unat n) (sizeof TYPE('a)))) (\<lambda>bs.
             return (map (of_mem Little) (chunks (unat n) (sizeof TYPE('a)) bs)))
         else read_times (unat n) (ReadRaw B) []) (concat (map le_bytes xs)) xs"
proof -
  have len: "length (concat (map le_bytes xs)) = length xs * sizeof TYPE('a)"
    by (rule length_concat_map_const) simp
  have "map (of_mem Little \<circ> le_bytes) xs = xs"
    using assms(1) by (intro map_idI) (simp add: of_mem_def)
  then have little: "decodes F (bind (take_bytes (length xs * sizeof TYPE('a))) (\<lambda>bs.
        return (map (of_mem Little) (chunks (length xs) (sizeof TYPE('a)) bs)))) (concat (map le_bytes xs)) xs"
    by (intro decodes_map [OF decodes_take_bytes]) (simp_all add: len chunks_concat_map)
  have big: "decodes F (read_times (length xs) (ReadRaw B) []) (concat (map le_bytes xs)) xs"
    using decodes_read_times [of xs F "ReadRaw B" le_bytes "[]"] assms(1) by (simp add: decodes_ReadRaw)
  show ?thesis using assms little big by auto
qed

lemma decodes_elements:
  assumes "8 dvd LENGTH('a::len)" "length (xs :: 'a word list) * sizeof TYPE('a) < 2 ^ 64"
    "unat n = length xs"
  shows "decodes F (bind (EnsureBytes B (size_mul (unat n) (sizeof TYPE('a)))) (\<lambda>ok.
         if \<not> ok then return []
         else if native B = Little then
           bind (take_bytes (size_mul (unat n) (sizeof TYPE('a)))) (\<lambda>bs.
             return (map (of_mem Little) (chunks (unat n) (sizeof TYPE('a)) bs)))
         else read_times (unat n) (ReadRaw B) [])) (concat (map le_bytes xs)) xs"
proof -
  have "length (concat (map le_bytes xs)) = length xs * sizeof TYPE('a)"
    by (rule length_concat_map_const) simp
  then show ?thesis using assms decodes_elements_body [OF assms, of F B] by (intro decodes_ensure) auto
qed

lemma decodes_ReadVector [decode_intros]:
  assumes "8 dvd LENGTH('a::len)" "length (xs :: 'a word list) < 2 ^ 31"
    and lim: "\<And>opts d. F opts d \<Longrightarrow> length xs \<le> unat (maxCollectionLength opts)"
  shows "decodes F (ReadVector B) (enc_collection le_bytes xs) xs"
proof (rule decodes_small)
  assume small: "length (enc_collection le_bytes xs) < 2 ^ 63"
  have len: "length (concat (map le_bytes xs)) = length xs * sizeof TYPE('a)"
    by (rule length_concat_map_const) simp
  with small have "length xs * sizeof TYPE('a) < 2 ^ 64" by (simp add: enc_collection_def)
  note elements = decodes_elements [OF assms(1) this]
  show ?thesis unfolding ReadVector_def
    by (rule decodes_counted) (use assms elements [of "word_of_nat (length xs) :: u32" F B] in auto)
qed

lemma decodes_ReadVector_bool [decode_intros]:
  assumes "length xs < 2 ^ 31"
    and lim: "\<And>opts d. F opts d \<Longrightarrow> length xs \<le> unat (maxCollectionLength opts)"
  shows "decodes F (ReadVector_bool B) (enc_collection (\<lambda>b. [if b then 1 else 0]) xs) xs"
proof -
  have len: "length (concat (map (\<lambda>b. [if b then 1 else 0 :: byte]) xs)) = length xs"
    by (induction xs) simp_all
  have "map (\<lambda>b. b \<noteq> 0) (concat (map (\<lambda>b. [if b then 1 else 0 :: byte]) xs)) = xs"
    by (induction xs) simp_all
  then have "decodes F (bind (EnsureBytes B (length xs)) (\<lambda>ok. if \<not> ok then return []
      else bind (take_bytes (length xs)) (\<lambda>bs. return (map (\<lambda>b. b \<noteq> 0) bs))))
      (concat (map (\<lambda>b. [if b then 1 else 0 :: byte]) xs)) xs"
    by (intro decodes_take) (simp_all add: len)
  then show ?thesis unfolding ReadVector_bool_def
    by (intro decodes_counted) (use assms in \<open>auto cong: if_cong\<close>)
qed

lemma decodes_ReadStringVector [decode_intros]:
  assumes "length xs < 2 ^ 31" and s: "\<And>s. s \<in> set xs \<Longrightarrow> length s < 2 ^ 31"
    and lim: "\<And>opts d. F opts d \<Longrightarrow> length xs \<le> unat (maxCollectionLength opts)"
    and fits: "\<And>opts d s. F opts d \<Longrightarrow> s \<in> set xs \<Longrightarrow> string_fits s opts"
  shows "decodes F (ReadStringVector B) (enc_collection enc_string xs) xs"
proof -
  have "decodes F (bind (ReadString B) (\<lambda>s. return (out @ [case s of None \<Rightarrow> [] | Some v \<Rightarrow> v])))
      (enc_string s) (out @ [s])" if "s \<in> set xs" for s out
    using assms that by (intro decodes_map [where g = "\<lambda>s. out @ [case s of None \<Rightarrow> [] | Some v \<Rightarrow> v]",
          OF decodes_ReadString]) simp_all
  then have "decodes F (read_loop (length xs) (\<lambda>out. bind (ReadString B) (\<lambda>s.
         return (out @ [case s of None \<Rightarrow> [] | Some v \<Rightarrow> v]))) [])
      (concat (map enc_string xs)) (foldl (\<lambda>out s. out @ [s]) [] xs)"
    by (intro decodes_read_loop)
  then have body: "decodes F (read_loop (length xs) (\<lambda>out. bind (ReadString B) (\<lambda>s.
         return (out @ [case s of None \<Rightarrow> [] | Some v \<Rightarrow> v]))) [])
      (concat (map enc_string xs)) xs"
    using foldl_snoc [of "\<lambda>x. x" "[]" xs] by simp
  have "4 \<le> length (enc_string s)" for s by (simp add: enc_string_def)
  then show ?thesis unfolding ReadStringVector_def using body
    by (intro decodes_counted) (use assms in \<open>auto cong: if_cong\<close>)
qed

lemma decodes_ReadUnmanaged [decode_intros]:
  "length v = sz \<Longrightarrow> decodes F (ReadUnmanaged B sz) v v"
  unfolding ReadUnmanaged_def by (rule decodes_take) simp_all

lemma decodes_ReadUnmanagedCollection [decode_intros]:
  assumes "length xs < 2 ^ 31" and sz: "\<And>x. x \<in> set xs \<Longrightarrow> length x = sz"
    and lim: "\<And>opts d. F opts d \<Longrightarrow> length xs \<le> unat (maxCollectionLength opts)"
  shows "decodes F (ReadUnmanagedCollection B sz) (enc_collection (\<lambda>x. x) xs) xs"
proof (rule decodes_small)
  assume small: "length (enc_collection (\<lambda>x. x) xs) < 2 ^ 63"
  have len: "length (concat xs) = length xs * sz"
    using length_concat_map_const [of xs "\<lambda>x. x" sz] sz by simp
  with small have m: "size_mul (length xs) sz = length xs * sz" by (simp add: enc_collection_def)
  have "decodes F (bind (EnsureBytes B (size_mul (length xs) sz)) (\<lambda>ok.
         if \<not> ok then return []
         else bind (take_bytes (size_mul (length xs) sz)) (\<lambda>bs.
           return (chunks (length xs) sz bs)))) (concat (map (\<lambda>x. x) xs)) xs"
    unfolding m by (intro decodes_take) (simp_all add: len chunks_concat sz)
  then show ?thesis unfolding ReadUnmanagedCollection_def
    by (intro decodes_counted) (use assms in \<open>auto cong: if_cong\<close>)
qed

text \<open>An object one level deeper.\<close>

lemma decodes_nested:
  assumes body: "decodes G body bs v" and k: "decodes F (k v) cs w"
    and lim: "\<And>opts d. F opts d \<Longrightarrow> Suc d \<le> unat (maxDepth opts) \<and> G opts (Suc d)"
  shows "decodes F (bind (EnterObject B) (\<lambda>ok. if \<not> ok then g
      else bind body (\<lambda>x. seq LeaveObject (k x)))) (bs @ cs) w"
proof (rule decodesI)
  fix r rest
  assume r: "reader_inv r" "r_error r = ErrorNone" "drop (r_pos r) (r_data r) = (bs @ cs) @ rest"
    "F (r_options r) (unat (r_depth r))" "r_pos r + length (bs @ cs) + length rest = length (r_data r)"
  let ?s = "r\<lparr>r_depth := r_depth r + 1\<rparr>"
  let ?t = "r\<lparr>r_pos := r_pos r + length bs\<rparr>"
  note l = lim [OF r(4)]
  have "Suc (unat (r_depth r)) < 2 ^ 32"
    using l unat_less_32 [of "maxDepth (r_options r)"] by simp
  then have d: "unat (r_depth r + 1) = Suc (unat (r_depth r))"
    by (simp add: unat_word_ariths)
  then have "EnterObject B r = (Ret True, ?s)"
    using l by (simp add: EnterObject_def word_less_nat_alt)
  moreover have "body ?s = (Ret v, ?s\<lparr>r_pos := r_pos ?s + length bs\<rparr>)"
    using r l d by (intro decodesD [OF body]) (simp_all add: reader_inv_def)
  moreover have "LeaveObject (?s\<lparr>r_pos := r_pos ?s + length bs\<rparr>) = (Ret (), ?t)"
    using d by (simp add: LeaveObject_def word_less_nat_alt)
  moreover have "k v ?t = (Ret w, ?t\<lparr>r_pos := r_pos ?t + length cs\<rparr>)"
    using r by (intro decodesD [OF k]) (simp_all add: reader_inv_def drop_eq_append_drop [of _ _ bs])
  ultimately show "bind (EnterObject B) (\<lambda>ok. if \<not> ok then g
      else bind body (\<lambda>x. seq LeaveObject (k x))) r = (Ret w, r\<lparr>r_pos := r_pos r + length (bs @ cs)\<rparr>)"
    by (simp add: add.assoc)
qed

section \<open>Safety of the remaining operations\<close>

lemma reader_action_cong:
  assumes m: "reader_action m" and eq: "\<And>B r. reader_inv r \<Longrightarrow> k B r = m B r"
  shows "reader_action k"
  using reader_action.step [OF m] reader_action.builds_agree [OF m] by (intro reader_actionI) (simp_all add: eq)

lemma bind_inv_cong:
  assumes "reader_action m" "reader_inv r"
    and eq: "\<And>x s. reader_inv s \<Longrightarrow> same_input r s \<Longrightarrow> f x s = g x s"
  shows "bind (m B) f r = bind (m B) g r"
  using reader_action.step [OF assms(1,2), of B]
  by (cases "m B" r f rule: bind_cases) (simp_all add: reader_step_def eq)

text \<open>Any even number of bytes is a sequence of code units.\<close>

lemma bytes_as_units:
  assumes "length bs = n * 2"
  obtains us :: "u16 list" where "length us = n" "concat (map le_bytes us) = bs"
  using assms
proof (induction n arbitrary: bs thesis)
  case 0
  from 0(1) [of "[]"] 0(2) show ?case by simp
next
  case (Suc n)
  then have "length (drop 2 bs) = n * 2" by simp
  from Suc.IH [OF _ this] obtain us :: "u16 list" where us: "length us = n" "concat (map le_bytes us) = drop 2 bs" by blast
  have "le_bytes (of_le_bytes (take 2 bs) :: u16) = take 2 bs"
    using Suc(3) by (intro le_bytes_of_le_bytes) simp
  with us show ?case by (intro Suc(2) [of "of_le_bytes (take 2 bs) # us"]) simp_all
qed

definition units_of :: "bytes \<Rightarrow> u16 list" where
  "units_of bs = map of_le_bytes (chunks (length bs div 2) 2 bs)"

lemma units_of_concat: "units_of (concat (map le_bytes (us :: u16 list))) = us"
proof -
  have len: "length (concat (map le_bytes us)) = length us * 2" by (rule length_concat_map_const) simp
  have "map (of_le_bytes \<circ> le_bytes) us = us" by (intro map_idI) simp
  then show ?thesis unfolding units_of_def len using chunks_concat_map [of us le_bytes 2] by simp
qed

lemma reader_action_ReadUtf16String [reader_intros]: "reader_action (\<lambda>B. ReadUtf16String B units)"
proof -
  let ?n = "unat units"
  have m: "size_mul ?n 2 = ?n * 2" using unat_less_32 [of units] by (intro size_mul_exact) simp
  have act: "reader_action (\<lambda>B. bind (CheckStringLength B units 2) (\<lambda>ok. if \<not> ok then return []
     else bind (EnsureBytes B (?n * 2)) (\<lambda>ok. if \<not> ok then return []
         else bind (take_bytes (?n * 2)) (\<lambda>bs. return (utf16_to_utf8 (units_of bs))))))"
    (is "reader_action (\<lambda>B. bind _ (\<lambda>ok. if \<not> ok then _ else ?fast B))")
    by (intro reader_intros)
  have eq: "bind (EnsureBytes B (size_mul ?n 2)) (\<lambda>ok. if \<not> ok then return []
         else utf16_loop B ?n []) r = ?fast B r" if r: "reader_inv r" for B r
    using r
  proof (cases rule: EnsureBytes_cases [where B = B and n = "?n * 2"])
    case ok
    let ?bs = "take (?n * 2) (drop (r_pos r) (r_data r))"
    have "length ?bs = ?n * 2" using ok by simp
    then obtain us :: "u16 list" where us: "length us = ?n" "concat (map le_bytes us) = ?bs" by (rule bytes_as_units)
    have "utf16_loop B (length us) [] r = (Ret (utf16_to_utf8 us),
        r\<lparr>r_pos := r_pos r + length (concat (map le_bytes us))\<rparr>)"
      unfolding utf16_to_utf8_def using r ok us
      by (intro decodesD [OF decodes_utf16_loop [where F = any_limits],
            where rest = "drop (?n * 2) (drop (r_pos r) (r_data r))"]) (simp_all del: drop_drop)
    moreover have "units_of ?bs = us" using units_of_concat [of us] us by simp
    moreover have "take_bytes (?n * 2) r = (Ret ?bs, r\<lparr>r_pos := r_pos r + ?n * 2\<rparr>)"
      using r ok by (intro take_bytes_ok)
    ultimately show ?thesis using ok us by (simp add: m)
  qed (simp_all add: m bind_def seq_def Fail_def Let_def)
  show ?thesis unfolding ReadUtf16String_def
  proof (rule reader_action_cong [OF act])
    fix B r assume r: "reader_inv r"
    show "bind (CheckStringLength B units 2) (\<lambda>ok. if \<not> ok then return []
        else bind (EnsureBytes B (size_mul ?n 2)) (\<lambda>ok. if \<not> ok then return [] else utf16_loop B ?n [])) r =
      bind (CheckStringLength B units 2) (\<lambda>ok. if \<not> ok then return [] else ?fast B) r"
      by (rule bind_inv_cong [OF reader_action_CheckStringLength r]) (simp add: eq)
  qed
qed

lemma reader_action_ReadString [reader_intros]: "reader_action ReadString"
  unfolding ReadString_def [abs_def] by (intro reader_intros)

lemma reader_action_ReadString_into [reader_intros]: "reader_action ReadString_into"
  unfolding ReadString_into_def [abs_def] by (intro reader_intros)

lemma reader_action_ReadStringVector [reader_intros]: "reader_action ReadStringVector"
  unfolding ReadStringVector_def [abs_def] by (intro reader_intros)

text \<open>Going rewind to an earlier position.\<close>

lemma reader_action_ReadStringView [reader_intros]: "reader_action ReadStringView"
proof -
  let ?rewind = "\<lambda>start. seq (modify (\<lambda>r. r\<lparr>r_pos := min start (r_size r)\<rparr>)) (return None)"
  let ?view = "\<lambda>B start rewind. bind (ReadRaw B) (\<lambda>header :: u32.
       bind (gets Failed) (\<lambda>failed.
         if failed then return None
         else if header = -1 then return None
         else if header = 0 then return (Some [])
         else if sint header > 0 then rewind start
         else bind (ReadRaw B) (\<lambda>_ :: u32.
           bind (CheckStringLength B (NOT header) 1) (\<lambda>ok.
             if \<not> ok then return None
             else bind (EnsureBytes B (unat (NOT header))) (\<lambda>ok.
               if \<not> ok then return None
               else bind (take_bytes (unat (NOT header))) (\<lambda>s. return (Some s)))))))"
  have act: "reader_action (\<lambda>B. bind (gets r_pos) (\<lambda>start. ?view B start ?rewind))"
    by (intro reader_intros reader_action_modify) (auto simp: reader_inv_def same_input_def)
  show ?thesis
  proof (rule reader_action_cong [OF act])
    fix B r assume r: "reader_inv r"
    have "min (r_pos r) (r_size s) = r_pos r" if "same_input r s" for s
      using r that by (simp add: reader_inv_def same_input_def)
    then show "ReadStringView B r = bind (gets r_pos) (\<lambda>start. ?view B start ?rewind) r"
      unfolding ReadStringView_def bind_gets
      by (intro bind_inv_cong [OF reader_action_ReadRaw r]) (auto split: if_split)
  qed
qed

lemma read_times_length:
  "read_times n m out r = (Ret xs, s) \<Longrightarrow> length xs = length out + n"
proof (induction n arbitrary: out r)
  case (Suc n)
  then show ?case by (cases "m" r "\<lambda>x. read_times n m (out @ [x])" rule: bind_cases) fastforce+
qed simp

lemma copy_front_action [reader_intros]:
  "length xs \<le> length arr \<Longrightarrow> reader_action (\<lambda>B. copy_front arr xs)"
  by unfold_locales (simp_all add: copy_front_def corresponds_def)

lemma bind_if: "bind (if c then m else k) f = (if c then bind m f else bind k f)"
  by simp

lemma unat_sint_pos: "0 < sint (w :: u32) \<Longrightarrow> unat w = nat (sint w)"
proof -
  assume "0 < sint w"
  then have "take_bit 32 (sint w) = sint w" using sint_lt [of w] by (intro take_bit_int_eq_self) simp_all
  then show ?thesis using uint_sint [of w] by (simp flip: nat_uint_eq)
qed

lemma length_chunks [simp]: "length (chunks n k bs) = n"
  by (simp add: chunks_def)

lemma reader_action_fill:
  assumes "unat n \<le> length arr"
  shows "reader_action (\<lambda>B. bind (EnsureBytes B (size_mul (unat n) (sizeof TYPE('a)))) (\<lambda>ok.
     if \<not> ok then return None
     else bind
       (if native B = Little then
          bind (take_bytes (size_mul (unat n) (sizeof TYPE('a)))) (\<lambda>bs.
            return (map (of_mem Little) (chunks (unat n) (sizeof TYPE('a)) bs)))
        else read_times (unat n) (ReadRaw B :: 'a::len word rop) [])
       (\<lambda>xs. bind (copy_front arr xs) (\<lambda>a. return (Some a)))))"
proof -
  have "reader_action (\<lambda>B. bind (read_times (unat n) (ReadRaw B) []) (\<lambda>xs.
      bind (copy_front arr xs) (\<lambda>a. return (Some a))))"
    using assms
    by (intro reader_action_bind_post [where Q = "\<lambda>xs. length xs = unat n"] reader_intros)
      (auto dest: read_times_length)
  then show ?thesis unfolding bind_if bind_assoc return_bind using assms
    by (intro reader_action_ensure_native reader_action_ensure
        reader_action_bind [OF reader_action_EnsureBytes]) (auto intro!: reader_intros)
qed

lemma reader_action_ReadArray [reader_intros]:
  assumes "sint maxCount \<le> int (length arr)"
  shows "reader_action (\<lambda>B. ReadArray B (arr :: 'a::len word list) maxCount)"
proof -
  have bound: "unat (if sint len \<le> sint maxCount then len else maxCount) \<le> length arr"
    if "0 < sint (if sint len \<le> sint maxCount then len else maxCount)" for len
    using unat_sint_pos [OF that] assms by (simp split: if_splits)
  show ?thesis unfolding ReadArray_def Let_def
    by (intro reader_intros reader_action_fill bound)
qed

lemma reader_action_ReadArray_std [reader_intros]:
  assumes "N < 2 ^ 31"
  shows "reader_action (\<lambda>B. ReadArray_std B N :: 'a::len word list rop)"
  unfolding ReadArray_std_def using sint_of_nat_32 [OF assms] by (intro reader_intros) simp

text \<open>Reading a C array of \<open>N\<close> elements: the elements that fit are stored, the rest is skipped.\<close>

lemma decodes_fill:
  assumes "8 dvd LENGTH('a::len)" "length (xs :: 'a word list) * sizeof TYPE('a) < 2 ^ 64"
    "unat n = length xs" "length xs \<le> length arr"
  shows "decodes F (bind (EnsureBytes B (size_mul (unat n) (sizeof TYPE('a)))) (\<lambda>ok.
     if \<not> ok then return None
     else bind
       (if native B = Little then
          bind (take_bytes (size_mul (unat n) (sizeof TYPE('a)))) (\<lambda>bs.
            return (map (of_mem Little) (chunks (unat n) (sizeof TYPE('a)) bs)))
        else read_times (unat n) (ReadRaw B) [])
       (\<lambda>xs. bind (copy_front arr xs) (\<lambda>a. return (Some a)))))
     (concat (map le_bytes xs)) (Some (xs @ drop (length xs) arr))"
proof -
  have "decodes F (bind (copy_front arr xs) (\<lambda>a. return (Some a))) []
      (Some (xs @ drop (length xs) arr))"
    using assms(4) by (simp add: decodes_def copy_front_def)
  then have "decodes F (bind m (\<lambda>xs. bind (copy_front arr xs) (\<lambda>a. return (Some a))))
      (concat (map le_bytes xs)) (Some (xs @ drop (length xs) arr))"
    if "decodes F m (concat (map le_bytes xs)) xs" for m
    using decodes_bind [OF that, of _ "[]"] by simp
  moreover have "length (concat (map le_bytes xs)) = length xs * sizeof TYPE('a)"
    by (rule length_concat_map_const) simp
  moreover have "decodes F (if native B = Little then
          bind (take_bytes (size_mul (unat n) (sizeof TYPE('a)))) (\<lambda>bs.
            return (map (of_mem Little) (chunks (unat n) (sizeof TYPE('a)) bs)))
        else read_times (unat n) (ReadRaw B) []) (concat (map le_bytes xs)) xs"
    by (rule decodes_elements_body [OF assms(1-3)])
  ultimately show ?thesis using assms by (intro decodes_ensure) simp_all
qed

section \<open>What an accepted length guarantees\<close>

lemma ReadCollectionLength_bound:
  assumes r: "reader_inv r" and e: "r_error r = ErrorNone"
    and m: "ReadCollectionLength B k r = (Ret n, s)" and ok: "r_error s = ErrorNone" "0 \<le> sint n"
  shows "n \<le> maxCollectionLength (r_options r) \<and> unat n * k \<le> Remaining s
     \<and> r_pos s = r_pos r + 4"
proof -
  obtain v :: u32 where raw: "ReadRaw B r = (Ret v, r\<lparr>r_pos := r_pos r + 4\<rparr>)"
    using r
  proof (cases rule: EnsureBytes_cases [where B = B and n = 4])
    case ok
    then show ?thesis using that take_bytes_ok(1) [OF r ok(3)] by (simp add: ReadRaw_def)
  next
    case short
    then have "EnsureBytes B 4 r = (if has_exceptions B
        then (Throw (make_exception BufferUnderflow (r_pos r) ''not enough bytes remaining''),
              r\<lparr>r_error := BufferUnderflow\<rparr>)
        else (Ret False, r\<lparr>r_error := BufferUnderflow\<rparr>))"
      by (simp add: Fail_def seq_def bind_def)
    then show ?thesis using m ok(1) short
      by (cases "has_exceptions B")
        (auto simp: ReadCollectionLength_def ReadRaw_def bind_assoc Fail_def Let_def seq_def
          split: if_splits)
  qed (use e in simp)
  let ?t = "r\<lparr>r_pos := r_pos r + 4\<rparr>"
  have acc: "s = ?t \<and> \<not> maxCollectionLength (r_options r) < n \<and>
      \<not> (0 < k \<and> Remaining ?t div k < unat n)"
  proof (cases "sint v < 0")
    case True
    with m ok e show ?thesis
      by (cases "has_exceptions B"; cases "v = -1")
        (auto simp: ReadCollectionLength_def bind_Ret [where m = "ReadRaw B", OF raw] Fail_def seq_def)
  next
    case False
    with m ok e show ?thesis
      by (cases "has_exceptions B"; cases "maxCollectionLength (r_options r) < v";
          cases "0 < k \<and> Remaining ?t div k < unat v")
        (auto simp: ReadCollectionLength_def bind_Ret [where m = "ReadRaw B", OF raw] Fail_def seq_def)
  qed
  then have "unat n * k \<le> Remaining ?t"
    by (cases "k = 0") (auto simp: not_less less_eq_div_iff_mult_less_eq)
  with acc show ?thesis by (simp add: not_less)
qed

section \<open>The contract holds of the reader's operations\<close>

interpretation object_header: reader_action ReadObjectHeader
  by (rule reader_action_ReadObjectHeader)

interpretation collection_length: reader_action "\<lambda>B. ReadCollectionLength B k" for k
  by (rule reader_action_ReadCollectionLength)

interpretation union_header: reader_action ReadUnionHeader
  by (rule reader_action_ReadUnionHeader)

interpretation varint: reader_action ReadVarIntLength
  by (rule reader_action_ReadVarIntLength)

interpretation read_string: reader_action ReadString
  by (rule reader_action_ReadString)

interpretation string_view: reader_action ReadStringView
  by (rule reader_action_ReadStringView)

interpretation read_vector: reader_action "ReadVector :: build \<Rightarrow> 'a::len word list rop"
  by (rule reader_action_ReadVector)

interpretation string_vector: reader_action ReadStringVector
  by (rule reader_action_ReadStringVector)

interpretation unmanaged: reader_action "\<lambda>B. ReadUnmanaged B sz" for sz
  by (rule reader_action_ReadUnmanaged)

interpretation unmanaged_collection: reader_action "\<lambda>B. ReadUnmanagedCollection B sz" for sz
  by (rule reader_action_ReadUnmanagedCollection)

lemma make_reader_with_inv [simp]: "reader_inv (make_reader_with body opts) \<longleftrightarrow> length body < 2 ^ 63"
    "r_size (make_reader_with body opts) = length body"
  by (simp_all add: make_reader_with_def reader_inv_def)

text \<open>Reading into a C array that has room for the elements: the slots behind them keep their values.\<close>

lemma decodes_ReadArray [decode_intros]:
  assumes "8 dvd LENGTH('a::len)" "length (xs :: 'a word list) \<le> length arr" "sint maxCount = int (length arr)"
    and lim: "\<And>opts d. F opts d \<Longrightarrow> length xs \<le> unat (maxCollectionLength opts)"
  shows "decodes F (ReadArray B arr maxCount) (enc_collection le_bytes xs)
    (xs @ drop (length xs) arr, word_of_nat (length xs))"
proof (rule decodes_small)
  assume small: "length (enc_collection le_bytes xs) < 2 ^ 63"
  let ?n = "word_of_nat (length xs) :: u32"
  have len: "length (concat (map le_bytes xs)) = length xs * sizeof TYPE('a)"
    by (rule length_concat_map_const) simp
  with small have sz: "length xs * sizeof TYPE('a) < 2 ^ 64" by (simp add: enc_collection_def)
  have n31: "length xs < 2 ^ 31" using assms(2,3) sint_lt [of maxCount] by simp
  have le: "sint ?n \<le> sint maxCount" using sint_of_nat_32 [OF n31] assms(2,3) by simp
  have fill: "decodes F (bind (EnsureBytes B (size_mul (unat n) (sizeof TYPE('a)))) (\<lambda>ok.
         if \<not> ok then return None
         else bind
           (if native B = Little then
              bind (take_bytes (size_mul (unat n) (sizeof TYPE('a)))) (\<lambda>bs.
                return (map (of_mem Little) (chunks (unat n) (sizeof TYPE('a)) bs)))
            else read_times (unat n) (ReadRaw B) [])
           (\<lambda>xs. bind (copy_front arr xs) (\<lambda>a. return (Some a)))))
      (concat (map le_bytes xs)) (Some (xs @ drop (length xs) arr))" if n: "unat n = length xs" for n :: u32
  proof -
    have "decodes F (bind (copy_front arr xs) (\<lambda>a. return (Some a))) [] (Some (xs @ drop (length xs) arr))"
      by (rule decodesI) (use assms(2) in \<open>simp add: copy_front_def bind_def\<close>)
    then have "decodes F (bind
           (if native B = Little then
              bind (take_bytes (size_mul (unat n) (sizeof TYPE('a)))) (\<lambda>bs.
                return (map (of_mem Little) (chunks (unat n) (sizeof TYPE('a)) bs)))
            else read_times (unat n) (ReadRaw B) [])
           (\<lambda>xs. bind (copy_front arr xs) (\<lambda>a. return (Some a)))) (concat (map le_bytes xs) @ []) (Some (xs @ drop (length xs) arr))"
      by (rule decodes_bind [where v = xs, OF decodes_elements_body [OF assms(1) sz n]])
    then show ?thesis by (intro decodes_ensure) (use n len sz in simp_all)
  qed
  have u: "unat ?n = length xs" using n31 by (intro unat_of_nat_32) simp
  have main: "decodes F (bind (bind (EnsureBytes B (size_mul (length xs) (sizeof TYPE('a)))) (\<lambda>ok.
         if \<not> ok then return None
         else bind
           (if native B = Little then
              bind (take_bytes (size_mul (length xs) (sizeof TYPE('a)))) (\<lambda>bs.
                return (map (of_mem Little) (chunks (length xs) (sizeof TYPE('a)) bs)))
            else read_times (length xs) (ReadRaw B) [])
           (\<lambda>xs. bind (copy_front arr xs) (\<lambda>a. return (Some a)))))
       (case_option (return (arr, 0)) (\<lambda>a. return (a, ?n)))) (concat (map le_bytes xs)) (xs @ drop (length xs) arr, ?n)"
    by (rule decodes_bind_eq [OF fill [OF u, unfolded u], where cs = "[]"]) (simp_all add: decodes_return [unfolded return_def])
  show ?thesis unfolding ReadArray_def Let_def
    by (rule decodes_counted [OF n31])
      (use lim le u main in \<open>simp_all add: decodes_return [unfolded return_def] cong: if_cong split del: if_split\<close>)
qed

end
