(* ===== verification/Formatters.thy ===== *)
theory Formatters
  imports Reader
begin

text \<open>
  The generic part of \<^verbatim>\<open>core.hpp\<close>: \<^verbatim>\<open>Write<T>\<close>/\<^verbatim>\<open>Read<T>\<close>, the core formatters, the templated
  collection, map, tuple and nullable operations, \<^verbatim>\<open>MEMORYPACK_DEFINE\<close> and the top-level functions.

  A C++ type with its \<^verbatim>\<open>MemoryPackFormatter\<close> specialisation is a record: the traits the templates
  test, the value of \<open>T{}\<close>, and the two static functions. A \<^verbatim>\<open>Deserialize(r, v)\<close> that updates \<open>v\<close>
  in place takes the old value and returns the new one. The branches of an \<open>if constexpr\<close> on the
  element type are separate definitions, one per branch.

  The locale \<open>codec\<close> is the contract of a formatter: it writes a reference encoding, reads that
  encoding back, is safe on every input, and its encodings are not shorter than what the length
  checks assume.
\<close>

section \<open>Formatters and dispatch\<close>

record 'a MemoryPackFormatter =
  is_arithmetic :: bool
  is_enum :: bool
  is_string :: bool
  size_of :: size_t
  value_init :: 'a
  formatter_Serialize :: "build \<Rightarrow> 'a \<Rightarrow> unit wop"
  formatter_Deserialize :: "build \<Rightarrow> 'a \<Rightarrow> 'a rop"

definition Write :: "build \<Rightarrow> 'a MemoryPackFormatter \<Rightarrow> 'a \<Rightarrow> unit wop" where
  "Write B T value = formatter_Serialize T B value"

definition Read :: "build \<Rightarrow> 'a MemoryPackFormatter \<Rightarrow> 'a \<Rightarrow> 'a rop" where
  "Read B T out = formatter_Deserialize T B out"

text \<open>\<open>T Read<T>()\<close>, which starts from \<open>T{}\<close>.\<close>

definition Read_value :: "build \<Rightarrow> 'a MemoryPackFormatter \<Rightarrow> 'a rop" where
  "Read_value B T = Read B T (value_init T)"

definition MinEncodedSize :: "'a MemoryPackFormatter \<Rightarrow> size_t" where
  "MinEncodedSize T =
     (if is_arithmetic T \<or> is_enum T then size_of T else if is_string T then 4 else 1)"

section \<open>Core formatters\<close>

definition bool_formatter :: "bool MemoryPackFormatter" where
  "bool_formatter = \<lparr>is_arithmetic = True, is_enum = False, is_string = False, size_of = 1,
     value_init = False,
     formatter_Serialize = WriteBool,
     formatter_Deserialize = (\<lambda>B v. ReadBool B)\<rparr>"

text \<open>Arithmetic types by size. The signed types, \<^verbatim>\<open>float\<close> and \<^verbatim>\<open>double\<close> take the same branches with
  their bit patterns: \<^verbatim>\<open>WriteFloat\<close> and \<^verbatim>\<open>WriteUInt32\<close> append the same four bytes.\<close>

definition uint8_formatter :: "byte MemoryPackFormatter" where
  "uint8_formatter = \<lparr>is_arithmetic = True, is_enum = False, is_string = False, size_of = 1,
     value_init = 0,
     formatter_Serialize = WriteUInt8,
     formatter_Deserialize = (\<lambda>B v. ReadUInt8 B)\<rparr>"

definition uint16_formatter :: "u16 MemoryPackFormatter" where
  "uint16_formatter = \<lparr>is_arithmetic = True, is_enum = False, is_string = False, size_of = 2,
     value_init = 0,
     formatter_Serialize = WriteUInt16,
     formatter_Deserialize = (\<lambda>B v. ReadUInt16 B)\<rparr>"

definition uint32_formatter :: "u32 MemoryPackFormatter" where
  "uint32_formatter = \<lparr>is_arithmetic = True, is_enum = False, is_string = False, size_of = 4,
     value_init = 0,
     formatter_Serialize = WriteUInt32,
     formatter_Deserialize = (\<lambda>B v. ReadUInt32 B)\<rparr>"

definition uint64_formatter :: "u64 MemoryPackFormatter" where
  "uint64_formatter = \<lparr>is_arithmetic = True, is_enum = False, is_string = False, size_of = 8,
     value_init = 0,
     formatter_Serialize = WriteUInt64,
     formatter_Deserialize = (\<lambda>B v. ReadUInt64 B)\<rparr>"

definition float_formatter :: "u32 MemoryPackFormatter" where
  "float_formatter = \<lparr>is_arithmetic = True, is_enum = False, is_string = False, size_of = 4,
     value_init = 0,
     formatter_Serialize = WriteFloat,
     formatter_Deserialize = (\<lambda>B v. ReadFloat B)\<rparr>"

definition double_formatter :: "u64 MemoryPackFormatter" where
  "double_formatter = \<lparr>is_arithmetic = True, is_enum = False, is_string = False, size_of = 8,
     value_init = 0,
     formatter_Serialize = WriteDouble,
     formatter_Deserialize = (\<lambda>B v. ReadDouble B)\<rparr>"

definition enum_formatter :: "'a::len word MemoryPackFormatter" where
  "enum_formatter = \<lparr>is_arithmetic = False, is_enum = True, is_string = False,
     size_of = sizeof TYPE('a), value_init = 0,
     formatter_Serialize = WriteEnum,
     formatter_Deserialize = (\<lambda>B v. ReadEnum B)\<rparr>"

definition string_formatter :: "bytes MemoryPackFormatter" where
  "string_formatter = \<lparr>is_arithmetic = False, is_enum = False, is_string = True, size_of = 32,
     value_init = [],
     formatter_Serialize = WriteString,
     formatter_Deserialize = (\<lambda>B v. bind (ReadString_into B) (\<lambda>(s, _). return s))\<rparr>"

definition u16string_formatter :: "u16 list MemoryPackFormatter" where
  "u16string_formatter = \<lparr>is_arithmetic = False, is_enum = False, is_string = False, size_of = 32,
     value_init = [],
     formatter_Serialize = WriteStringUtf16,
     formatter_Deserialize = (\<lambda>B v. bind (ReadString B) (\<lambda>s.
       case s of None \<Rightarrow> return [] | Some u8 \<Rightarrow> return (utf8_to_utf16 u8)))\<rparr>"

section \<open>Collections of any element type\<close>

text \<open>\<^verbatim>\<open>WriteCollection\<close> and \<^verbatim>\<open>ReadCollection\<close> for an element type that is not arithmetic. The
  arithmetic and \<^verbatim>\<open>bool\<close> branches are \<^const>\<open>WriteVector\<close>, \<^const>\<open>WriteVector_bool\<close>,
  \<^const>\<open>ReadVector\<close> and \<^const>\<open>ReadVector_bool\<close>.\<close>

definition WriteCollection :: "build \<Rightarrow> 'a MemoryPackFormatter \<Rightarrow> 'a list \<Rightarrow> unit wop" where
  "WriteCollection B T items =
     bind (ToInt32Length B (length items)) (\<lambda>n.
       if sint n < 0 then return ()
       else seq (WriteCollectionHeader B n) (for_each (Write B T) items))"

definition ReadCollection :: "build \<Rightarrow> 'a MemoryPackFormatter \<Rightarrow> 'a list rop" where
  "ReadCollection B T =
     bind (ReadCollectionLength B (MinEncodedSize T)) (\<lambda>len.
       if sint len \<le> 0 then return []
       else read_loop (unat len) (\<lambda>out. bind (Read_value B T) (\<lambda>value. return (out @ [value]))) [])"

text \<open>A standard container, as far as the library uses it: the empty container, the elements in
  iteration order, and insertion.\<close>

record ('c, 'a) container =
  c_empty :: 'c
  c_items :: "'c \<Rightarrow> 'a list"
  c_insert :: "'a \<Rightarrow> 'c \<Rightarrow> 'c"

definition WriteMapImpl :: "build \<Rightarrow> 'k MemoryPackFormatter \<Rightarrow> 'v MemoryPackFormatter \<Rightarrow>
    ('m, 'k \<times> 'v) container \<Rightarrow> 'm \<Rightarrow> unit wop" where
  "WriteMapImpl B K V C m =
     bind (ToInt32Length B (length (c_items C m))) (\<lambda>n.
       if sint n < 0 then return ()
       else seq (WriteCollectionHeader B n)
         (for_each (\<lambda>(key, value). seq (Write B K key) (Write B V value)) (c_items C m)))"

definition read_entry :: "build \<Rightarrow> 'k MemoryPackFormatter \<Rightarrow> 'v MemoryPackFormatter \<Rightarrow>
    ('m, 'k \<times> 'v) container \<Rightarrow> 'm \<Rightarrow> 'm rop" where
  "read_entry B K V C result =
     bind (Read_value B K) (\<lambda>key. bind (Read_value B V) (\<lambda>value.
       return (c_insert C (key, value) result)))"

text \<open>\<^verbatim>\<open>ReadMap\<close> and \<^verbatim>\<open>ReadUnorderedMap\<close>: a non-positive length runs no iteration.\<close>

definition ReadMap :: "build \<Rightarrow> 'k MemoryPackFormatter \<Rightarrow> 'v MemoryPackFormatter \<Rightarrow>
    ('m, 'k \<times> 'v) container \<Rightarrow> 'm rop" where
  "ReadMap B K V C =
     bind (ReadCollectionLength B (MinEncodedSize K + MinEncodedSize V)) (\<lambda>len.
       if sint len \<le> 0 then return (c_empty C)
       else read_loop (unat len) (read_entry B K V C) (c_empty C))"

section \<open>Nullable values\<close>

definition NullableLayout_Size :: "size_t \<Rightarrow> size_t \<Rightarrow> size_t" where
  "NullableLayout_Size align sz = ((align + sz + align - 1) div align) * align"

definition NullableLayout_ValueOffset :: "size_t \<Rightarrow> size_t" where
  "NullableLayout_ValueOffset align = align"

text \<open>\<^verbatim>\<open>WriteNullable\<close>, given the bytes \<^verbatim>\<open>memcpy\<close> copies for the value, if there is one. A copy outside
  the local buffer is \<open>UB\<close>. It is the common part of the branches of \<^verbatim>\<open>WriteNullable\<close>: the one of a struct has a
  \<^verbatim>\<open>static_assert\<close> on the byte order of the host, which is \<^const>\<open>unmanaged_assert\<close>, the ones of scalars and enums (the
  definition \<open>WriteNullable\<close> below) convert the value instead. The same holds of reading.\<close>

definition WriteNullable_raw :: "build \<Rightarrow> size_t \<Rightarrow> size_t \<Rightarrow> bytes option \<Rightarrow> unit wop" where
  "WriteNullable_raw B align sz v = (\<lambda>w.
     let buf = (replicate (NullableLayout_Size align sz) 0)[0 := if v \<noteq> None then 1 else 0]
     in case v of
          None \<Rightarrow> AppendBytes B buf w
        | Some bytes \<Rightarrow> (case store buf (NullableLayout_ValueOffset align) bytes of
              None \<Rightarrow> (UB, w)
            | Some buf' \<Rightarrow> AppendBytes B buf' w))"

definition WriteNullable :: "build \<Rightarrow> size_t \<Rightarrow> 'a::len word option \<Rightarrow> unit wop" where
  "WriteNullable B align v = WriteNullable_raw B align (sizeof TYPE('a))
     (map_option (\<lambda>x. mem_bytes (native B) (endian_convert (native B) x)) v)"

definition ReadNullable_raw :: "build \<Rightarrow> size_t \<Rightarrow> size_t \<Rightarrow> bytes option rop" where
  "ReadNullable_raw B align sz =
     bind (EnsureBytes B (NullableLayout_Size align sz)) (\<lambda>ok.
       if \<not> ok then return None
       else bind (take_bytes (NullableLayout_Size align sz)) (\<lambda>src.
         if hd src = 0 then return None
         else return (Some (take sz (drop (NullableLayout_ValueOffset align) src)))))"

definition ReadNullable :: "build \<Rightarrow> size_t \<Rightarrow> 'a::len word option rop" where
  "ReadNullable B align = bind (ReadNullable_raw B align (sizeof TYPE('a))) (\<lambda>v.
     return (map_option (\<lambda>bs. endian_convert (native B) (of_mem (native B) bs)) v))"

definition WriteOptional :: "build \<Rightarrow> 'a MemoryPackFormatter \<Rightarrow> 'a option \<Rightarrow> unit wop" where
  "WriteOptional B T v = (case v of Some x \<Rightarrow> Write B T x | None \<Rightarrow> WriteNullObjectHeader B)"

definition WritePointer :: "build \<Rightarrow> 'a MemoryPackFormatter \<Rightarrow> 'a option \<Rightarrow> unit wop" where
  "WritePointer B T v = (case v of Some x \<Rightarrow> Write B T x | None \<Rightarrow> WriteNullObjectHeader B)"

definition ReadOptional :: "build \<Rightarrow> 'a MemoryPackFormatter \<Rightarrow> 'a option rop" where
  "ReadOptional B T = bind PeekIsNull (\<lambda>null.
     if null then bind (ReadByte B) (\<lambda>_. return None)
     else bind (Read_value B T) (\<lambda>value. return (Some value)))"

definition WriteNullableObject :: "build \<Rightarrow> 'a MemoryPackFormatter \<Rightarrow> 'a option \<Rightarrow> unit wop" where
  "WriteNullableObject B T v = (case v of
     None \<Rightarrow> WriteNullObjectHeader B
   | Some x \<Rightarrow> seq (AppendByte B 1) (Write B T x))"

definition ReadNullableObject :: "build \<Rightarrow> 'a MemoryPackFormatter \<Rightarrow> 'a option rop" where
  "ReadNullableObject B T = bind (ReadByte B) (\<lambda>b.
     if b = NULL_OBJECT then return None
     else bind (Read_value B T) (\<lambda>value. return (Some value)))"

section \<open>Objects and tuples\<close>

text \<open>A member of a struct \<open>'s\<close>: how it is written from and read into the struct.\<close>

record 's member =
  write_member :: "build \<Rightarrow> 's \<Rightarrow> unit wop"
  read_member :: "build \<Rightarrow> 's \<Rightarrow> 's rop"

definition member :: "'a MemoryPackFormatter \<Rightarrow> ('s \<Rightarrow> 'a) \<Rightarrow> ('a \<Rightarrow> 's \<Rightarrow> 's) \<Rightarrow> 's member" where
  "member T get put = \<lparr>
     write_member = (\<lambda>B s. Write B T (get s)),
     read_member = (\<lambda>B s. bind (Read B T (get s)) (\<lambda>x. return (put x s)))\<rparr>"

text \<open>\<open>if (header.count > index++) r.Read(v.name);\<close> for every member in turn.\<close>

primrec read_members :: "build \<Rightarrow> nat \<Rightarrow> nat \<Rightarrow> 's member list \<Rightarrow> 's \<Rightarrow> 's rop" where
  "read_members B cnt index [] v = return v"
| "read_members B cnt index (m # ms) v =
     bind (if cnt > index then read_member m B v else return v)
          (read_members B cnt (Suc index) ms)"

definition IMemoryPackable_Serialize :: "build \<Rightarrow> 's member list \<Rightarrow> 's option \<Rightarrow> unit wop" where
  "IMemoryPackable_Serialize B ms v = (case v of
     None \<Rightarrow> WriteNullObjectHeader B
   | Some s \<Rightarrow> seq (WriteObjectHeader B (word_of_nat (length ms)))
                   (for_each (\<lambda>m. write_member m B s) ms))"

definition IMemoryPackable_Deserialize :: "build \<Rightarrow> 's \<Rightarrow> 's member list \<Rightarrow> 's \<Rightarrow> 's rop" where
  "IMemoryPackable_Deserialize B init ms v =
     bind (ReadObjectHeader B) (\<lambda>header.
       if isNull header then return init
       else bind (EnterObject B) (\<lambda>ok.
         if \<not> ok then return v
         else bind (read_members B (unat (count header)) 0 ms v) (\<lambda>v'.
           seq LeaveObject (return v'))))"

definition MEMORYPACK_DEFINE :: "'s \<Rightarrow> 's member list \<Rightarrow> 's MemoryPackFormatter" where
  "MEMORYPACK_DEFINE init ms = \<lparr>is_arithmetic = False, is_enum = False, is_string = False,
     size_of = 1, value_init = init,
     formatter_Serialize = (\<lambda>B v. IMemoryPackable_Serialize B ms (Some v)),
     formatter_Deserialize = (\<lambda>B v. IMemoryPackable_Deserialize B init ms v)\<rparr>"

definition MEMORYPACK_DEFINE_EMPTY :: "'s \<Rightarrow> 's MemoryPackFormatter" where
  "MEMORYPACK_DEFINE_EMPTY init = \<lparr>is_arithmetic = False, is_enum = False, is_string = False,
     size_of = 1, value_init = init,
     formatter_Serialize = (\<lambda>B v. WriteObjectHeader B 0),
     formatter_Deserialize = (\<lambda>B v. bind (ReadObjectHeader B) (\<lambda>header.
       if isNull header then return init else return v))\<rparr>"

text \<open>A tuple is written like an object; its items are the members of the product.\<close>

definition WriteTuple :: "build \<Rightarrow> 's member list \<Rightarrow> 's \<Rightarrow> unit wop" where
  "WriteTuple B ms t = seq (WriteObjectHeader B (word_of_nat (length ms)))
     (for_each (\<lambda>m. write_member m B t) ms)"

definition ReadTuple :: "build \<Rightarrow> 's \<Rightarrow> 's member list \<Rightarrow> 's rop" where
  "ReadTuple B init ms = bind (ReadObjectHeader B) (\<lambda>header.
     if isNull header then return init
     else read_members B (unat (count header)) 0 ms init)"

section \<open>Unmanaged structs\<close>

text \<open>\<^verbatim>\<open>MEMORYPACK_UNMANAGED\<close> and \<^verbatim>\<open>MEMORYPACK_UNMANAGED_EXACT\<close>: the value is its object
  representation of \<open>sz\<close> bytes, padding included. The exact form also proves, at compile time, that
  the member sizes add up to \<open>sz\<close>.\<close>

definition MEMORYPACK_UNMANAGED :: "size_t \<Rightarrow> bytes MemoryPackFormatter" where
  "MEMORYPACK_UNMANAGED sz = \<lparr>is_arithmetic = False, is_enum = False, is_string = False,
     size_of = sz, value_init = replicate sz 0,
     formatter_Serialize = WriteUnmanaged,
     formatter_Deserialize = (\<lambda>B v. ReadUnmanaged B sz)\<rparr>"

definition UNMANAGED_EXACT_assert :: "size_t \<Rightarrow> (size_t \<times> size_t) list \<Rightarrow> bool" where
  "UNMANAGED_EXACT_assert sz members \<longleftrightarrow> sum_list (map snd members) = sz"

text \<open>\<^verbatim>\<open>MEMORYPACK_UNMANAGED_SCRUBBED\<close>: the bytes of each member, given by offset and size, are
  copied into a zero-filled buffer.\<close>

definition scrub_member :: "bytes \<Rightarrow> bytes \<Rightarrow> size_t \<times> size_t \<Rightarrow> bytes" where
  "scrub_member v buf = (\<lambda>(off, n).
     take off buf @ take n (drop off v) @ drop (off + n) buf)"

definition scrub :: "size_t \<Rightarrow> (size_t \<times> size_t) list \<Rightarrow> bytes \<Rightarrow> bytes" where
  "scrub sz members v = foldl (scrub_member v) (replicate sz 0) members"

definition MEMORYPACK_UNMANAGED_SCRUBBED ::
    "size_t \<Rightarrow> (size_t \<times> size_t) list \<Rightarrow> bytes MemoryPackFormatter" where
  "MEMORYPACK_UNMANAGED_SCRUBBED sz members = \<lparr>is_arithmetic = False, is_enum = False,
     is_string = False, size_of = sz, value_init = replicate sz 0,
     formatter_Serialize = (\<lambda>B v. WriteBytes B (scrub sz members v)),
     formatter_Deserialize = (\<lambda>B v. ReadUnmanaged B sz)\<rparr>"

section \<open>Top-level functions\<close>

definition Serialize :: "build \<Rightarrow> 'a MemoryPackFormatter \<Rightarrow> 'a \<Rightarrow> bytes outcome" where
  "Serialize B T value = fst (seq (Write B T value) (TakeBuffer B) writer_default)"

text \<open>Appending to a caller's vector: the outcome and the vector afterwards.\<close>

definition Serialize_append ::
    "build \<Rightarrow> 'a MemoryPackFormatter \<Rightarrow> 'a \<Rightarrow> bytes \<Rightarrow> unit outcome \<times> bytes" where
  "Serialize_append B T value out =
     (case Write B T value (writer_vector out) of (res, w) \<Rightarrow> (res, Data w))"

text \<open>Into a fixed buffer: the returned count and the buffer afterwards.\<close>

definition SerializeTo ::
    "build \<Rightarrow> 'a MemoryPackFormatter \<Rightarrow> span \<Rightarrow> 'a \<Rightarrow> size_t outcome \<times> bytes" where
  "SerializeTo B T buffer value =
     (case seq (Write B T value) (gets (\<lambda>w. if WriterFailed w then 0 else Size w))
             (writer_span buffer) of (res, w) \<Rightarrow> (res, Data w))"

definition Deserialize :: "build \<Rightarrow> 'a MemoryPackFormatter \<Rightarrow> bytes \<Rightarrow> 'a outcome" where
  "Deserialize B T data = fst (Read B T (value_init T) (make_reader data))"

definition Deserialize_into :: "build \<Rightarrow> 'a MemoryPackFormatter \<Rightarrow> bytes \<Rightarrow> 'a \<Rightarrow> 'a outcome" where
  "Deserialize_into B T data out = fst (Read B T out (make_reader data))"

definition DeserializeExact :: "build \<Rightarrow> 'a MemoryPackFormatter \<Rightarrow> bytes \<Rightarrow> 'a outcome" where
  "DeserializeExact B T data =
     fst (bind (Read B T (value_init T)) (\<lambda>value. bind (RequireEnd B) (\<lambda>_. return value))
            (make_reader data))"

definition TryDeserialize ::
    "build \<Rightarrow> 'a MemoryPackFormatter \<Rightarrow> bytes \<Rightarrow> (MemoryPackError + 'a) outcome" where
  "TryDeserialize B T data =
     (case Read B T (value_init T) (make_reader data) of
        (Ret value, r) \<Rightarrow> Ret (if Failed r then Inl (r_error r) else Inr value)
      | (Throw e, r) \<Rightarrow> Ret (Inl (if r_error r = ErrorNone then BufferUnderflow else r_error r))
      | (UB, r) \<Rightarrow> UB)"

definition TrySerializeTo ::
    "build \<Rightarrow> 'a MemoryPackFormatter \<Rightarrow> span \<Rightarrow> 'a \<Rightarrow> (MemoryPackError + size_t) outcome \<times> bytes" where
  "TrySerializeTo B T buffer value =
     (case Write B T value (writer_span buffer) of
        (Ret _, w) \<Rightarrow> (Ret (if WriterFailed w then Inl (w_error w) else Inr (Size w)), Data w)
      | (Throw e, w) \<Rightarrow>
          (Ret (Inl (if w_error w = ErrorNone then BufferOverflow else w_error w)), Data w)
      | (UB, w) \<Rightarrow> (UB, Data w))"

section \<open>The contract of a formatter\<close>

lemma make_reader_simps [simp]:
  "r_error (make_reader_with bs opts) = ErrorNone" "r_options (make_reader_with bs opts) = opts"
  "r_data (make_reader_with bs opts) = bs" "r_pos (make_reader_with bs opts) = 0"
  "r_depth (make_reader_with bs opts) = 0" "r_size (make_reader_with bs opts) = length bs"
  by (simp_all add: make_reader_with_def)

text \<open>Arbitrary input never escapes from a safe reader as an exception or as undefined behaviour, and both builds report
  the same.\<close>

lemma TryDeserialize_total:
  assumes "reader_action (\<lambda>B. Read B T (value_init T))" "length data < 2 ^ 63"
  shows "\<exists>res. TryDeserialize B T data = Ret res"
proof -
  have "reader_step B (make_reader data) (Read B T (value_init T) (make_reader data))"
    using assms(2) by (intro reader_action.step [OF assms(1)]) (simp add: make_reader_def)
  then show ?thesis by (auto simp: TryDeserialize_def reader_step_def split: prod.splits outcome.splits)
qed

lemma TryDeserialize_builds:
  assumes "reader_action (\<lambda>B. Read B T (value_init T))" "length data < 2 ^ 63"
  shows "TryDeserialize (no_exceptions e) T data = TryDeserialize (with_exceptions e) T data"
proof -
  let ?r = "make_reader data"
  have c: "corresponds (Read (no_exceptions e) T (value_init T) ?r) (Read (with_exceptions e) T (value_init T) ?r)"
    using assms(2) by (intro reader_action.builds_agree [OF assms(1)]) (simp_all add: make_reader_def)
  have s: "reader_step (no_exceptions e) ?r (Read (no_exceptions e) T (value_init T) ?r)"
    using assms(2) by (intro reader_action.step [OF assms(1)]) (simp add: make_reader_def)
  from c s show ?thesis
    by (auto simp: TryDeserialize_def corresponds_def reader_step_def Failed_def
        split: prod.splits outcome.splits if_splits)
qed

locale codec =
  fixes T :: "'a MemoryPackFormatter" and enc :: "'a \<Rightarrow> bytes" and ok :: "'a \<Rightarrow> bool"
    and fits :: "'a \<Rightarrow> ReaderOptions \<Rightarrow> nat \<Rightarrow> bool"
  assumes writes: "ok v \<Longrightarrow> emits B (Write B T v) (enc v)"
    and reads: "ok v \<Longrightarrow> decodes (fits v) (Read B T v0) (enc v) v"
    and safe: "reader_action (\<lambda>B. Read B T v0)"
    and min_size: "ok v \<Longrightarrow> MinEncodedSize T \<le> length (enc v)"
    and min_pos: "0 < MinEncodedSize T"
begin

lemma reads_value: "ok v \<Longrightarrow> decodes (fits v) (Read_value B T) (enc v) v"
  unfolding Read_value_def by (rule reads)

lemma safe_value: "reader_action (\<lambda>B. Read_value B T)"
  unfolding Read_value_def by (rule safe)

lemma nonempty: "ok v \<Longrightarrow> enc v \<noteq> []"
  using min_size [of v] min_pos by auto

end

lemma reader_inv_make [simp]: "length bs < 2 ^ 63 \<Longrightarrow> reader_inv (make_reader_with bs opts)"
  by (simp add: reader_inv_def make_reader_with_def)

lemma writer_inv_default [simp]: "writer_inv writer_default"
  by (simp add: writer_inv_def writer_default_def)

lemma writer_inv_vector [simp]: "writer_inv (writer_vector out)"
  by (simp add: writer_inv_def writer_vector_def writer_default_def)

lemma writer_inv_span [simp]: "length mem < 2 ^ 64 \<Longrightarrow> writer_inv (writer_span (Some mem))"
  by (simp add: writer_inv_def writer_span_def writer_default_def span_size_def)

lemma writer_start [simp]:
  "w_error writer_default = ErrorNone" "GetSpan writer_default = []"
  "room writer_default n \<longleftrightarrow> n \<le> 2 ^ 62" "w_vec writer_default = None" "w_fixedBuf writer_default = None"
  "w_error (writer_vector out) = ErrorNone" "GetSpan (writer_vector out) = out"
  "room (writer_vector out) n"
  "w_error (writer_span s) = ErrorNone" "GetSpan (writer_span (Some mem)) = []"
  "room (writer_span (Some mem)) n \<longleftrightarrow> n \<le> length mem" "is_fixed (writer_span (Some mem))"
  by (simp_all add: writer_default_def writer_vector_def writer_span_def GetSpan_def Size_def Data_def
      room_def is_fixed_def span_size_def)

lemma TakeBuffer_owned:
  assumes "writer_inv w" "w_vec w = None" "w_fixedBuf w = None"
  shows "fst (TakeBuffer B w) = Ret (GetSpan w)"
  using assms by (simp add: TakeBuffer_def GetSpan_def Size_def Data_def writer_inv_def resize_def)

text \<open>\<^verbatim>\<open>Serialize\<close> returns what the formatter appends to the internal vector.\<close>

lemma Serialize_emits:
  assumes "emits B (Write B T v) bs" "length bs \<le> 2 ^ 62"
  shows "Serialize B T v = Ret bs"
proof -
  from emitsD(1) [OF assms(1), of writer_default] assms(2)
  obtain w where w: "Write B T v writer_default = (Ret (), w)" "writer_inv w" "same_target writer_default w"
    "w_error w = ErrorNone" "GetSpan w = bs" by (auto elim: appendedE)
  then have "w_vec w = None" "w_fixedBuf w = None" by (simp_all add: same_target_def)
  then show ?thesis using w TakeBuffer_owned [OF w(2)] by (simp add: Serialize_def)
qed

context codec
begin

lemma serialize:
  assumes "ok v" "length (enc v) \<le> 2 ^ 62"
  shows "Serialize B T v = Ret (enc v)"
  using assms by (intro Serialize_emits writes)

lemma serialize_append:
  assumes "ok v"
  shows "Serialize_append B T v out = (Ret (), out @ enc v)"
proof -
  from emitsD(1) [OF writes [OF assms(1)], of "writer_vector out" B]
  obtain w where w: "Write B T v (writer_vector out) = (Ret (), w)" "writer_inv w"
    "same_target (writer_vector out) w" "GetSpan w = out @ enc v" by (auto elim: appendedE)
  then obtain u where "w_vec w = Some u" by (auto simp: same_target_def writer_vector_def)
  then have "Data w = GetSpan w" by (simp add: Data_def GetSpan_def Size_def)
  with w show ?thesis by (simp add: Serialize_append_def)
qed

lemma serialize_to:
  assumes "ok v" "length (enc v) \<le> length mem" "length mem < 2 ^ 64"
  shows "\<exists>mem'. SerializeTo B T (Some mem) v = (Ret (length (enc v)), mem')
    \<and> length mem' = length mem \<and> take (length (enc v)) mem' = enc v"
proof -
  from emitsD(1) [OF writes [OF assms(1)], of "writer_span (Some mem)" B] assms
  obtain w where w: "Write B T v (writer_span (Some mem)) = (Ret (), w)" "writer_inv w"
    "same_target (writer_span (Some mem)) w" "w_error w = ErrorNone" "GetSpan w = enc v"
    by (auto elim: appendedE)
  then obtain m where m: "w_vec w = None" "w_fixedBuf w = Some m" "length m = length mem"
    by (auto simp: same_target_def writer_span_def writer_default_def writer_inv_def span_size_def)
  then have "Data w = m" "Size w = length (enc v)" "take (length (enc v)) m = enc v"
    using w length_GetSpan [OF w(2)] by (simp_all add: Data_def GetSpan_def)
  with w m show ?thesis by (simp add: SerializeTo_def WriterFailed_def)
qed

text \<open>A buffer that is too small: an exception or the return value 0, and no byte outside it.\<close>

lemma serialize_to_small:
  assumes "ok v" "length mem < length (enc v)" "length mem < 2 ^ 64"
  shows "\<exists>mem' e. SerializeTo B T (Some mem) v =
      (if has_exceptions B then Throw e else Ret 0, mem') \<and> exn_code e = BufferOverflow
    \<and> length mem' = length mem"
proof -
  from emitsD(2) [OF writes [OF assms(1)], of "writer_span (Some mem)" B] assms
  obtain res w where w: "Write B T v (writer_span (Some mem)) = (res, w)" "writer_inv w"
    "same_target (writer_span (Some mem)) w" "w_error w = BufferOverflow"
    "if has_exceptions B then \<exists>e. res = Throw e \<and> exn_code e = BufferOverflow else res = Ret ()"
    by (auto simp: overflowed_def)
  then obtain m where m: "w_vec w = None" "w_fixedBuf w = Some m" "length m = length mem"
    by (auto simp: same_target_def writer_span_def writer_default_def writer_inv_def span_size_def)
  then have "Data w = m" by (simp add: Data_def)
  show ?thesis
  proof (cases "has_exceptions B")
    case True
    with w obtain e where "res = Throw e" "exn_code e = BufferOverflow" by auto
    with True w m \<open>Data w = m\<close> show ?thesis by (auto simp: SerializeTo_def)
  next
    case False
    with w m \<open>Data w = m\<close> have "SerializeTo B T (Some mem) v = (Ret 0, m)"
      by (simp add: SerializeTo_def WriterFailed_def)
    with False m show ?thesis by (metis code_make_exception)
  qed
qed

lemma deserialize:
  assumes "ok v" "fits v default_options 0" "length (enc v @ rest) < 2 ^ 63"
  shows "Read B T v0 (make_reader (enc v @ rest)) =
    (Ret v, (make_reader (enc v @ rest))\<lparr>r_pos := length (enc v)\<rparr>)"
  using decodesD [OF reads [OF assms(1)], of "make_reader (enc v @ rest)" rest B v0] assms(2,3)
  by (simp add: make_reader_def)

lemma deserialize_round_trip:
  assumes "ok v" "fits v default_options 0" "length (enc v @ rest) < 2 ^ 63"
  shows "Deserialize B T (enc v @ rest) = Ret v" "Deserialize_into B T (enc v @ rest) v0 = Ret v"
    "TryDeserialize B T (enc v @ rest) = Ret (Inr v)"
  using deserialize [OF assms]
  by (simp_all add: Deserialize_def Deserialize_into_def TryDeserialize_def Failed_def make_reader_def)

lemma deserialize_exact:
  assumes "ok v" "fits v default_options 0" "length (enc v) < 2 ^ 63"
  shows "DeserializeExact B T (enc v) = Ret v"
  using deserialize [of v "[]"] assms
  by (simp add: DeserializeExact_def RequireEnd_def IsEnd_def make_reader_def)

lemma deserialize_exact_trailing:
  assumes "ok v" "fits v default_options 0" "length (enc v @ rest) < 2 ^ 63" "rest \<noteq> []"
    "has_exceptions B"
  shows "\<exists>e. DeserializeExact B T (enc v @ rest) = Throw e \<and> exn_code e = TrailingBytes"
  using deserialize [OF assms(1-3)] assms(4,5)
  by (simp add: DeserializeExact_def RequireEnd_def IsEnd_def make_reader_def Fail_def seq_def)

text \<open>Between any two builds and hosts.\<close>

lemma transfer:
  assumes "ok v" "fits v default_options 0" "length (enc v) \<le> 2 ^ 62"
  shows "\<exists>bs. Serialize B T v = Ret bs \<and> DeserializeExact B' T bs = Ret v"
  using serialize [OF assms(1,3)] deserialize_exact [OF assms(1,2)] assms(3) by auto

text \<open>Arbitrary input never escapes as an exception or as undefined behaviour.\<close>

lemma try_deserialize_total: "length data < 2 ^ 63 \<Longrightarrow> \<exists>res. TryDeserialize B T data = Ret res"
  by (rule TryDeserialize_total [OF safe])

lemma try_deserialize_builds:
  "length data < 2 ^ 63 \<Longrightarrow> TryDeserialize (no_exceptions e) T data = TryDeserialize (with_exceptions e) T data"
  by (rule TryDeserialize_builds [OF safe])

end

section \<open>The core formatters are codecs\<close>

lemma decodes_if_any: "decodes any_limits m bs v \<Longrightarrow> decodes F m bs v"
  by (rule decodes_mono) auto

interpretation bool_codec: codec bool_formatter "\<lambda>b. [if b then 1 else 0]" "\<lambda>_. True" "\<lambda>_ _ _. True"
  by (rule codec.intro)
    (auto simp: Write_def Read_def bool_formatter_def WriteBool_def MinEncodedSize_def
      intro: emits_AppendByte reader_intros decodes_ReadBool [where b = True, simplified]
        decodes_ReadBool [where b = False, simplified])

interpretation uint8_codec: codec uint8_formatter le_bytes "\<lambda>_. True" "\<lambda>_ _ _. True"
  by (rule codec.intro)
    (auto simp: Write_def Read_def uint8_formatter_def WriteUInt8_def ReadUInt8_def MinEncodedSize_def
      intro: emits_AppendByte decodes_ReadByte reader_intros)

lemmas raw_operations =
  WriteUInt16_def ReadUInt16_def WriteUInt32_def ReadUInt32_def WriteUInt64_def ReadUInt64_def
  WriteFloat_def ReadFloat_def WriteDouble_def ReadDouble_def WriteEnum_def ReadEnum_def

interpretation uint16_codec: codec uint16_formatter le_bytes "\<lambda>_. True" "\<lambda>_ _ _. True"
  by (rule codec.intro)
    (auto simp: Write_def Read_def uint16_formatter_def raw_operations MinEncodedSize_def
      intro: emits_WriteRaw decodes_ReadRaw reader_intros)

interpretation uint32_codec: codec uint32_formatter le_bytes "\<lambda>_. True" "\<lambda>_ _ _. True"
  by (rule codec.intro)
    (auto simp: Write_def Read_def uint32_formatter_def raw_operations MinEncodedSize_def
      intro: emits_WriteRaw decodes_ReadRaw reader_intros)

interpretation uint64_codec: codec uint64_formatter le_bytes "\<lambda>_. True" "\<lambda>_ _ _. True"
  by (rule codec.intro)
    (auto simp: Write_def Read_def uint64_formatter_def raw_operations MinEncodedSize_def
      intro: emits_WriteRaw decodes_ReadRaw reader_intros)

interpretation float_codec: codec float_formatter le_bytes "\<lambda>_. True" "\<lambda>_ _ _. True"
  by (rule codec.intro)
    (auto simp: Write_def Read_def float_formatter_def raw_operations MinEncodedSize_def
      intro: emits_WriteRaw decodes_ReadRaw reader_intros)

interpretation double_codec: codec double_formatter le_bytes "\<lambda>_. True" "\<lambda>_ _ _. True"
  by (rule codec.intro)
    (auto simp: Write_def Read_def double_formatter_def raw_operations MinEncodedSize_def
      intro: emits_WriteRaw decodes_ReadRaw reader_intros)

lemma enum_codec:
  assumes "8 dvd LENGTH('a::len)"
  shows "codec (enum_formatter :: 'a word MemoryPackFormatter) le_bytes (\<lambda>_. True) (\<lambda>_ _ _. True)"
proof -
  have "0 < LENGTH('a) div 8" using assms by (simp add: dvd_imp_le div_greater_zero_iff)
  then show ?thesis using assms
    by (intro codec.intro)
      (auto simp: Write_def Read_def enum_formatter_def raw_operations MinEncodedSize_def sizeof_def
        intro: emits_WriteRaw decodes_ReadRaw reader_intros)
qed

lemma length_enc_string: "4 \<le> length (enc_string s)" "4 \<le> length (enc_utf16_string us)"
  by (simp_all add: enc_string_def enc_utf16_string_def enc_length_def)

definition string_ok :: "bytes \<Rightarrow> bool" where "string_ok s \<longleftrightarrow> length s < 2 ^ 31"

interpretation string_codec: codec string_formatter enc_string string_ok "\<lambda>s opts d. string_fits s opts"
proof (rule codec.intro)
  fix B v v0 assume "string_ok v"
  then have "decodes (\<lambda>opts d. string_fits v opts) (ReadString B) (enc_string v) (Some v)"
    by (intro decodes_ReadString) (simp_all add: string_ok_def)
  from decodes_bind [OF this, of _ "[]" "(v, True)"]
  have "decodes (\<lambda>opts d. string_fits v opts) (ReadString_into B) (enc_string v) (v, True)"
    by (simp add: ReadString_into_def)
  from decodes_map [OF this, of fst v]
  show "decodes (\<lambda>opts d. string_fits v opts) (Read B string_formatter v0) (enc_string v) v"
    by (simp add: Read_def string_formatter_def case_prod_beta')
qed (auto simp: Write_def Read_def string_formatter_def MinEncodedSize_def string_ok_def length_enc_string
      intro: emits_WriteString reader_intros)

text \<open>A UTF-16 string comes back unchanged when its surrogates are paired.\<close>

definition u16string_ok :: "u16 list \<Rightarrow> bool" where
  "u16string_ok s \<longleftrightarrow> length s < 2 ^ 31 \<and> well_formed_utf16 s"

definition u16string_fits :: "u16 list \<Rightarrow> ReaderOptions \<Rightarrow> bool" where
  "u16string_fits s opts \<longleftrightarrow> length s \<le> unat (maxStringLength opts)"

lemma decodes_u16string:
  assumes "length v < 2 ^ 31"
  shows "decodes (\<lambda>opts d. u16string_fits v opts) (Read B u16string_formatter v0) (enc_utf16_string v)
    (utf8_to_utf16 (utf16_to_utf8 v))"
proof -
  let ?F = "\<lambda>opts (d :: nat). u16string_fits v opts"
  have "decodes ?F (ReadString B) (enc_utf16_string v) (Some (utf16_to_utf8 v))"
  proof (cases "v = []")
    case True
    have "decodes ?F (ReadString B) (enc_string []) (Some [])"
      by (intro decodes_ReadString) (simp_all add: string_fits_def)
    with True show ?thesis
      by (simp add: enc_string_def enc_utf16_string_def enc_length_def utf16_to_utf8_def)
  next
    case False
    with assms show ?thesis by (intro decodes_ReadString_utf16) (simp_all add: u16string_fits_def)
  qed
  from decodes_bind [OF this, of _ "[]" "utf8_to_utf16 (utf16_to_utf8 v)"] show ?thesis
    by (simp add: Read_def u16string_formatter_def)
qed

interpretation u16string_codec:
  codec u16string_formatter enc_utf16_string u16string_ok "\<lambda>s opts d. u16string_fits s opts"
proof (rule codec.intro)
  fix B v v0 assume "u16string_ok v"
  then show "decodes (\<lambda>opts d. u16string_fits v opts) (Read B u16string_formatter v0) (enc_utf16_string v) v"
    using decodes_u16string [of v B v0]
    by (simp add: u16string_ok_def utf16_utf8_transcoding utf16_codepoints_well_formed)
next
  fix v :: "u16 list" show "u16string_ok v \<Longrightarrow> MinEncodedSize u16string_formatter \<le> length (enc_utf16_string v)"
    using length_enc_string(2) [of v] by (simp add: MinEncodedSize_def u16string_formatter_def)
next
  fix v0 show "reader_action (\<lambda>B. Read B u16string_formatter v0)"
    unfolding Read_def u16string_formatter_def MemoryPackFormatter.simps by (intro reader_intros)
qed (auto simp: Write_def u16string_formatter_def MinEncodedSize_def u16string_ok_def
      intro: emits_WriteStringUtf16)

lemma unmanaged_codec:
  assumes "0 < sz"
  shows "codec (MEMORYPACK_UNMANAGED sz) (\<lambda>v. v) (\<lambda>v. length v = sz) (\<lambda>_ _ _. True)"
  using assms by (intro codec.intro)
    (auto simp: Write_def Read_def MEMORYPACK_UNMANAGED_def MinEncodedSize_def WriteUnmanaged_def
      intro: emits_AppendBytes decodes_ReadUnmanaged reader_intros)

section \<open>Collections and maps of any element type\<close>

text \<open>The length and every element are within the limits.\<close>

definition all_fit :: "('a \<Rightarrow> ReaderOptions \<Rightarrow> nat \<Rightarrow> bool) \<Rightarrow> 'a list \<Rightarrow> ReaderOptions \<Rightarrow> nat \<Rightarrow> bool" where
  "all_fit fits vs opts d \<longleftrightarrow>
     length vs \<le> unat (maxCollectionLength opts) \<and> (\<forall>v \<in> set vs. fits v opts d)"

context codec
begin

lemma emits_WriteCollection:
  assumes "\<forall>v \<in> set vs. ok v" "length vs < 2 ^ 31"
  shows "emits B (WriteCollection B T vs) (enc_collection enc vs)"
  unfolding WriteCollection_def enc_collection_def using assms
  by (intro emits_length_prefixed emits_for_each writes) simp_all

lemma decodes_element:
  assumes "\<forall>v \<in> set vs. ok v" "v \<in> set vs"
  shows "decodes (all_fit fits vs) (Read_value B T) (enc v) v"
  using assms by (intro decodes_mono [OF reads_value]) (auto simp: all_fit_def)

lemma decodes_ReadCollection:
  assumes "\<forall>v \<in> set vs. ok v" "length vs < 2 ^ 31"
  shows "decodes (all_fit fits vs) (ReadCollection B T) (enc_collection enc vs) vs"
proof -
  have "decodes (all_fit fits vs) (bind (Read_value B T) (\<lambda>v. return (out @ [v]))) (enc v) (out @ [v])"
    if "v \<in> set vs" for v out
    by (rule decodes_map [OF decodes_element [OF assms(1) that]]) simp
  then have "decodes (all_fit fits vs) (read_loop (length vs) (\<lambda>out. bind (Read_value B T) (\<lambda>v. return (out @ [v]))) [])
      (concat (map enc vs)) (foldl (\<lambda>out v. out @ [v]) [] vs)"
    by (intro decodes_read_loop)
  then have "decodes (all_fit fits vs) (read_loop (length vs) (\<lambda>out. bind (Read_value B T) (\<lambda>v. return (out @ [v]))) [])
      (concat (map enc vs)) vs"
    using foldl_snoc [of "\<lambda>x. x" "[]" vs] by simp
  then show ?thesis unfolding ReadCollection_def
    by (intro decodes_counted) (use assms min_size in \<open>auto simp: all_fit_def cong: if_cong\<close>)
qed

lemma safe_ReadCollection: "reader_action (\<lambda>B. ReadCollection B T)"
  unfolding ReadCollection_def by (intro reader_intros safe_value)

end

section \<open>Objects\<close>

text \<open>What a member contributes: its bytes, when they are valid and within the limits, and what
  reading them does to a struct.\<close>

record 's member_spec =
  m_enc :: "'s \<Rightarrow> bytes"
  m_ok :: "'s \<Rightarrow> bool"
  m_fits :: "'s \<Rightarrow> ReaderOptions \<Rightarrow> nat \<Rightarrow> bool"
  m_copy :: "'s \<Rightarrow> 's \<Rightarrow> 's"

locale member_codec =
  fixes M :: "'s member" and S :: "'s member_spec"
  assumes writes: "m_ok S s \<Longrightarrow> emits B (write_member M B s) (m_enc S s)"
    and reads: "m_ok S s \<Longrightarrow> decodes (m_fits S s) (read_member M B d) (m_enc S s) (m_copy S s d)"
    and safe: "reader_action (\<lambda>B. read_member M B d)"

definition field :: "('a \<Rightarrow> bytes) \<Rightarrow> ('a \<Rightarrow> bool) \<Rightarrow> ('a \<Rightarrow> ReaderOptions \<Rightarrow> nat \<Rightarrow> bool) \<Rightarrow>
    ('s \<Rightarrow> 'a) \<Rightarrow> ('a \<Rightarrow> 's \<Rightarrow> 's) \<Rightarrow> 's member_spec" where
  "field enc ok fits get put = \<lparr>m_enc = (\<lambda>s. enc (get s)), m_ok = (\<lambda>s. ok (get s)),
     m_fits = (\<lambda>s. fits (get s)), m_copy = (\<lambda>s d. put (get s) d)\<rparr>"

lemma field_simps [simp]:
  "m_enc (field enc ok fits get put) = (\<lambda>s. enc (get s))"
  "m_ok (field enc ok fits get put) = (\<lambda>s. ok (get s))"
  "m_fits (field enc ok fits get put) = (\<lambda>s. fits (get s))"
  "m_copy (field enc ok fits get put) = (\<lambda>s d. put (get s) d)"
  by (simp_all add: field_def)

context codec
begin

lemma member_field: "member_codec (member T get put) (field enc ok fits get put)"
  by (rule member_codec.intro)
    (auto simp: member_def intro!: writes reader_intros safe decodes_map [OF reads])

end

type_synonym 's layout = "('s member \<times> 's member_spec) list"

definition members_enc :: "'s layout \<Rightarrow> 's \<Rightarrow> bytes" where
  "members_enc ms s = concat (map (\<lambda>(m, S). m_enc S s) ms)"

definition members_ok :: "'s layout \<Rightarrow> 's \<Rightarrow> bool" where
  "members_ok ms s \<longleftrightarrow> (\<forall>(m, S) \<in> set ms. m_ok S s)"

definition members_fit :: "'s layout \<Rightarrow> 's \<Rightarrow> ReaderOptions \<Rightarrow> nat \<Rightarrow> bool" where
  "members_fit ms s opts d \<longleftrightarrow> (\<forall>(m, S) \<in> set ms. m_fits S s opts d)"

definition copy_members :: "'s layout \<Rightarrow> 's \<Rightarrow> 's \<Rightarrow> 's" where
  "copy_members ms s d = foldl (\<lambda>d (m, S). m_copy S s d) d ms"

definition struct_enc :: "'s layout \<Rightarrow> 's \<Rightarrow> bytes" where
  "struct_enc ms s = word_of_nat (length ms) # members_enc ms s"

definition struct_fits :: "'s layout \<Rightarrow> 's \<Rightarrow> ReaderOptions \<Rightarrow> nat \<Rightarrow> bool" where
  "struct_fits ms s opts d \<longleftrightarrow> Suc d \<le> unat (maxDepth opts) \<and> members_fit ms s opts (Suc d)"

lemma members_enc_simps [simp]:
  "members_enc [] s = []" "members_enc ((m, S) # ms) s = m_enc S s @ members_enc ms s"
  by (simp_all add: members_enc_def)

lemma members_ok_simps [simp]:
  "members_ok [] s" "members_ok ((m, S) # ms) s \<longleftrightarrow> m_ok S s \<and> members_ok ms s"
  by (auto simp: members_ok_def)

lemma members_fit_simps [simp]:
  "members_fit [] s opts d"
  "members_fit ((m, S) # ms) s opts d \<longleftrightarrow> m_fits S s opts d \<and> members_fit ms s opts d"
  by (auto simp: members_fit_def)

lemma copy_members_simps [simp]:
  "copy_members [] s d = d" "copy_members ((m, S) # ms) s d = copy_members ms s (m_copy S s d)"
  by (simp_all add: copy_members_def)

lemma members_take:
  "members_ok ms s \<Longrightarrow> members_ok (take k ms) s" "members_fit ms s opts d \<Longrightarrow> members_fit (take k ms) s opts d"
  by (auto simp: members_ok_def members_fit_def dest: in_set_takeD)

lemma emits_members:
  assumes "\<And>m S. (m, S) \<in> set ms \<Longrightarrow> member_codec m S" "members_ok ms s"
  shows "emits B (for_each (\<lambda>m. write_member m B s) (map fst ms)) (members_enc ms s)"
  using assms
proof (induction ms)
  case (Cons p ms)
  obtain m S where p: "p = (m, S)" by (cases p)
  have "emits B (for_each (\<lambda>m. write_member m B s) (map fst ms)) (members_enc ms s)"
    using Cons by (simp add: p)
  moreover have "emits B (write_member m B s) (m_enc S s)"
    using Cons.prems by (intro member_codec.writes) (auto simp: p)
  ultimately show ?case by (simp add: p emits_seq)
qed (simp add: emits_return [unfolded return_def] return_def)

text \<open>Reading an object whose header announces \<open>cnt\<close> members: the first \<open>cnt\<close> known members are
  taken from the input, the others keep their values.\<close>

lemma decodes_read_members:
  assumes "\<And>m S. (m, S) \<in> set ms \<Longrightarrow> member_codec m S" "members_ok ms s"
    "\<And>opts d. F opts d \<Longrightarrow> members_fit (take (cnt - i) ms) s opts d"
  shows "decodes F (read_members B cnt i (map fst ms) d) (members_enc (take (cnt - i) ms) s)
    (copy_members (take (cnt - i) ms) s d)"
  using assms
proof (induction ms arbitrary: i d)
  case (Cons p ms)
  obtain m S where p: "p = (m, S)" by (cases p)
  show ?case
  proof (cases "i < cnt")
    case True
    then have t: "take (cnt - i) (p # ms) = p # take (cnt - Suc i) ms"
      by (simp add: Suc_diff_Suc flip: take_Suc_Cons)
    have fit: "m_fits S s opts e \<and> members_fit (take (cnt - Suc i) ms) s opts e" if "F opts e" for opts e
      using Cons.prems(3) [OF that] unfolding t by (simp add: p)
    have "decodes F (read_member m B d) (m_enc S s) (m_copy S s d)"
      using Cons.prems(1,2) fit by (intro decodes_mono [OF member_codec.reads]) (auto simp: p)
    moreover have "decodes F (read_members B cnt (Suc i) (map fst ms) (m_copy S s d))
        (members_enc (take (cnt - Suc i) ms) s) (copy_members (take (cnt - Suc i) ms) s (m_copy S s d))"
      using Cons.prems(1,2) fit by (intro Cons.IH) (auto simp: p)
    ultimately show ?thesis using True unfolding t
      by (simp add: p decodes_bind)
  next
    case False
    then have "decodes F (read_members B cnt (Suc i) (map fst ms) d) [] d"
      using Cons.IH [of "Suc i" d] Cons.prems by (simp add: p)
    with False show ?thesis by (simp add: p)
  qed
qed simp

lemma safe_read_members:
  assumes "\<And>m S. (m, S) \<in> set ms \<Longrightarrow> member_codec m S"
  shows "reader_action (\<lambda>B. read_members B cnt i (map fst ms) d)"
  using assms
proof (induction ms arbitrary: i d)
  case Nil
  show ?case unfolding list.map read_members.simps by (rule reader_action_return)
next
  case (Cons p ms)
  obtain m S where p: "p = (m, S)" by (cases p)
  show ?case unfolding list.map read_members.simps p fst_conv
    using Cons.prems by (intro reader_intros Cons.IH member_codec.safe [where S = S]) (auto simp: p)
qed

locale struct_codec =
  fixes init :: 's and ms :: "'s layout"
  assumes members: "(m, S) \<in> set ms \<Longrightarrow> member_codec m S"
    and count: "length ms \<le> 249"
    and complete: "copy_members ms s d = s"
begin

lemma safe_struct: "reader_action (\<lambda>B. IMemoryPackable_Deserialize B init (map fst ms) d)"
  unfolding IMemoryPackable_Deserialize_def
  by (intro reader_intros safe_read_members members)

lemma decodes_struct:
  assumes "members_ok ms s" "n \<le> 249"
    and F: "\<And>opts d. F opts d \<Longrightarrow> struct_fits (take n ms) s opts d"
  shows "decodes F (IMemoryPackable_Deserialize B init (map fst ms) d)
    (word_of_nat n # members_enc (take n ms) s) (copy_members (take n ms) s d)"
proof -
  have n: "unat (word_of_nat n :: byte) = n" "(word_of_nat n :: byte) \<le> 249"
    using assms(2) by (simp_all add: unat_of_nat take_bit_nat_eq_self word_le_nat_alt)
  have "decodes (members_fit (take n ms) s) (read_members B n 0 (map fst ms) d)
      (members_enc (take n ms) s) (copy_members (take n ms) s d)"
    using decodes_read_members [of ms s "members_fit (take n ms) s" n 0 B d] members assms(1) by simp
  then have "decodes F (bind (EnterObject B) (\<lambda>ok. if \<not> ok then return d
      else bind (read_members B n 0 (map fst ms) d) (\<lambda>v. seq LeaveObject (return v))))
      (members_enc (take n ms) s @ []) (copy_members (take n ms) s d)"
    by (rule decodes_nested) (use F in \<open>auto simp: struct_fits_def\<close>)
  then show ?thesis unfolding IMemoryPackable_Deserialize_def
    by (intro decodes_bind_eq [OF decodes_ReadObjectHeader [OF n(2)]]) (simp_all add: n cong: if_cong)
qed

lemma emits_struct:
  assumes "members_ok ms s"
  shows "emits B (IMemoryPackable_Serialize B (map fst ms) (Some s)) (struct_enc ms s)"
proof -
  have "(word_of_nat (length ms) :: byte) \<le> 249"
    using count by (simp add: word_le_nat_alt unat_of_nat take_bit_nat_eq_self)
  from emits_seq [OF emits_WriteObjectHeader [OF this] emits_members [OF members assms]]
  show ?thesis by (simp add: IMemoryPackable_Serialize_def struct_enc_def)
qed

end

sublocale struct_codec \<subseteq> codec "MEMORYPACK_DEFINE init (map fst ms)" "struct_enc ms" "members_ok ms" "struct_fits ms"
proof (rule codec.intro)
  fix B v v0 assume "members_ok ms v"
  then show "decodes (struct_fits ms v) (Read B (MEMORYPACK_DEFINE init (map fst ms)) v0) (struct_enc ms v) v"
    using decodes_struct [of v "length ms" "struct_fits ms v" B v0] count
    by (simp add: Read_def MEMORYPACK_DEFINE_def struct_enc_def complete)
next
  fix v show "MinEncodedSize (MEMORYPACK_DEFINE init (map fst ms)) \<le> length (struct_enc ms v)"
    by (simp add: MinEncodedSize_def MEMORYPACK_DEFINE_def struct_enc_def)
qed (auto simp: Write_def Read_def MEMORYPACK_DEFINE_def MinEncodedSize_def
    intro: emits_struct safe_struct)

lemma length_enc_string_le: "length (enc_string s) \<le> length s + 8"
  by (simp add: enc_string_def)

end
