(* ===== verification/VersionTolerant.thy ===== *)
theory VersionTolerant
  imports Formatters
begin

text \<open>
  \<^verbatim>\<open>VersionTolerantWriter\<close> and \<^verbatim>\<open>VersionTolerantReader\<close> (\<^verbatim>\<open>core.hpp\<close>): the object layout in which
  every member is preceded by its length, so that a reader can skip members it does not know.

  The state of each class is a record; the reference to the target writer (or to the input reader)
  is the state of that object, which the operations update. An index outside \<^verbatim>\<open>lengths_\<close> is \<open>UB\<close>.
\<close>

section \<open>Writer\<close>

record vt_writer =
  vw_out :: writer
  vw_body :: writer
  vw_lengths :: "u32 list"
  vw_finished :: bool

definition make_vt_writer :: "writer \<Rightarrow> vt_writer" where
  "make_vt_writer out = \<lparr>vw_out = out, vw_body = writer_default, vw_lengths = [], vw_finished = False\<rparr>"

definition on_body :: "'a wop \<Rightarrow> (vt_writer, 'a) op" where
  "on_body m = (\<lambda>s. case m (vw_body s) of (res, w) \<Rightarrow> (res, s\<lparr>vw_body := w\<rparr>))"

definition on_out :: "'a wop \<Rightarrow> (vt_writer, 'a) op" where
  "on_out m = (\<lambda>s. case m (vw_out s) of (res, w) \<Rightarrow> (res, s\<lparr>vw_out := w\<rparr>))"

definition WriteMember :: "build \<Rightarrow> 'a MemoryPackFormatter \<Rightarrow> 'a \<Rightarrow> (vt_writer, unit) op" where
  "WriteMember B T value =
     bind (gets (\<lambda>s. Size (vw_body s))) (\<lambda>start.
       seq (on_body (Write B T value))
         (modify (\<lambda>s. s\<lparr>vw_lengths :=
            vw_lengths s @ [word_of_nat (size_sub (Size (vw_body s)) start)]\<rparr>)))"

definition vt_Finish :: "build \<Rightarrow> (vt_writer, unit) op" where
  "vt_Finish B = (\<lambda>s.
     if vw_finished s then (Ret (), s)
     else
       (let s = s\<lparr>vw_finished := True\<rparr> in
        if length (vw_lengths s) > unat MAX_MEMBER_COUNT then
          on_out (WriteObjectHeader B NULL_OBJECT) s
        else
          seq (on_out (WriteObjectHeader B (word_of_nat (length (vw_lengths s)))))
            (seq (on_out (for_each (WriteVarIntLength B) (vw_lengths s)))
                 (on_out (WriteBytes B (GetSpan (vw_body s))))) s))"

text \<open>The destructor: the target writer afterwards. Exceptions are swallowed.\<close>

definition vt_destroy :: "build \<Rightarrow> vt_writer \<Rightarrow> unit outcome \<times> writer" where
  "vt_destroy B s = (case vt_Finish B s of
     (UB, s') \<Rightarrow> (UB, vw_out s') | (_, s') \<Rightarrow> (Ret (), vw_out s'))"

section \<open>Reader\<close>

record vt_reader =
  vr_in :: reader
  vr_lengths :: "u32 list"
  vr_count :: byte
  vr_index :: byte
  vr_next :: size_t
  vr_isNull :: bool

definition on_in :: "'a rop \<Rightarrow> (vt_reader, 'a) op" where
  "on_in m = (\<lambda>s. case m (vr_in s) of (res, r) \<Rightarrow> (res, s\<lparr>vr_in := r\<rparr>))"

definition make_vt_reader :: "build \<Rightarrow> reader \<Rightarrow> unit outcome \<times> vt_reader" where
  "make_vt_reader B r =
     bind (on_in (ReadObjectHeader B)) (\<lambda>header.
       if isNull header then modify (\<lambda>s. s\<lparr>vr_isNull := True\<rparr>)
       else seq (modify (\<lambda>s. s\<lparr>vr_count := count header\<rparr>))
         (bind (on_in (read_loop (unat (count header))
                  (\<lambda>ls. bind (ReadVarIntLength B) (\<lambda>n. return (ls @ [n]))) []))
            (\<lambda>ls. modify (\<lambda>s. s\<lparr>vr_lengths := ls, vr_next := r_pos (vr_in s)\<rparr>))))
     \<lparr>vr_in = r, vr_lengths = [], vr_count = 0, vr_index = 0, vr_next = 0, vr_isNull = False\<rparr>"

text \<open>The new contents of the caller's variable and the returned flag.\<close>

definition ReadMember :: "build \<Rightarrow> 'a MemoryPackFormatter \<Rightarrow> 'a \<Rightarrow> (vt_reader, 'a \<times> bool) op" where
  "ReadMember B T out = (\<lambda>s.
     if vr_isNull s \<or> vr_index s \<ge> vr_count s then (Ret (out, False), s)
     else if unat (vr_index s) \<ge> length (vr_lengths s) then (UB, s)
     else
       (let start = vr_next s;
            end_pos = size_add start (unat (vr_lengths s ! unat (vr_index s)))
        in seq (modify (\<lambda>s. s\<lparr>vr_index := vr_index s + 1\<rparr>))
             (seq (on_in (Seek B start))
               (bind (gets (\<lambda>s. Failed (vr_in s))) (\<lambda>failed.
                 if failed then return (out, False)
                 else bind (on_in (Read B T out)) (\<lambda>v.
                   seq (modify (\<lambda>s. s\<lparr>vr_next := end_pos\<rparr>))
                     (seq (on_in (Seek B end_pos)) (return (v, True))))))) s))"

definition SkipMember :: "build \<Rightarrow> (vt_reader, bool) op" where
  "SkipMember B = (\<lambda>s.
     if vr_isNull s \<or> vr_index s \<ge> vr_count s then (Ret False, s)
     else if unat (vr_index s) \<ge> length (vr_lengths s) then (UB, s)
     else
       (let next = size_add (vr_next s) (unat (vr_lengths s ! unat (vr_index s)))
        in seq (modify (\<lambda>s. s\<lparr>vr_next := next, vr_index := vr_index s + 1\<rparr>))
             (seq (on_in (Seek B next)) (return True)) s))"

text \<open>\<open>while (index_ < count_) SkipMember();\<close> each call advances the index by one, so the number of
  iterations is known at the start.\<close>

primrec skip_members :: "build \<Rightarrow> nat \<Rightarrow> (vt_reader, unit) op" where
  "skip_members B 0 = return ()"
| "skip_members B (Suc n) = bind (SkipMember B) (\<lambda>_. skip_members B n)"

definition vr_Finish :: "build \<Rightarrow> (vt_reader, unit) op" where
  "vr_Finish B = bind (gets (\<lambda>s. unat (vr_count s) - unat (vr_index s))) (\<lambda>n.
     seq (skip_members B n)
       (\<lambda>s. if \<not> vr_isNull s then on_in (Seek B (vr_next s)) s else (Ret (), s)))"

section \<open>The written object\<close>

text \<open>The layout: member count, the length of every member, then the members.\<close>

definition vt_enc :: "bytes list \<Rightarrow> bytes" where
  "vt_enc bss = word_of_nat (length bss) # concat (map (\<lambda>bs. enc_varint (word_of_nat (length bs))) bss) @ concat bss"

text \<open>The buffered members of a writer, in order.\<close>

definition vt_buffered :: "bytes list \<Rightarrow> vt_writer \<Rightarrow> bool" where
  "vt_buffered bss s \<longleftrightarrow> writer_inv (vw_body s) \<and> w_error (vw_body s) = ErrorNone \<and>
     w_vec (vw_body s) = None \<and> w_fixedBuf (vw_body s) = None \<and> \<not> vw_finished s \<and>
     GetSpan (vw_body s) = concat bss \<and> vw_lengths s = map (\<lambda>bs. word_of_nat (length bs)) bss"

lemma vt_buffered_start: "vt_buffered [] (make_vt_writer out)"
  by (simp add: vt_buffered_def make_vt_writer_def)

lemma WriteMember_buffers:
  assumes m: "emits B (Write B T v) bs" and s: "vt_buffered bss s"
    and room: "length (concat bss) + length bs \<le> 2 ^ 62"
  shows "\<exists>s'. WriteMember B T v s = (Ret (), s') \<and> vt_buffered (bss @ [bs]) s' \<and> vw_out s' = vw_out s"
proof -
  let ?w = "vw_body s"
  have w: "writer_inv ?w" "w_error ?w = ErrorNone" "w_vec ?w = None" "w_fixedBuf ?w = None"
    "GetSpan ?w = concat bss" using s by (simp_all add: vt_buffered_def)
  have sz: "Size ?w = length (concat bss)" using length_GetSpan [OF w(1)] w(5) by simp
  have "room ?w (length bs)" using room w sz by (simp add: room_def)
  from emitsD(1) [OF m w(1,2) this] obtain w' where w': "Write B T v ?w = (Ret (), w')" "writer_inv w'"
    "same_target ?w w'" "w_error w' = ErrorNone" "GetSpan w' = concat bss @ bs" by (auto simp: w elim: appendedE)
  have sz': "Size w' = length (concat bss) + length bs" using length_GetSpan [OF w'(2)] w'(5) by simp
  then have d: "size_sub (Size w') (length (concat bss)) = length bs" using room by simp
  have "on_body (Write B T v) s = (Ret (), s\<lparr>vw_body := w'\<rparr>)" using w'(1) by (simp add: on_body_def)
  then have "WriteMember B T v s = (Ret (), s\<lparr>vw_body := w',
      vw_lengths := vw_lengths s @ [word_of_nat (length bs)]\<rparr>)"
    by (simp add: WriteMember_def sz d)
  then show ?thesis using w' w s by (auto simp: vt_buffered_def same_target_def)
qed

lemma on_out_emits:
  assumes "emits B m bs" "writer_inv (vw_out s)" "w_error (vw_out s) = ErrorNone" "room (vw_out s) (length bs)"
  shows "\<exists>w. on_out m s = (Ret (), s\<lparr>vw_out := w\<rparr>) \<and> appended (vw_out s) bs (Ret (), w)"
  using emitsD(1) [OF assms] by (auto simp: on_out_def appended_def split: prod.splits)

lemma emits_vt:
  assumes "length bss \<le> 249"
  shows "emits B (seq (WriteObjectHeader B (word_of_nat (length bss)))
    (seq (for_each (WriteVarIntLength B) (map (\<lambda>bs. word_of_nat (length bs)) bss)) (WriteBytes B (concat bss))))
    (vt_enc bss)"
proof -
  have "(word_of_nat (length bss) :: byte) \<le> 249"
    using assms by (simp add: word_le_nat_alt unat_of_nat take_bit_nat_eq_self)
  then have h: "emits B (WriteObjectHeader B (word_of_nat (length bss))) [word_of_nat (length bss)]"
    by (rule emits_WriteObjectHeader)
  have "emits B (for_each (WriteVarIntLength B) (map (\<lambda>bs. word_of_nat (length bs)) bss))
      (concat (map enc_varint (map (\<lambda>bs. word_of_nat (length bs)) bss)))"
    by (intro emits_for_each emits_WriteVarIntLength)
  from emits_seq [OF h emits_seq [OF this emits_AppendBytes [of B "concat bss"]]] show ?thesis
    by (simp add: vt_enc_def WriteBytes_def comp_def)
qed

text \<open>Running on the target writer inside the object is running on the target writer.\<close>

lemma on_out_seq: "on_out (seq m k) s = seq (on_out m) (on_out k) s"
  by (cases "m (vw_out s)" rule: outcome_state_cases) (simp_all add: on_out_def seq_def bind_def)

lemma vt_Finish_writes:
  assumes s: "vt_buffered bss s" and n: "length bss \<le> 249"
    and out: "writer_inv (vw_out s)" "w_error (vw_out s) = ErrorNone" "room (vw_out s) (length (vt_enc bss))"
  shows "\<exists>s'. vt_Finish B s = (Ret (), s') \<and> appended (vw_out s) (vt_enc bss) (Ret (), vw_out s')"
proof -
  let ?t = "s\<lparr>vw_finished := True\<rparr>"
  have len: "vw_lengths s = map (\<lambda>bs. word_of_nat (length bs)) bss" "GetSpan (vw_body s) = concat bss"
    "\<not> vw_finished s" using s by (simp_all add: vt_buffered_def)
  have "vt_Finish B s = on_out (seq (WriteObjectHeader B (word_of_nat (length bss)))
    (seq (for_each (WriteVarIntLength B) (map (\<lambda>bs. word_of_nat (length bs)) bss)) (WriteBytes B (concat bss)))) ?t"
    using n by (simp add: vt_Finish_def len Let_def on_out_seq [abs_def] fun_eq_iff)
  with on_out_emits [OF emits_vt [OF n], of ?t B] out show ?thesis by auto
qed

section \<open>Reading the object\<close>

text \<open>A reader positioned at member \<open>i\<close> of an object with members \<open>bss\<close>, the first of which starts at
  position \<open>P\<close> of the input.\<close>

definition vt_at :: "reader \<Rightarrow> nat \<Rightarrow> bytes list \<Rightarrow> nat \<Rightarrow> vt_reader \<Rightarrow> bool" where
  "vt_at r P bss i s \<longleftrightarrow> reader_inv r \<and> r_error r = ErrorNone \<and>
     (\<exists>p \<le> r_size r. vr_in s = r\<lparr>r_pos := p\<rparr>) \<and>
     vr_lengths s = map (\<lambda>bs. word_of_nat (length bs)) bss \<and> vr_count s = word_of_nat (length bss) \<and>
     vr_index s = word_of_nat i \<and> vr_next s = P + length (concat (take i bss)) \<and> \<not> vr_isNull s \<and>
     i \<le> length bss \<and> length bss \<le> 249 \<and> (\<forall>bs \<in> set bss. length bs < 2 ^ 32) \<and>
     P + length (concat bss) \<le> length (r_data r) \<and> take (length (concat bss)) (drop P (r_data r)) = concat bss"

lemma decodes_vt_lengths:
  fixes bss :: "bytes list"
  assumes "\<forall>bs \<in> set bss. length bs < 2 ^ 32"
  shows "decodes any_limits (read_loop (length bss) (\<lambda>ls. bind (ReadVarIntLength B) (\<lambda>n. return (ls @ [n]))) [])
    (concat (map (\<lambda>bs. enc_varint (word_of_nat (length bs))) bss)) (map (\<lambda>bs. word_of_nat (length bs)) bss)"
proof -
  have "decodes any_limits (bind (ReadVarIntLength B) (\<lambda>n. return (ls @ [n])))
      (enc_varint (word_of_nat (length bs))) (ls @ [word_of_nat (length bs)])" for bs :: bytes and ls
    by (rule decodes_map [OF decodes_ReadVarIntLength]) simp
  then have "decodes any_limits (read_loop (length bss) (\<lambda>ls. bind (ReadVarIntLength B) (\<lambda>n. return (ls @ [n]))) [])
    (concat (map (\<lambda>bs. enc_varint (word_of_nat (length bs))) bss))
    (foldl (\<lambda>ls bs. ls @ [word_of_nat (length bs)]) [] bss)"
    by (intro decodes_read_loop [where upd = "\<lambda>ls bs. ls @ [word_of_nat (length bs)]"
      and enc = "\<lambda>bs. enc_varint (word_of_nat (length bs))" and xs = bss])
  then show ?thesis by (simp add: foldl_snoc)
qed

lemma on_in_Ret: "m (vr_in s) = (Ret x, r) \<Longrightarrow> on_in m s = (Ret x, s\<lparr>vr_in := r\<rparr>)"
  by (simp add: on_in_def)

lemma make_vt_reader_at:
  assumes r: "reader_inv r" "r_error r = ErrorNone" "drop (r_pos r) (r_data r) = vt_enc bss @ rest"
    and n: "length bss \<le> 249" and lens: "\<forall>bs \<in> set bss. length bs < 2 ^ 32"
  shows "\<exists>s P. make_vt_reader B r = (Ret (), s) \<and> vt_at r P bss 0 s \<and>
    P + length (concat bss) = r_pos r + length (vt_enc bss)"
proof -
  let ?n = "word_of_nat (length bss) :: byte"
  let ?ls = "concat (map (\<lambda>bs. enc_varint (word_of_nat (length bs))) bss)"
  let ?r1 = "r\<lparr>r_pos := r_pos r + 1\<rparr>" and ?P = "r_pos r + 1 + length ?ls"
  have n': "?n \<le> 249" "unat ?n = length bss"
    using n by (simp_all add: word_le_nat_alt unat_of_nat take_bit_nat_eq_self)
  have d0: "drop (r_pos r) (r_data r) = [?n] @ (?ls @ concat bss @ rest)" using r(3) by (simp add: vt_enc_def)
  have h: "ReadObjectHeader B r = (Ret \<lparr>count = ?n, isNull = False\<rparr>, ?r1)"
    using decodesD [OF decodes_ReadObjectHeader [OF n'(1), where F = any_limits] r(1,2) d0] by simp
  have d1: "drop (r_pos ?r1) (r_data ?r1) = ?ls @ concat bss @ rest"
    using drop_eq_append_drop [OF d0] by simp
  have len: "r_pos r + length (vt_enc bss) + length rest = length (r_data r)"
    using drop_eq_append_length [OF r(3)] r(1) by (simp add: reader_inv_def)
  then have "reader_inv ?r1" using r(1) by (simp add: reader_inv_def vt_enc_def)
  from decodesD [OF decodes_vt_lengths [OF lens] this _ d1, of B] r(2)
  have l: "read_loop (length bss) (\<lambda>ls. bind (ReadVarIntLength B) (\<lambda>n. return (ls @ [n]))) [] ?r1 =
      (Ret (map (\<lambda>bs. word_of_nat (length bs)) bss), r\<lparr>r_pos := ?P\<rparr>)" by simp
  have d2: "drop ?P (r_data r) = concat bss @ rest"
    using drop_eq_append_drop [OF d1] by simp
  let ?s = "\<lparr>vr_in = r\<lparr>r_pos := ?P\<rparr>, vr_lengths = map (\<lambda>bs. word_of_nat (length bs)) bss, vr_count = ?n,
      vr_index = 0, vr_next = ?P, vr_isNull = False\<rparr>"
  have "make_vt_reader B r = (Ret (), ?s)"
    unfolding make_vt_reader_def using l by (simp add: on_in_Ret h n'(2))
  moreover have "vt_at r ?P bss 0 ?s"
    using r n lens len d2 by (auto simp: vt_at_def vt_enc_def reader_inv_def intro!: exI [of _ ?P])
  moreover have "?P + length (concat bss) = r_pos r + length (vt_enc bss)" by (simp add: vt_enc_def)
  ultimately show ?thesis by blast
qed

lemma concat_take_Suc: "i < length bss \<Longrightarrow> concat (take (Suc i) bss) = concat (take i bss) @ bss ! i"
  by (simp add: take_Suc_conv_app_nth)

lemma vt_at_member:
  assumes s: "vt_at r P bss i s" and i: "i < length bss"
  shows "\<not> vr_index s \<ge> vr_count s" "unat (vr_index s) = i" "i < length (vr_lengths s)"
    "unat (vr_lengths s ! i) = length (bss ! i)" "vr_index s + 1 = word_of_nat (Suc i)"
    "size_add (vr_next s) (length (bss ! i)) = P + length (concat (take (Suc i) bss))"
    "P + length (concat (take (Suc i) bss)) \<le> r_size r"
    "\<exists>rest. drop (vr_next s) (r_data r) = bss ! i @ rest"
proof -
  have w: "unat (word_of_nat (length bss) :: byte) = length bss" "unat (word_of_nat i :: byte) = i"
    using s i by (simp_all add: vt_at_def unat_of_nat take_bit_nat_eq_self)
  show "\<not> vr_index s \<ge> vr_count s" "unat (vr_index s) = i" "i < length (vr_lengths s)"
    using s i w by (simp_all add: vt_at_def word_le_nat_alt)
  show "unat (vr_lengths s ! i) = length (bss ! i)" using s i by (simp add: vt_at_def unat_of_nat_32)
  show "vr_index s + 1 = word_of_nat (Suc i)" using s by (simp add: vt_at_def add.commute)
  have split: "concat bss = concat (take i bss) @ bss ! i @ concat (drop (Suc i) bss)"
    using i by (metis concat_append concat.simps(2) id_take_nth_drop)
  then have le: "P + length (concat (take (Suc i) bss)) \<le> length (r_data r)"
    using s i by (simp add: vt_at_def concat_take_Suc)
  then show "P + length (concat (take (Suc i) bss)) \<le> r_size r" using s by (simp add: vt_at_def reader_inv_def)
  show "size_add (vr_next s) (length (bss ! i)) = P + length (concat (take (Suc i) bss))"
    using s i le by (simp add: vt_at_def concat_take_Suc reader_inv_def)
  obtain rest0 where "drop P (r_data r) = concat bss @ rest0"
    using s append_take_drop_id [of "length (concat bss)" "drop P (r_data r)"] by (metis vt_at_def)
  then have "drop (length (concat (take i bss))) (drop P (r_data r)) = bss ! i @ concat (drop (Suc i) bss) @ rest0"
    by (simp add: split)
  then show "\<exists>rest. drop (vr_next s) (r_data r) = bss ! i @ rest"
    using s by (auto simp: vt_at_def add.commute)
qed

lemma vt_at_next:
  assumes "vt_at r P bss i s" "i < length bss" "p \<le> r_size r"
  shows "vt_at r P bss (Suc i) (s\<lparr>vr_index := word_of_nat (Suc i),
    vr_next := P + length (concat (take (Suc i) bss)), vr_in := r\<lparr>r_pos := p\<rparr>\<rparr>)"
  using assms by (auto simp: vt_at_def)

lemma Seek_ok: "p \<le> r_size r \<Longrightarrow> Seek B p r = (Ret (), r\<lparr>r_pos := p\<rparr>)"
  by (simp add: Seek_def)

lemma SkipMember_at:
  assumes s: "vt_at r P bss i s" and i: "i < length bss"
  shows "\<exists>s'. SkipMember B s = (Ret True, s') \<and> vt_at r P bss (Suc i) s'"
proof -
  note f = vt_at_member [OF s i]
  let ?e = "P + length (concat (take (Suc i) bss))"
  obtain p where "vr_in s = r\<lparr>r_pos := p\<rparr>" "\<not> vr_isNull s" using s by (auto simp: vt_at_def)
  then have "SkipMember B s = (Ret True, s\<lparr>vr_index := word_of_nat (Suc i), vr_next := ?e, vr_in := r\<lparr>r_pos := ?e\<rparr>\<rparr>)"
    using f by (simp add: SkipMember_def Let_def on_in_Ret Seek_ok)
  with vt_at_next [OF s i f(7)] show ?thesis by blast
qed

text \<open>The member is read from its recorded position, whatever its encoding has after the part this
  reader understands.\<close>

lemma ReadMember_at:
  assumes s: "vt_at r P bss i s" and i: "i < length bss"
    and T: "decodes F (Read B T out) bs v" "bss ! i = bs @ extra" "F (r_options r) (unat (r_depth r))"
  shows "\<exists>s'. ReadMember B T out s = (Ret (v, True), s') \<and> vt_at r P bss (Suc i) s'"
proof -
  note f = vt_at_member [OF s i]
  let ?b = "vr_next s" and ?e = "P + length (concat (take (Suc i) bss))"
  obtain p where p: "vr_in s = r\<lparr>r_pos := p\<rparr>" "\<not> vr_isNull s" using s by (auto simp: vt_at_def)
  have b: "?b \<le> r_size r" using f(6,7) s i by (simp add: vt_at_def concat_take_Suc)
  obtain rest where rest: "drop ?b (r_data r) = bs @ extra @ rest" using f(8) T(2) by auto
  have "Read B T out (r\<lparr>r_pos := ?b\<rparr>) = (Ret v, r\<lparr>r_pos := ?b + length bs\<rparr>)"
    using decodesD [OF T(1), of "r\<lparr>r_pos := ?b\<rparr>" "extra @ rest"] rest b s T(3)
    by (simp add: vt_at_def reader_inv_def)
  then have "ReadMember B T out s = (Ret (v, True),
      s\<lparr>vr_index := word_of_nat (Suc i), vr_next := ?e, vr_in := r\<lparr>r_pos := ?e\<rparr>\<rparr>)"
    using f p b s by (simp add: ReadMember_def Let_def on_in_Ret Seek_ok Failed_def vt_at_def)
  with vt_at_next [OF s i f(7)] show ?thesis by blast
qed

lemma skip_members_at:
  "vt_at r P bss i s \<Longrightarrow> i + n = length bss \<Longrightarrow>
     \<exists>s'. skip_members B n s = (Ret (), s') \<and> vt_at r P bss (length bss) s'"
proof (induction n arbitrary: i s)
  case (Suc n)
  then obtain s1 where "SkipMember B s = (Ret True, s1)" "vt_at r P bss (Suc i) s1"
    using SkipMember_at [of r P bss i s B] by auto
  with Suc.IH [of "Suc i" s1] Suc.prems show ?case by simp
qed auto

lemma vr_Finish_at:
  assumes s: "vt_at r P bss i s"
  shows "\<exists>s'. vr_Finish B s = (Ret (), s') \<and> vr_in s' = r\<lparr>r_pos := P + length (concat bss)\<rparr>"
proof -
  have n: "unat (vr_count s) - unat (vr_index s) = length bss - i" and i: "i \<le> length bss"
    using s by (simp_all add: vt_at_def unat_of_nat take_bit_nat_eq_self)
  from skip_members_at [OF s, of "length bss - i" B] i obtain s1
    where s1: "skip_members B (length bss - i) s = (Ret (), s1)" "vt_at r P bss (length bss) s1" by auto
  then obtain p where "vr_in s1 = r\<lparr>r_pos := p\<rparr>" "\<not> vr_isNull s1" "vr_next s1 = P + length (concat bss)"
    "P + length (concat bss) \<le> r_size r" by (auto simp: vt_at_def reader_inv_def)
  then show ?thesis using s1(1) n by (simp add: vr_Finish_def on_in_Ret Seek_ok)
qed

section \<open>Safety of the reader on arbitrary input\<close>

text \<open>Every announced member has a recorded length, so that no index leaves \<^verbatim>\<open>lengths_\<close>.\<close>

definition vt_inv :: "vt_reader \<Rightarrow> bool" where
  "vt_inv s \<longleftrightarrow> reader_inv (vr_in s) \<and> unat (vr_count s) \<le> length (vr_lengths s)"

definition vt_safe :: "'a outcome \<times> vt_reader \<Rightarrow> bool" where
  "vt_safe res \<longleftrightarrow> fst res \<noteq> UB \<and> vt_inv (snd res)"

lemma vt_safe_return [simp]: "vt_inv s \<Longrightarrow> vt_safe (Ret x, s)"
  by (simp add: vt_safe_def)

lemma vt_safe_bind:
  assumes "vt_safe (m s)" "\<And>x t. vt_inv t \<Longrightarrow> vt_safe (f x t)"
  shows "vt_safe (bind m f s)"
  using assms(1) by (cases m s f rule: bind_cases) (auto simp: vt_safe_def assms(2) [unfolded vt_safe_def])

lemma vt_safe_modify: "vt_inv (f s) \<Longrightarrow> vt_safe (modify f s)"
  by (simp add: modify_def)

lemma vt_safe_on_in:
  assumes "reader_action act" "vt_inv s"
  shows "vt_safe (on_in (act B) s)"
  using reader_action.no_UB [OF assms(1), of "vr_in s" B] reader_action.keeps_inv [OF assms(1), of "vr_in s" B] assms(2)
  by (auto simp: vt_safe_def vt_inv_def on_in_def split: prod.splits)

lemma vt_inv_simps [simp]:
  "vt_inv (s\<lparr>vr_index := i\<rparr>) = vt_inv s" "vt_inv (s\<lparr>vr_next := p\<rparr>) = vt_inv s"
  by (simp_all add: vt_inv_def)

lemma vt_inv_index: "vt_inv s \<Longrightarrow> \<not> vr_index s \<ge> vr_count s \<Longrightarrow> \<not> unat (vr_index s) \<ge> length (vr_lengths s)"
  by (simp add: vt_inv_def word_le_nat_alt)

lemma SkipMember_safe: "vt_inv s \<Longrightarrow> vt_safe (SkipMember B s)"
  using vt_inv_index [of s]
  by (auto simp: SkipMember_def Let_def seq_def intro!: vt_safe_bind vt_safe_modify vt_safe_on_in reader_action_Seek)

lemma ReadMember_safe:
  assumes "reader_action (\<lambda>B. Read B T out)"
  shows "vt_inv s \<Longrightarrow> vt_safe (ReadMember B T out s)"
  using vt_inv_index [of s] assms
  by (auto simp: ReadMember_def Let_def seq_def gets_def return_def
      intro!: vt_safe_bind vt_safe_modify vt_safe_on_in [where act = "\<lambda>B. Read B T out"] vt_safe_on_in reader_action_Seek)

lemma skip_members_safe: "vt_inv s \<Longrightarrow> vt_safe (skip_members B n s)"
  by (induction n arbitrary: s) (auto intro!: vt_safe_bind SkipMember_safe)

lemma vr_Finish_safe: "vt_inv s \<Longrightarrow> vt_safe (vr_Finish B s)"
  by (auto simp: vr_Finish_def seq_def gets_def intro!: vt_safe_bind skip_members_safe vt_safe_on_in reader_action_Seek)

text \<open>The constructor records one length per member in a build with exceptions.\<close>

lemma vt_lengths_complete:
  assumes B: "has_exceptions B"
  shows "reader_inv r \<Longrightarrow> r_error r = ErrorNone \<Longrightarrow>
    read_loop n (\<lambda>ls. bind (ReadVarIntLength B) (\<lambda>k. return (ls @ [k]))) ls r = (Ret ls', r') \<Longrightarrow>
    length ls' = length ls + n"
proof (induction n arbitrary: ls r)
  case (Suc n)
  show ?case
  proof (cases "ReadVarIntLength B r" rule: outcome_state_cases)
    case (Ret k s)
    have "reader_inv s" "r_error s = ErrorNone"
      using reader_action.step [OF reader_action_ReadVarIntLength Suc.prems(1), of B] Ret B Suc.prems(2)
      by (simp_all add: reader_step_def)
    then show ?thesis using Suc.IH [of s "ls @ [k]"] Suc.prems Ret by (simp add: Failed_def bind_def)
  qed (use Suc.prems in \<open>simp_all add: Failed_def bind_def\<close>)
qed simp

lemma make_vt_reader_inv:
  assumes B: "has_exceptions B" and r: "reader_inv r" "r_error r = ErrorNone"
    and m: "make_vt_reader B r = (Ret (), s)"
  shows "vt_inv s"
proof -
  note rd = reader_action.step [OF reader_action_ReadObjectHeader r(1), of B]
  obtain h r1 where h: "ReadObjectHeader B r = (Ret h, r1)"
    using m by (cases "ReadObjectHeader B r" rule: outcome_state_cases)
      (auto simp: make_vt_reader_def on_in_def bind_def)
  then have r1: "reader_inv r1" "r_error r1 = ErrorNone" using rd B r(2) by (auto simp: reader_step_def)
  show ?thesis
  proof (cases "isNull h")
    case True
    then show ?thesis using m h r1(1) by (auto simp: make_vt_reader_def on_in_Ret vt_inv_def)
  next
    case False
    let ?loop = "read_loop (unat (count h)) (\<lambda>ls. bind (ReadVarIntLength B) (\<lambda>n. return (ls @ [n]))) []"
    obtain ls r2 where l: "?loop r1 = (Ret ls, r2)"
      using m h False by (cases "?loop r1" rule: outcome_state_cases)
        (auto simp: make_vt_reader_def on_in_def bind_def seq_def)
    have "reader_action (\<lambda>B. read_loop (unat (count h)) (\<lambda>ls. bind (ReadVarIntLength B) (\<lambda>n. return (ls @ [n]))) [])"
      by (intro reader_intros)
    from reader_action.step [OF this r1(1), of B] l have "reader_inv r2" by (simp add: reader_step_def)
    moreover have "length ls = unat (count h)" using vt_lengths_complete [OF B r1 l] by simp
    ultimately show ?thesis using m h l False
      by (auto simp: make_vt_reader_def on_in_Ret vt_inv_def)
  qed
qed

text \<open>Without exceptions a failed length read leaves fewer lengths than members.\<close>

lemma truncated_lengths:
  "make_vt_reader (no_exceptions e) (make_reader [2]) = (Ret (),
     \<lparr>vr_in = (make_reader [2])\<lparr>r_pos := 1, r_error := BufferUnderflow\<rparr>, vr_lengths = [0], vr_count = 2,
      vr_index = 0, vr_next = 1, vr_isNull = False\<rparr>)"
proof -
  let ?B = "no_exceptions e" and ?r = "make_reader [2]"
  have h: "ReadObjectHeader ?B ?r = (Ret \<lparr>count = 2, isNull = False\<rparr>, ?r\<lparr>r_pos := 1\<rparr>)"
    by (simp add: bind_def seq_def return_def ReadObjectHeader_def ReadByte_def EnsureBytes_def Remaining_def
        take_bytes_def make_reader_def make_reader_with_def size_sub_def)
  have v: "ReadVarIntLength ?B (?r\<lparr>r_pos := 1\<rparr>) = (Ret 0, ?r\<lparr>r_pos := 1, r_error := BufferUnderflow\<rparr>)"
    by (simp add: bind_def seq_def return_def ReadVarIntLength_def ReadByte_def EnsureBytes_def Remaining_def
        Fail_def make_reader_def make_reader_with_def size_sub_def)
  have "read_loop 2 (\<lambda>ls. bind (ReadVarIntLength ?B) (\<lambda>n. return (ls @ [n]))) [] (?r\<lparr>r_pos := 1\<rparr>) =
      (Ret [0], ?r\<lparr>r_pos := 1, r_error := BufferUnderflow\<rparr>)"
    using v by (simp add: numeral_2_eq_2 bind_def gets_def Failed_def make_reader_def)
  with h show ?thesis by (simp add: make_vt_reader_def on_in_Ret)
qed

end
