(* ===== verification/Bounds.thy ===== *)
theory Bounds
  imports Formatters
begin

text \<open>
  How large a decoded value can be. \<open>yields Q act\<close> says that whatever \<open>act\<close> returns satisfies \<open>Q\<close>,
  which may mention the size of the input. The lemmas bound decoded strings and vectors by the
  size of the input, whatever lengths the input declares.
\<close>

definition yields :: "(nat \<Rightarrow> 'a \<Rightarrow> bool) \<Rightarrow> (build \<Rightarrow> 'a rop) \<Rightarrow> bool" where
  "yields Q act \<longleftrightarrow> (\<forall>B r x s. reader_inv r \<longrightarrow> act B r = (Ret x, s) \<longrightarrow> Q (r_size r) x)"

definition keeps :: "(build \<Rightarrow> 'a rop) \<Rightarrow> bool" where
  "keeps act \<longleftrightarrow> (\<forall>B r x s. reader_inv r \<longrightarrow> act B r = (Ret x, s) \<longrightarrow> reader_inv s \<and> r_size s = r_size r)"

named_theorems yields_intros "what a reader action returns"

lemma yieldsD: "yields Q act \<Longrightarrow> reader_inv r \<Longrightarrow> act B r = (Ret x, s) \<Longrightarrow> Q (r_size r) x"
  by (auto simp: yields_def)

lemma keeps_action [yields_intros]: "reader_action act \<Longrightarrow> keeps act"
proof -
  assume "reader_action act"
  from reader_action.step [OF this] have "reader_inv r \<Longrightarrow> act B r = (Ret x, s) \<Longrightarrow> reader_step B r (Ret x, s)" for B r x s
    by metis
  then show ?thesis by (auto simp: keeps_def reader_step_def same_input_def)
qed

lemma keeps_take_bytes [yields_intros]: "keeps (\<lambda>B. take_bytes n)"
  by (auto simp: keeps_def take_bytes_def reader_inv_def split: if_splits)

lemma yields_True [simp]: "yields (\<lambda>_ _. True) act"
  by (simp add: yields_def)

lemma yields_mono: "yields Q act \<Longrightarrow> (\<And>n x. Q n x \<Longrightarrow> R n x) \<Longrightarrow> yields R act"
  by (auto simp: yields_def)

lemma yields_return: "(\<And>n. Q n x) \<Longrightarrow> yields Q (\<lambda>B. return x)"
  by (simp add: yields_def)

lemma yields_Pair [simp]: "\<forall>n. Q n x \<Longrightarrow> yields Q (\<lambda>B. Pair (Ret x))"
  by (simp add: yields_def)

lemma yields_bind_post:
  assumes "keeps m" "yields R m" "\<And>x. yields (\<lambda>n y. R n x \<longrightarrow> Q n y) (\<lambda>B. f B x)"
  shows "yields Q (\<lambda>B. bind (m B) (f B))"
  unfolding yields_def
proof (intro allI impI)
  fix B r y s assume r: "reader_inv r" and b: "bind (m B) (f B) r = (Ret y, s)"
  from b obtain x t where x: "m B r = (Ret x, t)" "f B x t = (Ret y, s)"
    by (cases "m B" r "f B" rule: bind_cases) simp_all
  with assms(1) r have "reader_inv t" "r_size t = r_size r" by (auto simp: keeps_def)
  with yieldsD [OF assms(3) _ x(2)] yieldsD [OF assms(2) r x(1)] show "Q (r_size r) y" by simp
qed

lemma yields_bind: "keeps m \<Longrightarrow> (\<And>x. yields Q (\<lambda>B. f B x)) \<Longrightarrow> yields Q (\<lambda>B. bind (m B) (f B))"
  by (rule yields_bind_post [where R = "\<lambda>_ _. True"]) simp_all

lemma yields_seq: "keeps m \<Longrightarrow> yields Q k \<Longrightarrow> yields Q (\<lambda>B. seq (m B) (k B))"
  unfolding seq_def by (rule yields_bind)

lemma yields_if: "(c \<Longrightarrow> yields Q f) \<Longrightarrow> (\<not> c \<Longrightarrow> yields Q g) \<Longrightarrow> yields Q (\<lambda>B. if c then f B else g B)"
  by (cases c) simp_all

lemma keeps_modify: "(\<And>r. reader_inv r \<Longrightarrow> reader_inv (f r) \<and> r_size (f r) = r_size r) \<Longrightarrow> keeps (\<lambda>B. modify f)"
  by (auto simp: keeps_def)

lemma yields_take_bytes: "yields (\<lambda>sz bs. length bs \<le> sz) (\<lambda>B. take_bytes n)"
  by (auto simp: yields_def take_bytes_def reader_inv_def split: if_splits)

lemma Remaining_bound:
  assumes "reader_inv r" "0 < k" "n \<le> Remaining r div k"
  shows "n * k \<le> r_size r"
proof -
  have "Remaining r \<le> r_size r" using assms(1) by (simp add: Remaining_def reader_inv_def)
  moreover have "n * k \<le> Remaining r" using assms(2,3) by (simp add: less_eq_div_iff_mult_less_eq)
  ultimately show ?thesis by simp
qed

lemma yields_CheckStringLength:
  assumes "0 < unitSize"
  shows "yields (\<lambda>sz ok. ok \<longrightarrow> unat len * unitSize \<le> sz) (\<lambda>B. CheckStringLength B len unitSize)"
  using assms Remaining_bound [OF _ assms, of _ "unat len"]
  by (auto simp: yields_def CheckStringLength_def Fail_def seq_def bind_def Let_def not_less split: if_splits)

lemma length_append_utf8: "length (append_utf8_codepoint out cp) \<le> length out + 4"
  by (simp add: append_utf8_codepoint_def)

text \<open>The decoding loop appends at most four bytes for a code unit, in any state of the reader.\<close>

definition returns :: "('a \<Rightarrow> bool) \<Rightarrow> 'a rop \<Rightarrow> bool" where
  "returns Q m \<longleftrightarrow> (\<forall>r x s. m r = (Ret x, s) \<longrightarrow> Q x)"

lemma returns_bind: "(\<And>x. returns Q (f x)) \<Longrightarrow> returns Q (bind m f)"
  by (auto simp: returns_def bind_def split: prod.splits outcome.splits)

lemma returns_utf16_loop: "returns (\<lambda>bs. length bs \<le> length out + 4 * n) (utf16_loop B n out)"
proof (induction n arbitrary: out rule: less_induct)
  case (less n)
  have step: "returns (\<lambda>bs. length bs \<le> length out + 4 * n) (utf16_loop B k (append_utf8_codepoint out cp))"
    if "k < n" for k cp
    using less.IH [OF that, of "append_utf8_codepoint out cp"] length_append_utf8 [of out cp] that
    by (fastforce simp: returns_def)
  show ?case
  proof (cases n)
    case 0
    then show ?thesis by (simp add: returns_def)
  next
    case (Suc k)
    then have s: "returns (\<lambda>bs. length bs \<le> length out + 4 * n) (utf16_loop B k (append_utf8_codepoint out cp))"
      "returns (\<lambda>bs. length bs \<le> length out + 4 * n) (utf16_loop B (k - 1) (append_utf8_codepoint out cp))" for cp
      using step by simp_all
    show ?thesis unfolding seq_def utf16_loop.simps Suc
      by (intro returns_bind) (simp only: s [unfolded Suc] split: if_split, intro conjI impI returns_bind s [unfolded Suc];
          simp only: if_split; intro conjI impI returns_bind s [unfolded Suc])
  qed
qed

lemma yields_returns: "(\<And>B. returns Q (act B)) \<Longrightarrow> yields (\<lambda>_. Q) act"
  by (auto simp: yields_def returns_def)

lemma yields_ReadUtf16String: "yields (\<lambda>sz bs. length bs \<le> 2 * sz) (\<lambda>B. ReadUtf16String B units)"
  unfolding ReadUtf16String_def
proof (rule yields_bind_post [OF _ yields_CheckStringLength])
  fix ok
  have "yields (\<lambda>sz bs. length bs \<le> 4 * unat units) (\<lambda>B. utf16_loop B (unat units) [])"
    using returns_utf16_loop [of "[]"] by (intro yields_returns) simp
  then have "yields (\<lambda>sz bs. (ok \<longrightarrow> unat units * 2 \<le> sz) \<longrightarrow> length bs \<le> 2 * sz) (\<lambda>B. utf16_loop B (unat units) [])" if ok
    using that by (elim yields_mono) linarith
  then show "yields (\<lambda>sz bs. (ok \<longrightarrow> unat units * 2 \<le> sz) \<longrightarrow> length bs \<le> 2 * sz)
     (\<lambda>B. if \<not> ok then return [] else bind (EnsureBytes B (size_mul (unat units) 2))
        (\<lambda>ok. if \<not> ok then return [] else utf16_loop B (unat units) []))"
    by (intro yields_if yields_bind yields_return yields_intros reader_intros) simp_all
qed (intro yields_intros reader_intros, simp)

text \<open>A decoded string is at most twice as long as the whole input, whatever length its header declares.\<close>

lemma yields_ReadString: "yields (\<lambda>sz s. case s of None \<Rightarrow> True | Some bs \<Rightarrow> length bs \<le> 2 * sz) ReadString"
proof -
  have a: "yields (\<lambda>sz s. case s of None \<Rightarrow> True | Some bs \<Rightarrow> length bs \<le> 2 * sz)
      (\<lambda>B. bind (ReadUtf16String B h) (\<lambda>s. return (Some s)))" for h
    by (rule yields_bind_post [OF _ yields_ReadUtf16String])
      (auto intro: yields_intros reader_intros yields_return)
  have b: "yields (\<lambda>sz s. case s of None \<Rightarrow> True | Some bs \<Rightarrow> length bs \<le> 2 * sz)
      (\<lambda>B. bind (take_bytes n) (\<lambda>s. return (Some s)))" for n
    by (rule yields_bind_post [OF _ yields_take_bytes])
      (auto intro!: yields_intros yields_return)
  show ?thesis unfolding ReadString_def [abs_def]
    by (intro yields_bind yields_if a b yields_return yields_intros reader_intros) simp_all
qed

text \<open>Neither can it exceed the configured limit: in the UTF-8 form the limit counts bytes, in the UTF-16 form code units of at
  most four bytes.\<close>

lemma CheckStringLength_limit: "CheckStringLength B n unitSize r = (Ret True, r') \<Longrightarrow> n \<le> maxStringLength (r_options r)"
  by (auto simp: CheckStringLength_def Fail_def seq_def bind_def Let_def not_less split: if_splits)

lemma ReadUtf16String_limit:
  assumes "ReadUtf16String B units r = (Ret s, r')"
  shows "length s \<le> 4 * unat (maxStringLength (r_options r))"
proof -
  have loop: "utf16_loop B (unat units) [] t = (Ret s, r') \<Longrightarrow> length s \<le> 4 * unat units" for t
    using returns_utf16_loop [of "[]" "unat units" B] by (auto simp: returns_def)
  obtain ok t where c: "CheckStringLength B units 2 r = (Ret ok, t)"
    using assms by (cases "CheckStringLength B units 2 r" rule: outcome_state_cases) (simp_all add: ReadUtf16String_def bind_def)
  show ?thesis
  proof (cases ok)
    case True
    with assms c loop have "s = [] \<or> length s \<le> 4 * unat units"
      by (auto simp: ReadUtf16String_def bind_def return_def split: prod.splits outcome.splits if_splits)
    moreover have "unat units \<le> unat (maxStringLength (r_options r))"
      using CheckStringLength_limit c True by (simp add: word_le_nat_alt)
    ultimately show ?thesis by auto
  qed (use assms c in \<open>simp add: ReadUtf16String_def return_def\<close>)
qed

lemma read_keeps_options:
  assumes "reader_action act" "reader_inv r" "act B r = (Ret x, s)"
  shows "reader_inv s \<and> r_options s = r_options r"
  using reader_action.step [OF assms(1,2), of B] assms(3) by (simp add: reader_step_def same_input_def)

lemma ReadString_limit:
  assumes "reader_inv r" "ReadString B r = (Ret (Some s), r')"
  shows "length s \<le> 4 * unat (maxStringLength (r_options r))"
proof -
  obtain header :: u32 and r1 where h: "ReadRaw B r = (Ret header, r1)"
    using assms(2) by (cases "ReadRaw B r :: u32 outcome \<times> reader" rule: outcome_state_cases) (simp_all add: ReadString_def bind_def)
  have r1: "reader_inv r1" "r_options r1 = r_options r" using read_keeps_options [where act = ReadRaw, OF _ assms(1) h] by (simp_all add: reader_intros)
  consider "Failed r1 \<or> header = 0" | "header = -1" | "sint header > 0" "\<not> Failed r1"
    | (utf8) "\<not> Failed r1" "header \<noteq> 0" "header \<noteq> -1" "\<not> sint header > 0" by blast
  then show ?thesis
  proof cases
    case 3
    then have "header \<noteq> -1" "header \<noteq> 0" by auto
    with 3 assms(2) h obtain t where "ReadUtf16String B header r1 = (Ret s, t)"
      by (cases "ReadUtf16String B header r1" rule: outcome_state_cases) (simp_all add: ReadString_def bind_def return_def)
    from ReadUtf16String_limit [OF this] r1 show ?thesis by simp
  next
    case utf8
    let ?n = "NOT header"
    obtain units :: u32 and r2 where u: "ReadRaw B r1 = (Ret units, r2)"
      using assms(2) h utf8 by (cases "ReadRaw B r1 :: u32 outcome \<times> reader" rule: outcome_state_cases) (simp_all add: ReadString_def bind_def)
    have r2: "r_options r2 = r_options r" using read_keeps_options [where act = ReadRaw, OF _ r1(1) u] r1 by (simp add: reader_intros)
    from assms(2) h u utf8 have "s = [] \<or> (CheckStringLength B ?n 1 r2 = (Ret True, snd (CheckStringLength B ?n 1 r2)) \<and> length s \<le> unat ?n)"
      by (auto simp: ReadString_def bind_def return_def take_bytes_def split: prod.splits outcome.splits if_splits)
    moreover have "unat ?n \<le> unat (maxStringLength (r_options r2))" if "CheckStringLength B ?n 1 r2 = (Ret True, t)" for t
      using CheckStringLength_limit [OF that] by (simp add: word_le_nat_alt)
    ultimately show ?thesis using r2 by fastforce
  qed (use assms(2) h in \<open>auto simp: ReadString_def bind_def return_def split: if_splits\<close>)
qed

lemma yields_string: "yields (\<lambda>sz bs. length bs \<le> 2 * sz) (\<lambda>B. Read B string_formatter v)"
  unfolding Read_def string_formatter_def ReadString_into_def MemoryPackFormatter.simps bind_assoc
  by (rule yields_bind_post [OF _ yields_ReadString])
    (auto intro!: yields_intros reader_intros yields_return split: option.split)

lemma yields_ReadCollectionLength:
  assumes "0 < k"
  shows "yields (\<lambda>sz n. 0 < sint n \<longrightarrow> unat n * k \<le> sz) (\<lambda>B. ReadCollectionLength B k)"
proof -
  have "yields (\<lambda>sz n. 0 < sint n \<longrightarrow> unat n * k \<le> sz)
      (\<lambda>B. if sint len < 0 then
       if len \<noteq> NULL_COLLECTION then
         seq (Fail B LengthLimit ''negative collection length'') (return (-1))
       else return (-1)
     else bind (gets (\<lambda>r. (r_options r, Remaining r))) (\<lambda>(options, remaining).
       if len > maxCollectionLength options then
         seq (Fail B LengthLimit ''collection length above the configured limit'') (return (-1))
       else if k > 0 \<and> unat len > remaining div k then
         seq (Fail B LengthLimit ''collection length exceeds the remaining input'') (return (-1))
       else return len))" for len
    using Remaining_bound [OF _ assms, of _ "unat len"] by (auto simp: yields_def Fail_def seq_def bind_def Let_def not_less assms split: if_splits)
  then show ?thesis unfolding ReadCollectionLength_def
    by (intro yields_bind yields_intros reader_intros)
qed

section \<open>Structs\<close>

text \<open>A bound on the struct that reading any one member keeps holds of the struct that is read.\<close>

lemma yields_read_members:
  assumes "\<And>m v. m \<in> set ms \<Longrightarrow> reader_action (\<lambda>B. read_member m B v)"
    and "\<And>m v. m \<in> set ms \<Longrightarrow> yields (\<lambda>n v'. I n v \<longrightarrow> I n v') (\<lambda>B. read_member m B v)"
  shows "yields (\<lambda>n v'. I n v \<longrightarrow> I n v') (\<lambda>B. read_members B cnt i ms v)"
  using assms
proof (induction ms arbitrary: i v)
  case Nil
  then show ?case by simp
next
  case (Cons m ms)
  have "yields (\<lambda>n y. (I n v \<longrightarrow> I n x) \<longrightarrow> I n v \<longrightarrow> I n y) (\<lambda>B. read_members B cnt (Suc i) ms x)" for x
    by (rule yields_mono [OF Cons.IH [of x "Suc i"]]) (auto intro: Cons.prems)
  moreover have "yields (\<lambda>n v'. I n v \<longrightarrow> I n v') (\<lambda>B. if cnt > i then read_member m B v else return v)"
    using Cons.prems(2) [of m v] by (intro yields_if) (simp_all add: yields_return)
  moreover have "keeps (\<lambda>B. if cnt > i then read_member m B v else return v)"
    using Cons.prems(1) [of m v] by (intro yields_intros reader_intros) simp
  ultimately show ?case unfolding read_members.simps by (intro yields_bind_post)
qed

lemma yields_struct:
  assumes "\<And>m v. m \<in> set ms \<Longrightarrow> reader_action (\<lambda>B. read_member m B v)"
    and "\<And>m v. m \<in> set ms \<Longrightarrow> yields (\<lambda>n v'. I n v \<longrightarrow> I n v') (\<lambda>B. read_member m B v)"
    and "\<And>n. I n init" "\<And>n. I n v"
  shows "yields I (\<lambda>B. Read B (MEMORYPACK_DEFINE init ms) v)"
proof -
  have r: "keeps (\<lambda>B. read_members B cnt i ms v)" for cnt i
    by (intro yields_intros) (use assms(1) in \<open>induction ms arbitrary: i v; simp only: read_members.simps; intro reader_intros; simp\<close>)
  have b: "yields I (\<lambda>B. bind (read_members B cnt 0 ms v) (\<lambda>v'. seq LeaveObject (return v')))" for cnt
    by (rule yields_bind_post [OF r yields_read_members [OF assms(1,2)]])
      (use assms(4) in \<open>auto intro!: yields_seq yields_intros reader_intros yields_return\<close>)
  show ?thesis unfolding Read_def MEMORYPACK_DEFINE_def IMemoryPackable_Deserialize_def MemoryPackFormatter.simps
    by (intro b yields_bind yields_if yields_return yields_intros reader_intros assms(3,4))
qed

text \<open>Reading one member from a formatter, and a member whose value the bound does not mention.\<close>

lemma yields_member:
  assumes "\<And>x. reader_action (\<lambda>B. Read B T x)" "\<And>x. yields R (\<lambda>B. Read B T x)"
    and "\<And>n x. R n x \<Longrightarrow> I n v \<Longrightarrow> I n (put x v)"
  shows "yields (\<lambda>n v'. I n v \<longrightarrow> I n v') (\<lambda>B. read_member (member T get put) B v)"
  unfolding member_def member.simps
  by (rule yields_bind_post [OF _ assms(2)]) (use assms(1,3) in \<open>auto intro!: yields_intros yields_return\<close>)

lemma reader_action_member:
  "(\<And>x. reader_action (\<lambda>B. Read B T x)) \<Longrightarrow> reader_action (\<lambda>B. read_member (member T get put) B v)"
  unfolding member_def member.simps by (intro reader_intros)

end
