(* ===== verification/Packet.thy ===== *)
theory Packet
  imports Formatters
begin

text \<open>
  The framing helpers of \<^verbatim>\<open>packet.hpp\<close>: \<^verbatim>\<open>DefaultPacketHeaderPolicy\<close>, \<^verbatim>\<open>WritePacket\<close>, \<^verbatim>\<open>MakePacket\<close>,
  \<^verbatim>\<open>PeekPacketHeader\<close> and the stream parser \<^verbatim>\<open>BasicPacketFrameParser\<close>.

  A header policy is a record of its constant and its two functions; \<open>frame_policy\<close> states what the
  framing relies on and is interpreted on the default policy of every build. The abstract parser
  \<open>frames\<close> cuts one byte string into packets; \<open>Feed\<close> implements it for every way of splitting the
  stream into received chunks.
\<close>

section \<open>Headers\<close>

text \<open>The bytes that \<^verbatim>\<open>Policy::Write\<close> stores at its destination, and what \<^verbatim>\<open>Policy::Read\<close> extracts from the
  \<^verbatim>\<open>HeaderSize\<close> bytes at its source. A length is the \<^verbatim>\<open>int32_t\<close> bit pattern.\<close>

record PacketHeaderPolicy =
  HeaderSize :: size_t
  policy_Write :: "u16 \<Rightarrow> u32 \<Rightarrow> bytes"
  policy_Read :: "bytes \<Rightarrow> u16 \<times> u32"

definition DefaultPacketHeaderPolicy_Write :: "build \<Rightarrow> u16 \<Rightarrow> u32 \<Rightarrow> bytes" where
  "DefaultPacketHeaderPolicy_Write B pid bodyLength =
     (let leId = endian_convert (native B) pid;
          leLen = endian_convert (native B) bodyLength
      in mem_bytes (native B) leId @ mem_bytes (native B) leLen)"

definition DefaultPacketHeaderPolicy_Read :: "build \<Rightarrow> bytes \<Rightarrow> u16 \<times> u32" where
  "DefaultPacketHeaderPolicy_Read B src =
     (let rawId = of_mem (native B) (take 2 src);
          rawLen = of_mem (native B) (take 4 (drop 2 src))
      in (endian_convert (native B) rawId, endian_convert (native B) rawLen))"

definition DefaultPacketHeaderPolicy :: "build \<Rightarrow> PacketHeaderPolicy" where
  "DefaultPacketHeaderPolicy B = \<lparr>HeaderSize = 6, policy_Write = DefaultPacketHeaderPolicy_Write B,
     policy_Read = DefaultPacketHeaderPolicy_Read B\<rparr>"

record PacketHeader =
  ph_id :: u16
  ph_bodyLength :: u32

section \<open>Writing packets\<close>

text \<open>The outcome and the contents of the caller's vector afterwards. The vector keeps what was
  appended before an exception.\<close>

definition WritePacket ::
    "build \<Rightarrow> PacketHeaderPolicy \<Rightarrow> 'a MemoryPackFormatter \<Rightarrow> bytes \<Rightarrow> u16 \<Rightarrow> 'a \<Rightarrow> unit outcome \<times> bytes" where
  "WritePacket B P T out pid body =
     (let headerAt = length out;
          out = resize out (size_add headerAt (HeaderSize P))
      in case Write B T body (writer_vector out) of
           (Ret _, w) \<Rightarrow>
             (let out = Data w;
                  bodyLength = size_sub (size_sub (length out) headerAt) (HeaderSize P)
              in case store out headerAt (policy_Write P pid (word_of_nat bodyLength)) of
                   Some out \<Rightarrow> (Ret (), out)
                 | None \<Rightarrow> (UB, out))
         | (Throw e, w) \<Rightarrow> (Throw e, Data w)
         | (UB, w) \<Rightarrow> (UB, Data w))"

definition MakePacket ::
    "build \<Rightarrow> PacketHeaderPolicy \<Rightarrow> 'a MemoryPackFormatter \<Rightarrow> u16 \<Rightarrow> 'a \<Rightarrow> bytes outcome" where
  "MakePacket B P T pid body = (case WritePacket B P T [] pid body of
     (Ret _, out) \<Rightarrow> Ret out | (Throw e, _) \<Rightarrow> Throw e | (UB, _) \<Rightarrow> UB)"

definition PeekPacketHeader :: "PacketHeaderPolicy \<Rightarrow> bytes \<Rightarrow> PacketHeader option" where
  "PeekPacketHeader P data =
     (if length data < HeaderSize P then None
      else let (pid, bodyLength) = policy_Read P (take (HeaderSize P) data)
           in Some \<lparr>ph_id = pid, ph_bodyLength = bodyLength\<rparr>)"

section \<open>The frame parser\<close>

record frame_parser =
  fp_buffer :: bytes
  fp_consumed :: size_t
  fp_maxBodyLength :: size_t

definition make_parser :: "size_t \<Rightarrow> frame_parser" where
  "make_parser limit = \<lparr>fp_buffer = [], fp_consumed = 0, fp_maxBodyLength = limit\<rparr>"

definition default_maxBodyLength :: size_t where
  "default_maxBodyLength = 8 * 1024 * 1024"

definition SetMaxBodyLength :: "size_t \<Rightarrow> frame_parser \<Rightarrow> frame_parser" where
  "SetMaxBodyLength value p = p\<lparr>fp_maxBodyLength := value\<rparr>"

definition Buffered :: "frame_parser \<Rightarrow> size_t" where
  "Buffered p = size_sub (length (fp_buffer p)) (fp_consumed p)"

definition Reset_parser :: "frame_parser \<Rightarrow> frame_parser" where
  "Reset_parser p = p\<lparr>fp_buffer := [], fp_consumed := 0\<rparr>"

definition Compact :: "frame_parser \<Rightarrow> frame_parser" where
  "Compact p =
     (if fp_consumed p = 0 then p
      else if fp_consumed p = length (fp_buffer p) then p\<lparr>fp_buffer := [], fp_consumed := 0\<rparr>
      else if fp_consumed p > 4096 \<or> size_mul (fp_consumed p) 2 \<ge> length (fp_buffer p)
           then p\<lparr>fp_buffer := drop (fp_consumed p) (fp_buffer p), fp_consumed := 0\<rparr>
      else p)"

text \<open>The callback runs on a state of its own and may throw. The loop returns the flag of \<^verbatim>\<open>Feed\<close>;
  \<open>None\<close> is the loop that never ends (a policy with an empty header could repeat an empty frame).\<close>

type_synonym 's callback = "u16 \<Rightarrow> bytes \<Rightarrow> ('s, unit) op"

partial_function (option) feed_loop ::
    "PacketHeaderPolicy \<Rightarrow> 's callback \<Rightarrow> 's \<Rightarrow> frame_parser \<Rightarrow> (bool outcome \<times> 's \<times> frame_parser) option" where
  "feed_loop P onPacket st p =
     (let available = size_sub (length (fp_buffer p)) (fp_consumed p)
      in if available < HeaderSize P then Some (Ret True, st, Compact p)
         else
           (let (pid, bodyLength) = policy_Read P (take (HeaderSize P) (drop (fp_consumed p) (fp_buffer p)))
            in if sint bodyLength < 0 \<or> unat bodyLength > fp_maxBodyLength p
               then Some (Ret False, st, Reset_parser p)
               else
                 (let frameSize = size_add (HeaderSize P) (unat bodyLength)
                  in if available < frameSize then Some (Ret True, st, Compact p)
                     else
                       (let body = take (unat bodyLength) (drop (fp_consumed p + HeaderSize P) (fp_buffer p))
                        in case onPacket pid body st of
                             (Ret _, st') \<Rightarrow>
                               feed_loop P onPacket st' (p\<lparr>fp_consumed := size_add (fp_consumed p) frameSize\<rparr>)
                           | (Throw e, st') \<Rightarrow> Some (Throw e, st', p)
                           | (UB, st') \<Rightarrow> Some (UB, st', p)))))"

definition Feed ::
    "PacketHeaderPolicy \<Rightarrow> bytes \<Rightarrow> 's callback \<Rightarrow> 's \<Rightarrow> frame_parser \<Rightarrow> (bool outcome \<times> 's \<times> frame_parser) option" where
  "Feed P bytes onPacket st p = feed_loop P onPacket st (p\<lparr>fp_buffer := fp_buffer p @ bytes\<rparr>)"

section \<open>The abstract parser\<close>

text \<open>The packets at the front of a byte string and what is left of it, \<open>None\<close> when a header announces
  a length outside the limit.\<close>

definition header_at :: "PacketHeaderPolicy \<Rightarrow> bytes \<Rightarrow> u16 \<times> u32" where
  "header_at P bs = policy_Read P (take (HeaderSize P) bs)"

definition bad_length :: "nat \<Rightarrow> u32 \<Rightarrow> bool" where
  "bad_length limit n \<longleftrightarrow> sint n < 0 \<or> unat n > limit"

function frames :: "PacketHeaderPolicy \<Rightarrow> nat \<Rightarrow> bytes \<Rightarrow> (u16 \<times> bytes) list \<times> bytes option" where
  "frames P limit bs =
     (if HeaderSize P = 0 \<or> length bs < HeaderSize P then ([], Some bs)
      else if bad_length limit (snd (header_at P bs)) then ([], None)
      else if length bs < HeaderSize P + unat (snd (header_at P bs)) then ([], Some bs)
      else
        (let n = unat (snd (header_at P bs));
             (ps, rest) = frames P limit (drop (HeaderSize P + n) bs)
         in ((fst (header_at P bs), take n (drop (HeaderSize P) bs)) # ps, rest)))"
  by pat_completeness auto
termination
  by (relation "measure (\<lambda>(P, limit, bs). length bs)") auto

declare frames.simps [simp del]

text \<open>The callback of a receiver that records the packets in order.\<close>

definition collect :: "(u16 \<times> bytes) list callback" where
  "collect pid body = modify (\<lambda>ps. ps @ [(pid, body)])"

text \<open>A receiver feeds the chunks of a stream until the parser reports a violation.\<close>

primrec feed_all ::
    "PacketHeaderPolicy \<Rightarrow> 's callback \<Rightarrow> bytes list \<Rightarrow> 's \<Rightarrow> frame_parser \<Rightarrow> (bool outcome \<times> 's \<times> frame_parser) option" where
  "feed_all P onPacket [] st p = Some (Ret True, st, p)"
| "feed_all P onPacket (c # cs) st p = (case Feed P c onPacket st p of
     Some (Ret True, st', p') \<Rightarrow> feed_all P onPacket cs st' p'
   | other \<Rightarrow> other)"

definition pending :: "frame_parser \<Rightarrow> bytes" where
  "pending p = drop (fp_consumed p) (fp_buffer p)"

definition parser_inv :: "frame_parser \<Rightarrow> bool" where
  "parser_inv p \<longleftrightarrow> fp_consumed p \<le> length (fp_buffer p) \<and> length (fp_buffer p) < 2 ^ 63"

section \<open>The interface of a header policy\<close>

locale frame_policy =
  fixes P :: PacketHeaderPolicy
  assumes header_pos: "0 < HeaderSize P"
    and header_small: "HeaderSize P < 2 ^ 31"
    and length_Write: "length (policy_Write P pid n) = HeaderSize P"
    and Read_Write: "policy_Read P (policy_Write P pid n) = (pid, n)"

lemma frame_policy_default: "frame_policy (DefaultPacketHeaderPolicy B)"
  by unfold_locales (simp_all add: DefaultPacketHeaderPolicy_def DefaultPacketHeaderPolicy_Write_def
      DefaultPacketHeaderPolicy_Read_def Let_def)

interpretation default_policy: frame_policy "DefaultPacketHeaderPolicy B" for B
  by (rule frame_policy_default)

section \<open>Feeding\<close>

lemma bad_length_bound: "\<not> bad_length limit n \<Longrightarrow> unat n < 2 ^ 31 \<and> unat n \<le> limit"
proof -
  assume a: "\<not> bad_length limit n"
  then have s: "0 \<le> sint n" "unat n \<le> limit" by (simp_all add: bad_length_def)
  then have "take_bit 32 (sint n) = sint n" using sint_lt [of n] by (intro take_bit_int_eq_self) simp_all
  then have "uint n = sint n" using uint_sint [of n] by simp
  then show ?thesis using s sint_lt [of n] by (simp add: nat_less_iff flip: nat_uint_eq)
qed

text \<open>Delivering a list of packets to the callback, stopping at an exception.\<close>

lemma pending_Compact [simp]: "pending (Compact p) = pending p"
  by (simp add: Compact_def pending_def)

lemma parser_inv_Compact [simp]: "parser_inv p \<Longrightarrow> parser_inv (Compact p)"
  by (auto simp: Compact_def parser_inv_def)

lemma Compact_limit [simp]: "fp_maxBodyLength (Compact p) = fp_maxBodyLength p"
  by (simp add: Compact_def)

lemma pending_Reset [simp]: "pending (Reset_parser p) = []" "parser_inv (Reset_parser p)"
    "fp_maxBodyLength (Reset_parser p) = fp_maxBodyLength p"
  by (simp_all add: Reset_parser_def pending_def parser_inv_def)

lemma Buffered_pending: "parser_inv p \<Longrightarrow> Buffered p = length (pending p)"
  by (simp add: Buffered_def pending_def parser_inv_def)

context frame_policy
begin

text \<open>One round of the loop, by the state of the pending bytes.\<close>

lemma feed_loop_wait:
  assumes p: "parser_inv p" and f: "frames P (fp_maxBodyLength p) (pending p) = ([], Some rest)"
  shows "feed_loop P cb st p = Some (Ret True, st, Compact p) \<and> rest = pending p"
proof -
  have a: "size_sub (length (fp_buffer p)) (fp_consumed p) = length (pending p)"
    using p by (simp add: parser_inv_def pending_def)
  show ?thesis
  proof (cases "length (pending p) < HeaderSize P")
    case True
    with a f show ?thesis by (subst feed_loop.simps) (simp add: frames.simps)
  next
    case False
    let ?h = "header_at P (pending p)"
    from f False header_pos have ok: "\<not> bad_length (fp_maxBodyLength p) (snd ?h)"
      "length (pending p) < HeaderSize P + unat (snd ?h)" "rest = pending p"
      by (auto simp: frames.simps [of _ _ "pending p"] Let_def split: if_splits prod.splits)
    from bad_length_bound [OF ok(1)] header_small
    have "size_add (HeaderSize P) (unat (snd ?h)) = HeaderSize P + unat (snd ?h)" by simp
    with a False ok show ?thesis
      by (subst feed_loop.simps) (simp add: Let_def header_at_def bad_length_def pending_def case_prod_beta)
  qed
qed

lemma feed_loop_bad:
  assumes p: "parser_inv p" and f: "frames P (fp_maxBodyLength p) (pending p) = ([], None)"
  shows "feed_loop P cb st p = Some (Ret False, st, Reset_parser p)"
proof -
  have a: "size_sub (length (fp_buffer p)) (fp_consumed p) = length (pending p)"
    using p by (simp add: parser_inv_def pending_def)
  from f have "\<not> length (pending p) < HeaderSize P" "bad_length (fp_maxBodyLength p) (snd (header_at P (pending p)))"
    by (auto simp: frames.simps [of _ _ "pending p"] Let_def split: if_splits prod.splits)
  with a show ?thesis
    by (subst feed_loop.simps) (simp add: Let_def header_at_def bad_length_def pending_def case_prod_beta)
qed

lemma feed_loop_packet:
  assumes p: "parser_inv p" and f: "frames P (fp_maxBodyLength p) (pending p) = ((pid, body) # ps, r)"
  shows "\<exists>p'. parser_inv p' \<and> fp_maxBodyLength p' = fp_maxBodyLength p \<and> fp_buffer p' = fp_buffer p \<and>
      fp_consumed p < fp_consumed p' \<and> frames P (fp_maxBodyLength p) (pending p') = (ps, r) \<and>
      feed_loop P cb st p = (case cb pid body st of
         (Ret _, st') \<Rightarrow> feed_loop P cb st' p'
       | (Throw e, st') \<Rightarrow> Some (Throw e, st', p) | (UB, st') \<Rightarrow> Some (UB, st', p))"
proof -
  have a: "size_sub (length (fp_buffer p)) (fp_consumed p) = length (pending p)"
    using p by (simp add: parser_inv_def pending_def)
  obtain hn where h: "header_at P (pending p) = (pid, hn)" and ok: "\<not> length (pending p) < HeaderSize P"
    "\<not> bad_length (fp_maxBodyLength p) hn" "\<not> length (pending p) < HeaderSize P + unat hn"
    "body = take (unat hn) (drop (HeaderSize P) (pending p))"
    "frames P (fp_maxBodyLength p) (drop (HeaderSize P + unat hn) (pending p)) = (ps, r)"
    using f by (cases "header_at P (pending p)")
      (auto simp: frames.simps [of _ _ "pending p"] Let_def case_prod_beta split: if_splits)
  from bad_length_bound [OF ok(2)] header_small
  have fs: "size_add (HeaderSize P) (unat hn) = HeaderSize P + unat hn" by simp
  have c: "size_add (fp_consumed p) (HeaderSize P + unat hn) = fp_consumed p + (HeaderSize P + unat hn)"
    "fp_consumed p + (HeaderSize P + unat hn) \<le> length (fp_buffer p)"
    using p ok(1,3) by (auto simp: parser_inv_def pending_def)
  let ?p = "p\<lparr>fp_consumed := fp_consumed p + (HeaderSize P + unat hn)\<rparr>"
  have b: "take (unat hn) (drop (fp_consumed p + HeaderSize P) (fp_buffer p)) = body"
    using ok(4) by (simp add: pending_def add.commute)
  have "feed_loop P cb st p = (case cb pid body st of
         (Ret _, st') \<Rightarrow> feed_loop P cb st' ?p
       | (Throw e, st') \<Rightarrow> Some (Throw e, st', p) | (UB, st') \<Rightarrow> Some (UB, st', p))"
    using h [unfolded header_at_def pending_def] ok(1-3)
    by (subst feed_loop.simps) (simp add: a b fs c(1) bad_length_def split: prod.split outcome.split)
  moreover have "pending ?p = drop (HeaderSize P + unat hn) (pending p)"
    by (simp add: pending_def add.commute add.left_commute)
  moreover have "parser_inv ?p" using p c by (simp add: parser_inv_def)
  ultimately show ?thesis using ok(5) header_pos by (intro exI [of _ ?p]) simp
qed

end

abbreviation deliver :: "'s callback \<Rightarrow> (u16 \<times> bytes) list \<Rightarrow> ('s, unit) op" where
  "deliver cb \<equiv> for_each (\<lambda>(pid, body). cb pid body)"

text \<open>What is kept for the next call: the incomplete frame, or nothing after a violation.\<close>

definition kept :: "bytes option \<Rightarrow> bytes" where
  "kept r = (case r of Some rest \<Rightarrow> rest | None \<Rightarrow> [])"

text \<open>The state of the parser after a call, relative to the state before the bytes were consumed.\<close>

definition fed :: "frame_parser \<Rightarrow> bytes \<Rightarrow> frame_parser \<Rightarrow> bool" where
  "fed p left p' \<longleftrightarrow> parser_inv p' \<and> fp_maxBodyLength p' = fp_maxBodyLength p \<and>
     length (fp_buffer p') \<le> length (fp_buffer p) \<and> pending p' = left"

lemma fed_Compact: "parser_inv p \<Longrightarrow> fed p (pending p) (Compact p)"
  by (simp add: fed_def) (simp add: Compact_def)

lemma fed_Reset: "fed p [] (Reset_parser p)"
  by (simp add: fed_def) (simp add: Reset_parser_def)

lemma fed_trans: "fp_maxBodyLength p = fp_maxBodyLength q \<Longrightarrow> fp_buffer p = fp_buffer q \<Longrightarrow> fed p l r \<Longrightarrow> fed q l r"
  by (simp add: fed_def)

context frame_policy
begin

lemma feed_loop_frames:
  "parser_inv p \<Longrightarrow> frames P (fp_maxBodyLength p) (pending p) = (ps, r) \<Longrightarrow>
   deliver cb ps st = (Ret (), st') \<Longrightarrow>
   \<exists>p'. feed_loop P cb st p = Some (Ret (r \<noteq> None), st', p') \<and> fed p (kept r) p'"
proof (induction ps arbitrary: p st)
  case Nil
  then have [simp]: "st' = st" by simp
  show ?case
  proof (cases r)
    case None
    then show ?thesis using feed_loop_bad [OF Nil.prems(1), of cb st] Nil.prems(2) fed_Reset [of p] by (simp add: kept_def)
  next
    case (Some rest)
    then show ?thesis using feed_loop_wait [OF Nil.prems(1), of rest cb st] Nil.prems(2) fed_Compact [OF Nil.prems(1)]
      by (simp add: kept_def)
  qed
next
  case (Cons q ps)
  obtain pid body where q: "q = (pid, body)" by force
  from Cons.prems(3) q obtain st1 where st1: "cb pid body st = (Ret (), st1)" "deliver cb ps st1 = (Ret (), st')"
    by (cases "cb pid body st" rule: outcome_state_cases) (simp_all add: seq_def bind_def)
  from feed_loop_packet [OF Cons.prems(1) Cons.prems(2) [unfolded q], of cb st] obtain p'
    where p': "parser_inv p'" "fp_maxBodyLength p' = fp_maxBodyLength p" "fp_buffer p' = fp_buffer p"
      "frames P (fp_maxBodyLength p) (pending p') = (ps, r)" "feed_loop P cb st p = feed_loop P cb st1 p'"
    using st1(1) by auto
  from Cons.IH [OF p'(1) _ st1(2), unfolded p'(2), OF p'(4)] p' show ?case
    by (auto intro: fed_trans)
qed

text \<open>A packet whose handler throws stays at the front of the pending bytes.\<close>

lemma feed_loop_throws:
  "parser_inv p \<Longrightarrow> frames P (fp_maxBodyLength p) (pending p) = (ps @ (pid, body) # qs, r) \<Longrightarrow>
   deliver cb ps st = (Ret (), st1) \<Longrightarrow> cb pid body st1 = (Throw e, st') \<Longrightarrow>
   \<exists>p'. feed_loop P cb st p = Some (Throw e, st', p') \<and> parser_inv p' \<and>
     frames P (fp_maxBodyLength p') (pending p') = ((pid, body) # qs, r)"
proof (induction ps arbitrary: p st)
  case Nil
  then show ?case using feed_loop_packet [OF Nil.prems(1), of pid body qs r cb st] by auto
next
  case (Cons q ps)
  obtain pid' body' where q: "q = (pid', body')" by force
  from Cons.prems(3) q obtain st2 where st2: "cb pid' body' st = (Ret (), st2)" "deliver cb ps st2 = (Ret (), st1)"
    by (cases "cb pid' body' st" rule: outcome_state_cases) (simp_all add: seq_def bind_def)
  from feed_loop_packet [OF Cons.prems(1) Cons.prems(2) [unfolded q append_Cons], of cb st] obtain p'
    where p': "parser_inv p'" "fp_maxBodyLength p' = fp_maxBodyLength p"
      "frames P (fp_maxBodyLength p) (pending p') = (ps @ (pid, body) # qs, r)" "feed_loop P cb st p = feed_loop P cb st2 p'"
    using st2(1) by auto
  from Cons.IH [OF p'(1) _ st2(2) Cons.prems(4), unfolded p'(2), OF p'(3)] p' show ?case by auto
qed

end

lemma header_at_append: "HeaderSize P \<le> length a \<Longrightarrow> header_at P (a @ b) = header_at P a"
  by (simp add: header_at_def)

text \<open>Cutting a stream in two: the second part is parsed after what the first part left.\<close>

lemma frames_append:
  "frames P limit a = (ps, Some rest) \<Longrightarrow> frames P limit (rest @ b) = (qs, r) \<Longrightarrow>
     frames P limit (a @ b) = (ps @ qs, r)"
proof (induction P limit a arbitrary: ps rule: frames.induct)
  case (1 P limit a)
  show ?case
  proof (cases "ps = []")
    case True
    with 1(2) have "rest = a"
      by (subst (asm) frames.simps) (auto simp: Let_def case_prod_beta split: if_splits)
    with 1(3) True show ?thesis by simp
  next
    case False
    let ?n = "unat (snd (header_at P a))"
    from 1(2) False have c: "\<not> (HeaderSize P = 0 \<or> length a < HeaderSize P)"
      "\<not> bad_length limit (snd (header_at P a))" "\<not> length a < HeaderSize P + ?n"
      and f: "frames P limit (drop (HeaderSize P + ?n) a) = (tl ps, Some rest)"
      "hd ps = (fst (header_at P a), take ?n (drop (HeaderSize P) a))"
      by (auto simp: frames.simps [of P limit a] Let_def case_prod_beta prod_eq_iff split: if_splits)
    from 1(1) [OF c refl f(1) 1(3)] c have "frames P limit (drop (HeaderSize P + ?n) (a @ b)) = (tl ps @ qs, r)"
      by simp
    then show ?thesis using c False f(2) header_at_append [of P a b]
      by (subst frames.simps) (cases ps, auto simp: Let_def)
  qed
qed

lemma frames_append_bad:
  "frames P limit a = (ps, None) \<Longrightarrow> frames P limit (a @ b) = (ps, None)"
proof (induction P limit a arbitrary: ps rule: frames.induct)
  case (1 P limit a)
  let ?n = "unat (snd (header_at P a))"
  from 1(2) have c: "\<not> (HeaderSize P = 0 \<or> length a < HeaderSize P)"
    by (auto simp: frames.simps [of P limit a] split: if_splits)
  show ?case
  proof (cases "bad_length limit (snd (header_at P a))")
    case True
    with 1(2) c show ?thesis using header_at_append [of P a b]
      by (subst frames.simps) (auto simp: frames.simps [of P limit a] Let_def)
  next
    case False
    from 1(2) c False have d: "\<not> length a < HeaderSize P + ?n"
      by (auto simp: frames.simps [of P limit a] split: if_splits)
    obtain qs where q: "frames P limit (drop (HeaderSize P + ?n) a) = (qs, None)"
      "ps = (fst (header_at P a), take ?n (drop (HeaderSize P) a)) # qs"
      using 1(2) c False d by (auto simp: frames.simps [of P limit a] Let_def case_prod_beta prod_eq_iff)
    from 1(1) [OF c False d refl q(1)] have "frames P limit (drop (HeaderSize P + ?n) (a @ b)) = (qs, None)"
      using d by simp
    then show ?thesis using c False d q(2) header_at_append [of P a b]
      by (subst frames.simps) (auto simp: Let_def)
  qed
qed

lemma frames_rest: "frames P limit a = (ps, Some rest) \<Longrightarrow> frames P limit rest = ([], Some rest)"
proof (induction P limit a arbitrary: ps rule: frames.induct)
  case (1 P limit a)
  show ?case
  proof (cases "ps = []")
    case True
    with 1(2) have "rest = a"
      by (subst (asm) frames.simps) (auto simp: Let_def case_prod_beta split: if_splits)
    with 1(2) True show ?thesis by simp
  next
    case False
    let ?n = "unat (snd (header_at P a))"
    from 1(2) False have c: "\<not> (HeaderSize P = 0 \<or> length a < HeaderSize P)"
      "\<not> bad_length limit (snd (header_at P a))" "\<not> length a < HeaderSize P + ?n"
      and f: "frames P limit (drop (HeaderSize P + ?n) a) = (tl ps, Some rest)"
      by (auto simp: frames.simps [of P limit a] Let_def case_prod_beta prod_eq_iff split: if_splits)
    from 1(1) [OF c refl f] show ?thesis .
  qed
qed

lemma deliver_collect [simp]: "deliver collect ps st = (Ret (), st @ ps)"
  by (induction ps arbitrary: st) (auto simp: collect_def modify_def seq_def bind_def return_def)

text \<open>Between calls no complete frame is pending.\<close>

definition settled :: "PacketHeaderPolicy \<Rightarrow> frame_parser \<Rightarrow> bool" where
  "settled P p \<longleftrightarrow> frames P (fp_maxBodyLength p) (pending p) = ([], Some (pending p))"

definition packet_bytes :: "PacketHeaderPolicy \<Rightarrow> u16 \<times> bytes \<Rightarrow> bytes" where
  "packet_bytes P m = policy_Write P (fst m) (word_of_nat (length (snd m))) @ snd m"

context frame_policy
begin

lemma Feed_frames:
  assumes p: "parser_inv p" "length (fp_buffer p) + length bytes < 2 ^ 63"
    and f: "frames P (fp_maxBodyLength p) (pending p @ bytes) = (ps, r)" "deliver cb ps st = (Ret (), st')"
  shows "\<exists>p'. Feed P bytes cb st p = Some (Ret (r \<noteq> None), st', p') \<and> parser_inv p' \<and>
    fp_maxBodyLength p' = fp_maxBodyLength p \<and> length (fp_buffer p') \<le> length (fp_buffer p) + length bytes \<and>
    pending p' = kept r"
proof -
  let ?q = "p\<lparr>fp_buffer := fp_buffer p @ bytes\<rparr>"
  have "parser_inv ?q" "pending ?q = pending p @ bytes"
    using p by (simp_all add: parser_inv_def pending_def)
  with feed_loop_frames [of ?q ps r cb st st'] f show ?thesis by (auto simp: Feed_def fed_def)
qed

lemma settled_start: "settled P (make_parser limit)"
  using header_pos by (simp add: settled_def make_parser_def pending_def frames.simps)

lemma feed_all_frames:
  "parser_inv p \<Longrightarrow> length (fp_buffer p) + length (concat cs) < 2 ^ 63 \<Longrightarrow> settled P p \<Longrightarrow>
   frames P (fp_maxBodyLength p) (pending p @ concat cs) = (ps, r) \<Longrightarrow>
   \<exists>p'. feed_all P collect cs st p = Some (Ret (r \<noteq> None), st @ ps, p') \<and> parser_inv p' \<and> pending p' = kept r"
proof (induction cs arbitrary: p st ps)
  case Nil
  then show ?case by (auto simp: settled_def kept_def)
next
  case (Cons c cs)
  obtain qs r1 where f1: "frames P (fp_maxBodyLength p) (pending p @ c) = (qs, r1)" by fastforce
  from Feed_frames [OF Cons.prems(1) _ f1, of collect st] Cons.prems(2) obtain p1
    where p1: "Feed P c collect st p = Some (Ret (r1 \<noteq> None), st @ qs, p1)" "parser_inv p1"
      "fp_maxBodyLength p1 = fp_maxBodyLength p" "length (fp_buffer p1) \<le> length (fp_buffer p) + length c"
      "pending p1 = kept r1" by auto
  show ?case
  proof (cases r1)
    case None
    with frames_append_bad [of P _ "pending p @ c" qs "concat cs"] f1 Cons.prems(4) p1 show ?thesis
      by (simp add: kept_def)
  next
    case (Some rest)
    obtain qs2 r2 where f2: "frames P (fp_maxBodyLength p) (rest @ concat cs) = (qs2, r2)" by fastforce
    from frames_append [OF f1 [unfolded Some] f2] Cons.prems(4) have e: "ps = qs @ qs2" "r = r2" by simp_all
    have "settled P p1" using frames_rest [OF f1 [unfolded Some]] p1(3,5) Some by (simp add: settled_def kept_def)
    from Cons.IH [OF p1(2) _ this, of qs2 "st @ qs"] f2 p1 Some Cons.prems(2) e show ?thesis
      by (auto simp: kept_def)
  qed
qed

lemma frames_packet:
  assumes "length (snd m) < 2 ^ 31" "length (snd m) \<le> limit" "frames P limit rest = (ps, r)"
  shows "frames P limit (packet_bytes P m @ rest) = (m # ps, r)"
proof -
  have h: "header_at P (packet_bytes P m @ rest) = (fst m, word_of_nat (length (snd m)))"
    by (simp add: header_at_def packet_bytes_def length_Write Read_Write)
  have n: "unat (word_of_nat (length (snd m)) :: u32) = length (snd m)" "sint (word_of_nat (length (snd m)) :: u32) = int (length (snd m))"
    using assms(1) by (simp_all add: unat_of_nat_32 sint_of_nat_32)
  have "\<not> bad_length limit (word_of_nat (length (snd m)))" using assms(2) n by (simp add: bad_length_def)
  with h n assms(3) header_pos show ?thesis
    by (subst frames.simps) (simp add: Let_def packet_bytes_def length_Write)
qed

lemma frames_packets:
  assumes "\<forall>m \<in> set ms. length (snd m) < 2 ^ 31 \<and> length (snd m) \<le> limit"
  shows "frames P limit (concat (map (packet_bytes P) ms)) = (ms, Some [])"
  using assms
proof (induction ms)
  case Nil
  then show ?case using header_pos by (simp add: frames.simps)
next
  case (Cons m ms)
  then show ?case using frames_packet [of m limit _ ms "Some []"] by simp
qed

text \<open>Every chunking of a stream of packets delivers exactly these packets, in order.\<close>

lemma stream_round_trip:
  assumes "\<forall>m \<in> set ms. length (snd m) < 2 ^ 31 \<and> length (snd m) \<le> limit"
    and "concat received = concat (map (packet_bytes P) ms)" "length (concat received) < 2 ^ 63"
  shows "\<exists>p'. feed_all P collect received [] (make_parser limit) = Some (Ret True, ms, p') \<and> Buffered p' = 0"
proof -
  have s: "parser_inv (make_parser limit)" "pending (make_parser limit) = []" "fp_maxBodyLength (make_parser limit) = limit"
      "fp_buffer (make_parser limit) = []"
    by (simp_all add: make_parser_def parser_inv_def pending_def)
  from feed_all_frames [OF s(1) _ settled_start, of received ms "Some []" "[]"] frames_packets [OF assms(1)] assms(2,3) s
  obtain p' where "feed_all P collect received [] (make_parser limit) = Some (Ret True, ms, p')" "parser_inv p'"
      "pending p' = []" by (auto simp: kept_def)
  then show ?thesis by (simp add: Buffered_pending)
qed

lemma PeekPacketHeader_packet:
  "PeekPacketHeader P (packet_bytes P m @ rest) = Some \<lparr>ph_id = fst m, ph_bodyLength = word_of_nat (length (snd m))\<rparr>"
  by (simp add: PeekPacketHeader_def packet_bytes_def length_Write Read_Write)

lemma Feed_returns:
  assumes "parser_inv p" "length (fp_buffer p) + length bytes < 2 ^ 63"
    and "\<And>pid body st. \<exists>st'. cb pid body st = (Ret (), st')"
  shows "\<exists>ok st' p'. Feed P bytes cb st p = Some (Ret ok, st', p') \<and> parser_inv p'"
proof -
  obtain ps r where f: "frames P (fp_maxBodyLength p) (pending p @ bytes) = (ps, r)" by fastforce
  have "\<exists>st'. deliver cb ps st = (Ret (), st')" for ps st
  proof (induction ps arbitrary: st)
    case (Cons q ps)
    obtain st1 where "cb (fst q) (snd q) st = (Ret (), st1)" using assms(3) by blast
    then show ?case using Cons [of st1] by (simp add: case_prod_beta seq_def bind_def)
  qed simp
  then obtain st' where "deliver cb ps st = (Ret (), st')" by blast
  from Feed_frames [OF assms(1,2) f this] show ?thesis by auto
qed

end

text \<open>A policy together with the type of the body.\<close>

locale packet_codec = frame_policy P + codec T enc ok fits
  for P and T :: "'a MemoryPackFormatter" and enc ok fits
begin

lemma WritePacket_ok:
  assumes v: "ok v" and len: "length out + HeaderSize P + length (enc v) < 2 ^ 64"
  shows "WritePacket B P T out pid v = (Ret (), out @ packet_bytes P (pid, enc v))"
proof -
  let ?out = "resize out (length out + HeaderSize P)"
  have o: "?out = out @ replicate (HeaderSize P) 0" by (simp add: resize_def)
  from emitsD(1) [OF writes [OF v], of "writer_vector ?out" B]
  obtain w where w: "Write B T v (writer_vector ?out) = (Ret (), w)" "writer_inv w"
    "same_target (writer_vector ?out) w" "GetSpan w = ?out @ enc v" by (auto elim: appendedE)
  then obtain u where "w_vec w = Some u" by (auto simp: same_target_def writer_vector_def)
  then have d: "Data w = out @ replicate (HeaderSize P) 0 @ enc v"
    using w(4) o by (simp add: Data_def GetSpan_def Size_def)
  have "store (Data w) (length out) (policy_Write P pid (word_of_nat (length (enc v)))) =
      Some (out @ policy_Write P pid (word_of_nat (length (enc v))) @ enc v)"
    by (simp add: store_def d length_Write)
  with w(1) d len show ?thesis by (simp add: WritePacket_def Let_def packet_bytes_def)
qed

lemma MakePacket_ok:
  assumes "ok v" "HeaderSize P + length (enc v) < 2 ^ 64"
  shows "MakePacket B P T pid v = Ret (packet_bytes P (pid, enc v))"
  using WritePacket_ok [of v "[]"] assms by (simp add: MakePacket_def)

text \<open>A stream of packets of this type, received in any chunks: the receiver gets every identifier
  with a body from which \<^verbatim>\<open>TryDeserialize\<close> recovers the value that was sent.\<close>

lemma exchange:
  assumes vs: "\<forall>(pid, v) \<in> set vs. ok v \<and> fits v default_options 0 \<and> length (enc v) < 2 ^ 31 \<and> length (enc v) \<le> limit"
    and sent: "\<forall>i < length vs. MakePacket B P T (fst (vs ! i)) (snd (vs ! i)) = Ret (packets ! i)"
      "length packets = length vs"
    and stream: "concat received = concat packets" "length (concat received) < 2 ^ 63"
  shows "\<exists>ms p'. feed_all P collect received [] (make_parser limit) = Some (Ret True, ms, p') \<and>
    map (\<lambda>(pid, body). (pid, TryDeserialize B T body)) ms = map (\<lambda>(pid, v). (pid, Ret (Inr v))) vs"
proof -
  let ?ms = "map (\<lambda>(pid, v). (pid, enc v)) vs"
  have ok: "ok v \<and> fits v default_options 0 \<and> length (enc v) < 2 ^ 31 \<and> length (enc v) \<le> limit"
    if "(pid, v) \<in> set vs" for pid v using vs that by blast
  have p: "packets ! i = packet_bytes P (fst (vs ! i), enc (snd (vs ! i)))" if "i < length vs" for i
    using MakePacket_ok [of "snd (vs ! i)" B "fst (vs ! i)"] ok [of "fst (vs ! i)" "snd (vs ! i)"] header_small sent(1) that
    by simp
  have "packets = map (packet_bytes P) ?ms"
    using sent(2) p by (intro nth_equalityI) (auto simp: case_prod_beta)
  moreover have "\<forall>m \<in> set ?ms. length (snd m) < 2 ^ 31 \<and> length (snd m) \<le> limit" using ok by fastforce
  ultimately
  obtain p' where f: "feed_all P collect received [] (make_parser limit) = Some (Ret True, ?ms, p')"
    using stream_round_trip [of ?ms limit received] stream by auto
  have "TryDeserialize B T (enc v) = Ret (Inr v)" if "(pid, v) \<in> set vs" for pid v
    using deserialize_round_trip(3) [of v "[]" B] ok [OF that] by simp
  then have "map (\<lambda>(pid, body). (pid, TryDeserialize B T body)) ?ms = map (\<lambda>(pid, v). (pid, Ret (Inr v))) vs" by auto
  with f show ?thesis by blast
qed

end

lemma frames_bodies: "frames P limit bs = (ms, r) \<Longrightarrow> \<forall>m \<in> set ms. length (snd m) \<le> limit"
proof (induction P limit bs arbitrary: ms rule: frames.induct)
  case (1 P limit bs)
  show ?case
  proof (cases "ms = []")
    case False
    let ?n = "unat (snd (header_at P bs))"
    from 1(2) False have c: "\<not> (HeaderSize P = 0 \<or> length bs < HeaderSize P)"
      "\<not> bad_length limit (snd (header_at P bs))" "\<not> length bs < HeaderSize P + ?n"
      and f: "frames P limit (drop (HeaderSize P + ?n) bs) = (tl ms, r)"
      "hd ms = (fst (header_at P bs), take ?n (drop (HeaderSize P) bs))"
      by (auto simp: frames.simps [of P limit bs] Let_def case_prod_beta prod_eq_iff split: if_splits)
    from 1(1) [OF c refl f(1)] bad_length_bound [OF c(2)] f(2) False show ?thesis by (cases ms) auto
  qed simp
qed

section \<open>The parser's memory\<close>

lemma Compact_bound: "parser_inv p \<Longrightarrow> length (fp_buffer (Compact p)) \<le> length (pending p) + 4096"
  by (auto simp: Compact_def pending_def parser_inv_def)

lemma frames_incomplete:
  "frames P limit bs = ([], Some rest) \<Longrightarrow> 0 < HeaderSize P \<Longrightarrow> length bs < HeaderSize P + limit \<or> length bs < HeaderSize P"
  using bad_length_bound [of limit "snd (header_at P bs)"]
  by (subst (asm) frames.simps) (auto simp: Let_def case_prod_beta split: if_splits)

context frame_policy
begin

lemma feed_loop_bounded:
  "parser_inv p \<Longrightarrow> frames P (fp_maxBodyLength p) (pending p) = (ps, r) \<Longrightarrow> deliver cb ps st = (Ret (), st') \<Longrightarrow>
   feed_loop P cb st p = Some (out, st'', p') \<Longrightarrow> length (fp_buffer p') \<le> HeaderSize P + fp_maxBodyLength p + 4096"
proof (induction ps arbitrary: p st)
  case Nil
  show ?case
  proof (cases r)
    case None
    with feed_loop_bad [OF Nil.prems(1), of cb st] Nil.prems(2,4) show ?thesis by (simp add: Reset_parser_def)
  next
    case (Some rest)
    with feed_loop_wait [OF Nil.prems(1), of rest cb st] Nil.prems(2,4) have "p' = Compact p" by simp
    with Compact_bound [OF Nil.prems(1)] frames_incomplete [of P _ "pending p" rest] Nil.prems(2) Some header_pos
    show ?thesis by fastforce
  qed
next
  case (Cons q ps)
  obtain pid body where q: "q = (pid, body)" by force
  from Cons.prems(3) q obtain st1 where st1: "cb pid body st = (Ret (), st1)" "deliver cb ps st1 = (Ret (), st')"
    by (cases "cb pid body st" rule: outcome_state_cases) (simp_all add: seq_def bind_def)
  from feed_loop_packet [OF Cons.prems(1) Cons.prems(2) [unfolded q], of cb st] obtain p1
    where p1: "parser_inv p1" "fp_maxBodyLength p1 = fp_maxBodyLength p"
      "frames P (fp_maxBodyLength p) (pending p1) = (ps, r)" "feed_loop P cb st p = feed_loop P cb st1 p1"
    using st1(1) by auto
  from Cons.IH [OF p1(1) _ st1(2), unfolded p1(2), OF p1(3)] p1(4) Cons.prems(4) show ?case by simp
qed

text \<open>Between two calls the parser holds at most one incomplete frame and 4096 consumed bytes.\<close>

lemma Feed_bounded:
  assumes p: "parser_inv p" "length (fp_buffer p) + length bytes < 2 ^ 63"
    and fr: "frames P (fp_maxBodyLength p) (pending p @ bytes) = (ps, r)" "deliver cb ps st = (Ret (), st1)"
    and f: "Feed P bytes cb st p = Some (out, st', p')"
  shows "length (fp_buffer p') \<le> HeaderSize P + fp_maxBodyLength p + 4096"
proof -
  let ?q = "p\<lparr>fp_buffer := fp_buffer p @ bytes\<rparr>"
  have q: "parser_inv ?q" "pending ?q = pending p @ bytes" using p by (simp_all add: parser_inv_def pending_def)
  from feed_loop_bounded [OF q(1) _ fr(2)] fr(1) q(2) f show ?thesis by (auto simp: Feed_def)
qed

end

end
