(* ===== verification/Net.thy ===== *)
theory Net
  imports Packet
begin

text \<open>
  The socket helpers of the samples. The operating system's \<^verbatim>\<open>send\<close> and \<^verbatim>\<open>recv\<close> are parameters on a
  state \<open>'w\<close> of the outside world: \<open>send buf w\<close> returns the count of accepted bytes (or a value \<open>\<le> 0\<close>),
  \<open>recv n w\<close> at most \<open>n\<close> received bytes, none of them when the call returns a value \<open>\<le> 0\<close>. What the
  theorems rely on is the documented behaviour of a stream socket, stated by \<open>sends_in_order\<close> and
  \<open>receives_in_order\<close>. All lengths are below \<open>2 ^ 31\<close>, so the casts to \<^verbatim>\<open>int\<close> are exact.
\<close>

type_synonym 'w send = "bytes \<Rightarrow> 'w \<Rightarrow> int \<times> 'w"
type_synonym 'w recv = "nat \<Rightarrow> 'w \<Rightarrow> bytes \<times> 'w"

section \<open>The host\<close>

text \<open>What the samples call of the operating system: the socket, and the microseconds since the Unix
  epoch that \<^verbatim>\<open>system_clock\<close> reports.\<close>

record 'w host =
  h_send :: "'w send"
  h_recv :: "'w recv"
  h_now :: "'w \<Rightarrow> int"

section \<open>Sending and receiving exactly\<close>

text \<open>\<open>while (sent < len) { n = send(...); if (n <= 0) return false; sent += n; }\<close>\<close>

function send_loop :: "'w send \<Rightarrow> bytes \<Rightarrow> nat \<Rightarrow> 'w \<Rightarrow> bool \<times> 'w" where
  "send_loop send buf sent w =
     (if sent < length buf then
        (case send (drop sent buf) w of (n, w') \<Rightarrow>
           if n \<le> 0 then (False, w') else send_loop send buf (sent + nat n) w')
      else (True, w))"
  by pat_completeness auto
termination
  by (relation "measure (\<lambda>(send, buf, sent, w). length buf - sent)") auto

declare send_loop.simps [simp del]

definition send_exact :: "'w send \<Rightarrow> bytes \<Rightarrow> 'w \<Rightarrow> bool \<times> 'w" where
  "send_exact send buf w = send_loop send buf 0 w"

text \<open>The bytes received so far are the front of the caller's buffer.\<close>

function recv_loop :: "'w recv \<Rightarrow> nat \<Rightarrow> bytes \<Rightarrow> 'w \<Rightarrow> bytes option \<times> 'w" where
  "recv_loop recv len buf w =
     (if length buf < len then
        (case recv (len - length buf) w of (bs, w') \<Rightarrow>
           if bs = [] then (None, w') else recv_loop recv len (buf @ bs) w')
      else (Some buf, w))"
  by pat_completeness auto
termination
  by (relation "measure (\<lambda>(recv, len, buf, w). len - length buf)") (auto simp flip: length_greater_0_conv)

declare recv_loop.simps [simp del]

definition recv_exact :: "'w recv \<Rightarrow> nat \<Rightarrow> 'w \<Rightarrow> bytes option \<times> 'w" where
  "recv_exact recv len w = recv_loop recv len [] w"

section \<open>Packets\<close>

text \<open>The header is copied from memory without a byte order conversion.\<close>

definition send_packet :: "build \<Rightarrow> 'w send \<Rightarrow> u16 \<Rightarrow> bytes \<Rightarrow> 'w \<Rightarrow> bool \<times> 'w" where
  "send_packet B send packetId body w =
     (let bodyLength = word_of_nat (length body) :: u32;
          header = mem_bytes (native B) packetId @ mem_bytes (native B) bodyLength
      in case send_exact send header w of (ok, w1) \<Rightarrow>
           if \<not> ok then (False, w1)
           else if sint bodyLength > 0 then
             (case send_exact send body w1 of (ok, w2) \<Rightarrow> (ok, w2))
           else (True, w1))"

text \<open>\<open>None\<close> when the connection ended; otherwise the identifier and the body.\<close>

definition recv_packet :: "build \<Rightarrow> 'w recv \<Rightarrow> 'w \<Rightarrow> (u16 \<times> bytes) option \<times> 'w" where
  "recv_packet B recv w =
     (case recv_exact recv 6 w of
        (None, w1) \<Rightarrow> (None, w1)
      | (Some header, w1) \<Rightarrow>
          (let packetId = of_mem (native B) (take 2 header);
               bodyLength = of_mem (native B) (take 4 (drop 2 header)) :: u32
           in if sint bodyLength > 0 then
                (case recv_exact recv (unat bodyLength) w1 of
                   (None, w2) \<Rightarrow> (None, w2)
                 | (Some body, w2) \<Rightarrow> (Some (packetId, body), w2))
              else (Some (packetId, []), w1)))"

section \<open>Stream sockets\<close>

text \<open>\<open>out w\<close> are the bytes sent so far, \<open>inp w\<close> the bytes still to be received.\<close>

definition sends_in_order :: "'w send \<Rightarrow> ('w \<Rightarrow> bytes) \<Rightarrow> bool" where
  "sends_in_order send out \<longleftrightarrow> (\<forall>buf w n w'. send buf w = (n, w') \<longrightarrow>
     n \<le> int (length buf) \<and> out w' = out w @ take (nat n) buf)"

definition receives_in_order :: "'w recv \<Rightarrow> ('w \<Rightarrow> bytes) \<Rightarrow> bool" where
  "receives_in_order recv inp \<longleftrightarrow> (\<forall>n w bs w'. recv n w = (bs, w') \<longrightarrow>
     length bs \<le> n \<and> inp w = bs @ inp w')"

lemma send_loop_sends:
  "sends_in_order send out \<Longrightarrow> send_loop send buf sent w = (ok, w') \<Longrightarrow> sent \<le> length buf \<Longrightarrow>
    \<exists>k. out w' = out w @ take k (drop sent buf) \<and> (ok \<longrightarrow> length buf \<le> sent + k)"
proof (induction send buf sent w rule: send_loop.induct)
  case (1 send buf sent w)
  show ?case
  proof (cases "sent < length buf")
    case False
    with 1(3,4) have "w' = w" by (simp add: send_loop.simps)
    with False show ?thesis by (intro exI [of _ 0]) simp
  next
    case True
    obtain n w1 where n: "send (drop sent buf) w = (n, w1)" by force
    with 1(2) have out: "out w1 = out w @ take (nat n) (drop sent buf)" and le: "n \<le> int (length buf - sent)"
      unfolding sends_in_order_def by (blast, metis length_drop)
    show ?thesis
    proof (cases "n \<le> 0")
      case True
      with 1(3) \<open>sent < length buf\<close> n have "w' = w1 \<and> \<not> ok" by (simp add: send_loop.simps)
      with out show ?thesis by auto
    next
      case False
      with 1(3) \<open>sent < length buf\<close> n have "send_loop send buf (sent + nat n) w1 = (ok, w')"
        by (simp add: send_loop.simps [of _ _ sent])
      have "sent + nat n \<le> length buf" using le \<open>sent < length buf\<close> by linarith
      from 1(1) [OF \<open>sent < length buf\<close> n [symmetric] False 1(2) \<open>send_loop send buf (sent + nat n) w1 = (ok, w')\<close> this] obtain k
        where k: "out w' = out w1 @ take k (drop (sent + nat n) buf)" "ok \<longrightarrow> length buf \<le> sent + nat n + k" by auto
      have "out w' = out w @ take (nat n + k) (drop sent buf)"
        using k(1) out by (simp add: take_add add.commute [of sent])
      with k(2) show ?thesis by (intro exI [of _ "nat n + k"]) (simp add: add.assoc)
    qed
  qed
qed

text \<open>\<^verbatim>\<open>send_exact\<close> sends a prefix of the buffer, and reports success exactly for the whole of it.\<close>

lemma send_exact_sends:
  assumes "sends_in_order send out" "send_exact send buf w = (ok, w')"
  shows "\<exists>k. out w' = out w @ take k buf \<and> (ok \<longrightarrow> length buf \<le> k)"
  using send_loop_sends [OF assms(1) assms(2) [unfolded send_exact_def]] by simp

lemma send_exact_ok:
  "sends_in_order send out \<Longrightarrow> send_exact send buf w = (True, w') \<Longrightarrow> out w' = out w @ buf"
  using send_exact_sends by fastforce

lemma recv_loop_receives:
  "receives_in_order recv inp \<Longrightarrow> recv_loop recv len buf w = (r, w') \<Longrightarrow> length buf \<le> len \<Longrightarrow>
    \<exists>bs. inp w = bs @ inp w' \<and> (case r of Some b \<Rightarrow> b = buf @ bs \<and> length b = len | None \<Rightarrow> length buf + length bs < len)"
proof (induction recv len buf w rule: recv_loop.induct)
  case (1 recv len buf w)
  show ?case
  proof (cases "length buf < len")
    case False
    with 1(3,4) have "w' = w" "r = Some buf" by (simp_all add: recv_loop.simps)
    with False 1(4) show ?thesis by simp
  next
    case True
    obtain bs w1 where n: "recv (len - length buf) w = (bs, w1)" by force
    with 1(2) have inp: "inp w = bs @ inp w1" "length bs \<le> len - length buf"
      by (auto simp: receives_in_order_def)
    show ?thesis
    proof (cases "bs = []")
      case True
      with 1(3) \<open>length buf < len\<close> n have "w' = w1 \<and> r = None" by (simp add: recv_loop.simps)
      with inp True \<open>length buf < len\<close> show ?thesis by simp
    next
      case False
      with 1(3) \<open>length buf < len\<close> n have "recv_loop recv len (buf @ bs) w1 = (r, w')"
        by (simp add: recv_loop.simps [of _ _ buf])
      have "length (buf @ bs) \<le> len" using inp(2) True by simp
      from 1(1) [OF True n [symmetric] False 1(2) \<open>recv_loop recv len (buf @ bs) w1 = (r, w')\<close> this] obtain cs
        where "inp w1 = cs @ inp w'" "case r of Some b \<Rightarrow> b = (buf @ bs) @ cs \<and> length b = len
          | None \<Rightarrow> length (buf @ bs) + length cs < len" by auto
      with inp(1) show ?thesis by (intro exI [of _ "bs @ cs"]) (auto split: option.splits)
    qed
  qed
qed

text \<open>\<^verbatim>\<open>recv_exact\<close> consumes exactly the requested bytes, or the connection ended first.\<close>

lemma recv_exact_receives:
  assumes "receives_in_order recv inp" "recv_exact recv len w = (r, w')"
  shows "case r of Some b \<Rightarrow> inp w = b @ inp w' \<and> length b = len | None \<Rightarrow> length (inp w) < len + length (inp w')"
  using recv_loop_receives [OF assms(1) assms(2) [unfolded recv_exact_def]] by (auto split: option.splits)

text \<open>When the stream is still delivering, a waiting \<^verbatim>\<open>recv\<close> returns data: the call cannot fail while
  the requested bytes are on their way.\<close>

definition delivers :: "'w recv \<Rightarrow> ('w \<Rightarrow> bytes) \<Rightarrow> bool" where
  "delivers recv inp \<longleftrightarrow> (\<forall>n w. n > 0 \<longrightarrow> inp w \<noteq> [] \<longrightarrow> fst (recv n w) \<noteq> [])"

lemma recv_loop_succeeds:
  "receives_in_order recv inp \<Longrightarrow> delivers recv inp \<Longrightarrow> len \<le> length buf + length (inp w) \<Longrightarrow>
    \<exists>b w'. recv_loop recv len buf w = (Some b, w')"
proof (induction recv len buf w rule: recv_loop.induct)
  case (1 recv len buf w)
  show ?case
  proof (cases "length buf < len")
    case False
    then show ?thesis by (simp add: recv_loop.simps)
  next
    case True
    obtain bs w1 where n: "recv (len - length buf) w = (bs, w1)" by force
    have "inp w \<noteq> []" using 1(4) True by auto
    with n 1(3) True have ne: "bs \<noteq> []" unfolding delivers_def by (metis fst_conv zero_less_diff)
    have inp: "inp w = bs @ inp w1" using 1(2) n by (auto simp: receives_in_order_def)
    from 1(1) [OF True n [symmetric] ne 1(2,3)] 1(4) inp have "\<exists>b w'. recv_loop recv len (buf @ bs) w1 = (Some b, w')"
      by simp
    with True n ne show ?thesis by (simp add: recv_loop.simps [of _ _ buf])
  qed
qed

lemma recv_exact_delivers:
  assumes "receives_in_order recv inp" "delivers recv inp" "inp w = b @ rest"
  shows "\<exists>w'. recv_exact recv (length b) w = (Some b, w') \<and> inp w' = rest"
proof -
  obtain c w' where c: "recv_exact recv (length b) w = (Some c, w')"
    using recv_loop_succeeds [OF assms(1,2), of "length b" "[]" w] assms(3) by (auto simp: recv_exact_def)
  from recv_exact_receives [OF assms(1) c] assms(3) have "c @ inp w' = b @ rest" "length c = length b" by simp_all
  then have "c = b \<and> inp w' = rest" by (rule append_eq_append_conv [THEN iffD1, rotated, OF _ disjI1])
  with c show ?thesis by blast
qed

section \<open>Exchanging packets\<close>

definition native_header :: "build \<Rightarrow> u16 \<Rightarrow> u32 \<Rightarrow> bytes" where
  "native_header B pid n = mem_bytes (native B) pid @ mem_bytes (native B) n"

lemma send_packet_ok:
  assumes s: "sends_in_order send out" "send_packet B send pid body w = (True, w')" and n: "length body < 2 ^ 31"
  shows "out w' = out w @ native_header B pid (word_of_nat (length body)) @ body"
proof -
  obtain ok w1 where h: "send_exact send (native_header B pid (word_of_nat (length body))) w = (ok, w1)" by force
  with s(2) have ok: "ok" by (simp add: send_packet_def Let_def native_header_def split: if_splits)
  with send_exact_ok [OF s(1), of _ w w1] h have o: "out w1 = out w @ native_header B pid (word_of_nat (length body))" by simp
  show ?thesis
  proof (cases "body = []")
    case True
    with s(2) h ok o show ?thesis by (simp add: send_packet_def Let_def native_header_def)
  next
    case False
    then have "sint (word_of_nat (length body) :: u32) > 0" using sint_of_nat_32 [OF n] by simp
    with s(2) h ok have "send_exact send body w1 = (True, w')"
      by (simp add: send_packet_def Let_def native_header_def split: prod.splits)
    with send_exact_ok [OF s(1)] o show ?thesis by fastforce
  qed
qed

lemma recv_packet_delivers:
  assumes r: "receives_in_order recv inp" "delivers recv inp" and n: "length body < 2 ^ 31"
    and i: "inp w = native_header B pid (word_of_nat (length body)) @ body @ rest"
  shows "\<exists>w'. recv_packet B recv w = (Some (pid, body), w') \<and> inp w' = rest"
proof -
  let ?h = "native_header B pid (word_of_nat (length body))"
  have h: "length ?h = 6" "of_mem (native B) (take 2 ?h) = pid"
    "of_mem (native B) (take 4 (drop 2 ?h)) = (word_of_nat (length body) :: u32)"
    by (simp_all add: native_header_def mem_bytes_def of_mem_def split: endian.split)
  obtain w1 where w1: "recv_exact recv 6 w = (Some ?h, w1)" "inp w1 = body @ rest"
    using recv_exact_delivers [OF r i] h(1) by auto
  have u: "unat (word_of_nat (length body) :: u32) = length body" "sint (word_of_nat (length body) :: u32) = int (length body)"
    using n sint_of_nat_32 [OF n] unat_of_nat_32 [of "length body"] by simp_all
  show ?thesis
  proof (cases "body = []")
    case True
    with w1 h show ?thesis by (simp add: recv_packet_def Let_def)
  next
    case False
    obtain w2 where "recv_exact recv (length body) w1 = (Some body, w2)" "inp w2 = rest"
      using recv_exact_delivers [OF r w1(2)] by auto
    with w1 h u False show ?thesis by (simp add: recv_packet_def Let_def)
  qed
qed

text \<open>On a little-endian host the header is the one of \<^verbatim>\<open>DefaultPacketHeaderPolicy\<close>.\<close>

lemma native_header_little:
  "native B = Little \<Longrightarrow> native_header B pid (word_of_nat (length body)) @ body =
     packet_bytes (DefaultPacketHeaderPolicy B) (pid, body)"
  by (simp add: native_header_def packet_bytes_def DefaultPacketHeaderPolicy_def
      DefaultPacketHeaderPolicy_Write_def endian_convert_def)

definition accepts :: "'w send \<Rightarrow> bool" where
  "accepts send \<longleftrightarrow> (\<forall>buf w. buf \<noteq> [] \<longrightarrow> fst (send buf w) > 0)"

lemma send_loop_inp:
  "(\<forall>buf w. inp (snd (send buf w)) = inp w) \<Longrightarrow> send_loop send buf sent w = (ok, w') \<Longrightarrow> inp w' = inp w"
proof (induction send buf sent w rule: send_loop.induct)
  case (1 send buf sent w)
  obtain n w1 where n: "send (drop sent buf) w = (n, w1)" by force
  with 1(2) have i: "inp w1 = inp w" by (metis snd_conv)
  show ?case
  proof (cases "sent < length buf \<and> \<not> n \<le> 0")
    case True
    with 1(1) [OF _ n [symmetric], of] 1(2,3) n i show ?thesis by (simp add: send_loop.simps [of _ _ sent])
  next
    case False
    with 1(3) n i show ?thesis by (auto simp: send_loop.simps [of _ _ sent] split: if_splits)
  qed
qed

lemma send_loop_accepts: "accepts send \<Longrightarrow> fst (send_loop send buf sent w)"
proof (induction send buf sent w rule: send_loop.induct)
  case (1 send buf sent w)
  obtain n w1 where n: "send (drop sent buf) w = (n, w1)" by force
  show ?case
  proof (cases "sent < length buf")
    case True
    then have "\<not> n \<le> 0" using 1(2) n unfolding accepts_def by (metis drop_eq_Nil fst_conv not_le)
    with 1(1) [OF True n [symmetric]] 1(2) True n show ?thesis by (simp add: send_loop.simps [of _ _ sent])
  qed (simp add: send_loop.simps)
qed

text \<open>The socket of a host: a stream in each direction, independent of the other one. A cooperative
  one accepts at least one byte of every send and delivers what is pending.\<close>

definition duplex :: "'w host \<Rightarrow> ('w \<Rightarrow> bytes) \<Rightarrow> ('w \<Rightarrow> bytes) \<Rightarrow> bool" where
  "duplex H inp out \<longleftrightarrow> receives_in_order (h_recv H) inp \<and> sends_in_order (h_send H) out \<and>
     (\<forall>buf w. inp (snd (h_send H buf w)) = inp w) \<and> (\<forall>n w. out (snd (h_recv H n w)) = out w)"

end
