(* ===== verification/Containers.thy ===== *)
theory Containers
  imports Formatters
begin

text \<open>
  \<^verbatim>\<open>containers.hpp\<close>: formatters of the standard containers, of \<^verbatim>\<open>std::optional\<close>, of the smart
  pointers and of \<^verbatim>\<open>std::variant\<close> as a MemoryPack union.

  A sequence container is the list of its elements. A set or a map is used through the record
  \<^typ>\<open>('c, 'a) container\<close>; \<open>std_set\<close> and \<open>std_map\<close> are the ordered ones, \<open>unordered\<close> is any
  container that iterates over its elements in some order of its own. A smart pointer is an option.
  Each formatter is shown to be a \<^const>\<open>codec\<close> when its element formatters are.
\<close>

section \<open>Null encodings\<close>

datatype NullEncoding = NullObject | NullCollection | NullString | NullableValue

text \<open>The kinds of type the specialisations of \<^verbatim>\<open>WireNullEncoding\<close> distinguish.\<close>

datatype type_kind = Arithmetic | Enumeration | Unmanaged | String | U16String
  | Vector | Deque | List | Map | UnorderedMap | Set | UnorderedSet | Variant | Other

fun WireNullEncoding :: "type_kind \<Rightarrow> NullEncoding" where
  "WireNullEncoding String = NullString"
| "WireNullEncoding U16String = NullString"
| "WireNullEncoding Vector = NullCollection"
| "WireNullEncoding Deque = NullCollection"
| "WireNullEncoding List = NullCollection"
| "WireNullEncoding Map = NullCollection"
| "WireNullEncoding UnorderedMap = NullCollection"
| "WireNullEncoding Set = NullCollection"
| "WireNullEncoding UnorderedSet = NullCollection"
| "WireNullEncoding Variant = NullObject"
| "WireNullEncoding k =
     (if k = Arithmetic \<or> k = Enumeration \<or> k = Unmanaged then NullableValue else NullObject)"

text \<open>A formatter for a class type that is neither arithmetic nor an enum nor \<^verbatim>\<open>std::string\<close>.\<close>

definition class_formatter ::
    "'a \<Rightarrow> (build \<Rightarrow> 'a \<Rightarrow> unit wop) \<Rightarrow> (build \<Rightarrow> 'a \<Rightarrow> 'a rop) \<Rightarrow> 'a MemoryPackFormatter" where
  "class_formatter init ser de = \<lparr>is_arithmetic = False, is_enum = False, is_string = False,
     size_of = 1, value_init = init, formatter_Serialize = ser, formatter_Deserialize = de\<rparr>"

section \<open>Sequences\<close>

definition vector_formatter :: "'a MemoryPackFormatter \<Rightarrow> 'a list MemoryPackFormatter" where
  "vector_formatter T = class_formatter []
     (\<lambda>B v. WriteCollection B T v) (\<lambda>B v. ReadCollection B T)"

definition vector_formatter_arith :: "'a::len word list MemoryPackFormatter" where
  "vector_formatter_arith = class_formatter [] WriteVector (\<lambda>B v. ReadVector B)"

definition vector_formatter_bool :: "bool list MemoryPackFormatter" where
  "vector_formatter_bool = class_formatter [] WriteVector_bool (\<lambda>B v. ReadVector_bool B)"

text \<open>An assignment \<open>v[i] = x\<close> to an element of a \<^verbatim>\<open>std::array\<close>: outside the array it is \<open>UB\<close>.\<close>

definition array_assign :: "nat \<Rightarrow> 'a \<Rightarrow> 'a list \<Rightarrow> 'a list rop" where
  "array_assign i x v = (\<lambda>r. if i < length v then (Ret (v[i := x]), r) else (UB, r))"

text \<open>The loop of the \<^verbatim>\<open>std::array\<close> formatter for a non-arithmetic element type: every element is
  read, the first \<open>N\<close> are stored. The accumulator is the index and the array.\<close>

definition read_array_element :: "build \<Rightarrow> 'a MemoryPackFormatter \<Rightarrow> nat \<Rightarrow> nat \<times> 'a list \<Rightarrow> (nat \<times> 'a list) rop" where
  "read_array_element B T N = (\<lambda>(i, v).
     bind (Read_value B T) (\<lambda>tmp.
       if i < N then bind (array_assign i tmp v) (\<lambda>v. return (Suc i, v)) else return (Suc i, v)))"

definition array_formatter :: "'a MemoryPackFormatter \<Rightarrow> nat \<Rightarrow> 'a list MemoryPackFormatter" where
  "array_formatter T N = class_formatter (replicate N (value_init T))
     (\<lambda>B v. WriteCollection B T v)
     (\<lambda>B v. bind (ReadCollectionLength B 1) (\<lambda>len.
        if sint len \<le> 0 then return (replicate N (value_init T))
        else bind (read_loop (unat len) (read_array_element B T N) (0, replicate N (value_init T)))
               (\<lambda>(i, v). return v)))"

definition array_formatter_arith :: "nat \<Rightarrow> 'a::len word list MemoryPackFormatter" where
  "array_formatter_arith N = class_formatter (replicate N 0) WriteArray_std
     (\<lambda>B v. bind (ReadArray B (replicate N 0) (word_of_nat N)) (\<lambda>(a, _). return a))"

text \<open>The lower bound on an element's size in the container formatters.\<close>

definition min_element_size :: "'a MemoryPackFormatter \<Rightarrow> size_t" where
  "min_element_size T = (if is_arithmetic T \<or> is_enum T then size_of T else 1)"

definition write_elements :: "build \<Rightarrow> ('a \<Rightarrow> unit wop) \<Rightarrow> 'a list \<Rightarrow> unit wop" where
  "write_elements B body items =
     bind (CheckedLength B (length items)) (\<lambda>n.
       if sint n < 0 then return ()
       else seq (WriteCollectionHeader B n) (for_each body items))"

definition SequenceFormatter :: "'a MemoryPackFormatter \<Rightarrow> 'a list MemoryPackFormatter" where
  "SequenceFormatter T = class_formatter []
     (\<lambda>B c. write_elements B (Write B T) c)
     (\<lambda>B c. bind (ReadCollectionLength B (min_element_size T)) (\<lambda>len.
        if sint len \<le> 0 then return []
        else read_loop (unat len) (\<lambda>c. bind (Read_value B T) (\<lambda>value. return (c @ [value]))) []))"

section \<open>Sets and maps\<close>

definition SetFormatter :: "'a MemoryPackFormatter \<Rightarrow> ('c, 'a) container \<Rightarrow> 'c MemoryPackFormatter" where
  "SetFormatter T C = class_formatter (c_empty C)
     (\<lambda>B c. write_elements B (Write B T) (c_items C c))
     (\<lambda>B c. bind (ReadCollectionLength B (min_element_size T)) (\<lambda>len.
        if sint len \<le> 0 then return (c_empty C)
        else read_loop (unat len)
          (\<lambda>c. bind (Read_value B T) (\<lambda>value. return (c_insert C value c))) (c_empty C)))"

definition MapFormatter :: "'k MemoryPackFormatter \<Rightarrow> 'v MemoryPackFormatter \<Rightarrow>
    ('m, 'k \<times> 'v) container \<Rightarrow> 'm MemoryPackFormatter" where
  "MapFormatter K V C = class_formatter (c_empty C)
     (\<lambda>B m. write_elements B (\<lambda>(key, value). seq (Write B K key) (Write B V value)) (c_items C m))
     (\<lambda>B m. bind (ReadCollectionLength B (min_element_size K + min_element_size V)) (\<lambda>len.
        if sint len \<le> 0 then return (c_empty C)
        else read_loop (unat len) (read_entry B K V C) (c_empty C)))"

text \<open>\<^verbatim>\<open>std::set\<close>: a strictly increasing list; inserting an element already there changes nothing.\<close>

fun set_insert :: "'a::linorder \<Rightarrow> 'a list \<Rightarrow> 'a list" where
  "set_insert x [] = [x]"
| "set_insert x (y # ys) =
     (if x < y then x # y # ys else if y < x then y # set_insert x ys else y # ys)"

definition std_set :: "('a::linorder list, 'a) container" where
  "std_set = \<lparr>c_empty = [], c_items = (\<lambda>c. c), c_insert = set_insert\<rparr>"

text \<open>\<^verbatim>\<open>std::map\<close>: a list of pairs with strictly increasing keys; \<^verbatim>\<open>emplace\<close> keeps the value of a
  key already there.\<close>

fun map_emplace :: "'k::linorder \<times> 'v \<Rightarrow> ('k \<times> 'v) list \<Rightarrow> ('k \<times> 'v) list" where
  "map_emplace kv [] = [kv]"
| "map_emplace kv (lw # m) =
     (if fst kv < fst lw then kv # lw # m
      else if fst lw < fst kv then lw # map_emplace kv m else lw # m)"

definition std_map :: "(('k::linorder \<times> 'v) list, 'k \<times> 'v) container" where
  "std_map = \<lparr>c_empty = [], c_items = (\<lambda>c. c), c_insert = map_emplace\<rparr>"

text \<open>The hashed containers: a set of elements (or a finite map) whose iteration order is not
  specified by the language; \<open>order\<close> is the one the implementation happens to use.\<close>

definition unordered_set :: "('a set \<Rightarrow> 'a list) \<Rightarrow> ('a set, 'a) container" where
  "unordered_set order = \<lparr>c_empty = {}, c_items = order, c_insert = insert\<rparr>"

definition unordered_map ::
    "(('k \<Rightarrow> 'v option) \<Rightarrow> ('k \<times> 'v) list) \<Rightarrow> ('k \<Rightarrow> 'v option, 'k \<times> 'v) container" where
  "unordered_map order = \<lparr>c_empty = (\<lambda>_. None), c_items = order,
     c_insert = (\<lambda>(k, v) m. if m k = None then m(k := Some v) else m)\<rparr>"

section \<open>Pairs, tuples, optionals and pointers\<close>

definition pair_formatter :: "'k MemoryPackFormatter \<Rightarrow> 'v MemoryPackFormatter \<Rightarrow> ('k \<times> 'v) MemoryPackFormatter" where
  "pair_formatter K V = class_formatter (value_init K, value_init V)
     (\<lambda>B v. seq (Write B K (fst v)) (Write B V (snd v)))
     (\<lambda>B v. bind (Read B K (fst v)) (\<lambda>k. bind (Read B V (snd v)) (\<lambda>x. return (k, x))))"

definition tuple_formatter :: "'s \<Rightarrow> 's member list \<Rightarrow> 's MemoryPackFormatter" where
  "tuple_formatter init ms = class_formatter init
     (\<lambda>B v. WriteTuple B ms v) (\<lambda>B v. ReadTuple B init ms)"

definition optional_nullable :: "size_t \<Rightarrow> 'a::len word option MemoryPackFormatter" where
  "optional_nullable align = class_formatter None
     (\<lambda>B v. WriteNullable B align v) (\<lambda>B v. ReadNullable B align)"

definition optional_string :: "bytes option MemoryPackFormatter" where
  "optional_string = class_formatter None
     (\<lambda>B v. case v of Some s \<Rightarrow> Write B string_formatter s | None \<Rightarrow> WriteNullString B)
     (\<lambda>B v. ReadString B)"

text \<open>Looking at the next four bytes on a copy of the reader.\<close>

definition peek_null_collection :: "build \<Rightarrow> bool rop" where
  "peek_null_collection B = (\<lambda>r.
     if Remaining r \<ge> 4 then
       (case ReadCollectionHeader B r of
          (Ret h, _) \<Rightarrow> (Ret (h = NULL_COLLECTION), r)
        | (Throw e, _) \<Rightarrow> (Throw e, r)
        | (UB, _) \<Rightarrow> (UB, r))
     else (Ret False, r))"

definition optional_collection :: "'a MemoryPackFormatter \<Rightarrow> 'a option MemoryPackFormatter" where
  "optional_collection T = class_formatter None
     (\<lambda>B v. case v of Some x \<Rightarrow> Write B T x | None \<Rightarrow> WriteNullCollectionHeader B)
     (\<lambda>B v. bind (peek_null_collection B) (\<lambda>null.
        if null then seq (Advance B 4) (return None)
        else bind (Read_value B T) (\<lambda>value. return (Some value))))"

definition optional_u16string :: "u16 list option MemoryPackFormatter" where
  "optional_u16string = class_formatter None
     (\<lambda>B v. case v of Some s \<Rightarrow> WriteStringUtf16 B s | None \<Rightarrow> WriteNullString B)
     (\<lambda>B v. bind (peek_null_collection B) (\<lambda>null.
        if null then seq (Advance B 4) (return None)
        else bind (Read_value B u16string_formatter) (\<lambda>value. return (Some value))))"

definition optional_object :: "'a MemoryPackFormatter \<Rightarrow> 'a option MemoryPackFormatter" where
  "optional_object T = class_formatter None
     (\<lambda>B v. case v of Some x \<Rightarrow> Write B T x | None \<Rightarrow> WriteNullObjectHeader B)
     (\<lambda>B v. bind PeekIsNull (\<lambda>null.
        if null then bind (ReadByte B) (\<lambda>_. return None)
        else bind (Read_value B T) (\<lambda>value. return (Some value))))"

definition unique_ptr_formatter :: "'a MemoryPackFormatter \<Rightarrow> 'a option MemoryPackFormatter" where
  "unique_ptr_formatter T = class_formatter None
     (\<lambda>B v. case v of Some x \<Rightarrow> Write B T x | None \<Rightarrow> WriteNullObjectHeader B)
     (\<lambda>B v. bind PeekIsNull (\<lambda>null.
        if null then bind (ReadByte B) (\<lambda>_. return None)
        else bind (Read_value B T) (\<lambda>value. return (Some value))))"

definition shared_ptr_formatter :: "'a MemoryPackFormatter \<Rightarrow> 'a option MemoryPackFormatter" where
  "shared_ptr_formatter T = class_formatter None
     (\<lambda>B v. case v of Some x \<Rightarrow> Write B T x | None \<Rightarrow> WriteNullObjectHeader B)
     (\<lambda>B v. bind PeekIsNull (\<lambda>null.
        if null then bind (ReadByte B) (\<lambda>_. return None)
        else bind (Read_value B T) (\<lambda>value. return (Some value))))"

section \<open>Unions\<close>

text \<open>An alternative of a variant \<open>'v\<close>: its tag, whether a value holds it, and how its contents are
  written and read. \<open>alt_read\<close> is \<open>v.emplace<I>(); r.Read(std::get<I>(v))\<close>.\<close>

record 'v alternative =
  alt_tag :: u16
  alt_holds :: "'v \<Rightarrow> bool"
  alt_write :: "build \<Rightarrow> 'v \<Rightarrow> unit wop"
  alt_read :: "build \<Rightarrow> 'v rop"

definition alternative :: "u16 \<Rightarrow> 'a MemoryPackFormatter \<Rightarrow> ('a \<Rightarrow> 'v) \<Rightarrow> ('v \<Rightarrow> 'a option) \<Rightarrow> 'v alternative" where
  "alternative tag T mk get = \<lparr>alt_tag = tag,
     alt_holds = (\<lambda>v. get v \<noteq> None),
     alt_write = (\<lambda>B v. case get v of Some x \<Rightarrow> Write B T x | None \<Rightarrow> return ()),
     alt_read = (\<lambda>B. bind (Read B T (value_init T)) (\<lambda>x. return (mk x)))\<rparr>"

text \<open>The new value of the variant and whether some alternative had the tag.\<close>

fun ReadUnionAlternative :: "build \<Rightarrow> 'v alternative list \<Rightarrow> 'v \<Rightarrow> u16 \<Rightarrow> ('v \<times> bool) rop" where
  "ReadUnionAlternative B [] v tag = return (v, False)"
| "ReadUnionAlternative B (a # alts) v tag =
     (if alt_tag a \<noteq> tag then ReadUnionAlternative B alts v tag
      else bind (alt_read a B) (\<lambda>v'. return (v', True)))"

fun variant_visit :: "build \<Rightarrow> 'v alternative list \<Rightarrow> 'v \<Rightarrow> unit wop" where
  "variant_visit B [] v = return ()"
| "variant_visit B (a # alts) v =
     (if alt_holds a v then seq (WriteUnionHeader B (alt_tag a)) (alt_write a B v)
      else variant_visit B alts v)"

definition variant_formatter :: "'v \<Rightarrow> 'v alternative list \<Rightarrow> 'v MemoryPackFormatter" where
  "variant_formatter init alts = class_formatter init
     (\<lambda>B v. variant_visit B alts v)
     (\<lambda>B v. bind (ReadUnionHeader B) (\<lambda>tag. case tag of
        None \<Rightarrow> return init
      | Some t \<Rightarrow> bind (ReadUnionAlternative B alts v t) (\<lambda>(v', handled).
          if \<not> handled then bind (gets Remaining) (\<lambda>n. seq (Advance B n) (return v'))
          else return v')))"

section \<open>Codecs\<close>

lemma Read_class [simp]: "Read B (class_formatter init ser de) v = de B v"
  by (simp add: Read_def class_formatter_def)

lemma Write_class [simp]: "Write B (class_formatter init ser de) v = ser B v"
  by (simp add: Write_def class_formatter_def)

lemma MinEncodedSize_class [simp]: "MinEncodedSize (class_formatter init ser de) = 1"
  by (simp add: MinEncodedSize_def class_formatter_def)

text \<open>What remains to be shown for a class type.\<close>

lemma class_codecI:
  assumes "\<And>B v. ok v \<Longrightarrow> emits B (ser B v) (enc v)"
    and "\<And>B v v0. ok v \<Longrightarrow> decodes (fits v) (de B v0) (enc v) v"
    and "\<And>v0. reader_action (\<lambda>B. de B v0)"
    and "\<And>v. ok v \<Longrightarrow> enc v \<noteq> []"
  shows "codec (class_formatter init ser de) enc ok fits"
  using assms by (intro codec.intro) (simp_all add: Suc_leI)

lemma enc_collection_nonempty [simp]: "enc_collection enc xs \<noteq> []"
  by (simp add: enc_collection_def enc_length_def le_bytes_def)

definition all_ok :: "('a \<Rightarrow> bool) \<Rightarrow> 'a list \<Rightarrow> bool" where
  "all_ok ok vs \<longleftrightarrow> length vs < 2 ^ 31 \<and> (\<forall>v \<in> set vs. ok v)"

lemma vector_arith_codec:
  assumes "8 dvd LENGTH('a::len)"
  shows "codec (vector_formatter_arith :: 'a word list MemoryPackFormatter) (enc_collection le_bytes)
    (all_ok (\<lambda>_. True)) (all_fit (\<lambda>_ _ _. True))"
  unfolding vector_formatter_arith_def using assms
  by (intro class_codecI emits_WriteVector decodes_ReadVector reader_action_ReadVector)
    (auto simp: all_ok_def all_fit_def)

lemma vector_bool_codec:
  "codec vector_formatter_bool (enc_collection (\<lambda>b. [if b then 1 else 0]))
    (all_ok (\<lambda>_. True)) (all_fit (\<lambda>_ _ _. True))"
  unfolding vector_formatter_bool_def
  by (intro class_codecI emits_WriteVector_bool decodes_ReadVector_bool reader_action_ReadVector_bool)
    (auto simp: all_ok_def all_fit_def)

lemma min_element_size_le: "min_element_size T \<le> MinEncodedSize T"
  by (simp add: min_element_size_def MinEncodedSize_def)

lemma emits_write_elements:
  assumes "length vs < 2 ^ 31" "\<And>v. v \<in> set vs \<Longrightarrow> emits B (body v) (enc v)"
  shows "emits B (write_elements B body vs) (enc_collection enc vs)"
  unfolding write_elements_def CheckedLength_def enc_collection_def using assms
  by (intro emits_length_prefixed emits_for_each) simp_all

text \<open>The loop that inserts one element after the other.\<close>

lemma decodes_inserts:
  assumes len: "length vs < 2 ^ 31"
    and elem: "\<And>v acc. v \<in> set vs \<Longrightarrow> decodes F (body acc) (enc v) (upd acc v)"
    and k: "\<And>v. v \<in> set vs \<Longrightarrow> k \<le> length (enc v)"
    and lim: "\<And>opts d. F opts d \<Longrightarrow> length vs \<le> unat (maxCollectionLength opts)"
    and result: "foldl upd start vs = v"
  shows "decodes F (bind (ReadCollectionLength B k) (\<lambda>len.
        if sint len \<le> 0 then return start else read_loop (unat len) body start))
      (enc_collection enc vs) v"
proof -
  have "decodes F (read_loop (length vs) body start) (concat (map enc vs)) (foldl upd start vs)"
    by (rule decodes_read_loop [OF elem])
  then show ?thesis
    by (intro decodes_counted) (use len k lim result in \<open>auto cong: if_cong\<close>)
qed

lemma safe_inserts:
  assumes "\<And>acc. reader_action (\<lambda>B. body B acc)"
  shows "reader_action (\<lambda>B. bind (ReadCollectionLength B k) (\<lambda>len.
        if sint len \<le> 0 then return start else read_loop (unat len) (body B) start))"
  by (intro reader_intros assms)

context codec
begin

lemma vector_codec: "codec (vector_formatter T) (enc_collection enc) (all_ok ok) (all_fit fits)"
  unfolding vector_formatter_def
  by (intro class_codecI emits_WriteCollection decodes_ReadCollection safe_ReadCollection)
    (auto simp: all_ok_def)

lemma decodes_append_element:
  "ok v \<Longrightarrow> (\<And>opts d. F opts d \<Longrightarrow> fits v opts d) \<Longrightarrow>
    decodes F (bind (Read_value B T) (\<lambda>x. return (upd x acc))) (enc v) (upd v acc)"
  by (rule decodes_map [OF decodes_mono [OF reads_value]]) simp_all

lemma element_size: "ok v \<Longrightarrow> min_element_size T \<le> length (enc v)"
  using min_size [of v] min_element_size_le [of T] by simp

lemma sequence_codec: "codec (SequenceFormatter T) (enc_collection enc) (all_ok ok) (all_fit fits)"
  unfolding SequenceFormatter_def
proof (rule class_codecI)
  fix B :: build and v :: "'a list" and v0 :: "'a list" assume v: "all_ok ok v"
  then show "emits B (write_elements B (Write B T) v) (enc_collection enc v)"
    by (intro emits_write_elements writes) (auto simp: all_ok_def)
  show "decodes (all_fit fits v) (bind (ReadCollectionLength B (min_element_size T)) (\<lambda>len.
        if sint len \<le> 0 then return []
        else read_loop (unat len) (\<lambda>c. bind (Read_value B T) (\<lambda>value. return (c @ [value]))) []))
      (enc_collection enc v) v"
    using v foldl_snoc [of "\<lambda>x. x" "[]" v]
    by (intro decodes_inserts [where upd = "\<lambda>c x. c @ [x]"] element_size
        decodes_append_element [where upd = "\<lambda>x c. c @ [x]"]) (auto simp: all_ok_def all_fit_def)
next
  fix v0 show "reader_action (\<lambda>B. bind (ReadCollectionLength B (min_element_size T)) (\<lambda>len.
        if sint len \<le> 0 then return []
        else read_loop (unat len) (\<lambda>c. bind (Read_value B T) (\<lambda>value. return (c @ [value]))) []))"
    by (intro reader_intros safe_value)
qed simp

text \<open>The elements of a set may come in any order and more than once: they are inserted one after the other.\<close>

lemma decodes_set:
  "all_ok ok vs \<Longrightarrow> decodes (all_fit fits vs) (Read B (SetFormatter T C) v0) (enc_collection enc vs)
     (foldl (\<lambda>c x. c_insert C x c) (c_empty C) vs)"
  unfolding SetFormatter_def Read_class
  by (intro decodes_inserts [where upd = "\<lambda>c x. c_insert C x c"] element_size
      decodes_append_element [where upd = "c_insert C"]) (auto simp: all_ok_def all_fit_def)

end

text \<open>What a set or map container promises: inserting the elements of a container one after the
  other, in iteration order, gives the container back.\<close>

locale rebuildable =
  fixes C :: "('c, 'a) container" and valid :: "'c \<Rightarrow> bool"
  assumes rebuild: "valid c \<Longrightarrow> foldl (\<lambda>c x. c_insert C x c) (c_empty C) (c_items C c) = c"

locale set_codec = codec T enc ok fits + rebuildable C valid
  for T :: "'a MemoryPackFormatter" and enc ok fits and C :: "('c, 'a) container" and valid

sublocale set_codec \<subseteq> set: codec "SetFormatter T C" "\<lambda>c. enc_collection enc (c_items C c)"
  "\<lambda>c. valid c \<and> all_ok ok (c_items C c)" "\<lambda>c. all_fit fits (c_items C c)"
  unfolding SetFormatter_def
proof (rule class_codecI)
  fix B :: build and c v0 assume v: "valid c \<and> all_ok ok (c_items C c)"
  then show "emits B (write_elements B (Write B T) (c_items C c)) (enc_collection enc (c_items C c))"
    by (intro emits_write_elements writes) (auto simp: all_ok_def)
  show "decodes (all_fit fits (c_items C c)) (bind (ReadCollectionLength B (min_element_size T)) (\<lambda>len.
        if sint len \<le> 0 then return (c_empty C)
        else read_loop (unat len)
          (\<lambda>c. bind (Read_value B T) (\<lambda>value. return (c_insert C value c))) (c_empty C)))
      (enc_collection enc (c_items C c)) c"
    using v rebuild [of c] decodes_set [of "c_items C c" B C v0] by (simp add: SetFormatter_def)
next
  fix v0 show "reader_action (\<lambda>B. bind (ReadCollectionLength B (min_element_size T)) (\<lambda>len.
        if sint len \<le> 0 then return (c_empty C)
        else read_loop (unat len)
          (\<lambda>c. bind (Read_value B T) (\<lambda>value. return (c_insert C value c))) (c_empty C)))"
    by (intro reader_intros safe_value)
qed simp

text \<open>Two formatters: maps and pairs.\<close>

locale two_codecs = k: codec K encK okK fitsK + v: codec V encV okV fitsV
  for K :: "'k MemoryPackFormatter" and encK okK fitsK
    and V :: "'v MemoryPackFormatter" and encV okV fitsV
begin

lemma pair_codec: "codec (pair_formatter K V) (\<lambda>(x, y). encK x @ encV y) (\<lambda>(x, y). okK x \<and> okV y)
    (\<lambda>(x, y) opts d. fitsK x opts d \<and> fitsV y opts d)"
  unfolding pair_formatter_def
proof (rule class_codecI)
  fix B :: build and p v0 :: "'k \<times> 'v"
  obtain x y where p: "p = (x, y)" by (cases p)
  assume "case p of (x, y) \<Rightarrow> okK x \<and> okV y"
  then have ok: "okK x" "okV y" by (simp_all add: p)
  show "emits B (seq (Write B K (fst p)) (Write B V (snd p))) (case p of (x, y) \<Rightarrow> encK x @ encV y)"
    by (simp add: p emits_seq k.writes v.writes ok)
  let ?F = "\<lambda>opts d. fitsK x opts d \<and> fitsV y opts d"
  have "decodes ?F (bind (Read B K k0) (\<lambda>k. bind (Read B V w0) (\<lambda>z. return (k, z)))) (encK x @ encV y) (x, y)"
    for k0 w0
    by (intro decodes_bind [where v = x] decodes_map [where g = "Pair x" and v = y]
        decodes_mono [OF k.reads] decodes_mono [OF v.reads] ok) simp_all
  then show "decodes (case p of (x, y) \<Rightarrow> \<lambda>opts d. fitsK x opts d \<and> fitsV y opts d)
      (bind (Read B K (fst v0)) (\<lambda>k. bind (Read B V (snd v0)) (\<lambda>x. return (k, x))))
      (case p of (x, y) \<Rightarrow> encK x @ encV y) p" by (simp add: p)
  show "(case p of (x, y) \<Rightarrow> encK x @ encV y) \<noteq> []" using k.nonempty [OF ok(1)] by (simp add: p)
next
  fix v0 show "reader_action (\<lambda>B. bind (Read B K (fst v0)) (\<lambda>k. bind (Read B V (snd v0)) (\<lambda>x. return (k, x))))"
    by (intro reader_intros k.safe v.safe)
qed

lemma decodes_entry:
  assumes "okK x" "okV y" "\<And>opts d. F opts d \<Longrightarrow> fitsK x opts d \<and> fitsV y opts d"
  shows "decodes F (read_entry B K V C m) (encK x @ encV y) (c_insert C (x, y) m)"
  unfolding read_entry_def using assms
  by (intro decodes_bind [where v = x] decodes_map [where g = "\<lambda>z. c_insert C (x, z) m" and v = y]
      decodes_mono [OF k.reads_value] decodes_mono [OF v.reads_value]) auto

lemma safe_entry: "reader_action (\<lambda>B. read_entry B K V C m)"
  unfolding read_entry_def by (intro reader_intros k.safe_value v.safe_value)

lemma decodes_map_entries:
  assumes kvs: "all_ok (\<lambda>(x, y). okK x \<and> okV y) kvs"
  shows "decodes (all_fit (\<lambda>(x, y) opts d. fitsK x opts d \<and> fitsV y opts d) kvs) (Read B (MapFormatter K V C) v0)
    (enc_collection (\<lambda>(x, y). encK x @ encV y) kvs) (foldl (\<lambda>c x. c_insert C x c) (c_empty C) kvs)"
  unfolding MapFormatter_def Read_class
proof (rule decodes_inserts [where upd = "\<lambda>c x. c_insert C x c"])
  fix p :: "'k \<times> 'v" and acc assume p: "p \<in> set kvs"
  obtain x y where xy: "p = (x, y)" by (cases p)
  show "decodes (all_fit (\<lambda>(x, y) opts d. fitsK x opts d \<and> fitsV y opts d) kvs)
      (read_entry B K V C acc) (case p of (x, y) \<Rightarrow> encK x @ encV y) (c_insert C p acc)"
    using kvs p unfolding xy prod.case by (intro decodes_entry) (auto simp: all_ok_def all_fit_def)
  have ok: "okK x" "okV y" using kvs p by (auto simp: all_ok_def xy)
  show "min_element_size K + min_element_size V \<le> length (case p of (x, y) \<Rightarrow> encK x @ encV y)"
    using k.element_size [OF ok(1)] v.element_size [OF ok(2)] by (simp add: xy)
qed (use kvs in \<open>auto simp: all_ok_def all_fit_def\<close>)

lemma emits_entry:
  "okK x \<Longrightarrow> okV y \<Longrightarrow> emits B (seq (Write B K x) (Write B V y)) (encK x @ encV y)"
  by (intro emits_seq k.writes v.writes)

end

locale map_codec = two_codecs K encK okK fitsK V encV okV fitsV + rebuildable C valid
  for K :: "'k MemoryPackFormatter" and encK okK fitsK
    and V :: "'v MemoryPackFormatter" and encV okV fitsV
    and C :: "('m, 'k \<times> 'v) container" and valid

sublocale map_codec \<subseteq> map: codec "MapFormatter K V C"
  "\<lambda>m. enc_collection (\<lambda>(x, y). encK x @ encV y) (c_items C m)"
  "\<lambda>m. valid m \<and> all_ok (\<lambda>(x, y). okK x \<and> okV y) (c_items C m)"
  "\<lambda>m. all_fit (\<lambda>(x, y) opts d. fitsK x opts d \<and> fitsV y opts d) (c_items C m)"
  unfolding MapFormatter_def
proof (rule class_codecI)
  fix B :: build and m v0 assume v: "valid m \<and> all_ok (\<lambda>(x, y). okK x \<and> okV y) (c_items C m)"
  then show "emits B (write_elements B (\<lambda>(key, value). seq (Write B K key) (Write B V value)) (c_items C m))
      (enc_collection (\<lambda>(x, y). encK x @ encV y) (c_items C m))"
    by (intro emits_write_elements) (auto simp: all_ok_def intro!: emits_entry)
  show "decodes (all_fit (\<lambda>(x, y) opts d. fitsK x opts d \<and> fitsV y opts d) (c_items C m))
      (bind (ReadCollectionLength B (min_element_size K + min_element_size V)) (\<lambda>len.
        if sint len \<le> 0 then return (c_empty C)
        else read_loop (unat len) (read_entry B K V C) (c_empty C)))
      (enc_collection (\<lambda>(x, y). encK x @ encV y) (c_items C m)) m"
    using v rebuild [of m] decodes_map_entries [of "c_items C m" B C v0] by (simp add: MapFormatter_def)
next
  fix v0 show "reader_action (\<lambda>B. bind (ReadCollectionLength B (min_element_size K + min_element_size V)) (\<lambda>len.
        if sint len \<le> 0 then return (c_empty C)
        else read_loop (unat len) (read_entry B K V C) (c_empty C)))"
    by (intro reader_intros safe_entry)
qed simp

section \<open>The standard containers rebuild\<close>

lemma set_insert_snoc: "\<forall>x \<in> set xs. x < y \<Longrightarrow> set_insert y xs = xs @ [y]"
  by (induction xs) auto

lemma foldl_set_insert:
  "sorted_wrt (<) (acc @ xs) \<Longrightarrow> foldl (\<lambda>c x. set_insert x c) acc xs = acc @ xs"
proof (induction xs arbitrary: acc)
  case (Cons x xs)
  then have "set_insert x acc = acc @ [x]" by (intro set_insert_snoc) (auto simp: sorted_wrt_append)
  with Cons.IH [of "acc @ [x]"] Cons.prems show ?case by simp
qed simp

interpretation std_set: rebuildable std_set "sorted_wrt (<)"
  by unfold_locales (simp add: std_set_def foldl_set_insert)

lemma map_emplace_snoc: "\<forall>x \<in> set m. fst x < fst kv \<Longrightarrow> map_emplace kv m = m @ [kv]"
  by (induction m) auto

lemma foldl_map_emplace:
  "sorted_wrt (\<lambda>a b. fst a < fst b) (acc @ m) \<Longrightarrow> foldl (\<lambda>c x. map_emplace x c) acc m = acc @ m"
proof (induction m arbitrary: acc)
  case (Cons x m)
  then have "map_emplace x acc = acc @ [x]" by (intro map_emplace_snoc) (auto simp: sorted_wrt_append)
  with Cons.IH [of "acc @ [x]"] Cons.prems show ?case by simp
qed simp

interpretation std_map: rebuildable std_map "sorted_wrt (\<lambda>a b. fst a < fst b)"
  by unfold_locales (simp add: std_map_def foldl_map_emplace)

text \<open>Insertion keeps the order, so every container the reader builds is valid.\<close>

lemma set_insert_sorted:
  "sorted_wrt (<) xs \<Longrightarrow> sorted_wrt (<) (set_insert x xs) \<and> set (set_insert x xs) = insert x (set xs)"
  by (induction xs) auto

lemma map_emplace_keys: "fst ` set (map_emplace kv m) = insert (fst kv) (fst ` set m)"
  by (induction m) auto

lemma map_emplace_sorted:
  "sorted_wrt (\<lambda>a b. fst a < fst b) m \<Longrightarrow> sorted_wrt (\<lambda>a b. fst a < fst b) (map_emplace kv m)"
proof (induction m)
  case (Cons lw m)
  have "fst lw < fst x" if "x \<in> set (map_emplace kv m)" "fst lw < fst kv" for x
  proof -
    have "fst x \<in> insert (fst kv) (fst ` set m)" using that(1) map_emplace_keys [of kv m] by auto
    with that(2) Cons.prems show ?thesis by auto
  qed
  with Cons show ?case by auto
qed simp

text \<open>The first value of a key wins.\<close>

lemma map_of_emplace:
  "sorted_wrt (\<lambda>a b. fst a < fst b) m \<Longrightarrow> map_of (map_emplace kv m) =
     (if map_of m (fst kv) = None then (map_of m)(fst kv := Some (snd kv)) else map_of m)"
proof (induction m)
  case Nil
  then show ?case by (cases kv) (simp add: fun_eq_iff)
next
  case (Cons lw m)
  have above: "map_of m k = None" if "k \<le> fst lw" for k
    using Cons.prems that by (fastforce simp: map_of_eq_None_iff)
  show ?case
    using Cons above by (cases kv; cases lw) (auto simp: fun_eq_iff)
qed

text \<open>The elements of a message, in the order in which they come.\<close>

lemma foldl_set_insert_any:
  "sorted_wrt (<) c \<Longrightarrow> sorted_wrt (<) (foldl (\<lambda>c x. set_insert x c) c xs) \<and>
    set (foldl (\<lambda>c x. set_insert x c) c xs) = set c \<union> set xs"
  by (induction xs arbitrary: c) (auto simp: set_insert_sorted)

lemma foldl_map_emplace_any:
  "sorted_wrt (\<lambda>a b. fst a < fst b) m \<Longrightarrow> sorted_wrt (\<lambda>a b. fst a < fst b) (foldl (\<lambda>c x. map_emplace x c) m kvs) \<and>
    map_of (foldl (\<lambda>c x. map_emplace x c) m kvs) = map_of kvs ++ map_of m"
proof (induction kvs arbitrary: m)
  case (Cons kv kvs)
  have "map_of kvs ++ map_of (map_emplace kv m) = map_of (kv # kvs) ++ map_of m"
    unfolding map_of_emplace [OF Cons.prems] by (cases kv) (auto simp: map_add_def fun_eq_iff split: option.split)
  with Cons.IH [OF map_emplace_sorted [OF Cons.prems, of kv]] show ?case by (simp add: fun_upd_def)
qed simp

lemma foldl_insert_set: "foldl (\<lambda>c x. insert x c) A xs = A \<union> set xs"
  by (induction xs arbitrary: A) auto

lemma unordered_set_rebuildable:
  assumes "\<And>A. finite A \<Longrightarrow> set (order A) = A"
  shows "rebuildable (unordered_set order) finite"
  using assms by unfold_locales (simp add: unordered_set_def foldl_insert_set)

lemma unordered_map_rebuildable:
  assumes "\<And>m. finite (dom m) \<Longrightarrow> map_of (order m) = m \<and> distinct (map fst (order m))"
  shows "rebuildable (unordered_map order) (\<lambda>m. finite (dom m))"
proof
  have step: "distinct (map fst xs) \<Longrightarrow> dom acc \<inter> fst ` set xs = {} \<Longrightarrow>
      foldl (\<lambda>c x. (\<lambda>(k, v) m. if m k = None then m(k := Some v) else m) x c) acc xs = acc ++ map_of xs" for acc xs
  proof (induction xs arbitrary: acc)
    case (Cons p xs)
    obtain k v where p: "p = (k, v)" by (cases p)
    have "acc k = None" using Cons.prems by (auto simp: p)
    moreover have "map_of xs k = None" using Cons.prems by (auto simp: p map_of_eq_None_iff)
    ultimately show ?case using Cons by (auto simp: p map_add_def fun_eq_iff split: option.splits)
  qed simp
  fix m :: "'a \<Rightarrow> 'b option" assume "finite (dom m)"
  with assms [of m] step [of "order m" Map.empty]
  show "foldl (\<lambda>c x. c_insert (unordered_map order) x c) (c_empty (unordered_map order))
      (c_items (unordered_map order) m) = m"
    by (simp add: unordered_map_def)
qed

section \<open>Optionals and pointers\<close>

text \<open>A value encoded by the object convention must not start with the null byte.\<close>

definition opt_enc :: "bytes \<Rightarrow> ('a \<Rightarrow> bytes) \<Rightarrow> 'a option \<Rightarrow> bytes" where
  "opt_enc null enc v = (case v of None \<Rightarrow> null | Some x \<Rightarrow> enc x)"

lemma opt_enc_simps [simp]: "opt_enc null enc None = null" "opt_enc null enc (Some x) = enc x"
  by (simp_all add: opt_enc_def)

definition opt_ok :: "('a \<Rightarrow> bool) \<Rightarrow> 'a option \<Rightarrow> bool" where
  "opt_ok ok v = (case v of None \<Rightarrow> True | Some x \<Rightarrow> ok x)"

definition opt_fits :: "('a \<Rightarrow> ReaderOptions \<Rightarrow> nat \<Rightarrow> bool) \<Rightarrow> 'a option \<Rightarrow> ReaderOptions \<Rightarrow> nat \<Rightarrow> bool" where
  "opt_fits fits v opts d = (case v of None \<Rightarrow> True | Some x \<Rightarrow> fits x opts d)"

lemma opt_simps [simp]:
  "opt_ok ok None" "opt_ok ok (Some x) = ok x"
  "opt_fits fits None opts d" "opt_fits fits (Some x) opts d = fits x opts d"
  by (simp_all add: opt_ok_def opt_fits_def)

locale nullable_object = codec +
  assumes not_null: "ok v \<Longrightarrow> hd (enc v) \<noteq> 255"
begin

lemma decodes_opt:
  assumes "opt_ok ok v"
  shows "decodes (opt_fits fits v) (bind PeekIsNull (\<lambda>null.
        if null then bind (ReadByte B) (\<lambda>_. return None)
        else bind (Read_value B T) (\<lambda>value. return (Some value)))) (opt_enc [255] enc v) v"
proof (cases v)
  case None
  have "decodes (opt_fits fits v) (bind (ReadByte B) (\<lambda>_. return None)) [255] None"
    by (rule decodes_map [OF decodes_ReadByte]) simp
  with None show ?thesis by (intro decodes_PeekIsNull) simp_all
next
  case (Some x)
  with assms have ok: "ok x" by simp
  have "decodes (opt_fits fits v) (bind (Read_value B T) (\<lambda>value. return (Some value))) (enc x) (Some x)"
    by (rule decodes_map [OF decodes_mono [OF reads_value [OF ok]]]) (simp_all add: Some)
  with not_null [OF ok] nonempty [OF ok] Some show ?thesis by (intro decodes_PeekIsNull) simp_all
qed

lemma emits_opt:
  assumes "opt_ok ok v"
  shows "emits B (case v of Some x \<Rightarrow> Write B T x | None \<Rightarrow> WriteNullObjectHeader B) (opt_enc [255] enc v)"
  using assms writes by (cases v) (simp_all add: WriteNullObjectHeader_def emits_AppendByte)

lemma safe_opt: "reader_action (\<lambda>B. bind PeekIsNull (\<lambda>null.
        if null then bind (ReadByte B) (\<lambda>_. return None)
        else bind (Read_value B T) (\<lambda>value. return (Some value))))"
  by (intro reader_intros safe_value)

lemma opt_nonempty: "opt_ok ok v \<Longrightarrow> opt_enc [255] enc v \<noteq> []"
  using nonempty by (cases v) auto

lemma optional_codec: "codec (optional_object T) (opt_enc [255] enc) (opt_ok ok) (opt_fits fits)"
  unfolding optional_object_def by (intro class_codecI emits_opt decodes_opt safe_opt opt_nonempty)

lemma unique_ptr_codec: "codec (unique_ptr_formatter T) (opt_enc [255] enc) (opt_ok ok) (opt_fits fits)"
  unfolding unique_ptr_formatter_def by (intro class_codecI emits_opt decodes_opt safe_opt opt_nonempty)

lemma shared_ptr_codec: "codec (shared_ptr_formatter T) (opt_enc [255] enc) (opt_ok ok) (opt_fits fits)"
  unfolding shared_ptr_formatter_def by (intro class_codecI emits_opt decodes_opt safe_opt opt_nonempty)

end

text \<open>Objects written by \<^verbatim>\<open>MEMORYPACK_DEFINE\<close> start with a member count, which is at most 249.\<close>

sublocale struct_codec \<subseteq> object: nullable_object "MEMORYPACK_DEFINE init (map fst ms)" "struct_enc ms"
  "members_ok ms" "struct_fits ms"
proof unfold_locales
  fix v
  have "unat (word_of_nat (length ms) :: byte) = length ms"
    using count by (simp add: unat_of_nat take_bit_nat_eq_self)
  then show "hd (struct_enc ms v) \<noteq> 255" using count by (auto simp: struct_enc_def)
qed

section \<open>Null collections\<close>

lemma reader_action_peek [reader_intros]: "reader_action peek_null_collection"
proof -
  have raw: "\<exists>h s. ReadCollectionHeader B r = (Ret h, s)" if "reader_inv r" "4 \<le> Remaining r" for B r
    using that(1)
  proof (cases rule: EnsureBytes_cases [where B = B and n = 4])
    case ok
    then show ?thesis using take_bytes_ok(1) [OF that(1) ok(3)]
      by (simp add: ReadCollectionHeader_def ReadRaw_def)
  next
    case failed
    then show ?thesis by (simp add: ReadCollectionHeader_def ReadRaw_def)
  next
    case short
    then show ?thesis using that by (simp add: Remaining_eq)
  qed
  have same: "fst (ReadCollectionHeader (no_exceptions e) r) = fst (ReadCollectionHeader (with_exceptions e) r)"
    if "reader_inv r" "r_error r = ErrorNone" "4 \<le> Remaining r" for e r
    using that(1)
  proof (cases rule: EnsureBytes_cases [where B = "no_exceptions e" and n = 4])
    case ok
    then have "EnsureBytes (with_exceptions e) 4 r = (Ret True, r)" using that by (intro EnsureBytes_ok)
    with ok show ?thesis using take_bytes_ok(1) [OF that(1) ok(3)]
      by (simp add: ReadCollectionHeader_def ReadRaw_def)
  qed (use that in \<open>simp_all add: Remaining_eq\<close>)
  show ?thesis
  proof (rule reader_actionI)
    fix B r assume r: "reader_inv r"
    then show "reader_step B r (peek_null_collection B r)"
      using raw [OF r, of B] by (auto simp: peek_null_collection_def)
  next
    fix r e assume r: "reader_inv r" "r_error r = ErrorNone"
    show "corresponds (peek_null_collection (no_exceptions e) r) (peek_null_collection (with_exceptions e) r)"
      using raw [OF r(1), of "no_exceptions e"] raw [OF r(1), of "with_exceptions e"] same [OF r, of e] r
      by (auto simp: peek_null_collection_def corresponds_def)
  qed
qed

lemma decodes_peek:
  assumes "4 \<le> length bs" "decodes F (f (take 4 bs = le_bytes (-1 :: u32))) bs v"
  shows "decodes F (bind (peek_null_collection B) f) bs v"
proof (rule decodesI)
  fix r rest
  assume r: "reader_inv r" "r_error r = ErrorNone" "drop (r_pos r) (r_data r) = bs @ rest"
    "F (r_options r) (unat (r_depth r))" "r_pos r + length bs + length rest = length (r_data r)"
  let ?w = "of_le_bytes (take 4 bs) :: u32"
  have w: "le_bytes ?w = take 4 bs" using assms(1) by (intro le_bytes_of_le_bytes) simp
  have "drop (r_pos r) (r_data r) = le_bytes ?w @ drop 4 bs @ rest"
    unfolding w r(3) by (metis append.assoc append_take_drop_id)
  from decodesD [OF decodes_ReadRaw [where F = any_limits and B = B and w = ?w] r(1,2) this]
  have "ReadCollectionHeader B r = (Ret ?w, r\<lparr>r_pos := r_pos r + 4\<rparr>)"
    by (simp add: ReadCollectionHeader_def)
  moreover have "4 \<le> Remaining r" using r assms(1) by (simp add: Remaining_eq)
  moreover have "?w = -1 \<longleftrightarrow> take 4 bs = le_bytes (-1 :: u32)"
    using w le_bytes_inject [of ?w "-1"] by auto
  ultimately have "peek_null_collection B r = (Ret (take 4 bs = le_bytes (-1 :: u32)), r)"
    by (simp add: peek_null_collection_def)
  with decodesD [OF assms(2) r(1-4)]
  show "bind (peek_null_collection B) f r = (Ret v, r\<lparr>r_pos := r_pos r + length bs\<rparr>)" by simp
qed

lemma decodes_Advance: "n = length bs \<Longrightarrow> decodes F (Advance B n) bs ()"
  unfolding Advance_def by (rule decodes_take) simp_all

locale nullable_collection = codec +
  assumes header: "ok v \<Longrightarrow> 4 \<le> length (enc v) \<and> take 4 (enc v) \<noteq> le_bytes (-1 :: u32)"
begin

lemma decodes_optional:
  assumes "opt_ok ok v"
  shows "decodes (opt_fits fits v) (bind (peek_null_collection B) (\<lambda>null.
        if null then seq (Advance B 4) (return None)
        else bind (Read_value B T) (\<lambda>value. return (Some value))))
      (opt_enc (le_bytes (-1 :: u32)) enc v) v"
proof (cases v)
  case None
  have "decodes (opt_fits fits v) (seq (Advance B 4) (return None)) (le_bytes (-1 :: u32) @ []) None"
    by (rule decodes_seq [OF decodes_Advance decodes_return]) simp
  with None show ?thesis by (intro decodes_peek) simp_all
next
  case (Some x)
  with assms have ok: "ok x" by simp
  have "decodes (opt_fits fits v) (bind (Read_value B T) (\<lambda>value. return (Some value))) (enc x) (Some x)"
    by (rule decodes_map [OF decodes_mono [OF reads_value [OF ok]]]) (simp_all add: Some)
  with header [OF ok] Some show ?thesis by (intro decodes_peek) simp_all
qed

lemma optional_codec:
  "codec (optional_collection T) (opt_enc (le_bytes (-1 :: u32)) enc) (opt_ok ok) (opt_fits fits)"
  unfolding optional_collection_def
proof (rule class_codecI)
  fix B v assume "opt_ok ok v"
  then show "emits B (case v of Some x \<Rightarrow> Write B T x | None \<Rightarrow> WriteNullCollectionHeader B)
      (opt_enc (le_bytes (-1 :: u32)) enc v)"
    using writes emits_WriteRaw [of B "-1 :: u32"] by (cases v) (simp_all add: WriteNullCollectionHeader_def)
next
  show "reader_action (\<lambda>B. bind (peek_null_collection B) (\<lambda>null.
        if null then seq (Advance B 4) (return None)
        else bind (Read_value B T) (\<lambda>value. return (Some value))))"
    by (intro reader_intros safe_value)
next
  fix v assume "opt_ok ok v"
  then show "opt_enc (le_bytes (-1 :: u32)) enc v \<noteq> []" using nonempty by (cases v) (auto simp: le_bytes_def)
qed (rule decodes_optional)

end

text \<open>Every counted collection qualifies: a length below \<open>2 ^ 31\<close> is not the null header.\<close>

lemma collection_header:
  assumes "length vs < 2 ^ 31"
  shows "4 \<le> length (enc_collection enc vs) \<and> take 4 (enc_collection enc vs) \<noteq> le_bytes (-1 :: u32)"
proof -
  have "sint (word_of_nat (length vs) :: u32) \<noteq> sint (-1 :: u32)" using sint_of_nat_32 [OF assms] by simp
  then have "(word_of_nat (length vs) :: u32) \<noteq> -1" by auto
  then show ?thesis using le_bytes_inject [of "word_of_nat (length vs) :: u32" "-1"]
    by (auto simp: enc_collection_def enc_length_def)
qed


context codec
begin

lemma optional_vector_codec:
  "codec (optional_collection (vector_formatter T)) (opt_enc (le_bytes (-1 :: u32)) (enc_collection enc))
     (opt_ok (all_ok ok)) (opt_fits (all_fit fits))"
  by (intro nullable_collection.optional_codec nullable_collection.intro vector_codec
      nullable_collection_axioms.intro collection_header) (simp add: all_ok_def)

end

lemma optional_string_codec:
  "codec optional_string (opt_enc (le_bytes (-1 :: u32)) enc_string) (opt_ok string_ok)
     (opt_fits (\<lambda>s opts d. string_fits s opts))"
  unfolding optional_string_def
proof (rule class_codecI)
  fix B v assume "opt_ok string_ok v"
  then show "emits B (case v of Some s \<Rightarrow> Write B string_formatter s | None \<Rightarrow> WriteNullString B)
      (opt_enc (le_bytes (-1 :: u32)) enc_string v)"
    using string_codec.writes emits_WriteRaw [of B "-1 :: u32"] by (cases v) (simp_all add: WriteNullString_def)
next
  fix B v and v0 :: "bytes option" assume v: "opt_ok string_ok v"
  show "decodes (opt_fits (\<lambda>s opts d. string_fits s opts) v) (ReadString B)
      (opt_enc (le_bytes (-1 :: u32)) enc_string v) v"
  proof (cases v)
    case None
    then show ?thesis unfolding ReadString_def
      by (intro decodes_bind_eq [OF decodes_ReadRaw [where w = "-1"], where cs = "[]"] decodes_gets_Failed)
        simp_all
  next
    case (Some s)
    with v show ?thesis unfolding Some opt_enc_simps
      by (intro decodes_ReadString) (simp_all add: string_ok_def)
  qed
next
  show "reader_action (\<lambda>B. ReadString B)" by (rule reader_action_ReadString)
next
  fix v assume "opt_ok string_ok v"
  then show "opt_enc (le_bytes (-1 :: u32)) enc_string v \<noteq> []"
    using string_codec.nonempty by (cases v) (auto simp: le_bytes_def)
qed

section \<open>Nullable values\<close>

definition nullable_enc :: "size_t \<Rightarrow> 'a::len word option \<Rightarrow> bytes" where
  "nullable_enc align v = (case v of
     None \<Rightarrow> replicate (NullableLayout_Size align (sizeof TYPE('a))) 0
   | Some x \<Rightarrow> (1 # replicate (align - 1) 0) @ le_bytes x @
       replicate (NullableLayout_Size align (sizeof TYPE('a)) - align - sizeof TYPE('a)) 0)"

lemma NullableLayout_bounds:
  assumes "0 < align"
  shows "align + sz \<le> NullableLayout_Size align sz" "NullableLayout_Size align sz < 2 * align + sz"
proof -
  let ?n = "align + sz + align - 1"
  have e: "?n div align * align + ?n mod align = ?n" by (rule div_mult_mod_eq)
  have m: "?n mod align < align" using assms by simp
  show "align + sz \<le> NullableLayout_Size align sz" unfolding NullableLayout_Size_def using e m by linarith
  show "NullableLayout_Size align sz < 2 * align + sz"
    unfolding NullableLayout_Size_def using e assms by linarith
qed

lemma emits_WriteNullable:
  assumes "0 < align"
  shows "emits B (WriteNullable B align (v :: 'a::len word option)) (nullable_enc align v)"
proof (cases v)
  case None
  have "(replicate n 0)[0 := 0] = replicate n (0 :: byte)" for n by (cases n) simp_all
  with None show ?thesis
    using emits_AppendBytes [of B "replicate (NullableLayout_Size align (sizeof TYPE('a))) 0"]
    by (simp add: WriteNullable_def WriteNullable_raw_def nullable_enc_def)
next
  case (Some x)
  let ?n = "NullableLayout_Size align (sizeof TYPE('a))"
  note b = NullableLayout_bounds [OF assms, of "sizeof TYPE('a)"]
  have t: "take align ((replicate ?n 0)[0 := 1]) = (1 :: byte) # replicate (align - 1) 0"
    using assms b(1) by (cases align; cases ?n) (simp_all add: min_def)
  have d: "drop (align + sizeof TYPE('a)) ((replicate ?n 0)[0 := 1]) =
      replicate (?n - align - sizeof TYPE('a)) (0 :: byte)"
    using assms by (simp add: drop_update_cancel)
  have "store ((replicate ?n 0)[0 := 1]) align (le_bytes x) = Some (nullable_enc align v)"
    using b(1) by (simp add: store_def t d Some nullable_enc_def)
  then show ?thesis using emits_AppendBytes [of B "nullable_enc align v"] Some
    by (simp add: WriteNullable_def WriteNullable_raw_def NullableLayout_ValueOffset_def)
qed

lemma decodes_ReadNullable:
  assumes "0 < align" "8 dvd LENGTH('a::len)"
  shows "decodes F (ReadNullable B align) (nullable_enc align v) (v :: 'a word option)"
proof -
  let ?n = "NullableLayout_Size align (sizeof TYPE('a))"
  note b = NullableLayout_bounds [OF assms(1), of "sizeof TYPE('a)"]
  have len: "length (nullable_enc align v) = ?n"
    using b(1) assms(1) by (cases v) (simp_all add: nullable_enc_def)
  have "decodes F (ReadNullable_raw B align (sizeof TYPE('a))) (nullable_enc align v) (map_option le_bytes v)"
    unfolding ReadNullable_raw_def
  proof (rule decodes_take)
    show "decodes F (if hd (nullable_enc align v) = 0 then return None
         else return (Some (take (sizeof TYPE('a)) (drop (NullableLayout_ValueOffset align) (nullable_enc align v))))) []
       (map_option le_bytes v)"
    proof (cases v)
      case None
      have "0 < ?n" using b(1) assms(1) by linarith
      with None show ?thesis by (simp add: nullable_enc_def hd_replicate)
    next
      case (Some x)
      obtain a where a: "align = Suc a" using assms(1) gr0_implies_Suc by blast
      show ?thesis using Some by (simp add: a nullable_enc_def NullableLayout_ValueOffset_def)
    qed
  qed (simp add: len)
  from decodes_map [OF this, of "map_option (\<lambda>bs. endian_convert (native B) (of_mem (native B) bs))" v]
  show ?thesis unfolding ReadNullable_def using assms(2) by (cases v) simp_all
qed

lemma optional_nullable_codec:
  assumes "0 < align" "8 dvd LENGTH('a::len)"
  shows "codec (optional_nullable align :: 'a word option MemoryPackFormatter) (nullable_enc align)
    (\<lambda>_. True) (\<lambda>_ _ _. True)"
  unfolding optional_nullable_def
proof (rule class_codecI)
  show "reader_action (\<lambda>B. ReadNullable B align :: 'a word option rop)"
    unfolding ReadNullable_def ReadNullable_raw_def
    by (intro reader_intros reader_action_native_return
        [where f = "\<lambda>e. map_option (\<lambda>bs. endian_convert e (of_mem e bs)) v" for v])
next
  fix v :: "'a word option"
  have "0 < NullableLayout_Size align (sizeof TYPE('a))"
    using NullableLayout_bounds(1) [OF assms(1), of "sizeof TYPE('a)"] assms(1) by linarith
  then show "nullable_enc align v \<noteq> []" by (cases v) (simp_all add: nullable_enc_def)
qed (use assms in \<open>simp_all add: emits_WriteNullable decodes_ReadNullable\<close>)

section \<open>Unions\<close>

locale alternative_codec =
  fixes A :: "'v alternative" and enc :: "'v \<Rightarrow> bytes" and ok :: "'v \<Rightarrow> bool"
    and fits :: "'v \<Rightarrow> ReaderOptions \<Rightarrow> nat \<Rightarrow> bool"
  assumes writes: "alt_holds A v \<Longrightarrow> ok v \<Longrightarrow> emits B (alt_write A B v) (enc v)"
    and reads: "alt_holds A v \<Longrightarrow> ok v \<Longrightarrow> decodes (fits v) (alt_read A B) (enc v) v"
    and safe: "reader_action (\<lambda>B. alt_read A B)"

text \<open>The tag of the alternative a value holds.\<close>

fun variant_tag :: "'v alternative list \<Rightarrow> 'v \<Rightarrow> u16" where
  "variant_tag [] v = 0"
| "variant_tag (a # alts) v = (if alt_holds a v then alt_tag a else variant_tag alts v)"

locale variant_codec =
  fixes init :: 'v and alts :: "'v alternative list" and enc ok fits
  assumes alternatives: "a \<in> set alts \<Longrightarrow> alternative_codec a enc ok fits"
    and tags: "distinct (map alt_tag alts)"
    and covers: "ok v \<Longrightarrow> \<exists>a \<in> set alts. alt_holds a v"
begin

lemma emits_visit:
  assumes "ok v"
  shows "emits B (variant_visit B alts v) (enc_union_tag (variant_tag alts v) @ enc v)"
proof -
  have "emits B (variant_visit B as v) (enc_union_tag (variant_tag as v) @ enc v)"
    if "set as \<subseteq> set alts" "\<exists>a \<in> set as. alt_holds a v" for as
    using that
  proof (induction as)
    case (Cons a as)
    show ?case
    proof (cases "alt_holds a v")
      case True
      then have "emits B (alt_write a B v) (enc v)"
        using alternative_codec.writes [OF alternatives [of a]] Cons.prems assms by auto
      with True show ?thesis by (simp add: emits_seq emits_WriteUnionHeader)
    qed (use Cons in simp)
  qed simp
  with covers [OF assms] show ?thesis by blast
qed

lemma decodes_alternative:
  assumes "ok v"
  shows "decodes (fits v) (ReadUnionAlternative B alts v0 (variant_tag alts v)) (enc v) (v, True)"
proof -
  have "decodes (fits v) (ReadUnionAlternative B as v0 (variant_tag as v)) (enc v) (v, True) \<and>
      variant_tag as v \<in> alt_tag ` set as"
    if "set as \<subseteq> set alts" "distinct (map alt_tag as)" "\<exists>a \<in> set as. alt_holds a v" for as
    using that
  proof (induction as)
    case (Cons a as)
    show ?case
    proof (cases "alt_holds a v")
      case True
      then have "decodes (fits v) (alt_read a B) (enc v) v"
        using alternative_codec.reads [OF alternatives [of a]] Cons.prems assms by auto
      from decodes_map [OF this, of "\<lambda>v. (v, True)"] True show ?thesis by simp
    next
      case False
      with Cons have IH: "decodes (fits v) (ReadUnionAlternative B as v0 (variant_tag as v)) (enc v) (v, True)"
        "variant_tag as v \<in> alt_tag ` set as" by auto
      with Cons.prems(2) have "alt_tag a \<noteq> variant_tag as v" by auto
      with False IH show ?thesis by simp
    qed
  qed simp
  with covers [OF assms] tags show ?thesis by blast
qed

lemma safe_alternative: "reader_action (\<lambda>B. ReadUnionAlternative B alts v0 t)"
proof -
  have "reader_action (\<lambda>B. ReadUnionAlternative B as v0 t)" if "set as \<subseteq> set alts" for as
    using that
  proof (induction as)
    case Nil
    show ?case unfolding ReadUnionAlternative.simps by (rule reader_action_return)
  next
    case (Cons a as)
    show ?case unfolding ReadUnionAlternative.simps using Cons alternatives
      by (intro reader_intros alternative_codec.safe) auto
  qed
  then show ?thesis by simp
qed

lemma safe_Advance_all: "reader_action (\<lambda>B. bind (gets Remaining) (\<lambda>n. seq (Advance B n) (return v)))"
  by (intro reader_intros)

end

sublocale variant_codec \<subseteq> codec "variant_formatter init alts"
  "\<lambda>v. enc_union_tag (variant_tag alts v) @ enc v" ok fits
  unfolding variant_formatter_def
proof (rule class_codecI)
  fix B :: build and v v0 assume ok: "ok v"
  then show "emits B (variant_visit B alts v) (enc_union_tag (variant_tag alts v) @ enc v)"
    by (rule emits_visit)
  have "decodes (fits v) (bind (ReadUnionAlternative B alts v0 (variant_tag alts v)) (\<lambda>(v', handled).
          if \<not> handled then bind (gets Remaining) (\<lambda>n. seq (Advance B n) (return v'))
          else return v')) (enc v) v"
    by (rule decodes_bind_eq [OF decodes_alternative [OF ok], where cs = "[]"]) simp_all
  then show "decodes (fits v) (bind (ReadUnionHeader B) (\<lambda>tag. case tag of
        None \<Rightarrow> return init
      | Some t \<Rightarrow> bind (ReadUnionAlternative B alts v0 t) (\<lambda>(v', handled).
          if \<not> handled then bind (gets Remaining) (\<lambda>n. seq (Advance B n) (return v'))
          else return v'))) (enc_union_tag (variant_tag alts v) @ enc v) v"
    by (intro decodes_bind [OF decodes_ReadUnionHeader]) simp
  show "enc_union_tag (variant_tag alts v) @ enc v \<noteq> []" by (simp add: enc_union_tag_def)
next
  fix v0 show "reader_action (\<lambda>B. bind (ReadUnionHeader B) (\<lambda>tag. case tag of
        None \<Rightarrow> return init
      | Some t \<Rightarrow> bind (ReadUnionAlternative B alts v0 t) (\<lambda>(v', handled).
          if \<not> handled then bind (gets Remaining) (\<lambda>n. seq (Advance B n) (return v'))
          else return v')))"
    by (intro reader_intros safe_alternative)
qed

text \<open>The nullable union of the library: a union tag never is the null byte.\<close>

sublocale variant_codec \<subseteq> union: nullable_object "variant_formatter init alts"
  "\<lambda>v. enc_union_tag (variant_tag alts v) @ enc v" ok fits
proof unfold_locales
  fix v
  have "(ucast t :: byte) \<noteq> 255" if "t < 250" for t :: u16
  proof -
    have "unat t < 250" using that by (simp add: word_less_nat_alt)
    then have "unat (ucast t :: byte) = unat t" by (intro unat_ucast_le) simp
    with \<open>unat t < 250\<close> show ?thesis by (auto simp: word_unat_eq_iff)
  qed
  then show "hd (enc_union_tag (variant_tag alts v) @ enc v) \<noteq> 255"
    by (auto simp: enc_union_tag_def)
qed

section \<open>Tuples\<close>

locale tuple_codec = struct_codec

sublocale tuple_codec \<subseteq> tuple: codec "tuple_formatter init (map fst ms)" "struct_enc ms" "members_ok ms"
  "members_fit ms"
  unfolding tuple_formatter_def
proof (rule class_codecI)
  fix B :: build and v v0 assume ok: "members_ok ms v"
  then show "emits B (WriteTuple B (map fst ms) v) (struct_enc ms v)"
    using emits_struct [of v B] by (simp add: WriteTuple_def IMemoryPackable_Serialize_def)
  have n: "unat (word_of_nat (length ms) :: byte) = length ms" "(word_of_nat (length ms) :: byte) \<le> 249"
    using count by (simp_all add: unat_of_nat take_bit_nat_eq_self word_le_nat_alt)
  have "decodes (members_fit ms v) (read_members B (length ms) 0 (map fst ms) init) (members_enc ms v) v"
    using decodes_read_members [of ms v "members_fit ms v" "length ms" 0 B init] members ok
    by (simp add: complete)
  then show "decodes (members_fit ms v) (ReadTuple B init (map fst ms)) (struct_enc ms v) v"
    unfolding ReadTuple_def struct_enc_def
    by (intro decodes_bind_eq [OF decodes_ReadObjectHeader [OF n(2)]]) (simp_all add: n)
  show "struct_enc ms v \<noteq> []" by (simp add: struct_enc_def)
next
  fix v0 show "reader_action (\<lambda>B. ReadTuple B init (map fst ms))"
    unfolding ReadTuple_def by (intro reader_intros safe_read_members members)
qed

section \<open>Arrays\<close>

text \<open>The array loop stores the elements that fit and drops the rest.\<close>

lemma foldl_array:
  "k \<le> length ys \<Longrightarrow> foldl (\<lambda>(i, v) x. (Suc i, if i < length v then v[i := x] else v)) (k, ys) xs =
     (k + length xs, take k ys @ take (length ys - k) xs @ drop (k + length xs) ys)"
proof (induction xs arbitrary: k ys)
  case (Cons x xs)
  show ?case
  proof (cases "k < length ys")
    case True
    then have "take (Suc k) (ys[k := x]) = take k ys @ [x]"
      by (simp add: take_Suc_conv_app_nth)
    moreover have "length ys - k = Suc (length ys - Suc k)" using True by simp
    ultimately show ?thesis using Cons.IH [of "Suc k" "ys[k := x]"] True by (simp add: drop_update_cancel)
  next
    case False
    have past: "foldl (\<lambda>(i, v) x. (Suc i, if i < length v then v[i := x] else v)) (j, zs) us = (j + length us, zs)"
      if "length zs \<le> j" for j us and zs :: "'a list"
      using that by (induction us arbitrary: j) simp_all
    show ?thesis using False Cons.prems past [of ys k "x # xs"] by simp
  qed
qed simp

text \<open>The guard keeps every assignment inside the array.\<close>

definition array_element :: "build \<Rightarrow> 'a MemoryPackFormatter \<Rightarrow> nat \<times> 'a list \<Rightarrow> (nat \<times> 'a list) rop" where
  "array_element B T = (\<lambda>(i, v).
     bind (Read_value B T) (\<lambda>tmp. return (Suc i, if i < length v then v[i := tmp] else v)))"

lemma read_array_element_inside:
  assumes "length v = N"
  shows "read_array_element B T N (i, v) = array_element B T (i, v)"
  using assms by (auto simp: read_array_element_def array_element_def array_assign_def bind_def return_def fun_eq_iff
      split: prod.split outcome.split)

lemma read_array_inside:
  "length v = N \<Longrightarrow> read_loop n (read_array_element B T N) (i, v) = read_loop n (array_element B T) (i, v)"
proof (induction n arbitrary: i v)
  case (Suc n)
  have "bind (array_element B T (i, v)) (read_loop n (read_array_element B T N)) =
      bind (array_element B T (i, v)) (read_loop n (array_element B T))"
    using Suc by (simp add: array_element_def bind_assoc)
  with Suc.prems show ?case by (simp add: read_array_element_inside cong: if_cong)
qed simp

context codec
begin

lemma decodes_array_loop:
  assumes "all_ok ok vs" "vs \<noteq> []"
  shows "decodes (all_fit fits vs)
      (bind (read_loop (length vs) (read_array_element B T N) (0, replicate N (value_init T))) (\<lambda>(i, v). return v))
      (concat (map enc vs)) (take N vs @ replicate (N - length vs) (value_init T))"
proof -
  have "decodes (all_fit fits vs) (array_element B T acc) (enc v)
      ((\<lambda>(i, a) x. (Suc i, if i < length a then a[i := x] else a)) acc v)" if "v \<in> set vs" for v acc
  proof (cases acc)
    case (Pair i a)
    then show ?thesis unfolding array_element_def
      using decodes_element [of vs v B] assms(1) that
      by (auto simp: all_ok_def intro!: decodes_map)
  qed
  then have "decodes (all_fit fits vs) (read_loop (length vs) (array_element B T) (0, replicate N (value_init T)))
      (concat (map enc vs)) (foldl (\<lambda>(i, a) x. (Suc i, if i < length a then a[i := x] else a))
        (0, replicate N (value_init T)) vs)"
    by (rule decodes_read_loop)
  then have "decodes (all_fit fits vs) (read_loop (length vs) (array_element B T) (0, replicate N (value_init T)))
      (concat (map enc vs)) (length vs, take N vs @ replicate (N - length vs) (value_init T))"
    by (simp add: foldl_array)
  from decodes_map [OF this, of snd] show ?thesis by (simp add: read_array_inside case_prod_beta')
qed

text \<open>Fewer than \<open>N\<close> elements leave the others at their initial value, those behind the first \<open>N\<close> are dropped.\<close>

lemma decodes_any_array:
  assumes "all_ok ok vs"
  shows "decodes (all_fit fits vs) (Read B (array_formatter T N) v0) (enc_collection enc vs)
    (take N vs @ replicate (N - length vs) (value_init T))"
  unfolding array_formatter_def Read_class
proof (rule decodes_counted)
  fix u assume "u \<in> set vs"
  with assms show "1 \<le> length (enc u)" using nonempty [of u] by (auto simp: all_ok_def Suc_leI)
next
  assume "vs \<noteq> []" "\<not> sint (word_of_nat (length vs) :: u32) \<le> 0"
    "unat (word_of_nat (length vs) :: u32) = length vs"
  with decodes_array_loop [of vs B N] assms
  show "decodes (all_fit fits vs) (if sint (word_of_nat (length vs) :: u32) \<le> 0
      then return (replicate N (value_init T))
      else bind (read_loop (unat (word_of_nat (length vs) :: u32)) (read_array_element B T N)
             (0, replicate N (value_init T))) (\<lambda>(i, v). return v)) (concat (map enc vs))
      (take N vs @ replicate (N - length vs) (value_init T))"
    by simp
qed (use assms in \<open>auto simp: all_ok_def all_fit_def\<close>)

lemma array_codec: "codec (array_formatter T N) (enc_collection enc) (\<lambda>vs. all_ok ok vs \<and> length vs = N) (all_fit fits)"
  unfolding array_formatter_def
proof (rule class_codecI)
  fix B :: build and vs v0 :: "'a list" assume v: "all_ok ok vs \<and> length vs = N"
  then show "emits B (WriteCollection B T vs) (enc_collection enc vs)"
    by (intro emits_WriteCollection) (auto simp: all_ok_def)
  show "decodes (all_fit fits vs) (bind (ReadCollectionLength B 1) (\<lambda>len.
        if sint len \<le> 0 then return (replicate N (value_init T))
        else bind (read_loop (unat len) (read_array_element B T N) (0, replicate N (value_init T)))
               (\<lambda>(i, v). return v))) (enc_collection enc vs) vs"
    using decodes_any_array [of vs B N v0] v by (simp add: array_formatter_def)
next
  fix v0 show "reader_action (\<lambda>B. bind (ReadCollectionLength B 1) (\<lambda>len.
        if sint len \<le> 0 then return (replicate N (value_init T))
        else bind (read_loop (unat len) (read_array_element B T N) (0, replicate N (value_init T)))
               (\<lambda>(i, v). return v)))"
    unfolding read_array_inside [OF length_replicate] array_element_def by (intro reader_intros safe_value)
qed simp

end

section \<open>Instances\<close>

text \<open>The container contracts on element types of the library.\<close>

interpretation int_set: set_codec uint32_formatter le_bytes "\<lambda>_. True" "\<lambda>_ _ _. True" std_set "sorted_wrt (<)"
  by unfold_locales

interpretation string_vector_elem: nullable_collection "vector_formatter string_formatter"
  "enc_collection enc_string" "all_ok string_ok" "all_fit (\<lambda>s opts d. string_fits s opts)"
  by (intro nullable_collection.intro string_codec.vector_codec nullable_collection_axioms.intro
      collection_header) (simp add: all_ok_def)

interpretation int_string: two_codecs uint32_formatter le_bytes "\<lambda>_. True" "\<lambda>_ _ _. True"
  string_formatter enc_string string_ok "\<lambda>s opts d. string_fits s opts"
  by unfold_locales

interpretation int_string_map: map_codec uint32_formatter le_bytes "\<lambda>_. True" "\<lambda>_ _ _. True"
  string_formatter enc_string string_ok "\<lambda>s opts d. string_fits s opts"
  std_map "sorted_wrt (\<lambda>a b. fst a < fst b)"
  by unfold_locales

end
