(* ===== verification/Dotnet.thy ===== *)
theory Dotnet
  imports Containers "HOL-Library.Signed_Division"
begin

text \<open>
  \<^verbatim>\<open>dotnet.hpp\<close>: the .NET value types with a fixed-size wire form. \<^verbatim>\<open>Guid\<close> with its text form,
  \<^verbatim>\<open>DateTime\<close>, \<^verbatim>\<open>TimeSpan\<close>, \<^verbatim>\<open>DateTimeOffset\<close>, \<^verbatim>\<open>Decimal\<close>, \<^verbatim>\<open>Half\<close> with its conversions from and
  to \<^verbatim>\<open>float\<close>, the 128-bit integers and the vector types. Text is a list of bytes, a \<^verbatim>\<open>float\<close> its
  IEEE bit pattern, an \<^verbatim>\<open>int64_t\<close> a \<^typ>\<open>64 word\<close> read with \<^const>\<open>sint\<close>. The representation of
  \<^verbatim>\<open>std::chrono::system_clock\<close> time points differs between standard libraries, so the number of clock
  units in 100 ns is a parameter.
\<close>

section \<open>Guid\<close>

record Guid =
  data1 :: u32
  data2 :: u16
  data3 :: u16
  data4 :: bytes

definition Guid_init :: Guid where
  "Guid_init = \<lparr>data1 = 0, data2 = 0, data3 = 0, data4 = replicate 8 0\<rparr>"

text \<open>\<^verbatim>\<open>Guid::FromBytes\<close> for a span of exactly 16 bytes.\<close>

definition Guid_FromBytes :: "endian \<Rightarrow> bytes \<Rightarrow> Guid" where
  "Guid_FromBytes e bs = \<lparr>
     data1 = endian_convert e (of_mem e (take 4 bs)),
     data2 = endian_convert e (of_mem e (take 2 (drop 4 bs))),
     data3 = endian_convert e (of_mem e (take 2 (drop 6 bs))),
     data4 = take 8 (drop 8 bs)\<rparr>"

definition hex :: "byte \<Rightarrow> u64 option" where
  "hex c = (if 48 \<le> c \<and> c \<le> 57 then Some (ucast (c - 48))
     else if 97 \<le> c \<and> c \<le> 102 then Some (ucast (c - 97) + 10)
     else if 65 \<le> c \<and> c \<le> 70 then Some (ucast (c - 65) + 10)
     else None)"

text \<open>\<^verbatim>\<open>readHex\<close> on the digits from position \<open>at\<close>; \<open>None\<close> is the result \<^verbatim>\<open>false\<close>.\<close>

fun readHex_loop :: "u64 \<Rightarrow> bytes \<Rightarrow> u64 option" where
  "readHex_loop v [] = Some v"
| "readHex_loop v (c # cs) = (case hex c of
     None \<Rightarrow> None
   | Some d \<Rightarrow> readHex_loop (push_bit 4 v OR d) cs)"

definition readHex :: "bytes \<Rightarrow> nat \<Rightarrow> nat \<Rightarrow> u64 option" where
  "readHex text at digits = readHex_loop 0 (take digits (drop at text))"

text \<open>The bytes of \<^verbatim>\<open>data4\<close> from index \<open>i\<close> on, in the loop of \<^verbatim>\<open>Guid::Parse\<close>.\<close>

fun parse_node :: "bytes \<Rightarrow> nat \<Rightarrow> nat \<Rightarrow> bytes option" where
  "parse_node text i 0 = Some []"
| "parse_node text i (Suc n) = (case readHex text (24 + i * 2) 2 of
     None \<Rightarrow> None
   | Some v \<Rightarrow> (case parse_node text (Suc i) n of
       None \<Rightarrow> None
     | Some bs \<Rightarrow> Some (ucast v # bs)))"

definition Guid_Parse :: "bytes \<Rightarrow> Guid option" where
  "Guid_Parse text =
     (if length text \<noteq> 36 then None
      else if text ! 8 \<noteq> 45 \<or> text ! 13 \<noteq> 45 \<or> text ! 18 \<noteq> 45 \<or> text ! 23 \<noteq> 45 then None
      else case readHex text 0 8 of None \<Rightarrow> None | Some v1 \<Rightarrow>
        (case readHex text 9 4 of None \<Rightarrow> None | Some v2 \<Rightarrow>
        (case readHex text 14 4 of None \<Rightarrow> None | Some v3 \<Rightarrow>
        (case readHex text 19 2 of None \<Rightarrow> None | Some b0 \<Rightarrow>
        (case readHex text 21 2 of None \<Rightarrow> None | Some b1 \<Rightarrow>
        (case parse_node text 0 6 of None \<Rightarrow> None | Some rest \<Rightarrow>
          Some \<lparr>data1 = ucast v1, data2 = ucast v2, data3 = ucast v3,
                data4 = ucast b0 # ucast b1 # rest\<rparr>))))))"

text \<open>\<^verbatim>\<open>%0nx\<close> of \<^verbatim>\<open>snprintf\<close> for a value of at most \<open>n\<close> hexadecimal digits.\<close>

definition hex_digit :: "u64 \<Rightarrow> byte" where
  "hex_digit d = (if d < 10 then 48 + ucast d else 87 + ucast d)"

primrec hex_format :: "nat \<Rightarrow> u64 \<Rightarrow> bytes" where
  "hex_format 0 v = []"
| "hex_format (Suc n) v = hex_digit (drop_bit (4 * n) v AND 0xF) # hex_format n v"

definition Guid_ToString :: "Guid \<Rightarrow> bytes" where
  "Guid_ToString g =
     hex_format 8 (ucast (data1 g)) @ [45] @ hex_format 4 (ucast (data2 g)) @ [45]
     @ hex_format 4 (ucast (data3 g)) @ [45]
     @ concat (map (\<lambda>b. hex_format 2 (ucast b)) (take 2 (data4 g))) @ [45]
     @ concat (map (\<lambda>b. hex_format 2 (ucast b)) (drop 2 (data4 g)))"

definition Guid_formatter :: "Guid MemoryPackFormatter" where
  "Guid_formatter = class_formatter Guid_init
     (\<lambda>B v. seq (WriteUInt32 B (data1 v)) (seq (WriteUInt16 B (data2 v))
       (seq (WriteUInt16 B (data3 v)) (WriteBytes B (data4 v)))))
     (\<lambda>B v. bind (ReadUInt32 B) (\<lambda>a. bind (ReadUInt16 B) (\<lambda>b. bind (ReadUInt16 B) (\<lambda>c.
       bind (read_times 8 (ReadUInt8 B) []) (\<lambda>d.
         return \<lparr>data1 = a, data2 = b, data3 = c, data4 = d\<rparr>)))))"

section \<open>DateTime, TimeSpan, DateTimeOffset\<close>

definition TICKS_AT_UNIX_EPOCH :: int where "TICKS_AT_UNIX_EPOCH = 621355968000000000"
definition TICKS_PER_SECOND :: int where "TICKS_PER_SECOND = 10000000"

text \<open>\<^verbatim>\<open>enum class DateTimeKind : uint8_t\<close>, as its underlying value.\<close>

type_synonym DateTimeKind = byte

definition Unspecified :: DateTimeKind where "Unspecified = 0"
definition Utc :: DateTimeKind where "Utc = 1"
definition Local :: DateTimeKind where "Local = 2"

record DateTime =
  dateData :: u64

definition GetTicks :: "DateTime \<Rightarrow> u64" where
  "GetTicks dt = dateData dt AND 0x3FFFFFFFFFFFFFFF"

definition GetKind :: "DateTime \<Rightarrow> DateTimeKind" where
  "GetKind dt = ucast (drop_bit 62 (dateData dt) AND 0x3)"

definition FromTicks :: "u64 \<Rightarrow> DateTimeKind \<Rightarrow> DateTime" where
  "FromTicks ticks kind =
     \<lparr>dateData = (ticks AND 0x3FFFFFFFFFFFFFFF) OR push_bit 62 (ucast kind)\<rparr>"

text \<open>Signed 64-bit arithmetic; a result out of range is undefined in C++.\<close>

definition int64 :: "int \<Rightarrow> u64 outcome" where
  "int64 n = (if - (2 ^ 63) \<le> n \<and> n < 2 ^ 63 then Ret (word_of_int n) else UB)"

definition FromTimePoint :: "int \<Rightarrow> int \<Rightarrow> DateTime outcome" where
  "FromTimePoint per since = (case int64 (since sdiv per + TICKS_AT_UNIX_EPOCH) of
     Ret t \<Rightarrow> Ret (FromTicks t Utc) | Throw e \<Rightarrow> Throw e | UB \<Rightarrow> UB)"

definition ToTimePoint :: "int \<Rightarrow> DateTime \<Rightarrow> u64 outcome" where
  "ToTimePoint per dt = int64 ((sint (GetTicks dt) - TICKS_AT_UNIX_EPOCH) * per)"

definition DateTime_formatter :: "DateTime MemoryPackFormatter" where
  "DateTime_formatter = class_formatter \<lparr>dateData = 0\<rparr>
     (\<lambda>B v. WriteUInt64 B (dateData v))
     (\<lambda>B v. bind (ReadUInt64 B) (\<lambda>x. return \<lparr>dateData = x\<rparr>))"

record TimeSpan =
  ticks :: u64

text \<open>\<open>FromDuration\<close> of a duration counted in units of which \<open>per\<close> make 100 ns.\<close>

definition FromDuration :: "int \<Rightarrow> int \<Rightarrow> TimeSpan" where
  "FromDuration per d = \<lparr>ticks = word_of_int (d sdiv per)\<rparr>"

definition ToDuration :: "TimeSpan \<Rightarrow> u64 outcome" where
  "ToDuration t = int64 (sint (ticks t) * 100)"

definition TimeSpan_formatter :: "TimeSpan MemoryPackFormatter" where
  "TimeSpan_formatter = class_formatter \<lparr>ticks = 0\<rparr>
     (\<lambda>B v. WriteInt64 B (ticks v))
     (\<lambda>B v. bind (ReadInt64 B) (\<lambda>x. return \<lparr>ticks = x\<rparr>))"

record DateTimeOffset =
  offsetMinutes :: u16
  dateTime :: DateTime

definition DateTimeOffset_formatter :: "DateTimeOffset MemoryPackFormatter" where
  "DateTimeOffset_formatter = class_formatter \<lparr>offsetMinutes = 0, dateTime = \<lparr>dateData = 0\<rparr>\<rparr>
     (\<lambda>B v. seq (WriteInt16 B (offsetMinutes v))
       (seq (for_each (\<lambda>i. WriteUInt8 B 0) [0 ..< 6 :: nat]) (WriteUInt64 B (dateData (dateTime v)))))
     (\<lambda>B v. bind (ReadInt16 B) (\<lambda>o'. seq (Advance B 6) (bind (ReadUInt64 B) (\<lambda>d.
       return \<lparr>offsetMinutes = o', dateTime = \<lparr>dateData = d\<rparr>\<rparr>))))"

section \<open>Decimal\<close>

record Decimal =
  decimal_bits :: bytes

definition Decimal_formatter :: "Decimal MemoryPackFormatter" where
  "Decimal_formatter = class_formatter \<lparr>decimal_bits = replicate 16 0\<rparr>
     (\<lambda>B v. WriteBytes B (decimal_bits v))
     (\<lambda>B v. bind (read_times 16 (ReadUInt8 B) []) (\<lambda>bs. return \<lparr>decimal_bits = bs\<rparr>))"

section \<open>Half\<close>

record Half =
  half_bits :: u16

text \<open>The exponent is an \<^verbatim>\<open>int32_t\<close>; with an input exponent field of 8 bits it stays between -112
  and 143.\<close>

definition FromFloat :: "u32 \<Rightarrow> Half" where
  "FromFloat x =
     (let sign = drop_bit 16 x AND 0x8000;
          exp = uint (drop_bit 23 x AND 0xFF) - 127 + 15;
          mant = x AND 0x007FFFFF
      in if drop_bit 23 x AND 0xFF = 0xFF then
           \<lparr>half_bits = ucast (sign OR 0x7C00 OR (if mant \<noteq> 0 then 0x0200 else 0))\<rparr>
         else if exp \<ge> 0x1F then \<lparr>half_bits = ucast (sign OR 0x7C00)\<rparr>
         else if exp \<le> 0 then
           if exp < -10 then \<lparr>half_bits = ucast sign\<rparr>
           else let mant = mant OR 0x00800000;
                    shift = nat (14 - exp);
                    sub = drop_bit shift mant;
                    sub = (if drop_bit (shift - 1) mant AND 1 \<noteq> 0 then sub + 1 else sub)
                in \<lparr>half_bits = ucast (sign OR sub)\<rparr>
         else let half = push_bit 10 (word_of_int exp) OR drop_bit 13 mant;
                  half = (if drop_bit 12 mant AND 1 \<noteq> 0 then half + 1 else half)
              in \<lparr>half_bits = ucast (sign OR half)\<rparr>)"

text \<open>\<open>while ((m & 0x0400u) == 0) { m <<= 1; --e; }\<close>; \<open>None\<close> is the loop that never ends.\<close>

partial_function (option) normalise :: "u32 \<Rightarrow> u32 \<Rightarrow> (u32 \<times> u32) option" where
  "normalise m e = (if m AND 0x0400 = 0 then normalise (push_bit 1 m) (e - 1) else Some (m, e))"

definition ToFloat :: "Half \<Rightarrow> u32 outcome" where
  "ToFloat h =
     (let sign = push_bit 16 (ucast (half_bits h AND 0x8000)) :: u32;
          exp = ucast (drop_bit 10 (half_bits h) AND 0x1F) :: u32;
          mant = ucast (half_bits h AND 0x03FF) :: u32
      in if exp = 0 then
           if mant = 0 then Ret sign
           else (case normalise mant (127 - 15 + 1) of
               None \<Rightarrow> UB
             | Some (m, e) \<Rightarrow> Ret (sign OR push_bit 23 e OR push_bit 13 (m AND 0x03FF)))
         else if exp = 0x1F then Ret (sign OR 0x7F800000 OR push_bit 13 mant)
         else Ret (sign OR push_bit 23 (exp - 15 + 127) OR push_bit 13 mant))"

definition Half_formatter :: "Half MemoryPackFormatter" where
  "Half_formatter = class_formatter \<lparr>half_bits = 0\<rparr>
     (\<lambda>B v. WriteUInt16 B (half_bits v))
     (\<lambda>B v. bind (ReadUInt16 B) (\<lambda>x. return \<lparr>half_bits = x\<rparr>))"

section \<open>128-bit integers and vectors\<close>

record Int128 =
  low128 :: u64
  high128 :: u64

definition Int128_formatter :: "Int128 MemoryPackFormatter" where
  "Int128_formatter = class_formatter \<lparr>low128 = 0, high128 = 0\<rparr>
     (\<lambda>B v. seq (WriteUInt64 B (low128 v)) (WriteInt64 B (high128 v)))
     (\<lambda>B v. bind (ReadUInt64 B) (\<lambda>l. bind (ReadInt64 B) (\<lambda>h. return \<lparr>low128 = l, high128 = h\<rparr>)))"

record UInt128 =
  ulow128 :: u64
  uhigh128 :: u64

definition UInt128_formatter :: "UInt128 MemoryPackFormatter" where
  "UInt128_formatter = class_formatter \<lparr>ulow128 = 0, uhigh128 = 0\<rparr>
     (\<lambda>B v. seq (WriteUInt64 B (ulow128 v)) (WriteUInt64 B (uhigh128 v)))
     (\<lambda>B v. bind (ReadUInt64 B) (\<lambda>l. bind (ReadUInt64 B) (\<lambda>h. return \<lparr>ulow128 = l, uhigh128 = h\<rparr>)))"

text \<open>The vector types are unmanaged structs of \<open>n\<close> floats.\<close>

definition Vector2_formatter :: "bytes MemoryPackFormatter" where
  "Vector2_formatter = MEMORYPACK_UNMANAGED 8"

definition Vector3_formatter :: "bytes MemoryPackFormatter" where
  "Vector3_formatter = MEMORYPACK_UNMANAGED 12"

definition Vector4_formatter :: "bytes MemoryPackFormatter" where
  "Vector4_formatter = MEMORYPACK_UNMANAGED 16"

definition Quaternion_formatter :: "bytes MemoryPackFormatter" where
  "Quaternion_formatter = MEMORYPACK_UNMANAGED 16"

section \<open>Codecs\<close>

lemma decodes_read_bytes: "n = length bs \<Longrightarrow> decodes F (read_times n (ReadUInt8 B) []) bs bs"
  using decodes_read_times [of bs F "ReadUInt8 B" "\<lambda>b. [b]" "[]"]
  by (simp add: ReadUInt8_def decodes_ReadByte)

lemma dvd_lengths [simp]: "8 dvd LENGTH(8)" "8 dvd LENGTH(16)" "8 dvd LENGTH(32)" "8 dvd LENGTH(64)"
  by simp_all

lemmas word_operations = raw_operations WriteInt16_def ReadInt16_def WriteInt64_def ReadInt64_def
  WriteUInt8_def ReadUInt8_def WriteBytes_def

definition Guid_enc :: "Guid \<Rightarrow> bytes" where
  "Guid_enc g = le_bytes (data1 g) @ le_bytes (data2 g) @ le_bytes (data3 g) @ data4 g"

interpretation Guid_codec: codec Guid_formatter Guid_enc "\<lambda>g. length (data4 g) = 8" "\<lambda>_ _ _. True"
  unfolding Guid_formatter_def
proof (rule class_codecI)
  fix B :: build and g v0 :: Guid assume len: "length (data4 g) = 8"
  show "emits B (seq (WriteUInt32 B (data1 g)) (seq (WriteUInt16 B (data2 g))
       (seq (WriteUInt16 B (data3 g)) (WriteBytes B (data4 g))))) (Guid_enc g)"
    unfolding word_operations Guid_enc_def by (intro emit_intros)
  have d: "decodes any_limits (bind (read_times 8 (ReadUInt8 B) []) (\<lambda>d.
      return \<lparr>data1 = data1 g, data2 = data2 g, data3 = data3 g, data4 = d\<rparr>)) (data4 g) g"
    using len by (intro decodes_map [OF decodes_read_bytes]) simp_all
  show "decodes any_limits (bind (ReadUInt32 B) (\<lambda>a. bind (ReadUInt16 B) (\<lambda>b. bind (ReadUInt16 B) (\<lambda>c.
       bind (read_times 8 (ReadUInt8 B) []) (\<lambda>d.
         return \<lparr>data1 = a, data2 = b, data3 = c, data4 = d\<rparr>))))) (Guid_enc g) g"
    unfolding Guid_enc_def raw_operations
    by (rule decodes_bind [OF decodes_ReadRaw], simp, rule decodes_bind [OF decodes_ReadRaw], simp,
        rule decodes_bind [OF decodes_ReadRaw], simp, rule d)
  show "Guid_enc g \<noteq> []" by (simp add: Guid_enc_def le_bytes_def)
next
  fix v0 show "reader_action (\<lambda>B. bind (ReadUInt32 B) (\<lambda>a. bind (ReadUInt16 B) (\<lambda>b. bind (ReadUInt16 B) (\<lambda>c.
       bind (read_times 8 (ReadUInt8 B) []) (\<lambda>d.
         return \<lparr>data1 = a, data2 = b, data3 = c, data4 = d\<rparr>)))))"
    unfolding word_operations by (intro reader_intros)
qed

text \<open>\<open>FromBytes\<close> inverts the wire form.\<close>

lemma Guid_FromBytes_enc:
  assumes "length (data4 g) = 8"
  shows "Guid_FromBytes e (Guid_enc g) = g"
  using assms by (simp add: Guid_FromBytes_def Guid_enc_def)

text \<open>Types that are one word on the wire.\<close>

lemma one_word_codec:
  fixes get :: "'s \<Rightarrow> 'a::len word"
  assumes "8 dvd LENGTH('a)" "\<And>v. mk (get v) = v" "0 < sizeof TYPE('a)"
  shows "codec (class_formatter init (\<lambda>B v. WriteRaw B (get v)) (\<lambda>B v. bind (ReadRaw B) (\<lambda>x. return (mk x))))
    (\<lambda>v. le_bytes (get v)) (\<lambda>_. True) (\<lambda>_ _ _. True)"
  using assms
  by (intro class_codecI emits_WriteRaw decodes_map [OF decodes_ReadRaw] reader_intros)
    (auto simp: le_bytes_def)

interpretation DateTime_codec: codec DateTime_formatter "\<lambda>v. le_bytes (dateData v)" "\<lambda>_. True" "\<lambda>_ _ _. True"
  unfolding DateTime_formatter_def word_operations by (rule one_word_codec) simp_all

interpretation TimeSpan_codec: codec TimeSpan_formatter "\<lambda>v. le_bytes (ticks v)" "\<lambda>_. True" "\<lambda>_ _ _. True"
  unfolding TimeSpan_formatter_def word_operations by (rule one_word_codec) simp_all

interpretation Half_codec: codec Half_formatter "\<lambda>v. le_bytes (half_bits v)" "\<lambda>_. True" "\<lambda>_ _ _. True"
  unfolding Half_formatter_def word_operations by (rule one_word_codec) simp_all

text \<open>Types that are two words on the wire.\<close>

lemma two_word_codec:
  fixes get1 :: "'s \<Rightarrow> 'a::len word" and get2 :: "'s \<Rightarrow> 'b::len word"
  assumes "8 dvd LENGTH('a)" "8 dvd LENGTH('b)" "\<And>v. mk (get1 v) (get2 v) = v" "0 < sizeof TYPE('a)"
  shows "codec (class_formatter init (\<lambda>B v. seq (WriteRaw B (get1 v)) (WriteRaw B (get2 v)))
      (\<lambda>B v. bind (ReadRaw B) (\<lambda>x. bind (ReadRaw B) (\<lambda>y. return (mk x y)))))
    (\<lambda>v. le_bytes (get1 v) @ le_bytes (get2 v)) (\<lambda>_. True) (\<lambda>_ _ _. True)"
proof (rule class_codecI)
  fix B :: build and v v0
  show "decodes any_limits (bind (ReadRaw B) (\<lambda>x. bind (ReadRaw B) (\<lambda>y. return (mk x y))))
      (le_bytes (get1 v) @ le_bytes (get2 v)) v"
    using assms by (intro decodes_bind [OF decodes_ReadRaw] decodes_map [OF decodes_ReadRaw]) simp_all
next
  show "\<And>v. le_bytes (get1 v) @ le_bytes (get2 v) \<noteq> []" using assms(4) by (auto simp: le_bytes_def)
qed (intro emit_intros reader_intros)+

interpretation Int128_codec: codec Int128_formatter "\<lambda>v. le_bytes (low128 v) @ le_bytes (high128 v)"
  "\<lambda>_. True" "\<lambda>_ _ _. True"
  unfolding Int128_formatter_def word_operations by (rule two_word_codec) simp_all

interpretation UInt128_codec: codec UInt128_formatter "\<lambda>v. le_bytes (ulow128 v) @ le_bytes (uhigh128 v)"
  "\<lambda>_. True" "\<lambda>_ _ _. True"
  unfolding UInt128_formatter_def word_operations by (rule two_word_codec) simp_all

interpretation Decimal_codec: codec Decimal_formatter decimal_bits "\<lambda>v. length (decimal_bits v) = 16" "\<lambda>_ _ _. True"
  unfolding Decimal_formatter_def WriteBytes_def
proof (rule class_codecI)
  fix B :: build and v v0 :: Decimal assume "length (decimal_bits v) = 16"
  then show "decodes any_limits (bind (read_times 16 (ReadUInt8 B) []) (\<lambda>bs. return \<lparr>decimal_bits = bs\<rparr>))
      (decimal_bits v) v"
    by (intro decodes_map [OF decodes_read_bytes]) simp_all
next
  show "reader_action (\<lambda>B. bind (read_times 16 (ReadUInt8 B) []) (\<lambda>bs. return \<lparr>decimal_bits = bs\<rparr>))"
    unfolding ReadUInt8_def by (intro reader_intros)
qed (auto intro: emit_intros)

definition DateTimeOffset_enc :: "DateTimeOffset \<Rightarrow> bytes" where
  "DateTimeOffset_enc v = le_bytes (offsetMinutes v) @ replicate 6 0 @ le_bytes (dateData (dateTime v))"

interpretation DateTimeOffset_codec: codec DateTimeOffset_formatter DateTimeOffset_enc "\<lambda>_. True" "\<lambda>_ _ _. True"
  unfolding DateTimeOffset_formatter_def
proof (rule class_codecI)
  fix B :: build and v v0 :: DateTimeOffset
  have "emits B (for_each (\<lambda>i. AppendByte B 0) [0 ..< 6 :: nat]) (concat (map (\<lambda>i. [0]) [0 ..< 6 :: nat]))"
    by (intro emit_intros)
  then have "emits B (for_each (\<lambda>i. AppendByte B 0) [0 ..< 6 :: nat]) (replicate 6 0)"
    by (simp add: upt_rec numeral_eq_Suc)
  then show "emits B (seq (WriteInt16 B (offsetMinutes v))
       (seq (for_each (\<lambda>i. WriteUInt8 B 0) [0 ..< 6 :: nat]) (WriteUInt64 B (dateData (dateTime v)))))
      (DateTimeOffset_enc v)"
    unfolding word_operations DateTimeOffset_enc_def by (intro emit_intros)
  have "decodes any_limits (bind (ReadRaw B) (\<lambda>d.
       return \<lparr>offsetMinutes = offsetMinutes v, dateTime = \<lparr>dateData = d\<rparr>\<rparr>)) (le_bytes (dateData (dateTime v))) v"
    by (rule decodes_map [OF decodes_ReadRaw]) simp_all
  from decodes_seq [OF decodes_Advance this, of 6 "replicate 6 0" B]
  show "decodes any_limits (bind (ReadInt16 B) (\<lambda>o'. seq (Advance B 6) (bind (ReadUInt64 B) (\<lambda>d.
       return \<lparr>offsetMinutes = o', dateTime = \<lparr>dateData = d\<rparr>\<rparr>)))) (DateTimeOffset_enc v) v"
    unfolding word_operations DateTimeOffset_enc_def
    by (intro decodes_bind [OF decodes_ReadRaw]) simp_all
  show "DateTimeOffset_enc v \<noteq> []" by (simp add: DateTimeOffset_enc_def)
next
  fix v0 show "reader_action (\<lambda>B. bind (ReadInt16 B) (\<lambda>o'. seq (Advance B 6) (bind (ReadUInt64 B) (\<lambda>d.
       return \<lparr>offsetMinutes = o', dateTime = \<lparr>dateData = d\<rparr>\<rparr>))))"
    unfolding word_operations by (intro reader_intros)
qed

section \<open>Guid text\<close>

lemma length_hex_format [simp]: "length (hex_format n v) = n"
  by (induction n) simp_all

lemma hex_hex_digit_table: "\<forall>n \<in> set [0 ..< 16]. hex (hex_digit (word_of_nat n)) = Some (word_of_nat n)"
  by code_simp

lemma hex_hex_digit: "d < 16 \<Longrightarrow> hex (hex_digit d) = Some d"
  using bspec [OF hex_hex_digit_table, of "unat d"] by (simp add: word_less_nat_alt)

lemma readHex_hex_format:
  "readHex_loop v (hex_format n w) = Some (push_bit (4 * n) v OR take_bit (4 * n) w)"
proof (induction n arbitrary: v)
  case (Suc n)
  let ?d = "drop_bit (4 * n) w AND 0xF"
  have d: "?d = take_bit 4 (drop_bit (4 * n) w)" by (simp add: take_bit_eq_mask mask_eq_exp_minus_1)
  have "unat ?d < 2 ^ 4" unfolding d unsigned_take_bit_eq by (rule take_bit_nat_less_exp)
  then have "?d < 16" by (simp add: word_less_nat_alt)
  then have "readHex_loop v (hex_format (Suc n) w) =
      Some (push_bit (4 * n) (push_bit 4 v OR ?d) OR take_bit (4 * n) w)"
    by (simp add: hex_hex_digit Suc.IH)
  moreover have "push_bit (4 * n) (push_bit 4 v OR ?d) OR take_bit (4 * n) w =
      push_bit (4 * Suc n) v OR take_bit (4 * Suc n) w"
    unfolding d by (rule bit_word_eqI) (auto simp: bit_simps ac_simps)
  ultimately show ?case by simp
qed simp

lemma readHex_at:
  assumes "text = pre @ hex_format n w @ rest" "length pre = at"
  shows "readHex text at n = Some (take_bit (4 * n) w)"
  using assms by (simp add: readHex_def readHex_hex_format)

lemma ucast_take_bit_ucast:
  assumes "LENGTH('a::len) \<le> n" "LENGTH('a) \<le> 64"
  shows "(ucast (take_bit n (ucast (w :: 'a word) :: u64)) :: 'a word) = w"
  using assms by (intro bit_word_eqI) (auto simp: bit_simps)

lemma parse_node_numeral:
  "parse_node text i (numeral k) = (case readHex text (24 + i * 2) 2 of
     None \<Rightarrow> None
   | Some v \<Rightarrow> (case parse_node text (i + 1) (pred_numeral k) of
       None \<Rightarrow> None
     | Some bs \<Rightarrow> Some (ucast v # bs)))"
  "parse_node text i 1 = (case readHex text (24 + i * 2) 2 of
     None \<Rightarrow> None
   | Some v \<Rightarrow> Some [ucast v])"
  by (simp_all only: numeral_eq_Suc [of k] One_nat_def parse_node.simps add_Suc_right add_0_right
      option.case cong: option.case_cong)

lemma Guid_text_round_trip:
  assumes "length (data4 g) = 8"
  shows "Guid_Parse (Guid_ToString g) = Some g"
proof -
  obtain b0 b1 b2 b3 b4 b5 b6 b7 where d: "data4 g = [b0, b1, b2, b3, b4, b5, b6, b7]"
    using assms by (auto simp: numeral_eq_Suc length_Suc_conv)
  let ?h2 = "\<lambda>b :: byte. hex_format 2 (ucast b)"
  let ?t = "Guid_ToString g"
  let ?a = "hex_format 8 (ucast (data1 g)) @ [45]"
  let ?b = "hex_format 4 (ucast (data2 g)) @ [45]"
  let ?c = "hex_format 4 (ucast (data3 g)) @ [45]"
  let ?d = "?h2 b0 @ ?h2 b1 @ [45]"
  have t: "?t = ?a @ ?b @ ?c @ ?d @ ?h2 b2 @ ?h2 b3 @ ?h2 b4 @ ?h2 b5 @ ?h2 b6 @ ?h2 b7"
    by (simp add: Guid_ToString_def d)
  have len: "length ?t = 36" by (simp add: t)
  have dashes: "?t ! 8 = 45" "?t ! 13 = 45" "?t ! 18 = 45" "?t ! 23 = 45"
    by (simp_all add: t nth_append)
  have 1: "readHex ?t 0 8 = Some (take_bit 32 (ucast (data1 g)))"
    using readHex_at [of ?t "[]" 8 "ucast (data1 g)"] by (simp add: t)
  have 2: "readHex ?t 9 4 = Some (take_bit 16 (ucast (data2 g)))"
    using readHex_at [of ?t ?a 4 "ucast (data2 g)"] by (simp add: t)
  have 3: "readHex ?t 14 4 = Some (take_bit 16 (ucast (data3 g)))"
    using readHex_at [of ?t "?a @ ?b" 4 "ucast (data3 g)"] by (simp add: t)
  have 4: "readHex ?t 19 2 = Some (take_bit 8 (ucast b0))"
    using readHex_at [of ?t "?a @ ?b @ ?c" 2 "ucast b0"] by (simp add: t)
  have 5: "readHex ?t 21 2 = Some (take_bit 8 (ucast b1))"
    using readHex_at [of ?t "?a @ ?b @ ?c @ ?h2 b0" 2 "ucast b1"] by (simp add: t)
  let ?p = "?a @ ?b @ ?c @ ?d"
  have 6: "readHex ?t 24 2 = Some (take_bit 8 (ucast b2))"
    using readHex_at [of ?t ?p 2 "ucast b2"] by (simp add: t)
  have 7: "readHex ?t 26 2 = Some (take_bit 8 (ucast b3))"
    using readHex_at [of ?t "?p @ ?h2 b2" 2 "ucast b3"] by (simp add: t)
  have 8: "readHex ?t 28 2 = Some (take_bit 8 (ucast b4))"
    using readHex_at [of ?t "?p @ ?h2 b2 @ ?h2 b3" 2 "ucast b4"] by (simp add: t)
  have 9: "readHex ?t 30 2 = Some (take_bit 8 (ucast b5))"
    using readHex_at [of ?t "?p @ ?h2 b2 @ ?h2 b3 @ ?h2 b4" 2 "ucast b5"] by (simp add: t)
  have 10: "readHex ?t 32 2 = Some (take_bit 8 (ucast b6))"
    using readHex_at [of ?t "?p @ ?h2 b2 @ ?h2 b3 @ ?h2 b4 @ ?h2 b5" 2 "ucast b6"] by (simp add: t)
  have 11: "readHex ?t 34 2 = Some (take_bit 8 (ucast b7))"
    using readHex_at [of ?t "?p @ ?h2 b2 @ ?h2 b3 @ ?h2 b4 @ ?h2 b5 @ ?h2 b6" 2 "ucast b7"] by (simp add: t)
  have "parse_node ?t 0 6 = Some [b2, b3, b4, b5, b6, b7]"
    by (simp add: parse_node_numeral 6 7 8 9 10 11 ucast_take_bit_ucast del: One_nat_def)
  then show ?thesis
    using len dashes 1 2 3 4 5 by (simp add: Guid_Parse_def ucast_take_bit_ucast flip: d)
qed

section \<open>Dates\<close>

lemma mask_62: "(0x3FFFFFFFFFFFFFFF :: u64) = mask 62" "(3 :: u64) = mask 2"
  by (simp_all add: mask_eq_exp_minus_1)

lemma FromTicks_round_trip:
  assumes "t < 2 ^ 62" "k < 4"
  shows "GetTicks (FromTicks t k) = t \<and> GetKind (FromTicks t k) = k"
proof
  have "unat t < 2 ^ 62" "unat k < 2 ^ 2" using assms by (simp_all add: word_less_nat_alt)
  note t = not_bit_above [OF this(1)] and k = not_bit_above [OF this(2)]
  have tb: "n < 62" if "bit t n" for n using t [of n] that by (cases "n < 62") auto
  have kb: "n < 2" if "bit k n" for n using k [of n] that by (cases "n < 2") auto
  show "GetTicks (FromTicks t k) = t"
    by (rule bit_word_eqI) (auto simp: GetTicks_def FromTicks_def mask_62 bit_simps dest: tb)
  show "GetKind (FromTicks t k) = k"
    by (rule bit_word_eqI) (auto simp: GetKind_def FromTicks_def mask_62 bit_simps dest: tb kb)
qed

text \<open>\<open>ToDuration\<close> is defined exactly when the tick count has at most 18 digits or so.\<close>

lemma ToDuration_defined:
  "ToDuration t = (if - 92233720368547758 \<le> sint (ticks t) \<and> sint (ticks t) \<le> 92233720368547758
     then Ret (word_of_int (sint (ticks t) * 100)) else UB)"
  by (auto simp: ToDuration_def int64_def)

section \<open>Half precision\<close>

lemma bit_below: "unat (w :: 'a::len word) < 2 ^ k \<Longrightarrow> bit w n \<Longrightarrow> n < k"
  using not_bit_above [of w k n] by (cases "n < k") auto

lemma masks_32: "(0xFF :: u32) = mask 8" "(0x007FFFFF :: u32) = mask 23" "(0x03FF :: u32) = mask 10"
  "(0x8000 :: u32) = push_bit 15 1" "(1 :: u32) = mask 1" "(0x00800000 :: u32) = push_bit 23 1"
  "(0x0400 :: u32) = push_bit 10 1"
  by (simp_all add: mask_eq_exp_minus_1)

lemma bit_32768_int: "bit (32768 :: int) n \<longleftrightarrow> n = 15"
  using bit_exp_iff [of 15 n, where 'a = int] by auto

lemma bit_8388608_int: "bit (8388608 :: int) n \<longleftrightarrow> n = 23"
  using bit_exp_iff [of 23 n, where 'a = int] by auto

text \<open>A \<^verbatim>\<open>float\<close> put together from its fields.\<close>

definition float_bits :: "bool \<Rightarrow> u32 \<Rightarrow> u32 \<Rightarrow> u32" where
  "float_bits s e m = push_bit 31 (of_bool s) OR push_bit 23 e OR m"

lemma float_fields:
  assumes e: "unat e < 2 ^ 8" and m: "unat m < 2 ^ 23"
  shows "drop_bit 23 (float_bits s e m) AND 0xFF = e" "float_bits s e m AND 0x007FFFFF = m"
    "drop_bit 16 (float_bits s e m) AND 0x8000 = push_bit 15 (of_bool s)"
proof -
  note b = bit_below [OF e] bit_below [OF m]
  show "drop_bit 23 (float_bits s e m) AND 0xFF = e"
    unfolding float_bits_def masks_32 by (rule bit_word_eqI) (auto simp: bit_simps dest: b)
  show "float_bits s e m AND 0x007FFFFF = m"
    unfolding float_bits_def masks_32 by (rule bit_word_eqI) (auto simp: bit_simps dest: b)
  show "drop_bit 16 (float_bits s e m) AND 0x8000 = push_bit 15 (of_bool s)"
    unfolding float_bits_def by (rule bit_word_eqI) (auto simp: bit_simps bit_32768_int dest: b)
qed

lemma bit_10: "m AND 0x0400 = 0 \<longleftrightarrow> even (unat m div 1024)" for m :: u32
proof -
  have "m AND 2 ^ 10 = 0 \<longleftrightarrow> \<not> bit m 10" by (rule and_exp_eq_0_iff_not_bit)
  moreover have "bit m 10 \<longleftrightarrow> bit (unat m) 10" by (simp add: bit_unsigned_iff)
  ultimately show ?thesis by (simp add: bit_iff_odd)
qed

lemma normalise_steps:
  assumes "1024 \<le> unat m * 2 ^ k" "unat m * 2 ^ k < 2048"
  shows "normalise m e = Some (push_bit k m, e - word_of_nat k)"
  using assms
proof (induction k arbitrary: m e)
  case 0
  then have "unat m div 1024 = 1" by (intro div_nat_eqI) simp_all
  then show ?case by (subst normalise.simps) (simp add: bit_10)
next
  case (Suc k)
  have "unat m * 1 \<le> unat m * 2 ^ k" by (intro mult_le_mono2) simp
  then have small: "unat m < 1024" using Suc.prems(2) unfolding power_Suc by linarith
  then have two: "unat (push_bit 1 m) = unat m * 2"
    by (simp add: push_bit_eq_mult unat_word_ariths)
  have "normalise (push_bit 1 m) (e - 1) = Some (push_bit k (push_bit 1 m), e - 1 - word_of_nat k)"
    using Suc.prems by (intro Suc.IH) (simp_all only: two power_Suc ac_simps)
  then show ?case using small by (subst normalise.simps) (simp add: bit_10 ac_simps)
qed

text \<open>Every non-zero mantissa is normalised in at most ten steps.\<close>

lemma normalise_exists:
  assumes "0 < n" "n < (1024 :: nat)"
  obtains k where "1 \<le> k" "k \<le> 10" "1024 \<le> n * 2 ^ k" "n * 2 ^ k < 2048"
proof -
  have "\<exists>p \<le> 9. 2 ^ p \<le> n \<and> n < 2 * 2 ^ p"
  proof -
    obtain p where p: "2 ^ p \<le> n" "n < 2 ^ (p + 1)" using assms(1) ex_power_ivl1 [of 2 n] by auto
    have "p < 10"
    proof (rule ccontr)
      assume "\<not> p < 10"
      then have "(2 :: nat) ^ 10 \<le> 2 ^ p" by (intro power_increasing) simp_all
      with p(1) assms(2) show False by simp
    qed
    with p show ?thesis by (intro exI [of _ p]) simp
  qed
  then obtain p where p: "p \<le> 9" "2 ^ p \<le> n" "n < 2 * 2 ^ p" by blast
  have e: "(2 :: nat) ^ p * 2 ^ (10 - p) = 1024" using p(1) by (simp flip: power_add)
  have "1024 \<le> n * 2 ^ (10 - p)" using mult_le_mono1 [OF p(2), of "2 ^ (10 - p)"] e by simp
  moreover have "n * 2 ^ (10 - p) < 2 * 2 ^ p * 2 ^ (10 - p)" using p(3) by (intro mult_strict_right_mono) simp_all
  ultimately show ?thesis using that [of "10 - p"] p(1) e by (simp add: ac_simps)
qed

lemma masks_16: "(0x1F :: u16) = mask 5" "(0x03FF :: u16) = mask 10" "(0x8000 :: u16) = push_bit 15 1"
  by (simp_all add: mask_eq_exp_minus_1)

lemma unat_mask_less: "unat (w AND mask n :: 'a::len word) < 2 ^ n"
proof -
  have "unat (w AND mask n) = take_bit n (unat w)" by (simp add: unsigned_take_bit_eq flip: take_bit_eq_mask)
  then show ?thesis by simp
qed

text \<open>A \<^verbatim>\<open>Half\<close> taken apart into its fields.\<close>

lemma half_fields:
  fixes b :: u16
  defines "e \<equiv> ucast (drop_bit 10 b AND 0x1F) :: u32" and "m \<equiv> ucast (b AND 0x03FF) :: u32"
  shows "unat e < 32" "unat m < 1024"
    "b = ucast (push_bit 15 (of_bool (bit b 15)) OR push_bit 10 e OR m)"
    "push_bit 16 (ucast (b AND 0x8000)) = (push_bit 31 (of_bool (bit b 15)) :: u32)"
proof -
  have "unat (drop_bit 10 b AND 0x1F) < 2 ^ 5" "unat (b AND 0x03FF) < 2 ^ 10"
    unfolding masks_16 by (rule unat_mask_less)+
  then show "unat e < 32" "unat m < 1024" by (simp_all add: e_def m_def unat_ucast_le)
  show "b = ucast (push_bit 15 (of_bool (bit b 15)) OR push_bit 10 e OR m)"
  proof (rule bit_word_eqI)
    fix n assume "n < LENGTH(16)"
    then have "n = 15 \<or> n < 15" by auto
    then show "bit b n = bit (ucast (push_bit 15 (of_bool (bit b 15)) OR push_bit 10 e OR m) :: u16) n"
      unfolding e_def m_def masks_16 by (auto simp: bit_simps)
  qed
  show "push_bit 16 (ucast (b AND 0x8000)) = (push_bit 31 (of_bool (bit b 15)) :: u32)"
  proof (rule bit_word_eqI)
    fix n assume "n < LENGTH(32)"
    then have "n = 31 \<or> n < 31" by auto
    then show "bit (push_bit 16 (ucast (b AND 0x8000)) :: u32) n = bit (push_bit 31 (of_bool (bit b 15)) :: u32) n"
      by (auto simp: bit_simps bit_32768_int)
  qed
qed

definition is_nan :: "Half \<Rightarrow> bool" where
  "is_nan h \<longleftrightarrow> drop_bit 10 (half_bits h) AND 0x1F = 0x1F \<and> half_bits h AND 0x03FF \<noteq> 0"

lemma FromFloat_normal:
  assumes e: "0 < unat e" "unat e < 31" and m: "unat m < 1024"
  shows "FromFloat (float_bits s (e + 112) (push_bit 13 m)) =
    \<lparr>half_bits = ucast (push_bit 15 (of_bool s) OR push_bit 10 e OR m)\<rparr>"
proof -
  have e': "unat (e + 112) = unat e + 112" using e by (simp add: unat_word_ariths)
  have m': "unat (push_bit 13 m) = unat m * 8192" using m by (simp add: push_bit_eq_mult unat_word_ariths)
  have f: "drop_bit 23 (float_bits s (e + 112) (push_bit 13 m)) AND 0xFF = e + 112"
    "float_bits s (e + 112) (push_bit 13 m) AND 0x007FFFFF = push_bit 13 m"
    "drop_bit 16 (float_bits s (e + 112) (push_bit 13 m)) AND 0x8000 = push_bit 15 (of_bool s)"
    using float_fields [of "e + 112" "push_bit 13 m" s] e e' m m' by simp_all
  have ne: "e + 112 \<noteq> 0xFF" using e e' by (auto simp: word_unat_eq_iff)
  have "int (unat (e + 112)) = int (unat e) + 112" "0 < int (unat e)" "int (unat e) < 31"
    unfolding e' using e by linarith+
  then have u: "uint (e + 112) = uint e + 112" "0 < uint e" "uint e < 31" by simp_all
  have r: "drop_bit 12 (push_bit 13 m) AND 1 = 0"
    unfolding masks_32 by (rule bit_word_eqI) (auto simp: bit_simps)
  have d: "drop_bit 13 (push_bit 13 m) = m"
    using bit_below [of m 10] m by (intro bit_word_eqI) (fastforce simp: bit_simps)
  show ?thesis unfolding FromFloat_def Let_def f using ne u r d by (simp add: or.assoc)
qed

lemma FromFloat_subnormal:
  assumes k: "1 \<le> k" "k \<le> 10" and m: "1024 \<le> unat m * 2 ^ k" "unat m * 2 ^ k < 2048"
  shows "FromFloat (float_bits s (113 - word_of_nat k) (push_bit 13 (push_bit k m AND 0x03FF))) =
    \<lparr>half_bits = ucast (push_bit 15 (of_bool s) OR m)\<rparr>"
proof -
  let ?M = "push_bit k m" and ?e = "113 - word_of_nat k :: u32"
  have low: "unat m < 2 ^ (11 - k)"
  proof -
    have "(2 :: nat) ^ (11 - k) * 2 ^ k = 2048" using k by (simp flip: power_add)
    with m(2) have "unat m * 2 ^ k < 2 ^ (11 - k) * 2 ^ k" by simp
    then show ?thesis by simp
  qed
  note mb = bit_below [OF low]
  have mk: "word_of_nat k \<le> (113 :: u32)" "unat (word_of_nat k :: u32) = k"
    using k by (simp_all add: word_le_nat_alt unat_of_nat_32)
  have e: "unat ?e = 113 - k" using mk k by (simp add: unat_sub)
  have "unat (?M AND 0x03FF) < 2 ^ 10" unfolding masks_32 by (rule unat_mask_less)
  then have frac: "unat (push_bit 13 (?M AND 0x03FF)) < 2 ^ 23"
    by (simp add: push_bit_eq_mult unat_word_ariths)
  have f: "drop_bit 23 (float_bits s ?e (push_bit 13 (?M AND 0x03FF))) AND 0xFF = ?e"
    "float_bits s ?e (push_bit 13 (?M AND 0x03FF)) AND 0x007FFFFF = push_bit 13 (?M AND 0x03FF)"
    "drop_bit 16 (float_bits s ?e (push_bit 13 (?M AND 0x03FF))) AND 0x8000 = push_bit 15 (of_bool s)"
    using float_fields [of ?e "push_bit 13 (?M AND 0x03FF)" s] e frac by simp_all
  have top: "bit m (10 - k)"
  proof -
    have "(2 :: nat) ^ (10 - k) * 2 ^ k = 1024" using k by (simp flip: power_add)
    with m(1) have "2 ^ (10 - k) * 2 ^ k \<le> unat m * 2 ^ k" by simp
    then have "2 ^ (10 - k) \<le> unat m" by simp
    moreover have "11 - k = Suc (10 - k)" using k by simp
    then have "unat m < 2 * 2 ^ (10 - k)" using low by simp
    ultimately have "unat m div 2 ^ (10 - k) = 1" by (intro div_nat_eqI) simp_all
    then have "bit (unat m) (10 - k)" by (simp add: bit_iff_odd)
    then show ?thesis by (simp add: bit_unsigned_iff)
  qed
  have mant: "push_bit 13 (?M AND 0x03FF) OR 0x00800000 = push_bit (13 + k) m"
  proof (rule bit_word_eqI)
    fix n assume "n < LENGTH(32)"
    consider "n = 23" | "n < 23" | "23 < n" by linarith
    then show "bit (push_bit 13 (?M AND 0x03FF) OR 0x00800000) n = bit (push_bit (13 + k) m) n"
    proof cases
      case 1
      then show ?thesis using top k by (simp add: bit_simps bit_8388608_int)
    next
      case 2
      then show ?thesis using k by (auto simp: bit_simps bit_8388608_int masks_32(3) diff_diff_left)
    next
      case 3
      then have "\<not> bit m (n - (13 + k))" using mb [of "n - (13 + k)"] k by auto
      with 3 show ?thesis using k by (auto simp: bit_simps bit_8388608_int masks_32(3) dest: mb)
    qed
  qed
  have d: "drop_bit (13 + k) (push_bit (13 + k) m) = m"
    using k mb by (intro bit_word_eqI) (fastforce simp: bit_simps)
  have r: "drop_bit (12 + k) (push_bit (13 + k) m) AND 1 = 0"
    unfolding masks_32 by (rule bit_word_eqI) (auto simp: bit_simps)
  have "int (unat ?e) = 113 - int k" unfolding e using k by simp
  then have u: "uint ?e = 113 - int k" by simp
  have ne: "?e \<noteq> 0xFF" using e by (auto simp: word_unat_eq_iff)
  have sh: "nat (14 - (uint ?e - 127 + 15)) = 13 + k" "nat (14 - (uint ?e - 127 + 15)) - 1 = 12 + k"
    unfolding u by simp_all
  show ?thesis unfolding FromFloat_def Let_def f mant sh d r using k ne by (simp add: u r)
qed

lemma FromFloat_special:
  "FromFloat (float_bits s 0 0) = \<lparr>half_bits = ucast (push_bit 15 (of_bool s) :: u32)\<rparr>"
  "FromFloat (float_bits s 0xFF 0) = \<lparr>half_bits = ucast (push_bit 15 (of_bool s) OR 0x7C00 :: u32)\<rparr>"
  using float_fields [where e = 0 and m = 0 and s = s] float_fields [where e = "0xFF" and m = 0 and s = s]
  by (simp_all add: FromFloat_def Let_def)

lemma Half_ToFloat_FromFloat:
  assumes "\<not> is_nan h"
  shows "\<exists>x. ToFloat h = Ret x \<and> FromFloat x = h"
proof -
  define e where "e = (ucast (drop_bit 10 (half_bits h) AND 0x1F) :: u32)"
  define m where "m = (ucast (half_bits h AND 0x03FF) :: u32)"
  define s where "s = bit (half_bits h) 15"
  note h = half_fields [of "half_bits h", folded e_def m_def s_def]
  have hb: "h = \<lparr>half_bits = ucast (push_bit 15 (of_bool s) OR push_bit 10 e OR m)\<rparr>"
    using h(3) by (cases h) simp
  have tf: "ToFloat h = (if e = 0 then if m = 0 then Ret (push_bit 31 (of_bool s))
           else (case normalise m 113 of None \<Rightarrow> UB
             | Some (m, e) \<Rightarrow> Ret (push_bit 31 (of_bool s) OR push_bit 23 e OR push_bit 13 (m AND 0x03FF)))
         else if e = 0x1F then Ret (push_bit 31 (of_bool s) OR 0x7F800000 OR push_bit 13 m)
         else Ret (push_bit 31 (of_bool s) OR push_bit 23 (e - 15 + 127) OR push_bit 13 m))"
    unfolding ToFloat_def Let_def h(4) by (simp flip: e_def m_def)
  consider (zero) "e = 0" "m = 0" | (sub) "e = 0" "m \<noteq> 0" | (inf) "e = 0x1F" | (norm) "e \<noteq> 0" "e \<noteq> 0x1F"
    by blast
  then show ?thesis
  proof cases
    case zero
    then show ?thesis using FromFloat_special(1) [of s] tf by (simp add: float_bits_def hb [symmetric]) (simp add: hb)
  next
    case sub
    then have "0 < unat m" by (simp add: unat_gt_0)
    from normalise_exists [OF this h(2)] obtain k
      where k: "1 \<le> k" "k \<le> 10" "1024 \<le> unat m * 2 ^ k" "unat m * 2 ^ k < 2048" .
    show ?thesis using sub tf normalise_steps [OF k(3,4), of 113] FromFloat_subnormal [OF k, of s]
      by (simp add: float_bits_def or.assoc) (simp add: hb)
  next
    case inf
    then have "unat (drop_bit 10 (half_bits h) AND 0x1F) = 31"
      using unat_ucast_le [of "drop_bit 10 (half_bits h) AND 0x1F", where 'b = 32]
        order_less_trans [OF unsigned_less [of "drop_bit 10 (half_bits h) AND 0x1F", where 'a = nat], of "2 ^ 32"]
      by (simp add: e_def)
    then have "drop_bit 10 (half_bits h) AND 0x1F = 0x1F" by (simp add: word_unat_eq_iff)
    then have "m = 0" using assms by (simp add: is_nan_def m_def)
    then show ?thesis using inf tf FromFloat_special(2) [of s]
      by (simp add: float_bits_def) (simp add: hb)
  next
    case norm
    have e: "0 < unat e" using norm by (simp add: unat_gt_0)
    have "unat e \<noteq> 31" using norm(2) by (auto simp: word_unat_eq_iff)
    then have "unat e < 31" using h(1) by simp
    from FromFloat_normal [OF e this h(2), of s]
    have "FromFloat (float_bits s (e + 112) (push_bit 13 m)) = h" by (simp only: hb [symmetric])
    moreover have "e - 15 + 127 = e + 112" by simp
    then have "ToFloat h = Ret (float_bits s (e + 112) (push_bit 13 m))"
      unfolding tf using norm by (simp only: if_False float_bits_def or.assoc)
    ultimately show ?thesis by blast
  qed
qed

end
