(* ===== verification/Structs.thy ===== *)
theory Structs
  imports Dotnet
begin

text \<open>
  What the sample protocols share: the contribution of a member of each type they use to the
  encoding of a struct (\<open>member_spec\<close>), as rules \<open>struct_members\<close> that discharge the first law of
  \<open>struct_codec\<close> for a struct described by \<^verbatim>\<open>MEMORYPACK_DEFINE\<close>. \<open>message_codec\<close> is what decoding into a
  fresh object relies on, \<open>dispatch_as\<close> one line of the generated dispatch tables.
\<close>

named_theorems struct_members "a member of a struct satisfies its specification"

definition word_field :: "('s \<Rightarrow> 'a::len word) \<Rightarrow> ('a word \<Rightarrow> 's \<Rightarrow> 's) \<Rightarrow> 's member_spec" where
  "word_field = field le_bytes (\<lambda>_. True) (\<lambda>_ _ _. True)"

definition bool_field :: "('s \<Rightarrow> bool) \<Rightarrow> (bool \<Rightarrow> 's \<Rightarrow> 's) \<Rightarrow> 's member_spec" where
  "bool_field = field (\<lambda>b. [if b then 1 else 0]) (\<lambda>_. True) (\<lambda>_ _ _. True)"

definition string_field :: "('s \<Rightarrow> bytes) \<Rightarrow> (bytes \<Rightarrow> 's \<Rightarrow> 's) \<Rightarrow> 's member_spec" where
  "string_field = field enc_string string_ok (\<lambda>s opts d. string_fits s opts)"

definition vector_field :: "('s \<Rightarrow> 'a::len word list) \<Rightarrow> ('a word list \<Rightarrow> 's \<Rightarrow> 's) \<Rightarrow> 's member_spec" where
  "vector_field = field (enc_collection le_bytes) (all_ok (\<lambda>_. True)) (all_fit (\<lambda>_ _ _. True))"

definition strings_field :: "('s \<Rightarrow> bytes list) \<Rightarrow> (bytes list \<Rightarrow> 's \<Rightarrow> 's) \<Rightarrow> 's member_spec" where
  "strings_field = field (enc_collection enc_string) (all_ok string_ok) (all_fit (\<lambda>s opts d. string_fits s opts))"

definition raw_field :: "size_t \<Rightarrow> ('s \<Rightarrow> bytes) \<Rightarrow> (bytes \<Rightarrow> 's \<Rightarrow> 's) \<Rightarrow> 's member_spec" where
  "raw_field sz = field (\<lambda>v. v) (\<lambda>v. length v = sz) (\<lambda>_ _ _. True)"

definition objects_field :: "'a layout \<Rightarrow> ('s \<Rightarrow> 'a list) \<Rightarrow> ('a list \<Rightarrow> 's \<Rightarrow> 's) \<Rightarrow> 's member_spec" where
  "objects_field ms = field (enc_collection (struct_enc ms)) (all_ok (members_ok ms)) (all_fit (struct_fits ms))"

lemmas field_specs = word_field_def bool_field_def string_field_def vector_field_def strings_field_def
  raw_field_def objects_field_def

lemma field_spec_simps [simp]:
  "m_enc (word_field g1 p1) s = le_bytes (g1 s)" "m_ok (word_field g1 p1) s \<longleftrightarrow> True"
  "m_fits (word_field g1 p1) s opts d \<longleftrightarrow> True" "m_copy (word_field g1 p1) s v = p1 (g1 s) v"
  "m_enc (bool_field g2 p2) s = [if g2 s then 1 else 0]" "m_ok (bool_field g2 p2) s \<longleftrightarrow> True"
  "m_fits (bool_field g2 p2) s opts d \<longleftrightarrow> True" "m_copy (bool_field g2 p2) s v = p2 (g2 s) v"
  "m_enc (string_field g3 p3) s = enc_string (g3 s)" "m_ok (string_field g3 p3) s \<longleftrightarrow> string_ok (g3 s)"
  "m_fits (string_field g3 p3) s opts d \<longleftrightarrow> string_fits (g3 s) opts" "m_copy (string_field g3 p3) s v = p3 (g3 s) v"
  "m_enc (vector_field g4 p4) s = enc_collection le_bytes (g4 s)" "m_ok (vector_field g4 p4) s \<longleftrightarrow> all_ok (\<lambda>_. True) (g4 s)"
  "m_fits (vector_field g4 p4) s opts d \<longleftrightarrow> all_fit (\<lambda>_ _ _. True) (g4 s) opts d" "m_copy (vector_field g4 p4) s v = p4 (g4 s) v"
  "m_enc (strings_field g5 p5) s = enc_collection enc_string (g5 s)" "m_ok (strings_field g5 p5) s \<longleftrightarrow> all_ok string_ok (g5 s)"
  "m_fits (strings_field g5 p5) s opts d \<longleftrightarrow> all_fit (\<lambda>s opts d. string_fits s opts) (g5 s) opts d" "m_copy (strings_field g5 p5) s v = p5 (g5 s) v"
  "m_enc (raw_field sz g6 p6) s = g6 s" "m_ok (raw_field sz g6 p6) s \<longleftrightarrow> length (g6 s) = sz"
  "m_fits (raw_field sz g6 p6) s opts d \<longleftrightarrow> True" "m_copy (raw_field sz g6 p6) s v = p6 (g6 s) v"
  "m_enc (objects_field ms g7 p7) s = enc_collection (struct_enc ms) (g7 s)" "m_ok (objects_field ms g7 p7) s \<longleftrightarrow> all_ok (members_ok ms) (g7 s)"
  "m_fits (objects_field ms g7 p7) s opts d \<longleftrightarrow> all_fit (struct_fits ms) (g7 s) opts d" "m_copy (objects_field ms g7 p7) s v = p7 (g7 s) v"
  by (simp_all add: field_specs)

lemma word_members [struct_members]:
  "member_codec (member uint8_formatter g p) (word_field g p)"
  "member_codec (member uint16_formatter g' p') (word_field g' p')"
  "member_codec (member uint32_formatter g1 p1) (word_field g1 p1)"
  "member_codec (member uint64_formatter g2 p2) (word_field g2 p2)"
  "member_codec (member float_formatter g1 p1) (word_field g1 p1)"
  "member_codec (member double_formatter g2 p2) (word_field g2 p2)"
  unfolding word_field_def
  by (rule uint8_codec.member_field uint16_codec.member_field uint32_codec.member_field
      uint64_codec.member_field float_codec.member_field double_codec.member_field)+

lemma bool_member [struct_members]: "member_codec (member bool_formatter g p) (bool_field g p)"
  unfolding bool_field_def by (rule bool_codec.member_field)

lemma string_member [struct_members]: "member_codec (member string_formatter g p) (string_field g p)"
  unfolding string_field_def by (rule string_codec.member_field)

lemma vector_members [struct_members]:
  "member_codec (member vector_formatter_arith g8 p8) (vector_field (g8 :: 's \<Rightarrow> 8 word list) p8)"
  "member_codec (member vector_formatter_arith g16 p16) (vector_field (g16 :: 's \<Rightarrow> 16 word list) p16)"
  "member_codec (member vector_formatter_arith g32 p32) (vector_field (g32 :: 's \<Rightarrow> 32 word list) p32)"
  "member_codec (member vector_formatter_arith g64 p64) (vector_field (g64 :: 's \<Rightarrow> 64 word list) p64)"
  unfolding vector_field_def by (intro codec.member_field vector_arith_codec; simp)+

lemma strings_member [struct_members]:
  "member_codec (member (vector_formatter string_formatter) g p) (strings_field g p)"
  unfolding strings_field_def by (intro codec.member_field string_codec.vector_codec)

lemma raw_member [struct_members]:
  "0 < sz \<Longrightarrow> member_codec (member (MEMORYPACK_UNMANAGED sz) g p) (raw_field sz g p)"
  unfolding raw_field_def by (intro codec.member_field unmanaged_codec)

context struct_codec
begin

lemma objects_member:
  "member_codec (member (vector_formatter (MEMORYPACK_DEFINE init (map fst ms))) g p) (objects_field ms g p)"
  unfolding objects_field_def by (rule codec.member_field [OF vector_codec])

end

section \<open>Messages\<close>

locale message_codec =
  fixes T :: "'a MemoryPackFormatter" and enc :: "'a \<Rightarrow> bytes" and ok :: "'a \<Rightarrow> bool"
    and fits :: "'a \<Rightarrow> ReaderOptions \<Rightarrow> nat \<Rightarrow> bool"
  assumes message_writes: "ok v \<Longrightarrow> emits B (Write B T v) (enc v)"
    and message_reads: "ok v \<Longrightarrow> decodes (fits v) (Read B T (value_init T)) (enc v) v"
    and message_safe: "reader_action (\<lambda>B. Read B T (value_init T))"
begin

lemma Serialize_message: "ok v \<Longrightarrow> length (enc v) \<le> 2 ^ 62 \<Longrightarrow> Serialize B T v = Ret (enc v)"
  by (intro Serialize_emits message_writes)

lemma Deserialize_message:
  assumes "ok v" "fits v default_options 0" "length (enc v) < 2 ^ 63"
  shows "Deserialize B T (enc v) = Ret v"
proof -
  let ?r = "make_reader (enc v)"
  have "Read B T (value_init T) ?r = (Ret v, ?r\<lparr>r_pos := r_pos ?r + length (enc v)\<rparr>)"
    by (rule decodesD [OF message_reads [OF assms(1)], where rest = "[]"])
      (use assms in \<open>simp_all add: make_reader_def make_reader_with_def reader_inv_def\<close>)
  then show ?thesis by (simp add: Deserialize_def)
qed

lemma Deserialize_defined: "length body < 2 ^ 63 \<Longrightarrow> Deserialize B T body \<noteq> UB"
  using reader_action.no_UB [OF message_safe, of "make_reader body" B] by (simp add: Deserialize_def make_reader_def)

lemmas message_try_total = TryDeserialize_total [OF message_safe]
lemmas message_try_builds = TryDeserialize_builds [OF message_safe]

end

sublocale codec \<subseteq> message_codec T enc ok fits
  by (rule message_codec.intro) (simp_all add: writes reads safe)

section \<open>Dispatch\<close>

text \<open>\<open>auto v = memorypack::Deserialize<T>(body); handler(v); return true;\<close>\<close>

definition dispatch_as :: "build \<Rightarrow> 'a MemoryPackFormatter \<Rightarrow> ('a \<Rightarrow> ('s, unit) op) \<Rightarrow> bytes \<Rightarrow> ('s, bool) op" where
  "dispatch_as B T handler body =
     bind (\<lambda>st. (Deserialize B T body, st)) (\<lambda>v. seq (handler v) (return True))"

context message_codec
begin

lemma dispatch_as_enc:
  assumes "ok v" "fits v default_options 0" "length (enc v) < 2 ^ 63"
  shows "dispatch_as B T handler (enc v) = seq (handler v) (return True)"
  unfolding dispatch_as_def using Deserialize_message [OF assms] by (intro ext) simp

lemma dispatch_as_defined:
  assumes "length body < 2 ^ 63" "\<And>v st. fst (handler v st) \<noteq> UB"
  shows "fst (dispatch_as B T handler body st) \<noteq> UB"
proof (cases "Deserialize B T body")
  case (Ret v)
  then show ?thesis using assms(2) [of v st]
    by (cases "handler v st" rule: outcome_state_cases) (simp_all add: dispatch_as_def seq_def)
qed (use Deserialize_defined [OF assms(1)] in \<open>simp_all add: dispatch_as_def bind_def\<close>)

end

end
