(* ===== verification/ServerPackets.thy ===== *)
theory ServerPackets
  imports Structs Packet
begin

text \<open>
  The protocol of the C++ server sample (\<^verbatim>\<open>samples/CppServer/packets.hpp\<close>): the packet identifiers,
  the seven structs and their generated serializers. Every struct is an interpretation of
  \<open>struct_codec\<close>, and with the default header policy of \<open>packet_codec\<close>.
\<close>

datatype PacketId = EchoRequestId | EchoResponseId | SumRequestId | SumResponseId | SpawnRequestId | SpawnResponseId

fun PacketId_value :: "PacketId \<Rightarrow> u16" where
  "PacketId_value EchoRequestId = 201"
| "PacketId_value EchoResponseId = 202"
| "PacketId_value SumRequestId = 203"
| "PacketId_value SumResponseId = 204"
| "PacketId_value SpawnRequestId = 205"
| "PacketId_value SpawnResponseId = 206"

record EchoRequest =
  erq_seq :: u32
  erq_text :: bytes

record EchoResponse =
  ers_seq :: u32
  ers_text :: bytes
  ers_serverTimeTicks :: u64

record SumRequest =
  srq_values :: "u32 list"

record SumResponse =
  srs_total :: u64

record Entity =
  ent_id :: u32
  ent_position :: bytes
  ent_name :: bytes

record SpawnRequest =
  sprq_count :: u32

record SpawnResponse =
  sprs_entities :: "Entity list"

definition EchoRequest_members :: "EchoRequest member list" where
  "EchoRequest_members = [member uint32_formatter erq_seq (\<lambda>x. erq_seq_update (\<lambda>_. x)),
     member string_formatter erq_text (\<lambda>x. erq_text_update (\<lambda>_. x))]"

definition EchoResponse_members :: "EchoResponse member list" where
  "EchoResponse_members = [member uint32_formatter ers_seq (\<lambda>x. ers_seq_update (\<lambda>_. x)),
     member string_formatter ers_text (\<lambda>x. ers_text_update (\<lambda>_. x)),
     member uint64_formatter ers_serverTimeTicks (\<lambda>x. ers_serverTimeTicks_update (\<lambda>_. x))]"

definition SumRequest_members :: "SumRequest member list" where
  "SumRequest_members = [member vector_formatter_arith srq_values (\<lambda>x. srq_values_update (\<lambda>_. x))]"

definition SumResponse_members :: "SumResponse member list" where
  "SumResponse_members = [member uint64_formatter srs_total (\<lambda>x. srs_total_update (\<lambda>_. x))]"

definition Entity_members :: "Entity member list" where
  "Entity_members = [member uint32_formatter ent_id (\<lambda>x. ent_id_update (\<lambda>_. x)),
     member Vector3_formatter ent_position (\<lambda>x. ent_position_update (\<lambda>_. x)),
     member string_formatter ent_name (\<lambda>x. ent_name_update (\<lambda>_. x))]"

definition Entity_init :: Entity where
  "Entity_init = \<lparr>ent_id = 0, ent_position = replicate 12 0, ent_name = []\<rparr>"

definition EchoRequest_formatter :: "EchoRequest MemoryPackFormatter" where
  "EchoRequest_formatter = MEMORYPACK_DEFINE \<lparr>erq_seq = 0, erq_text = []\<rparr> EchoRequest_members"

definition EchoResponse_formatter :: "EchoResponse MemoryPackFormatter" where
  "EchoResponse_formatter = MEMORYPACK_DEFINE \<lparr>ers_seq = 0, ers_text = [], ers_serverTimeTicks = 0\<rparr> EchoResponse_members"

definition SumRequest_formatter :: "SumRequest MemoryPackFormatter" where
  "SumRequest_formatter = MEMORYPACK_DEFINE \<lparr>srq_values = []\<rparr> SumRequest_members"

definition SumResponse_formatter :: "SumResponse MemoryPackFormatter" where
  "SumResponse_formatter = MEMORYPACK_DEFINE \<lparr>srs_total = 0\<rparr> SumResponse_members"

definition Entity_formatter :: "Entity MemoryPackFormatter" where
  "Entity_formatter = MEMORYPACK_DEFINE Entity_init Entity_members"

definition SpawnRequest_members :: "SpawnRequest member list" where
  "SpawnRequest_members = [member uint32_formatter sprq_count (\<lambda>x. sprq_count_update (\<lambda>_. x))]"

definition SpawnRequest_formatter :: "SpawnRequest MemoryPackFormatter" where
  "SpawnRequest_formatter = MEMORYPACK_DEFINE \<lparr>sprq_count = 0\<rparr> SpawnRequest_members"

definition SpawnResponse_members :: "SpawnResponse member list" where
  "SpawnResponse_members =
     [member (vector_formatter Entity_formatter) sprs_entities (\<lambda>x. sprs_entities_update (\<lambda>_. x))]"

definition SpawnResponse_formatter :: "SpawnResponse MemoryPackFormatter" where
  "SpawnResponse_formatter = MEMORYPACK_DEFINE \<lparr>sprs_entities = []\<rparr> SpawnResponse_members"

section \<open>Layouts\<close>

definition EchoRequest_layout :: "EchoRequest layout" where
  "EchoRequest_layout = zip EchoRequest_members
     [word_field erq_seq (\<lambda>x. erq_seq_update (\<lambda>_. x)), string_field erq_text (\<lambda>x. erq_text_update (\<lambda>_. x))]"

definition EchoResponse_layout :: "EchoResponse layout" where
  "EchoResponse_layout = zip EchoResponse_members
     [word_field ers_seq (\<lambda>x. ers_seq_update (\<lambda>_. x)), string_field ers_text (\<lambda>x. ers_text_update (\<lambda>_. x)),
      word_field ers_serverTimeTicks (\<lambda>x. ers_serverTimeTicks_update (\<lambda>_. x))]"

definition SumRequest_layout :: "SumRequest layout" where
  "SumRequest_layout = zip SumRequest_members [vector_field srq_values (\<lambda>x. srq_values_update (\<lambda>_. x))]"

definition SumResponse_layout :: "SumResponse layout" where
  "SumResponse_layout = zip SumResponse_members [word_field srs_total (\<lambda>x. srs_total_update (\<lambda>_. x))]"

definition Entity_layout :: "Entity layout" where
  "Entity_layout = zip Entity_members [word_field ent_id (\<lambda>x. ent_id_update (\<lambda>_. x)),
     raw_field 12 ent_position (\<lambda>x. ent_position_update (\<lambda>_. x)), string_field ent_name (\<lambda>x. ent_name_update (\<lambda>_. x))]"

definition SpawnRequest_layout :: "SpawnRequest layout" where
  "SpawnRequest_layout = zip SpawnRequest_members [word_field sprq_count (\<lambda>x. sprq_count_update (\<lambda>_. x))]"

definition SpawnResponse_layout :: "SpawnResponse layout" where
  "SpawnResponse_layout = zip SpawnResponse_members
     [objects_field Entity_layout sprs_entities (\<lambda>x. sprs_entities_update (\<lambda>_. x))]"

lemmas server_layouts = EchoRequest_layout_def EchoRequest_members_def EchoResponse_layout_def
  EchoResponse_members_def SumRequest_layout_def SumRequest_members_def SumResponse_layout_def
  SumResponse_members_def Entity_layout_def Entity_members_def SpawnRequest_layout_def
  SpawnRequest_members_def SpawnResponse_layout_def SpawnResponse_members_def

lemma server_members [simp]:
  "map fst EchoRequest_layout = EchoRequest_members" "map fst EchoResponse_layout = EchoResponse_members"
  "map fst SumRequest_layout = SumRequest_members" "map fst SumResponse_layout = SumResponse_members"
  "map fst Entity_layout = Entity_members" "map fst SpawnRequest_layout = SpawnRequest_members"
  "map fst SpawnResponse_layout = SpawnResponse_members"
  by (simp_all add: server_layouts)

interpretation EchoRequest: struct_codec "\<lparr>erq_seq = 0, erq_text = []\<rparr>" EchoRequest_layout
  by (rule struct_codec.intro) (auto simp: server_layouts intro: struct_members)

interpretation EchoResponse: struct_codec "\<lparr>ers_seq = 0, ers_text = [], ers_serverTimeTicks = 0\<rparr>" EchoResponse_layout
  by (rule struct_codec.intro) (auto simp: server_layouts intro: struct_members)

interpretation SumRequest: struct_codec "\<lparr>srq_values = []\<rparr>" SumRequest_layout
  by (rule struct_codec.intro) (auto simp: server_layouts intro: struct_members)

interpretation SumResponse: struct_codec "\<lparr>srs_total = 0\<rparr>" SumResponse_layout
  by (rule struct_codec.intro) (auto simp: server_layouts intro: struct_members)

interpretation Entity: struct_codec "Entity_init" Entity_layout
  by (rule struct_codec.intro) (auto simp: server_layouts Vector3_formatter_def intro: struct_members)

interpretation SpawnRequest: struct_codec "\<lparr>sprq_count = 0\<rparr>" SpawnRequest_layout
  by (rule struct_codec.intro) (auto simp: server_layouts intro: struct_members)

interpretation SpawnResponse: struct_codec "\<lparr>sprs_entities = []\<rparr>" SpawnResponse_layout
  by (rule struct_codec.intro) (auto simp: SpawnResponse_layout_def SpawnResponse_members_def
      Entity_formatter_def intro: Entity.objects_member [unfolded server_members])

lemmas server_formatters = EchoRequest_formatter_def EchoResponse_formatter_def SumRequest_formatter_def
  SumResponse_formatter_def Entity_formatter_def SpawnRequest_formatter_def SpawnResponse_formatter_def

interpretation EchoRequest_packet: packet_codec "DefaultPacketHeaderPolicy B" EchoRequest_formatter
  "struct_enc EchoRequest_layout" "members_ok EchoRequest_layout" "struct_fits EchoRequest_layout" for B
  unfolding server_formatters
  by (intro packet_codec.intro frame_policy_default EchoRequest.codec_axioms [unfolded server_members])

interpretation EchoResponse_packet: packet_codec "DefaultPacketHeaderPolicy B" EchoResponse_formatter
  "struct_enc EchoResponse_layout" "members_ok EchoResponse_layout" "struct_fits EchoResponse_layout" for B
  unfolding server_formatters
  by (intro packet_codec.intro frame_policy_default EchoResponse.codec_axioms [unfolded server_members])

interpretation SumRequest_packet: packet_codec "DefaultPacketHeaderPolicy B" SumRequest_formatter
  "struct_enc SumRequest_layout" "members_ok SumRequest_layout" "struct_fits SumRequest_layout" for B
  unfolding server_formatters
  by (intro packet_codec.intro frame_policy_default SumRequest.codec_axioms [unfolded server_members])

interpretation SumResponse_packet: packet_codec "DefaultPacketHeaderPolicy B" SumResponse_formatter
  "struct_enc SumResponse_layout" "members_ok SumResponse_layout" "struct_fits SumResponse_layout" for B
  unfolding server_formatters
  by (intro packet_codec.intro frame_policy_default SumResponse.codec_axioms [unfolded server_members])

interpretation SpawnRequest_packet: packet_codec "DefaultPacketHeaderPolicy B" SpawnRequest_formatter
  "struct_enc SpawnRequest_layout" "members_ok SpawnRequest_layout" "struct_fits SpawnRequest_layout" for B
  unfolding server_formatters
  by (intro packet_codec.intro frame_policy_default SpawnRequest.codec_axioms [unfolded server_members])

interpretation SpawnResponse_packet: packet_codec "DefaultPacketHeaderPolicy B" SpawnResponse_formatter
  "struct_enc SpawnResponse_layout" "members_ok SpawnResponse_layout" "struct_fits SpawnResponse_layout" for B
  unfolding server_formatters
  by (intro packet_codec.intro frame_policy_default SpawnResponse.codec_axioms [unfolded server_members])

end
