(* ===== verification/Server.thy ===== *)
theory Server
  imports Bounds Net ServerPackets
begin

text \<open>
  The C++ server sample (\<^verbatim>\<open>samples/CppServer/main.cpp\<close>): the class \<^verbatim>\<open>Connection\<close> with its receive loop,
  its three handlers and its send side. Console output is not modelled.

  \<open>reply\<close> is the abstract server: the packet that answers a received packet, or none when the
  connection is to be closed. The handlers implement it on the reusable send buffer and the socket
  (\<open>HandlePacket_reply\<close>), and \<^verbatim>\<open>Run\<close> answers the packets of a whole stream in order (\<open>served\<close>), for
  every way the stream is cut into received chunks. The loop ends with the stream, throws nothing
  and has no undefined behaviour.
\<close>

section \<open>Protocol limits\<close>

definition MAX_BODY_LENGTH :: size_t where "MAX_BODY_LENGTH = 64 * 1024"
definition MAX_SUM_VALUES :: size_t where "MAX_SUM_VALUES = 4096"
definition MAX_SPAWN_COUNT :: int where "MAX_SPAWN_COUNT = 64"

definition MakeReaderLimits :: ReaderOptions where
  "MakeReaderLimits = default_options
     \<lparr>maxCollectionLength := 4096, maxStringLength := 4096, maxDepth := 8\<rparr>"

section \<open>Helpers\<close>

text \<open>The multiplication and the addition are on \<^verbatim>\<open>int64_t\<close>; leaving its range is \<open>UB\<close>.\<close>

definition UtcNowTicks :: "int \<Rightarrow> u64 outcome" where
  "UtcNowTicks micros = (case int64 (micros * 10) of
     Ret _ \<Rightarrow> int64 (621355968000000000 + micros * 10)
   | Throw e \<Rightarrow> Throw e
   | UB \<Rightarrow> UB)"

definition ToUpperAscii :: "bytes \<Rightarrow> bytes" where
  "ToUpperAscii text = map (\<lambda>c. if 97 \<le> c \<and> c \<le> 122 then c - 97 + 65 else c) text"

fun log2_nat :: "nat \<Rightarrow> nat" where
  "log2_nat n = (if n < 2 then 0 else Suc (log2_nat (n div 2)))"

declare log2_nat.simps [simp del]

text \<open>The IEEE binary32 pattern of \<open>\<plusminus> m / 2\<close> for \<open>m < 2 ^ 24\<close>, which is exact: the product of two
  floats is this value when it is representable, with the sign of a zero from the operands.\<close>

definition float_halves :: "bool \<Rightarrow> nat \<Rightarrow> u32" where
  "float_halves negative m =
     (if negative then 0x80000000 else 0) OR
     (if m = 0 then 0
      else push_bit 23 (word_of_nat (126 + log2_nat m)) OR
           (push_bit (23 - log2_nat m) (word_of_nat m) AND 0x7FFFFF))"

section \<open>The connection\<close>

text \<open>The object \<^verbatim>\<open>Connection\<close>: \<^verbatim>\<open>sendBuffer_\<close> is the vector of \<open>c_writer\<close>, which holds a reference to it;
  the socket is the state of the outside world.\<close>

record 'w connection =
  c_limits :: ReaderOptions
  c_parser :: frame_parser
  c_writer :: writer
  c_alive :: bool
  c_world :: 'w

definition make_connection :: "'w \<Rightarrow> 'w connection" where
  "make_connection w = \<lparr>c_limits = MakeReaderLimits, c_parser = make_parser MAX_BODY_LENGTH,
     c_writer = snd (Reserve 4096 (writer_vector [])), c_alive = True, c_world = w\<rparr>"

text \<open>An operation of the writer run on the connection.\<close>

definition on_writer :: "'a wop \<Rightarrow> ('w connection, 'a) op" where
  "on_writer m = (\<lambda>c. case m (c_writer c) of (r, w) \<Rightarrow> (r, c\<lparr>c_writer := w\<rparr>))"

definition DecodeBody :: "build \<Rightarrow> 'a MemoryPackFormatter \<Rightarrow> bytes \<Rightarrow> ('w connection, 'a option) op" where
  "DecodeBody B T body = (\<lambda>c.
     case Read B T (value_init T) (make_reader_with body (c_limits c)) of
       (Ret out, reader) \<Rightarrow> (Ret (if Failed reader then None else Some out), c)
     | (Throw _, _) \<Rightarrow> (Ret None, c)
     | (UB, _) \<Rightarrow> (UB, c))"

definition SendAll :: "'w host \<Rightarrow> bytes \<Rightarrow> ('w connection, bool) op" where
  "SendAll H data = (\<lambda>c. case send_loop (h_send H) data 0 (c_world c) of
     (ok, w) \<Rightarrow> (Ret ok, c\<lparr>c_world := w\<rparr>))"

definition patch_header :: "build \<Rightarrow> PacketId \<Rightarrow> ('w connection, unit) op" where
  "patch_header B pid = (\<lambda>c.
     let sendBuffer = Data (c_writer c);
         bodyLength = word_of_nat (size_sub (length sendBuffer) 6)
     in case store sendBuffer 0 (DefaultPacketHeaderPolicy_Write B (PacketId_value pid) bodyLength) of
          Some sendBuffer' \<Rightarrow> (Ret (), c\<lparr>c_writer := (c_writer c)\<lparr>w_vec := Some sendBuffer'\<rparr>\<rparr>)
        | None \<Rightarrow> (UB, c))"

definition SendPacket :: "build \<Rightarrow> 'w host \<Rightarrow> 'a MemoryPackFormatter \<Rightarrow> PacketId \<Rightarrow> 'a \<Rightarrow> ('w connection, bool) op" where
  "SendPacket B H T pid body =
     seq (on_writer Clear)
    (seq (on_writer (modify (\<lambda>w. w\<lparr>w_vec := Some (resize (Data w) 6)\<rparr>)))
    (seq (on_writer (Write B T body))
    (bind (gets (\<lambda>c. WriterFailed (c_writer c))) (\<lambda>failed.
       if failed then return False
       else seq (patch_header B pid)
           (bind (gets (\<lambda>c. Data (c_writer c))) (SendAll H))))))"

section \<open>Handlers\<close>

definition HandleEcho :: "build \<Rightarrow> 'w host \<Rightarrow> bytes \<Rightarrow> ('w connection, bool) op" where
  "HandleEcho B H body = bind (DecodeBody B EchoRequest_formatter body) (\<lambda>decoded.
     case decoded of None \<Rightarrow> return False
     | Some request \<Rightarrow>
         bind (gets (\<lambda>c. h_now H (c_world c))) (\<lambda>micros.
         bind (\<lambda>c. (UtcNowTicks micros, c)) (\<lambda>now.
           SendPacket B H EchoResponse_formatter EchoResponseId
             \<lparr>ers_seq = erq_seq request, ers_text = ToUpperAscii (erq_text request), ers_serverTimeTicks = now\<rparr>)))"

text \<open>\<open>for (int32_t value : request.values) total += value;\<close> on \<^verbatim>\<open>int64_t\<close>.\<close>

primrec sum_loop :: "u32 list \<Rightarrow> u64 \<Rightarrow> u64 outcome" where
  "sum_loop [] acc = Ret acc"
| "sum_loop (v # vs) acc = (case int64 (sint acc + sint v) of
     Ret t \<Rightarrow> sum_loop vs t | Throw e \<Rightarrow> Throw e | UB \<Rightarrow> UB)"

definition HandleSum :: "build \<Rightarrow> 'w host \<Rightarrow> bytes \<Rightarrow> ('w connection, bool) op" where
  "HandleSum B H body = bind (DecodeBody B SumRequest_formatter body) (\<lambda>decoded.
     case decoded of None \<Rightarrow> return False
     | Some request \<Rightarrow>
         if length (srq_values request) > MAX_SUM_VALUES then return False
         else bind (\<lambda>c. (sum_loop (srq_values request) 0, c)) (\<lambda>total.
           SendPacket B H SumResponse_formatter SumResponseId \<lparr>srs_total = total\<rparr>))"

definition spawn_entity :: "build \<Rightarrow> nat \<Rightarrow> Entity" where
  "spawn_entity B i = \<lparr>ent_id = 1000 + word_of_nat i,
     ent_position = mem_bytes (native B) (float_halves False (i * 3)) @
       mem_bytes (native B) (float_halves False (i * 5)) @ mem_bytes (native B) (float_halves True i),
     ent_name = bytes_of_string (''Entity_'' @ to_string i)\<rparr>"

definition clamp_count :: "int \<Rightarrow> int" where
  "clamp_count n = (let n = (if n < 0 then 0 else n)
     in if n > MAX_SPAWN_COUNT then MAX_SPAWN_COUNT else n)"

definition HandleSpawn :: "build \<Rightarrow> 'w host \<Rightarrow> bytes \<Rightarrow> ('w connection, bool) op" where
  "HandleSpawn B H body = bind (DecodeBody B SpawnRequest_formatter body) (\<lambda>decoded.
     case decoded of None \<Rightarrow> return False
     | Some request \<Rightarrow>
         let cnt = clamp_count (sint (sprq_count request))
         in SendPacket B H SpawnResponse_formatter SpawnResponseId
              \<lparr>sprs_entities = map (spawn_entity B) [0 ..< nat cnt]\<rparr>)"

definition HandlePacket :: "build \<Rightarrow> 'w host \<Rightarrow> u16 \<Rightarrow> bytes \<Rightarrow> ('w connection, bool) op" where
  "HandlePacket B H rawId body =
     (if rawId = PacketId_value EchoRequestId then HandleEcho B H body
      else if rawId = PacketId_value SumRequestId then HandleSum B H body
      else if rawId = PacketId_value SpawnRequestId then HandleSpawn B H body
      else return False)"

text \<open>The lambda that \<^verbatim>\<open>Run\<close> hands to \<^verbatim>\<open>Feed\<close>.\<close>

definition on_packet :: "build \<Rightarrow> 'w host \<Rightarrow> 'w connection callback" where
  "on_packet B H pid body = bind (gets c_alive) (\<lambda>alive.
     if \<not> alive then return ()
     else bind (HandlePacket B H pid body) (\<lambda>ok.
       if ok then return () else modify (\<lambda>c. c\<lparr>c_alive := False\<rparr>)))"

text \<open>The receive loop; \<open>None\<close> when the peer never stops sending.\<close>

partial_function (option) Run :: "build \<Rightarrow> 'w host \<Rightarrow> 'w connection \<Rightarrow> (unit outcome \<times> 'w connection) option" where
  "Run B H c =
     (if \<not> c_alive c then Some (Ret (), c)
      else case h_recv H 4096 (c_world c) of (chunk, w) \<Rightarrow>
        if chunk = [] then Some (Ret (), c\<lparr>c_world := w\<rparr>)
        else Option.bind (Feed (DefaultPacketHeaderPolicy B) chunk (on_packet B H) (c\<lparr>c_world := w\<rparr>) (c_parser c))
          (\<lambda>(out, c', p). case out of
             Ret ok \<Rightarrow> if ok then Run B H (c'\<lparr>c_parser := p\<rparr>) else Some (Ret (), c'\<lparr>c_parser := p\<rparr>)
           | Throw e \<Rightarrow> Some (Throw e, c'\<lparr>c_parser := p\<rparr>)
           | UB \<Rightarrow> Some (UB, c'\<lparr>c_parser := p\<rparr>)))"

section \<open>Decoding a request\<close>

text \<open>What \<^verbatim>\<open>DecodeBody\<close> leaves in \<open>out\<close> under the limits of the server, if anything.\<close>

definition decoded :: "build \<Rightarrow> 'a MemoryPackFormatter \<Rightarrow> bytes \<Rightarrow> 'a option" where
  "decoded B T body = (case Read B T (value_init T) (make_reader_with body MakeReaderLimits) of
     (Ret v, r) \<Rightarrow> if Failed r then None else Some v
   | _ \<Rightarrow> None)"

context codec
begin

lemma DecodeBody_decoded:
  assumes "length body < 2 ^ 63" "c_limits c = MakeReaderLimits"
  shows "DecodeBody B T body c = (Ret (decoded B T body), c)"
proof -
  have "fst (Read B T (value_init T) (make_reader_with body MakeReaderLimits)) \<noteq> UB"
    using reader_action.no_UB [OF safe] assms(1) by simp
  then show ?thesis using assms(2)
    by (auto simp: DecodeBody_def decoded_def split: prod.splits outcome.splits)
qed

lemma decoded_enc:
  assumes "ok v" "fits v MakeReaderLimits 0" "length (enc v) < 2 ^ 63"
  shows "decoded B T (enc v) = Some v"
proof -
  let ?r = "make_reader_with (enc v) MakeReaderLimits"
  have "Read B T (value_init T) ?r = (Ret v, ?r\<lparr>r_pos := r_pos ?r + length (enc v)\<rparr>)"
    by (rule decodesD [OF reads [OF assms(1)], where rest = "[]"])
      (use assms in \<open>simp_all add: make_reader_with_def reader_inv_def\<close>)
  then show ?thesis by (simp add: decoded_def Failed_def make_reader_with_def)
qed

end

lemma yields_EchoRequest:
  "yields (\<lambda>sz v. length (erq_text v) \<le> 2 * sz)
     (\<lambda>B. Read B EchoRequest_formatter \<lparr>erq_seq = 0, erq_text = []\<rparr>)"
  unfolding EchoRequest_formatter_def EchoRequest_members_def
  by (rule yields_struct)
    (auto intro: reader_action_member uint32_codec.safe string_codec.safe
      yields_member [OF uint32_codec.safe yields_True] yields_member [OF string_codec.safe yields_string])

lemma decoded_EchoRequest:
  assumes "decoded B EchoRequest_formatter body = Some rq" "length body < 2 ^ 63"
  shows "length (erq_text rq) \<le> 2 * length body"
proof -
  have i: "value_init EchoRequest_formatter = \<lparr>erq_seq = 0, erq_text = []\<rparr>"
    by (simp add: EchoRequest_formatter_def MEMORYPACK_DEFINE_def)
  from assms(1) obtain r where
    "Read B EchoRequest_formatter \<lparr>erq_seq = 0, erq_text = []\<rparr> (make_reader_with body MakeReaderLimits) = (Ret rq, r)"
    by (auto simp: decoded_def i split: prod.splits outcome.splits if_splits)
  from yieldsD [OF yields_EchoRequest _ this] assms(2) show ?thesis by simp
qed

section \<open>Adding up\<close>

lemma sint_range_32: "- (2 ^ 31) \<le> sint (v :: u32) \<and> sint v < 2 ^ 31"
  using sint_ge [of v] sint_lt [of v] by simp

lemma sum_loop_exact:
  "\<bar>acc\<bar> + 2 ^ 31 * int (length vs) < 2 ^ 63 \<Longrightarrow>
     sum_loop vs (word_of_int acc) = Ret (word_of_int (acc + sum_list (map sint vs)))"
proof (induction vs arbitrary: acc)
  case Nil
  then show ?case by simp
next
  case (Cons v vs)
  have "sint (word_of_int acc :: u64) = acc" using Cons.prems
    by (simp add: sint_sbintrunc' signed_take_bit_int_eq_self)
  moreover have b: "\<bar>acc + sint v\<bar> + 2 ^ 31 * int (length vs) < 2 ^ 63"
    using Cons.prems sint_range_32 [of v] by (simp add: abs_if split: if_splits)
  moreover have "int64 (acc + sint v) = Ret (word_of_int (acc + sint v))"
    using b by (simp add: int64_def) linarith
  ultimately show ?case using Cons.IH [OF b] by (simp add: add.assoc)
qed

lemma ToUpperAscii_length [simp]: "length (ToUpperAscii t) = length t"
  by (simp add: ToUpperAscii_def)

section \<open>Sending a response\<close>

text \<open>The class invariant of the writer: its target is the send buffer.\<close>

definition send_ready :: "writer \<Rightarrow> bool" where
  "send_ready w \<longleftrightarrow> writer_inv w \<and> w_vec w \<noteq> None"

definition conn_ok :: "'w connection \<Rightarrow> bool" where
  "conn_ok c \<longleftrightarrow> c_limits c = MakeReaderLimits \<and> send_ready (c_writer c)"

lemma send_ready_vec [simp]: "send_ready w \<Longrightarrow> send_ready (w\<lparr>w_vec := Some v\<rparr>)"
  by (simp add: send_ready_def)

lemma send_ready_error [simp]: "send_ready (w\<lparr>w_error := e\<rparr>) = send_ready w"
  by (simp add: send_ready_def)

text \<open>What a connection becomes when it has handed some bytes to the socket.\<close>

definition sent_from :: "'w host \<Rightarrow> bytes \<Rightarrow> 'w connection \<Rightarrow> bool outcome \<times> 'w connection \<Rightarrow> bool" where
  "sent_from H bs c res \<longleftrightarrow> (\<exists>w'. send_ready w' \<and>
     res = (case send_loop (h_send H) bs 0 (c_world c) of
       (ok, wd) \<Rightarrow> (Ret ok, c\<lparr>c_writer := w', c_world := wd\<rparr>)))"

context codec
begin

lemma SendPacket_sends:
  assumes v: "ok v" "length (enc v) < 2 ^ 31" and c: "send_ready (c_writer c)"
  shows "sent_from H (packet_bytes (DefaultPacketHeaderPolicy B) (PacketId_value pid, enc v)) c (SendPacket B H T pid v c)"
proof -
  let ?P = "DefaultPacketHeaderPolicy B"
  let ?w0 = "(c_writer c)\<lparr>w_error := ErrorNone, w_vec := Some (replicate 6 0)\<rparr>"
  have w0: "send_ready ?w0" "w_error ?w0 = ErrorNone" using c by simp_all
  have r: "room ?w0 (length (enc v))" by (simp add: room_def)
  from emitsD(1) [OF writes [OF v(1)] _ w0(2) r, of B] w0(1) obtain w1
    where w1: "Write B T v ?w0 = (Ret (), w1)" "writer_inv w1" "same_target ?w0 w1" "w_error w1 = ErrorNone"
      "GetSpan w1 = GetSpan ?w0 @ enc v" by (auto simp: send_ready_def elim: appendedE)
  then obtain u where u: "w_vec w1 = Some u" by (auto simp: same_target_def)
  with w1(5) have d: "u = replicate 6 0 @ enc v" by (simp add: GetSpan_def Size_def Data_def)
  have h: "length (DefaultPacketHeaderPolicy_Write B i n) = 6" for i n
    using default_policy.length_Write [of B i n] by (simp add: DefaultPacketHeaderPolicy_def)
  have st: "store u 0 (DefaultPacketHeaderPolicy_Write B (PacketId_value pid) (word_of_nat (length (enc v)))) =
      Some (packet_bytes ?P (PacketId_value pid, enc v))"
    by (simp add: store_def d h packet_bytes_def DefaultPacketHeaderPolicy_def)
  have n: "size_sub (length u) 6 = length (enc v)" using v(2) by (simp add: d)
  have ready: "send_ready (w1\<lparr>w_vec := Some x\<rparr>)" for x using w1(2) u by (simp add: send_ready_def)
  have start: "snd (Clear (c_writer c)) = (c_writer c)\<lparr>w_vec := Some [], w_error := ErrorNone\<rparr>"
    using c by (simp add: Clear_def send_ready_def)
  show ?thesis unfolding sent_from_def
    by (rule exI [of _ "w1\<lparr>w_vec := Some (packet_bytes ?P (PacketId_value pid, enc v))\<rparr>"])
      (use c w1(1,4) u n st start ready in \<open>simp add: SendPacket_def on_writer_def Clear_def send_ready_def Data_def resize_def
        patch_header_def WriterFailed_def SendAll_def seq_def bind_def Let_def split: prod.split\<close>)
qed

end

section \<open>The reply to a packet\<close>

text \<open>The abstract server: the packet that answers a request received at a time \<open>now\<close>, or \<open>None\<close> when
  the connection is to be closed.\<close>

definition ascii_upper :: "byte \<Rightarrow> byte" where
  "ascii_upper c = (case map_of (zip (bytes_of_string ''abcdefghijklmnopqrstuvwxyz'') (bytes_of_string ''ABCDEFGHIJKLMNOPQRSTUVWXYZ'')) c of
     Some u \<Rightarrow> u | None \<Rightarrow> c)"

definition echo_response :: "u64 \<Rightarrow> EchoRequest \<Rightarrow> EchoResponse" where
  "echo_response now rq = \<lparr>ers_seq = erq_seq rq, ers_text = map ascii_upper (erq_text rq), ers_serverTimeTicks = now\<rparr>"

definition sum_response :: "SumRequest \<Rightarrow> SumResponse" where
  "sum_response rq = \<lparr>srs_total = word_of_int (sum_list (map sint (srq_values rq)))\<rparr>"

definition spawn_response :: "build \<Rightarrow> SpawnRequest \<Rightarrow> SpawnResponse" where
  "spawn_response B rq = \<lparr>sprs_entities = map (spawn_entity B) [0 ..< nat (min 64 (sint (sprq_count rq)))]\<rparr>"

definition reply :: "build \<Rightarrow> u64 \<Rightarrow> u16 \<times> bytes \<Rightarrow> (u16 \<times> bytes) option" where
  "reply B now m = (case m of (pid, body) \<Rightarrow>
     if pid = 201 then
       map_option (\<lambda>rq. (202, struct_enc EchoResponse_layout (echo_response now rq)))
         (decoded B EchoRequest_formatter body)
     else if pid = 203 then
       (case decoded B SumRequest_formatter body of None \<Rightarrow> None
        | Some rq \<Rightarrow> if length (srq_values rq) \<le> 4096
            then Some (204, struct_enc SumResponse_layout (sum_response rq)) else None)
     else if pid = 205 then
       map_option (\<lambda>rq. (206, struct_enc SpawnResponse_layout (spawn_response B rq)))
         (decoded B SpawnRequest_formatter body)
     else None)"

lemma ascii_upper_eq: "ascii_upper c = (if 97 \<le> c \<and> c \<le> 122 then c - 97 + 65 else c)"
proof (cases "unat c \<in> set [97 ..< 123]")
  case True
  have "\<forall>n \<in> set [97 ..< 123]. ascii_upper (word_of_nat n) = word_of_nat n - 97 + 65"
    by (simp add: ascii_upper_def bytes_of_string_def upt_rec)
  with True have "ascii_upper (word_of_nat (unat c)) = word_of_nat (unat c) - 97 + 65" by blast
  moreover have "97 \<le> c \<and> c \<le> 122" using True by (simp only: set_upt atLeastLessThan_iff word_le_nat_alt) simp
  ultimately show ?thesis by simp
next
  case False
  have "unat ` set (bytes_of_string ''abcdefghijklmnopqrstuvwxyz'') = set [97 ..< 123]" by (simp add: bytes_of_string_def upt_rec)
  with False have "c \<notin> set (bytes_of_string ''abcdefghijklmnopqrstuvwxyz'')" by blast
  then have "map_of (zip (bytes_of_string ''abcdefghijklmnopqrstuvwxyz'') (bytes_of_string ''ABCDEFGHIJKLMNOPQRSTUVWXYZ'')) c = None"
    by (simp add: map_of_eq_None_iff map_fst_zip bytes_of_string_def)
  moreover have "\<not> (97 \<le> c \<and> c \<le> 122)" using False by (simp only: set_upt atLeastLessThan_iff word_le_nat_alt) auto
  ultimately show ?thesis by (simp add: ascii_upper_def)
qed

lemma ToUpperAscii_eq: "ToUpperAscii = map ascii_upper"
  by (simp add: fun_eq_iff ToUpperAscii_def ascii_upper_eq)

lemma length_entity: "i < 64 \<Longrightarrow> length (struct_enc Entity_layout (spawn_entity B i)) \<le> 128"
  using length_to_string [of i] length_enc_string_le [of "ent_name (spawn_entity B i)"]
  by (simp add: struct_enc_def server_layouts spawn_entity_def bytes_of_string_def)

lemma echo_response_ok:
  assumes "length (erq_text rq) < 2 ^ 30"
  shows "members_ok EchoResponse_layout (echo_response now rq)"
    "length (struct_enc EchoResponse_layout (echo_response now rq)) < 2 ^ 31"
  using assms length_enc_string_le [of "map ascii_upper (erq_text rq)"]
  by (simp_all add: server_layouts echo_response_def string_ok_def struct_enc_def)

lemma sum_response_ok:
  "members_ok SumResponse_layout v" "length (struct_enc SumResponse_layout v) < 2 ^ 31"
  by (simp_all add: server_layouts struct_enc_def)

lemma spawn_response_ok:
  "members_ok SpawnResponse_layout (spawn_response B rq)"
  "length (struct_enc SpawnResponse_layout (spawn_response B rq)) < 2 ^ 31"
proof -
  let ?es = "sprs_entities (spawn_response B rq)"
  have n: "length ?es \<le> 64" by (simp add: spawn_response_def)
  have e: "members_ok Entity_layout e \<and> length (struct_enc Entity_layout e) \<le> 128" if es: "e \<in> set ?es" for e
  proof -
    obtain i where i: "e = spawn_entity B i" "i < nat (min 64 (sint (sprq_count rq)))"
      using es unfolding spawn_response_def by auto
    then have "i < 64" by linarith
    with i show ?thesis using length_entity [of i B] length_to_string [of i]
      by (simp add: server_layouts spawn_entity_def string_ok_def bytes_of_string_def)
  qed
  show "members_ok SpawnResponse_layout (spawn_response B rq)"
    using n e by (simp add: SpawnResponse_layout_def SpawnResponse_members_def all_ok_def)
  have "length (concat (map (struct_enc Entity_layout) ?es)) \<le> length ?es * 128"
    using e by (intro length_concat_map_le) simp
  then show "length (struct_enc SpawnResponse_layout (spawn_response B rq)) < 2 ^ 31"
    using n by (simp add: SpawnResponse_layout_def SpawnResponse_members_def struct_enc_def enc_collection_def enc_length_def)
qed

text \<open>The handlers compute the reply and hand its packet to the socket.\<close>

definition clock_ok :: "'w host \<Rightarrow> bool" where
  "clock_ok H \<longleftrightarrow> (\<forall>w. 0 \<le> h_now H w \<and> h_now H w < 2 ^ 58)"

definition ticks_at :: "'w host \<Rightarrow> 'w \<Rightarrow> u64" where
  "ticks_at H w = word_of_int (621355968000000000 + h_now H w * 10)"

lemma UtcNowTicks_ok: "clock_ok H \<Longrightarrow> UtcNowTicks (h_now H w) = Ret (ticks_at H w)"
proof -
  assume "clock_ok H"
  then have "0 \<le> h_now H w" "h_now H w < 2 ^ 58" by (simp_all add: clock_ok_def)
  then show ?thesis by (simp add: UtcNowTicks_def int64_def ticks_at_def)
qed

definition answers :: "build \<Rightarrow> 'w host \<Rightarrow> 'w connection \<Rightarrow> (u16 \<times> bytes) option \<Rightarrow> bool outcome \<times> 'w connection \<Rightarrow> bool" where
  "answers B H c r res \<longleftrightarrow> (case r of None \<Rightarrow> res = (Ret False, c)
     | Some m \<Rightarrow> sent_from H (packet_bytes (DefaultPacketHeaderPolicy B) m) c res)"

lemma clamp_count_nat: "nat (clamp_count n) = nat (min 64 n)"
  by (simp add: clamp_count_def MAX_SPAWN_COUNT_def Let_def)

lemma HandlePacket_reply:
  assumes c: "conn_ok c" and body: "length body \<le> MAX_BODY_LENGTH" and H: "clock_ok H"
  shows "answers B H c (reply B (ticks_at H (c_world c)) (pid, body)) (HandlePacket B H pid body c)"
proof -
  have l: "c_limits c = MakeReaderLimits" "send_ready (c_writer c)" "length body < 2 ^ 63" "length body < 2 ^ 29"
    using c body by (simp_all add: conn_ok_def MAX_BODY_LENGTH_def)
  note EchoRequest_packet.DecodeBody_decoded [OF l(3,1), simp] SumRequest_packet.DecodeBody_decoded [OF l(3,1), simp]
    SpawnRequest_packet.DecodeBody_decoded [OF l(3,1), simp]
  consider "pid = 201" | "pid = 203" | "pid = 205" | "pid \<noteq> 201" "pid \<noteq> 203" "pid \<noteq> 205" by blast
  then show ?thesis
  proof cases
    case 1
    show ?thesis
    proof (cases "decoded B EchoRequest_formatter body")
      case (Some rq)
      have "length (erq_text rq) < 2 ^ 30" using decoded_EchoRequest [OF Some l(3)] l(4) by simp
      note ok = echo_response_ok [OF this]
      from EchoResponse_packet.SendPacket_sends [OF ok l(2), of H B EchoResponseId "ticks_at H (c_world c)"] show ?thesis
        using 1 Some UtcNowTicks_ok [OF H]
        by (simp add: answers_def reply_def HandlePacket_def HandleEcho_def echo_response_def ToUpperAscii_eq)
    qed (simp add: answers_def reply_def HandlePacket_def HandleEcho_def 1)
  next
    case 2
    show ?thesis
    proof (cases "decoded B SumRequest_formatter body")
      case (Some rq)
      show ?thesis
      proof (cases "length (srq_values rq) \<le> 4096")
        case True
        from sum_loop_exact [of 0 "srq_values rq"] True
        have s: "sum_loop (srq_values rq) 0 = Ret (srs_total (sum_response rq))" by (simp add: sum_response_def)
        from SumResponse_packet.SendPacket_sends [OF sum_response_ok l(2), of H B SumResponseId "sum_response rq"] show ?thesis
          using 2 Some True s
          by (simp add: answers_def reply_def HandlePacket_def HandleSum_def MAX_SUM_VALUES_def sum_response_def)
      qed (simp add: answers_def reply_def HandlePacket_def HandleSum_def MAX_SUM_VALUES_def 2 Some)
    qed (simp add: answers_def reply_def HandlePacket_def HandleSum_def 2)
  next
    case 3
    show ?thesis
    proof (cases "decoded B SpawnRequest_formatter body")
      case (Some rq)
      from SpawnResponse_packet.SendPacket_sends [OF spawn_response_ok l(2), of H B SpawnResponseId B rq] show ?thesis
        using 3 Some
        by (simp add: answers_def reply_def HandlePacket_def HandleSpawn_def spawn_response_def clamp_count_nat)
    qed (simp add: answers_def reply_def HandlePacket_def HandleSpawn_def 3)
  qed (simp add: answers_def reply_def HandlePacket_def)
qed

section \<open>The conversation\<close>

text \<open>\<open>served B ms rs alive\<close>: answering the packets \<open>ms\<close> in order, each at some time, gives the packets
  \<open>rs\<close>; the connection stays open exactly when every packet has a reply. After the first packet
  without one nothing more is answered.\<close>

inductive served :: "build \<Rightarrow> (u16 \<times> bytes) list \<Rightarrow> (u16 \<times> bytes) list \<Rightarrow> bool \<Rightarrow> bool" for B where
  served_none: "served B [] [] True"
| served_reply: "reply B now m = Some r \<Longrightarrow> served B ms rs alive \<Longrightarrow> served B (m # ms) (r # rs) alive"
| served_close: "reply B now m = None \<Longrightarrow> served B (m # ms) [] False"

inductive_simps served_Nil [simp]: "served B [] rs alive"
inductive_cases served_ConsE: "served B (m # ms) rs alive"

lemma served_append: "served B ms rs True \<Longrightarrow> served B ms' rs' alive \<Longrightarrow> served B (ms @ ms') (rs @ rs') alive"
  by (induction ms rs True rule: served.induct) (auto intro: served.intros)

lemma served_closed: "served B ms rs False \<Longrightarrow> served B (ms @ ms') rs False"
  by (induction ms rs False rule: served.induct) (auto intro: served.intros)

text \<open>What one step of the server does to the outside world.\<close>

definition emitted :: "('w \<Rightarrow> bytes) \<Rightarrow> build \<Rightarrow> (u16 \<times> bytes) list \<Rightarrow> 'w \<Rightarrow> 'w \<Rightarrow> bool" where
  "emitted out B rs w w' \<longleftrightarrow> out w' = out w @ concat (map (packet_bytes (DefaultPacketHeaderPolicy B)) rs)"

lemma emitted_simps [simp]: "emitted out B [] w w"
  by (simp add: emitted_def)

lemma emitted_append: "emitted out B rs w w1 \<Longrightarrow> emitted out B rs' w1 w2 \<Longrightarrow> emitted out B (rs @ rs') w w2"
  by (simp add: emitted_def)

lemma emitted_from: "out w = out v \<Longrightarrow> emitted out B rs w w' = emitted out B rs v w'"
  by (simp add: emitted_def)

lemma served_then:
  "served B ms rs True \<Longrightarrow> emitted out B rs w w1 \<Longrightarrow> served B ms' rs' alive \<Longrightarrow> emitted out B rs' w1 w2 \<Longrightarrow>
     \<exists>rs alive. served B (ms @ ms') rs alive \<and> emitted out B rs w w2"
  by (intro exI [of _ "rs @ rs'"] exI [of _ alive] conjI served_append emitted_append)

text \<open>A world that only the sends of \<open>H\<close> have changed.\<close>

definition by_sends :: "'w host \<Rightarrow> 'w \<Rightarrow> 'w \<Rightarrow> bool" where
  "by_sends H w w' \<longleftrightarrow> (\<forall>Q :: 'w \<Rightarrow> bool. (\<forall>buf w. Q (snd (h_send H buf w)) = Q w) \<longrightarrow> Q w' = Q w)"

lemma by_sends_refl [simp]: "by_sends H w w"
  by (simp add: by_sends_def)

lemma by_sends_trans: "by_sends H w w1 \<Longrightarrow> by_sends H w1 w2 \<Longrightarrow> by_sends H w w2"
  unfolding by_sends_def by blast

lemma by_sends_keeps:
  assumes "by_sends H w w'" "\<And>buf w. f (snd (h_send H buf w)) = f w"
  shows "f w' = f w"
proof -
  have "\<forall>buf v. (f (snd (h_send H buf v)) = f w) = (f v = f w)" using assms(2) by simp
  then have "(f w' = f w) = (f w = f w)"
    by (rule assms(1) [unfolded by_sends_def, THEN spec [of _ "\<lambda>v. f v = f w"], THEN mp])
  then show ?thesis by simp
qed

definition handled :: "build \<Rightarrow> 'w host \<Rightarrow> ('w \<Rightarrow> bytes) \<Rightarrow> ('w \<Rightarrow> bytes) \<Rightarrow> (u16 \<times> bytes) list \<Rightarrow>
    'w connection \<Rightarrow> 'w connection \<Rightarrow> bool" where
  "handled B H inp out ms c c' \<longleftrightarrow> conn_ok c' \<and> c_parser c' = c_parser c \<and> inp (c_world c') = inp (c_world c) \<and>
     by_sends H (c_world c) (c_world c') \<and>
     (accepts (h_send H) \<longrightarrow> (\<exists>rs. served B ms rs (c_alive c') \<and> emitted out B rs (c_world c) (c_world c')))"

lemma HandlePacket_handled:
  assumes c: "conn_ok c" "c_alive c" and body: "length body \<le> MAX_BODY_LENGTH" and H: "clock_ok H" "duplex H inp out"
  shows "\<exists>c'. on_packet B H pid body c = (Ret (), c') \<and> handled B H inp out [(pid, body)] c c'"
proof -
  let ?now = "ticks_at H (c_world c)"
  from HandlePacket_reply [OF c(1) body H(1), of B pid]
  have a: "answers B H c (reply B ?now (pid, body)) (HandlePacket B H pid body c)" .
  show ?thesis
  proof (cases "reply B ?now (pid, body)")
    case None
    then have "served B [(pid, body)] [] False" by (rule served_close)
    moreover from None a have "HandlePacket B H pid body c = (Ret False, c)" by (simp add: answers_def)
    ultimately show ?thesis using c
      by (intro exI [of _ "c\<lparr>c_alive := False\<rparr>"]) (auto simp: on_packet_def handled_def conn_ok_def bind_def intro: exI [of _ "[]"])
  next
    case (Some m)
    obtain ok wd where s: "send_loop (h_send H) (packet_bytes (DefaultPacketHeaderPolicy B) m) 0 (c_world c) = (ok, wd)" by force
    with Some a obtain w' where w': "send_ready w'"
      "HandlePacket B H pid body c = (Ret ok, c\<lparr>c_writer := w', c_world := wd\<rparr>)" by (auto simp: answers_def sent_from_def)
    let ?c = "c\<lparr>c_writer := w', c_world := wd, c_alive := ok\<rparr>"
    have o: "on_packet B H pid body c = (Ret (), ?c)" using c(2) w'(2) by (simp add: on_packet_def)
    have "by_sends H (c_world c) wd" unfolding by_sends_def using send_loop_inp [OF _ s] by blast
    moreover have "inp wd = inp (c_world c)" using send_loop_inp [OF _ s, of inp] H(2) by (simp add: duplex_def)
    moreover have "served B [(pid, body)] [m] ok \<and> emitted out B [m] (c_world c) wd" if "accepts (h_send H)"
    proof -
      have "ok" using send_loop_accepts [OF that, of _ 0 "c_world c"] s by (metis fst_conv)
      with send_exact_ok [of "h_send H" out _ "c_world c" wd] s H(2) served_reply [OF Some served_none] show ?thesis
        by (simp add: emitted_def duplex_def send_exact_def)
    qed
    ultimately have "handled B H inp out [(pid, body)] c ?c"
      using c(1) w'(1) by (auto simp: handled_def conn_ok_def)
    with o show ?thesis by blast
  qed
qed

lemma deliver_dead: "\<not> c_alive c \<Longrightarrow> deliver (on_packet B H) ms c = (Ret (), c)"
  by (induction ms) (auto simp: on_packet_def)

lemma deliver_handled:
  "conn_ok c \<Longrightarrow> c_alive c \<Longrightarrow> \<forall>m \<in> set ms. length (snd m) \<le> MAX_BODY_LENGTH \<Longrightarrow> clock_ok H \<Longrightarrow> duplex H inp out \<Longrightarrow>
   \<exists>c'. deliver (on_packet B H) ms c = (Ret (), c') \<and> handled B H inp out ms c c'"
proof (induction ms arbitrary: c)
  case Nil
  then show ?case by (auto simp: handled_def)
next
  case (Cons m ms)
  from HandlePacket_handled [OF Cons.prems(1,2) _ Cons.prems(4,5), of "snd m" B "fst m"] Cons.prems(3) obtain c1
    where c1: "on_packet B H (fst m) (snd m) c = (Ret (), c1)" "handled B H inp out [m] c c1" by auto
  have d: "deliver (on_packet B H) (m # ms) c = deliver (on_packet B H) ms c1" using c1(1) by (simp add: case_prod_beta)
  show ?case
  proof (cases "c_alive c1")
    case True
    from Cons.IH [of c1] c1(2) True Cons.prems obtain c2
      where c2: "deliver (on_packet B H) ms c1 = (Ret (), c2)" "handled B H inp out ms c1 c2" by (auto simp: handled_def)
    have "\<exists>rs. served B (m # ms) rs (c_alive c2) \<and> emitted out B rs (c_world c) (c_world c2)" if "accepts (h_send H)"
    proof -
      obtain rs1 rs2 where "served B [m] rs1 True" "emitted out B rs1 (c_world c) (c_world c1)"
        "served B ms rs2 (c_alive c2)" "emitted out B rs2 (c_world c1) (c_world c2)"
        using c1(2) c2(2) True \<open>accepts (h_send H)\<close> by (auto simp: handled_def)
      with served_append [of B "[m]" rs1 ms rs2] emitted_append show ?thesis by fastforce
    qed
    with c1 c2 have "handled B H inp out (m # ms) c c2" by (auto simp: handled_def intro: by_sends_trans)
    with c2(1) d show ?thesis by simp
  next
    case False
    with c1(2) served_closed [of B "[m]" _ ms] have "handled B H inp out (m # ms) c c1"
      by (auto simp: handled_def)
    with deliver_dead [OF False] d show ?thesis by simp
  qed
qed

section \<open>The receive loop\<close>

definition run_state :: "build \<Rightarrow> ('w \<Rightarrow> bytes) \<Rightarrow> 'w connection \<Rightarrow> bool" where
  "run_state B inp c \<longleftrightarrow> conn_ok c \<and> c_alive c \<and> parser_inv (c_parser c) \<and>
     settled (DefaultPacketHeaderPolicy B) (c_parser c) \<and> fp_maxBodyLength (c_parser c) = MAX_BODY_LENGTH \<and>
     length (fp_buffer (c_parser c)) + length (inp (c_world c)) < 2 ^ 63"

text \<open>One round of the loop: the frames completed by the received chunk are handled.\<close>

lemma Feed_chunk:
  assumes H: "clock_ok H" "duplex H inp out" and I: "run_state B inp c"
    and w: "h_recv H 4096 (c_world c) = (chunk, w)"
    and f: "frames (DefaultPacketHeaderPolicy B) MAX_BODY_LENGTH (pending (c_parser c) @ chunk) = (qs, r)"
  shows "\<exists>c1 p1. Feed (DefaultPacketHeaderPolicy B) chunk (on_packet B H) (c\<lparr>c_world := w\<rparr>) (c_parser c) = Some (Ret (r \<noteq> None), c1, p1) \<and>
    handled B H inp out qs (c\<lparr>c_world := w\<rparr>) c1 \<and> pending p1 = kept r \<and>
    (c_alive c1 \<longrightarrow> r \<noteq> None \<longrightarrow> run_state B inp (c1\<lparr>c_parser := p1\<rparr>))"
proof -
  let ?P = "DefaultPacketHeaderPolicy B" and ?c = "c\<lparr>c_world := w\<rparr>"
  note I' = I [unfolded run_state_def]
  have inp: "inp (c_world c) = chunk @ inp w" using H(2) w by (auto simp: duplex_def receives_in_order_def)
  from deliver_handled [of ?c qs H inp out B] I' H frames_bodies [OF f] obtain c1
    where c1: "deliver (on_packet B H) qs ?c = (Ret (), c1)" "handled B H inp out qs ?c c1" by (auto simp: conn_ok_def)
  from default_policy.Feed_frames [of "c_parser c" chunk B qs r, OF _ _ _ c1(1)] I' f inp obtain p1
    where p1: "Feed ?P chunk (on_packet B H) ?c (c_parser c) = Some (Ret (r \<noteq> None), c1, p1)" "parser_inv p1"
      "fp_maxBodyLength p1 = MAX_BODY_LENGTH" "length (fp_buffer p1) \<le> length (fp_buffer (c_parser c)) + length chunk"
      "pending p1 = kept r" by auto
  have "run_state B inp (c1\<lparr>c_parser := p1\<rparr>)" if "c_alive c1" "r \<noteq> None"
  proof -
    from \<open>r \<noteq> None\<close> f obtain rest where r: "r = Some rest" by blast
    have "settled ?P p1" using frames_rest [OF f [unfolded r]] p1(3,5) r by (simp add: settled_def kept_def)
    then show ?thesis using p1 c1(2) that I' inp by (simp add: run_state_def handled_def conn_ok_def)
  qed
  with c1(2) p1(1,5) show ?thesis by blast
qed

lemma Run_chunk:
  assumes H: "clock_ok H" "duplex H inp out" and I: "run_state B inp c"
    and w: "h_recv H 4096 (c_world c) = (chunk, w)" "chunk \<noteq> []"
    and f: "frames (DefaultPacketHeaderPolicy B) MAX_BODY_LENGTH (pending (c_parser c) @ chunk) = (qs, r)"
  shows "\<exists>c1 p1. handled B H inp out qs (c\<lparr>c_world := w\<rparr>) c1 \<and>
    Run B H c = (if r \<noteq> None then Run B H (c1\<lparr>c_parser := p1\<rparr>) else Some (Ret (), c1\<lparr>c_parser := p1\<rparr>)) \<and>
    pending p1 = kept r \<and> (c_alive c1 \<longrightarrow> r \<noteq> None \<longrightarrow> run_state B inp (c1\<lparr>c_parser := p1\<rparr>))"
proof -
  from Feed_chunk [OF H I w(1) f] obtain c1 p1 where
    p1: "Feed (DefaultPacketHeaderPolicy B) chunk (on_packet B H) (c\<lparr>c_world := w\<rparr>) (c_parser c) = Some (Ret (r \<noteq> None), c1, p1)"
      "handled B H inp out qs (c\<lparr>c_world := w\<rparr>) c1" "pending p1 = kept r"
      "c_alive c1 \<longrightarrow> r \<noteq> None \<longrightarrow> run_state B inp (c1\<lparr>c_parser := p1\<rparr>)" by blast
  have "Run B H c = (if r \<noteq> None then Run B H (c1\<lparr>c_parser := p1\<rparr>) else Some (Ret (), c1\<lparr>c_parser := p1\<rparr>))"
    using I w p1(1) by (subst Run.simps) (simp add: run_state_def)
  with p1(2-4) show ?thesis by blast
qed

lemma Run_end:
  assumes H: "duplex H inp out" and I: "run_state B inp c" and w: "h_recv H 4096 (c_world c) = ([], w)"
    and f: "frames (DefaultPacketHeaderPolicy B) MAX_BODY_LENGTH (pending (c_parser c) @ inp (c_world c)) = (ms, r)"
  shows "Run B H c = Some (Ret (), c\<lparr>c_world := w\<rparr>)" "out w = out (c_world c)"
    and "delivers (h_recv H) inp \<Longrightarrow> served B ms [] True"
proof -
  show "Run B H c = Some (Ret (), c\<lparr>c_world := w\<rparr>)" using I w by (subst Run.simps) (simp add: run_state_def)
  have "out (snd (h_recv H 4096 (c_world c))) = out (c_world c)" using H unfolding duplex_def by blast
  with w show "out w = out (c_world c)" by simp
  assume "delivers (h_recv H) inp"
  then have "inp (c_world c) = []" using w unfolding delivers_def by (metis fst_conv zero_less_numeral)
  with I f show "served B ms [] True" by (auto simp: run_state_def settled_def)
qed

text \<open>The loop ends when the peer's stream ends, without an exception and without undefined
  behaviour, and has answered the packets of the stream in order, however the stream was cut.\<close>

lemma Run_serves:
  assumes H: "clock_ok H" "duplex H inp out"
  shows "run_state B inp c \<Longrightarrow>
    frames (DefaultPacketHeaderPolicy B) MAX_BODY_LENGTH (pending (c_parser c) @ inp (c_world c)) = (ms, r) \<Longrightarrow>
    \<exists>c'. Run B H c = Some (Ret (), c') \<and>
      (accepts (h_send H) \<longrightarrow> delivers (h_recv H) inp \<longrightarrow>
        (\<exists>rs alive. served B ms rs alive \<and> emitted out B rs (c_world c) (c_world c')))"
proof (induction "length (inp (c_world c))" arbitrary: c ms r rule: less_induct)
  case less
  let ?P = "DefaultPacketHeaderPolicy B"
  obtain chunk w where w: "h_recv H 4096 (c_world c) = (chunk, w)" by force
  show ?case
  proof (cases "chunk = []")
    case True
    note e = Run_end [OF H(2) less.prems(1) w [unfolded True] less.prems(2)]
    then have "emitted out B [] (c_world c) w" by (simp add: emitted_def)
    with e show ?thesis by auto
  next
    case False
    have inp: "inp (c_world c) = chunk @ inp w" "out w = out (c_world c)"
      using H(2) w by (auto simp: duplex_def receives_in_order_def) (metis snd_conv)
    obtain qs r1 where f1: "frames ?P MAX_BODY_LENGTH (pending (c_parser c) @ chunk) = (qs, r1)" by fastforce
    from Run_chunk [OF H less.prems(1) w False f1] obtain c1 p1
      where h: "handled B H inp out qs (c\<lparr>c_world := w\<rparr>) c1"
        and step: "Run B H c = (if r1 \<noteq> None then Run B H (c1\<lparr>c_parser := p1\<rparr>) else Some (Ret (), c1\<lparr>c_parser := p1\<rparr>))"
        and p1: "pending p1 = kept r1" "c_alive c1 \<longrightarrow> r1 \<noteq> None \<longrightarrow> run_state B inp (c1\<lparr>c_parser := p1\<rparr>)" by blast
    show ?thesis
    proof (cases r1)
      case None
      from frames_append_bad [OF f1 [unfolded None], of "inp w"] less.prems(2) inp(1) have "ms = qs" by simp
      with None step h inp(2) show ?thesis by (auto simp: handled_def emitted_def)
    next
      case (Some rest)
      obtain qs2 r2 where f2: "frames ?P MAX_BODY_LENGTH (rest @ inp w) = (qs2, r2)" by fastforce
      from frames_append [OF f1 [unfolded Some] f2] less.prems(2) inp(1) have ms: "ms = qs @ qs2" by simp
      show ?thesis
      proof (cases "c_alive c1")
        case False
        have "Run B H (c1\<lparr>c_parser := p1\<rparr>) = Some (Ret (), c1\<lparr>c_parser := p1\<rparr>)" using False by (subst Run.simps) simp
        with step Some h False ms served_closed [of B qs _ qs2] inp(2) show ?thesis
          by (auto simp: handled_def emitted_def)
      next
        case True
        with h inp(1) \<open>chunk \<noteq> []\<close> p1 Some f2
          less.hyps [of "c1\<lparr>c_parser := p1\<rparr>" qs2 r2]
        obtain c' where c': "Run B H (c1\<lparr>c_parser := p1\<rparr>) = Some (Ret (), c')"
          "accepts (h_send H) \<longrightarrow> delivers (h_recv H) inp \<longrightarrow>
             (\<exists>rs alive. served B qs2 rs alive \<and> emitted out B rs (c_world c1) (c_world c'))"
          by (auto simp: handled_def kept_def)
        with h step Some ms True inp(2) served_then [of B qs _ out _ "c_world c1" qs2 _ _ "c_world c'"] show ?thesis
          by (auto simp: handled_def emitted_from [of out w "c_world c"])
      qed
    qed
  qed
qed

lemma run_state_start:
  "length (inp w) < 2 ^ 63 \<Longrightarrow> run_state B inp (make_connection w)"
  using default_policy.settled_start [of B MAX_BODY_LENGTH]
  by (simp add: run_state_def make_connection_def conn_ok_def send_ready_def writer_vector_def writer_default_def
      writer_inv_def Reserve_def make_parser_def parser_inv_def)

lemma Run_answers:
  assumes H: "clock_ok H" "duplex H inp out" "accepts (h_send H)" "delivers (h_recv H) inp"
    and w: "length (inp w) < 2 ^ 63"
    and ms: "frames (DefaultPacketHeaderPolicy B) MAX_BODY_LENGTH (inp w) = (ms, r)"
  shows "\<exists>c' rs alive. Run B H (make_connection w) = Some (Ret (), c') \<and> served B ms rs alive \<and>
    out (c_world c') = out w @ concat (map (packet_bytes (DefaultPacketHeaderPolicy B)) rs)"
proof -
  have "pending (c_parser (make_connection w)) @ inp (c_world (make_connection w)) = inp w" "c_world (make_connection w) = w"
    by (simp_all add: make_connection_def make_parser_def pending_def)
  with Run_serves [OF H(1,2) run_state_start [of inp w, OF w], of B ms r] H(3,4) ms show ?thesis by (auto simp: emitted_def)
qed

text \<open>A request that is the only packet of the stream gets its reply.\<close>

lemma served_single:
  assumes "served B [m] rs alive" "\<And>now. \<exists>r. reply B now m = Some r"
  shows "\<exists>now r. reply B now m = Some r \<and> rs = [r]"
  using assms by (auto elim!: served_ConsE) (metis option.distinct(1))

lemma Run_answers_one:
  assumes H: "clock_ok H" "duplex H inp out" "accepts (h_send H)" "delivers (h_recv H) inp"
    and w: "inp w = packet_bytes (DefaultPacketHeaderPolicy B) m" "length (snd m) \<le> MAX_BODY_LENGTH"
    and r: "\<And>now. reply B now m = Some (f now)"
  shows "\<exists>c' now. Run B H (make_connection w) = Some (Ret (), c') \<and>
    out (c_world c') = out w @ packet_bytes (DefaultPacketHeaderPolicy B) (f now)"
proof -
  let ?P = "DefaultPacketHeaderPolicy B"
  have l: "length (snd m) < 2 ^ 31" using w(2) by (simp add: MAX_BODY_LENGTH_def)
  have "length (packet_bytes ?P m) < 2 ^ 63"
    using l default_policy.length_Write [of B "fst m" "word_of_nat (length (snd m))"]
    by (simp add: packet_bytes_def DefaultPacketHeaderPolicy_def)
  then have len: "length (inp w) < 2 ^ 63" by (simp add: w)
  have "frames ?P MAX_BODY_LENGTH (inp w) = ([m], Some [])"
    using default_policy.frames_packets [of "[m]" MAX_BODY_LENGTH B] l w by simp
  from Run_answers [OF H len this] obtain c' rs alive where c': "Run B H (make_connection w) = Some (Ret (), c')"
    "served B [m] rs alive" "out (c_world c') = out w @ concat (map (packet_bytes ?P) rs)" by blast
  from served_single [OF c'(2)] r obtain now where "rs = [f now]" by auto
  with c' show ?thesis by auto
qed

end
