(* ===== verification/GamePackets.thy ===== *)
theory GamePackets
  imports Structs Packet
begin

text \<open>
  The protocol of the C++ client sample (\<^verbatim>\<open>samples/CppClient/packets.hpp\<close>): eight structs with
  generated serializers, three with hand-written ones for C arrays of which a stored number of
  slots is in use, and the dispatch table. A \<^verbatim>\<open>float\<close> or \<^verbatim>\<open>double\<close> is its bit pattern, a C array a list of
  its fixed length.

  The hand-written structs are \<open>message_codec\<close>s and not \<open>codec\<close>s: reading into an object in use
  keeps the slots behind the received elements.
\<close>

datatype GamePacketId = LoginRequestId
  | LoginResponseId
  | PlayerStateId
  | ScoreUpdateId
  | ChatMessageId
  | InventoryDataId
  | BufferDataId
  | IntArrayPacketId
  | SkillSlotDataId
  | MapTileRowId
  | MixedFormatPacketId

fun GamePacketId_value :: "GamePacketId \<Rightarrow> u16" where
  "GamePacketId_value LoginRequestId = 1"
| "GamePacketId_value LoginResponseId = 2"
| "GamePacketId_value PlayerStateId = 3"
| "GamePacketId_value ScoreUpdateId = 4"
| "GamePacketId_value ChatMessageId = 5"
| "GamePacketId_value InventoryDataId = 6"
| "GamePacketId_value BufferDataId = 7"
| "GamePacketId_value IntArrayPacketId = 8"
| "GamePacketId_value SkillSlotDataId = 9"
| "GamePacketId_value MapTileRowId = 10"
| "GamePacketId_value MixedFormatPacketId = 11"

record LoginRequest =
  lrq_username :: bytes
  lrq_level :: u32

record LoginResponse =
  lrs_success :: bool
  lrs_playerId :: u32
  lrs_message :: bytes

record PlayerState =
  pst_playerId :: u32
  pst_posX :: u32
  pst_posY :: u32
  pst_posZ :: u32
  pst_name :: bytes

record ScoreUpdate =
  scu_playerId :: u32
  scu_scores :: "u32 list"
  scu_totalScore :: u64

record ChatMessage =
  chm_senderId :: u32
  chm_message :: bytes
  chm_timestamp :: u64

record InventoryData =
  inv_playerId :: u32
  inv_itemNames :: "bytes list"
  inv_itemCounts :: "u32 list"

record BufferData =
  bfd_tag :: byte
  bfd_grade :: byte
  bfd_rawData :: bytes
  bfd_charCodes :: bytes

record IntArrayPacket =
  iap_id :: u32
  iap_shortArray :: "u16 list"
  iap_intArray :: "u32 list"
  iap_longArray :: "u64 list"

definition LoginRequest_members :: "LoginRequest member list" where
  "LoginRequest_members = [member string_formatter lrq_username (\<lambda>x. lrq_username_update (\<lambda>_. x)),
     member uint32_formatter lrq_level (\<lambda>x. lrq_level_update (\<lambda>_. x))]"

definition LoginResponse_members :: "LoginResponse member list" where
  "LoginResponse_members = [member bool_formatter lrs_success (\<lambda>x. lrs_success_update (\<lambda>_. x)),
     member uint32_formatter lrs_playerId (\<lambda>x. lrs_playerId_update (\<lambda>_. x)),
     member string_formatter lrs_message (\<lambda>x. lrs_message_update (\<lambda>_. x))]"

definition PlayerState_members :: "PlayerState member list" where
  "PlayerState_members = [member uint32_formatter pst_playerId (\<lambda>x. pst_playerId_update (\<lambda>_. x)),
     member float_formatter pst_posX (\<lambda>x. pst_posX_update (\<lambda>_. x)),
     member float_formatter pst_posY (\<lambda>x. pst_posY_update (\<lambda>_. x)),
     member float_formatter pst_posZ (\<lambda>x. pst_posZ_update (\<lambda>_. x)),
     member string_formatter pst_name (\<lambda>x. pst_name_update (\<lambda>_. x))]"

definition ScoreUpdate_members :: "ScoreUpdate member list" where
  "ScoreUpdate_members = [member uint32_formatter scu_playerId (\<lambda>x. scu_playerId_update (\<lambda>_. x)),
     member vector_formatter_arith scu_scores (\<lambda>x. scu_scores_update (\<lambda>_. x)),
     member double_formatter scu_totalScore (\<lambda>x. scu_totalScore_update (\<lambda>_. x))]"

definition ChatMessage_members :: "ChatMessage member list" where
  "ChatMessage_members = [member uint32_formatter chm_senderId (\<lambda>x. chm_senderId_update (\<lambda>_. x)),
     member string_formatter chm_message (\<lambda>x. chm_message_update (\<lambda>_. x)),
     member uint64_formatter chm_timestamp (\<lambda>x. chm_timestamp_update (\<lambda>_. x))]"

definition InventoryData_members :: "InventoryData member list" where
  "InventoryData_members = [member uint32_formatter inv_playerId (\<lambda>x. inv_playerId_update (\<lambda>_. x)),
     member (vector_formatter string_formatter) inv_itemNames (\<lambda>x. inv_itemNames_update (\<lambda>_. x)),
     member vector_formatter_arith inv_itemCounts (\<lambda>x. inv_itemCounts_update (\<lambda>_. x))]"

definition BufferData_members :: "BufferData member list" where
  "BufferData_members = [member uint8_formatter bfd_tag (\<lambda>x. bfd_tag_update (\<lambda>_. x)),
     member uint8_formatter bfd_grade (\<lambda>x. bfd_grade_update (\<lambda>_. x)),
     member vector_formatter_arith bfd_rawData (\<lambda>x. bfd_rawData_update (\<lambda>_. x)),
     member vector_formatter_arith bfd_charCodes (\<lambda>x. bfd_charCodes_update (\<lambda>_. x))]"

definition IntArrayPacket_members :: "IntArrayPacket member list" where
  "IntArrayPacket_members = [member uint32_formatter iap_id (\<lambda>x. iap_id_update (\<lambda>_. x)),
     member vector_formatter_arith iap_shortArray (\<lambda>x. iap_shortArray_update (\<lambda>_. x)),
     member vector_formatter_arith iap_intArray (\<lambda>x. iap_intArray_update (\<lambda>_. x)),
     member vector_formatter_arith iap_longArray (\<lambda>x. iap_longArray_update (\<lambda>_. x))]"

definition LoginRequest_init :: LoginRequest where
  "LoginRequest_init = \<lparr>lrq_username = [], lrq_level = 0\<rparr>"

definition LoginResponse_init :: LoginResponse where
  "LoginResponse_init = \<lparr>lrs_success = False, lrs_playerId = 0, lrs_message = []\<rparr>"

definition PlayerState_init :: PlayerState where
  "PlayerState_init = \<lparr>pst_playerId = 0, pst_posX = 0, pst_posY = 0, pst_posZ = 0, pst_name = []\<rparr>"

definition ScoreUpdate_init :: ScoreUpdate where
  "ScoreUpdate_init = \<lparr>scu_playerId = 0, scu_scores = [], scu_totalScore = 0\<rparr>"

definition ChatMessage_init :: ChatMessage where
  "ChatMessage_init = \<lparr>chm_senderId = 0, chm_message = [], chm_timestamp = 0\<rparr>"

definition InventoryData_init :: InventoryData where
  "InventoryData_init = \<lparr>inv_playerId = 0, inv_itemNames = [], inv_itemCounts = []\<rparr>"

definition BufferData_init :: BufferData where
  "BufferData_init = \<lparr>bfd_tag = 0, bfd_grade = 0, bfd_rawData = [], bfd_charCodes = []\<rparr>"

definition IntArrayPacket_init :: IntArrayPacket where
  "IntArrayPacket_init = \<lparr>iap_id = 0, iap_shortArray = [], iap_intArray = [], iap_longArray = []\<rparr>"

definition LoginRequest_formatter :: "LoginRequest MemoryPackFormatter" where
  "LoginRequest_formatter = MEMORYPACK_DEFINE LoginRequest_init LoginRequest_members"

definition LoginResponse_formatter :: "LoginResponse MemoryPackFormatter" where
  "LoginResponse_formatter = MEMORYPACK_DEFINE LoginResponse_init LoginResponse_members"

definition PlayerState_formatter :: "PlayerState MemoryPackFormatter" where
  "PlayerState_formatter = MEMORYPACK_DEFINE PlayerState_init PlayerState_members"

definition ScoreUpdate_formatter :: "ScoreUpdate MemoryPackFormatter" where
  "ScoreUpdate_formatter = MEMORYPACK_DEFINE ScoreUpdate_init ScoreUpdate_members"

definition ChatMessage_formatter :: "ChatMessage MemoryPackFormatter" where
  "ChatMessage_formatter = MEMORYPACK_DEFINE ChatMessage_init ChatMessage_members"

definition InventoryData_formatter :: "InventoryData MemoryPackFormatter" where
  "InventoryData_formatter = MEMORYPACK_DEFINE InventoryData_init InventoryData_members"

definition BufferData_formatter :: "BufferData MemoryPackFormatter" where
  "BufferData_formatter = MEMORYPACK_DEFINE BufferData_init BufferData_members"

definition IntArrayPacket_formatter :: "IntArrayPacket MemoryPackFormatter" where
  "IntArrayPacket_formatter = MEMORYPACK_DEFINE IntArrayPacket_init IntArrayPacket_members"

section \<open>Layouts\<close>

definition LoginRequest_layout :: "LoginRequest layout" where
  "LoginRequest_layout = zip LoginRequest_members [string_field lrq_username (\<lambda>x. lrq_username_update (\<lambda>_. x)),
     word_field lrq_level (\<lambda>x. lrq_level_update (\<lambda>_. x))]"

definition LoginResponse_layout :: "LoginResponse layout" where
  "LoginResponse_layout = zip LoginResponse_members [bool_field lrs_success (\<lambda>x. lrs_success_update (\<lambda>_. x)),
     word_field lrs_playerId (\<lambda>x. lrs_playerId_update (\<lambda>_. x)),
     string_field lrs_message (\<lambda>x. lrs_message_update (\<lambda>_. x))]"

definition PlayerState_layout :: "PlayerState layout" where
  "PlayerState_layout = zip PlayerState_members [word_field pst_playerId (\<lambda>x. pst_playerId_update (\<lambda>_. x)),
     word_field pst_posX (\<lambda>x. pst_posX_update (\<lambda>_. x)),
     word_field pst_posY (\<lambda>x. pst_posY_update (\<lambda>_. x)),
     word_field pst_posZ (\<lambda>x. pst_posZ_update (\<lambda>_. x)),
     string_field pst_name (\<lambda>x. pst_name_update (\<lambda>_. x))]"

definition ScoreUpdate_layout :: "ScoreUpdate layout" where
  "ScoreUpdate_layout = zip ScoreUpdate_members [word_field scu_playerId (\<lambda>x. scu_playerId_update (\<lambda>_. x)),
     vector_field scu_scores (\<lambda>x. scu_scores_update (\<lambda>_. x)),
     word_field scu_totalScore (\<lambda>x. scu_totalScore_update (\<lambda>_. x))]"

definition ChatMessage_layout :: "ChatMessage layout" where
  "ChatMessage_layout = zip ChatMessage_members [word_field chm_senderId (\<lambda>x. chm_senderId_update (\<lambda>_. x)),
     string_field chm_message (\<lambda>x. chm_message_update (\<lambda>_. x)),
     word_field chm_timestamp (\<lambda>x. chm_timestamp_update (\<lambda>_. x))]"

definition InventoryData_layout :: "InventoryData layout" where
  "InventoryData_layout = zip InventoryData_members [word_field inv_playerId (\<lambda>x. inv_playerId_update (\<lambda>_. x)),
     strings_field inv_itemNames (\<lambda>x. inv_itemNames_update (\<lambda>_. x)),
     vector_field inv_itemCounts (\<lambda>x. inv_itemCounts_update (\<lambda>_. x))]"

definition BufferData_layout :: "BufferData layout" where
  "BufferData_layout = zip BufferData_members [word_field bfd_tag (\<lambda>x. bfd_tag_update (\<lambda>_. x)),
     word_field bfd_grade (\<lambda>x. bfd_grade_update (\<lambda>_. x)),
     vector_field bfd_rawData (\<lambda>x. bfd_rawData_update (\<lambda>_. x)),
     vector_field bfd_charCodes (\<lambda>x. bfd_charCodes_update (\<lambda>_. x))]"

definition IntArrayPacket_layout :: "IntArrayPacket layout" where
  "IntArrayPacket_layout = zip IntArrayPacket_members [word_field iap_id (\<lambda>x. iap_id_update (\<lambda>_. x)),
     vector_field iap_shortArray (\<lambda>x. iap_shortArray_update (\<lambda>_. x)),
     vector_field iap_intArray (\<lambda>x. iap_intArray_update (\<lambda>_. x)),
     vector_field iap_longArray (\<lambda>x. iap_longArray_update (\<lambda>_. x))]"

lemmas game_layouts =
  LoginRequest_layout_def LoginRequest_members_def
  LoginResponse_layout_def LoginResponse_members_def
  PlayerState_layout_def PlayerState_members_def
  ScoreUpdate_layout_def ScoreUpdate_members_def
  ChatMessage_layout_def ChatMessage_members_def
  InventoryData_layout_def InventoryData_members_def
  BufferData_layout_def BufferData_members_def
  IntArrayPacket_layout_def IntArrayPacket_members_def

lemma game_members [simp]:
  "map fst LoginRequest_layout = LoginRequest_members"
  "map fst LoginResponse_layout = LoginResponse_members"
  "map fst PlayerState_layout = PlayerState_members"
  "map fst ScoreUpdate_layout = ScoreUpdate_members"
  "map fst ChatMessage_layout = ChatMessage_members"
  "map fst InventoryData_layout = InventoryData_members"
  "map fst BufferData_layout = BufferData_members"
  "map fst IntArrayPacket_layout = IntArrayPacket_members"
  by (simp_all add: game_layouts)

interpretation LoginRequest: struct_codec LoginRequest_init LoginRequest_layout
  by (rule struct_codec.intro) (auto simp: game_layouts intro: struct_members)

interpretation LoginResponse: struct_codec LoginResponse_init LoginResponse_layout
  by (rule struct_codec.intro) (auto simp: game_layouts intro: struct_members)

interpretation PlayerState: struct_codec PlayerState_init PlayerState_layout
  by (rule struct_codec.intro) (auto simp: game_layouts intro: struct_members)

interpretation ScoreUpdate: struct_codec ScoreUpdate_init ScoreUpdate_layout
  by (rule struct_codec.intro) (auto simp: game_layouts intro: struct_members)

interpretation ChatMessage: struct_codec ChatMessage_init ChatMessage_layout
  by (rule struct_codec.intro) (auto simp: game_layouts intro: struct_members)

interpretation InventoryData: struct_codec InventoryData_init InventoryData_layout
  by (rule struct_codec.intro) (auto simp: game_layouts intro: struct_members)

interpretation BufferData: struct_codec BufferData_init BufferData_layout
  by (rule struct_codec.intro) (auto simp: game_layouts intro: struct_members)

interpretation IntArrayPacket: struct_codec IntArrayPacket_init IntArrayPacket_layout
  by (rule struct_codec.intro) (auto simp: game_layouts intro: struct_members)

lemmas game_formatters =
  LoginRequest_formatter_def
  LoginResponse_formatter_def
  PlayerState_formatter_def
  ScoreUpdate_formatter_def
  ChatMessage_formatter_def
  InventoryData_formatter_def
  BufferData_formatter_def
  IntArrayPacket_formatter_def

section \<open>Structs with C arrays\<close>

record SkillSlotData =
  ssd_playerId :: u32
  ssd_skillIds :: "u32 list"
  ssd_skillCount :: u32
  ssd_cooldowns :: "u32 list"
  ssd_cooldownCount :: u32

record MapTileRow =
  mtr_rowIndex :: u32
  mtr_tiles :: bytes
  mtr_tileCount :: u32
  mtr_heights :: "u16 list"
  mtr_heightCount :: u32

record MixedFormatPacket =
  mfp_id :: u32
  mfp_dynamicScores :: "u32 list"
  mfp_fixedBonuses :: "u32 list"
  mfp_fixedBonusCount :: u32
  mfp_tagBytes :: bytes
  mfp_tagByteCount :: u32
  mfp_multiplier :: u64

definition SkillSlotData_init :: SkillSlotData where
  "SkillSlotData_init = \<lparr>ssd_playerId = 0, ssd_skillIds = replicate 8 0, ssd_skillCount = 0,
     ssd_cooldowns = replicate 8 0, ssd_cooldownCount = 0\<rparr>"

definition MapTileRow_init :: MapTileRow where
  "MapTileRow_init = \<lparr>mtr_rowIndex = 0, mtr_tiles = replicate 64 0, mtr_tileCount = 0,
     mtr_heights = replicate 64 0, mtr_heightCount = 0\<rparr>"

definition MixedFormatPacket_init :: MixedFormatPacket where
  "MixedFormatPacket_init = \<lparr>mfp_id = 0, mfp_dynamicScores = [], mfp_fixedBonuses = replicate 4 0,
     mfp_fixedBonusCount = 0, mfp_tagBytes = replicate 16 0, mfp_tagByteCount = 0, mfp_multiplier = 0\<rparr>"

definition SkillSlotData_Serialize :: "build \<Rightarrow> SkillSlotData option \<Rightarrow> unit wop" where
  "SkillSlotData_Serialize B v = (case v of
     None \<Rightarrow> WriteNullObjectHeader B
   | Some v \<Rightarrow>
       seq (WriteObjectHeader B 3)
      (seq (WriteInt32 B (ssd_playerId v))
      (seq (WriteArray B (ssd_skillIds v) (ssd_skillCount v))
           (WriteArray B (ssd_cooldowns v) (ssd_cooldownCount v)))))"

definition SkillSlotData_Deserialize :: "build \<Rightarrow> SkillSlotData \<Rightarrow> SkillSlotData rop" where
  "SkillSlotData_Deserialize B v = bind (ReadObjectHeader B) (\<lambda>header.
     if isNull header then return v
     else
       bind (if count header \<ge> 1 then bind (ReadInt32 B) (\<lambda>x. return (v\<lparr>ssd_playerId := x\<rparr>)) else return v) (\<lambda>v.
       bind (if count header \<ge> 2 then bind (ReadArray B (ssd_skillIds v) 8) (\<lambda>(a, n).
               return (v\<lparr>ssd_skillIds := a, ssd_skillCount := n\<rparr>)) else return v) (\<lambda>v.
       if count header \<ge> 3 then bind (ReadArray B (ssd_cooldowns v) 8) (\<lambda>(a, n).
               return (v\<lparr>ssd_cooldowns := a, ssd_cooldownCount := n\<rparr>)) else return v)))"

definition MapTileRow_Serialize :: "build \<Rightarrow> MapTileRow option \<Rightarrow> unit wop" where
  "MapTileRow_Serialize B v = (case v of
     None \<Rightarrow> WriteNullObjectHeader B
   | Some v \<Rightarrow>
       seq (WriteObjectHeader B 3)
      (seq (WriteInt32 B (mtr_rowIndex v))
      (seq (WriteArray B (mtr_tiles v) (mtr_tileCount v))
           (WriteArray B (mtr_heights v) (mtr_heightCount v)))))"

definition MapTileRow_Deserialize :: "build \<Rightarrow> MapTileRow \<Rightarrow> MapTileRow rop" where
  "MapTileRow_Deserialize B v = bind (ReadObjectHeader B) (\<lambda>header.
     if isNull header then return v
     else
       bind (if count header \<ge> 1 then bind (ReadInt32 B) (\<lambda>x. return (v\<lparr>mtr_rowIndex := x\<rparr>)) else return v) (\<lambda>v.
       bind (if count header \<ge> 2 then bind (ReadArray B (mtr_tiles v) 64) (\<lambda>(a, n).
               return (v\<lparr>mtr_tiles := a, mtr_tileCount := n\<rparr>)) else return v) (\<lambda>v.
       if count header \<ge> 3 then bind (ReadArray B (mtr_heights v) 64) (\<lambda>(a, n).
               return (v\<lparr>mtr_heights := a, mtr_heightCount := n\<rparr>)) else return v)))"

definition MixedFormatPacket_Serialize :: "build \<Rightarrow> MixedFormatPacket option \<Rightarrow> unit wop" where
  "MixedFormatPacket_Serialize B v = (case v of
     None \<Rightarrow> WriteNullObjectHeader B
   | Some v \<Rightarrow>
       seq (WriteObjectHeader B 5)
      (seq (WriteInt32 B (mfp_id v))
      (seq (WriteVector B (mfp_dynamicScores v))
      (seq (WriteArray B (mfp_fixedBonuses v) (mfp_fixedBonusCount v))
      (seq (WriteArray B (mfp_tagBytes v) (mfp_tagByteCount v))
           (WriteDouble B (mfp_multiplier v)))))))"

definition MixedFormatPacket_Deserialize :: "build \<Rightarrow> MixedFormatPacket \<Rightarrow> MixedFormatPacket rop" where
  "MixedFormatPacket_Deserialize B v = bind (ReadObjectHeader B) (\<lambda>header.
     if isNull header then return v
     else
       bind (if count header \<ge> 1 then bind (ReadInt32 B) (\<lambda>x. return (v\<lparr>mfp_id := x\<rparr>)) else return v) (\<lambda>v.
       bind (if count header \<ge> 2 then bind (ReadVector B) (\<lambda>x. return (v\<lparr>mfp_dynamicScores := x\<rparr>)) else return v) (\<lambda>v.
       bind (if count header \<ge> 3 then bind (ReadArray B (mfp_fixedBonuses v) 4) (\<lambda>(a, n).
               return (v\<lparr>mfp_fixedBonuses := a, mfp_fixedBonusCount := n\<rparr>)) else return v) (\<lambda>v.
       bind (if count header \<ge> 4 then bind (ReadArray B (mfp_tagBytes v) 16) (\<lambda>(a, n).
               return (v\<lparr>mfp_tagBytes := a, mfp_tagByteCount := n\<rparr>)) else return v) (\<lambda>v.
       if count header \<ge> 5 then bind (ReadDouble B) (\<lambda>x. return (v\<lparr>mfp_multiplier := x\<rparr>)) else return v)))))"

text \<open>The specialisations of \<^verbatim>\<open>IMemoryPackable\<close> as formatters.\<close>

definition handwritten :: "'s \<Rightarrow> (build \<Rightarrow> 's option \<Rightarrow> unit wop) \<Rightarrow> (build \<Rightarrow> 's \<Rightarrow> 's rop) \<Rightarrow> 's MemoryPackFormatter" where
  "handwritten init ser deser = \<lparr>is_arithmetic = False, is_enum = False, is_string = False, size_of = 1,
     value_init = init, formatter_Serialize = (\<lambda>B v. ser B (Some v)), formatter_Deserialize = deser\<rparr>"

definition SkillSlotData_formatter :: "SkillSlotData MemoryPackFormatter" where
  "SkillSlotData_formatter = handwritten SkillSlotData_init SkillSlotData_Serialize SkillSlotData_Deserialize"

definition MapTileRow_formatter :: "MapTileRow MemoryPackFormatter" where
  "MapTileRow_formatter = handwritten MapTileRow_init MapTileRow_Serialize MapTileRow_Deserialize"

definition MixedFormatPacket_formatter :: "MixedFormatPacket MemoryPackFormatter" where
  "MixedFormatPacket_formatter =
     handwritten MixedFormatPacket_init MixedFormatPacket_Serialize MixedFormatPacket_Deserialize"

section \<open>Dispatch\<close>

text \<open>The argument of the overloaded handler.\<close>

datatype GamePacket =
    LoginRequestPacket LoginRequest
  | LoginResponsePacket LoginResponse
  | PlayerStatePacket PlayerState
  | ScoreUpdatePacket ScoreUpdate
  | ChatMessagePacket ChatMessage
  | InventoryDataPacket InventoryData
  | BufferDataPacket BufferData
  | IntArrayPacketPacket IntArrayPacket
  | SkillSlotDataPacket SkillSlotData
  | MapTileRowPacket MapTileRow
  | MixedFormatPacketPacket MixedFormatPacket

definition DispatchPacket :: "build \<Rightarrow> u16 \<Rightarrow> bytes \<Rightarrow> (GamePacket \<Rightarrow> ('s, unit) op) \<Rightarrow> ('s, bool) op" where
  "DispatchPacket B pid body handler =
     (if pid = GamePacketId_value LoginRequestId then dispatch_as B LoginRequest_formatter (\<lambda>v. handler (LoginRequestPacket v)) body
      else if pid = GamePacketId_value LoginResponseId then dispatch_as B LoginResponse_formatter (\<lambda>v. handler (LoginResponsePacket v)) body
      else if pid = GamePacketId_value PlayerStateId then dispatch_as B PlayerState_formatter (\<lambda>v. handler (PlayerStatePacket v)) body
      else if pid = GamePacketId_value ScoreUpdateId then dispatch_as B ScoreUpdate_formatter (\<lambda>v. handler (ScoreUpdatePacket v)) body
      else if pid = GamePacketId_value ChatMessageId then dispatch_as B ChatMessage_formatter (\<lambda>v. handler (ChatMessagePacket v)) body
      else if pid = GamePacketId_value InventoryDataId then dispatch_as B InventoryData_formatter (\<lambda>v. handler (InventoryDataPacket v)) body
      else if pid = GamePacketId_value BufferDataId then dispatch_as B BufferData_formatter (\<lambda>v. handler (BufferDataPacket v)) body
      else if pid = GamePacketId_value IntArrayPacketId then dispatch_as B IntArrayPacket_formatter (\<lambda>v. handler (IntArrayPacketPacket v)) body
      else if pid = GamePacketId_value SkillSlotDataId then dispatch_as B SkillSlotData_formatter (\<lambda>v. handler (SkillSlotDataPacket v)) body
      else if pid = GamePacketId_value MapTileRowId then dispatch_as B MapTileRow_formatter (\<lambda>v. handler (MapTileRowPacket v)) body
      else if pid = GamePacketId_value MixedFormatPacketId then dispatch_as B MixedFormatPacket_formatter (\<lambda>v. handler (MixedFormatPacketPacket v)) body
      else return False)"

section \<open>Arrays in use\<close>

text \<open>A C array whose first \<open>cnt\<close> slots are in use and whose other slots are zero.\<close>

definition array_ok :: "nat \<Rightarrow> 'a::len word list \<Rightarrow> u32 \<Rightarrow> bool" where
  "array_ok N arr cnt \<longleftrightarrow> length arr = N \<and> unat cnt \<le> N \<and> drop (unat cnt) arr = replicate (N - unat cnt) 0"

definition enc_array :: "'a::len word list \<Rightarrow> u32 \<Rightarrow> bytes" where
  "enc_array arr cnt = enc_collection le_bytes (take (unat cnt) arr)"

lemma emits_array: "array_ok N arr cnt \<Longrightarrow> N < 2 ^ 31 \<Longrightarrow> emits B (WriteArray B arr cnt) (enc_array arr cnt)"
  using emits_WriteArray [of "unat cnt" arr B] by (simp add: array_ok_def enc_array_def)

lemma decodes_array:
  assumes "array_ok N arr cnt" "N < 2 ^ 31" "8 dvd LENGTH('a::len)"
    and "\<And>opts d. F opts d \<Longrightarrow> unat cnt \<le> unat (maxCollectionLength opts)"
  shows "decodes F (ReadArray B (replicate N 0 :: 'a word list) (word_of_nat N)) (enc_array arr cnt) (arr, cnt)"
proof -
  let ?xs = "take (unat cnt) arr"
  have l: "length ?xs = unat cnt" using assms(1) by (simp add: array_ok_def min.absorb2)
  have "?xs @ drop (length ?xs) (replicate N 0) = arr"
    using assms(1) l append_take_drop_id [of "unat cnt" arr] by (simp add: array_ok_def)
  moreover have "decodes F (ReadArray B (replicate N 0) (word_of_nat N)) (enc_collection le_bytes ?xs)
     (?xs @ drop (length ?xs) (replicate N 0), word_of_nat (length ?xs))"
    using assms l sint_of_nat_32 [OF assms(2)] by (intro decodes_ReadArray) (auto simp: array_ok_def)
  ultimately show ?thesis using l by (simp add: enc_array_def)
qed


section \<open>The hand-written structs\<close>

lemmas message_simps = Write_def Read_def handwritten_def

definition SkillSlotData_ok :: "SkillSlotData \<Rightarrow> bool" where
  "SkillSlotData_ok v \<longleftrightarrow> array_ok 8 (ssd_skillIds v) (ssd_skillCount v) \<and> array_ok 8 (ssd_cooldowns v) (ssd_cooldownCount v)"

definition SkillSlotData_enc :: "SkillSlotData \<Rightarrow> bytes" where
  "SkillSlotData_enc v = 3 # le_bytes (ssd_playerId v) @ enc_array (ssd_skillIds v) (ssd_skillCount v) @
     enc_array (ssd_cooldowns v) (ssd_cooldownCount v)"

definition SkillSlotData_fits :: "SkillSlotData \<Rightarrow> ReaderOptions \<Rightarrow> nat \<Rightarrow> bool" where
  "SkillSlotData_fits v opts d \<longleftrightarrow> unat (ssd_skillCount v) \<le> unat (maxCollectionLength opts) \<and>
     unat (ssd_cooldownCount v) \<le> unat (maxCollectionLength opts)"

lemma emits_header: "n \<le> 249 \<Longrightarrow> emits B m bs \<Longrightarrow> emits B (seq (WriteObjectHeader B n) m) (n # bs)"
  using emits_seq [OF emits_WriteObjectHeader] by fastforce

lemma decodes_header:
  "n \<le> 249 \<Longrightarrow> decodes F (f \<lparr>count = n, isNull = False\<rparr>) bs v \<Longrightarrow> decodes F (bind (ReadObjectHeader B) f) (n # bs) v"
  using decodes_bind [OF decodes_ReadObjectHeader, of n F f bs v B] by simp

lemma decodes_raw:
  "8 dvd LENGTH('a::len) \<Longrightarrow> decodes F (k (x :: 'a word)) rest w \<Longrightarrow> decodes F (bind (ReadRaw B) k) (le_bytes x @ rest) w"
  by (rule decodes_bind [OF decodes_ReadRaw])

lemma decodes_slots:
  assumes "array_ok N (arr :: 'a::len word list) cnt" "N < 2 ^ 31" "8 dvd LENGTH('a)" "M = word_of_nat N"
    and "\<And>opts d. F opts d \<Longrightarrow> unat cnt \<le> unat (maxCollectionLength opts)"
    and "decodes F (k (arr, cnt)) rest w"
  shows "decodes F (bind (ReadArray B (replicate N 0) M) k) (enc_array arr cnt @ rest) w"
proof -
  have "decodes F (ReadArray B (replicate N 0) M) (enc_array arr cnt) (arr, cnt)"
    unfolding assms(4) by (rule decodes_array [OF assms(1-3)]) (rule assms(5))
  then show ?thesis using assms(6) by (rule decodes_bind)
qed

lemma decodes_done: "v = w \<Longrightarrow> decodes F (return v) [] w"
  using decodes_return [of F v] by simp

text \<open>Reading arrays of the declared length is safe; the other members keep their arrays.\<close>

lemma reader_action_keep:
  assumes "\<And>u. P u \<Longrightarrow> reader_action (\<lambda>B. k B u)"
    and "c \<Longrightarrow> reader_action m" "\<And>x. P v \<Longrightarrow> P (f x v)" "P v"
  shows "reader_action (\<lambda>B. bind (if c then bind (m B) (\<lambda>x. return (f x v)) else return v) (k B))"
proof (rule reader_action_bind_post [where Q = P])
  show "reader_action (\<lambda>B. if c then bind (m B) (\<lambda>x. return (f x v)) else return v)"
    using assms(2) by (cases c) (auto intro!: reader_intros)
  show "P u" if "(if c then bind (m B) (\<lambda>x. return (f x v)) else return v) r = (Ret u, s)" for B r u s
    using that assms(3,4) by (auto simp: bind_def split: if_splits prod.splits outcome.splits)
qed (rule assms(1))

interpretation SkillSlotData: message_codec SkillSlotData_formatter SkillSlotData_enc SkillSlotData_ok SkillSlotData_fits
proof (rule message_codec.intro)
  fix B v assume ok: "SkillSlotData_ok v"
  then show "emits B (Write B SkillSlotData_formatter v) (SkillSlotData_enc v)"
    unfolding SkillSlotData_formatter_def message_simps SkillSlotData_Serialize_def SkillSlotData_enc_def
      MemoryPackFormatter.simps option.case WriteInt32_def SkillSlotData_ok_def
    by (intro emits_header emits_seq emits_WriteRaw emits_array [where N = 8]) auto
  let ?F = "SkillSlotData_fits v"
  have "decodes ?F (bind (ReadRaw B) (\<lambda>i. bind (ReadArray B (replicate 8 0) 8) (\<lambda>a. bind (ReadArray B (replicate 8 0) 8) (\<lambda>b.
      return \<lparr>ssd_playerId = i, ssd_skillIds = fst a, ssd_skillCount = snd a, ssd_cooldowns = fst b, ssd_cooldownCount = snd b\<rparr>))))
      (le_bytes (ssd_playerId v) @ enc_array (ssd_skillIds v) (ssd_skillCount v) @
       enc_array (ssd_cooldowns v) (ssd_cooldownCount v) @ []) v"
    using ok by (intro decodes_raw decodes_slots decodes_done) (auto simp: SkillSlotData_ok_def SkillSlotData_fits_def)
  then show "decodes ?F (Read B SkillSlotData_formatter (value_init SkillSlotData_formatter)) (SkillSlotData_enc v) v"
    unfolding SkillSlotData_formatter_def message_simps SkillSlotData_Deserialize_def SkillSlotData_enc_def
      MemoryPackFormatter.simps ReadInt32_def SkillSlotData_init_def
    by (intro decodes_header) (simp_all add: bind_assoc case_prod_beta')
next
  show "reader_action (\<lambda>B. Read B SkillSlotData_formatter (value_init SkillSlotData_formatter))"
    unfolding SkillSlotData_formatter_def message_simps SkillSlotData_Deserialize_def MemoryPackFormatter.simps
      ReadInt32_def case_prod_beta'
    by (rule reader_action_bind, rule reader_intros, rule reader_action_if, rule reader_intros,
        rule reader_action_keep [where P = "\<lambda>v. length (ssd_skillIds v) = 8 \<and> length (ssd_cooldowns v) = 8"],
        rule reader_action_keep [where P = "\<lambda>v. length (ssd_cooldowns v) = 8"])
      (auto simp: SkillSlotData_init_def intro!: reader_intros)
qed


definition MapTileRow_ok :: "MapTileRow \<Rightarrow> bool" where
  "MapTileRow_ok v \<longleftrightarrow> array_ok 64 (mtr_tiles v) (mtr_tileCount v) \<and> array_ok 64 (mtr_heights v) (mtr_heightCount v)"

definition MapTileRow_enc :: "MapTileRow \<Rightarrow> bytes" where
  "MapTileRow_enc v = 3 # le_bytes (mtr_rowIndex v) @ enc_array (mtr_tiles v) (mtr_tileCount v) @
     enc_array (mtr_heights v) (mtr_heightCount v)"

definition MapTileRow_fits :: "MapTileRow \<Rightarrow> ReaderOptions \<Rightarrow> nat \<Rightarrow> bool" where
  "MapTileRow_fits v opts d \<longleftrightarrow> unat (mtr_tileCount v) \<le> unat (maxCollectionLength opts) \<and>
     unat (mtr_heightCount v) \<le> unat (maxCollectionLength opts)"

interpretation MapTileRow: message_codec MapTileRow_formatter MapTileRow_enc MapTileRow_ok MapTileRow_fits
proof (rule message_codec.intro)
  fix B v assume ok: "MapTileRow_ok v"
  then show "emits B (Write B MapTileRow_formatter v) (MapTileRow_enc v)"
    unfolding MapTileRow_formatter_def message_simps MapTileRow_Serialize_def MapTileRow_enc_def
      MemoryPackFormatter.simps option.case WriteInt32_def MapTileRow_ok_def
    by (intro emits_header emits_seq emits_WriteRaw emits_array [where N = 64]) auto
  let ?F = "MapTileRow_fits v"
  have "decodes ?F (bind (ReadRaw B) (\<lambda>i. bind (ReadArray B (replicate 64 0) 64) (\<lambda>a. bind (ReadArray B (replicate 64 0) 64) (\<lambda>b.
      return \<lparr>mtr_rowIndex = i, mtr_tiles = fst a, mtr_tileCount = snd a, mtr_heights = fst b, mtr_heightCount = snd b\<rparr>))))
      (le_bytes (mtr_rowIndex v) @ enc_array (mtr_tiles v) (mtr_tileCount v) @
       enc_array (mtr_heights v) (mtr_heightCount v) @ []) v"
    using ok by (intro decodes_raw decodes_slots decodes_done) (auto simp: MapTileRow_ok_def MapTileRow_fits_def)
  then show "decodes ?F (Read B MapTileRow_formatter (value_init MapTileRow_formatter)) (MapTileRow_enc v) v"
    unfolding MapTileRow_formatter_def message_simps MapTileRow_Deserialize_def MapTileRow_enc_def
      MemoryPackFormatter.simps ReadInt32_def MapTileRow_init_def
    by (intro decodes_header) (simp_all add: bind_assoc case_prod_beta')
next
  show "reader_action (\<lambda>B. Read B MapTileRow_formatter (value_init MapTileRow_formatter))"
    unfolding MapTileRow_formatter_def message_simps MapTileRow_Deserialize_def MemoryPackFormatter.simps
      ReadInt32_def case_prod_beta'
    by (rule reader_action_bind, rule reader_intros, rule reader_action_if, rule reader_intros,
        rule reader_action_keep [where P = "\<lambda>v. length (mtr_tiles v) = 64 \<and> length (mtr_heights v) = 64"],
        rule reader_action_keep [where P = "\<lambda>v. length (mtr_heights v) = 64"])
      (auto simp: MapTileRow_init_def intro!: reader_intros)
qed

definition MixedFormatPacket_ok :: "MixedFormatPacket \<Rightarrow> bool" where
  "MixedFormatPacket_ok v \<longleftrightarrow> length (mfp_dynamicScores v) < 2 ^ 31 \<and>
     array_ok 4 (mfp_fixedBonuses v) (mfp_fixedBonusCount v) \<and> array_ok 16 (mfp_tagBytes v) (mfp_tagByteCount v)"

definition MixedFormatPacket_enc :: "MixedFormatPacket \<Rightarrow> bytes" where
  "MixedFormatPacket_enc v = 5 # le_bytes (mfp_id v) @ enc_collection le_bytes (mfp_dynamicScores v) @
     enc_array (mfp_fixedBonuses v) (mfp_fixedBonusCount v) @ enc_array (mfp_tagBytes v) (mfp_tagByteCount v) @
     le_bytes (mfp_multiplier v)"

definition MixedFormatPacket_fits :: "MixedFormatPacket \<Rightarrow> ReaderOptions \<Rightarrow> nat \<Rightarrow> bool" where
  "MixedFormatPacket_fits v opts d \<longleftrightarrow> length (mfp_dynamicScores v) \<le> unat (maxCollectionLength opts) \<and>
     unat (mfp_fixedBonusCount v) \<le> unat (maxCollectionLength opts) \<and> unat (mfp_tagByteCount v) \<le> unat (maxCollectionLength opts)"

interpretation MixedFormatPacket:
  message_codec MixedFormatPacket_formatter MixedFormatPacket_enc MixedFormatPacket_ok MixedFormatPacket_fits
proof (rule message_codec.intro)
  fix B v assume ok: "MixedFormatPacket_ok v"
  then show "emits B (Write B MixedFormatPacket_formatter v) (MixedFormatPacket_enc v)"
    unfolding MixedFormatPacket_formatter_def message_simps MixedFormatPacket_Serialize_def MixedFormatPacket_enc_def
      MemoryPackFormatter.simps option.case WriteInt32_def WriteDouble_def MixedFormatPacket_ok_def
    by (intro emits_header emits_seq emits_WriteRaw emits_WriteVector emits_array [where N = 4] emits_array [where N = 16]) auto
  let ?F = "MixedFormatPacket_fits v"
  have "decodes ?F (bind (ReadRaw B) (\<lambda>i. bind (ReadVector B) (\<lambda>d. bind (ReadArray B (replicate 4 0) 4) (\<lambda>a.
      bind (ReadArray B (replicate 16 0) 16) (\<lambda>b. bind (ReadRaw B) (\<lambda>m.
      return \<lparr>mfp_id = i, mfp_dynamicScores = d, mfp_fixedBonuses = fst a, mfp_fixedBonusCount = snd a, mfp_tagBytes = fst b,
        mfp_tagByteCount = snd b, mfp_multiplier = m\<rparr>))))))
      (le_bytes (mfp_id v) @ enc_collection le_bytes (mfp_dynamicScores v) @
       enc_array (mfp_fixedBonuses v) (mfp_fixedBonusCount v) @ enc_array (mfp_tagBytes v) (mfp_tagByteCount v) @
       le_bytes (mfp_multiplier v) @ []) v"
    using ok by (intro decodes_raw decodes_slots decodes_done decodes_bind [OF decodes_ReadVector])
      (auto simp: MixedFormatPacket_ok_def MixedFormatPacket_fits_def)
  then show "decodes ?F (Read B MixedFormatPacket_formatter (value_init MixedFormatPacket_formatter)) (MixedFormatPacket_enc v) v"
    unfolding MixedFormatPacket_formatter_def message_simps MixedFormatPacket_Deserialize_def MixedFormatPacket_enc_def
      MemoryPackFormatter.simps ReadInt32_def ReadDouble_def MixedFormatPacket_init_def
    by (intro decodes_header) (simp_all add: bind_assoc case_prod_beta')
next
  let ?P = "\<lambda>v. length (mfp_fixedBonuses v) = 4 \<and> length (mfp_tagBytes v) = 16"
  show "reader_action (\<lambda>B. Read B MixedFormatPacket_formatter (value_init MixedFormatPacket_formatter))"
    unfolding MixedFormatPacket_formatter_def message_simps MixedFormatPacket_Deserialize_def MemoryPackFormatter.simps
      ReadInt32_def ReadDouble_def case_prod_beta'
    by (rule reader_action_bind, rule reader_intros, rule reader_action_if, rule reader_intros,
        rule reader_action_keep [where P = ?P], rule reader_action_keep [where P = ?P],
        rule reader_action_keep [where P = "\<lambda>v. length (mfp_tagBytes v) = 16"],
        rule reader_action_keep [where P = "\<lambda>v. True"])
      (auto simp: MixedFormatPacket_init_def intro!: reader_intros)
qed

section \<open>Dispatching\<close>

text \<open>The identifier and the serialized body of a packet value, and its reference encoding.\<close>

fun game_id :: "GamePacket \<Rightarrow> GamePacketId" where
  "game_id (LoginRequestPacket v) = LoginRequestId"
| "game_id (LoginResponsePacket v) = LoginResponseId"
| "game_id (PlayerStatePacket v) = PlayerStateId"
| "game_id (ScoreUpdatePacket v) = ScoreUpdateId"
| "game_id (ChatMessagePacket v) = ChatMessageId"
| "game_id (InventoryDataPacket v) = InventoryDataId"
| "game_id (BufferDataPacket v) = BufferDataId"
| "game_id (IntArrayPacketPacket v) = IntArrayPacketId"
| "game_id (SkillSlotDataPacket v) = SkillSlotDataId"
| "game_id (MapTileRowPacket v) = MapTileRowId"
| "game_id (MixedFormatPacketPacket v) = MixedFormatPacketId"

fun serialize_packet :: "build \<Rightarrow> GamePacket \<Rightarrow> bytes outcome" where
  "serialize_packet B (LoginRequestPacket v) = Serialize B LoginRequest_formatter v"
| "serialize_packet B (LoginResponsePacket v) = Serialize B LoginResponse_formatter v"
| "serialize_packet B (PlayerStatePacket v) = Serialize B PlayerState_formatter v"
| "serialize_packet B (ScoreUpdatePacket v) = Serialize B ScoreUpdate_formatter v"
| "serialize_packet B (ChatMessagePacket v) = Serialize B ChatMessage_formatter v"
| "serialize_packet B (InventoryDataPacket v) = Serialize B InventoryData_formatter v"
| "serialize_packet B (BufferDataPacket v) = Serialize B BufferData_formatter v"
| "serialize_packet B (IntArrayPacketPacket v) = Serialize B IntArrayPacket_formatter v"
| "serialize_packet B (SkillSlotDataPacket v) = Serialize B SkillSlotData_formatter v"
| "serialize_packet B (MapTileRowPacket v) = Serialize B MapTileRow_formatter v"
| "serialize_packet B (MixedFormatPacketPacket v) = Serialize B MixedFormatPacket_formatter v"

fun game_enc :: "GamePacket \<Rightarrow> bytes" where
  "game_enc (LoginRequestPacket v) = struct_enc LoginRequest_layout v"
| "game_enc (LoginResponsePacket v) = struct_enc LoginResponse_layout v"
| "game_enc (PlayerStatePacket v) = struct_enc PlayerState_layout v"
| "game_enc (ScoreUpdatePacket v) = struct_enc ScoreUpdate_layout v"
| "game_enc (ChatMessagePacket v) = struct_enc ChatMessage_layout v"
| "game_enc (InventoryDataPacket v) = struct_enc InventoryData_layout v"
| "game_enc (BufferDataPacket v) = struct_enc BufferData_layout v"
| "game_enc (IntArrayPacketPacket v) = struct_enc IntArrayPacket_layout v"
| "game_enc (SkillSlotDataPacket v) = SkillSlotData_enc v"
| "game_enc (MapTileRowPacket v) = MapTileRow_enc v"
| "game_enc (MixedFormatPacketPacket v) = MixedFormatPacket_enc v"

fun game_ok :: "GamePacket \<Rightarrow> bool" where
  "game_ok (LoginRequestPacket v) \<longleftrightarrow> members_ok LoginRequest_layout v \<and> struct_fits LoginRequest_layout v default_options 0"
| "game_ok (LoginResponsePacket v) \<longleftrightarrow> members_ok LoginResponse_layout v \<and> struct_fits LoginResponse_layout v default_options 0"
| "game_ok (PlayerStatePacket v) \<longleftrightarrow> members_ok PlayerState_layout v \<and> struct_fits PlayerState_layout v default_options 0"
| "game_ok (ScoreUpdatePacket v) \<longleftrightarrow> members_ok ScoreUpdate_layout v \<and> struct_fits ScoreUpdate_layout v default_options 0"
| "game_ok (ChatMessagePacket v) \<longleftrightarrow> members_ok ChatMessage_layout v \<and> struct_fits ChatMessage_layout v default_options 0"
| "game_ok (InventoryDataPacket v) \<longleftrightarrow> members_ok InventoryData_layout v \<and> struct_fits InventoryData_layout v default_options 0"
| "game_ok (BufferDataPacket v) \<longleftrightarrow> members_ok BufferData_layout v \<and> struct_fits BufferData_layout v default_options 0"
| "game_ok (IntArrayPacketPacket v) \<longleftrightarrow> members_ok IntArrayPacket_layout v \<and> struct_fits IntArrayPacket_layout v default_options 0"
| "game_ok (SkillSlotDataPacket v) \<longleftrightarrow> SkillSlotData_ok v \<and> SkillSlotData_fits v default_options 0"
| "game_ok (MapTileRowPacket v) \<longleftrightarrow> MapTileRow_ok v \<and> MapTileRow_fits v default_options 0"
| "game_ok (MixedFormatPacketPacket v) \<longleftrightarrow> MixedFormatPacket_ok v \<and> MixedFormatPacket_fits v default_options 0"

lemmas game_serialize =
  LoginRequest.Serialize_message [unfolded game_members, folded LoginRequest_formatter_def]
  LoginResponse.Serialize_message [unfolded game_members, folded LoginResponse_formatter_def]
  PlayerState.Serialize_message [unfolded game_members, folded PlayerState_formatter_def]
  ScoreUpdate.Serialize_message [unfolded game_members, folded ScoreUpdate_formatter_def]
  ChatMessage.Serialize_message [unfolded game_members, folded ChatMessage_formatter_def]
  InventoryData.Serialize_message [unfolded game_members, folded InventoryData_formatter_def]
  BufferData.Serialize_message [unfolded game_members, folded BufferData_formatter_def]
  IntArrayPacket.Serialize_message [unfolded game_members, folded IntArrayPacket_formatter_def]
  SkillSlotData.Serialize_message MapTileRow.Serialize_message MixedFormatPacket.Serialize_message

lemmas game_dispatch =
  LoginRequest.dispatch_as_enc [unfolded game_members, folded LoginRequest_formatter_def]
  LoginResponse.dispatch_as_enc [unfolded game_members, folded LoginResponse_formatter_def]
  PlayerState.dispatch_as_enc [unfolded game_members, folded PlayerState_formatter_def]
  ScoreUpdate.dispatch_as_enc [unfolded game_members, folded ScoreUpdate_formatter_def]
  ChatMessage.dispatch_as_enc [unfolded game_members, folded ChatMessage_formatter_def]
  InventoryData.dispatch_as_enc [unfolded game_members, folded InventoryData_formatter_def]
  BufferData.dispatch_as_enc [unfolded game_members, folded BufferData_formatter_def]
  IntArrayPacket.dispatch_as_enc [unfolded game_members, folded IntArrayPacket_formatter_def]
  SkillSlotData.dispatch_as_enc MapTileRow.dispatch_as_enc MixedFormatPacket.dispatch_as_enc

lemmas game_defined =
  LoginRequest.dispatch_as_defined [unfolded game_members, folded LoginRequest_formatter_def]
  LoginResponse.dispatch_as_defined [unfolded game_members, folded LoginResponse_formatter_def]
  PlayerState.dispatch_as_defined [unfolded game_members, folded PlayerState_formatter_def]
  ScoreUpdate.dispatch_as_defined [unfolded game_members, folded ScoreUpdate_formatter_def]
  ChatMessage.dispatch_as_defined [unfolded game_members, folded ChatMessage_formatter_def]
  InventoryData.dispatch_as_defined [unfolded game_members, folded InventoryData_formatter_def]
  BufferData.dispatch_as_defined [unfolded game_members, folded BufferData_formatter_def]
  IntArrayPacket.dispatch_as_defined [unfolded game_members, folded IntArrayPacket_formatter_def]
  SkillSlotData.dispatch_as_defined MapTileRow.dispatch_as_defined MixedFormatPacket.dispatch_as_defined

lemma serialize_packet_enc:
  "game_ok p \<Longrightarrow> length (game_enc p) \<le> 2 ^ 62 \<Longrightarrow> serialize_packet B p = Ret (game_enc p)"
  by (cases p) (simp_all add: game_serialize)

lemma DispatchPacket_enc:
  assumes "game_ok p" "length (game_enc p) \<le> 2 ^ 62"
  shows "DispatchPacket B (GamePacketId_value (game_id p)) (game_enc p) handler = seq (handler p) (return True)"
  using assms by (cases p) (simp_all add: DispatchPacket_def game_dispatch)

lemma DispatchPacket_defined:
  assumes "length body < 2 ^ 63" "\<And>p st. fst (handler p st) \<noteq> UB"
  shows "fst (DispatchPacket B pid body handler st) \<noteq> UB"
  unfolding DispatchPacket_def by (simp add: game_defined [OF assms(1)] assms(2))

section \<open>What arrives of an array\<close>

text \<open>Only the elements in use are on the wire: the receiver finds zeros behind the count, whatever was there.\<close>

definition used_slots :: "'a::len word list \<Rightarrow> u32 \<Rightarrow> 'a word list" where
  "used_slots arr cnt = take (unat cnt) arr @ replicate (length arr - unat cnt) 0"

fun game_received :: "GamePacket \<Rightarrow> GamePacket" where
  "game_received (SkillSlotDataPacket v) = SkillSlotDataPacket (v\<lparr>ssd_skillIds := used_slots (ssd_skillIds v) (ssd_skillCount v),
     ssd_cooldowns := used_slots (ssd_cooldowns v) (ssd_cooldownCount v)\<rparr>)"
| "game_received (MapTileRowPacket v) = MapTileRowPacket (v\<lparr>mtr_tiles := used_slots (mtr_tiles v) (mtr_tileCount v),
     mtr_heights := used_slots (mtr_heights v) (mtr_heightCount v)\<rparr>)"
| "game_received (MixedFormatPacketPacket v) = MixedFormatPacketPacket (v\<lparr>
     mfp_fixedBonuses := used_slots (mfp_fixedBonuses v) (mfp_fixedBonusCount v),
     mfp_tagBytes := used_slots (mfp_tagBytes v) (mfp_tagByteCount v)\<rparr>)"
| "game_received p = p"

text \<open>A packet that can be sent: its arrays have their declared length and the counts are within it.\<close>

definition slots_ok :: "nat \<Rightarrow> 'a::len word list \<Rightarrow> u32 \<Rightarrow> bool" where
  "slots_ok N arr cnt \<longleftrightarrow> length arr = N \<and> unat cnt \<le> N"

fun game_sendable :: "GamePacket \<Rightarrow> bool" where
  "game_sendable (SkillSlotDataPacket v) \<longleftrightarrow> slots_ok 8 (ssd_skillIds v) (ssd_skillCount v) \<and> slots_ok 8 (ssd_cooldowns v) (ssd_cooldownCount v)"
| "game_sendable (MapTileRowPacket v) \<longleftrightarrow> slots_ok 64 (mtr_tiles v) (mtr_tileCount v) \<and> slots_ok 64 (mtr_heights v) (mtr_heightCount v)"
| "game_sendable (MixedFormatPacketPacket v) \<longleftrightarrow> length (mfp_dynamicScores v) < 2 ^ 31 \<and>
     slots_ok 4 (mfp_fixedBonuses v) (mfp_fixedBonusCount v) \<and> slots_ok 16 (mfp_tagBytes v) (mfp_tagByteCount v)"
| "game_sendable p \<longleftrightarrow> game_ok p"

lemma slots_arrive: "slots_ok N arr cnt \<Longrightarrow> array_ok N (used_slots arr cnt) cnt"
  by (auto simp: slots_ok_def used_slots_def array_ok_def min.absorb2)

lemma slots_written:
  assumes "unat cnt \<le> length arr"
  shows "enc_array (used_slots arr cnt) cnt = enc_array arr cnt" "WriteArray B (used_slots arr cnt) cnt = WriteArray B arr cnt"
  using assms by (auto simp: used_slots_def enc_array_def WriteArray_def min.absorb2)

lemma sendable_received:
  assumes "game_sendable p"
  shows "game_ok (game_received p)" "serialize_packet B (game_received p) = serialize_packet B p"
    "game_enc (game_received p) = game_enc p" "game_id (game_received p) = game_id p"
proof -
  have lim: "unat (maxCollectionLength default_options) = 4294967295" by (simp add: default_options_def)
  have n: "unat cnt \<le> N" if "slots_ok N arr cnt" for N cnt and arr :: "'a::len word list" using that by (simp add: slots_ok_def)
  show "game_ok (game_received p)"
    using assms by (cases p) (auto simp: lim slots_arrive SkillSlotData_ok_def SkillSlotData_fits_def MapTileRow_ok_def
        MapTileRow_fits_def MixedFormatPacket_ok_def MixedFormatPacket_fits_def dest!: n)
  show "serialize_packet B (game_received p) = serialize_packet B p"
    using assms by (cases p) (simp_all add: Serialize_def Write_def SkillSlotData_formatter_def MapTileRow_formatter_def
        MixedFormatPacket_formatter_def handwritten_def SkillSlotData_Serialize_def MapTileRow_Serialize_def
        MixedFormatPacket_Serialize_def slots_ok_def slots_written)
  show "game_enc (game_received p) = game_enc p"
    using assms by (cases p) (simp_all add: SkillSlotData_enc_def MapTileRow_enc_def MixedFormatPacket_enc_def slots_ok_def slots_written)
  show "game_id (game_received p) = game_id p" by (cases p) simp_all
qed

end
