(* ===== verification/GameClient.thy ===== *)
theory GameClient
  imports GamePackets Net
begin

text \<open>
  The C++ client sample (\<^verbatim>\<open>samples/CppClient/main.cpp\<close>): the ten tests, which exchange one packet each
  with a server, and \<^verbatim>\<open>main\<close>, which runs them.

  \<open>client_main_passes\<close> describes a whole session: when the server's responses are of the expected types
  and within the limits, every test succeeds, the requests leave in order and nothing else is consumed
  of the stream. \<open>test_inventory_UB\<close> shows the one response that is decoded without an error but read
  out of bounds when it is printed.
\<close>

section \<open>Console output\<close>

text \<open>The text itself is not modelled, but reading the values that are printed is: an index outside a
  vector or an array is \<open>UB\<close>.\<close>

definition shows_element :: "'a list \<Rightarrow> nat \<Rightarrow> unit outcome" where
  "shows_element xs i = (if i < length xs then Ret () else UB)"

primrec print_loop :: "nat list \<Rightarrow> (nat \<Rightarrow> unit outcome) \<Rightarrow> unit outcome" where
  "print_loop [] f = Ret ()"
| "print_loop (i # is) f = (case f i of Ret _ \<Rightarrow> print_loop is f | Throw e \<Rightarrow> Throw e | UB \<Rightarrow> UB)"

text \<open>\<open>for (int i = 0; i < n; ++i) std::cout << xs[i]\<close>.\<close>

definition print_slots :: "'a list \<Rightarrow> u32 \<Rightarrow> unit outcome" where
  "print_slots xs n = print_loop [0 ..< nat (sint n)] (shows_element xs)"

text \<open>\<open>for (size_t i = 0; i < itemNames.size(); ++i) std::cout << itemNames[i] << "x" << itemCounts[i]\<close>.\<close>

definition print_items :: "bytes list \<Rightarrow> u32 list \<Rightarrow> unit outcome" where
  "print_items names counts = print_loop [0 ..< length names] (\<lambda>i.
     case shows_element names i of Ret _ \<Rightarrow> shows_element counts i | Throw e \<Rightarrow> Throw e | UB \<Rightarrow> UB)"

definition print_skills :: "SkillSlotData \<Rightarrow> unit outcome" where
  "print_skills v = print_loop [0 ..< nat (sint (ssd_skillCount v))] (\<lambda>i.
     case shows_element (ssd_skillIds v) i of Ret _ \<Rightarrow> shows_element (ssd_cooldowns v) i | Throw e \<Rightarrow> Throw e | UB \<Rightarrow> UB)"

definition print_tiles :: "MapTileRow \<Rightarrow> unit outcome" where
  "print_tiles v = (case print_slots (mtr_tiles v) (mtr_tileCount v) of
     Ret _ \<Rightarrow> print_slots (mtr_heights v) (mtr_heightCount v) | Throw e \<Rightarrow> Throw e | UB \<Rightarrow> UB)"

definition print_mixed :: "MixedFormatPacket \<Rightarrow> unit outcome" where
  "print_mixed v = (case print_slots (mfp_fixedBonuses v) (mfp_fixedBonusCount v) of
     Ret _ \<Rightarrow> print_slots (mfp_tagBytes v) (mfp_tagByteCount v) | Throw e \<Rightarrow> Throw e | UB \<Rightarrow> UB)"

section \<open>The tests\<close>

text \<open>What every test does with its request: serialize, send, receive, deserialize and print. The
  identifier of the response is not looked at.\<close>

definition exchange :: "build \<Rightarrow> 'w host \<Rightarrow> 'a MemoryPackFormatter \<Rightarrow> 'b MemoryPackFormatter \<Rightarrow> GamePacketId \<Rightarrow> 'a \<Rightarrow>
    ('b \<Rightarrow> unit outcome) \<Rightarrow> ('w, bool) op" where
  "exchange B H T R pid req print =
     bind (\<lambda>w. (Serialize B T req, w)) (\<lambda>body.
     bind (\<lambda>w. case send_packet B (h_send H) (GamePacketId_value pid) body w of (ok, w') \<Rightarrow> (Ret ok, w')) (\<lambda>ok.
       if \<not> ok then return False
       else bind (\<lambda>w. case recv_packet B (h_recv H) w of (r, w') \<Rightarrow> (Ret r, w')) (\<lambda>received.
         case received of
           None \<Rightarrow> return False
         | Some (respId, respBody) \<Rightarrow>
             bind (\<lambda>w. (Deserialize B R respBody, w)) (\<lambda>resp.
             seq (\<lambda>w. (print resp, w)) (return True)))))"

text \<open>\<open>duration_cast<milliseconds>\<close> rounds towards zero.\<close>

definition current_timestamp_ms :: "int \<Rightarrow> u64" where
  "current_timestamp_ms micros =
     word_of_int (if micros < 0 then - (- micros div 1000) else micros div 1000)"

definition login_request :: LoginRequest where
  "login_request = \<lparr>lrq_username = bytes_of_string ''TestPlayer'', lrq_level = 42\<rparr>"

text \<open>Floating-point literals are their bit patterns.\<close>

definition player_state_request :: PlayerState where
  "player_state_request = \<lparr>pst_playerId = 1001, pst_posX = 0x42C90000, pst_posY = 0x43484000,
     pst_posZ = 0xC24B0000, pst_name = bytes_of_string ''TestPlayer''\<rparr>"

definition chat_message_request :: "u64 \<Rightarrow> ChatMessage" where
  "chat_message_request now = \<lparr>chm_senderId = 1001, chm_message = bytes_of_string ''Hello from C++ client!'',
     chm_timestamp = now\<rparr>"

definition score_update_request :: ScoreUpdate where
  "score_update_request = \<lparr>scu_playerId = 1001, scu_scores = [100, 250, 380, 420, 550],
     scu_totalScore = 0x409A920000000000\<rparr>"

definition inventory_request :: InventoryData where
  "inventory_request = \<lparr>inv_playerId = 1001,
     inv_itemNames = map bytes_of_string [''Sword'', ''Shield'', ''Potion'', ''Scroll''], inv_itemCounts = [1, 1, 5, 3]\<rparr>"

definition buffer_data_request :: BufferData where
  "buffer_data_request = \<lparr>bfd_tag = 0xAB, bfd_grade = - 42, bfd_rawData = [0x00, 0x11, 0x22, 0xFF, 0xEE, 0xDD],
     bfd_charCodes = bytes_of_string ''Hello!'' @ [- 1, - 128, 127]\<rparr>"

definition int_arrays_request :: IntArrayPacket where
  "int_arrays_request = \<lparr>iap_id = 7777, iap_shortArray = [- 100, 0, 100, 32767, - 32768],
     iap_intArray = [- 1, 0, 1, 2147483647, - 2147483648],
     iap_longArray = [- 1, 0, 1, 9223372036854775807, - 9223372036854775807 - 1]\<rparr>"

definition skill_slots_request :: SkillSlotData where
  "skill_slots_request = SkillSlotData_init\<lparr>ssd_playerId := 1001, ssd_skillCount := 3, ssd_cooldownCount := 3,
     ssd_skillIds := (ssd_skillIds SkillSlotData_init)[0 := 101, 1 := 205, 2 := 310],
     ssd_cooldowns := (ssd_cooldowns SkillSlotData_init)[0 := 0x3FC00000, 1 := 0x40400000, 2 := 0x3F000000]\<rparr>"

definition map_tile_row_request :: MapTileRow where
  "map_tile_row_request = MapTileRow_init\<lparr>mtr_rowIndex := 5, mtr_tileCount := 10, mtr_heightCount := 10,
     mtr_tiles := [1, 2, 3, 0, 0, 4, 5, 255, 128, 64] @ drop 10 (mtr_tiles MapTileRow_init),
     mtr_heights := [10, 20, 30, 0, 0, - 10, 50, 100, - 100, 0] @ drop 10 (mtr_heights MapTileRow_init)\<rparr>"

definition mixed_format_request :: MixedFormatPacket where
  "mixed_format_request = MixedFormatPacket_init\<lparr>mfp_id := 42, mfp_dynamicScores := [100, 200, 300, 400, 500],
     mfp_fixedBonusCount := 3, mfp_fixedBonuses := (mfp_fixedBonuses MixedFormatPacket_init)[0 := 10, 1 := 20, 2 := 30],
     mfp_tagByteCount := 5, mfp_tagBytes := bytes_of_string ''HELLO'' @ drop 5 (mfp_tagBytes MixedFormatPacket_init),
     mfp_multiplier := 0x4004000000000000\<rparr>"

definition test_login :: "build \<Rightarrow> 'w host \<Rightarrow> ('w, bool) op" where
  "test_login B H = exchange B H LoginRequest_formatter LoginResponse_formatter LoginRequestId login_request (\<lambda>_. Ret ())"

definition test_player_state :: "build \<Rightarrow> 'w host \<Rightarrow> ('w, bool) op" where
  "test_player_state B H = exchange B H PlayerState_formatter PlayerState_formatter PlayerStateId player_state_request (\<lambda>_. Ret ())"

definition test_chat_message :: "build \<Rightarrow> 'w host \<Rightarrow> ('w, bool) op" where
  "test_chat_message B H = bind (gets (h_now H)) (\<lambda>micros.
     exchange B H ChatMessage_formatter ChatMessage_formatter ChatMessageId
       (chat_message_request (current_timestamp_ms micros)) (\<lambda>_. Ret ()))"

definition test_score_update :: "build \<Rightarrow> 'w host \<Rightarrow> ('w, bool) op" where
  "test_score_update B H = exchange B H ScoreUpdate_formatter ScoreUpdate_formatter ScoreUpdateId score_update_request
     (\<lambda>resp. print_loop [0 ..< length (scu_scores resp)] (shows_element (scu_scores resp)))"

definition test_inventory :: "build \<Rightarrow> 'w host \<Rightarrow> ('w, bool) op" where
  "test_inventory B H = exchange B H InventoryData_formatter InventoryData_formatter InventoryDataId inventory_request
     (\<lambda>resp. print_items (inv_itemNames resp) (inv_itemCounts resp))"

definition test_buffer_data :: "build \<Rightarrow> 'w host \<Rightarrow> ('w, bool) op" where
  "test_buffer_data B H = exchange B H BufferData_formatter BufferData_formatter BufferDataId buffer_data_request
     (\<lambda>resp. case print_loop [0 ..< length (bfd_rawData resp)] (shows_element (bfd_rawData resp)) of
        Ret _ \<Rightarrow> print_loop [0 ..< length (bfd_charCodes resp)] (shows_element (bfd_charCodes resp))
      | Throw e \<Rightarrow> Throw e | UB \<Rightarrow> UB)"

definition test_int_arrays :: "build \<Rightarrow> 'w host \<Rightarrow> ('w, bool) op" where
  "test_int_arrays B H = exchange B H IntArrayPacket_formatter IntArrayPacket_formatter IntArrayPacketId int_arrays_request
     (\<lambda>resp. case print_loop [0 ..< length (iap_shortArray resp)] (shows_element (iap_shortArray resp)) of
        Ret _ \<Rightarrow> (case print_loop [0 ..< length (iap_intArray resp)] (shows_element (iap_intArray resp)) of
          Ret _ \<Rightarrow> print_loop [0 ..< length (iap_longArray resp)] (shows_element (iap_longArray resp))
        | Throw e \<Rightarrow> Throw e | UB \<Rightarrow> UB)
      | Throw e \<Rightarrow> Throw e | UB \<Rightarrow> UB)"

definition test_skill_slots :: "build \<Rightarrow> 'w host \<Rightarrow> ('w, bool) op" where
  "test_skill_slots B H = exchange B H SkillSlotData_formatter SkillSlotData_formatter SkillSlotDataId
     skill_slots_request print_skills"

definition test_map_tile_row :: "build \<Rightarrow> 'w host \<Rightarrow> ('w, bool) op" where
  "test_map_tile_row B H = exchange B H MapTileRow_formatter MapTileRow_formatter MapTileRowId
     map_tile_row_request print_tiles"

definition test_mixed_format :: "build \<Rightarrow> 'w host \<Rightarrow> ('w, bool) op" where
  "test_mixed_format B H = exchange B H MixedFormatPacket_formatter MixedFormatPacket_formatter MixedFormatPacketId
     mixed_format_request (\<lambda>resp.
       case print_loop [0 ..< length (mfp_dynamicScores resp)] (shows_element (mfp_dynamicScores resp)) of
         Ret _ \<Rightarrow> print_mixed resp | Throw e \<Rightarrow> Throw e | UB \<Rightarrow> UB)"

section \<open>The program\<close>

text \<open>\<open>allPassed &= test(sock);\<close> for every test.\<close>

primrec run_tests :: "('w, bool) op list \<Rightarrow> bool \<Rightarrow> ('w, bool) op" where
  "run_tests [] allPassed = return allPassed"
| "run_tests (t # ts) allPassed = bind t (\<lambda>ok. run_tests ts (allPassed \<and> ok))"

definition client_tests :: "build \<Rightarrow> 'w host \<Rightarrow> ('w, bool) op list" where
  "client_tests B H = [test_login B H, test_player_state B H, test_chat_message B H, test_score_update B H,
     test_inventory B H, test_buffer_data B H, test_int_arrays B H, test_skill_slots B H,
     test_map_tile_row B H, test_mixed_format B H]"

text \<open>\<open>created\<close> and \<open>connected\<close> are the results of \<^verbatim>\<open>socket\<close> and \<^verbatim>\<open>connect\<close>; the value is the exit code.\<close>

definition client_main :: "build \<Rightarrow> 'w host \<Rightarrow> bool \<Rightarrow> bool \<Rightarrow> ('w, int) op" where
  "client_main B H created connected =
     (if \<not> created then return 1
      else if \<not> connected then return 1
      else bind (run_tests (client_tests B H) True) (\<lambda>allPassed. return (if allPassed then 0 else 1)))"

section \<open>Printing stays in range\<close>

lemma print_loop_Ret: "print_loop is f = Ret () \<longleftrightarrow> (\<forall>i \<in> set is. f i = Ret ())"
  by (induction "is") (auto split: outcome.splits)

lemma print_elements [simp]: "print_loop [0 ..< length xs] (shows_element xs) = Ret ()"
  by (simp add: print_loop_Ret shows_element_def)

text \<open>The loop over the items reads the counts beyond their end when there are fewer counts than names.\<close>

lemma print_items_Ret: "print_items names counts = Ret () \<longleftrightarrow> length names \<le> length counts"
proof -
  have "print_items names counts = Ret () \<longleftrightarrow> (\<forall>i < length names. i < length counts)"
    unfolding print_items_def print_loop_Ret by (auto simp: shows_element_def split: if_splits)
  then show ?thesis by (meson leI less_le_trans nat_less_le)
qed

lemma print_items_UB: "length counts < length names \<Longrightarrow> print_items names counts = UB"
proof -
  have no: "print_loop is f \<noteq> Throw e" if "\<And>i e. f i \<noteq> Throw e" for "is" f e
    using that by (induction "is") (auto split: outcome.splits)
  assume "length counts < length names"
  then have "print_items names counts \<noteq> Ret ()" by (simp add: print_items_Ret)
  moreover have "print_items names counts \<noteq> Throw e" for e
    unfolding print_items_def by (rule no) (simp add: shows_element_def)
  ultimately show ?thesis by (cases "print_items names counts") auto
qed

lemma slots_bound: "array_ok N arr cnt \<Longrightarrow> N < 2 ^ 31 \<Longrightarrow> nat (sint cnt) \<le> length arr"
  using sint_of_nat_32 [of "unat cnt"] by (simp add: array_ok_def)

lemma print_slots_ok: "nat (sint n) \<le> length xs \<Longrightarrow> print_slots xs n = Ret ()"
  by (simp add: print_slots_def print_loop_Ret shows_element_def)

lemma print_skills_ok: "SkillSlotData_ok v \<Longrightarrow> print_skills v = Ret ()"
  using slots_bound [of 8 "ssd_skillIds v" "ssd_skillCount v"]
  by (auto simp: print_skills_def print_loop_Ret SkillSlotData_ok_def array_ok_def shows_element_def)

lemma print_tiles_ok: "MapTileRow_ok v \<Longrightarrow> print_tiles v = Ret ()"
  using slots_bound [of 64 "mtr_tiles v" "mtr_tileCount v"] slots_bound [of 64 "mtr_heights v" "mtr_heightCount v"]
  by (simp add: print_tiles_def MapTileRow_ok_def print_slots_ok)

lemma print_mixed_ok: "MixedFormatPacket_ok v \<Longrightarrow> print_mixed v = Ret ()"
  using slots_bound [of 4 "mfp_fixedBonuses v" "mfp_fixedBonusCount v"] slots_bound [of 16 "mfp_tagBytes v" "mfp_tagByteCount v"]
  by (simp add: print_mixed_def MixedFormatPacket_ok_def print_slots_ok)

section \<open>One exchange\<close>

lemma send_packet_accepts:
  assumes H: "duplex H inp out" "accepts (h_send H)" and n: "length body < 2 ^ 31"
  shows "\<exists>w'. send_packet B (h_send H) pid body w = (True, w') \<and> inp w' = inp w \<and>
    out w' = out w @ native_header B pid (word_of_nat (length body)) @ body"
proof -
  have ex: "\<exists>w'. send_exact (h_send H) b w = (True, w') \<and> inp w' = inp w" for b w
    using send_loop_accepts [OF H(2), of b 0 w] send_loop_inp [of inp "h_send H" b 0 w] H(1)
    unfolding send_exact_def duplex_def by (metis prod.collapse)
  obtain w1 where w1: "send_exact (h_send H) (native_header B pid (word_of_nat (length body))) w = (True, w1)" "inp w1 = inp w"
    using ex by blast
  obtain w2 where w2: "send_exact (h_send H) body w1 = (True, w2)" "inp w2 = inp w1" using ex by blast
  have "\<exists>w'. send_packet B (h_send H) pid body w = (True, w') \<and> inp w' = inp w"
    using w1 w2 by (auto simp: send_packet_def Let_def native_header_def)
  with send_packet_ok [of "h_send H" out B pid body w] H(1) n show ?thesis by (auto simp: duplex_def)
qed

lemma recv_loop_out:
  "(\<forall>n w. out (snd (recv n w)) = out w) \<Longrightarrow> recv_loop recv len buf w = (r, w') \<Longrightarrow> out w' = out w"
proof (induction recv len buf w rule: recv_loop.induct)
  case (1 recv len buf w)
  obtain bs w1 where n: "recv (len - length buf) w = (bs, w1)" by force
  with 1(2) have o: "out w1 = out w" by (metis snd_conv)
  show ?case
  proof (cases "length buf < len \<and> bs \<noteq> []")
    case True
    with 1(1) [OF _ n [symmetric]] 1(2,3) n o show ?thesis by (simp add: recv_loop.simps [of _ _ buf])
  next
    case False
    with 1(3) n o show ?thesis by (auto simp: recv_loop.simps [of _ _ buf] split: if_splits)
  qed
qed

lemma recv_packet_out:
  assumes "duplex H inp out" "recv_packet B (h_recv H) w = (r, w')"
  shows "out w' = out w"
proof -
  have e: "out w2 = out w1" if "recv_exact (h_recv H) n w1 = (s, w2)" for n w1 s w2
    using recv_loop_out [of out "h_recv H" n "[]" w1 s w2] assms(1) that by (simp add: duplex_def recv_exact_def)
  from assms(2) show ?thesis
    by (auto simp: recv_packet_def Let_def split: prod.splits option.splits if_splits dest!: e)
qed

text \<open>A packet as the client sends and receives it.\<close>

definition game_frame :: "build \<Rightarrow> GamePacket \<Rightarrow> bytes" where
  "game_frame B p = native_header B (GamePacketId_value (game_id p)) (word_of_nat (length (game_enc p))) @ game_enc p"

lemma exchange_result:
  assumes H: "duplex H inp out" "accepts (h_send H)" "delivers (h_recv H) inp"
    and p: "Serialize B T req = Ret (game_enc p)" "length (game_enc p) < 2 ^ 31" "pid = game_id p"
    and q: "Deserialize B R (game_enc q) = Ret resp" "length (game_enc q) < 2 ^ 31"
    and w: "inp w = game_frame B q @ rest"
  shows "\<exists>w'. exchange B H T R pid req print w = seq (\<lambda>w. (print resp, w)) (return True) w' \<and>
    inp w' = rest \<and> out w' = out w @ game_frame B p"
proof -
  obtain w1 where w1: "send_packet B (h_send H) (GamePacketId_value pid) (game_enc p) w = (True, w1)" "inp w1 = inp w"
      "out w1 = out w @ game_frame B p"
    using send_packet_accepts [OF H(1,2) p(2), of B _ w] p(3) by (auto simp: game_frame_def)
  obtain w2 where w2: "recv_packet B (h_recv H) w1 = (Some (GamePacketId_value (game_id q), game_enc q), w2)" "inp w2 = rest"
    using recv_packet_delivers [OF _ H(3) q(2), of w1 B _ rest] H(1) w w1(2) by (auto simp: duplex_def game_frame_def)
  with w1 recv_packet_out [OF H(1) w2(1)] p(1) q(1) show ?thesis by (auto simp: exchange_def)
qed

lemma exchange_ok:
  assumes "duplex H inp out" "accepts (h_send H)" "delivers (h_recv H) inp"
    and "Serialize B T req = Ret (game_enc p)" "length (game_enc p) < 2 ^ 31" "pid = game_id p"
    and "Deserialize B R (game_enc q) = Ret resp" "length (game_enc q) < 2 ^ 31" "print resp = Ret ()"
    and "inp w = game_frame B q @ rest"
  shows "\<exists>w'. exchange B H T R pid req print w = (Ret True, w') \<and> inp w' = rest \<and> out w' = out w @ game_frame B p"
  using exchange_result [of H inp out B T req p pid R q resp w rest print] assms by (auto simp: seq_def)

section \<open>A session\<close>

text \<open>A test that succeeds on the response \<open>q\<close>, with one of the requests of \<open>ps\<close>.\<close>

definition passes :: "build \<Rightarrow> ('w \<Rightarrow> bytes) \<Rightarrow> ('w \<Rightarrow> bytes) \<Rightarrow> ('w, bool) op \<Rightarrow> GamePacket set \<Rightarrow> GamePacket \<Rightarrow> bool" where
  "passes B inp out t ps q \<longleftrightarrow> (\<forall>w rest. inp w = game_frame B q @ rest \<longrightarrow>
     (\<exists>w'. t w = (Ret True, w') \<and> inp w' = rest \<and> (\<exists>p \<in> ps. out w' = out w @ game_frame B p)))"

lemma run_tests_pass:
  "list_all2 (\<lambda>(t, ps) q. passes B inp out t ps q) ts qs \<Longrightarrow>
   inp w = concat (map (game_frame B) qs) @ rest \<Longrightarrow>
   \<exists>w' sent. run_tests (map fst ts) ok w = (Ret ok, w') \<and> inp w' = rest \<and>
     list_all2 (\<lambda>p ps. p \<in> ps) sent (map snd ts) \<and> out w' = out w @ concat (map (game_frame B) sent)"
proof (induction ts arbitrary: qs w)
  case Nil
  then show ?case by simp
next
  case (Cons tp ts)
  obtain t ps where tp: "tp = (t, ps)" by force
  with Cons.prems obtain q qs' where qs: "qs = q # qs'" "passes B inp out t ps q"
    "list_all2 (\<lambda>(t, ps) q. passes B inp out t ps q) ts qs'" by (auto simp: list_all2_Cons1)
  have "inp w = game_frame B q @ concat (map (game_frame B) qs') @ rest" using Cons.prems(2) qs(1) by simp
  with qs(2) obtain w1 p where w1: "t w = (Ret True, w1)" "inp w1 = concat (map (game_frame B) qs') @ rest"
      "p \<in> ps" "out w1 = out w @ game_frame B p" unfolding passes_def by metis
  from Cons.IH [OF qs(3) w1(2)] obtain w' sent where "run_tests (map fst ts) ok w1 = (Ret ok, w')" "inp w' = rest"
      "list_all2 (\<lambda>p ps. p \<in> ps) sent (map snd ts)" "out w' = out w1 @ concat (map (game_frame B) sent)" by blast
  with w1 tp show ?case by (intro exI [of _ w'] exI [of _ "p # sent"]) simp
qed

text \<open>The packets the program sends; the chat message carries the time of sending.\<close>

definition client_requests :: "u64 \<Rightarrow> GamePacket list" where
  "client_requests now = [LoginRequestPacket login_request, PlayerStatePacket player_state_request,
     ChatMessagePacket (chat_message_request now), ScoreUpdatePacket score_update_request,
     InventoryDataPacket inventory_request, BufferDataPacket buffer_data_request,
     IntArrayPacketPacket int_arrays_request, SkillSlotDataPacket skill_slots_request,
     MapTileRowPacket map_tile_row_request, MixedFormatPacketPacket mixed_format_request]"

lemma replicate_numeral: "replicate (numeral k) x = x # replicate (pred_numeral k) x"
  by (simp add: numeral_eq_Suc)

lemma requests_ok:
  "game_ok (LoginRequestPacket login_request)" "length (game_enc (LoginRequestPacket login_request)) < 2 ^ 31"
  "game_ok (PlayerStatePacket player_state_request)" "length (game_enc (PlayerStatePacket player_state_request)) < 2 ^ 31"
  "game_ok (ChatMessagePacket (chat_message_request now))" "length (game_enc (ChatMessagePacket (chat_message_request now))) < 2 ^ 31"
  "game_ok (ScoreUpdatePacket score_update_request)" "length (game_enc (ScoreUpdatePacket score_update_request)) < 2 ^ 31"
  "game_ok (InventoryDataPacket inventory_request)" "length (game_enc (InventoryDataPacket inventory_request)) < 2 ^ 31"
  "game_ok (BufferDataPacket buffer_data_request)" "length (game_enc (BufferDataPacket buffer_data_request)) < 2 ^ 31"
  "game_ok (IntArrayPacketPacket int_arrays_request)" "length (game_enc (IntArrayPacketPacket int_arrays_request)) < 2 ^ 31"
  by (simp_all add: login_request_def player_state_request_def chat_message_request_def score_update_request_def
    inventory_request_def buffer_data_request_def int_arrays_request_def game_layouts struct_enc_def struct_fits_def
    string_ok_def string_fits_def all_ok_def all_fit_def default_options_def bytes_of_string_def enc_string_def
    enc_collection_def enc_length_def)

lemma array_requests_ok:
  "game_ok (SkillSlotDataPacket skill_slots_request)" "length (game_enc (SkillSlotDataPacket skill_slots_request)) < 2 ^ 31"
  "game_ok (MapTileRowPacket map_tile_row_request)" "length (game_enc (MapTileRowPacket map_tile_row_request)) < 2 ^ 31"
  "game_ok (MixedFormatPacketPacket mixed_format_request)" "length (game_enc (MixedFormatPacketPacket mixed_format_request)) < 2 ^ 31"
  by (simp_all add: skill_slots_request_def SkillSlotData_init_def SkillSlotData_ok_def SkillSlotData_fits_def SkillSlotData_enc_def
    map_tile_row_request_def MapTileRow_init_def MapTileRow_ok_def MapTileRow_fits_def MapTileRow_enc_def
    mixed_format_request_def MixedFormatPacket_init_def MixedFormatPacket_ok_def MixedFormatPacket_fits_def MixedFormatPacket_enc_def
    array_ok_def enc_array_def enc_collection_def enc_length_def default_options_def bytes_of_string_def replicate_numeral)

lemmas game_deserialize =
  LoginRequest.Deserialize_message [unfolded game_members, folded LoginRequest_formatter_def]
  LoginResponse.Deserialize_message [unfolded game_members, folded LoginResponse_formatter_def]
  PlayerState.Deserialize_message [unfolded game_members, folded PlayerState_formatter_def]
  ScoreUpdate.Deserialize_message [unfolded game_members, folded ScoreUpdate_formatter_def]
  ChatMessage.Deserialize_message [unfolded game_members, folded ChatMessage_formatter_def]
  InventoryData.Deserialize_message [unfolded game_members, folded InventoryData_formatter_def]
  BufferData.Deserialize_message [unfolded game_members, folded BufferData_formatter_def]
  IntArrayPacket.Deserialize_message [unfolded game_members, folded IntArrayPacket_formatter_def]
  SkillSlotData.Deserialize_message MapTileRow.Deserialize_message MixedFormatPacket.Deserialize_message

text \<open>A packet that a server may answer with: within the limits, and with as many counts as names.\<close>

definition reply_ok :: "GamePacket \<Rightarrow> bool" where
  "reply_ok q \<longleftrightarrow> game_ok q \<and> length (game_enc q) < 2 ^ 31 \<and>
     (case q of InventoryDataPacket v \<Rightarrow> length (inv_itemNames v) \<le> length (inv_itemCounts v) | _ \<Rightarrow> True)"

lemma passes_exchange:
  assumes "duplex H inp out" "accepts (h_send H)" "delivers (h_recv H) inp"
    and "game_ok p" "length (game_enc p) < 2 ^ 31" "pid = game_id p"
    and "serialize_packet B p = Serialize B T req"
    and "reply_ok q" "Deserialize B R (game_enc q) = Ret resp" "print resp = Ret ()" "p \<in> ps"
  shows "passes B inp out (exchange B H T R pid req print) ps q"
proof -
  have "Serialize B T req = Ret (game_enc p)" using serialize_packet_enc [OF assms(4), of B] assms(5,7) by simp
  with exchange_ok [of H inp out B T req p pid R q resp print] assms show ?thesis
    unfolding passes_def reply_ok_def by blast
qed

text \<open>The responses of the ten tests, and the session on them.\<close>

definition client_replies :: "GamePacket list \<Rightarrow> bool" where
  "client_replies qs \<longleftrightarrow> list_all reply_ok qs \<and> map game_id qs = [LoginResponseId, PlayerStateId, ChatMessageId,
     ScoreUpdateId, InventoryDataId, BufferDataId, IntArrayPacketId, SkillSlotDataId, MapTileRowId, MixedFormatPacketId]"

lemma game_id_cases:
  "game_id q = LoginResponseId \<Longrightarrow> \<exists>v. q = LoginResponsePacket v" "game_id q = PlayerStateId \<Longrightarrow> \<exists>v. q = PlayerStatePacket v"
  "game_id q = ChatMessageId \<Longrightarrow> \<exists>v. q = ChatMessagePacket v" "game_id q = ScoreUpdateId \<Longrightarrow> \<exists>v. q = ScoreUpdatePacket v"
  "game_id q = InventoryDataId \<Longrightarrow> \<exists>v. q = InventoryDataPacket v" "game_id q = BufferDataId \<Longrightarrow> \<exists>v. q = BufferDataPacket v"
  "game_id q = IntArrayPacketId \<Longrightarrow> \<exists>v. q = IntArrayPacketPacket v" "game_id q = SkillSlotDataId \<Longrightarrow> \<exists>v. q = SkillSlotDataPacket v"
  "game_id q = MapTileRowId \<Longrightarrow> \<exists>v. q = MapTileRowPacket v" "game_id q = MixedFormatPacketId \<Longrightarrow> \<exists>v. q = MixedFormatPacketPacket v"
  by (cases q; simp)+

lemma client_tests_pass:
  assumes H: "duplex H inp out" "accepts (h_send H)" "delivers (h_recv H) inp" and qs: "client_replies qs"
  shows "list_all2 (\<lambda>(t, ps) q. passes B inp out t ps q)
    (zip (client_tests B H) [{LoginRequestPacket login_request}, {PlayerStatePacket player_state_request},
      range (\<lambda>now. ChatMessagePacket (chat_message_request now)), {ScoreUpdatePacket score_update_request},
      {InventoryDataPacket inventory_request}, {BufferDataPacket buffer_data_request},
      {IntArrayPacketPacket int_arrays_request}, {SkillSlotDataPacket skill_slots_request},
      {MapTileRowPacket map_tile_row_request}, {MixedFormatPacketPacket mixed_format_request}]) qs"
proof -
  note tests = test_login_def test_player_state_def test_score_update_def test_inventory_def test_buffer_data_def
    test_int_arrays_def test_skill_slots_def test_map_tile_row_def test_mixed_format_def
  have chat: "passes B inp out (test_chat_message B H) (range (\<lambda>now. ChatMessagePacket (chat_message_request now))) (ChatMessagePacket v)"
    if "reply_ok (ChatMessagePacket v)" for v
  proof -
    have "passes B inp out (exchange B H ChatMessage_formatter ChatMessage_formatter ChatMessageId (chat_message_request now) (\<lambda>_. Ret ()))
        (range (\<lambda>now. ChatMessagePacket (chat_message_request now))) (ChatMessagePacket v)" for now
      by (rule passes_exchange [OF H requests_ok(5,6)]) (use that in \<open>simp_all add: reply_ok_def game_deserialize\<close>)
    then show ?thesis unfolding passes_def test_chat_message_def by simp
  qed
  from qs obtain a b c d e f g h i j where q: "qs = [LoginResponsePacket a, PlayerStatePacket b, ChatMessagePacket c,
      ScoreUpdatePacket d, InventoryDataPacket e, BufferDataPacket f, IntArrayPacketPacket g, SkillSlotDataPacket h,
      MapTileRowPacket i, MixedFormatPacketPacket j]" and ok: "list_all reply_ok qs"
    unfolding client_replies_def by (auto simp: map_eq_Cons_conv dest!: game_id_cases)
  from ok q have r: "reply_ok (LoginResponsePacket a)" "reply_ok (PlayerStatePacket b)" "reply_ok (ChatMessagePacket c)"
      "reply_ok (ScoreUpdatePacket d)" "reply_ok (InventoryDataPacket e)" "reply_ok (BufferDataPacket f)"
      "reply_ok (IntArrayPacketPacket g)" "reply_ok (SkillSlotDataPacket h)" "reply_ok (MapTileRowPacket i)"
      "reply_ok (MixedFormatPacketPacket j)" by simp_all
  note ex = passes_exchange [OF H]
  have "passes B inp out (test_login B H) {LoginRequestPacket login_request} (LoginResponsePacket a)"
    unfolding tests by (rule ex [OF requests_ok(1,2)]) (use r(1) in \<open>simp_all add: reply_ok_def game_deserialize\<close>)
  moreover have "passes B inp out (test_player_state B H) {PlayerStatePacket player_state_request} (PlayerStatePacket b)"
    unfolding tests by (rule ex [OF requests_ok(3,4)]) (use r(2) in \<open>simp_all add: reply_ok_def game_deserialize\<close>)
  moreover have "passes B inp out (test_score_update B H) {ScoreUpdatePacket score_update_request} (ScoreUpdatePacket d)"
    unfolding tests by (rule ex [OF requests_ok(7,8)]) (use r(4) in \<open>simp_all add: reply_ok_def game_deserialize\<close>)
  moreover have "passes B inp out (test_inventory B H) {InventoryDataPacket inventory_request} (InventoryDataPacket e)"
    unfolding tests by (rule ex [OF requests_ok(9,10)]) (use r(5) in \<open>auto simp: reply_ok_def game_deserialize print_items_Ret\<close>)
  moreover have "passes B inp out (test_buffer_data B H) {BufferDataPacket buffer_data_request} (BufferDataPacket f)"
    unfolding tests by (rule ex [OF requests_ok(11,12)]) (use r(6) in \<open>simp_all add: reply_ok_def game_deserialize\<close>)
  moreover have "passes B inp out (test_int_arrays B H) {IntArrayPacketPacket int_arrays_request} (IntArrayPacketPacket g)"
    unfolding tests by (rule ex [OF requests_ok(13,14)]) (use r(7) in \<open>simp_all add: reply_ok_def game_deserialize\<close>)
  moreover have "passes B inp out (test_skill_slots B H) {SkillSlotDataPacket skill_slots_request} (SkillSlotDataPacket h)"
    unfolding tests by (rule ex [OF array_requests_ok(1,2)]) (use r(8) in \<open>auto simp: reply_ok_def game_deserialize print_skills_ok\<close>)
  moreover have "passes B inp out (test_map_tile_row B H) {MapTileRowPacket map_tile_row_request} (MapTileRowPacket i)"
    unfolding tests by (rule ex [OF array_requests_ok(3,4)]) (use r(9) in \<open>auto simp: reply_ok_def game_deserialize print_tiles_ok\<close>)
  moreover have "passes B inp out (test_mixed_format B H) {MixedFormatPacketPacket mixed_format_request} (MixedFormatPacketPacket j)"
    unfolding tests by (rule ex [OF array_requests_ok(5,6)]) (use r(10) in \<open>auto simp: reply_ok_def game_deserialize print_mixed_ok\<close>)
  ultimately show ?thesis using chat [OF r(3)] unfolding q client_tests_def by simp
qed

lemma client_main_passes:
  assumes H: "duplex H inp out" "accepts (h_send H)" "delivers (h_recv H) inp"
    and qs: "client_replies qs" "inp w = concat (map (game_frame B) qs) @ rest"
  shows "\<exists>w' now. client_main B H True True w = (Ret 0, w') \<and> inp w' = rest \<and>
    out w' = out w @ concat (map (game_frame B) (client_requests now))"
proof -
  from run_tests_pass [OF client_tests_pass [OF H qs(1), of B] qs(2), of True]
  show ?thesis by (auto simp: client_main_def client_tests_def client_requests_def list_all2_Cons2)
qed

text \<open>A response with fewer counts than names, which decodes without an error, makes the client read
  beyond the end of a vector.\<close>

lemma test_inventory_UB:
  assumes H: "duplex H inp out" "accepts (h_send H)" "delivers (h_recv H) inp"
    and v: "game_ok (InventoryDataPacket v)" "length (game_enc (InventoryDataPacket v)) < 2 ^ 31"
      "length (inv_itemCounts v) < length (inv_itemNames v)"
    and w: "inp w = game_frame B (InventoryDataPacket v) @ rest"
  shows "\<exists>w'. test_inventory B H w = (UB, w')"
proof -
  let ?p = "InventoryDataPacket inventory_request"
  have p: "Serialize B InventoryData_formatter inventory_request = Ret (game_enc ?p)"
    using serialize_packet_enc [OF requests_ok(9), of B] requests_ok(10) by simp
  have q: "Deserialize B InventoryData_formatter (game_enc (InventoryDataPacket v)) = Ret v"
    using v by (simp add: game_deserialize)
  let ?print = "\<lambda>resp. print_items (inv_itemNames resp) (inv_itemCounts resp)"
  have "InventoryDataId = game_id ?p" by simp
  from exchange_result [OF H p requests_ok(10) this q v(2) w, of ?print] print_items_UB [OF v(3)]
  show ?thesis unfolding test_inventory_def by (auto simp: seq_def bind_def)
qed

end
