(* ===== verification/ChatPackets.thy ===== *)
theory ChatPackets
  imports Structs Packet
begin

text \<open>
  The protocol of the chat samples (\<^verbatim>\<open>samples/ChatClient/packets.hpp\<close> and
  \<^verbatim>\<open>samples/ChatClientConsole/packets.hpp\<close>, which declare the same structs): identifiers, structs,
  generated serializers and the dispatch table. The two structs whose names the game protocol also
  uses carry the prefix \<open>Chat\<close>.
\<close>

datatype ChatPacketId = ChatLoginRequestId | ChatLoginResponseId | RoomJoinRequestId | RoomJoinResponseId | RoomChatId | PrivateChatId | UserEnteredId | UserLeftId

fun ChatPacketId_value :: "ChatPacketId \<Rightarrow> u16" where
  "ChatPacketId_value ChatLoginRequestId = 101"
| "ChatPacketId_value ChatLoginResponseId = 102"
| "ChatPacketId_value RoomJoinRequestId = 103"
| "ChatPacketId_value RoomJoinResponseId = 104"
| "ChatPacketId_value RoomChatId = 105"
| "ChatPacketId_value PrivateChatId = 106"
| "ChatPacketId_value UserEnteredId = 107"
| "ChatPacketId_value UserLeftId = 108"

record ChatLoginRequest =
  clq_username :: bytes

record ChatLoginResponse =
  cls_success :: bool
  cls_message :: bytes

record RoomJoinRequest =
  rjq_roomName :: bytes

record RoomJoinResponse =
  rjs_success :: bool
  rjs_existingUsers :: "bytes list"

record RoomChat =
  rch_senderName :: bytes
  rch_message :: bytes

record PrivateChat =
  pch_senderName :: bytes
  pch_targetName :: bytes
  pch_message :: bytes

record UserEntered =
  uen_username :: bytes

record UserLeft =
  ule_username :: bytes

definition ChatLoginRequest_members :: "ChatLoginRequest member list" where
  "ChatLoginRequest_members = [member string_formatter clq_username (\<lambda>x. clq_username_update (\<lambda>_. x))]"

definition ChatLoginResponse_members :: "ChatLoginResponse member list" where
  "ChatLoginResponse_members = [member bool_formatter cls_success (\<lambda>x. cls_success_update (\<lambda>_. x)),
     member string_formatter cls_message (\<lambda>x. cls_message_update (\<lambda>_. x))]"

definition RoomJoinRequest_members :: "RoomJoinRequest member list" where
  "RoomJoinRequest_members = [member string_formatter rjq_roomName (\<lambda>x. rjq_roomName_update (\<lambda>_. x))]"

definition RoomJoinResponse_members :: "RoomJoinResponse member list" where
  "RoomJoinResponse_members = [member bool_formatter rjs_success (\<lambda>x. rjs_success_update (\<lambda>_. x)),
     member (vector_formatter string_formatter) rjs_existingUsers (\<lambda>x. rjs_existingUsers_update (\<lambda>_. x))]"

definition RoomChat_members :: "RoomChat member list" where
  "RoomChat_members = [member string_formatter rch_senderName (\<lambda>x. rch_senderName_update (\<lambda>_. x)),
     member string_formatter rch_message (\<lambda>x. rch_message_update (\<lambda>_. x))]"

definition PrivateChat_members :: "PrivateChat member list" where
  "PrivateChat_members = [member string_formatter pch_senderName (\<lambda>x. pch_senderName_update (\<lambda>_. x)),
     member string_formatter pch_targetName (\<lambda>x. pch_targetName_update (\<lambda>_. x)),
     member string_formatter pch_message (\<lambda>x. pch_message_update (\<lambda>_. x))]"

definition UserEntered_members :: "UserEntered member list" where
  "UserEntered_members = [member string_formatter uen_username (\<lambda>x. uen_username_update (\<lambda>_. x))]"

definition UserLeft_members :: "UserLeft member list" where
  "UserLeft_members = [member string_formatter ule_username (\<lambda>x. ule_username_update (\<lambda>_. x))]"

definition ChatLoginRequest_init :: ChatLoginRequest where
  "ChatLoginRequest_init = \<lparr>clq_username = []\<rparr>"

definition ChatLoginResponse_init :: ChatLoginResponse where
  "ChatLoginResponse_init = \<lparr>cls_success = False, cls_message = []\<rparr>"

definition RoomJoinRequest_init :: RoomJoinRequest where
  "RoomJoinRequest_init = \<lparr>rjq_roomName = []\<rparr>"

definition RoomJoinResponse_init :: RoomJoinResponse where
  "RoomJoinResponse_init = \<lparr>rjs_success = False, rjs_existingUsers = []\<rparr>"

definition RoomChat_init :: RoomChat where
  "RoomChat_init = \<lparr>rch_senderName = [], rch_message = []\<rparr>"

definition PrivateChat_init :: PrivateChat where
  "PrivateChat_init = \<lparr>pch_senderName = [], pch_targetName = [], pch_message = []\<rparr>"

definition UserEntered_init :: UserEntered where
  "UserEntered_init = \<lparr>uen_username = []\<rparr>"

definition UserLeft_init :: UserLeft where
  "UserLeft_init = \<lparr>ule_username = []\<rparr>"

definition ChatLoginRequest_formatter :: "ChatLoginRequest MemoryPackFormatter" where
  "ChatLoginRequest_formatter = MEMORYPACK_DEFINE ChatLoginRequest_init ChatLoginRequest_members"

definition ChatLoginResponse_formatter :: "ChatLoginResponse MemoryPackFormatter" where
  "ChatLoginResponse_formatter = MEMORYPACK_DEFINE ChatLoginResponse_init ChatLoginResponse_members"

definition RoomJoinRequest_formatter :: "RoomJoinRequest MemoryPackFormatter" where
  "RoomJoinRequest_formatter = MEMORYPACK_DEFINE RoomJoinRequest_init RoomJoinRequest_members"

definition RoomJoinResponse_formatter :: "RoomJoinResponse MemoryPackFormatter" where
  "RoomJoinResponse_formatter = MEMORYPACK_DEFINE RoomJoinResponse_init RoomJoinResponse_members"

definition RoomChat_formatter :: "RoomChat MemoryPackFormatter" where
  "RoomChat_formatter = MEMORYPACK_DEFINE RoomChat_init RoomChat_members"

definition PrivateChat_formatter :: "PrivateChat MemoryPackFormatter" where
  "PrivateChat_formatter = MEMORYPACK_DEFINE PrivateChat_init PrivateChat_members"

definition UserEntered_formatter :: "UserEntered MemoryPackFormatter" where
  "UserEntered_formatter = MEMORYPACK_DEFINE UserEntered_init UserEntered_members"

definition UserLeft_formatter :: "UserLeft MemoryPackFormatter" where
  "UserLeft_formatter = MEMORYPACK_DEFINE UserLeft_init UserLeft_members"

section \<open>Layouts\<close>

definition ChatLoginRequest_layout :: "ChatLoginRequest layout" where
  "ChatLoginRequest_layout = zip ChatLoginRequest_members [string_field clq_username (\<lambda>x. clq_username_update (\<lambda>_. x))]"

definition ChatLoginResponse_layout :: "ChatLoginResponse layout" where
  "ChatLoginResponse_layout = zip ChatLoginResponse_members [bool_field cls_success (\<lambda>x. cls_success_update (\<lambda>_. x)),
     string_field cls_message (\<lambda>x. cls_message_update (\<lambda>_. x))]"

definition RoomJoinRequest_layout :: "RoomJoinRequest layout" where
  "RoomJoinRequest_layout = zip RoomJoinRequest_members [string_field rjq_roomName (\<lambda>x. rjq_roomName_update (\<lambda>_. x))]"

definition RoomJoinResponse_layout :: "RoomJoinResponse layout" where
  "RoomJoinResponse_layout = zip RoomJoinResponse_members [bool_field rjs_success (\<lambda>x. rjs_success_update (\<lambda>_. x)),
     strings_field rjs_existingUsers (\<lambda>x. rjs_existingUsers_update (\<lambda>_. x))]"

definition RoomChat_layout :: "RoomChat layout" where
  "RoomChat_layout = zip RoomChat_members [string_field rch_senderName (\<lambda>x. rch_senderName_update (\<lambda>_. x)),
     string_field rch_message (\<lambda>x. rch_message_update (\<lambda>_. x))]"

definition PrivateChat_layout :: "PrivateChat layout" where
  "PrivateChat_layout = zip PrivateChat_members [string_field pch_senderName (\<lambda>x. pch_senderName_update (\<lambda>_. x)),
     string_field pch_targetName (\<lambda>x. pch_targetName_update (\<lambda>_. x)),
     string_field pch_message (\<lambda>x. pch_message_update (\<lambda>_. x))]"

definition UserEntered_layout :: "UserEntered layout" where
  "UserEntered_layout = zip UserEntered_members [string_field uen_username (\<lambda>x. uen_username_update (\<lambda>_. x))]"

definition UserLeft_layout :: "UserLeft layout" where
  "UserLeft_layout = zip UserLeft_members [string_field ule_username (\<lambda>x. ule_username_update (\<lambda>_. x))]"

lemmas chat_layouts =
  ChatLoginRequest_layout_def ChatLoginRequest_members_def
  ChatLoginResponse_layout_def ChatLoginResponse_members_def
  RoomJoinRequest_layout_def RoomJoinRequest_members_def
  RoomJoinResponse_layout_def RoomJoinResponse_members_def
  RoomChat_layout_def RoomChat_members_def
  PrivateChat_layout_def PrivateChat_members_def
  UserEntered_layout_def UserEntered_members_def
  UserLeft_layout_def UserLeft_members_def

lemma chat_members [simp]:
  "map fst ChatLoginRequest_layout = ChatLoginRequest_members"
  "map fst ChatLoginResponse_layout = ChatLoginResponse_members"
  "map fst RoomJoinRequest_layout = RoomJoinRequest_members"
  "map fst RoomJoinResponse_layout = RoomJoinResponse_members"
  "map fst RoomChat_layout = RoomChat_members"
  "map fst PrivateChat_layout = PrivateChat_members"
  "map fst UserEntered_layout = UserEntered_members"
  "map fst UserLeft_layout = UserLeft_members"
  by (simp_all add: chat_layouts)

interpretation ChatLoginRequest: struct_codec ChatLoginRequest_init ChatLoginRequest_layout
  by (rule struct_codec.intro) (auto simp: chat_layouts intro: struct_members)

interpretation ChatLoginResponse: struct_codec ChatLoginResponse_init ChatLoginResponse_layout
  by (rule struct_codec.intro) (auto simp: chat_layouts intro: struct_members)

interpretation RoomJoinRequest: struct_codec RoomJoinRequest_init RoomJoinRequest_layout
  by (rule struct_codec.intro) (auto simp: chat_layouts intro: struct_members)

interpretation RoomJoinResponse: struct_codec RoomJoinResponse_init RoomJoinResponse_layout
  by (rule struct_codec.intro) (auto simp: chat_layouts intro: struct_members)

interpretation RoomChat: struct_codec RoomChat_init RoomChat_layout
  by (rule struct_codec.intro) (auto simp: chat_layouts intro: struct_members)

interpretation PrivateChat: struct_codec PrivateChat_init PrivateChat_layout
  by (rule struct_codec.intro) (auto simp: chat_layouts intro: struct_members)

interpretation UserEntered: struct_codec UserEntered_init UserEntered_layout
  by (rule struct_codec.intro) (auto simp: chat_layouts intro: struct_members)

interpretation UserLeft: struct_codec UserLeft_init UserLeft_layout
  by (rule struct_codec.intro) (auto simp: chat_layouts intro: struct_members)

lemmas chat_formatters =
  ChatLoginRequest_formatter_def
  ChatLoginResponse_formatter_def
  RoomJoinRequest_formatter_def
  RoomJoinResponse_formatter_def
  RoomChat_formatter_def
  PrivateChat_formatter_def
  UserEntered_formatter_def
  UserLeft_formatter_def

section \<open>Dispatch\<close>

datatype ChatPacket =
    ChatLoginRequestPacket ChatLoginRequest
  | ChatLoginResponsePacket ChatLoginResponse
  | RoomJoinRequestPacket RoomJoinRequest
  | RoomJoinResponsePacket RoomJoinResponse
  | RoomChatPacket RoomChat
  | PrivateChatPacket PrivateChat
  | UserEnteredPacket UserEntered
  | UserLeftPacket UserLeft

definition ChatDispatchPacket :: "build \<Rightarrow> u16 \<Rightarrow> bytes \<Rightarrow> (ChatPacket \<Rightarrow> ('s, unit) op) \<Rightarrow> ('s, bool) op" where
  "ChatDispatchPacket B pid body handler =
     (if pid = ChatPacketId_value ChatLoginRequestId then dispatch_as B ChatLoginRequest_formatter (\<lambda>v. handler (ChatLoginRequestPacket v)) body
      else if pid = ChatPacketId_value ChatLoginResponseId then dispatch_as B ChatLoginResponse_formatter (\<lambda>v. handler (ChatLoginResponsePacket v)) body
      else if pid = ChatPacketId_value RoomJoinRequestId then dispatch_as B RoomJoinRequest_formatter (\<lambda>v. handler (RoomJoinRequestPacket v)) body
      else if pid = ChatPacketId_value RoomJoinResponseId then dispatch_as B RoomJoinResponse_formatter (\<lambda>v. handler (RoomJoinResponsePacket v)) body
      else if pid = ChatPacketId_value RoomChatId then dispatch_as B RoomChat_formatter (\<lambda>v. handler (RoomChatPacket v)) body
      else if pid = ChatPacketId_value PrivateChatId then dispatch_as B PrivateChat_formatter (\<lambda>v. handler (PrivateChatPacket v)) body
      else if pid = ChatPacketId_value UserEnteredId then dispatch_as B UserEntered_formatter (\<lambda>v. handler (UserEnteredPacket v)) body
      else if pid = ChatPacketId_value UserLeftId then dispatch_as B UserLeft_formatter (\<lambda>v. handler (UserLeftPacket v)) body
      else return False)"

fun chat_id :: "ChatPacket \<Rightarrow> ChatPacketId" where
  "chat_id (ChatLoginRequestPacket v) = ChatLoginRequestId"
| "chat_id (ChatLoginResponsePacket v) = ChatLoginResponseId"
| "chat_id (RoomJoinRequestPacket v) = RoomJoinRequestId"
| "chat_id (RoomJoinResponsePacket v) = RoomJoinResponseId"
| "chat_id (RoomChatPacket v) = RoomChatId"
| "chat_id (PrivateChatPacket v) = PrivateChatId"
| "chat_id (UserEnteredPacket v) = UserEnteredId"
| "chat_id (UserLeftPacket v) = UserLeftId"

fun serialize_chat :: "build \<Rightarrow> ChatPacket \<Rightarrow> bytes outcome" where
  "serialize_chat B (ChatLoginRequestPacket v) = Serialize B ChatLoginRequest_formatter v"
| "serialize_chat B (ChatLoginResponsePacket v) = Serialize B ChatLoginResponse_formatter v"
| "serialize_chat B (RoomJoinRequestPacket v) = Serialize B RoomJoinRequest_formatter v"
| "serialize_chat B (RoomJoinResponsePacket v) = Serialize B RoomJoinResponse_formatter v"
| "serialize_chat B (RoomChatPacket v) = Serialize B RoomChat_formatter v"
| "serialize_chat B (PrivateChatPacket v) = Serialize B PrivateChat_formatter v"
| "serialize_chat B (UserEnteredPacket v) = Serialize B UserEntered_formatter v"
| "serialize_chat B (UserLeftPacket v) = Serialize B UserLeft_formatter v"

fun chat_enc :: "ChatPacket \<Rightarrow> bytes" where
  "chat_enc (ChatLoginRequestPacket v) = struct_enc ChatLoginRequest_layout v"
| "chat_enc (ChatLoginResponsePacket v) = struct_enc ChatLoginResponse_layout v"
| "chat_enc (RoomJoinRequestPacket v) = struct_enc RoomJoinRequest_layout v"
| "chat_enc (RoomJoinResponsePacket v) = struct_enc RoomJoinResponse_layout v"
| "chat_enc (RoomChatPacket v) = struct_enc RoomChat_layout v"
| "chat_enc (PrivateChatPacket v) = struct_enc PrivateChat_layout v"
| "chat_enc (UserEnteredPacket v) = struct_enc UserEntered_layout v"
| "chat_enc (UserLeftPacket v) = struct_enc UserLeft_layout v"

fun chat_ok :: "ChatPacket \<Rightarrow> bool" where
  "chat_ok (ChatLoginRequestPacket v) \<longleftrightarrow> members_ok ChatLoginRequest_layout v \<and> struct_fits ChatLoginRequest_layout v default_options 0"
| "chat_ok (ChatLoginResponsePacket v) \<longleftrightarrow> members_ok ChatLoginResponse_layout v \<and> struct_fits ChatLoginResponse_layout v default_options 0"
| "chat_ok (RoomJoinRequestPacket v) \<longleftrightarrow> members_ok RoomJoinRequest_layout v \<and> struct_fits RoomJoinRequest_layout v default_options 0"
| "chat_ok (RoomJoinResponsePacket v) \<longleftrightarrow> members_ok RoomJoinResponse_layout v \<and> struct_fits RoomJoinResponse_layout v default_options 0"
| "chat_ok (RoomChatPacket v) \<longleftrightarrow> members_ok RoomChat_layout v \<and> struct_fits RoomChat_layout v default_options 0"
| "chat_ok (PrivateChatPacket v) \<longleftrightarrow> members_ok PrivateChat_layout v \<and> struct_fits PrivateChat_layout v default_options 0"
| "chat_ok (UserEnteredPacket v) \<longleftrightarrow> members_ok UserEntered_layout v \<and> struct_fits UserEntered_layout v default_options 0"
| "chat_ok (UserLeftPacket v) \<longleftrightarrow> members_ok UserLeft_layout v \<and> struct_fits UserLeft_layout v default_options 0"

lemmas chat_serialize =
  ChatLoginRequest.Serialize_message [unfolded chat_members, folded ChatLoginRequest_formatter_def]
  ChatLoginResponse.Serialize_message [unfolded chat_members, folded ChatLoginResponse_formatter_def]
  RoomJoinRequest.Serialize_message [unfolded chat_members, folded RoomJoinRequest_formatter_def]
  RoomJoinResponse.Serialize_message [unfolded chat_members, folded RoomJoinResponse_formatter_def]
  RoomChat.Serialize_message [unfolded chat_members, folded RoomChat_formatter_def]
  PrivateChat.Serialize_message [unfolded chat_members, folded PrivateChat_formatter_def]
  UserEntered.Serialize_message [unfolded chat_members, folded UserEntered_formatter_def]
  UserLeft.Serialize_message [unfolded chat_members, folded UserLeft_formatter_def]

lemmas chat_dispatch =
  ChatLoginRequest.dispatch_as_enc [unfolded chat_members, folded ChatLoginRequest_formatter_def]
  ChatLoginResponse.dispatch_as_enc [unfolded chat_members, folded ChatLoginResponse_formatter_def]
  RoomJoinRequest.dispatch_as_enc [unfolded chat_members, folded RoomJoinRequest_formatter_def]
  RoomJoinResponse.dispatch_as_enc [unfolded chat_members, folded RoomJoinResponse_formatter_def]
  RoomChat.dispatch_as_enc [unfolded chat_members, folded RoomChat_formatter_def]
  PrivateChat.dispatch_as_enc [unfolded chat_members, folded PrivateChat_formatter_def]
  UserEntered.dispatch_as_enc [unfolded chat_members, folded UserEntered_formatter_def]
  UserLeft.dispatch_as_enc [unfolded chat_members, folded UserLeft_formatter_def]

lemmas chat_defined =
  ChatLoginRequest.dispatch_as_defined [unfolded chat_members, folded ChatLoginRequest_formatter_def]
  ChatLoginResponse.dispatch_as_defined [unfolded chat_members, folded ChatLoginResponse_formatter_def]
  RoomJoinRequest.dispatch_as_defined [unfolded chat_members, folded RoomJoinRequest_formatter_def]
  RoomJoinResponse.dispatch_as_defined [unfolded chat_members, folded RoomJoinResponse_formatter_def]
  RoomChat.dispatch_as_defined [unfolded chat_members, folded RoomChat_formatter_def]
  PrivateChat.dispatch_as_defined [unfolded chat_members, folded PrivateChat_formatter_def]
  UserEntered.dispatch_as_defined [unfolded chat_members, folded UserEntered_formatter_def]
  UserLeft.dispatch_as_defined [unfolded chat_members, folded UserLeft_formatter_def]

lemmas chat_safe =
  ChatLoginRequest.safe [unfolded chat_members, folded ChatLoginRequest_formatter_def]
  ChatLoginResponse.safe [unfolded chat_members, folded ChatLoginResponse_formatter_def]
  RoomJoinRequest.safe [unfolded chat_members, folded RoomJoinRequest_formatter_def]
  RoomJoinResponse.safe [unfolded chat_members, folded RoomJoinResponse_formatter_def]
  RoomChat.safe [unfolded chat_members, folded RoomChat_formatter_def]
  PrivateChat.safe [unfolded chat_members, folded PrivateChat_formatter_def]
  UserEntered.safe [unfolded chat_members, folded UserEntered_formatter_def]
  UserLeft.safe [unfolded chat_members, folded UserLeft_formatter_def]

lemma serialize_chat_enc:
  "chat_ok p \<Longrightarrow> length (chat_enc p) \<le> 2 ^ 62 \<Longrightarrow> serialize_chat B p = Ret (chat_enc p)"
  by (cases p) (simp_all add: chat_serialize)

lemma ChatDispatchPacket_enc:
  assumes "chat_ok p" "length (chat_enc p) \<le> 2 ^ 62"
  shows "ChatDispatchPacket B (ChatPacketId_value (chat_id p)) (chat_enc p) handler = seq (handler p) (return True)"
  using assms by (cases p) (simp_all add: ChatDispatchPacket_def chat_dispatch)

lemma ChatDispatchPacket_defined:
  assumes "length body < 2 ^ 63" "\<And>p st. fst (handler p st) \<noteq> UB"
  shows "fst (ChatDispatchPacket B pid body handler st) \<noteq> UB"
  unfolding ChatDispatchPacket_def by (simp add: chat_defined [OF assms(1)] assms(2))

interpretation ChatLoginRequest_packet: packet_codec "DefaultPacketHeaderPolicy B" ChatLoginRequest_formatter
  "struct_enc ChatLoginRequest_layout" "members_ok ChatLoginRequest_layout" "struct_fits ChatLoginRequest_layout" for B
  unfolding chat_formatters
  by (intro packet_codec.intro frame_policy_default ChatLoginRequest.codec_axioms [unfolded chat_members])

interpretation RoomJoinRequest_packet: packet_codec "DefaultPacketHeaderPolicy B" RoomJoinRequest_formatter
  "struct_enc RoomJoinRequest_layout" "members_ok RoomJoinRequest_layout" "struct_fits RoomJoinRequest_layout" for B
  unfolding chat_formatters
  by (intro packet_codec.intro frame_policy_default RoomJoinRequest.codec_axioms [unfolded chat_members])

interpretation RoomChat_packet: packet_codec "DefaultPacketHeaderPolicy B" RoomChat_formatter
  "struct_enc RoomChat_layout" "members_ok RoomChat_layout" "struct_fits RoomChat_layout" for B
  unfolding chat_formatters
  by (intro packet_codec.intro frame_policy_default RoomChat.codec_axioms [unfolded chat_members])

interpretation PrivateChat_packet: packet_codec "DefaultPacketHeaderPolicy B" PrivateChat_formatter
  "struct_enc PrivateChat_layout" "members_ok PrivateChat_layout" "struct_fits PrivateChat_layout" for B
  unfolding chat_formatters
  by (intro packet_codec.intro frame_policy_default PrivateChat.codec_axioms [unfolded chat_members])

end
