(* ===== verification/ChatConsole.thy ===== *)
theory ChatConsole
  imports ChatPackets Net
begin

text \<open>
  The console chat client (\<^verbatim>\<open>samples/ChatClientConsole/main.cpp\<close>): its settings, the class \<^verbatim>\<open>ChatClient\<close>,
  the receive thread and the command loop, with the lines it prints.

  \<open>chat_step\<close> interleaves the two threads. \<open>chat_inv\<close> holds in every reachable state: the parser's memory
  is bounded, and the end of the session is reported at most once, because \<^verbatim>\<open>running_.exchange(false)\<close>
  hands the right to report it to one thread. \<open>command\<close> is the language of the input lines, which
  \<open>handle_line\<close> implements; \<open>chat_line\<close> is the line that a received packet makes.
\<close>

section \<open>Text helpers\<close>

function trim_begin :: "bytes \<Rightarrow> nat \<Rightarrow> nat \<Rightarrow> nat" where
  "trim_begin text begin_pos end_pos =
     (if begin_pos < end_pos \<and> (text ! begin_pos = 32 \<or> text ! begin_pos = 9)
      then trim_begin text (begin_pos + 1) end_pos else begin_pos)"
  by pat_completeness auto
termination
  by (relation "measure (\<lambda>(text, b, e). e - b)") auto

function trim_end :: "bytes \<Rightarrow> nat \<Rightarrow> nat \<Rightarrow> nat" where
  "trim_end text begin_pos end_pos =
     (if end_pos > begin_pos \<and> (text ! (end_pos - 1) = 32 \<or> text ! (end_pos - 1) = 9 \<or> text ! (end_pos - 1) = 13)
      then trim_end text begin_pos (end_pos - 1) else end_pos)"
  by pat_completeness auto
termination
  by (relation "measure (\<lambda>(text, b, e). e)") auto

declare trim_begin.simps [simp del] trim_end.simps [simp del]

definition Trim :: "bytes \<Rightarrow> bytes" where
  "Trim text = (let b = trim_begin text 0 (length text); e = trim_end text b (length text)
     in take (e - b) (drop b text))"

definition StartsWith :: "bytes \<Rightarrow> bytes \<Rightarrow> bool" where
  "StartsWith text pre \<longleftrightarrow> length text \<ge> length pre \<and> take (length pre) text = pre"

text \<open>\<open>rest.find(' ')\<close>; \<open>None\<close> is \<^verbatim>\<open>npos\<close>.\<close>

fun find_space :: "bytes \<Rightarrow> nat option" where
  "find_space [] = None"
| "find_space (c # cs) = (if c = 32 then Some 0 else map_option Suc (find_space cs))"

abbreviation str :: "string \<Rightarrow> bytes" where
  "str \<equiv> bytes_of_string"

section \<open>Settings\<close>

definition DEFAULT_HOST :: bytes where "DEFAULT_HOST = str ''127.0.0.1''"
definition DEFAULT_PORT :: u16 where "DEFAULT_PORT = 25002"
definition DEFAULT_ROOM :: bytes where "DEFAULT_ROOM = str ''lobby''"

text \<open>\<^verbatim>\<open>strtol\<close> in base ten: white space, a sign, digits. It saturates at the limits of \<^verbatim>\<open>long\<close>, far
  outside the range of a port, which is all that is tested of the result.\<close>

fun digits_value :: "nat \<Rightarrow> bytes \<Rightarrow> nat" where
  "digits_value n [] = n"
| "digits_value n (c # cs) = (if 48 \<le> c \<and> c \<le> 57 then digits_value (10 * n + (unat c - 48)) cs else n)"

definition strtol :: "bytes \<Rightarrow> int" where
  "strtol s = (let t = dropWhile (\<lambda>c. c = 32 \<or> (9 \<le> c \<and> c \<le> 13)) s in
     case t of [] \<Rightarrow> 0
     | c # cs \<Rightarrow> if c = 45 then - int (digits_value 0 cs)
                else int (digits_value 0 (if c = 43 then cs else t)))"

text \<open>\<^verbatim>\<open>Ask\<close> on the lines that standard input still holds.\<close>

fun Ask :: "bytes list \<Rightarrow> bytes \<times> bytes list" where
  "Ask [] = ([], [])"
| "Ask (line # lines) = (Trim line, lines)"

record settings =
  s_username :: bytes
  s_room :: bytes
  s_host :: bytes
  s_port :: u16

text \<open>The beginning of \<^verbatim>\<open>main\<close>; \<open>None\<close> when it returns 1.\<close>

definition chat_settings :: "bytes list \<Rightarrow> bytes list \<Rightarrow> settings option \<times> bytes list" where
  "chat_settings argv input =
     (let argc = length argv;
          username = if argc \<ge> 2 then Trim (argv ! 1) else [];
          room = if argc \<ge> 3 then Trim (argv ! 2) else [];
          host = if argc \<ge> 4 then Trim (argv ! 3) else DEFAULT_HOST;
          parsed = if argc \<ge> 5 then strtol (argv ! 4) else 0
      in if argc \<ge> 5 \<and> (parsed \<le> 0 \<or> parsed > 65535) then (None, input)
         else
           let port = if argc \<ge> 5 then word_of_int parsed else DEFAULT_PORT;
               (username, input) = if username = [] then Ask input else (username, input)
           in if username = [] then (None, input)
              else
                let (room, input) = if room = [] then Ask input else (room, input);
                    room = if room = [] then DEFAULT_ROOM else room
                in (Some \<lparr>s_username = username, s_room = room, s_host = host, s_port = port\<rparr>, input))"

section \<open>The client\<close>

text \<open>Where the main thread stands: before its two first packets, at the test of the command loop,
  waiting for a line, or in \<^verbatim>\<open>Stop\<close> (with \<^verbatim>\<open>wasRunning\<close>) waiting for the receive thread.\<close>

datatype main_phase = LoggingIn | Joining | Testing | Reading | Stopping bool | Done

text \<open>The object \<^verbatim>\<open>ChatClient\<close> together with the variables of the two threads: \<open>cc_receiving\<close> says that
  the receive thread is in its loop (with its local parser). \<open>cc_printed\<close> are the lines written to the
  console, which a mutex serialises.\<close>

record 'w chat_client =
  cc_running :: bool
  cc_receiving :: bool
  cc_main :: main_phase
  cc_parser :: frame_parser
  cc_sendBuffer :: bytes
  cc_username :: bytes
  cc_room :: bytes
  cc_printed :: "bytes list"
  cc_world :: 'w

definition chat_MAX_BODY_LENGTH :: size_t where "chat_MAX_BODY_LENGTH = 64 * 1024"

definition chat_MakeReaderLimits :: ReaderOptions where
  "chat_MakeReaderLimits = default_options
     \<lparr>maxCollectionLength := 1024, maxStringLength := 4096, maxDepth := 8\<rparr>"

definition Print :: "bytes \<Rightarrow> ('w chat_client, unit) op" where
  "Print line = modify (\<lambda>c. c\<lparr>cc_printed := cc_printed c @ [line]\<rparr>)"

definition chat_SendAll :: "'w host \<Rightarrow> bytes \<Rightarrow> ('w chat_client, bool) op" where
  "chat_SendAll H data = (\<lambda>c. case send_loop (h_send H) data 0 (cc_world c) of
     (ok, w) \<Rightarrow> (Ret ok, c\<lparr>cc_world := w\<rparr>))"

definition Send :: "build \<Rightarrow> 'w host \<Rightarrow> 'a MemoryPackFormatter \<Rightarrow> ChatPacketId \<Rightarrow> 'a \<Rightarrow> ('w chat_client, bool) op" where
  "Send B H T pid body = (\<lambda>c.
     case WritePacket B (DefaultPacketHeaderPolicy B) T [] (ChatPacketId_value pid) body of
       (Ret _, buf) \<Rightarrow> chat_SendAll H buf (c\<lparr>cc_sendBuffer := buf\<rparr>)
     | (Throw e, buf) \<Rightarrow> (Throw e, c\<lparr>cc_sendBuffer := buf\<rparr>)
     | (UB, buf) \<Rightarrow> (UB, c\<lparr>cc_sendBuffer := buf\<rparr>))"

section \<open>The receive thread\<close>

definition chat_DecodeBody :: "build \<Rightarrow> 'a MemoryPackFormatter \<Rightarrow> bytes \<Rightarrow> ('w chat_client, 'a option) op" where
  "chat_DecodeBody B T body = (\<lambda>c.
     case Read B T (value_init T) (make_reader_with body chat_MakeReaderLimits) of
       (Ret out, reader) \<Rightarrow>
         if Failed reader
         then seq (Print (str ''[error] decode failed: '' @ str (ToString (r_error reader)))) (return None) c
         else (Ret (Some out), c)
     | (Throw _, _) \<Rightarrow> seq (Print (str ''[error] malformed packet body'')) (return None) c
     | (UB, _) \<Rightarrow> (UB, c))"

text \<open>\<open>if (!DecodeBody(body, packet)) return;\<close> followed by the rest of the case.\<close>

definition when_decoded :: "build \<Rightarrow> 'a MemoryPackFormatter \<Rightarrow> bytes \<Rightarrow> ('a \<Rightarrow> ('w chat_client, unit) op) \<Rightarrow> ('w chat_client, unit) op" where
  "when_decoded B T body k = bind (chat_DecodeBody B T body) (\<lambda>packet.
     case packet of None \<Rightarrow> return () | Some p \<Rightarrow> k p)"

text \<open>The users separated by a comma and a space.\<close>

fun join_users :: "bytes list \<Rightarrow> bytes" where
  "join_users [] = []"
| "join_users [u] = u"
| "join_users (u # us) = u @ str '', '' @ join_users us"

definition chat_HandlePacket :: "build \<Rightarrow> u16 \<Rightarrow> bytes \<Rightarrow> ('w chat_client, unit) op" where
  "chat_HandlePacket B rawId body =
     (if rawId = ChatPacketId_value ChatLoginResponseId then
        when_decoded B ChatLoginResponse_formatter body (\<lambda>packet.
          seq (Print (if cls_success packet then str ''[system] logged in''
                      else str ''[system] login rejected: '' @ cls_message packet))
              (if \<not> cls_success packet then modify (\<lambda>c. c\<lparr>cc_running := False\<rparr>) else return ()))
      else if rawId = ChatPacketId_value RoomJoinResponseId then
        when_decoded B RoomJoinResponse_formatter body (\<lambda>packet.
          Print (str ''[system] joined the room. Already here: '' @
            (if rjs_existingUsers packet = [] then str ''(nobody)'' else join_users (rjs_existingUsers packet))))
      else if rawId = ChatPacketId_value RoomChatId then
        when_decoded B RoomChat_formatter body (\<lambda>packet.
          Print (str ''<'' @ rch_senderName packet @ str ''> '' @ rch_message packet))
      else if rawId = ChatPacketId_value PrivateChatId then
        when_decoded B PrivateChat_formatter body (\<lambda>packet.
          Print (str ''*'' @ pch_senderName packet @ str '' -> '' @ pch_targetName packet @ str ''* '' @ pch_message packet))
      else if rawId = ChatPacketId_value UserEnteredId then
        when_decoded B UserEntered_formatter body (\<lambda>packet.
          Print (str ''[system] '' @ uen_username packet @ str '' entered the room''))
      else if rawId = ChatPacketId_value UserLeftId then
        when_decoded B UserLeft_formatter body (\<lambda>packet.
          Print (str ''[system] '' @ ule_username packet @ str '' left the room''))
      else Print (str ''[warn] ignoring unexpected packet id '' @ str (to_string (unat rawId))))"

text \<open>The end of \<^verbatim>\<open>ReceiveLoop\<close>: \<open>if (running_.exchange(false)) Print(...)\<close>.\<close>

definition leave_receive :: "'w chat_client \<Rightarrow> 'w chat_client" where
  "leave_receive c =
     (if cc_running c then snd (Print (str ''[system] the connection was closed. Press Enter to exit.'') (c\<lparr>cc_running := False\<rparr>))
      else c)\<lparr>cc_receiving := False\<rparr>"

text \<open>One round of the receive loop.\<close>

definition receive_round :: "build \<Rightarrow> 'w host \<Rightarrow> 'w chat_client \<Rightarrow> (unit outcome \<times> 'w chat_client) option" where
  "receive_round B H c =
     (if \<not> cc_running c then Some (Ret (), leave_receive c)
      else case h_recv H 4096 (cc_world c) of (chunk, w) \<Rightarrow>
        if chunk = [] then Some (Ret (), leave_receive (c\<lparr>cc_world := w\<rparr>))
        else map_option (\<lambda>(out, c', p).
          case out of
            Ret ok \<Rightarrow> (Ret (), if ok then c'\<lparr>cc_parser := p\<rparr>
              else leave_receive (snd (Print (str ''[error] the server sent a frame that violates the protocol limits'') c')))
          | Throw e \<Rightarrow> (Throw e, c')
          | UB \<Rightarrow> (UB, c'))
          (Feed (DefaultPacketHeaderPolicy B) chunk (chat_HandlePacket B) (c\<lparr>cc_world := w\<rparr>) (cc_parser c)))"

section \<open>The main thread\<close>

definition usage_whisper :: "('w chat_client, bool) op" where
  "usage_whisper = seq (Print (str ''[system] usage: /w <user> <message>'')) (return True)"

text \<open>One line of input; the result says whether the command loop goes on.\<close>

definition handle_line :: "build \<Rightarrow> 'w host \<Rightarrow> bytes \<Rightarrow> ('w chat_client, bool) op" where
  "handle_line B H input = (\<lambda>c. let line = Trim input in
     if line = [] then (Ret True, c)
     else if line = str ''/quit'' then (Ret False, c)
     else if line = str ''/join'' \<or> StartsWith line (str ''/join '') then
       (let target = Trim (drop 5 line)
        in if target = [] then seq (Print (str ''[system] usage: /join <room>'')) (return True) c
           else seq (Send B H RoomJoinRequest_formatter RoomJoinRequestId \<lparr>rjq_roomName = target\<rparr>)
                    (return True) (c\<lparr>cc_room := target\<rparr>))
     else if StartsWith line (str ''/w '') then
       (let rest = Trim (drop 3 line)
        in case find_space rest of
             None \<Rightarrow> usage_whisper c
           | Some space \<Rightarrow>
               (let whisper = \<lparr>pch_senderName = cc_username c, pch_targetName = take space rest,
                      pch_message = Trim (drop (space + 1) rest)\<rparr>
                in if pch_message whisper = [] then usage_whisper c
                   else seq (Send B H PrivateChat_formatter PrivateChatId whisper) (return True) c))
     else seq (Send B H RoomChat_formatter RoomChatId \<lparr>rch_senderName = cc_username c, rch_message = line\<rparr>)
              (return True) c)"

text \<open>What the operating system makes of \<^verbatim>\<open>socket\<close>, \<^verbatim>\<open>inet_pton\<close> and \<^verbatim>\<open>connect\<close>.\<close>

datatype connecting = NoSocket | BadAddress | Refused | Connected

definition Connect :: "connecting \<Rightarrow> bytes \<Rightarrow> u16 \<Rightarrow> ('w chat_client, bool) op" where
  "Connect result host port =
     (case result of
        NoSocket \<Rightarrow> seq (Print (str ''[error] failed to create a socket'')) (return False)
      | BadAddress \<Rightarrow> seq (Print (str [CHR ''['', CHR ''e'', CHR ''r'', CHR ''r'', CHR ''o'', CHR ''r'', CHR '']'', CHR '' '', CHR 0x27]
            @ host @ str (CHR 0x27 # '' is not a valid IPv4 address''))) (return False)
      | Refused \<Rightarrow> seq (Print (str ''[error] could not connect to '' @ host @ str '':'' @ str (to_string (unat port))))
            (return False)
      | Connected \<Rightarrow> seq (modify (\<lambda>c. c\<lparr>cc_running := True, cc_receiving := True, cc_parser := make_parser chat_MAX_BODY_LENGTH\<rparr>))
            (return True))"

text \<open>The object before \<^verbatim>\<open>Connect\<close>, and \<^verbatim>\<open>main\<close> up to its two first packets; \<open>None\<close> when it returns 1.\<close>

definition make_chat_client :: "settings \<Rightarrow> 'w \<Rightarrow> 'w chat_client" where
  "make_chat_client S w = \<lparr>cc_running = False, cc_receiving = False, cc_main = LoggingIn,
     cc_parser = make_parser chat_MAX_BODY_LENGTH, cc_sendBuffer = [], cc_username = s_username S,
     cc_room = s_room S, cc_printed = [], cc_world = w\<rparr>"

definition chat_start :: "connecting \<Rightarrow> bytes list \<Rightarrow> bytes list \<Rightarrow> 'w \<Rightarrow> 'w chat_client option" where
  "chat_start result argv input w =
     (case chat_settings argv input of
        (None, _) \<Rightarrow> None
      | (Some S, _) \<Rightarrow>
          (case Connect result (s_host S) (s_port S) (make_chat_client S w) of
             (Ret True, c) \<Rightarrow> Some (snd (Print (str ''[system] connected to '' @ s_host S @ str '':'' @
                str (to_string (unat (s_port S)))) c))
           | _ \<Rightarrow> None))"

definition send_login :: "build \<Rightarrow> 'w host \<Rightarrow> ('w chat_client, bool) op" where
  "send_login B H = (\<lambda>c. Send B H ChatLoginRequest_formatter ChatLoginRequestId \<lparr>clq_username = cc_username c\<rparr> c)"

definition send_join :: "build \<Rightarrow> 'w host \<Rightarrow> ('w chat_client, bool) op" where
  "send_join B H = (\<lambda>c. seq (Send B H RoomJoinRequest_formatter RoomJoinRequestId \<lparr>rjq_roomName = cc_room c\<rparr>)
     (seq (Print (str ''[system] commands: /w <user> <message> | /join <room> | /quit'')) (return True)) c)"

text \<open>The two halves of \<^verbatim>\<open>Stop\<close>: before and after \<^verbatim>\<open>receiveThread_.join()\<close>. A second call finds
  \<^verbatim>\<open>running_\<close> cleared and nothing to join.\<close>

definition Stop_begin :: "'w chat_client \<Rightarrow> 'w chat_client" where
  "Stop_begin c = c\<lparr>cc_running := False, cc_main := Stopping (cc_running c)\<rparr>"

definition Stop_end :: "bool \<Rightarrow> 'w chat_client \<Rightarrow> 'w chat_client" where
  "Stop_end wasRunning c =
     (if wasRunning then snd (Print (str ''[system] disconnected'') c) else c)\<lparr>cc_main := Done\<rparr>"

section \<open>The two threads\<close>

text \<open>The threads share \<^verbatim>\<open>running_\<close> and the console. A step is one round of the receive loop, or the
  main thread's way from one phase to the next.\<close>

inductive chat_step :: "build \<Rightarrow> 'w host \<Rightarrow> 'w chat_client \<Rightarrow> 'w chat_client \<Rightarrow> bool" for B H where
  receive: "cc_receiving c \<Longrightarrow> receive_round B H c = Some (Ret (), c') \<Longrightarrow> chat_step B H c c'"
| login: "cc_main c = LoggingIn \<Longrightarrow> send_login B H c = (Ret ok, c') \<Longrightarrow> chat_step B H c (c'\<lparr>cc_main := Joining\<rparr>)"
| join: "cc_main c = Joining \<Longrightarrow> send_join B H c = (Ret ok, c') \<Longrightarrow> chat_step B H c (c'\<lparr>cc_main := Testing\<rparr>)"
| test: "cc_main c = Testing \<Longrightarrow>
    chat_step B H c (if cc_running c then c\<lparr>cc_main := Reading\<rparr> else Stop_begin c)"
| line: "cc_main c = Reading \<Longrightarrow> length input < 2 ^ 30 \<Longrightarrow> handle_line B H input c = (Ret goes_on, c') \<Longrightarrow>
    chat_step B H c (if goes_on then c'\<lparr>cc_main := Testing\<rparr> else Stop_begin c')"
| eof: "cc_main c = Reading \<Longrightarrow> chat_step B H c (Stop_begin c)"
| stop: "cc_main c = Stopping wasRunning \<Longrightarrow> \<not> cc_receiving c \<Longrightarrow> chat_step B H c (Stop_end wasRunning c)"

inductive_cases chat_stepE: "chat_step B H c c'"

section \<open>Trimming\<close>

definition blank :: "byte \<Rightarrow> bool" where "blank c \<longleftrightarrow> c = 32 \<or> c = 9"
definition blank_end :: "byte \<Rightarrow> bool" where "blank_end c \<longleftrightarrow> c = 32 \<or> c = 9 \<or> c = 13"

lemma trim_begin_drop:
  "b \<le> length t \<Longrightarrow> b \<le> trim_begin t b (length t) \<and> trim_begin t b (length t) \<le> length t \<and>
     drop (trim_begin t b (length t)) t = dropWhile blank (drop b t)"
proof (induction t b "length t" rule: trim_begin.induct)
  case (1 t b)
  show ?case
  proof (cases "b < length t \<and> blank (t ! b)")
    case True
    then have "drop b t = t ! b # drop (Suc b) t" by (simp add: Cons_nth_drop_Suc)
    with True 1 show ?thesis by (subst (1 2 3) trim_begin.simps) (simp add: blank_def)
  next
    case False
    then have "dropWhile blank (drop b t) = drop b t"
      by (cases "b < length t") (simp_all flip: Cons_nth_drop_Suc)
    with False 1(2) show ?thesis by (subst (1 2 3) trim_begin.simps) (auto simp: blank_def)
  qed
qed

text \<open>\<open>strip_end\<close> removes the trailing blanks of a byte string.\<close>

definition strip_end :: "bytes \<Rightarrow> bytes" where
  "strip_end s = rev (dropWhile blank_end (rev s))"

lemma strip_end_simps [simp]: "strip_end [] = []"
  "strip_end (s @ [c]) = (if blank_end c then strip_end s else s @ [c])"
  by (simp_all add: strip_end_def)

lemma trim_end_take:
  "b \<le> e \<Longrightarrow> e \<le> length t \<Longrightarrow> b \<le> trim_end t b e \<and> trim_end t b e \<le> e \<and>
     take (trim_end t b e - b) (drop b t) = strip_end (take (e - b) (drop b t))"
proof (induction t b e rule: trim_end.induct)
  case (1 t b e)
  show ?case
  proof (cases "b < e")
    case True
    then obtain n where n: "e = Suc n" "b \<le> n" by (cases e) auto
    then have s: "take (e - b) (drop b t) = take (n - b) (drop b t) @ [t ! n]"
      using 1(3) by (simp add: Suc_diff_le take_Suc_conv_app_nth)
    show ?thesis
    proof (cases "blank_end (t ! n)")
      case True
      with 1(1) n 1(3) \<open>b < e\<close> s show ?thesis
        by (subst (1 2 3) trim_end.simps) (simp add: blank_end_def)
    next
      case False
      with n s show ?thesis by (subst (1 2 3) trim_end.simps) (auto simp: blank_end_def)
    qed
  next
    case False
    with 1(2) show ?thesis by (subst (1 2 3) trim_end.simps) simp
  qed
qed

lemma Trim_spec: "Trim t = strip_end (dropWhile blank t)"
proof -
  let ?b = "trim_begin t 0 (length t)"
  have b: "?b \<le> length t" "drop ?b t = dropWhile blank t" using trim_begin_drop [of 0 t] by simp_all
  moreover have "length (dropWhile blank t) = length t - ?b" using arg_cong [OF b(2), of length] by simp
  ultimately show ?thesis using trim_end_take [of ?b "length t" t] by (simp add: Trim_def Let_def)
qed


lemma length_Trim: "length (Trim t) \<le> length t"
proof -
  have "length (strip_end s) \<le> length s" for s by (simp add: strip_end_def length_dropWhile_le [of _ "rev s", simplified])
  then show ?thesis using length_dropWhile_le [of blank t] order_trans by (fastforce simp: Trim_spec)
qed

lemma Trim_id: "t \<noteq> [] \<Longrightarrow> \<not> blank (hd t) \<Longrightarrow> \<not> blank_end (last t) \<Longrightarrow> Trim t = t"
proof -
  assume t: "t \<noteq> []" "\<not> blank (hd t)" "\<not> blank_end (last t)"
  have "dropWhile blank t = t" using t(2) by (cases t) simp_all
  then show ?thesis using t by (cases t rule: rev_cases) (simp_all add: Trim_spec)
qed

section \<open>The end of a session is reported once\<close>

text \<open>The two lines that report the end of a session.\<close>

definition report :: "bytes \<Rightarrow> bool" where
  "report line \<longleftrightarrow> line = str ''[system] disconnected'' \<or>
     line = str ''[system] the connection was closed. Press Enter to exit.''"

definition reports :: "'w chat_client \<Rightarrow> nat" where
  "reports c = length (filter report (cc_printed c))"

lemma report_last: "report line \<Longrightarrow> last line = 100 \<or> last line = 46"
  unfolding report_def by (elim disjE) (simp_all add: bytes_of_string_def)

text \<open>What a user or the server puts into a line cannot make it look like such a report.\<close>

lemma no_report [simp]:
  "\<not> report (str ''[error] decode failed: '' @ x)" "\<not> report (str ''[error] malformed packet body'')"
  "\<not> report (str ''[error] the server sent a frame that violates the protocol limits'')"
  "\<not> report (str ''[system] logged in'')" "\<not> report (str ''[system] login rejected: '' @ x)"
  "\<not> report (str ''[system] joined the room. Already here: '' @ x)"
  "\<not> report (str ''<'' @ x)" "\<not> report (str ''*'' @ x)"
  "\<not> report (str ''[system] usage: /w <user> <message>'')" "\<not> report (str ''[system] usage: /join <room>'')"
  "\<not> report (str ''[system] commands: /w <user> <message> | /join <room> | /quit'')"
  "\<not> report (str ''[warn] ignoring unexpected packet id '' @ x)" "\<not> report (str ''[system] connected to '' @ x)"
  by (simp_all add: report_def bytes_of_string_def)

lemma no_report_room [simp]:
  "\<not> report (str ''[system] '' @ x @ str '' entered the room'')" "\<not> report (str ''[system] '' @ x @ str '' left the room'')"
  by (rule notI, drule report_last, simp add: bytes_of_string_def)+

lemma reports_Print: "reports (snd (Print line c)) = reports c + (if report line then 1 else 0)"
  by (simp add: reports_def Print_def)

section \<open>The handlers\<close>

text \<open>What the handlers keep: they print, and may clear the flag.\<close>

definition quiet :: "'w chat_client \<Rightarrow> 'w chat_client \<Rightarrow> bool" where
  "quiet c c' \<longleftrightarrow> cc_receiving c' = cc_receiving c \<and> cc_main c' = cc_main c \<and> cc_parser c' = cc_parser c \<and>
     cc_username c' = cc_username c \<and> cc_room c' = cc_room c \<and> cc_world c' = cc_world c \<and>
     cc_sendBuffer c' = cc_sendBuffer c \<and> reports c' = reports c \<and> (cc_running c' \<longrightarrow> cc_running c)"

lemma quiet_refl [simp]: "quiet c c"
  by (simp add: quiet_def)

lemma quiet_trans: "quiet a b \<Longrightarrow> quiet b c \<Longrightarrow> quiet a c"
  by (simp add: quiet_def)

definition prints :: "'w chat_client \<Rightarrow> 'a outcome \<times> 'w chat_client \<Rightarrow> bool" where
  "prints c res \<longleftrightarrow> (\<exists>x c'. res = (Ret x, c') \<and> quiet c c')"

lemma prints_Print [simp]: "\<not> report line \<Longrightarrow> prints c (Print line c)"
  by (simp add: prints_def Print_def quiet_def reports_def)

lemma prints_return [simp]: "prints c (Ret x, c)"
  by (simp add: prints_def)

lemma prints_bind: "prints c (m c) \<Longrightarrow> (\<And>x c. prints c (f x c)) \<Longrightarrow> prints c (bind m f c)"
proof -
  assume m: "prints c (m c)" and f: "\<And>x c. prints c (f x c)"
  from m obtain x c1 where x: "m c = (Ret x, c1)" "quiet c c1" by (auto simp: prints_def)
  with f [of c1 x] show ?thesis by (auto simp: prints_def intro: quiet_trans)
qed

lemma prints_seq: "prints c (m c) \<Longrightarrow> (\<And>c. prints c (k c)) \<Longrightarrow> prints c (seq m k c)"
  unfolding seq_def by (rule prints_bind)

lemma prints_DecodeBody:
  assumes "reader_action (\<lambda>B. Read B T (value_init T))" "length body < 2 ^ 63"
  shows "prints c (chat_DecodeBody B T body c)"
proof -
  have "fst (Read B T (value_init T) (make_reader_with body chat_MakeReaderLimits)) \<noteq> UB"
    using reader_action.no_UB [OF assms(1)] assms(2) by simp
  then show ?thesis
    by (cases "Read B T (value_init T) (make_reader_with body chat_MakeReaderLimits)" rule: outcome_state_cases)
      (auto simp: chat_DecodeBody_def intro: prints_seq)
qed

lemma prints_when_decoded:
  assumes "reader_action (\<lambda>B. Read B T (value_init T))" "length body < 2 ^ 63" "\<And>p c. prints c (k p c)"
  shows "prints c (when_decoded B T body k c)"
  unfolding when_decoded_def by (rule prints_bind [OF prints_DecodeBody [OF assms(1,2)]]) (simp add: assms(3) split: option.split)

lemma prints_HandlePacket:
  assumes "length body < 2 ^ 63"
  shows "prints c (chat_HandlePacket B pid body c)"
proof -
  have login: "\<not> report a \<Longrightarrow> prints c (seq (Print a) (if q then modify (\<lambda>c. c\<lparr>cc_running := False\<rparr>) else return ()) c)"
    for a q and c :: "'a chat_client"
    by (auto intro!: prints_seq) (simp add: prints_def quiet_def reports_def)
  show ?thesis unfolding chat_HandlePacket_def
    by (auto intro!: prints_when_decoded login chat_safe assms split: if_splits)
qed

text \<open>Delivered bodies are within the limit, so that the handlers never fail.\<close>

lemma deliver_prints:
  "\<forall>m \<in> set ms. length (snd m) < 2 ^ 63 \<Longrightarrow> prints c (deliver (chat_HandlePacket B) ms c)"
proof (induction ms arbitrary: c)
  case (Cons m ms)
  then show ?case by (auto simp: case_prod_beta intro!: prints_seq prints_HandlePacket)
qed simp

section \<open>The invariant\<close>

text \<open>The reports printed, the one that is still to come, and the right to make one, which \<^verbatim>\<open>running_\<close>
  stands for, are one at most together.\<close>

definition chat_inv :: "'w chat_client \<Rightarrow> bool" where
  "chat_inv c \<longleftrightarrow> parser_inv (cc_parser c) \<and> fp_maxBodyLength (cc_parser c) = chat_MAX_BODY_LENGTH \<and>
     length (fp_buffer (cc_parser c)) \<le> 6 + chat_MAX_BODY_LENGTH + 4096 \<and>
     length (cc_username c) < 2 ^ 30 \<and> length (cc_room c) < 2 ^ 30 \<and>
     reports c + (if cc_running c then 1 else 0) + (if cc_main c = Stopping True then 1 else 0) \<le> 1 \<and>
     (\<forall>b. cc_main c = Stopping b \<longrightarrow> \<not> cc_running c) \<and> (cc_main c = Done \<longrightarrow> \<not> cc_running c \<and> \<not> cc_receiving c)"

definition recv_bounded :: "'w host \<Rightarrow> bool" where
  "recv_bounded H \<longleftrightarrow> (\<forall>n w. length (fst (h_recv H n w)) \<le> n)"

lemma leave_receive_simps [simp]:
  "cc_parser (leave_receive c) = cc_parser c" "cc_username (leave_receive c) = cc_username c"
  "cc_running (leave_receive c) = False" "cc_main (leave_receive c) = cc_main c" "cc_room (leave_receive c) = cc_room c"
  "cc_receiving (leave_receive c) = False"
  "reports (leave_receive c) = reports c + (if cc_running c then 1 else 0)"
  by (simp_all add: leave_receive_def Print_def reports_def report_def)

lemma chat_inv_leave: "chat_inv c \<Longrightarrow> chat_inv (leave_receive c)"
  by (auto simp: chat_inv_def)

lemma chat_inv_quiet:
  "chat_inv c \<Longrightarrow> quiet c c' \<Longrightarrow> chat_inv c'"
  by (auto simp: chat_inv_def quiet_def split: if_splits)

lemma chat_inv_world [simp]: "chat_inv (c\<lparr>cc_world := w\<rparr>) = chat_inv c"
  by (simp add: chat_inv_def reports_def)

lemma chat_inv_sendBuffer [simp]: "chat_inv (c\<lparr>cc_sendBuffer := w\<rparr>) = chat_inv c"
  by (simp add: chat_inv_def reports_def)

lemma chat_inv_parser:
  "chat_inv c \<Longrightarrow> parser_inv p \<Longrightarrow> fp_maxBodyLength p = chat_MAX_BODY_LENGTH \<Longrightarrow>
   length (fp_buffer p) \<le> 6 + chat_MAX_BODY_LENGTH + 4096 \<Longrightarrow> chat_inv (c\<lparr>cc_parser := p\<rparr>)"
  by (simp add: chat_inv_def reports_def)

lemma receive_round_returns:
  assumes "chat_inv c" "recv_bounded H"
  shows "\<exists>c'. receive_round B H c = Some (Ret (), c') \<and> chat_inv c' \<and> (cc_running c' \<longrightarrow> cc_running c)"
proof (cases "cc_running c")
  case False
  with assms(1) show ?thesis by (simp add: receive_round_def chat_inv_leave)
next
  case True
  obtain chunk w where w: "h_recv H 4096 (cc_world c) = (chunk, w)" by force
  show ?thesis
  proof (cases "chunk = []")
    case True
    with w assms(1) \<open>cc_running c\<close> show ?thesis by (simp add: receive_round_def chat_inv_leave)
  next
    case False
    let ?P = "DefaultPacketHeaderPolicy B" and ?c = "c\<lparr>cc_world := w\<rparr>" and ?p = "cc_parser c"
    have n: "length chunk \<le> 4096" using assms(2) w unfolding recv_bounded_def by (metis fst_conv)
    obtain ps r where f: "frames ?P (fp_maxBodyLength ?p) (pending ?p @ chunk) = (ps, r)" by fastforce
    have len: "length (fp_buffer ?p) + length chunk < 2 ^ 63"
      using assms(1) n by (simp add: chat_inv_def chat_MAX_BODY_LENGTH_def)
    have "\<forall>m \<in> set ps. length (snd m) < 2 ^ 63"
      using frames_bodies [OF f] assms(1) by (auto simp: chat_inv_def chat_MAX_BODY_LENGTH_def)
    from deliver_prints [OF this, of ?c B] obtain c1 where c1: "deliver (chat_HandlePacket B) ps ?c = (Ret (), c1)" "quiet ?c c1"
      by (auto simp: prints_def)
    from default_policy.Feed_frames [OF _ len f c1(1)] assms(1) obtain p1
      where p1: "Feed ?P chunk (chat_HandlePacket B) ?c ?p = Some (Ret (r \<noteq> None), c1, p1)" "parser_inv p1"
        "fp_maxBodyLength p1 = fp_maxBodyLength ?p" by (auto simp: chat_inv_def)
    have b: "length (fp_buffer p1) \<le> HeaderSize ?P + fp_maxBodyLength ?p + 4096"
      using default_policy.Feed_bounded [OF _ len f c1(1) p1(1)] assms(1) by (simp add: chat_inv_def)
    have i: "chat_inv c1" "chat_inv (c1\<lparr>cc_parser := p1\<rparr>)"
      using chat_inv_quiet [OF _ c1(2)] assms(1) p1 b
      by (auto intro!: chat_inv_parser simp: chat_inv_def [of c] DefaultPacketHeaderPolicy_def)
    have "quiet c1 (snd (Print (str ''[error] the server sent a frame that violates the protocol limits'') c1))"
      by (simp add: quiet_def Print_def reports_def)
    from chat_inv_leave [OF chat_inv_quiet [OF i(1) this]] i(2) p1(1) True w False show ?thesis
      by (auto simp: receive_round_def)
  qed
qed

section \<open>Commands\<close>

text \<open>A packet is handed to the socket as one frame.\<close>

definition sent_packet :: "build \<Rightarrow> 'w host \<Rightarrow> ChatPacket \<Rightarrow> 'w chat_client \<Rightarrow> 'w chat_client" where
  "sent_packet B H p c =
     (let frame = packet_bytes (DefaultPacketHeaderPolicy B) (ChatPacketId_value (chat_id p), chat_enc p)
      in c\<lparr>cc_sendBuffer := frame, cc_world := snd (send_loop (h_send H) frame 0 (cc_world c))\<rparr>)"

lemma sent_packet_simps [simp]:
  "cc_running (sent_packet B H p c) = cc_running c" "cc_main (sent_packet B H p c) = cc_main c"
  "cc_printed (sent_packet B H p c) = cc_printed c" "cc_room (sent_packet B H p c) = cc_room c"
  "chat_inv (sent_packet B H p c) = chat_inv c"
  by (simp_all add: sent_packet_def Let_def)

lemma Send_frame:
  assumes "WritePacket B (DefaultPacketHeaderPolicy B) T [] (ChatPacketId_value pid) v =
      (Ret (), [] @ packet_bytes (DefaultPacketHeaderPolicy B) (ChatPacketId_value pid, enc))"
    and p: "pid = chat_id p" "enc = chat_enc p"
  shows "\<exists>ok. Send B H T pid v c = (Ret ok, sent_packet B H p c)"
  using assms(1) by (simp add: Send_def chat_SendAll_def sent_packet_def Let_def p split: prod.split)

lemma Send_ChatLoginRequest:
  assumes "length (clq_username v) < 2 ^ 30"
  shows "\<exists>ok. Send B H ChatLoginRequest_formatter ChatLoginRequestId v c = (Ret ok, sent_packet B H (ChatLoginRequestPacket v) c)"
proof (rule Send_frame [OF ChatLoginRequest_packet.WritePacket_ok])
  show "members_ok ChatLoginRequest_layout v" using assms by (simp add: chat_layouts string_ok_def)
  show "length [] + HeaderSize (DefaultPacketHeaderPolicy B) + length (struct_enc ChatLoginRequest_layout v) < 2 ^ 64"
    using assms length_enc_string_le [of "clq_username v"]
    by (simp add: chat_layouts struct_enc_def DefaultPacketHeaderPolicy_def)
qed simp_all

lemma Send_RoomJoinRequest:
  assumes "length (rjq_roomName v) < 2 ^ 30"
  shows "\<exists>ok. Send B H RoomJoinRequest_formatter RoomJoinRequestId v c = (Ret ok, sent_packet B H (RoomJoinRequestPacket v) c)"
proof (rule Send_frame [OF RoomJoinRequest_packet.WritePacket_ok])
  show "members_ok RoomJoinRequest_layout v" using assms by (simp add: chat_layouts string_ok_def)
  show "length [] + HeaderSize (DefaultPacketHeaderPolicy B) + length (struct_enc RoomJoinRequest_layout v) < 2 ^ 64"
    using assms length_enc_string_le [of "rjq_roomName v"]
    by (simp add: chat_layouts struct_enc_def DefaultPacketHeaderPolicy_def)
qed simp_all

lemma Send_RoomChat:
  assumes "length (rch_senderName v) < 2 ^ 30" "length (rch_message v) < 2 ^ 30"
  shows "\<exists>ok. Send B H RoomChat_formatter RoomChatId v c = (Ret ok, sent_packet B H (RoomChatPacket v) c)"
proof (rule Send_frame [OF RoomChat_packet.WritePacket_ok])
  show "members_ok RoomChat_layout v" using assms by (simp add: chat_layouts string_ok_def)
  show "length [] + HeaderSize (DefaultPacketHeaderPolicy B) + length (struct_enc RoomChat_layout v) < 2 ^ 64"
    using assms length_enc_string_le [of "rch_senderName v"] length_enc_string_le [of "rch_message v"]
    by (simp add: chat_layouts struct_enc_def DefaultPacketHeaderPolicy_def)
qed simp_all

lemma Send_PrivateChat:
  assumes "length (pch_senderName v) < 2 ^ 30" "length (pch_targetName v) < 2 ^ 30" "length (pch_message v) < 2 ^ 30"
  shows "\<exists>ok. Send B H PrivateChat_formatter PrivateChatId v c = (Ret ok, sent_packet B H (PrivateChatPacket v) c)"
proof (rule Send_frame [OF PrivateChat_packet.WritePacket_ok])
  show "members_ok PrivateChat_layout v" using assms by (simp add: chat_layouts string_ok_def)
  show "length [] + HeaderSize (DefaultPacketHeaderPolicy B) + length (struct_enc PrivateChat_layout v) < 2 ^ 64"
    using assms length_enc_string_le [of "pch_senderName v"] length_enc_string_le [of "pch_targetName v"]
      length_enc_string_le [of "pch_message v"]
    by (simp add: chat_layouts struct_enc_def DefaultPacketHeaderPolicy_def)
qed simp_all

text \<open>The command language: what a trimmed line asks for.\<close>

datatype command = Nothing | Quit | Usage_join | Usage_whisper | Join bytes | Whisper bytes bytes | Say bytes

definition command :: "bytes \<Rightarrow> command" where
  "command line =
     (if line = [] then Nothing
      else if line = str ''/quit'' then Quit
      else if line = str ''/join'' \<or> StartsWith line (str ''/join '') then
        (let target = Trim (drop 5 line) in if target = [] then Usage_join else Join target)
      else if StartsWith line (str ''/w '') then
        (let rest = Trim (drop 3 line); to = takeWhile (\<lambda>c. c \<noteq> 32) rest; message = Trim (drop (length to + 1) rest)
         in if 32 \<notin> set rest \<or> message = [] then Usage_whisper else Whisper to message)
      else Say line)"

lemma find_space_spec:
  "find_space s = (if 32 \<in> set s then Some (length (takeWhile (\<lambda>c. c \<noteq> 32) s)) else None)"
  by (induction s) auto

lemma take_takeWhile: "take (length (takeWhile Q s)) s = takeWhile Q s"
  by (metis append_eq_conv_conj takeWhile_dropWhile_id)

definition run_command :: "build \<Rightarrow> 'w host \<Rightarrow> command \<Rightarrow> 'w chat_client \<Rightarrow> 'w chat_client" where
  "run_command B H cmd c =
     (case cmd of
        Nothing \<Rightarrow> c
      | Quit \<Rightarrow> c
      | Usage_join \<Rightarrow> snd (Print (str ''[system] usage: /join <room>'') c)
      | Usage_whisper \<Rightarrow> snd (Print (str ''[system] usage: /w <user> <message>'') c)
      | Join target \<Rightarrow> sent_packet B H (RoomJoinRequestPacket \<lparr>rjq_roomName = target\<rparr>) (c\<lparr>cc_room := target\<rparr>)
      | Whisper to message \<Rightarrow> sent_packet B H (PrivateChatPacket
          \<lparr>pch_senderName = cc_username c, pch_targetName = to, pch_message = message\<rparr>) c
      | Say message \<Rightarrow> sent_packet B H (RoomChatPacket \<lparr>rch_senderName = cc_username c, rch_message = message\<rparr>) c)"

lemma seq_Send: "\<exists>ok. m c = (Ret ok, c') \<Longrightarrow> seq m (return True) c = (Ret True, c')"
  by auto

lemma seq_Print: "seq (Print line) (return True) c = (Ret True, snd (Print line c))"
  by (simp add: Print_def seq_def)

lemma length_drop_Trim: "length s < n \<Longrightarrow> length (Trim (drop k s)) < n"
  using length_Trim [of "drop k s"] by simp

text \<open>\<open>handle_line\<close> implements the command language.\<close>

lemma handle_line_command:
  assumes "length input < 2 ^ 30" "length (cc_username c) < 2 ^ 30"
  shows "handle_line B H input c = (Ret (command (Trim input) \<noteq> Quit), run_command B H (command (Trim input)) c)"
proof -
  let ?line = "Trim input"
  have l: "length ?line < 2 ^ 30" using assms(1) length_Trim [of input] by simp
  have r: "length (Trim (drop 3 ?line)) < 2 ^ 30" by (rule length_drop_Trim [OF l])
  have t: "length (takeWhile (\<lambda>c. c \<noteq> 32) s) < 2 ^ 30" if "length s < 2 ^ 30" for s :: bytes
    using length_takeWhile_le [of _ s] that by (rule le_less_trans)
  have join: "seq (Send B H RoomJoinRequest_formatter RoomJoinRequestId \<lparr>rjq_roomName = Trim (drop 5 ?line)\<rparr>) (return True) c' =
      (Ret True, sent_packet B H (RoomJoinRequestPacket \<lparr>rjq_roomName = Trim (drop 5 ?line)\<rparr>) c')" for c'
    using length_drop_Trim [OF l, of 5] by (intro seq_Send [OF Send_RoomJoinRequest]) simp
  have say: "seq (Send B H RoomChat_formatter RoomChatId \<lparr>rch_senderName = cc_username c, rch_message = ?line\<rparr>) (return True) c =
      (Ret True, sent_packet B H (RoomChatPacket \<lparr>rch_senderName = cc_username c, rch_message = ?line\<rparr>) c)"
    using l assms(2) by (intro seq_Send [OF Send_RoomChat]) simp_all
  have whisper: "seq (Send B H PrivateChat_formatter PrivateChatId w) (return True) c = (Ret True, sent_packet B H (PrivateChatPacket w) c)"
    if "w = \<lparr>pch_senderName = cc_username c, pch_targetName = takeWhile (\<lambda>c. c \<noteq> 32) (Trim (drop 3 ?line)),
      pch_message = Trim (drop (k + 1) (Trim (drop 3 ?line)))\<rparr>" for w k
    unfolding that using assms(2) t [OF r] length_drop_Trim [OF r, of "k + 1"]
    by (intro seq_Send [OF Send_PrivateChat]) simp_all
  let ?run = "\<lambda>cmd. (Ret (cmd \<noteq> Quit), run_command B H cmd c)"
  have "handle_line B H input c = ?run (command ?line)"
    unfolding handle_line_def command_def Let_def if_distrib [of ?run] find_space_spec
    by (intro if_cong refl)
      (simp_all add: run_command_def join say whisper usage_whisper_def seq_Print take_takeWhile)
  then show ?thesis .
qed

section \<open>Sessions\<close>

lemma command_Join: "command (Trim input) = Join target \<Longrightarrow> length input < 2 ^ 30 \<Longrightarrow> length target < 2 ^ 30"
  using length_Trim [of input] length_drop_Trim [of "Trim input" "2 ^ 30" 5]
  by (auto simp: command_def Let_def split: if_splits)

lemma chat_inv_quiet_Print: "chat_inv c \<Longrightarrow> \<not> report line \<Longrightarrow> chat_inv (snd (Print line c))"
  using chat_inv_quiet [of c "snd (Print line c)"] by (auto simp: quiet_def Print_def reports_def)

lemma chat_inv_main:
  "chat_inv c \<Longrightarrow> cc_main c \<noteq> Done \<Longrightarrow> \<forall>b. cc_main c \<noteq> Stopping b \<Longrightarrow>
   ph \<noteq> Done \<Longrightarrow> \<forall>b. ph \<noteq> Stopping b \<Longrightarrow> chat_inv (c\<lparr>cc_main := ph\<rparr>)"
  by (auto simp: chat_inv_def reports_def split: if_splits)

lemma chat_inv_Stop_begin: "chat_inv c \<Longrightarrow> \<forall>b. cc_main c \<noteq> Stopping b \<Longrightarrow> chat_inv (Stop_begin c)"
  by (auto simp: chat_inv_def reports_def Stop_begin_def split: if_splits)

lemma chat_inv_Stop_end: "chat_inv c \<Longrightarrow> cc_main c = Stopping b \<Longrightarrow> \<not> cc_receiving c \<Longrightarrow> chat_inv (Stop_end b c)"
  by (auto simp: chat_inv_def reports_def Stop_end_def Print_def split: if_splits)

lemma run_command_keeps:
  assumes "chat_inv c" "length input < 2 ^ 30"
  shows "chat_inv (run_command B H (command (Trim input)) c)"
    "cc_main (run_command B H (command (Trim input)) c) = cc_main c"
    "cc_running (run_command B H (command (Trim input)) c) = cc_running c"
proof -
  have "chat_inv (c\<lparr>cc_room := t\<rparr>)" if "length t < 2 ^ 30" for t
    using assms(1) that by (simp add: chat_inv_def reports_def)
  then show "chat_inv (run_command B H (command (Trim input)) c)"
    using assms command_Join [OF _ assms(2)]
    by (cases "command (Trim input)") (auto simp: run_command_def intro: chat_inv_quiet_Print)
qed (simp_all add: run_command_def Print_def split: command.split)

lemma handle_line_returns:
  assumes "chat_inv c" "length input < 2 ^ 30"
  shows "handle_line B H input c = (Ret (command (Trim input) \<noteq> Quit), run_command B H (command (Trim input)) c)"
  using assms by (intro handle_line_command) (simp_all add: chat_inv_def)

lemma send_login_returns:
  assumes "chat_inv c"
  shows "\<exists>ok. send_login B H c = (Ret ok, sent_packet B H (ChatLoginRequestPacket \<lparr>clq_username = cc_username c\<rparr>) c)"
  using assms by (auto simp: send_login_def chat_inv_def intro!: Send_ChatLoginRequest)

lemma send_join_returns:
  assumes "chat_inv c"
  shows "send_join B H c = (Ret True, snd (Print (str ''[system] commands: /w <user> <message> | /join <room> | /quit'')
    (sent_packet B H (RoomJoinRequestPacket \<lparr>rjq_roomName = cc_room c\<rparr>) c)))"
proof -
  obtain ok where "Send B H RoomJoinRequest_formatter RoomJoinRequestId \<lparr>rjq_roomName = cc_room c\<rparr> c =
      (Ret ok, sent_packet B H (RoomJoinRequestPacket \<lparr>rjq_roomName = cc_room c\<rparr>) c)"
    using assms Send_RoomJoinRequest [of "\<lparr>rjq_roomName = cc_room c\<rparr>" B H c] by (auto simp: chat_inv_def)
  then show ?thesis by (simp add: send_join_def seq_def Print_def)
qed

lemma chat_step_keeps:
  assumes "chat_step B H c c'" "chat_inv c" "recv_bounded H"
  shows "chat_inv c' \<and> (cc_running c' \<longrightarrow> cc_running c)"
  using assms(1)
proof cases
  case receive
  with receive_round_returns [OF assms(2,3), of B] show ?thesis by auto
next
  case (login ok c1)
  with send_login_returns [OF assms(2), of B H] assms(2) show ?thesis by (auto intro!: chat_inv_main)
next
  case (join ok c1)
  with send_join_returns [OF assms(2), of B H] assms(2) show ?thesis
    by (auto intro!: chat_inv_main chat_inv_quiet_Print) (simp_all add: Print_def)
next
  case test
  with assms(2) show ?thesis by (auto intro!: chat_inv_main chat_inv_Stop_begin) (simp add: Stop_begin_def)
next
  case (line input goes_on c1)
  with handle_line_returns [OF assms(2), of input B H] have c1: "c1 = run_command B H (command (Trim input)) c" by simp
  have "chat_inv c1" "cc_main c1 = Reading" "cc_running c1 = cc_running c"
    using run_command_keeps [OF assms(2) line(3)] line(2) c1 by simp_all
  with line(1) show ?thesis
    by (auto intro!: chat_inv_main chat_inv_Stop_begin) (simp add: Stop_begin_def)
next
  case eof
  with assms(2) show ?thesis by (auto intro!: chat_inv_Stop_begin) (simp add: Stop_begin_def)
next
  case (stop b)
  with assms(2) show ?thesis by (auto intro!: chat_inv_Stop_end) (simp add: Stop_end_def Print_def split: if_splits)
qed

lemma chat_reachable_inv:
  "(chat_step B H)\<^sup>*\<^sup>* c c' \<Longrightarrow> chat_inv c \<Longrightarrow> recv_bounded H \<Longrightarrow> chat_inv c' \<and> (cc_running c' \<longrightarrow> cc_running c)"
  by (induction rule: rtranclp_induct) (auto dest: chat_step_keeps)

text \<open>The settings are usable: a name, a room and a port number.\<close>

definition short_lines :: "bytes list \<Rightarrow> bool" where
  "short_lines ls \<longleftrightarrow> (\<forall>l \<in> set ls. length l < 2 ^ 30)"

lemma short_arg: "short_lines ls \<Longrightarrow> length (if k < length ls then Trim (ls ! k) else []) < 2 ^ 30"
  using le_less_trans [OF length_Trim] nth_mem [of k ls] unfolding short_lines_def by (simp del: nth_mem)

lemma Ask_short: "short_lines ls \<Longrightarrow> length (fst (Ask ls)) < 2 ^ 30 \<and> short_lines (snd (Ask ls))"
  using le_less_trans [OF length_Trim] by (cases ls) (auto simp: short_lines_def)

lemma asked_short:
  "short_lines ls \<Longrightarrow> length v < 2 ^ 30 \<Longrightarrow> (if v = [] then Ask ls else (v, ls)) = (v', ls') \<Longrightarrow> length v' < 2 ^ 30 \<and> short_lines ls'"
  using Ask_short [of ls] by (auto split: if_splits)

lemma port_word: "0 < n \<Longrightarrow> n \<le> 65535 \<Longrightarrow> (word_of_int n :: u16) \<noteq> 0"
  by (simp add: word_of_int_eq_0_iff zdvd_not_zless)

lemma chat_settings_ok:
  assumes "chat_settings argv input = (Some S, rest)" "short_lines argv" "short_lines input"
  shows "s_username S \<noteq> [] \<and> s_room S \<noteq> [] \<and> s_port S \<noteq> 0 \<and> length (s_username S) < 2 ^ 30 \<and> length (s_room S) < 2 ^ 30"
proof -
  let ?u = "if 1 < length argv then Trim (argv ! 1) else []" and ?r = "if 2 < length argv then Trim (argv ! 2) else []"
  obtain u i where u: "(if ?u = [] then Ask input else (?u, input)) = (u, i)" by fastforce
  obtain r j where r: "(if ?r = [] then Ask i else (?r, i)) = (r, j)" by fastforce
  have b: "length u < 2 ^ 30" "length r < 2 ^ 30"
    using asked_short [OF assms(3) short_arg [OF assms(2)] u] asked_short [OF _ short_arg [OF assms(2)] r] by simp_all
  have "u \<noteq> [] \<and> s_username S = u \<and> s_room S = (if r = [] then DEFAULT_ROOM else r) \<and> s_port S \<noteq> 0"
    using assms(1) u r port_word [of "strtol (argv ! 4)"] unfolding chat_settings_def Let_def Suc_le_eq numeral_eq_Suc pred_numeral_simps
    by (auto simp: DEFAULT_PORT_def split: if_splits)
  with b show ?thesis by (auto simp: DEFAULT_ROOM_def bytes_of_string_def)
qed

lemma chat_start_inv:
  assumes "chat_start result argv input w = Some c" "short_lines argv" "short_lines input"
  shows "chat_inv c \<and> cc_running c \<and> cc_receiving c \<and> cc_main c = LoggingIn \<and> reports c = 0"
proof -
  obtain S rest where S: "chat_settings argv input = (Some S, rest)"
    using assms(1) by (auto simp: chat_start_def split: prod.splits option.splits)
  with chat_settings_ok [OF S assms(2,3)] assms(1) show ?thesis
    by (cases result) (auto simp: chat_start_def Connect_def make_chat_client_def Print_def chat_inv_def reports_def
      make_parser_def parser_inv_def seq_def)
qed

section \<open>What arrives is shown\<close>

text \<open>The line that a packet of the protocol makes; requests are not for a client.\<close>

fun chat_line :: "ChatPacket \<Rightarrow> bytes" where
  "chat_line (ChatLoginResponsePacket p) =
     (if cls_success p then str ''[system] logged in'' else str ''[system] login rejected: '' @ cls_message p)"
| "chat_line (RoomJoinResponsePacket p) = str ''[system] joined the room. Already here: '' @
     (if rjs_existingUsers p = [] then str ''(nobody)'' else join_users (rjs_existingUsers p))"
| "chat_line (RoomChatPacket p) = str ''<'' @ rch_senderName p @ str ''> '' @ rch_message p"
| "chat_line (PrivateChatPacket p) =
     str ''*'' @ pch_senderName p @ str '' -> '' @ pch_targetName p @ str ''* '' @ pch_message p"
| "chat_line (UserEnteredPacket p) = str ''[system] '' @ uen_username p @ str '' entered the room''"
| "chat_line (UserLeftPacket p) = str ''[system] '' @ ule_username p @ str '' left the room''"
| "chat_line (ChatLoginRequestPacket p) = str ''[warn] ignoring unexpected packet id 101''"
| "chat_line (RoomJoinRequestPacket p) = str ''[warn] ignoring unexpected packet id 103''"

text \<open>A rejected login ends the session.\<close>

fun rejects :: "ChatPacket \<Rightarrow> bool" where
  "rejects (ChatLoginResponsePacket p) \<longleftrightarrow> \<not> cls_success p"
| "rejects _ \<longleftrightarrow> False"

definition shown :: "ChatPacket \<Rightarrow> 'w chat_client \<Rightarrow> 'w chat_client" where
  "shown p c = c\<lparr>cc_printed := cc_printed c @ [chat_line p], cc_running := cc_running c \<and> \<not> rejects p\<rparr>"

text \<open>The value is within the client's limits.\<close>

fun chat_fits :: "ChatPacket \<Rightarrow> bool" where
  "chat_fits (ChatLoginRequestPacket v) \<longleftrightarrow> True"
| "chat_fits (ChatLoginResponsePacket v) \<longleftrightarrow> members_ok ChatLoginResponse_layout v \<and> struct_fits ChatLoginResponse_layout v chat_MakeReaderLimits 0"
| "chat_fits (RoomJoinRequestPacket v) \<longleftrightarrow> True"
| "chat_fits (RoomJoinResponsePacket v) \<longleftrightarrow> members_ok RoomJoinResponse_layout v \<and> struct_fits RoomJoinResponse_layout v chat_MakeReaderLimits 0"
| "chat_fits (RoomChatPacket v) \<longleftrightarrow> members_ok RoomChat_layout v \<and> struct_fits RoomChat_layout v chat_MakeReaderLimits 0"
| "chat_fits (PrivateChatPacket v) \<longleftrightarrow> members_ok PrivateChat_layout v \<and> struct_fits PrivateChat_layout v chat_MakeReaderLimits 0"
| "chat_fits (UserEnteredPacket v) \<longleftrightarrow> members_ok UserEntered_layout v \<and> struct_fits UserEntered_layout v chat_MakeReaderLimits 0"
| "chat_fits (UserLeftPacket v) \<longleftrightarrow> members_ok UserLeft_layout v \<and> struct_fits UserLeft_layout v chat_MakeReaderLimits 0"

context message_codec
begin

lemma when_decoded_enc:
  assumes "ok v" "fits v chat_MakeReaderLimits 0" "length (enc v) < 2 ^ 63"
  shows "when_decoded B T (enc v) k c = k v c"
proof -
  let ?r = "make_reader_with (enc v) chat_MakeReaderLimits"
  have "Read B T (value_init T) ?r = (Ret v, ?r\<lparr>r_pos := r_pos ?r + length (enc v)\<rparr>)"
    by (rule decodesD [OF message_reads [OF assms(1)], where rest = "[]"])
      (use assms in \<open>simp_all add: make_reader_with_def reader_inv_def\<close>)
  then show ?thesis by (simp add: when_decoded_def chat_DecodeBody_def Failed_def)
qed

end

lemmas chat_decoded =
  ChatLoginResponse.when_decoded_enc [unfolded chat_members, folded ChatLoginResponse_formatter_def]
  RoomJoinResponse.when_decoded_enc [unfolded chat_members, folded RoomJoinResponse_formatter_def]
  RoomChat.when_decoded_enc [unfolded chat_members, folded RoomChat_formatter_def]
  PrivateChat.when_decoded_enc [unfolded chat_members, folded PrivateChat_formatter_def]
  UserEntered.when_decoded_enc [unfolded chat_members, folded UserEntered_formatter_def]
  UserLeft.when_decoded_enc [unfolded chat_members, folded UserLeft_formatter_def]

lemma HandlePacket_shows:
  assumes "chat_fits p" "length (chat_enc p) < 2 ^ 63"
  shows "chat_HandlePacket B (ChatPacketId_value (chat_id p)) (chat_enc p) c = (Ret (), shown p c)"
  using assms
  by (cases p) (simp_all add: chat_HandlePacket_def chat_decoded shown_def Print_def seq_def to_string.simps decimal_digit_def bytes_of_string_def)

lemma deliver_shows:
  assumes "\<forall>p \<in> set ps. chat_fits p \<and> length (chat_enc p) < 2 ^ 63"
  shows "deliver (chat_HandlePacket B) (map (\<lambda>p. (ChatPacketId_value (chat_id p), chat_enc p)) ps) c = (Ret (), fold shown ps c)"
  using assms by (induction ps arbitrary: c) (simp_all add: HandlePacket_shows seq_def)

lemma fold_shown:
  "cc_printed (fold shown ps c) = cc_printed c @ map chat_line ps"
  "cc_running (fold shown ps c) = (cc_running c \<and> \<not> (\<exists>p \<in> set ps. rejects p))"
  by (induction ps arbitrary: c) (auto simp: shown_def)

text \<open>However the stream is cut, the round in which a packet is complete shows it.\<close>

lemma receive_round_shows:
  assumes c: "chat_inv c" "cc_running c" and H: "recv_bounded H" "h_recv H 4096 (cc_world c) = (chunk, w)" "chunk \<noteq> []"
    and ps: "\<forall>p \<in> set ps. chat_fits p \<and> length (chat_enc p) \<le> chat_MAX_BODY_LENGTH"
    and f: "pending (cc_parser c) @ chunk =
      concat (map (\<lambda>p. packet_bytes (DefaultPacketHeaderPolicy B) (ChatPacketId_value (chat_id p), chat_enc p)) ps) @ rest"
      "frames (DefaultPacketHeaderPolicy B) chat_MAX_BODY_LENGTH rest = ([], Some rest)"
  shows "\<exists>c'. receive_round B H c = Some (Ret (), c') \<and> cc_printed c' = cc_printed c @ map chat_line ps \<and>
    pending (cc_parser c') = rest \<and> cc_running c' = (\<not> (\<exists>p \<in> set ps. rejects p))"
proof -
  let ?P = "DefaultPacketHeaderPolicy B" and ?p = "cc_parser c" and ?m = "\<lambda>p. (ChatPacketId_value (chat_id p), chat_enc p)"
  have "\<forall>m \<in> set (map ?m ps). length (snd m) < 2 ^ 31 \<and> length (snd m) \<le> chat_MAX_BODY_LENGTH"
    using ps by (auto simp: chat_MAX_BODY_LENGTH_def)
  from frames_append [OF default_policy.frames_packets [OF this, of B], of rest "[]" "Some rest"] f(2)
  have fr: "frames ?P chat_MAX_BODY_LENGTH (pending ?p @ chunk) = (map ?m ps, Some rest)"
    unfolding f(1) by (simp add: comp_def)
  have "length chunk \<le> 4096" using H(1,2) unfolding recv_bounded_def by (metis fst_conv)
  then have len: "length (fp_buffer ?p) + length chunk < 2 ^ 63"
    using c(1) by (simp add: chat_inv_def chat_MAX_BODY_LENGTH_def)
  have "\<forall>p \<in> set ps. chat_fits p \<and> length (chat_enc p) < 2 ^ 63"
    using ps by (auto simp: chat_MAX_BODY_LENGTH_def)
  from default_policy.Feed_frames [OF _ len _ deliver_shows [OF this, of B "c\<lparr>cc_world := w\<rparr>"], where r = "Some rest" and B = B] fr c(1)
  obtain p1 where "Feed ?P chunk (chat_HandlePacket B) (c\<lparr>cc_world := w\<rparr>) ?p = Some (Ret True, fold shown ps (c\<lparr>cc_world := w\<rparr>), p1)"
      "pending p1 = rest" by (auto simp: chat_inv_def kept_def)
  with c(2) H(2,3) show ?thesis by (simp add: receive_round_def fold_shown)
qed

end
