(* ===== verification/ChatWindow.thy ===== *)
theory ChatWindow
  imports ChatPackets Net
begin

text \<open>
  The Win32 chat client (\<^verbatim>\<open>samples/ChatClient/main.cpp\<close>): its controls, the handlers behind its window and
  the functions of its receive thread. What the program calls of Windows is a parameter of the model
  (\<open>windows\<close>). A message box is closed at once, and \<^verbatim>\<open>CreateThread\<close> succeeds.

  \<open>WndProc_okay\<close> and \<open>OnSendPM_UB\<close> say which handlers are defined, \<open>HandleNetPacket_roster\<close> relates the
  list box to the members of the room, \<open>layout_fits\<close> is about the geometry of the window. The threads are
  interleaved in theory \<open>WindowThreads\<close>.
\<close>

type_synonym wide = "u16 list"

text \<open>A \<^verbatim>\<open>SOCKET\<close>: \<open>None\<close> is \<^verbatim>\<open>INVALID_SOCKET\<close>.\<close>

type_synonym SOCKET = "nat option"

text \<open>What the client calls of Windows, on the state \<open>'w\<close> of the outside world and the state \<open>'l\<close> of a list
  box: the sockets, the conversions between UTF-8 and UTF-16, the text of an edit control after a text
  was put at its end, and the messages of the list box (\<open>lb_text\<close> is the text that \<^verbatim>\<open>LB_GETTEXT\<close> copies).
  \<open>post_limit\<close> is the number of posted messages that a queue holds.\<close>

record ('w, 'l) windows =
  ws_socket :: "'w \<Rightarrow> SOCKET \<times> 'w"
  ws_connect :: "SOCKET \<Rightarrow> 'w \<Rightarrow> bool \<times> 'w"
  ws_send :: "SOCKET \<Rightarrow> 'w send"
  ws_recv :: "SOCKET \<Rightarrow> 'w recv"
  ws_close :: "SOCKET \<Rightarrow> 'w \<Rightarrow> 'w"
  post_limit :: nat
  to_wide :: "bytes \<Rightarrow> wide"
  to_utf8 :: "wide \<Rightarrow> bytes"
  edit_append :: "wide \<Rightarrow> wide \<Rightarrow> wide"
  lb_resetcontent :: "'l \<Rightarrow> 'l"
  lb_addstring :: "wide \<Rightarrow> 'l \<Rightarrow> 'l"
  lb_findstringexact :: "wide \<Rightarrow> 'l \<Rightarrow> nat option"
  lb_deletestring :: "nat \<Rightarrow> 'l \<Rightarrow> 'l"
  lb_getcursel :: "'l \<Rightarrow> nat option"
  lb_text :: "nat \<Rightarrow> 'l \<Rightarrow> wide"

definition Utf8ToWide :: "('w, 'l) windows \<Rightarrow> bytes \<Rightarrow> wide" where
  "Utf8ToWide W s = (if s = [] then [] else to_wide W s)"

definition WideToUtf8 :: "('w, 'l) windows \<Rightarrow> wide \<Rightarrow> bytes" where
  "WideToUtf8 W w = (if w = [] then [] else to_utf8 W w)"

text \<open>A string passed as a pointer ends at its first zero.\<close>

definition c_str :: "wide \<Rightarrow> wide" where
  "c_str w = takeWhile (\<lambda>c. c \<noteq> 0) w"

definition wide_literal :: "string \<Rightarrow> wide" where
  "wide_literal s = map (\<lambda>c. word_of_nat (of_char c)) s"

text \<open>\<^verbatim>\<open>GetWindowTextW\<close> copies the text of a control, cut to the size of the buffer, with a terminating zero.\<close>

definition GetWindowText :: "wide \<Rightarrow> wide \<Rightarrow> wide" where
  "GetWindowText txt buf =
     (let copied = take (length buf - 1) txt @ [0] in copied @ drop (length copied) buf)"

definition GetEditText :: "wide \<Rightarrow> wide" where
  "GetEditText txt =
     (let len = length txt in
      if len = 0 then []
      else let buf = GetWindowText txt (replicate (len + 1) 0) in take len buf)"

lemma GetEditText_eq [simp]: "GetEditText txt = txt"
  by (simp add: GetEditText_def GetWindowText_def Let_def)

section \<open>Controls\<close>

datatype CtrlId = ID_EDIT_USERNAME | ID_BTN_LOGIN | ID_EDIT_ROOM | ID_BTN_JOIN | ID_LIST_USERS | ID_EDIT_CHAT
  | ID_EDIT_MESSAGE | ID_BTN_SEND | ID_BTN_PM

fun CtrlId_value :: "CtrlId \<Rightarrow> nat" where
  "CtrlId_value ID_EDIT_USERNAME = 101"
| "CtrlId_value ID_BTN_LOGIN = 102"
| "CtrlId_value ID_EDIT_ROOM = 103"
| "CtrlId_value ID_BTN_JOIN = 104"
| "CtrlId_value ID_LIST_USERS = 105"
| "CtrlId_value ID_EDIT_CHAT = 106"
| "CtrlId_value ID_EDIT_MESSAGE = 107"
| "CtrlId_value ID_BTN_SEND = 108"
| "CtrlId_value ID_BTN_PM = 109"

datatype style = SS_LEFT | WS_BORDER | ES_AUTOHSCROLL | BS_PUSHBUTTON | WS_VSCROLL | LBS_NOTIFY | ES_MULTILINE
  | ES_READONLY | ES_AUTOVSCROLL

text \<open>A control as \<^verbatim>\<open>CreateWindowExW\<close> gets it; a label has no identifier.\<close>

record control =
  ctl_class :: string
  ctl_caption :: string
  ctl_style :: "style list"
  ctl_rect :: "int \<times> int \<times> int \<times> int"
  ctl_id :: "CtrlId option"

definition CLIENT_W :: int where "CLIENT_W = 740"

definition CLIENT_H :: int where "CLIENT_H = 490"

section \<open>State\<close>

datatype net_message = NetPacket u16 bytes | NetDisconnect

text \<open>Where a receive thread is: at the condition of its loop, before the call of \<^verbatim>\<open>RecvPacket\<close>, in the two
  calls of \<^verbatim>\<open>RecvExact\<close> with the bytes received so far, before posting, after a failed receive, at its end.\<close>

datatype recv_thread = LoopHead | Calling | ReadHeader SOCKET bytes | ReadBody SOCKET u16 nat bytes
  | Posting u16 bytes | RecvFailed | Ended

text \<open>The globals of the program, with the controls of its window: which are enabled, the texts of the edit
  controls and the list box. \<open>cw_threads\<close> are the threads that were created, \<open>cw_hRecvThread\<close> is the last
  of them; \<open>cw_posted\<close> are the messages posted to the window, \<open>cw_boxes\<close> the message boxes shown. \<open>cw_open\<close>
  says that the window exists, \<open>cw_quit\<close> is the exit code that \<^verbatim>\<open>PostQuitMessage\<close> was called with (the \<^verbatim>\<open>wParam\<close> of the
  \<^verbatim>\<open>WM_QUIT\<close> message), \<open>cw_exit\<close> is the exit code of the process.\<close>

record ('w, 'l) chat_window =
  cw_sock :: SOCKET
  cw_hRecvThread :: "nat option"
  cw_threads :: "recv_thread list"
  cw_running :: bool
  cw_username :: bytes
  cw_controls :: "control list"
  cw_enabled :: "CtrlId \<Rightarrow> bool"
  cw_text :: "CtrlId \<Rightarrow> wide"
  cw_listUsers :: 'l
  cw_posted :: "net_message list"
  cw_boxes :: "wide list"
  cw_open :: bool
  cw_quit :: "int option"
  cw_exit :: "int option"
  cw_world :: 'w

definition chat_globals :: "'l \<Rightarrow> 'w \<Rightarrow> ('w, 'l) chat_window" where
  "chat_globals l w = \<lparr>cw_sock = None, cw_hRecvThread = None, cw_threads = [], cw_running = False, cw_username = [],
     cw_controls = [], cw_enabled = (\<lambda>_. True), cw_text = (\<lambda>_. []), cw_listUsers = l, cw_posted = [], cw_boxes = [],
     cw_open = False, cw_quit = None, cw_exit = None, cw_world = w\<rparr>"

definition EnableWindow :: "CtrlId \<Rightarrow> bool \<Rightarrow> (('w, 'l) chat_window, unit) op" where
  "EnableWindow h b = modify (\<lambda>c. c\<lparr>cw_enabled := (cw_enabled c)(h := b)\<rparr>)"

definition SetWindowText :: "CtrlId \<Rightarrow> wide \<Rightarrow> (('w, 'l) chat_window, unit) op" where
  "SetWindowText h txt = modify (\<lambda>c. c\<lparr>cw_text := (cw_text c)(h := txt)\<rparr>)"

section \<open>Creation of the window\<close>

text \<open>The local function \<^verbatim>\<open>S\<close>, for labels and for the controls with an identifier.\<close>

definition create_control :: "string \<Rightarrow> string \<Rightarrow> style list \<Rightarrow> int \<Rightarrow> int \<Rightarrow> int \<Rightarrow> int \<Rightarrow> CtrlId option \<Rightarrow> (('w, 'l) chat_window, unit) op" where
  "create_control cls caption sty x y w h i = modify (\<lambda>c. c\<lparr>cw_controls := cw_controls c @
     [\<lparr>ctl_class = cls, ctl_caption = caption, ctl_style = sty, ctl_rect = (x, y, w, h), ctl_id = i\<rparr>]\<rparr>)"

definition WM_CREATE_handler :: "(('w, 'l) chat_window, unit) op" where
  "WM_CREATE_handler =
     seq (create_control ''STATIC'' ''Username:'' [SS_LEFT] 10 14 65 20 None)
    (seq (create_control ''EDIT'' '''' [WS_BORDER, ES_AUTOHSCROLL] 78 10 130 24 (Some ID_EDIT_USERNAME))
    (seq (create_control ''BUTTON'' ''Login'' [BS_PUSHBUTTON] 216 10 60 26 (Some ID_BTN_LOGIN))
    (seq (create_control ''STATIC'' ''Room:'' [SS_LEFT] 290 14 42 20 None)
    (seq (create_control ''EDIT'' '''' [WS_BORDER, ES_AUTOHSCROLL] 336 10 130 24 (Some ID_EDIT_ROOM))
    (seq (create_control ''BUTTON'' ''Join'' [BS_PUSHBUTTON] 474 10 60 26 (Some ID_BTN_JOIN))
    (seq (create_control ''STATIC'' ''Room Members'' [SS_LEFT] 10 44 150 16 None)
    (seq (create_control ''LISTBOX'' '''' [WS_BORDER, WS_VSCROLL, LBS_NOTIFY] 10 62 150 368 (Some ID_LIST_USERS))
    (seq (create_control ''EDIT'' '''' [WS_BORDER, ES_MULTILINE, ES_READONLY, ES_AUTOVSCROLL, WS_VSCROLL]
            170 44 560 386 (Some ID_EDIT_CHAT))
    (seq (create_control ''EDIT'' '''' [WS_BORDER, ES_AUTOHSCROLL] 170 440 370 24 (Some ID_EDIT_MESSAGE))
    (seq (create_control ''BUTTON'' ''Send'' [BS_PUSHBUTTON] 548 438 60 28 (Some ID_BTN_SEND))
    (seq (create_control ''BUTTON'' ''PM'' [BS_PUSHBUTTON] 616 438 55 28 (Some ID_BTN_PM))
    (seq (EnableWindow ID_EDIT_ROOM False)
    (seq (EnableWindow ID_BTN_JOIN False)
    (seq (EnableWindow ID_EDIT_MESSAGE False)
    (seq (EnableWindow ID_BTN_SEND False)
         (EnableWindow ID_BTN_PM False))))))))))))))))"

text \<open>\<^verbatim>\<open>wWinMain\<close> up to its message loop: creating the window sends \<^verbatim>\<open>WM_CREATE\<close>.\<close>

definition make_window :: "'l \<Rightarrow> 'w \<Rightarrow> ('w, 'l) chat_window" where
  "make_window l w = (snd (WM_CREATE_handler (chat_globals l w)))\<lparr>cw_open := True\<rparr>"

section \<open>Network helpers\<close>

text \<open>The loop of \<^verbatim>\<open>RecvExact\<close> is that of \<^verbatim>\<open>recv_exact\<close> in the game client.\<close>

definition RecvExact :: "('w, 'l) windows \<Rightarrow> SOCKET \<Rightarrow> nat \<Rightarrow> 'w \<Rightarrow> bytes option \<times> 'w" where
  "RecvExact W s len w = recv_loop (ws_recv W s) len [] w"

definition SendExact :: "('w, 'l) windows \<Rightarrow> SOCKET \<Rightarrow> bytes \<Rightarrow> (('w, 'l) chat_window, bool) op" where
  "SendExact W s buf = (\<lambda>c. case send_loop (ws_send W s) buf 0 (cw_world c) of (ok, w) \<Rightarrow> (Ret ok, c\<lparr>cw_world := w\<rparr>))"

definition window_SendPacket :: "build \<Rightarrow> ('w, 'l) windows \<Rightarrow> ChatPacketId \<Rightarrow> bytes \<Rightarrow> (('w, 'l) chat_window, bool) op" where
  "window_SendPacket B W pid body =
     bind (gets cw_sock) (\<lambda>s.
       if s = None then return False
       else
         let blen = word_of_nat (length body) :: u32;
             hdr = mem_bytes (native B) (ChatPacketId_value pid) @ mem_bytes (native B) blen
         in bind (SendExact W s hdr) (\<lambda>ok.
              if \<not> ok then return False
              else if sint blen > 0 then SendExact W s body
              else return True))"

definition RecvPacket :: "build \<Rightarrow> ('w, 'l) windows \<Rightarrow> SOCKET \<Rightarrow> 'w \<Rightarrow> (u16 \<times> bytes) option \<times> 'w" where
  "RecvPacket B W s w =
     (case RecvExact W s 6 w of
        (None, w1) \<Rightarrow> (None, w1)
      | (Some hdr, w1) \<Rightarrow>
          (let pid = of_mem (native B) (take 2 hdr);
               blen = of_mem (native B) (take 4 (drop 2 hdr)) :: u32
           in if sint blen > 0 then
                (case RecvExact W s (unat blen) w1 of
                   (None, w2) \<Rightarrow> (None, w2)
                 | (Some body, w2) \<Rightarrow> (Some (pid, body), w2))
              else (Some (pid, []), w1)))"

section \<open>The contents of the controls\<close>

definition AppendChat :: "('w, 'l) windows \<Rightarrow> wide \<Rightarrow> (('w, 'l) chat_window, unit) op" where
  "AppendChat W txt = modify (\<lambda>c.
     let chat = cw_text c ID_EDIT_CHAT;
         line = (if length chat > 0 then [13, 10] else []) @ txt
     in c\<lparr>cw_text := (cw_text c)(ID_EDIT_CHAT := edit_append W chat (c_str line))\<rparr>)"

definition MessageBox :: "string \<Rightarrow> (('w, 'l) chat_window, unit) op" where
  "MessageBox msg = modify (\<lambda>c. c\<lparr>cw_boxes := cw_boxes c @ [wide_literal msg]\<rparr>)"

text \<open>A message to the list box.\<close>

definition to_list :: "('l \<Rightarrow> 'l) \<Rightarrow> (('w, 'l) chat_window, unit) op" where
  "to_list f = modify (\<lambda>c. c\<lparr>cw_listUsers := f (cw_listUsers c)\<rparr>)"

text \<open>\<^verbatim>\<open>LB_GETTEXT\<close> into \<open>wchar_t target[256]\<close>: the text with a terminating zero has to fit.\<close>

definition get_target :: "('w, 'l) windows \<Rightarrow> nat \<Rightarrow> (('w, 'l) chat_window, wide) op" where
  "get_target W sel = (\<lambda>c.
     let target = lb_text W sel (cw_listUsers c) in if length target < 256 then (Ret target, c) else (UB, c))"

section \<open>Buttons\<close>

text \<open>\<open>Serialize\<close> and \<open>SendPacket\<close>.\<close>

definition send_value :: "build \<Rightarrow> ('w, 'l) windows \<Rightarrow> 'a MemoryPackFormatter \<Rightarrow> ChatPacketId \<Rightarrow> 'a \<Rightarrow> (('w, 'l) chat_window, bool) op" where
  "send_value B W T pid v = bind (\<lambda>c. (Serialize B T v, c)) (window_SendPacket B W pid)"

text \<open>\<open>g_sock = socket(...)\<close>, \<open>connect(g_sock, ...)\<close> and \<open>closesocket(g_sock); g_sock = INVALID_SOCKET\<close>.\<close>

definition open_socket :: "('w, 'l) windows \<Rightarrow> (('w, 'l) chat_window, unit) op" where
  "open_socket W = modify (\<lambda>c. case ws_socket W (cw_world c) of (s, w) \<Rightarrow> c\<lparr>cw_sock := s, cw_world := w\<rparr>)"

definition connect_socket :: "('w, 'l) windows \<Rightarrow> (('w, 'l) chat_window, bool) op" where
  "connect_socket W = (\<lambda>c. case ws_connect W (cw_sock c) (cw_world c) of (ok, w) \<Rightarrow> (Ret ok, c\<lparr>cw_world := w\<rparr>))"

definition close_socket :: "('w, 'l) windows \<Rightarrow> (('w, 'l) chat_window, unit) op" where
  "close_socket W = modify (\<lambda>c. c\<lparr>cw_world := ws_close W (cw_sock c) (cw_world c), cw_sock := None\<rparr>)"

definition create_thread :: "(('w, 'l) chat_window, unit) op" where
  "create_thread = modify (\<lambda>c. c\<lparr>cw_hRecvThread := Some (length (cw_threads c)), cw_threads := cw_threads c @ [LoopHead]\<rparr>)"

definition OnLogin :: "build \<Rightarrow> ('w, 'l) windows \<Rightarrow> (('w, 'l) chat_window, unit) op" where
  "OnLogin B W =
     bind (gets (\<lambda>c. GetEditText (cw_text c ID_EDIT_USERNAME))) (\<lambda>wname.
       if wname = [] then MessageBox ''Enter a username.''
       else
         seq (open_socket W)
        (bind (connect_socket W) (\<lambda>connected.
           if \<not> connected then seq (MessageBox ''Cannot connect to server.'') (close_socket W)
           else
             seq (modify (\<lambda>c. c\<lparr>cw_username := WideToUtf8 W wname\<rparr>))
            (seq (modify (\<lambda>c. c\<lparr>cw_running := True\<rparr>))
            (seq create_thread
            (bind (gets cw_username) (\<lambda>username.
             seq (send_value B W ChatLoginRequest_formatter ChatLoginRequestId \<lparr>clq_username = username\<rparr>)
                 (return ()))))))))"

definition OnJoinRoom :: "build \<Rightarrow> ('w, 'l) windows \<Rightarrow> (('w, 'l) chat_window, unit) op" where
  "OnJoinRoom B W =
     bind (gets (\<lambda>c. GetEditText (cw_text c ID_EDIT_ROOM))) (\<lambda>wroom.
       if wroom = [] then return ()
       else seq (send_value B W RoomJoinRequest_formatter RoomJoinRequestId \<lparr>rjq_roomName = WideToUtf8 W wroom\<rparr>)
                (return ()))"

definition OnSendChat :: "build \<Rightarrow> ('w, 'l) windows \<Rightarrow> (('w, 'l) chat_window, unit) op" where
  "OnSendChat B W =
     bind (gets (\<lambda>c. GetEditText (cw_text c ID_EDIT_MESSAGE))) (\<lambda>wmsg.
       if wmsg = [] then return ()
       else seq (send_value B W RoomChat_formatter RoomChatId \<lparr>rch_senderName = [], rch_message = WideToUtf8 W wmsg\<rparr>)
                (SetWindowText ID_EDIT_MESSAGE []))"

definition OnSendPM :: "build \<Rightarrow> ('w, 'l) windows \<Rightarrow> (('w, 'l) chat_window, unit) op" where
  "OnSendPM B W =
     bind (gets (\<lambda>c. lb_getcursel W (cw_listUsers c))) (\<lambda>sel. case sel of
       None \<Rightarrow> MessageBox ''Select a user for PM.''
     | Some sel \<Rightarrow>
         bind (get_target W sel) (\<lambda>target.
         bind (gets (\<lambda>c. GetEditText (cw_text c ID_EDIT_MESSAGE))) (\<lambda>wmsg.
           if wmsg = [] then return ()
           else seq (send_value B W PrivateChat_formatter PrivateChatId
                  \<lparr>pch_senderName = [], pch_targetName = WideToUtf8 W (c_str target), pch_message = WideToUtf8 W wmsg\<rparr>)
                  (SetWindowText ID_EDIT_MESSAGE []))))"

section \<open>Received packets\<close>

text \<open>\<open>auto r = memorypack::Deserialize<T>(msg->body);\<close> and the rest of the case.\<close>

definition with_body :: "build \<Rightarrow> 'a MemoryPackFormatter \<Rightarrow> bytes \<Rightarrow> ('a \<Rightarrow> (('w, 'l) chat_window, unit) op) \<Rightarrow> (('w, 'l) chat_window, unit) op" where
  "with_body B T body k = bind (\<lambda>c. (Deserialize B T body, c)) k"

primrec add_users :: "('w, 'l) windows \<Rightarrow> bytes list \<Rightarrow> (('w, 'l) chat_window, unit) op" where
  "add_users W [] = return ()"
| "add_users W (u # us) = seq (to_list (lb_addstring W (c_str (Utf8ToWide W u)))) (add_users W us)"

definition HandleNetPacket :: "build \<Rightarrow> ('w, 'l) windows \<Rightarrow> u16 \<Rightarrow> bytes \<Rightarrow> (('w, 'l) chat_window, unit) op" where
  "HandleNetPacket B W pid body =
     (if pid = ChatPacketId_value ChatLoginResponseId then
        with_body B ChatLoginResponse_formatter body (\<lambda>r.
          if cls_success r then
            seq (AppendChat W (wide_literal ''[System] Login OK''))
           (seq (EnableWindow ID_EDIT_USERNAME False)
           (seq (EnableWindow ID_BTN_LOGIN False)
           (seq (EnableWindow ID_EDIT_ROOM True)
                (EnableWindow ID_BTN_JOIN True))))
          else
            seq (AppendChat W (wide_literal ''[System] Login failed: '' @ Utf8ToWide W (cls_message r)))
           (seq (close_socket W)
                (modify (\<lambda>c. c\<lparr>cw_running := False\<rparr>))))
      else if pid = ChatPacketId_value RoomJoinResponseId then
        with_body B RoomJoinResponse_formatter body (\<lambda>r.
          seq (to_list (lb_resetcontent W))
         (seq (add_users W (rjs_existingUsers r))
         (seq (EnableWindow ID_EDIT_MESSAGE True)
         (seq (EnableWindow ID_BTN_SEND True)
         (seq (EnableWindow ID_BTN_PM True)
         (bind (gets (\<lambda>c. GetEditText (cw_text c ID_EDIT_ROOM))) (\<lambda>room.
            AppendChat W (wide_literal ''[System] Joined room: '' @ room))))))))
      else if pid = ChatPacketId_value RoomChatId then
        with_body B RoomChat_formatter body (\<lambda>r.
          AppendChat W (Utf8ToWide W (rch_senderName r) @ wide_literal '': '' @ Utf8ToWide W (rch_message r)))
      else if pid = ChatPacketId_value PrivateChatId then
        with_body B PrivateChat_formatter body (\<lambda>r.
          bind (gets cw_username) (\<lambda>username.
            if pch_senderName r = username
            then AppendChat W (wide_literal ''[PM to '' @ Utf8ToWide W (pch_targetName r) @ wide_literal ''] '' @ Utf8ToWide W (pch_message r))
            else AppendChat W (wide_literal ''[PM from '' @ Utf8ToWide W (pch_senderName r) @ wide_literal ''] '' @ Utf8ToWide W (pch_message r))))
      else if pid = ChatPacketId_value UserEnteredId then
        with_body B UserEntered_formatter body (\<lambda>r.
          seq (to_list (lb_addstring W (c_str (Utf8ToWide W (uen_username r)))))
              (AppendChat W (wide_literal ''[System] '' @ Utf8ToWide W (uen_username r) @ wide_literal '' entered the room'')))
      else if pid = ChatPacketId_value UserLeftId then
        with_body B UserLeft_formatter body (\<lambda>r.
          let w = Utf8ToWide W (ule_username r)
          in bind (gets (\<lambda>c. lb_findstringexact W (c_str w) (cw_listUsers c))) (\<lambda>idx.
               seq (case idx of None \<Rightarrow> return () | Some i \<Rightarrow> to_list (lb_deletestring W i))
                   (AppendChat W (wide_literal ''[System] '' @ w @ wide_literal '' left the room''))))
      else return ())"

section \<open>The window procedure\<close>

text \<open>The messages that reach the window after \<^verbatim>\<open>WM_CREATE\<close>: \<open>WM_COMMAND\<close> with the low word of \<^verbatim>\<open>wParam\<close>, a
  posted message, \<^verbatim>\<open>WM_DESTROY\<close>.\<close>

datatype window_message = WM_COMMAND nat | WM_NET net_message | WM_DESTROY

definition on_command :: "build \<Rightarrow> ('w, 'l) windows \<Rightarrow> nat \<Rightarrow> (('w, 'l) chat_window, unit) op" where
  "on_command B W i =
     (if i = CtrlId_value ID_BTN_LOGIN then OnLogin B W
      else if i = CtrlId_value ID_BTN_JOIN then OnJoinRoom B W
      else if i = CtrlId_value ID_BTN_SEND then OnSendChat B W
      else if i = CtrlId_value ID_BTN_PM then OnSendPM B W
      else return ())"

text \<open>\<^verbatim>\<open>WaitForSingleObject\<close> waits for the end of the thread, but no longer than two seconds. With \<^verbatim>\<open>WM_DESTROY\<close> the
  window ceases to exist and the messages posted to it are discarded. \<open>UB\<close> is an access out of bounds; that the handlers
  assign the plain variable \<^verbatim>\<open>g_sock\<close> while a receive thread may read it is \<open>sock_race\<close> of the theory of the threads. A
  message box is recorded and dismissed at once: the messages that its own loop would dispatch in the meantime come after
  the handler, which is the same order for the boxes that are the last call of their handler, and not for the one of a
  failed \<^verbatim>\<open>connect\<close>.\<close>

definition WndProc :: "build \<Rightarrow> ('w, 'l) windows \<Rightarrow> window_message \<Rightarrow> (('w, 'l) chat_window, unit) op" where
  "WndProc B W msg =
     (case msg of
        WM_COMMAND i \<Rightarrow> on_command B W i
      | WM_NET (NetPacket pid body) \<Rightarrow> HandleNetPacket B W pid body
      | WM_NET NetDisconnect \<Rightarrow> AppendChat W (wide_literal ''[System] Disconnected from server'')
      | WM_DESTROY \<Rightarrow>
          seq (modify (\<lambda>c. c\<lparr>cw_running := False\<rparr>))
         (bind (gets cw_sock) (\<lambda>s.
          seq (if s \<noteq> None then close_socket W else return ())
              (modify (\<lambda>c. c\<lparr>cw_open := False, cw_posted := [], cw_quit := Some 0\<rparr>)))))"

section \<open>Safety\<close>

text \<open>What the handlers rely on: the input fields hold at most what an edit control accepts, and the
  posted bodies come from \<^verbatim>\<open>RecvPacket\<close>.\<close>

definition edit_limit :: nat where "edit_limit = 32768"

definition window_inv :: "('w, 'l) chat_window \<Rightarrow> bool" where
  "window_inv c \<longleftrightarrow>
     length (cw_text c ID_EDIT_USERNAME) < edit_limit \<and> length (cw_text c ID_EDIT_ROOM) < edit_limit \<and>
     length (cw_text c ID_EDIT_MESSAGE) < edit_limit \<and>
     (\<forall>pid body. NetPacket pid body \<in> set (cw_posted c) \<longrightarrow> length body < 2 ^ 31)"

text \<open>What the program relies on: a UTF-16 unit takes at most three bytes in UTF-8, and \<^verbatim>\<open>recv\<close> stores no more
  than it was asked for.\<close>

definition windows_ok :: "('w, 'l) windows \<Rightarrow> bool" where
  "windows_ok W \<longleftrightarrow> (\<forall>w. length (to_utf8 W w) \<le> 3 * length w) \<and>
     (\<forall>s n w. length (fst (ws_recv W s n w)) \<le> n)"

lemma length_WideToUtf8: "windows_ok W \<Longrightarrow> length w < edit_limit \<Longrightarrow> length (WideToUtf8 W w) < 2 ^ 20"
proof -
  assume W: "windows_ok W" "length w < edit_limit"
  then have "length (to_utf8 W w) \<le> 3 * length w" by (simp add: windows_ok_def)
  with W(2) show ?thesis by (simp add: WideToUtf8_def edit_limit_def)
qed

text \<open>An operation that is defined and keeps the invariant; after an escaping exception the program has
  ended.\<close>

definition okay :: "'a outcome \<times> ('w, 'l) chat_window \<Rightarrow> bool" where
  "okay res \<longleftrightarrow> (case fst res of Ret _ \<Rightarrow> window_inv (snd res) | Throw _ \<Rightarrow> True | UB \<Rightarrow> False)"

lemma okay_Ret [simp]: "okay (Ret x, c) \<longleftrightarrow> window_inv c"
  by (simp add: okay_def)

lemma okay_Throw [simp]: "okay (Throw e, c)"
  by (simp add: okay_def)

lemma okay_bind: "okay (m c) \<Longrightarrow> (\<And>x c'. m c = (Ret x, c') \<Longrightarrow> window_inv c' \<Longrightarrow> okay (f x c')) \<Longrightarrow> okay (bind m f c)"
  by (cases "m c" rule: outcome_state_cases) (simp_all add: okay_def bind_def)

lemma okay_seq: "okay (m c) \<Longrightarrow> (\<And>c'. window_inv c' \<Longrightarrow> okay (k c')) \<Longrightarrow> okay (seq m k c)"
  unfolding seq_def by (rule okay_bind)

lemma okay_AppendChat [simp]: "window_inv c \<Longrightarrow> okay (AppendChat W s c)"
  by (simp add: AppendChat_def window_inv_def Let_def)

lemma okay_MessageBox [simp]: "window_inv c \<Longrightarrow> okay (MessageBox s c)"
  by (simp add: MessageBox_def window_inv_def)

lemma okay_EnableWindow [simp]: "window_inv c \<Longrightarrow> okay (EnableWindow h b c)"
  by (simp add: EnableWindow_def window_inv_def)

lemma okay_sockets [simp]:
  "window_inv c \<Longrightarrow> okay (open_socket W c)" "window_inv c \<Longrightarrow> okay (connect_socket W c)" "window_inv c \<Longrightarrow> okay (close_socket W c)"
  "window_inv c \<Longrightarrow> okay (create_thread c)"
  by (simp_all add: open_socket_def connect_socket_def close_socket_def create_thread_def window_inv_def split: prod.split)

lemma okay_clear [simp]: "window_inv c \<Longrightarrow> okay (SetWindowText ID_EDIT_MESSAGE [] c)"
  by (simp add: SetWindowText_def window_inv_def edit_limit_def)

lemma okay_list [simp]: "window_inv c \<Longrightarrow> okay (to_list f c)"
  by (simp add: to_list_def window_inv_def)

lemma okay_add_users: "window_inv c \<Longrightarrow> okay (add_users W us c)"
  by (induction us arbitrary: c) (simp_all add: okay_seq)

lemma okay_with_body:
  assumes "Deserialize B T body \<noteq> UB" "window_inv c" "\<And>r. okay (k r c)"
  shows "okay (with_body B T body k c)"
  unfolding with_body_def using assms by (cases "Deserialize B T body") (simp_all add: bind_def)

lemmas chat_deserialize_defined =
  ChatLoginResponse.Deserialize_defined [unfolded chat_members, folded ChatLoginResponse_formatter_def]
  RoomJoinResponse.Deserialize_defined [unfolded chat_members, folded RoomJoinResponse_formatter_def]
  RoomChat.Deserialize_defined [unfolded chat_members, folded RoomChat_formatter_def]
  PrivateChat.Deserialize_defined [unfolded chat_members, folded PrivateChat_formatter_def]
  UserEntered.Deserialize_defined [unfolded chat_members, folded UserEntered_formatter_def]
  UserLeft.Deserialize_defined [unfolded chat_members, folded UserLeft_formatter_def]

lemma okay_modify: "window_inv (f c) \<Longrightarrow> okay (modify f c)"
  by simp

lemma okay_gets: "okay (f (g c) c) \<Longrightarrow> okay (bind (gets g) f c)"
  by simp

lemma okay_if: "(P \<Longrightarrow> okay (x c)) \<Longrightarrow> (\<not> P \<Longrightarrow> okay (y c)) \<Longrightarrow> okay ((if P then x else y) c)"
  by simp

text \<open>Whatever the server sends, handling a packet is defined.\<close>

lemma okay_HandleNetPacket:
  assumes "window_inv c" "length body < 2 ^ 63"
  shows "okay (HandleNetPacket B W pid body c)"
proof -
  have run: "window_inv (c\<lparr>cw_running := a\<rparr>)" if "window_inv c" for a and c :: "('a, 'b) chat_window"
    using that by (simp add: window_inv_def)
  have left: "okay (seq (case idx of None \<Rightarrow> return () | Some i \<Rightarrow> to_list (f i)) (AppendChat W t) c)" if "window_inv c" for idx f t c
    using that by (intro okay_seq) (auto split: option.split)
  show ?thesis unfolding HandleNetPacket_def Let_def
    by (intro okay_if okay_with_body chat_deserialize_defined [OF assms(2)] okay_seq okay_add_users left okay_gets okay_modify)
      (simp_all add: assms(1) run)
qed

section \<open>Sending\<close>

lemma window_SendPacket_okay: "window_inv c \<Longrightarrow> okay (window_SendPacket B W pid body c)"
proof -
  have e: "okay (SendExact W s buf c)" if "window_inv c" for buf s and c :: "('a, 'b) chat_window"
    using that by (simp add: SendExact_def window_inv_def split: prod.split)
  assume "window_inv c"
  then show ?thesis unfolding window_SendPacket_def Let_def
    by (intro okay_gets okay_if okay_bind e) simp_all
qed

lemma send_value_okay:
  assumes "window_inv c" "Serialize B T v = Ret bs"
  shows "okay (send_value B W T pid v c)"
  using assms window_SendPacket_okay [OF assms(1)] by (simp add: send_value_def bind_def)

lemma string_messages:
  assumes "length s < 2 ^ 20" "length t < 2 ^ 20"
  shows "\<exists>bs. Serialize B ChatLoginRequest_formatter \<lparr>clq_username = s\<rparr> = Ret bs"
    "\<exists>bs. Serialize B RoomJoinRequest_formatter \<lparr>rjq_roomName = s\<rparr> = Ret bs"
    "\<exists>bs. Serialize B RoomChat_formatter \<lparr>rch_senderName = [], rch_message = s\<rparr> = Ret bs"
    "\<exists>bs. Serialize B PrivateChat_formatter \<lparr>pch_senderName = [], pch_targetName = t, pch_message = s\<rparr> = Ret bs"
  using assms length_enc_string_le [of s] length_enc_string_le [of t] length_enc_string_le [of "[]"]
  by (intro exI; subst chat_serialize; simp add: chat_layouts string_ok_def struct_enc_def)+

lemma OnLogin_okay:
  assumes "window_inv c" "windows_ok W"
  shows "okay (OnLogin B W c)"
proof -
  let ?u = "WideToUtf8 W (cw_text c ID_EDIT_USERNAME)"
  have "length ?u < 2 ^ 20" using assms by (intro length_WideToUtf8) (simp_all add: window_inv_def)
  from string_messages(1) [OF this this, of B] obtain bs where bs: "Serialize B ChatLoginRequest_formatter \<lparr>clq_username = ?u\<rparr> = Ret bs"
    by blast
  have start: "okay (seq (modify (\<lambda>c. c\<lparr>cw_username := ?u\<rparr>)) (seq (modify (\<lambda>c. c\<lparr>cw_running := True\<rparr>)) (seq create_thread
      (bind (gets cw_username) (\<lambda>username. seq (send_value B W ChatLoginRequest_formatter ChatLoginRequestId
        \<lparr>clq_username = username\<rparr>) (return ()))))) c)" if "window_inv c" for c :: "('a, 'b) chat_window"
  proof -
    let ?c = "c\<lparr>cw_username := ?u, cw_running := True, cw_hRecvThread := Some (length (cw_threads c)),
      cw_threads := cw_threads c @ [LoopHead]\<rparr>"
    have "window_inv ?c" using that by (simp add: window_inv_def)
    then have "okay (seq (send_value B W ChatLoginRequest_formatter ChatLoginRequestId \<lparr>clq_username = ?u\<rparr>) (return ()) ?c)"
      by (intro okay_seq send_value_okay [OF _ bs]) simp_all
    then show ?thesis by (simp add: create_thread_def)
  qed
  show ?thesis unfolding OnLogin_def GetEditText_eq
    by (intro okay_gets okay_if start okay_seq [of "open_socket W"] okay_bind okay_seq [of "MessageBox _"]) (simp_all add: assms(1))
qed

lemma OnJoinRoom_okay:
  assumes "window_inv c" "windows_ok W"
  shows "okay (OnJoinRoom B W c)"
proof -
  let ?u = "WideToUtf8 W (cw_text c ID_EDIT_ROOM)"
  have "length ?u < 2 ^ 20" using assms by (intro length_WideToUtf8) (simp_all add: window_inv_def)
  from string_messages(2) [OF this this, of B] obtain bs where "Serialize B RoomJoinRequest_formatter \<lparr>rjq_roomName = ?u\<rparr> = Ret bs"
    by blast
  with assms(1) show ?thesis unfolding OnJoinRoom_def
    by (intro okay_gets okay_if okay_seq send_value_okay) auto
qed

lemma OnSendChat_okay:
  assumes "window_inv c" "windows_ok W"
  shows "okay (OnSendChat B W c)"
proof -
  let ?m = "WideToUtf8 W (cw_text c ID_EDIT_MESSAGE)"
  have "length ?m < 2 ^ 20" using assms by (intro length_WideToUtf8) (simp_all add: window_inv_def)
  from string_messages(3) [OF this this, of B] obtain bs
    where "Serialize B RoomChat_formatter \<lparr>rch_senderName = [], rch_message = ?m\<rparr> = Ret bs" by blast
  with assms(1) show ?thesis unfolding OnSendChat_def
    by (intro okay_gets okay_if okay_seq send_value_okay) auto
qed

text \<open>The one operation that can go wrong: a selected name that does not fit into \<open>wchar_t target[256]\<close>.\<close>

definition name_too_long :: "('w, 'l) windows \<Rightarrow> ('w, 'l) chat_window \<Rightarrow> bool" where
  "name_too_long W c \<longleftrightarrow>
     (\<exists>sel. lb_getcursel W (cw_listUsers c) = Some sel \<and> length (lb_text W sel (cw_listUsers c)) \<ge> 256)"

lemma OnSendPM_okay:
  assumes "window_inv c" "windows_ok W" "\<not> name_too_long W c"
  shows "okay (OnSendPM B W c)"
proof (cases "lb_getcursel W (cw_listUsers c)")
  case None
  with assms(1) show ?thesis by (simp add: OnSendPM_def)
next
  case (Some sel)
  let ?m = "WideToUtf8 W (cw_text c ID_EDIT_MESSAGE)" and ?t = "lb_text W sel (cw_listUsers c)"
  have t: "length ?t < 256" using assms Some by (auto simp: name_too_long_def)
  have "length (c_str ?t) \<le> length ?t" by (simp add: c_str_def length_takeWhile_le)
  with t have "length (c_str ?t) < edit_limit" by (simp add: edit_limit_def)
  with assms(1,2) have "length ?m < 2 ^ 20" "length (WideToUtf8 W (c_str ?t)) < 2 ^ 20"
    using length_WideToUtf8 [OF assms(2)] unfolding window_inv_def by blast+
  from string_messages(4) [OF this, of B] obtain bs where "Serialize B PrivateChat_formatter
      \<lparr>pch_senderName = [], pch_targetName = WideToUtf8 W (c_str ?t), pch_message = ?m\<rparr> = Ret bs" by blast
  with assms(1) have "okay ((if cw_text c ID_EDIT_MESSAGE = [] then return ()
      else seq (send_value B W PrivateChat_formatter PrivateChatId
        \<lparr>pch_senderName = [], pch_targetName = WideToUtf8 W (c_str ?t), pch_message = ?m\<rparr>)
        (SetWindowText ID_EDIT_MESSAGE [])) c)"
    by (intro okay_if okay_seq send_value_okay) auto
  with Some t show ?thesis by (simp add: OnSendPM_def get_target_def)
qed

lemma OnSendPM_UB:
  assumes "name_too_long W c"
  shows "fst (OnSendPM B W c) = UB"
  using assms by (auto simp: OnSendPM_def get_target_def name_too_long_def bind_def)

lemma on_command_okay:
  assumes "window_inv c" "windows_ok W" "i = CtrlId_value ID_BTN_PM \<longrightarrow> \<not> name_too_long W c"
  shows "okay (on_command B W i c)"
  unfolding on_command_def using assms
  by (intro okay_if OnLogin_okay OnJoinRoom_okay OnSendChat_okay OnSendPM_okay) simp_all

lemma WndProc_okay:
  assumes "window_inv c" "windows_ok W" "msg = WM_COMMAND (CtrlId_value ID_BTN_PM) \<longrightarrow> \<not> name_too_long W c"
    "\<And>pid body. msg = WM_NET (NetPacket pid body) \<Longrightarrow> length body < 2 ^ 31"
  shows "okay (WndProc B W msg c)"
proof (cases msg)
  case (WM_COMMAND i)
  with assms(1-3) on_command_okay [of c W i B] show ?thesis by (simp add: WndProc_def)
next
  case (WM_NET m)
  then show ?thesis
  proof (cases m)
    case (NetPacket pid body)
    with WM_NET assms(1,4) okay_HandleNetPacket [of c body B W pid] show ?thesis by (simp add: WndProc_def)
  qed (simp add: WndProc_def assms(1))
next
  case WM_DESTROY
  with assms(1) show ?thesis by (simp add: WndProc_def seq_def close_socket_def window_inv_def)
qed

lemma WndProc_UB_iff:
  assumes "window_inv c" "windows_ok W" "\<And>pid body. msg = WM_NET (NetPacket pid body) \<Longrightarrow> length body < 2 ^ 31"
  shows "fst (WndProc B W msg c) = UB \<longleftrightarrow> msg = WM_COMMAND (CtrlId_value ID_BTN_PM) \<and> name_too_long W c"
proof (cases "msg = WM_COMMAND (CtrlId_value ID_BTN_PM) \<and> name_too_long W c")
  case True
  with OnSendPM_UB [of W c B] show ?thesis by (simp add: WndProc_def on_command_def)
next
  case False
  then have "okay (WndProc B W msg c)" using assms by (intro WndProc_okay) auto
  with False show ?thesis by (auto simp: okay_def)
qed

section \<open>The list of members\<close>

text \<open>The documented behaviour of a list box that is not sorted: \<open>items\<close> are its texts.\<close>

definition list_box :: "('w, 'l) windows \<Rightarrow> ('l \<Rightarrow> wide list) \<Rightarrow> bool" where
  "list_box W items \<longleftrightarrow> (\<forall>l. items (lb_resetcontent W l) = []) \<and>
     (\<forall>s l. items (lb_addstring W s l) = items l @ [s]) \<and>
     (\<forall>i l. i < length (items l) \<longrightarrow> items (lb_deletestring W i l) = take i (items l) @ drop (Suc i) (items l)) \<and>
     (\<forall>s l i. lb_findstringexact W s l = Some i \<longrightarrow> i < length (items l))"

text \<open>What a packet does to the list of members: \<open>i\<close> is the item that is found for a member who leaves.\<close>

fun roster :: "('w, 'l) windows \<Rightarrow> nat option \<Rightarrow> ChatPacket \<Rightarrow> wide list \<Rightarrow> wide list" where
  "roster W i (RoomJoinResponsePacket v) us = map (\<lambda>u. c_str (Utf8ToWide W u)) (rjs_existingUsers v)"
| "roster W i (UserEnteredPacket v) us = us @ [c_str (Utf8ToWide W (uen_username v))]"
| "roster W i (UserLeftPacket v) us = (case i of None \<Rightarrow> us | Some i \<Rightarrow> take i us @ drop (Suc i) us)"
| "roster W i _ us = us"

definition found_member :: "('w, 'l) windows \<Rightarrow> ChatPacket \<Rightarrow> 'l \<Rightarrow> nat option" where
  "found_member W p l = (case p of UserLeftPacket v \<Rightarrow> lb_findstringexact W (c_str (Utf8ToWide W (ule_username v))) l | _ \<Rightarrow> None)"

lemmas chat_deserialize =
  ChatLoginResponse.Deserialize_message [unfolded chat_members, folded ChatLoginResponse_formatter_def]
  RoomJoinResponse.Deserialize_message [unfolded chat_members, folded RoomJoinResponse_formatter_def]
  RoomChat.Deserialize_message [unfolded chat_members, folded RoomChat_formatter_def]
  PrivateChat.Deserialize_message [unfolded chat_members, folded PrivateChat_formatter_def]
  UserEntered.Deserialize_message [unfolded chat_members, folded UserEntered_formatter_def]
  UserLeft.Deserialize_message [unfolded chat_members, folded UserLeft_formatter_def]

lemma add_users_spec:
  "list_box W items \<Longrightarrow> \<exists>l. add_users W us c = (Ret (), c\<lparr>cw_listUsers := l\<rparr>) \<and>
     items l = items (cw_listUsers c) @ map (\<lambda>u. c_str (Utf8ToWide W u)) us"
proof (induction us arbitrary: c)
  case Nil
  then show ?case by (intro exI [of _ "cw_listUsers c"]) simp
next
  case (Cons u us)
  let ?c = "c\<lparr>cw_listUsers := lb_addstring W (c_str (Utf8ToWide W u)) (cw_listUsers c)\<rparr>"
  from Cons.IH [OF Cons.prems, of ?c] Cons.prems show ?case by (auto simp: to_list_def seq_def list_box_def)
qed

lemma HandleNetPacket_roster:
  assumes "list_box W items" "chat_ok p" "length (chat_enc p) \<le> 2 ^ 62"
  shows "\<exists>c'. HandleNetPacket B W (ChatPacketId_value (chat_id p)) (chat_enc p) c = (Ret (), c') \<and>
    items (cw_listUsers c') = roster W (found_member W p (cw_listUsers c)) p (items (cw_listUsers c))"
proof (cases p)
  case (RoomJoinResponsePacket v)
  let ?c = "c\<lparr>cw_listUsers := lb_resetcontent W (cw_listUsers c)\<rparr>"
  obtain l where l: "add_users W (rjs_existingUsers v) ?c = (Ret (), ?c\<lparr>cw_listUsers := l\<rparr>)"
      "items l = items (cw_listUsers ?c) @ map (\<lambda>u. c_str (Utf8ToWide W u)) (rjs_existingUsers v)"
    using add_users_spec [OF assms(1)] by blast
  with assms RoomJoinResponsePacket show ?thesis
    by (auto simp: HandleNetPacket_def with_body_def chat_deserialize AppendChat_def to_list_def EnableWindow_def close_socket_def seq_def Let_def list_box_def)
qed (use assms in \<open>auto simp: HandleNetPacket_def with_body_def chat_deserialize AppendChat_def to_list_def EnableWindow_def close_socket_def seq_def Let_def
    list_box_def found_member_def split: option.split\<close>)

text \<open>A malformed packet: the exception of \<^verbatim>\<open>Deserialize\<close> leaves the window procedure.\<close>

lemma malformed_packet_throws:
  assumes "has_exceptions B"
  shows "\<exists>e. HandleNetPacket B W (ChatPacketId_value ChatLoginResponseId) [] c = (Throw e, c)"
proof -
  have e: "EnsureBytes B 1 (make_reader []) = (Throw (make_exception BufferUnderflow 0 ''not enough bytes remaining''),
      (make_reader [])\<lparr>r_error := BufferUnderflow\<rparr>)"
    using assms by (simp add: EnsureBytes_def make_reader_def make_reader_with_def Fail_def seq_def bind_def)
  obtain x where "Deserialize B ChatLoginResponse_formatter [] = Throw x"
    using e by (auto simp: Deserialize_def ChatLoginResponse_formatter_def MEMORYPACK_DEFINE_def Read_def
        IMemoryPackable_Deserialize_def ReadObjectHeader_def ReadByte_def EnterObject_def bind_def)
  then show ?thesis by (simp add: HandleNetPacket_def with_body_def bind_def)
qed

section \<open>The layout of the window\<close>

text \<open>The controls have different identifiers, lie inside the client area and do not overlap.\<close>

fun inside_client :: "int \<times> int \<times> int \<times> int \<Rightarrow> bool" where
  "inside_client (x, y, w, h) \<longleftrightarrow> 0 \<le> x \<and> 0 \<le> y \<and> 0 < w \<and> 0 < h \<and> x + w \<le> CLIENT_W \<and> y + h \<le> CLIENT_H"

fun disjoint_rects :: "int \<times> int \<times> int \<times> int \<Rightarrow> int \<times> int \<times> int \<times> int \<Rightarrow> bool" where
  "disjoint_rects (x, y, w, h) (x', y', w', h') \<longleftrightarrow> x + w \<le> x' \<or> x' + w' \<le> x \<or> y + h \<le> y' \<or> y' + h' \<le> y"

lemma layout_fits:
  "list_all (\<lambda>k. inside_client (ctl_rect k)) (cw_controls (make_window l w))"
  "sorted_wrt disjoint_rects (map ctl_rect (cw_controls (make_window l w)))"
  "distinct (map CtrlId_value (List.map_filter ctl_id (cw_controls (make_window l w))))"
  by (simp_all add: make_window_def WM_CREATE_handler_def chat_globals_def create_control_def EnableWindow_def
      CLIENT_W_def CLIENT_H_def List.map_filter_simps)

text \<open>At the start only the login is enabled.\<close>

lemma make_window_simps [simp]:
  "cw_sock (make_window l w) = None" "cw_threads (make_window l w) = []" "\<not> cw_running (make_window l w)"
  "cw_text (make_window l w) h = []" "cw_listUsers (make_window l w) = l" "cw_posted (make_window l w) = []"
  "cw_open (make_window l w)" "cw_quit (make_window l w) = None" "cw_exit (make_window l w) = None" "cw_world (make_window l w) = w"
  "cw_enabled (make_window l w) = (\<lambda>h. h \<notin> {ID_EDIT_ROOM, ID_BTN_JOIN, ID_EDIT_MESSAGE, ID_BTN_SEND, ID_BTN_PM})"
  by (auto simp: make_window_def WM_CREATE_handler_def chat_globals_def create_control_def EnableWindow_def)

lemma window_inv_start: "window_inv (make_window l w)"
  by (simp add: window_inv_def edit_limit_def)

end
