(* ===== verification/WindowThreads.thy ===== *)
theory WindowThreads
  imports ChatWindow
begin

text \<open>
  The threads of the Win32 chat client. A receive thread advances one access to shared state at a time
  (\<open>thread_step\<close>); \<open>window_step\<close> interleaves the threads with the messages of the window and the user's
  input, \<open>window_run\<close> is a run with its actions.

  \<open>thread_receives\<close> shows that the steps of a thread that runs alone are one call of \<^verbatim>\<open>RecvPacket\<close>,
  \<open>window_UB_iff\<close> characterises the accesses out of bounds in every reachable state, \<open>sock_race\<close> is the data race on \<^verbatim>\<open>g_sock\<close>, \<open>run_order\<close> is the
  order of requests that the enabling of the controls enforces, \<open>closing_ends\<close> bounds what happens after the
  window was closed.
\<close>

section \<open>The receive thread\<close>

definition post :: "('w, 'l) windows \<Rightarrow> net_message \<Rightarrow> ('w, 'l) chat_window \<Rightarrow> ('w, 'l) chat_window" where
  "post W m c = (if cw_open c \<and> length (cw_posted c) < post_limit W then c\<lparr>cw_posted := cw_posted c @ [m]\<rparr> else c)"

definition goto :: "nat \<Rightarrow> recv_thread \<Rightarrow> ('w, 'l) chat_window \<Rightarrow> ('w, 'l) chat_window" where
  "goto i t c = c\<lparr>cw_threads := (cw_threads c)[i := t]\<rparr>"

text \<open>One round of the loop of \<^verbatim>\<open>RecvExact\<close>: \<open>k\<close> is where the thread is after it received some bytes.\<close>

definition recv_more :: "('w, 'l) windows \<Rightarrow> SOCKET \<Rightarrow> nat \<Rightarrow> (bytes \<Rightarrow> recv_thread) \<Rightarrow> nat \<Rightarrow> ('w, 'l) chat_window \<Rightarrow> ('w, 'l) chat_window" where
  "recv_more W s n k i c =
     (case ws_recv W s n (cw_world c) of (bs, w) \<Rightarrow> goto i (if bs = [] then RecvFailed else k bs) (c\<lparr>cw_world := w\<rparr>))"

definition thread_step :: "build \<Rightarrow> ('w, 'l) windows \<Rightarrow> nat \<Rightarrow> ('w, 'l) chat_window \<Rightarrow> ('w, 'l) chat_window" where
  "thread_step B W i c =
     (case cw_threads c ! i of
        LoopHead \<Rightarrow> goto i (if cw_running c then Calling else Ended) c
      | Calling \<Rightarrow> goto i (ReadHeader (cw_sock c) []) c
      | ReadHeader s got \<Rightarrow>
          if length got < 6 then recv_more W s (6 - length got) (\<lambda>bs. ReadHeader s (got @ bs)) i c
          else
            let pid = of_mem (native B) (take 2 got);
                blen = of_mem (native B) (take 4 (drop 2 got)) :: u32
            in goto i (if sint blen > 0 then ReadBody s pid (unat blen) [] else Posting pid []) c
      | ReadBody s pid len got \<Rightarrow>
          if length got < len then recv_more W s (len - length got) (\<lambda>bs. ReadBody s pid len (got @ bs)) i c
          else goto i (Posting pid got) c
      | Posting pid body \<Rightarrow> goto i LoopHead (post W (NetPacket pid body) c)
      | RecvFailed \<Rightarrow> goto i Ended (if cw_running c then post W NetDisconnect c else c)
      | Ended \<Rightarrow> c)"

section \<open>The program\<close>

datatype action = ThreadStep nat | Command CtrlId | Deliver net_message | Edit CtrlId wide | Select | Close | Leave

text \<open>The user types into enabled fields, selects an item (which leaves the texts \<open>items\<close> of the list box),
  presses enabled buttons and closes the window; the message loop delivers the posted messages in order.
  After \<^verbatim>\<open>PostQuitMessage\<close> the loop ends and \<^verbatim>\<open>wWinMain\<close> returns the \<^verbatim>\<open>wParam\<close> of the message, which ends the threads.\<close>

inductive window_step :: "build \<Rightarrow> ('w, 'l) windows \<Rightarrow> ('l \<Rightarrow> wide list) \<Rightarrow> ('w, 'l) chat_window \<Rightarrow> action \<Rightarrow> ('w, 'l) chat_window \<Rightarrow> bool"
  for B W items where
  thread: "cw_exit c = None \<Longrightarrow> i < length (cw_threads c) \<Longrightarrow> cw_threads c ! i \<noteq> Ended \<Longrightarrow>
    window_step B W items c (ThreadStep i) (thread_step B W i c)"
| command: "cw_open c \<Longrightarrow> cw_enabled c h \<Longrightarrow> WndProc B W (WM_COMMAND (CtrlId_value h)) c = (Ret (), c') \<Longrightarrow>
    window_step B W items c (Command h) c'"
| deliver: "cw_open c \<Longrightarrow> cw_posted c = m # ms \<Longrightarrow> WndProc B W (WM_NET m) (c\<lparr>cw_posted := ms\<rparr>) = (Ret (), c') \<Longrightarrow>
    window_step B W items c (Deliver m) c'"
| edit: "cw_open c \<Longrightarrow> cw_enabled c h \<Longrightarrow> h \<in> {ID_EDIT_USERNAME, ID_EDIT_ROOM, ID_EDIT_MESSAGE} \<Longrightarrow> length t < edit_limit \<Longrightarrow>
    window_step B W items c (Edit h t) (c\<lparr>cw_text := (cw_text c)(h := t)\<rparr>)"
| select: "cw_open c \<Longrightarrow> items l = items (cw_listUsers c) \<Longrightarrow> window_step B W items c Select (c\<lparr>cw_listUsers := l\<rparr>)"
| close: "cw_open c \<Longrightarrow> WndProc B W WM_DESTROY c = (Ret (), c') \<Longrightarrow> window_step B W items c Close c'"
| leave: "cw_quit c = Some wParam \<Longrightarrow> cw_exit c = None \<Longrightarrow> window_step B W items c Leave (c\<lparr>cw_exit := Some wParam\<rparr>)"

inductive_cases thread_stepE: "window_step B W items c (ThreadStep i) c'"
inductive_cases commandE: "window_step B W items c (Command h) c'"
inductive_cases closeE: "window_step B W items c Close c'"
inductive_cases deliverE: "window_step B W items c (Deliver m) c'"

inductive window_run :: "build \<Rightarrow> ('w, 'l) windows \<Rightarrow> ('l \<Rightarrow> wide list) \<Rightarrow> ('w, 'l) chat_window \<Rightarrow> action list \<Rightarrow> ('w, 'l) chat_window \<Rightarrow> bool"
  for B W items c where
  start: "window_run B W items c [] c"
| extend: "window_run B W items c as c' \<Longrightarrow> window_step B W items c' a c'' \<Longrightarrow> window_run B W items c (as @ [a]) c''"

text \<open>A run along which an invariant is kept, as in the definition of reachable states.\<close>

lemma run_invariant:
  assumes "window_run B W items c as c'" "Q c" "\<And>c a c'. Q c \<Longrightarrow> window_step B W items c a c' \<Longrightarrow> Q c'"
  shows "Q c'"
  using assms(1) by induction (use assms(2,3) in auto)

lemma run_snoc: "window_run B W items c (as @ [a]) c'' \<longleftrightarrow>
    (\<exists>c'. window_run B W items c as c' \<and> window_step B W items c' a c'')"
  by (auto intro: window_run.extend elim: window_run.cases)

lemma run_append: "window_run B W items c (as @ bs) c'' \<longleftrightarrow>
    (\<exists>c'. window_run B W items c as c' \<and> window_run B W items c' bs c'')"
proof (induction bs arbitrary: c'' rule: rev_induct)
  case Nil
  show ?case by (auto intro: window_run.start elim: window_run.cases)
next
  case (snoc b bs)
  then show ?case by (simp flip: append_assoc add: run_snoc) blast
qed

section \<open>The invariant\<close>

text \<open>The length of a body is that of a positive \<^verbatim>\<open>int32_t\<close>.\<close>

fun thread_ok :: "recv_thread \<Rightarrow> bool" where
  "thread_ok (ReadHeader s got) \<longleftrightarrow> length got \<le> 6"
| "thread_ok (ReadBody s pid len got) \<longleftrightarrow> length got \<le> len \<and> len < 2 ^ 31"
| "thread_ok (Posting pid body) \<longleftrightarrow> length body < 2 ^ 31"
| "thread_ok _ \<longleftrightarrow> True"

definition threads_inv :: "('w, 'l) chat_window \<Rightarrow> bool" where
  "threads_inv c \<longleftrightarrow> window_inv c \<and> (\<forall>t \<in> set (cw_threads c). thread_ok t) \<and> 
    (cw_quit c \<noteq> None \<longrightarrow> cw_quit c = Some 0 \<and> \<not> cw_open c \<and> \<not> cw_running c) \<and> (cw_quit c = None \<longrightarrow> cw_exit c = None)"

lemma positive_length: "sint (n :: u32) > 0 \<Longrightarrow> unat n < 2 ^ 31"
  using bad_length_bound [of "unat n" n] by (simp add: bad_length_def)

lemma window_inv_thread:
  "window_inv (goto i t c) = window_inv c" "window_inv (c\<lparr>cw_world := w\<rparr>) = window_inv c"
  by (simp_all add: goto_def window_inv_def)

lemma window_inv_post: "window_inv c \<Longrightarrow> (\<And>pid body. m = NetPacket pid body \<Longrightarrow> length body < 2 ^ 31) \<Longrightarrow> window_inv (post W m c)"
  by (auto simp: post_def window_inv_def)

text \<open>What a step of a thread leaves alone.\<close>

lemma thread_step_frame [simp]:
  "cw_sock (thread_step B W i c) = cw_sock c" "cw_running (thread_step B W i c) = cw_running c"
  "cw_open (thread_step B W i c) = cw_open c" "cw_quit (thread_step B W i c) = cw_quit c"
  "cw_exit (thread_step B W i c) = cw_exit c" "cw_enabled (thread_step B W i c) = cw_enabled c"
  "cw_text (thread_step B W i c) = cw_text c" "cw_listUsers (thread_step B W i c) = cw_listUsers c"
  "length (cw_threads (thread_step B W i c)) = length (cw_threads c)"
  by (simp_all add: thread_step_def goto_def post_def recv_more_def Let_def split: recv_thread.split prod.split)

text \<open>Only the thread itself moves.\<close>

lemma thread_step_threads:
  "cw_threads (thread_step B W i c) = (cw_threads c)[i := cw_threads (thread_step B W i c) ! i]"
proof (cases "i < length (cw_threads c)")
  case True
  then show ?thesis
    by (cases "cw_threads c ! i")
      (simp_all add: thread_step_def goto_def post_def recv_more_def Let_def split: prod.split, metis list_update_id)
qed (simp add: thread_step_def goto_def post_def recv_more_def Let_def list_update_beyond split: recv_thread.split prod.split)

lemma recv_bound: "windows_ok W \<Longrightarrow> ws_recv W s n w = (bs, w') \<Longrightarrow> length bs \<le> n"
  unfolding windows_ok_def by (metis fst_conv)

lemma thread_step_ok:
  assumes "windows_ok W" "i < length (cw_threads c)" "thread_ok (cw_threads c ! i)"
  shows "thread_ok (cw_threads (thread_step B W i c) ! i)"
proof (cases "cw_threads c ! i")
  case (ReadHeader s got)
  then show ?thesis using assms recv_bound [OF assms(1), of s "6 - length got" "cw_world c"]
    by (auto simp: thread_step_def goto_def recv_more_def Let_def positive_length [simplified] split: prod.split)
next
  case (ReadBody s pid len got)
  then show ?thesis using assms recv_bound [OF assms(1), of s "len - length got" "cw_world c"]
    by (auto simp: thread_step_def goto_def recv_more_def split: prod.split)
qed (use assms in \<open>simp_all add: thread_step_def goto_def post_def\<close>)

lemma thread_step_window_inv:
  assumes "window_inv c" "thread_ok (cw_threads c ! i)"
  shows "window_inv (thread_step B W i c)"
  using assms
  by (cases "cw_threads c ! i")
    (auto simp: thread_step_def recv_more_def window_inv_thread Let_def intro!: window_inv_post split: prod.split)

lemma thread_step_inv:
  assumes "threads_inv c" "windows_ok W" "i < length (cw_threads c)"
  shows "threads_inv (thread_step B W i c)"
proof -
  have i: "thread_ok (cw_threads c ! i)" using assms by (simp add: threads_inv_def)
  have "set (cw_threads (thread_step B W i c)) \<subseteq> insert (cw_threads (thread_step B W i c) ! i) (set (cw_threads c))"
    using set_update_subset_insert [of "cw_threads c" i "cw_threads (thread_step B W i c) ! i"]
    by (simp only: thread_step_threads [symmetric])
  then have "\<forall>t \<in> set (cw_threads (thread_step B W i c)). thread_ok t"
    using assms(1) thread_step_ok [OF assms(2,3) i, of B] by (auto simp: threads_inv_def)
  then show ?thesis using assms(1) thread_step_window_inv [OF _ i] by (simp add: threads_inv_def)
qed

section \<open>What the messages leave alone\<close>

text \<open>An operation that does not change the part \<open>f\<close> of the state.\<close>

definition preserves :: "(('w, 'l) chat_window \<Rightarrow> 'x) \<Rightarrow> (('w, 'l) chat_window, 'a) op \<Rightarrow> bool" where
  "preserves f m \<longleftrightarrow> (\<forall>c. f (snd (m c)) = f c)"

lemma preservesD: "preserves f m \<Longrightarrow> m c = (r, c') \<Longrightarrow> f c' = f c"
  unfolding preserves_def by (metis snd_conv)

named_theorems preserves_intros

lemma preserves_bind [preserves_intros]:
  assumes "preserves f m" "\<And>x. preserves f (k x)"
  shows "preserves f (bind m k)"
  unfolding preserves_def
proof
  fix c show "f (snd (bind m k c)) = f c"
    using preservesD [OF assms(1), of c] assms(2) by (cases m c k rule: bind_cases) (auto simp: preserves_def)
qed

lemma preserves_seq [preserves_intros]: "preserves f m \<Longrightarrow> preserves f k \<Longrightarrow> preserves f (seq m k)"
  unfolding seq_def by (rule preserves_bind)

lemma preserves_if [preserves_intros]: "preserves f m \<Longrightarrow> preserves f k \<Longrightarrow> preserves f (if b then m else k)"
  by simp

lemma preserves_option [preserves_intros]: "preserves f m \<Longrightarrow> (\<And>x. preserves f (k x)) \<Longrightarrow> preserves f (case x of None \<Rightarrow> m | Some y \<Rightarrow> k y)"
  by (cases x) simp_all

lemma preserves_basic [preserves_intros]: "preserves f (return x)" "preserves f (gets g)" "preserves f (\<lambda>c. (r, c))" "preserves f (get_target W sel)"
  by (simp_all add: preserves_def get_target_def Let_def)

lemma preserves_modify: "(\<And>c. f (g c) = f c) \<Longrightarrow> preserves f (modify g)"
  by (simp add: preserves_def)

text \<open>A part of the state that the handlers of the window do not touch, but for the enabling of controls.\<close>

locale frame =
  fixes f :: "('w, 'l) chat_window \<Rightarrow> 'x"
  assumes untouched [simp]: "f (c\<lparr>cw_text := t\<rparr>) = f c" "f (c\<lparr>cw_boxes := b\<rparr>) = f c" "f (c\<lparr>cw_listUsers := l\<rparr>) = f c"
    "f (c\<lparr>cw_sock := s\<rparr>) = f c" "f (c\<lparr>cw_world := w\<rparr>) = f c" "f (c\<lparr>cw_username := u\<rparr>) = f c" "f (c\<lparr>cw_running := r\<rparr>) = f c"
    "f (c\<lparr>cw_hRecvThread := h\<rparr>) = f c" "f (c\<lparr>cw_threads := cw_threads c @ [LoopHead]\<rparr>) = f c"
begin

lemma preserves_helpers [preserves_intros]:
  "preserves f (AppendChat W txt)" "preserves f (MessageBox msg)" "preserves f (to_list g)" "preserves f (SetWindowText h txt)"
  "preserves f (open_socket W)" "preserves f (connect_socket W)" "preserves f (close_socket W)" "preserves f create_thread"
  "preserves f (SendExact W s buf)" "preserves f (modify (cw_username_update (\<lambda>_. u)))" "preserves f (modify (cw_running_update (\<lambda>_. r)))"
proof -
  have "f (c\<lparr>cw_hRecvThread := h, cw_threads := cw_threads c @ [LoopHead]\<rparr>) = f c" for c h
    using untouched(9) [of "c\<lparr>cw_hRecvThread := h\<rparr>"] by simp
  then show "preserves f create_thread" by (simp add: preserves_def create_thread_def)
qed (simp_all add: preserves_def AppendChat_def MessageBox_def to_list_def SetWindowText_def open_socket_def connect_socket_def
    close_socket_def SendExact_def Let_def split: prod.split)

lemma preserves_send [preserves_intros]: "preserves f (send_value B W T pid v)"
  unfolding send_value_def window_SendPacket_def Let_def by (intro preserves_intros)

lemma preserves_command: "preserves f (on_command B W i)"
  unfolding on_command_def OnLogin_def OnJoinRoom_def OnSendChat_def OnSendPM_def by (intro preserves_intros)

lemma preserves_users [preserves_intros]: "preserves f (add_users W us)"
  by (induction us) (simp_all add: preserves_intros)

lemma preserves_with_body [preserves_intros]: "(\<And>r. preserves f (k r)) \<Longrightarrow> preserves f (with_body B T body k)"
  unfolding with_body_def by (intro preserves_intros)

end

locale frame_all = frame +
  assumes enabling [simp]: "f (c\<lparr>cw_enabled := e\<rparr>) = f c"
begin

lemma preserves_enable [preserves_intros]: "preserves f (EnableWindow h b)"
  by (simp add: preserves_def EnableWindow_def)

lemma preserves_packet: "preserves f (HandleNetPacket B W pid body)"
  unfolding HandleNetPacket_def Let_def by (intro preserves_intros)

end

interpretation enabled: frame "cw_enabled :: ('w, 'l) chat_window \<Rightarrow> CtrlId \<Rightarrow> bool"
  by unfold_locales simp_all

interpretation shape: frame_all "\<lambda>c :: ('w, 'l) chat_window. (cw_open c, cw_quit c, cw_exit c, \<forall>t \<in> set (cw_threads c). thread_ok t)"
  by unfold_locales auto

lemma command_preserves:
  assumes "WndProc B W (WM_COMMAND i) c = (r, c')"
  shows "cw_enabled c' = cw_enabled c" "cw_open c' = cw_open c" "cw_quit c' = cw_quit c" "cw_exit c' = cw_exit c"
    "(\<forall>t \<in> set (cw_threads c'). thread_ok t) = (\<forall>t \<in> set (cw_threads c). thread_ok t)"
  using assms preservesD [OF enabled.preserves_command, of B W i c] preservesD [OF shape.preserves_command, of B W i c]
  by (simp_all add: WndProc_def)

lemma net_preserves:
  assumes "WndProc B W (WM_NET m) c = (r, c')"
  shows "cw_open c' = cw_open c" "cw_quit c' = cw_quit c" "cw_exit c' = cw_exit c" "(\<forall>t \<in> set (cw_threads c'). thread_ok t) = (\<forall>t \<in> set (cw_threads c). thread_ok t)"
  using assms preservesD [OF shape.preserves_packet, of B W _ _ c] preservesD [OF shape.preserves_helpers(1), of W _ c]
  by (cases m; fastforce simp: WndProc_def)+

lemma destroy_eq:
  "WndProc B W WM_DESTROY c = (Ret (), c\<lparr>cw_running := False, cw_world := (if cw_sock c = None then cw_world c
     else ws_close W (cw_sock c) (cw_world c)), cw_sock := None, cw_open := False, cw_posted := [], cw_quit := Some 0\<rparr>)"
  by (simp add: WndProc_def seq_def close_socket_def)

section \<open>Reachable states\<close>

lemma window_step_inv:
  assumes "threads_inv c" "window_step B W items c a c'" "windows_ok W"
  shows "threads_inv c'"
  using assms(2)
proof cases
  case (thread i)
  then show ?thesis using thread_step_inv [OF assms(1,3)] by simp
next
  case (command h)
  have "WM_COMMAND (CtrlId_value h) = WM_COMMAND (CtrlId_value ID_BTN_PM) \<longrightarrow> \<not> name_too_long W c"
    using command(4) OnSendPM_UB [of W c B] by (auto simp: WndProc_def on_command_def)
  with WndProc_okay [OF _ assms(3) this, of B] command assms(1) have "window_inv c'" by (auto simp: threads_inv_def)
  with command_preserves [OF command(4)] command(2) assms(1) show ?thesis by (simp add: threads_inv_def)
next
  case (deliver m ms)
  have "window_inv (c\<lparr>cw_posted := ms\<rparr>)" using assms(1) deliver(3) by (auto simp: threads_inv_def window_inv_def)
  moreover have "\<And>pid body. m = NetPacket pid body \<Longrightarrow> length body < 2 ^ 31"
    using assms(1) deliver(3) unfolding threads_inv_def window_inv_def by fastforce
  ultimately have "window_inv c'" using WndProc_okay [OF _ assms(3), of "c\<lparr>cw_posted := ms\<rparr>" "WM_NET m" B] deliver(4) by auto
  with net_preserves [OF deliver(4)] deliver(2) assms(1) show ?thesis by (simp add: threads_inv_def)
next
  case close
  then show ?thesis using assms(1) by (auto simp: destroy_eq threads_inv_def window_inv_def)
qed (use assms(1) in \<open>auto simp: threads_inv_def window_inv_def\<close>)

lemma threads_inv_start: "threads_inv (make_window l w)"
  by (simp add: threads_inv_def window_inv_start)

lemma run_inv:
  assumes "window_run B W items (make_window l w) as c" "windows_ok W"
  shows "threads_inv c"
  by (rule run_invariant [where Q = threads_inv, OF assms(1) threads_inv_start]) (rule window_step_inv [OF _ _ assms(2)])

text \<open>In every reachable state a message of the window leads to an access out of bounds exactly when it is the
  private-message button with a selected name of 256 or more characters.\<close>

lemma window_UB_iff:
  assumes "window_run B W items (make_window l w) as c" "windows_ok W" "\<And>m. msg = WM_NET m \<Longrightarrow> m \<in> set (cw_posted c)"
  shows "fst (WndProc B W msg c) = UB \<longleftrightarrow> msg = WM_COMMAND (CtrlId_value ID_BTN_PM) \<and> name_too_long W c"
proof (rule WndProc_UB_iff [OF _ assms(2)])
  show "window_inv c" using run_inv [OF assms(1,2)] by (simp add: threads_inv_def)
  then show "length body < 2 ^ 31" if "msg = WM_NET (NetPacket pid body)" for pid body
    using assms(3) [OF that] unfolding window_inv_def by blast
qed

section \<open>A thread that runs alone\<close>

definition alone :: "build \<Rightarrow> ('w, 'l) windows \<Rightarrow> nat \<Rightarrow> ('w, 'l) chat_window \<Rightarrow> ('w, 'l) chat_window \<Rightarrow> bool" where
  "alone B W i c c' \<longleftrightarrow> (\<exists>n. (thread_step B W i ^^ n) c = c')"

lemma alone_refl: "alone B W i c c"
  by (auto simp: alone_def intro: exI [of _ 0])

lemma alone_step: "alone B W i (thread_step B W i c) c' \<Longrightarrow> alone B W i c c'"
  unfolding alone_def by (metis funpow_Suc_right o_apply)

lemma alone_trans: "alone B W i c c' \<Longrightarrow> alone B W i c' c'' \<Longrightarrow> alone B W i c c''"
  unfolding alone_def by (metis funpow_add o_apply)

lemma alone_run:
  assumes "alone B W i c c'" "i < length (cw_threads c)" "cw_exit c = None"
  shows "\<exists>k. window_run B W items c (replicate k (ThreadStep i)) c'"
proof -
  have "\<exists>k. window_run B W items c (replicate k (ThreadStep i)) ((thread_step B W i ^^ n) c)" for n
  proof (induction n)
    case 0
    show ?case by (intro exI [of _ 0]) (simp add: window_run.start)
  next
    case (Suc n)
    let ?c = "(thread_step B W i ^^ n) c"
    have c: "length (cw_threads ?c) = length (cw_threads c)" "cw_exit ?c = cw_exit c" by (induction n) simp_all
    from Suc obtain k where k: "window_run B W items c (replicate k (ThreadStep i)) ?c" by blast
    show ?case
    proof (cases "cw_threads ?c ! i = Ended")
      case True
      then have "thread_step B W i ?c = ?c" by (simp add: thread_step_def)
      with k show ?thesis by auto
    next
      case False
      with c assms(2,3) have "window_step B W items ?c (ThreadStep i) (thread_step B W i ?c)" by (simp add: window_step.thread)
      from window_run.extend [OF k this] show ?thesis by (intro exI [of _ "Suc k"]) (simp add: replicate_append_same)
    qed
  qed
  with assms(1) show ?thesis by (auto simp: alone_def)
qed

lemma goto_goto [simp]: "goto i t (goto i u c) = goto i t c" "goto i t c\<lparr>cw_world := w\<rparr> = goto i t (c\<lparr>cw_world := w\<rparr>)"
  by (simp_all add: goto_def)

lemma goto_simps [simp]: "cw_world (goto i t c) = cw_world c" "cw_sock (goto i t c) = cw_sock c"
    "length (cw_threads (goto i t c)) = length (cw_threads c)"
    "i < length (cw_threads c) \<Longrightarrow> cw_threads (goto i t c) ! i = t"
  by (simp_all add: goto_def)

lemma goto_here: "cw_threads c ! i = t \<Longrightarrow> goto i t c = c"
  by (auto simp: goto_def)

lemma recv_loop_length: "recv_loop recv len buf w = (Some b, w') \<Longrightarrow> len \<le> length b"
proof (induction recv len buf w rule: recv_loop.induct)
  case (1 recv len buf w)
  then show ?case
    by (cases "recv (len - length buf) w") (auto simp: recv_loop.simps [of recv len buf w] split: if_splits)
qed

lemma RecvPacket_eq: "RecvPacket B W s w = recv_packet B (ws_recv W s) w"
proof -
  have "RecvExact W s = recv_exact (ws_recv W s)" by (intro ext) (simp add: RecvExact_def recv_exact_def)
  then show ?thesis by (simp only: RecvPacket_def recv_packet_def)
qed

text \<open>The steps of one thread are one call of \<^verbatim>\<open>RecvExact\<close>; \<open>here got\<close> is the thread with the bytes received so
  far.\<close>

lemma thread_RecvExact:
  assumes "i < length (cw_threads c)" "cw_threads c ! i = here buf"
    and "\<And>c got. i < length (cw_threads c) \<Longrightarrow> cw_threads c ! i = here got \<Longrightarrow> length got < len \<Longrightarrow>
      thread_step B W i c = recv_more W s (len - length got) (\<lambda>bs. here (got @ bs)) i c"
    and "recv_loop (ws_recv W s) len buf (cw_world c) = (r, w')"
  shows "alone B W i c (goto i (case r of Some b \<Rightarrow> here b | None \<Rightarrow> RecvFailed) (c\<lparr>cw_world := w'\<rparr>))"
  using assms(1,2,4)
proof (induction "len - length buf" arbitrary: buf c rule: less_induct)
  case less
  show ?case
  proof (cases "length buf < len")
    case False
    with less.prems(3) have "r = Some buf" "w' = cw_world c" by (simp_all add: recv_loop.simps)
    with goto_here [OF less.prems(2)] show ?thesis by (simp add: alone_refl)
  next
    case True
    obtain bs w1 where rec: "ws_recv W s (len - length buf) (cw_world c) = (bs, w1)" by force
    then have step: "thread_step B W i c = goto i (if bs = [] then RecvFailed else here (buf @ bs)) (c\<lparr>cw_world := w1\<rparr>)"
      using assms(3) [OF less.prems(1,2) True] by (simp add: recv_more_def)
    show ?thesis
    proof (cases "bs = []")
      case bs: True
      with True rec less.prems(3) have "r = None" "w' = w1" by (simp_all add: recv_loop.simps)
      with step bs show ?thesis by (intro alone_step [of _ _ _ c]) (simp add: alone_refl)
    next
      case False
      let ?c = "goto i (here (buf @ bs)) (c\<lparr>cw_world := w1\<rparr>)"
      have "recv_loop (ws_recv W s) len (buf @ bs) (cw_world ?c) = (r, w')"
        using less.prems(3) True rec False by (simp add: recv_loop.simps [of _ _ buf])
      moreover have "len - length (buf @ bs) < len - length buf" using True False by (simp flip: length_greater_0_conv)
      ultimately have "alone B W i ?c (goto i (case r of Some b \<Rightarrow> here b | None \<Rightarrow> RecvFailed) (c\<lparr>cw_world := w'\<rparr>))"
        using less.hyps [of "buf @ bs" ?c] less.prems(1) by simp
      with step False show ?thesis by (intro alone_step [of _ _ _ c]) simp
    qed
  qed
qed

lemma thread_body:
  assumes "i < length (cw_threads c)" "cw_threads c ! i = ReadBody s pid len []"
    "recv_loop (ws_recv W s) len [] (cw_world c) = (r, w')"
  shows "alone B W i c (goto i (case r of Some b \<Rightarrow> Posting pid b | None \<Rightarrow> RecvFailed) (c\<lparr>cw_world := w'\<rparr>))"
proof -
  let ?c = "goto i (case r of Some b \<Rightarrow> ReadBody s pid len b | None \<Rightarrow> RecvFailed) (c\<lparr>cw_world := w'\<rparr>)"
  have run: "alone B W i c ?c"
    by (rule thread_RecvExact [where s = s and len = len and here = "ReadBody s pid len", OF assms(1,2) _ assms(3)])
      (simp add: thread_step_def)
  show ?thesis
  proof (cases r)
    case (Some b)
    then have "\<not> length b < len" using assms(3) recv_loop_length [of "ws_recv W s" len "[]" "cw_world c"] by (auto simp: not_less)
    then have "thread_step B W i ?c = goto i (Posting pid b) (c\<lparr>cw_world := w'\<rparr>)" using Some assms(1) by (simp add: thread_step_def)
    with run Some show ?thesis by (simp add: alone_trans [OF run alone_step] alone_refl)
  qed (use run in simp)
qed

text \<open>From the call of \<^verbatim>\<open>RecvPacket\<close> on, an undisturbed thread receives what the function returns.\<close>

lemma thread_receives:
  assumes "i < length (cw_threads c)" "cw_threads c ! i = Calling" "RecvPacket B W (cw_sock c) (cw_world c) = (r, w')"
  shows "alone B W i c (goto i (case r of Some (pid, body) \<Rightarrow> Posting pid body | None \<Rightarrow> RecvFailed) (c\<lparr>cw_world := w'\<rparr>))"
proof -
  let ?s = "cw_sock c" and ?c1 = "goto i (ReadHeader (cw_sock c) []) c"
  obtain r1 w1 where h: "recv_loop (ws_recv W ?s) 6 [] (cw_world c) = (r1, w1)" by force
  let ?c2 = "goto i (case r1 of Some b \<Rightarrow> ReadHeader ?s b | None \<Rightarrow> RecvFailed) (c\<lparr>cw_world := w1\<rparr>)"
  have "alone B W i ?c1 (goto i (case r1 of Some b \<Rightarrow> ReadHeader ?s b | None \<Rightarrow> RecvFailed) (?c1\<lparr>cw_world := w1\<rparr>))"
    by (rule thread_RecvExact [where s = ?s and len = 6]) (use assms(1) h in \<open>simp_all add: thread_step_def\<close>)
  then have run: "alone B W i c ?c2" using assms(2) by (intro alone_step [of _ _ _ c]) (simp add: thread_step_def)
  show ?thesis
  proof (cases r1)
    case None
    with assms(3) h run show ?thesis by (simp add: RecvPacket_def RecvExact_def)
  next
    case (Some hdr)
    let ?pid = "of_mem (native B) (take 2 hdr) :: u16" and ?blen = "of_mem (native B) (take 4 (drop 2 hdr)) :: u32"
    have "\<not> length hdr < 6" using h Some recv_loop_length [of "ws_recv W ?s" 6 "[]" "cw_world c"] by (auto simp: not_less)
    then have step: "thread_step B W i ?c2 =
        goto i (if sint ?blen > 0 then ReadBody ?s ?pid (unat ?blen) [] else Posting ?pid []) (c\<lparr>cw_world := w1\<rparr>)"
      using Some assms(1) by (simp add: thread_step_def Let_def)
    show ?thesis
    proof (cases "sint ?blen > 0")
      case False
      with assms(3) h Some have "r = Some (?pid, [])" "w' = w1" by (simp_all add: RecvPacket_def RecvExact_def)
      with step False show ?thesis by (intro alone_trans [OF run] alone_step [of _ _ _ ?c2]) (simp add: alone_refl)
    next
      case True
      obtain r2 w2 where b: "recv_loop (ws_recv W ?s) (unat ?blen) [] w1 = (r2, w2)" by force
      with assms(3) h Some True have "r = map_option (\<lambda>b. (?pid, b)) r2" "w' = w2"
        by (auto simp: RecvPacket_def RecvExact_def split: option.splits)
      moreover have "alone B W i (thread_step B W i ?c2)
          (goto i (case r2 of Some b \<Rightarrow> Posting ?pid b | None \<Rightarrow> RecvFailed) (c\<lparr>cw_world := w2\<rparr>))"
        using thread_body [of i "thread_step B W i ?c2" ?s ?pid "unat ?blen" W r2 w2 B] step True assms(1) b by simp
      ultimately show ?thesis by (intro alone_trans [OF run] alone_step [of _ _ _ ?c2]) (cases r2; simp)
    qed
  qed
qed

text \<open>One round of the loop of \<^verbatim>\<open>RecvThread\<close>, undisturbed: a packet is posted.\<close>

lemma recv_round:
  assumes "i < length (cw_threads c)" "cw_threads c ! i = LoopHead" "cw_running c" "cw_open c" "cw_exit c = None"
    "length (cw_posted c) < post_limit W" "RecvPacket B W (cw_sock c) (cw_world c) = (Some (pid, body), w')"
  shows "\<exists>k. window_run B W items c (replicate k (ThreadStep i)) (c\<lparr>cw_world := w', cw_posted := cw_posted c @ [NetPacket pid body]\<rparr>)"
proof (rule alone_run [OF _ assms(1,5)])
  let ?c = "goto i (Posting pid body) (c\<lparr>cw_world := w'\<rparr>)" and ?d = "c\<lparr>cw_world := w', cw_posted := cw_posted c @ [NetPacket pid body]\<rparr>"
  have "thread_step B W i c = goto i Calling c" using assms(2,3) by (simp add: thread_step_def)
  moreover have "alone B W i (goto i Calling c) ?c"
    using thread_receives [of i "goto i Calling c" B W "Some (pid, body)" w'] assms(1,7) by simp
  ultimately have run: "alone B W i c ?c" by (intro alone_step [of _ _ _ c]) simp
  have "goto i LoopHead ?d = ?d" using assms(2) by (intro goto_here) simp
  then have "thread_step B W i ?c = ?d" using assms(1,4,6) by (simp add: thread_step_def post_def goto_def)
  then show "alone B W i c ?d" by (intro alone_trans [OF run] alone_step [of _ _ _ ?c]) (simp add: alone_refl)
qed

section \<open>The order of the requests\<close>

text \<open>The answers of the server that enable controls. The answer to a join enables the chat whatever its
  \<^verbatim>\<open>success\<close> says.\<close>

definition accepted_login :: "build \<Rightarrow> action \<Rightarrow> bool" where
  "accepted_login B a \<longleftrightarrow> (\<exists>body r. a = Deliver (NetPacket (ChatPacketId_value ChatLoginResponseId) body) \<and>
     Deserialize B ChatLoginResponse_formatter body = Ret r \<and> cls_success r)"

definition answered_join :: "build \<Rightarrow> action \<Rightarrow> bool" where
  "answered_join B a \<longleftrightarrow> (\<exists>body r. a = Deliver (NetPacket (ChatPacketId_value RoomJoinResponseId) body) \<and>
     Deserialize B RoomJoinResponse_formatter body = Ret r)"

text \<open>What an action does to the enabled controls.\<close>

definition enabled_after :: "build \<Rightarrow> action \<Rightarrow> (CtrlId \<Rightarrow> bool) \<Rightarrow> CtrlId \<Rightarrow> bool" where
  "enabled_after B a e =
     (if accepted_login B a then e(ID_EDIT_USERNAME := False, ID_BTN_LOGIN := False, ID_EDIT_ROOM := True, ID_BTN_JOIN := True)
      else if answered_join B a then e(ID_EDIT_MESSAGE := True, ID_BTN_SEND := True, ID_BTN_PM := True)
      else e)"

lemma with_bodyE:
  assumes "with_body B T body k c = (Ret x, c')"
  obtains r where "Deserialize B T body = Ret r" "k r c = (Ret x, c')"
  using assms by (cases "Deserialize B T body") (auto simp: with_body_def bind_def)

lemma packet_enabled:
  assumes "HandleNetPacket B W pid body c = (Ret (), c')"
  shows "cw_enabled c' = enabled_after B (Deliver (NetPacket pid body)) (cw_enabled c)"
proof -
  consider (login) "pid = 102" | (join) "pid = 104" | (other) "pid \<noteq> 102" "pid \<noteq> 104" by blast
  then show ?thesis
  proof cases
    case login
    with assms show ?thesis
      by (auto simp: HandleNetPacket_def enabled_after_def accepted_login_def answered_join_def AppendChat_def EnableWindow_def
          close_socket_def Let_def elim!: with_bodyE split: if_splits)
  next
    case join
    with assms obtain r where r: "Deserialize B RoomJoinResponse_formatter body = Ret r"
      "seq (to_list (lb_resetcontent W)) (seq (add_users W (rjs_existingUsers r)) (seq (EnableWindow ID_EDIT_MESSAGE True)
        (seq (EnableWindow ID_BTN_SEND True) (seq (EnableWindow ID_BTN_PM True)
        (bind (gets (\<lambda>c. GetEditText (cw_text c ID_EDIT_ROOM))) (\<lambda>room.
          AppendChat W (wide_literal ''[System] Joined room: '' @ room))))))) c = (Ret (), c')"
      by (auto simp: HandleNetPacket_def elim!: with_bodyE)
    let ?c = "c\<lparr>cw_listUsers := lb_resetcontent W (cw_listUsers c)\<rparr>"
    obtain x d where d: "add_users W (rjs_existingUsers r) ?c = (x, d)" by force
    have "cw_enabled d = cw_enabled c" using preservesD [OF enabled.preserves_users d] by simp
    moreover have "x = Ret ()" using r(2) d by (cases x) (simp_all add: to_list_def seq_def bind_def)
    ultimately show ?thesis using r d join
      by (auto simp: to_list_def enabled_after_def accepted_login_def answered_join_def AppendChat_def EnableWindow_def Let_def)
  next
    case other
    have "preserves cw_enabled (HandleNetPacket B W pid body)"
      unfolding HandleNetPacket_def Let_def using other by (simp add: enabled.preserves_with_body preserves_intros enabled.preserves_helpers)
    with assms other show ?thesis
      using preservesD by (fastforce simp: enabled_after_def accepted_login_def answered_join_def)
  qed
qed

lemma step_enabled:
  assumes "window_step B W items c a c'"
  shows "cw_enabled c' = enabled_after B a (cw_enabled c)"
  using assms
proof cases
  case (command h)
  with command_preserves(1) [OF command(4)] show ?thesis by (simp add: enabled_after_def accepted_login_def answered_join_def)
next
  case (deliver m ms)
  show ?thesis
  proof (cases m)
    case (NetPacket pid body)
    with deliver packet_enabled [of B W pid body "c\<lparr>cw_posted := ms\<rparr>" c'] show ?thesis by (simp add: WndProc_def)
  next
    case NetDisconnect
    with deliver preservesD [OF enabled.preserves_helpers(1), of W _ "c\<lparr>cw_posted := ms\<rparr>"] show ?thesis
      by (fastforce simp: WndProc_def enabled_after_def accepted_login_def answered_join_def)
  qed
next
  case close
  then show ?thesis by (auto simp: destroy_eq enabled_after_def accepted_login_def answered_join_def)
qed (simp_all add: enabled_after_def accepted_login_def answered_join_def)

lemma run_enabled:
  assumes "window_run B W items (make_window l w) as c"
  shows "cw_enabled c ID_BTN_LOGIN \<longleftrightarrow> \<not> (\<exists>a \<in> set as. accepted_login B a)"
    "cw_enabled c ID_BTN_JOIN \<longleftrightarrow> (\<exists>a \<in> set as. accepted_login B a)"
    "cw_enabled c ID_BTN_SEND \<longleftrightarrow> (\<exists>a \<in> set as. answered_join B a)"
    "cw_enabled c ID_BTN_PM \<longleftrightarrow> (\<exists>a \<in> set as. answered_join B a)"
    "cw_enabled c ID_EDIT_MESSAGE \<longleftrightarrow> (\<exists>a \<in> set as. answered_join B a)"
  using assms
proof induction
  case (extend as c a c')
  note step = step_enabled [OF extend.hyps(2)]
  have "\<not> (accepted_login B a \<and> answered_join B a)" by (auto simp: accepted_login_def answered_join_def)
  { case 1 then show ?case using extend.IH(1) step by (simp add: enabled_after_def) }
  { case 2 then show ?case using extend.IH(2) step by (simp add: enabled_after_def) }
  { case 3 then show ?case using extend.IH(3) step \<open>\<not> _\<close> by (auto simp: enabled_after_def) }
  { case 4 then show ?case using extend.IH(4) step \<open>\<not> _\<close> by (auto simp: enabled_after_def) }
  { case 5 then show ?case using extend.IH(5) step \<open>\<not> _\<close> by (auto simp: enabled_after_def) }
qed simp_all

text \<open>A request is preceded by the answer that it needs.\<close>

lemma run_order:
  assumes "window_run B W items (make_window l w) (as @ [Command h]) c"
  shows "(h = ID_BTN_LOGIN \<longrightarrow> (\<forall>a \<in> set as. \<not> accepted_login B a)) \<and> (h = ID_BTN_JOIN \<longrightarrow> (\<exists>a \<in> set as. accepted_login B a)) \<and>
    (h = ID_BTN_SEND \<or> h = ID_BTN_PM \<longrightarrow> (\<exists>a \<in> set as. answered_join B a))"
proof -
  obtain c' where c': "window_run B W items (make_window l w) as c'" "window_step B W items c' (Command h) c"
    using assms by (auto simp: run_snoc)
  from c'(2) have "cw_enabled c' h" by (auto elim: commandE)
  with run_enabled [OF c'(1)] show ?thesis by auto
qed

section \<open>Closing the window\<close>

text \<open>An upper bound of the steps that a thread still makes once \<^verbatim>\<open>g_running\<close> is false.\<close>

fun rank :: "recv_thread \<Rightarrow> nat" where
  "rank Ended = 0"
| "rank LoopHead = 1"
| "rank RecvFailed = 1"
| "rank (Posting pid body) = 2"
| "rank (ReadBody s pid len got) = 3 + (len - length got)"
| "rank (ReadHeader s got) = 2 ^ 31 + 3 + (6 - length got)"
| "rank Calling = 2 ^ 31 + 10"

definition rank_at :: "nat \<Rightarrow> ('w, 'l) chat_window \<Rightarrow> nat" where
  "rank_at i c = (if i < length (cw_threads c) then rank (cw_threads c ! i) else 0)"

lemma rank_bound: "thread_ok t \<Longrightarrow> rank t \<le> 2 ^ 31 + 10"
  by (cases t) auto

lemma rank_at_bound: "threads_inv c \<Longrightarrow> rank_at i c \<le> 2 ^ 31 + 10"
  using rank_bound [of "cw_threads c ! i"] by (auto simp: rank_at_def threads_inv_def)

lemma thread_step_rank:
  assumes "\<not> cw_running c" "i < length (cw_threads c)" "cw_threads c ! i \<noteq> Ended"
  shows "rank (cw_threads (thread_step B W i c) ! i) < rank (cw_threads c ! i)"
proof (cases "cw_threads c ! i")
  case (ReadHeader s got)
  show ?thesis
  proof (cases "length got < 6")
    case True
    with ReadHeader assms(2) show ?thesis
      by (auto simp: thread_step_def recv_more_def goto_def simp flip: length_greater_0_conv split: prod.split)
  next
    case False
    with ReadHeader assms(2) positive_length [of "of_mem (native B) (take 4 (drop 2 got))"] show ?thesis
      by (simp add: thread_step_def goto_def Let_def)
  qed
next
  case (ReadBody s pid len got)
  with assms(2) show ?thesis
    by (auto simp: thread_step_def recv_more_def goto_def simp flip: length_greater_0_conv split: prod.split)
qed (use assms in \<open>simp_all add: thread_step_def goto_def post_def\<close>)

lemma thread_step_other: "j \<noteq> i \<Longrightarrow> cw_threads (thread_step B W i c) ! j = cw_threads c ! j"
  by (subst thread_step_threads) simp

text \<open>What can still happen once the window was destroyed: its threads run on, and the program leaves.\<close>

lemma closed_step:
  assumes "window_step B W items c a c'" "threads_inv c" "cw_quit c \<noteq> None"
  shows "cw_exit c = None" "cw_quit c' \<noteq> None" "length (cw_threads c') = length (cw_threads c)"
    "(a = Leave \<and> c' = c\<lparr>cw_exit := Some 0\<rparr>) \<or>
     (\<exists>i < length (cw_threads c). a = ThreadStep i \<and> c' = thread_step B W i c \<and> cw_threads c ! i \<noteq> Ended)"
  using assms by (cases rule: window_step.cases; fastforce simp: threads_inv_def)+

lemma closed_step_rank:
  assumes "window_step B W items c a c'" "threads_inv c" "cw_quit c \<noteq> None"
  shows "(if a = ThreadStep i then 1 else 0) + rank_at i c' \<le> rank_at i c"
  using closed_step(4) [OF assms]
proof (elim disjE exE conjE)
  fix j assume j: "j < length (cw_threads c)" "a = ThreadStep j" "c' = thread_step B W j c" "cw_threads c ! j \<noteq> Ended"
  have "\<not> cw_running c" using assms(2,3) by (simp add: threads_inv_def)
  with j thread_step_rank [of c j B W] show ?thesis by (cases "j = i") (simp_all add: rank_at_def thread_step_other)
qed (simp add: rank_at_def)

definition closed_actions :: "action list \<Rightarrow> nat \<Rightarrow> bool" where
  "closed_actions bs n \<longleftrightarrow> (\<forall>a \<in> set (butlast bs). \<exists>i < n. a = ThreadStep i) \<and> (bs \<noteq> [] \<longrightarrow> last bs = Leave \<or> (\<exists>i < n. last bs = ThreadStep i))"

lemma closed_actions_snoc:
  "closed_actions (bs @ [a]) n \<longleftrightarrow> (\<forall>b \<in> set bs. \<exists>i < n. b = ThreadStep i) \<and> (a = Leave \<or> (\<exists>i < n. a = ThreadStep i))"
  by (simp add: closed_actions_def)

lemma closed_run:
  assumes "window_run B W items c as c'" "threads_inv c" "cw_quit c \<noteq> None" "cw_exit c = None" "windows_ok W"
  shows "threads_inv c' \<and> cw_quit c' \<noteq> None \<and> length (cw_threads c') = length (cw_threads c) \<and>
    closed_actions as (length (cw_threads c)) \<and> (\<forall>i. count_list as (ThreadStep i) + rank_at i c' \<le> rank_at i c) \<and>
    (cw_exit c' = None \<longrightarrow> (\<forall>a \<in> set as. \<exists>i < length (cw_threads c). a = ThreadStep i)) \<and>
    (cw_exit c' \<noteq> None \<longrightarrow> cw_exit c' = Some 0)"
  using assms(1)
proof induction
  case (extend as c' a c'')
  have inv: "threads_inv c'" "cw_quit c' \<noteq> None" "length (cw_threads c') = length (cw_threads c)" using extend.IH by simp_all
  note step = closed_step [OF extend(2) inv(1,2)]
  have "count_list (as @ [a]) (ThreadStep i) + rank_at i c'' \<le> rank_at i c" for i
  proof -
    have "count_list as (ThreadStep i) + rank_at i c' \<le> rank_at i c" using extend.IH by blast
    with closed_step_rank [OF extend(2) inv(1,2), of i] show ?thesis by (simp split: if_splits)
  qed
  moreover have "threads_inv c''" by (rule window_step_inv [OF inv(1) extend(2) assms(5)])
  moreover have all: "\<forall>b \<in> set as. \<exists>i < length (cw_threads c). b = ThreadStep i" using extend.IH step(1) by blast
  moreover have "closed_actions (as @ [a]) (length (cw_threads c))" using step(4) all inv(3) unfolding closed_actions_snoc by auto
  moreover have "cw_exit c'' \<noteq> None \<longrightarrow> cw_exit c'' = Some 0"
    "cw_exit c'' = None \<longrightarrow> (\<forall>b \<in> set (as @ [a]). \<exists>i < length (cw_threads c). b = ThreadStep i)"
    using step(1,4) all inv(3) by auto
  ultimately show ?case using step(2,3) inv(3) by simp
qed (use assms in \<open>simp add: closed_actions_def\<close>)

text \<open>After the window was closed no handler runs, every thread makes boundedly many steps, and until it has left the
  program can leave with the exit code of \<^verbatim>\<open>PostQuitMessage\<close>.\<close>

lemma closing_ends:
  assumes "window_run B W items (make_window l w) (as @ Close # bs) c" "windows_ok W"
  shows "closed_actions bs (length (cw_threads c))" "count_list bs (ThreadStep i) \<le> 2 ^ 31 + 10"
    "cw_exit c = None \<Longrightarrow> window_step B W items c Leave (c\<lparr>cw_exit := Some 0\<rparr>)" "cw_exit c \<noteq> None \<Longrightarrow> cw_exit c = Some 0"
proof -
  have "window_run B W items (make_window l w) ((as @ [Close]) @ bs) c" using assms(1) by simp
  then obtain c1 where c1: "window_run B W items (make_window l w) (as @ [Close]) c1" "window_run B W items c1 bs c"
    unfolding run_append by blast
  have inv: "threads_inv c1" by (rule run_inv [OF c1(1) assms(2)])
  obtain c0 where c0: "window_run B W items (make_window l w) as c0" "window_step B W items c0 Close c1"
    using c1(1) by (auto simp: run_snoc)
  have quit: "cw_quit c1 \<noteq> None" "cw_exit c1 = None"
    using c0(2) run_inv [OF c0(1) assms(2)] by (auto simp: destroy_eq threads_inv_def elim!: closeE)
  note * = closed_run [OF c1(2) inv quit assms(2)]
  then show "closed_actions bs (length (cw_threads c))" "cw_exit c \<noteq> None \<Longrightarrow> cw_exit c = Some 0" by simp_all
  have "count_list bs (ThreadStep i) + rank_at i c \<le> rank_at i c1" using * by blast
  then show "count_list bs (ThreadStep i) \<le> 2 ^ 31 + 10" using rank_at_bound [OF inv, of i] by linarith
  have "cw_quit c = Some 0" using * by (simp add: threads_inv_def)
  then show "cw_exit c = None \<Longrightarrow> window_step B W items c Leave (c\<lparr>cw_exit := Some 0\<rparr>)" by (rule window_step.leave)
qed

section \<open>The race on the socket\<close>

text \<open>\<^verbatim>\<open>g_sock\<close> is not atomic. In a state where a thread is before the call of \<^verbatim>\<open>RecvPacket\<close>, its next step reads
  \<^verbatim>\<open>g_sock\<close>; a message of the window whose handler leaves another value in \<^verbatim>\<open>g_sock\<close> has assigned it. If both can come next,
  nothing orders the two accesses: the load of \<^verbatim>\<open>g_running\<close> that came before does not see a store of the handler.\<close>

definition sock_race :: "build \<Rightarrow> ('w, 'l) windows \<Rightarrow> ('w, 'l) chat_window \<Rightarrow> nat \<Rightarrow> window_message \<Rightarrow> bool" where
  "sock_race B W c i msg \<longleftrightarrow> cw_exit c = None \<and> i < length (cw_threads c) \<and> cw_threads c ! i = Calling \<and>
     cw_sock (snd (WndProc B W msg c)) \<noteq> cw_sock c"

text \<open>In such a state both orders of the two steps exist, and the thread receives from another socket.\<close>

lemma close_race_orders:
  assumes "sock_race B W c i WM_DESTROY" "cw_open c"
  shows "\<exists>c1. window_run B W items c [ThreadStep i, Close] c1 \<and> cw_threads c1 ! i = ReadHeader (cw_sock c) []"
    "\<exists>c2. window_run B W items c [Close, ThreadStep i] c2 \<and> cw_threads c2 ! i = ReadHeader None []" "cw_sock c \<noteq> None"
proof -
  have c: "cw_exit c = None" "i < length (cw_threads c)" "cw_threads c ! i = Calling" "cw_sock c \<noteq> None"
    using assms(1) by (cases "cw_sock c"; auto simp: sock_race_def destroy_eq)+
  have two: "window_run B W items c [a, b] e" if "window_step B W items c a d" "window_step B W items d b e" for a b d e
    using window_run.extend [OF window_run.extend [OF window_run.start that(1)] that(2)] by simp
  define d where "d = thread_step B W i c"
  have d: "window_step B W items c (ThreadStep i) d" using c by (auto simp: d_def intro: window_step.thread)
  have "window_step B W items d Close (snd (WndProc B W WM_DESTROY d))"
    using assms(2) by (intro window_step.close) (simp_all add: d_def destroy_eq)
  with two [OF d] show "\<exists>c1. window_run B W items c [ThreadStep i, Close] c1 \<and> cw_threads c1 ! i = ReadHeader (cw_sock c) []"
    using c by (fastforce simp: destroy_eq d_def thread_step_def goto_def)
  define e where "e = snd (WndProc B W WM_DESTROY c)"
  have e: "window_step B W items c Close e" using assms(2) by (intro window_step.close) (simp_all add: e_def destroy_eq)
  moreover have "window_step B W items e (ThreadStep i) (thread_step B W i e)"
    using c by (intro window_step.thread) (simp_all add: e_def destroy_eq)
  ultimately show "\<exists>c2. window_run B W items c [Close, ThreadStep i] c2 \<and> cw_threads c2 ! i = ReadHeader None []"
    using two c by (fastforce simp: destroy_eq e_def thread_step_def goto_def)
  show "cw_sock c \<noteq> None" by (fact c(4))
qed

end
