(* ===== verification/Examples.thy ===== *)
theory Examples
  imports Structs VersionTolerant Packet
begin

text \<open>
  What the programs under \<^verbatim>\<open>examples/\<close> share. The state of a program is its flag \<^verbatim>\<open>g_ok\<close>; \<open>Check\<close> clears it,
  \<open>lift\<close> and \<open>with_local\<close> run a library call on its own local object. \<open>Dump\<close> is the hex dump that every
  example repeats, with the proof that it shows every byte (\<open>Dump_shows_every_byte\<close>). Of the other printed
  text only the accesses to the printed values are modelled.
\<close>

unbundle bit_operations_syntax

section \<open>Calls and checks\<close>

text \<open>A call of the library whose local objects are gone when it returns.\<close>

definition lift :: "'a outcome \<Rightarrow> ('s, 'a) op" where
  "lift r = (\<lambda>s. (r, s))"

text \<open>Operations on a local object that stays in scope.\<close>

definition with_local :: "('t, 'a) op \<Rightarrow> 't \<Rightarrow> ('s, 'a \<times> 't) op" where
  "with_local m t = (\<lambda>s. case m t of
     (Ret x, t') \<Rightarrow> (Ret (x, t'), s) | (Throw e, _) \<Rightarrow> (Throw e, s) | (UB, _) \<Rightarrow> (UB, s))"

definition Check :: "bool \<Rightarrow> (bool, unit) op" where
  "Check condition = modify (\<lambda>ok. if condition then ok else False)"

text \<open>\<open>return g_ok ? 0 : 1;\<close>\<close>

definition exit_code :: "(bool, int) op" where
  "exit_code = gets (\<lambda>ok. if ok then 0 else 1)"

text \<open>\<open>Deserialize<T>(Serialize(value))\<close>\<close>

definition sent_back :: "build \<Rightarrow> 'a MemoryPackFormatter \<Rightarrow> 'a \<Rightarrow> ('s, 'a) op" where
  "sent_back B T value = bind (lift (Serialize B T value)) (\<lambda>bytes. lift (Deserialize B T bytes))"

text \<open>The bytes of a value are printed.\<close>

definition Show :: "build \<Rightarrow> 'a MemoryPackFormatter \<Rightarrow> 'a \<Rightarrow> (bool, unit) op" where
  "Show B T value = bind (lift (Serialize B T value)) (\<lambda>bytes. return ())"

text \<open>A part of a buffer as a \<^verbatim>\<open>std::span\<close>, and the element access and assignment of a vector.\<close>

definition subspan :: "bytes \<Rightarrow> size_t \<Rightarrow> size_t \<Rightarrow> bytes outcome" where
  "subspan buffer offset n = (if offset + n \<le> length buffer then Ret (take n (drop offset buffer)) else UB)"

definition put_at :: "nat \<Rightarrow> byte \<Rightarrow> bytes \<Rightarrow> bytes outcome" where
  "put_at i b buffer = (if i < length buffer then Ret (buffer[i := b]) else UB)"

definition byte_at :: "bytes \<Rightarrow> nat \<Rightarrow> byte outcome" where
  "byte_at buffer i = (if i < length buffer then Ret (buffer ! i) else UB)"

lemma bind_lift_Ret [simp]: "bind (lift (Ret x)) f = f x"
  by (simp add: lift_def bind_def)

lemma bind_with_local [simp]: "m t = (Ret x, t') \<Longrightarrow> bind (with_local m t) f = f (x, t')"
  by (simp add: with_local_def bind_def)

lemma Check_True [simp]: "seq (Check True) k = k"
  by (simp add: Check_def seq_def fun_eq_iff)

lemma Check_holds: "c \<Longrightarrow> seq (Check c) k = k"
  by simp

lemma exit_code_ok [simp]: "exit_code True = (Ret 0, True)"
  by (simp add: exit_code_def)

lemma seq_bind: "seq (bind m f) k = bind m (\<lambda>x. seq (f x) k)"
  by (simp add: seq_def bind_assoc)

lemma seq_seq: "seq (seq m k) l = seq m (seq k l)"
  by (simp add: seq_def bind_assoc)

text \<open>A part of a program whose checks all hold.\<close>

definition passes :: "(bool, unit) op \<Rightarrow> bool" where
  "passes m \<longleftrightarrow> (\<forall>s. m s = (Ret (), s))"

named_theorems passing "parts of the examples that pass"

lemma passes_Check [passing]: "c \<Longrightarrow> passes (Check c)"
  by (simp add: passes_def Check_def)

lemma passes_return [passing]: "passes (return ())"
  by (simp add: passes_def)

lemma passes_seq [passing]: "passes m \<Longrightarrow> passes k \<Longrightarrow> passes (seq m k)"
  by (simp add: passes_def)

lemma seq_passes: "passes m \<Longrightarrow> seq m k = k"
  by (simp add: passes_def fun_eq_iff)

lemma passes_lift: "r = Ret x \<Longrightarrow> passes (f x) \<Longrightarrow> passes (bind (lift r) f)"
  by simp

lemma passes_local: "m t = (Ret x, t') \<Longrightarrow> passes (f (x, t')) \<Longrightarrow> passes (bind (with_local m t) f)"
  by simp

lemma passes_for_each: "(\<And>x. x \<in> set xs \<Longrightarrow> passes (f x)) \<Longrightarrow> passes (for_each f xs)"
  by (induction xs) (auto intro: passing)

context message_codec
begin

lemma Show_message: "ok v \<Longrightarrow> length (enc v) \<le> 2 ^ 62 \<Longrightarrow> seq (Show B T v) k = k"
  using Serialize_message [of v B] by (simp add: Show_def seq_def fun_eq_iff)

lemma passes_Show: "ok v \<Longrightarrow> length (enc v) \<le> 2 ^ 62 \<Longrightarrow> passes (Show B T v)"
  using Serialize_message [of v B] by (simp add: Show_def passes_def)

lemma passes_Serialize:
  "ok v \<Longrightarrow> length (enc v) \<le> 2 ^ 62 \<Longrightarrow> passes (f (enc v)) \<Longrightarrow> passes (bind (lift (Serialize B T v)) f)"
  by (simp add: Serialize_message)

lemma passes_Deserialize:
  "bs = enc v \<Longrightarrow> ok v \<Longrightarrow> fits v default_options 0 \<Longrightarrow> length (enc v) \<le> 2 ^ 62 \<Longrightarrow> passes (f v) \<Longrightarrow>
     passes (bind (lift (Deserialize B T bs)) f)"
  by (simp add: Deserialize_message)

lemma received_message:
  assumes "ok v" "fits v default_options 0" "length (enc v) \<le> 2 ^ 62"
  shows "bind (sent_back B T v) f = f v"
  using Serialize_message [OF assms(1,3)] Deserialize_message [OF assms(1,2)] assms(3)
  by (simp add: sent_back_def fun_eq_iff lift_def)

lemma passes_sent_back:
  assumes "ok v" "fits v default_options 0" "length (enc v) \<le> 2 ^ 62" "passes (f v)"
  shows "passes (bind (sent_back B T v) f)"
  using assms by (simp add: received_message)

end

lemma bind_Pair [simp]: "bind (Pair (Ret x)) f = f x" "seq (Pair (Ret x)) k = k"
  by (simp_all add: bind_def seq_def fun_eq_iff)

lemma length_text [simp]: "length (bytes_of_string s) = length s" "bytes_of_string s = [] \<longleftrightarrow> s = []"
  by (simp_all add: bytes_of_string_def)

text \<open>Decoding from the start of an input that may go on.\<close>

lemma Read_from:
  assumes "decodes F m bs v" "F opts 0" "p + length bs + length rest = length data" "drop p data = bs @ rest" "length data < 2 ^ 63"
  shows "m (make_reader_with data opts\<lparr>r_pos := p\<rparr>) = (Ret v, make_reader_with data opts\<lparr>r_pos := p + length bs\<rparr>)"
  using decodesD [OF assms(1), of "make_reader_with data opts\<lparr>r_pos := p\<rparr>" rest] assms(2-)
  by (simp add: reader_inv_def make_reader_with_def)

lemma Read_start:
  assumes "decodes F m bs v" "F opts 0" "length bs + length rest < 2 ^ 63"
  shows "m (make_reader_with (bs @ rest) opts) = (Ret v, make_reader_with (bs @ rest) opts\<lparr>r_pos := length bs\<rparr>)"
  using Read_from [OF assms(1,2), of 0 rest "bs @ rest"] assms(3) by (simp add: make_reader_with_def)

lemma Deserialize_decodes:
  assumes "decodes F (Read B T (value_init T)) bs v" "F default_options 0" "length bs + length rest < 2 ^ 63"
  shows "Deserialize B T (bs @ rest) = Ret v"
  using Read_start [OF assms] by (simp add: Deserialize_def make_reader_def)

lemma writes_vector:
  assumes "emits B m bs"
  obtains w where "m (writer_vector out) = (Ret (), w)" "Data w = out @ bs" "Size w = length (Data w)"
proof -
  from emitsD(1) [OF assms, of "writer_vector out"] obtain w where
    w: "m (writer_vector out) = (Ret (), w)" "writer_inv w" "same_target (writer_vector out) w" "GetSpan w = out @ bs"
    by (auto elim: appendedE)
  moreover have "Data w = GetSpan w" "Size w = length (Data w)" using w(2,3)
    by (auto simp: GetSpan_def Size_def Data_def same_target_def writer_vector_def writer_inv_def split: option.splits)
  ultimately show thesis using that by simp
qed

section \<open>Floats\<close>

text \<open>\<open>==\<close> on the bit patterns of two \<^verbatim>\<open>float\<close> values: a NaN equals nothing, the two zeros are equal.\<close>

definition float_nan :: "u32 \<Rightarrow> bool" where
  "float_nan x \<longleftrightarrow> 0x7F800000 < (x AND 0x7FFFFFFF)"

definition float_eq :: "u32 \<Rightarrow> u32 \<Rightarrow> bool" where
  "float_eq x y \<longleftrightarrow> \<not> float_nan x \<and> \<not> float_nan y \<and>
     (x = y \<or> x AND 0x7FFFFFFF = 0 \<and> y AND 0x7FFFFFFF = 0)"

text \<open>\<open>static_cast<float>(n)\<close> for \<open>0 \<le> n < 2 ^ 24\<close>, where the conversion is exact.\<close>

fun exponent :: "nat \<Rightarrow> nat" where
  "exponent n = (if n < 2 then 0 else Suc (exponent (n div 2)))"

declare exponent.simps [simp del]

definition float_of_nat :: "nat \<Rightarrow> u32" where
  "float_of_nat n = (if n = 0 then 0
     else let e = exponent n in push_bit 23 (word_of_nat (127 + e)) + push_bit (23 - e) (word_of_nat (n - 2 ^ e)))"

section \<open>The hex dump\<close>

text \<open>\<open>%zx\<close> and \<open>%04zx\<close> of a \<^verbatim>\<open>size_t\<close>, \<open>%02X\<close> of a byte.\<close>

definition lower_digit :: "nat \<Rightarrow> char" where
  "lower_digit d = (if d < 10 then char_of (48 + d) else char_of (87 + d))"

definition upper_digit :: "nat \<Rightarrow> char" where
  "upper_digit d = (if d < 10 then char_of (48 + d) else char_of (55 + d))"

fun lower_hex :: "nat \<Rightarrow> string" where
  "lower_hex n = (if n < 16 then [lower_digit n] else lower_hex (n div 16) @ [lower_digit (n mod 16)])"

declare lower_hex.simps [simp del]

definition offset_text :: "nat \<Rightarrow> string" where
  "offset_text n = (let s = lower_hex n in replicate (4 - length s) CHR ''0'' @ s)"

definition byte_text :: "byte \<Rightarrow> string" where
  "byte_text b = [upper_digit (unat b div 16), upper_digit (unat b mod 16), CHR '' '']"

definition shown_char :: "byte \<Rightarrow> char" where
  "shown_char c = (if 0x20 \<le> c \<and> c < 0x7F then char_of (unat c) else CHR ''.'')"

text \<open>One row: the bytes \<open>i\<close> to \<open>i + 15\<close>, as far as they exist.\<close>

definition dump_row :: "nat \<Rightarrow> bytes \<Rightarrow> string" where
  "dump_row i row = ''    '' @ offset_text i @ ''  '' @ concat (map byte_text row)
     @ replicate (3 * (16 - length row)) CHR '' '' @ '' |'' @ map shown_char row @ ''|'' @ [CHR 0x0A]"

fun dump_rows :: "nat \<Rightarrow> bytes \<Rightarrow> string" where
  "dump_rows i [] = []"
| "dump_rows i (b # bs) = dump_row i (take 16 (b # bs)) @ dump_rows (i + 16) (drop 16 (b # bs))"

definition Dump :: "string \<Rightarrow> bytes \<Rightarrow> string" where
  "Dump label bytes = label @ '' ('' @ to_string (length bytes) @ '' bytes)'' @ [CHR 0x0A] @ dump_rows 0 bytes"

text \<open>A label and the number of bytes are followed by a determined text, so two dumps under one label are
  equal only if the bytes are.\<close>

lemma char_of_inj: "m < 256 \<Longrightarrow> n < 256 \<Longrightarrow> char_of m = (char_of n :: char) \<longleftrightarrow> m = (n :: nat)"
  by (metis mod_less of_char_of)

lemma decimal_digit_inj: "m < 10 \<Longrightarrow> n < 10 \<Longrightarrow> decimal_digit m = decimal_digit n \<longleftrightarrow> m = n"
  by (simp add: decimal_digit_def char_of_inj)

lemma decimal_digit_no_space: "n < 10 \<Longrightarrow> decimal_digit n \<noteq> CHR '' ''"
proof
  assume n: "n < 10" "decimal_digit n = CHR '' ''"
  from arg_cong [OF n(2), of "of_char :: char \<Rightarrow> nat"] have "(48 + n) mod 256 = (32 :: nat)"
    unfolding decimal_digit_def of_char_of by simp
  with n(1) show False by simp
qed

lemma upper_digit_inj: "m < 16 \<Longrightarrow> n < 16 \<Longrightarrow> upper_digit m = upper_digit n \<longleftrightarrow> m = n"
  by (auto simp: upper_digit_def char_of_inj)

lemma to_string_inj: "to_string m = to_string n \<Longrightarrow> m = n"
proof (induction m arbitrary: n rule: to_string.induct)
  case (1 m)
  have m: "to_string m = (if m < 10 then [decimal_digit m] else to_string (m div 10) @ [decimal_digit (m mod 10)])"
    and n: "to_string n = (if n < 10 then [decimal_digit n] else to_string (n div 10) @ [decimal_digit (n mod 10)])"
    by (rule to_string.simps)+
  show ?case
  proof (cases "m < 10 \<or> n < 10")
    case True
    then show ?thesis using 1(2) m n by (auto simp: decimal_digit_inj eq_commute [of "[]"] split: if_splits)
  next
    case False
    with 1(2) m n have "m div 10 = n div 10" "m mod 10 = n mod 10"
      using 1(1) [of "n div 10"] by (simp_all add: decimal_digit_inj)
    then show ?thesis by (metis div_mod_decomp)
  qed
qed

lemma to_string_no_space: "CHR '' '' \<notin> set (to_string n)"
proof (induction n rule: to_string.induct)
  case (1 n)
  then show ?case by (subst to_string.simps) (auto simp: eq_commute [of "CHR '' ''"] decimal_digit_no_space)
qed

lemma unat_lt_256: "unat (c :: byte) < 256"
  using unsigned_less [of c] by simp

lemma byte_text_inj: "byte_text a = byte_text b \<longleftrightarrow> a = b"
proof
  have d: "unat c div 16 < 16" for c :: byte using unat_lt_256 [of c] by simp
  assume "byte_text a = byte_text b"
  then have "unat a div 16 = unat b div 16" "unat a mod 16 = unat b mod 16"
    by (simp_all add: byte_text_def upper_digit_inj d)
  then show "a = b" by (metis div_mod_decomp word_unat_eq_iff)
qed simp

lemma bytes_text_inj:
  "length xs = length ys \<Longrightarrow> concat (map byte_text xs) @ r = concat (map byte_text ys) @ s \<Longrightarrow> xs = ys \<and> r = s"
proof (induction xs ys rule: list_induct2)
  case (Cons x xs y ys)
  then have "byte_text x = byte_text y" "concat (map byte_text xs) @ r = concat (map byte_text ys) @ s"
    by (simp_all add: byte_text_def)
  with Cons.IH show ?case by (simp add: byte_text_inj)
qed simp

lemma dump_rows_inj: "length xs = length ys \<Longrightarrow> dump_rows i xs = dump_rows i ys \<Longrightarrow> xs = ys"
proof (induction i xs arbitrary: ys rule: dump_rows.induct)
  case (2 i b bs)
  then obtain c cs where ys: "ys = c # cs" "length bs = length cs" by (cases ys) auto
  let ?X = "take 16 (b # bs)" and ?Y = "take 16 (c # cs)"
  have l: "length ?X = length ?Y" using ys by simp
  have row: "\<exists>t. dump_row i z = (''    '' @ offset_text i @ ''  '') @ concat (map byte_text z) @ t" for z
    by (simp add: dump_row_def)
  from 2(3) row [of ?X] row [of ?Y] obtain t u where
    "(''    '' @ offset_text i @ ''  '') @ concat (map byte_text ?X) @ t =
     (''    '' @ offset_text i @ ''  '') @ concat (map byte_text ?Y) @ u"
    unfolding ys dump_rows.simps by (metis append_assoc)
  then have X: "?X = ?Y" using bytes_text_inj [OF l] by simp
  then have "dump_rows (i + 16) (drop 16 (b # bs)) = dump_rows (i + 16) (drop 16 (c # cs))"
    using 2(3) unfolding ys dump_rows.simps by simp
  then have "drop 16 (b # bs) = drop 16 (c # cs)" using 2(1) [of "drop 16 (c # cs)"] ys by simp
  with X show ?case unfolding ys by (metis append_take_drop_id)
qed auto

lemma Dump_shows_every_byte: "Dump label xs = Dump label ys \<longleftrightarrow> xs = ys"
proof
  assume "Dump label xs = Dump label ys"
  then have e: "to_string (length xs) @ '' bytes)'' @ [CHR 0x0A] @ dump_rows 0 xs =
      to_string (length ys) @ '' bytes)'' @ [CHR 0x0A] @ dump_rows 0 ys" by (simp add: Dump_def)
  have t: "takeWhile (\<lambda>c. c \<noteq> CHR '' '') (to_string n @ '' bytes)'' @ r) = to_string n" for n r
    using to_string_no_space [of n] by (subst takeWhile_append2) auto
  have "to_string (length xs) = to_string (length ys)" using arg_cong [OF e, of "takeWhile (\<lambda>c. c \<noteq> CHR '' '')"]
    by (simp only: t)
  then have "length xs = length ys" by (rule to_string_inj)
  with e show "xs = ys" by (auto intro: dump_rows_inj)
qed simp

end
