(* ===== verification/Unions.thy ===== *)
theory Unions
  imports Examples
begin

text \<open>
  Unions: the commands of \<^verbatim>\<open>examples/04_union_variant.cpp\<close> with its program, and the shapes that the
  code generator's test expects (\<^verbatim>\<open>tools/cs2cpp.Tests/Expected/Union.hpp\<close>), as instances of
  \<open>variant_codec\<close>. Every check of the example holds on every build (\<open>union_main_ok\<close>); an unknown tag is
  read as the initial value without an error (\<open>unknown_tag_reads_default\<close>).
\<close>

record MoveCommand =
  mvc_x :: u32
  mvc_y :: u32

record ChatCommand =
  chc_text :: bytes

record AdminCommand =
  adc_code :: u32

record CircleShape =
  cir_radius :: u32

record RectShape =
  rec_width :: u32
  rec_height :: u32

record WideShape =
  wid_sides :: u32

definition MoveCommand_members :: "MoveCommand member list" where
  "MoveCommand_members = [member float_formatter mvc_x (\<lambda>x. mvc_x_update (\<lambda>_. x)),
     member float_formatter mvc_y (\<lambda>x. mvc_y_update (\<lambda>_. x))]"

definition ChatCommand_members :: "ChatCommand member list" where
  "ChatCommand_members = [member string_formatter chc_text (\<lambda>x. chc_text_update (\<lambda>_. x))]"

definition AdminCommand_members :: "AdminCommand member list" where
  "AdminCommand_members = [member uint32_formatter adc_code (\<lambda>x. adc_code_update (\<lambda>_. x))]"

definition CircleShape_members :: "CircleShape member list" where
  "CircleShape_members = [member float_formatter cir_radius (\<lambda>x. cir_radius_update (\<lambda>_. x))]"

definition RectShape_members :: "RectShape member list" where
  "RectShape_members = [member float_formatter rec_width (\<lambda>x. rec_width_update (\<lambda>_. x)),
     member float_formatter rec_height (\<lambda>x. rec_height_update (\<lambda>_. x))]"

definition WideShape_members :: "WideShape member list" where
  "WideShape_members = [member uint32_formatter wid_sides (\<lambda>x. wid_sides_update (\<lambda>_. x))]"

definition MoveCommand_init :: MoveCommand where
  "MoveCommand_init = \<lparr>mvc_x = 0, mvc_y = 0\<rparr>"

definition ChatCommand_init :: ChatCommand where
  "ChatCommand_init = \<lparr>chc_text = []\<rparr>"

definition AdminCommand_init :: AdminCommand where
  "AdminCommand_init = \<lparr>adc_code = 0\<rparr>"

definition CircleShape_init :: CircleShape where
  "CircleShape_init = \<lparr>cir_radius = 0\<rparr>"

definition RectShape_init :: RectShape where
  "RectShape_init = \<lparr>rec_width = 0, rec_height = 0\<rparr>"

definition WideShape_init :: WideShape where
  "WideShape_init = \<lparr>wid_sides = 0\<rparr>"

definition MoveCommand_formatter :: "MoveCommand MemoryPackFormatter" where
  "MoveCommand_formatter = MEMORYPACK_DEFINE MoveCommand_init MoveCommand_members"

definition ChatCommand_formatter :: "ChatCommand MemoryPackFormatter" where
  "ChatCommand_formatter = MEMORYPACK_DEFINE ChatCommand_init ChatCommand_members"

definition AdminCommand_formatter :: "AdminCommand MemoryPackFormatter" where
  "AdminCommand_formatter = MEMORYPACK_DEFINE AdminCommand_init AdminCommand_members"

definition CircleShape_formatter :: "CircleShape MemoryPackFormatter" where
  "CircleShape_formatter = MEMORYPACK_DEFINE CircleShape_init CircleShape_members"

definition RectShape_formatter :: "RectShape MemoryPackFormatter" where
  "RectShape_formatter = MEMORYPACK_DEFINE RectShape_init RectShape_members"

definition WideShape_formatter :: "WideShape MemoryPackFormatter" where
  "WideShape_formatter = MEMORYPACK_DEFINE WideShape_init WideShape_members"

section \<open>Layouts\<close>

definition MoveCommand_layout :: "MoveCommand layout" where
  "MoveCommand_layout = zip MoveCommand_members [word_field mvc_x (\<lambda>x. mvc_x_update (\<lambda>_. x)),
     word_field mvc_y (\<lambda>x. mvc_y_update (\<lambda>_. x))]"

definition ChatCommand_layout :: "ChatCommand layout" where
  "ChatCommand_layout = zip ChatCommand_members [string_field chc_text (\<lambda>x. chc_text_update (\<lambda>_. x))]"

definition AdminCommand_layout :: "AdminCommand layout" where
  "AdminCommand_layout = zip AdminCommand_members [word_field adc_code (\<lambda>x. adc_code_update (\<lambda>_. x))]"

definition CircleShape_layout :: "CircleShape layout" where
  "CircleShape_layout = zip CircleShape_members [word_field cir_radius (\<lambda>x. cir_radius_update (\<lambda>_. x))]"

definition RectShape_layout :: "RectShape layout" where
  "RectShape_layout = zip RectShape_members [word_field rec_width (\<lambda>x. rec_width_update (\<lambda>_. x)),
     word_field rec_height (\<lambda>x. rec_height_update (\<lambda>_. x))]"

definition WideShape_layout :: "WideShape layout" where
  "WideShape_layout = zip WideShape_members [word_field wid_sides (\<lambda>x. wid_sides_update (\<lambda>_. x))]"

lemmas union_layouts =
  MoveCommand_layout_def MoveCommand_members_def
  ChatCommand_layout_def ChatCommand_members_def
  AdminCommand_layout_def AdminCommand_members_def
  CircleShape_layout_def CircleShape_members_def
  RectShape_layout_def RectShape_members_def
  WideShape_layout_def WideShape_members_def

lemma union_members [simp]:
  "map fst MoveCommand_layout = MoveCommand_members"
  "map fst ChatCommand_layout = ChatCommand_members"
  "map fst AdminCommand_layout = AdminCommand_members"
  "map fst CircleShape_layout = CircleShape_members"
  "map fst RectShape_layout = RectShape_members"
  "map fst WideShape_layout = WideShape_members"
  by (simp_all add: union_layouts)

interpretation MoveCommand: struct_codec MoveCommand_init MoveCommand_layout
  by (rule struct_codec.intro) (auto simp: union_layouts intro: struct_members)

interpretation ChatCommand: struct_codec ChatCommand_init ChatCommand_layout
  by (rule struct_codec.intro) (auto simp: union_layouts intro: struct_members)

interpretation AdminCommand: struct_codec AdminCommand_init AdminCommand_layout
  by (rule struct_codec.intro) (auto simp: union_layouts intro: struct_members)

interpretation CircleShape: struct_codec CircleShape_init CircleShape_layout
  by (rule struct_codec.intro) (auto simp: union_layouts intro: struct_members)

interpretation RectShape: struct_codec RectShape_init RectShape_layout
  by (rule struct_codec.intro) (auto simp: union_layouts intro: struct_members)

interpretation WideShape: struct_codec WideShape_init WideShape_layout
  by (rule struct_codec.intro) (auto simp: union_layouts intro: struct_members)

lemmas union_formatters =
  MoveCommand_formatter_def
  ChatCommand_formatter_def
  AdminCommand_formatter_def
  CircleShape_formatter_def
  RectShape_formatter_def
  WideShape_formatter_def

section \<open>Alternatives\<close>

context codec
begin

lemma alternative_codecI:
  assumes mk: "\<And>v x. get v = Some x \<Longrightarrow> v = mk x"
    and enc: "\<And>x. enc' (mk x) = enc x" and ok: "\<And>x. ok' (mk x) \<Longrightarrow> ok x"
    and fits: "\<And>x opts d. fits' (mk x) opts d \<Longrightarrow> fits x opts d"
  shows "alternative_codec (alternative tag T mk get) enc' ok' fits'"
proof (rule alternative_codec.intro)
  fix v B assume v: "alt_holds (alternative tag T mk get) v" "ok' v"
  then obtain x where g: "get v = Some x" by (auto simp: alternative_def)
  with mk [OF g] ok [of x] v(2) have x: "get v = Some x" "v = mk x" "ok x" by simp_all
  then show "emits B (alt_write (alternative tag T mk get) B v) (enc' v)"
    using writes [of x B] by (simp add: alternative_def enc)
  have "decodes (fits' v) (bind (Read B T (value_init T)) (\<lambda>x. return (mk x))) (enc x) v"
    by (rule decodes_map [OF decodes_mono [OF reads [OF x(3)]]]) (use fits x(2) in auto)
  then show "decodes (fits' v) (alt_read (alternative tag T mk get) B) (enc' v) v"
    using x(2) by (simp add: alternative_def enc)
qed (simp add: alternative_def reader_intros safe)

end

section \<open>Commands\<close>

datatype Command = MoveAlternative MoveCommand | ChatAlternative ChatCommand | AdminAlternative AdminCommand

definition Command_alternatives :: "Command alternative list" where
  "Command_alternatives =
     [alternative 0 MoveCommand_formatter MoveAlternative (\<lambda>v. case v of MoveAlternative x \<Rightarrow> Some x | _ \<Rightarrow> None),
      alternative 1 ChatCommand_formatter ChatAlternative (\<lambda>v. case v of ChatAlternative x \<Rightarrow> Some x | _ \<Rightarrow> None),
      alternative 300 AdminCommand_formatter AdminAlternative (\<lambda>v. case v of AdminAlternative x \<Rightarrow> Some x | _ \<Rightarrow> None)]"

definition Command_formatter :: "Command MemoryPackFormatter" where
  "Command_formatter = variant_formatter (MoveAlternative MoveCommand_init) Command_alternatives"

fun Command_enc :: "Command \<Rightarrow> bytes" where
  "Command_enc (MoveAlternative x) = struct_enc MoveCommand_layout x"
| "Command_enc (ChatAlternative x) = struct_enc ChatCommand_layout x"
| "Command_enc (AdminAlternative x) = struct_enc AdminCommand_layout x"

fun Command_ok :: "Command \<Rightarrow> bool" where
  "Command_ok (MoveAlternative x) \<longleftrightarrow> members_ok MoveCommand_layout x"
| "Command_ok (ChatAlternative x) \<longleftrightarrow> members_ok ChatCommand_layout x"
| "Command_ok (AdminAlternative x) \<longleftrightarrow> members_ok AdminCommand_layout x"

fun Command_fits :: "Command \<Rightarrow> ReaderOptions \<Rightarrow> nat \<Rightarrow> bool" where
  "Command_fits (MoveAlternative x) opts d \<longleftrightarrow> struct_fits MoveCommand_layout x opts d"
| "Command_fits (ChatAlternative x) opts d \<longleftrightarrow> struct_fits ChatCommand_layout x opts d"
| "Command_fits (AdminAlternative x) opts d \<longleftrightarrow> struct_fits AdminCommand_layout x opts d"

interpretation Admin_alternative: alternative_codec
  "alternative 300 AdminCommand_formatter AdminAlternative (\<lambda>v. case v of AdminAlternative x \<Rightarrow> Some x | _ \<Rightarrow> None)"
  Command_enc Command_ok Command_fits
  unfolding union_formatters
  by (rule AdminCommand.alternative_codecI [unfolded union_members]) (auto split: Command.splits)

interpretation Command: variant_codec "MoveAlternative MoveCommand_init" Command_alternatives Command_enc Command_ok Command_fits
proof (rule variant_codec.intro)
  fix a assume "a \<in> set Command_alternatives"
  moreover have "alternative_codec (alternative 0 MoveCommand_formatter MoveAlternative
      (\<lambda>v. case v of MoveAlternative x \<Rightarrow> Some x | _ \<Rightarrow> None)) Command_enc Command_ok Command_fits"
    unfolding union_formatters
    by (rule MoveCommand.alternative_codecI [unfolded union_members]) (auto split: Command.splits)
  moreover have "alternative_codec (alternative 1 ChatCommand_formatter ChatAlternative
      (\<lambda>v. case v of ChatAlternative x \<Rightarrow> Some x | _ \<Rightarrow> None)) Command_enc Command_ok Command_fits"
    unfolding union_formatters
    by (rule ChatCommand.alternative_codecI [unfolded union_members]) (auto split: Command.splits)
  ultimately show "alternative_codec a Command_enc Command_ok Command_fits"
    using Admin_alternative.alternative_codec_axioms by (auto simp: Command_alternatives_def)
next
  show "distinct (map alt_tag Command_alternatives)" by (simp add: Command_alternatives_def alternative_def)
next
  fix v assume "Command_ok v"
  then show "\<exists>a \<in> set Command_alternatives. alt_holds a v"
    by (cases v) (simp_all add: Command_alternatives_def alternative_def)
qed

section \<open>Shapes\<close>

datatype IShape = CircleAlternative CircleShape | RectAlternative RectShape | WideAlternative WideShape

definition IShape_alternatives :: "IShape alternative list" where
  "IShape_alternatives =
     [alternative 0 CircleShape_formatter CircleAlternative (\<lambda>v. case v of CircleAlternative x \<Rightarrow> Some x | _ \<Rightarrow> None),
      alternative 1 RectShape_formatter RectAlternative (\<lambda>v. case v of RectAlternative x \<Rightarrow> Some x | _ \<Rightarrow> None),
      alternative 300 WideShape_formatter WideAlternative (\<lambda>v. case v of WideAlternative x \<Rightarrow> Some x | _ \<Rightarrow> None)]"

definition IShape_formatter :: "IShape MemoryPackFormatter" where
  "IShape_formatter = variant_formatter (CircleAlternative CircleShape_init) IShape_alternatives"

fun IShape_enc :: "IShape \<Rightarrow> bytes" where
  "IShape_enc (CircleAlternative x) = struct_enc CircleShape_layout x"
| "IShape_enc (RectAlternative x) = struct_enc RectShape_layout x"
| "IShape_enc (WideAlternative x) = struct_enc WideShape_layout x"

fun IShape_ok :: "IShape \<Rightarrow> bool" where
  "IShape_ok (CircleAlternative x) \<longleftrightarrow> members_ok CircleShape_layout x"
| "IShape_ok (RectAlternative x) \<longleftrightarrow> members_ok RectShape_layout x"
| "IShape_ok (WideAlternative x) \<longleftrightarrow> members_ok WideShape_layout x"

fun IShape_fits :: "IShape \<Rightarrow> ReaderOptions \<Rightarrow> nat \<Rightarrow> bool" where
  "IShape_fits (CircleAlternative x) opts d \<longleftrightarrow> struct_fits CircleShape_layout x opts d"
| "IShape_fits (RectAlternative x) opts d \<longleftrightarrow> struct_fits RectShape_layout x opts d"
| "IShape_fits (WideAlternative x) opts d \<longleftrightarrow> struct_fits WideShape_layout x opts d"

interpretation IShape: variant_codec "CircleAlternative CircleShape_init" IShape_alternatives IShape_enc IShape_ok IShape_fits
proof (rule variant_codec.intro)
  fix a assume "a \<in> set IShape_alternatives"
  moreover have "alternative_codec (alternative 0 CircleShape_formatter CircleAlternative
      (\<lambda>v. case v of CircleAlternative x \<Rightarrow> Some x | _ \<Rightarrow> None)) IShape_enc IShape_ok IShape_fits"
    unfolding union_formatters
    by (rule CircleShape.alternative_codecI [unfolded union_members]) (auto split: IShape.splits)
  moreover have "alternative_codec (alternative 1 RectShape_formatter RectAlternative
      (\<lambda>v. case v of RectAlternative x \<Rightarrow> Some x | _ \<Rightarrow> None)) IShape_enc IShape_ok IShape_fits"
    unfolding union_formatters
    by (rule RectShape.alternative_codecI [unfolded union_members]) (auto split: IShape.splits)
  moreover have "alternative_codec (alternative 300 WideShape_formatter WideAlternative
      (\<lambda>v. case v of WideAlternative x \<Rightarrow> Some x | _ \<Rightarrow> None)) IShape_enc IShape_ok IShape_fits"
    unfolding union_formatters
    by (rule WideShape.alternative_codecI [unfolded union_members]) (auto split: IShape.splits)
  ultimately show "alternative_codec a IShape_enc IShape_ok IShape_fits" by (auto simp: IShape_alternatives_def)
next
  show "distinct (map alt_tag IShape_alternatives)" by (simp add: IShape_alternatives_def alternative_def)
next
  fix v assume "IShape_ok v"
  then show "\<exists>a \<in> set IShape_alternatives. alt_holds a v"
    by (cases v) (simp_all add: IShape_alternatives_def alternative_def)
qed

text \<open>A struct with a nullable union.\<close>

record UnionHolder =
  unh_shape :: "IShape option"

definition UnionHolder_members :: "UnionHolder member list" where
  "UnionHolder_members = [member (optional_object IShape_formatter) unh_shape (\<lambda>x. unh_shape_update (\<lambda>_. x))]"

definition UnionHolder_init :: UnionHolder where
  "UnionHolder_init = \<lparr>unh_shape = None\<rparr>"

definition UnionHolder_formatter :: "UnionHolder MemoryPackFormatter" where
  "UnionHolder_formatter = MEMORYPACK_DEFINE UnionHolder_init UnionHolder_members"

abbreviation tagged_shape :: "IShape \<Rightarrow> bytes" where
  "tagged_shape v \<equiv> enc_union_tag (variant_tag IShape_alternatives v) @ IShape_enc v"

definition UnionHolder_layout :: "UnionHolder layout" where
  "UnionHolder_layout = zip UnionHolder_members
     [field (opt_enc [255] tagged_shape) (opt_ok IShape_ok) (opt_fits IShape_fits) unh_shape (\<lambda>x. unh_shape_update (\<lambda>_. x))]"

interpretation shape_member: member_codec
  "member (optional_object IShape_formatter) unh_shape (\<lambda>x. unh_shape_update (\<lambda>_. x))"
  "field (opt_enc [255] tagged_shape) (opt_ok IShape_ok) (opt_fits IShape_fits) unh_shape (\<lambda>x. unh_shape_update (\<lambda>_. x))"
  unfolding IShape_formatter_def by (rule codec.member_field [OF IShape.union.optional_codec])

interpretation UnionHolder: struct_codec UnionHolder_init UnionHolder_layout
  by (rule struct_codec.intro)
    (auto simp: UnionHolder_layout_def UnionHolder_members_def intro: shape_member.member_codec_axioms)

section \<open>Tags\<close>

lemma variant_tags [simp]:
  "variant_tag Command_alternatives (MoveAlternative x) = 0" "variant_tag Command_alternatives (ChatAlternative y) = 1"
  "variant_tag Command_alternatives (AdminAlternative z) = 300"
  by (simp_all add: Command_alternatives_def alternative_def)

text \<open>A tag below 250 costs one byte, a larger one three.\<close>

lemma tag_cost: "length (enc_union_tag t) = (if t < 250 then 1 else 3)"
  by (simp add: enc_union_tag_def)

section \<open>Tuples\<close>

text \<open>\<^verbatim>\<open>std::tuple<int32_t, std::string, double>\<close> as nested pairs.\<close>

type_synonym tuple3 = "u32 \<times> bytes \<times> u64"

definition tuple3_layout :: "tuple3 layout" where
  "tuple3_layout =
     [(member uint32_formatter fst (\<lambda>x t. (x, snd t)), word_field fst (\<lambda>x t. (x, snd t))),
      (member string_formatter (fst \<circ> snd) (\<lambda>x t. (fst t, x, snd (snd t))), string_field (fst \<circ> snd) (\<lambda>x t. (fst t, x, snd (snd t)))),
      (member double_formatter (snd \<circ> snd) (\<lambda>x t. (fst t, fst (snd t), x)), word_field (snd \<circ> snd) (\<lambda>x t. (fst t, fst (snd t), x)))]"

interpretation tuple3: tuple_codec "(0, [], 0) :: tuple3" tuple3_layout
  by (intro tuple_codec.intro struct_codec.intro) (auto simp: tuple3_layout_def intro: struct_members)

section \<open>The example program\<close>

text \<open>The state is the flag \<^verbatim>\<open>g_ok\<close>; the text output of \<^verbatim>\<open>Handle\<close> is not modelled.\<close>

fun command_index :: "Command \<Rightarrow> nat" where
  "command_index (MoveAlternative _) = 0"
| "command_index (ChatAlternative _) = 1"
| "command_index (AdminAlternative _) = 2"

text \<open>\<open>3.5f\<close> and \<open>-1.25f\<close> as bit patterns.\<close>

definition outgoing :: "Command list" where
  "outgoing = [MoveAlternative \<lparr>mvc_x = 0x40600000, mvc_y = 0xBFA00000\<rparr>,
     ChatAlternative \<lparr>chc_text = bytes_of_string ''hello union''\<rparr>, AdminAlternative \<lparr>adc_code = 42\<rparr>]"

primrec receive_all :: "build \<Rightarrow> Command list \<Rightarrow> (bool, unit) op" where
  "receive_all B [] = return ()"
| "receive_all B (command # cs) =
     bind (sent_back B Command_formatter command) (\<lambda>r.
     seq (Check (command_index r = command_index command)) (receive_all B cs))"

definition union_main :: "build \<Rightarrow> (bool, int) op" where
  "union_main B =
     seq (Show B Command_formatter (MoveAlternative \<lparr>mvc_x = 0x3F800000, mvc_y = 0x40000000\<rparr>))
    (seq (Show B Command_formatter (ChatAlternative \<lparr>chc_text = bytes_of_string ''gg''\<rparr>))
    (seq (Show B Command_formatter (AdminAlternative \<lparr>adc_code = 7\<rparr>))
    (seq (Show B Command_formatter (MoveAlternative MoveCommand_init))
    (seq (Show B MoveCommand_formatter MoveCommand_init)
    (seq (Show B Command_formatter (AdminAlternative AdminCommand_init))
    (seq (Show B AdminCommand_formatter AdminCommand_init)
    (seq (Show B (optional_object Command_formatter) (Some (ChatAlternative \<lparr>chc_text = bytes_of_string ''hi''\<rparr>)))
    (seq (Show B (optional_object Command_formatter) None)
    (seq (receive_all B outgoing)
    (bind (sent_back B Command_formatter (outgoing ! 0)) (\<lambda>c.
     seq (Check (case c of MoveAlternative m \<Rightarrow> mvc_x m = 0x40600000 | _ \<Rightarrow> False))
    (bind (sent_back B Command_formatter (outgoing ! 1)) (\<lambda>c.
     seq (Check (case c of ChatAlternative m \<Rightarrow> chc_text m = bytes_of_string ''hello union'' | _ \<Rightarrow> False))
    (bind (sent_back B Command_formatter (outgoing ! 2)) (\<lambda>c.
     seq (Check (case c of AdminAlternative m \<Rightarrow> adc_code m = 42 | _ \<Rightarrow> False))
    (bind (sent_back B (optional_object Command_formatter) None) (\<lambda>nullBack.
     seq (Check (nullBack = None))
    (bind (sent_back B (optional_object Command_formatter) (Some (AdminAlternative \<lparr>adc_code = 9\<rparr>))) (\<lambda>someBack.
     seq (Check (case someBack of Some (AdminAlternative _) \<Rightarrow> True | _ \<Rightarrow> False))
         exit_code)))))))))))))))))))"

text \<open>The calls of the library return.\<close>

interpretation Command_message: message_codec Command_formatter
  "\<lambda>v. enc_union_tag (variant_tag Command_alternatives v) @ Command_enc v" Command_ok Command_fits
  unfolding Command_formatter_def by (rule Command.message_codec_axioms)

interpretation optional_command: codec "optional_object Command_formatter"
  "opt_enc [255] (\<lambda>v. enc_union_tag (variant_tag Command_alternatives v) @ Command_enc v)" "opt_ok Command_ok" "opt_fits Command_fits"
  unfolding Command_formatter_def by (rule Command.union.optional_codec)

text \<open>A short command: what the example sends.\<close>

definition short_command :: "Command \<Rightarrow> bool" where
  "short_command v = (case v of ChatAlternative m \<Rightarrow> length (chc_text m) < 100 | _ \<Rightarrow> True)"

lemma short_command_ok:
  assumes "short_command v"
  shows "Command_ok v" "Command_fits v default_options 0"
    "length (enc_union_tag (variant_tag Command_alternatives v) @ Command_enc v) \<le> 2 ^ 62"
  using assms length_enc_string_le [of "case v of ChatAlternative m \<Rightarrow> chc_text m | _ \<Rightarrow> []"]
  by (cases v; simp add: short_command_def union_layouts struct_enc_def struct_fits_def string_ok_def string_fits_def
      default_options_def enc_union_tag_def)+

lemmas show_command = Command_message.Show_message [OF short_command_ok(1,3)]
lemmas received_command = Command_message.received_message [OF short_command_ok]

lemma optional_short:
  "pred_option short_command v \<Longrightarrow> opt_ok Command_ok v \<and> opt_fits Command_fits v default_options 0 \<and>
     length (opt_enc [255] (\<lambda>v. enc_union_tag (variant_tag Command_alternatives v) @ Command_enc v) v) \<le> 2 ^ 62"
  using short_command_ok by (cases v) (simp_all add: opt_enc_def)

lemma optional_shown: "pred_option short_command v \<Longrightarrow> seq (Show B (optional_object Command_formatter) v) k = k"
  using optional_short [of v] by (intro optional_command.Show_message) auto

lemma optional_received: "pred_option short_command v \<Longrightarrow> bind (sent_back B (optional_object Command_formatter) v) f = f v"
  using optional_short [of v] by (intro optional_command.received_message) auto

lemma part_shown:
  "seq (Show B MoveCommand_formatter MoveCommand_init) k = k" "seq (Show B AdminCommand_formatter AdminCommand_init) k = k"
  unfolding union_formatters
  by (rule MoveCommand.Show_message [unfolded union_members] AdminCommand.Show_message [unfolded union_members];
      simp add: union_layouts struct_enc_def)+

lemma receive_all_ok: "list_all short_command cs \<Longrightarrow> seq (receive_all B cs) k = k"
  by (induction cs) (simp_all add: received_command seq_def bind_assoc fun_eq_iff Check_def)

text \<open>Every check of the example holds, on every build.\<close>

lemma union_main_ok: "union_main B True = (Ret 0, True)"
proof -
  have s: "list_all short_command outgoing"
    by (simp add: outgoing_def short_command_def bytes_of_string_def)
  have o: "outgoing ! 0 = MoveAlternative \<lparr>mvc_x = 0x40600000, mvc_y = 0xBFA00000\<rparr>"
    "outgoing ! 1 = ChatAlternative \<lparr>chc_text = bytes_of_string ''hello union''\<rparr>"
    "outgoing ! 2 = AdminAlternative \<lparr>adc_code = 42\<rparr>" by (simp_all add: outgoing_def)
  show ?thesis unfolding union_main_def o receive_all_ok [OF s]
    by (simp add: show_command received_command optional_shown optional_received part_shown
        short_command_def bytes_of_string_def)
qed

section \<open>Unknown tags\<close>

text \<open>A tag that no alternative has: the rest of the input is discarded, the variant keeps its initial
  value and no error is reported, not even by \<^verbatim>\<open>DeserializeExact\<close>.\<close>

lemma ReadUnionAlternative_unknown:
  "t \<notin> alt_tag ` set alts \<Longrightarrow> ReadUnionAlternative B alts v t = return (v, False)"
  by (induction alts) auto

lemma Advance_all:
  assumes "reader_inv r" "r_error r = ErrorNone"
  shows "bind (gets Remaining) (\<lambda>n. seq (Advance B n) (return v)) r = (Ret v, r\<lparr>r_pos := r_size r\<rparr>)"
proof -
  have p: "r_pos r + Remaining r = length (r_data r)" "r_size r = length (r_data r)"
    using assms(1) Remaining_eq [OF assms(1)] by (simp_all add: reader_inv_def)
  have "length (r_data r) < 2 ^ 64" using assms(1) by (simp add: reader_inv_def)
  with p show ?thesis using EnsureBytes_ok [OF assms, of "Remaining r" B]
    by (simp add: size_add_def Advance_def take_bytes_def seq_def)
qed

lemma unknown_tag_reads_default:
  assumes "t \<notin> {0, 1, 300}" "length bs < 2 ^ 62"
  shows "TryDeserialize B Command_formatter (enc_union_tag t @ bs) = Ret (Inr (MoveAlternative MoveCommand_init))"
    "DeserializeExact B Command_formatter (enc_union_tag t @ bs) = Ret (MoveAlternative MoveCommand_init)"
proof -
  let ?r = "make_reader (enc_union_tag t @ bs)"
  have n: "length (enc_union_tag t) \<le> 3" by (simp add: tag_cost)
  have inv: "reader_inv ?r" using assms(2) n by (simp add: make_reader_def)
  have h: "ReadUnionHeader B ?r = (Ret (Some t), ?r\<lparr>r_pos := length (enc_union_tag t)\<rparr>)"
    using decodesD [OF decodes_ReadUnionHeader [of "\<lambda>_ _. True"] inv, of t bs B] by (simp add: make_reader_def)
  let ?s = "?r\<lparr>r_pos := length (enc_union_tag t)\<rparr>"
  have i: "reader_inv ?s" "r_error ?s = ErrorNone" using inv by (simp_all add: reader_inv_def make_reader_def)
  have v: "value_init Command_formatter = MoveAlternative MoveCommand_init"
    by (simp add: Command_formatter_def variant_formatter_def class_formatter_def)
  have "ReadUnionAlternative B Command_alternatives (MoveAlternative MoveCommand_init) t = return (MoveAlternative MoveCommand_init, False)"
    using assms(1) by (intro ReadUnionAlternative_unknown) (auto simp: Command_alternatives_def alternative_def)
  then have "Read B Command_formatter (MoveAlternative MoveCommand_init) ?r = (Ret (MoveAlternative MoveCommand_init), ?s\<lparr>r_pos := r_size ?s\<rparr>)"
    using h Advance_all [OF i, of B "MoveAlternative MoveCommand_init"]
    by (simp add: Command_formatter_def variant_formatter_def)
  then show "TryDeserialize B Command_formatter (enc_union_tag t @ bs) = Ret (Inr (MoveAlternative MoveCommand_init))"
    "DeserializeExact B Command_formatter (enc_union_tag t @ bs) = Ret (MoveAlternative MoveCommand_init)"
    using inv by (simp_all add: v IsEnd_def TryDeserialize_def DeserializeExact_def Failed_def RequireEnd_def make_reader_def)
qed

end
