(* ===== verification/Versions.thy ===== *)
theory Versions
  imports Examples
begin

text \<open>
  Evolving a schema (\<^verbatim>\<open>examples/09_version_tolerance.cpp\<close>): one logical type at two versions in the default
  layout, and an object in the VersionTolerant layout. A newer reader of old bytes keeps its default for the
  missing member (\<open>V2_reads_V1\<close>), an older reader of new bytes stops exactly in front of the member it does not
  know (\<open>V1_reads_V2\<close>), and every check of the program holds on every build (\<open>version_main_ok\<close>).
\<close>

record PlayerV1 =
  pv1_id :: u32
  pv1_name :: bytes

record PlayerV2 =
  pv2_id :: u32
  pv2_name :: bytes
  pv2_score :: u32

definition PlayerV1_members :: "PlayerV1 member list" where
  "PlayerV1_members = [member uint32_formatter pv1_id (\<lambda>x. pv1_id_update (\<lambda>_. x)),
     member string_formatter pv1_name (\<lambda>x. pv1_name_update (\<lambda>_. x))]"

definition PlayerV2_members :: "PlayerV2 member list" where
  "PlayerV2_members = [member uint32_formatter pv2_id (\<lambda>x. pv2_id_update (\<lambda>_. x)),
     member string_formatter pv2_name (\<lambda>x. pv2_name_update (\<lambda>_. x)),
     member float_formatter pv2_score (\<lambda>x. pv2_score_update (\<lambda>_. x))]"

definition PlayerV1_init :: PlayerV1 where
  "PlayerV1_init = \<lparr>pv1_id = 0, pv1_name = []\<rparr>"

definition PlayerV2_init :: PlayerV2 where
  "PlayerV2_init = \<lparr>pv2_id = 0, pv2_name = [], pv2_score = 0xBF800000\<rparr>"

definition PlayerV1_formatter :: "PlayerV1 MemoryPackFormatter" where
  "PlayerV1_formatter = MEMORYPACK_DEFINE PlayerV1_init PlayerV1_members"

definition PlayerV2_formatter :: "PlayerV2 MemoryPackFormatter" where
  "PlayerV2_formatter = MEMORYPACK_DEFINE PlayerV2_init PlayerV2_members"

section \<open>Layouts\<close>

definition PlayerV1_layout :: "PlayerV1 layout" where
  "PlayerV1_layout = zip PlayerV1_members [word_field pv1_id (\<lambda>x. pv1_id_update (\<lambda>_. x)),
     string_field pv1_name (\<lambda>x. pv1_name_update (\<lambda>_. x))]"

definition PlayerV2_layout :: "PlayerV2 layout" where
  "PlayerV2_layout = zip PlayerV2_members [word_field pv2_id (\<lambda>x. pv2_id_update (\<lambda>_. x)),
     string_field pv2_name (\<lambda>x. pv2_name_update (\<lambda>_. x)),
     word_field pv2_score (\<lambda>x. pv2_score_update (\<lambda>_. x))]"

lemmas player_layouts =
  PlayerV1_layout_def PlayerV1_members_def
  PlayerV2_layout_def PlayerV2_members_def

lemma player_members [simp]:
  "map fst PlayerV1_layout = PlayerV1_members"
  "map fst PlayerV2_layout = PlayerV2_members"
  by (simp_all add: player_layouts)

interpretation PlayerV1: struct_codec PlayerV1_init PlayerV1_layout
  by (rule struct_codec.intro) (auto simp: player_layouts intro: struct_members)

interpretation PlayerV2: struct_codec PlayerV2_init PlayerV2_layout
  by (rule struct_codec.intro) (auto simp: player_layouts intro: struct_members)

lemmas player_formatters =
  PlayerV1_formatter_def
  PlayerV2_formatter_def

section \<open>The program\<close>

text \<open>The destructor or constructor of a local object that may throw.\<close>

definition constructed :: "unit outcome \<times> 't \<Rightarrow> ('s, 't) op" where
  "constructed p = (case p of (res, t) \<Rightarrow> bind (lift res) (\<lambda>_. return t))"

definition version_A1 :: "build \<Rightarrow> (bool, unit) op" where
  "version_A1 B =
     bind (lift (Serialize B PlayerV1_formatter \<lparr>pv1_id = 7, pv1_name = bytes_of_string ''old''\<rparr>)) (\<lambda>v1Bytes.
     bind (lift (Deserialize B PlayerV2_formatter v1Bytes)) (\<lambda>asV2.
       seq (Check (pv2_id asV2 = 7))
      (seq (Check (pv2_name asV2 = bytes_of_string ''old''))
           (Check (float_eq (pv2_score asV2) 0xBF800000)))))"

definition version_A2 :: "build \<Rightarrow> bytes \<Rightarrow> (bool, unit) op" where
  "version_A2 B v2Bytes =
     bind (lift (Deserialize B PlayerV1_formatter v2Bytes)) (\<lambda>asV1.
       seq (Check (pv1_id asV1 = 9)) (Check (pv1_name asV1 = bytes_of_string ''new'')))"

text \<open>\<open>std::vector<uint8_t> stream = bytes; MemoryPackWriter tail(stream); tail.WriteInt32(0x5A5A5A5A);\<close>\<close>

definition with_sentinel :: "build \<Rightarrow> bytes \<Rightarrow> (bool, bytes) op" where
  "with_sentinel B stream =
     bind (with_local (WriteInt32 B 0x5A5A5A5A) (writer_vector stream)) (\<lambda>(_, tail). return (Data tail))"

definition version_A3 :: "build \<Rightarrow> bytes \<Rightarrow> (bool, unit) op" where
  "version_A3 B v2Bytes =
     bind (with_sentinel B v2Bytes) (\<lambda>stream.
     bind (with_local (Read_value B PlayerV1_formatter) (make_reader stream)) (\<lambda>(asV1, reader).
     bind (with_local (ReadInt32 B) reader) (\<lambda>(sentinel, reader).
       Check (sentinel \<noteq> 0x5A5A5A5A))))"

definition version_B1 :: "build \<Rightarrow> (bool, bytes) op" where
  "version_B1 B =
     bind (with_local
       (seq (WriteMember B uint32_formatter 77)
       (seq (WriteMember B string_formatter (bytes_of_string ''legacy-mode''))
            (WriteMember B float_formatter 0x3F000000))) (make_vt_writer writer_default)) (\<lambda>(_, vt).
     bind (constructed (vt_destroy B vt)) (\<lambda>writer. return (GetSpan writer)))"

definition version_B2 :: "build \<Rightarrow> bytes \<Rightarrow> (bool, unit) op" where
  "version_B2 B vtBytes =
     bind (constructed (make_vt_reader B (make_reader vtBytes))) (\<lambda>vt.
       seq (Check (\<not> vr_isNull vt))
      (seq (Check (vr_count vt = 3))
      (bind (with_local (ReadMember B uint32_formatter 0) vt) (\<lambda>((id, read0), vt). seq (Check read0)
      (bind (with_local (SkipMember B) vt) (\<lambda>(skipped, vt). seq (Check skipped)
      (bind (with_local (ReadMember B float_formatter 0) vt) (\<lambda>((score, read2), vt). seq (Check read2)
      (bind (with_local (vr_Finish B) vt) (\<lambda>(_, vt).
        seq (Check (id = 77)) (Check (float_eq score 0x3F000000))))))))))))"

definition version_B3 :: "build \<Rightarrow> bytes \<Rightarrow> (bool, unit) op" where
  "version_B3 B vtBytes =
     bind (with_sentinel B vtBytes) (\<lambda>stream.
     bind (constructed (make_vt_reader B (make_reader stream))) (\<lambda>vt.
     bind (with_local (ReadMember B uint32_formatter 0) vt) (\<lambda>((id, _), vt).
     bind (with_local (vr_Finish B) vt) (\<lambda>(_, vt).
     bind (with_local (ReadInt32 B) (vr_in vt)) (\<lambda>(sentinel, reader).
       seq (Check (sentinel = 0x5A5A5A5A)) (Check (id = 77)))))))"

text \<open>The two sizes that are printed at the end, and their difference.\<close>

definition version_cost :: "build \<Rightarrow> bytes \<Rightarrow> (bool, size_t \<times> size_t \<times> size_t) op" where
  "version_cost B vtBytes =
     bind (lift (Serialize B PlayerV2_formatter
       \<lparr>pv2_id = 77, pv2_name = bytes_of_string ''legacy-mode'', pv2_score = 0x3F000000\<rparr>)) (\<lambda>bytes.
       return (length bytes, length vtBytes, size_sub (length vtBytes) (length bytes)))"

definition version_main :: "build \<Rightarrow> (bool, int) op" where
  "version_main B =
     seq (version_A1 B)
    (bind (lift (Serialize B PlayerV2_formatter
       \<lparr>pv2_id = 9, pv2_name = bytes_of_string ''new'', pv2_score = 0x41480000\<rparr>)) (\<lambda>v2Bytes.
     seq (version_A2 B v2Bytes)
    (seq (version_A3 B v2Bytes)
    (bind (version_B1 B) (\<lambda>vtBytes.
     seq (version_B2 B vtBytes)
    (seq (version_B3 B vtBytes)
    (seq (version_cost B vtBytes)
         exit_code)))))))"

section \<open>The two versions of a struct\<close>

lemma V2_reads_V1:
  assumes "members_ok PlayerV1_layout p"
  shows "decodes (struct_fits PlayerV1_layout p) (Read B PlayerV2_formatter PlayerV2_init) (struct_enc PlayerV1_layout p)
    \<lparr>pv2_id = pv1_id p, pv2_name = pv1_name p, pv2_score = 0xBF800000\<rparr>"
proof -
  let ?q = "\<lparr>pv2_id = pv1_id p, pv2_name = pv1_name p, pv2_score = 0\<rparr>"
  have "decodes (struct_fits PlayerV1_layout p) (IMemoryPackable_Deserialize B PlayerV2_init (map fst PlayerV2_layout) PlayerV2_init)
      (word_of_nat 2 # members_enc (take 2 PlayerV2_layout) ?q) (copy_members (take 2 PlayerV2_layout) ?q PlayerV2_init)"
    by (rule PlayerV2.decodes_struct) (use assms in \<open>simp_all add: player_layouts struct_fits_def\<close>)
  then show ?thesis
    by (simp add: Read_def player_formatters MEMORYPACK_DEFINE_def player_layouts struct_enc_def PlayerV2_init_def)
qed

text \<open>What the older reader consumes of the bytes of the newer type.\<close>

definition known_part :: "PlayerV2 \<Rightarrow> bytes" where
  "known_part q = 3 # le_bytes (pv2_id q) @ enc_string (pv2_name q)"

lemma V2_bytes: "struct_enc PlayerV2_layout q = known_part q @ le_bytes (pv2_score q)"
  by (simp add: struct_enc_def player_layouts known_part_def)

lemma V1_reads_V2:
  assumes "members_ok PlayerV2_layout q"
  shows "decodes (struct_fits PlayerV2_layout q) (Read B PlayerV1_formatter v0) (known_part q)
    \<lparr>pv1_id = pv2_id q, pv1_name = pv2_name q\<rparr>"
proof -
  let ?p = "\<lparr>pv1_id = pv2_id q, pv1_name = pv2_name q\<rparr>"
  have "decodes (struct_fits PlayerV2_layout q) (IMemoryPackable_Deserialize B PlayerV1_init (map fst PlayerV1_layout) v0)
      (word_of_nat 3 # members_enc (take 3 PlayerV1_layout) ?p) (copy_members (take 3 PlayerV1_layout) ?p v0)"
    by (rule PlayerV1.decodes_struct) (use assms in \<open>simp_all add: player_layouts struct_fits_def\<close>)
  moreover have "word_of_nat 3 # members_enc (take 3 PlayerV1_layout) ?p = known_part q"
    "copy_members (take 3 PlayerV1_layout) ?p v0 = ?p"
    by (cases v0, simp_all add: player_layouts known_part_def)
  ultimately show ?thesis by (simp add: Read_def player_formatters MEMORYPACK_DEFINE_def)
qed

text \<open>A short name: what the example sends.\<close>

lemma short_V1:
  assumes "length (pv1_name p) < 100"
  shows "members_ok PlayerV1_layout p" "struct_fits PlayerV1_layout p default_options 0"
    "length (struct_enc PlayerV1_layout p) \<le> 1000"
  using assms length_enc_string_le [of "pv1_name p"]
  by (simp_all add: player_layouts struct_enc_def struct_fits_def string_ok_def string_fits_def default_options_def)

lemma short_V2:
  assumes "length (pv2_name q) < 100"
  shows "members_ok PlayerV2_layout q" "struct_fits PlayerV2_layout q default_options 0"
    "length (struct_enc PlayerV2_layout q) \<le> 1000"
  using assms length_enc_string_le [of "pv2_name q"]
  by (simp_all add: player_layouts struct_enc_def struct_fits_def string_ok_def string_fits_def default_options_def)

lemma Serialize_V1: "length (pv1_name p) < 100 \<Longrightarrow> Serialize B PlayerV1_formatter p = Ret (struct_enc PlayerV1_layout p)"
  using PlayerV1.Serialize_message [unfolded player_members, of p B] short_V1 [of p]
  by (simp add: player_formatters)

lemma Serialize_V2: "length (pv2_name q) < 100 \<Longrightarrow> Serialize B PlayerV2_formatter q = Ret (struct_enc PlayerV2_layout q)"
  using PlayerV2.Serialize_message [unfolded player_members, of q B] short_V2 [of q]
  by (simp add: player_formatters)

section \<open>The checks hold\<close>

lemma V2_start [simp]: "value_init PlayerV2_formatter = PlayerV2_init"
  by (simp add: player_formatters MEMORYPACK_DEFINE_def)

lemma version_A1_passes: "passes (version_A1 B)"
proof -
  let ?p = "\<lparr>pv1_id = 7, pv1_name = bytes_of_string ''old''\<rparr>"
  have s: "length (pv1_name ?p) < 100" by simp
  have "Deserialize B PlayerV2_formatter (struct_enc PlayerV1_layout ?p @ []) =
      Ret \<lparr>pv2_id = 7, pv2_name = bytes_of_string ''old'', pv2_score = 0xBF800000\<rparr>"
    using V2_reads_V1 [OF short_V1(1) [OF s], of B] short_V1(2,3) [OF s]
    by (intro Deserialize_decodes [where F = "struct_fits PlayerV1_layout ?p"]) simp_all
  then show ?thesis unfolding version_A1_def Serialize_V1 [OF s]
    by (auto simp: float_eq_def float_nan_def intro!: passing)
qed

lemma version_A2_passes:
  assumes "pv2_id q = 9" "pv2_name q = bytes_of_string ''new''"
  shows "passes (version_A2 B (struct_enc PlayerV2_layout q))"
proof -
  have s: "length (pv2_name q) < 100" using assms by simp
  have "Deserialize B PlayerV1_formatter (known_part q @ le_bytes (pv2_score q)) = Ret \<lparr>pv1_id = pv2_id q, pv1_name = pv2_name q\<rparr>"
    using Deserialize_decodes [OF V1_reads_V2 [OF short_V2(1) [OF s]] short_V2(2) [OF s]] short_V2(3) [OF s]
    by (simp add: V2_bytes)
  then show ?thesis unfolding version_A2_def V2_bytes using assms by (auto intro!: passing)
qed

lemma with_sentinel_appends: "with_sentinel B stream = return (stream @ le_bytes (0x5A5A5A5A :: u32))"
proof -
  obtain w where "WriteInt32 B 0x5A5A5A5A (writer_vector stream) = (Ret (), w)"
    "Data w = stream @ le_bytes (0x5A5A5A5A :: u32)"
    using writes_vector [of B "WriteInt32 B 0x5A5A5A5A"] emits_WriteRaw [of B "0x5A5A5A5A :: u32"]
    by (metis WriteInt32_def)
  then show ?thesis by (simp add: with_sentinel_def return_def)
qed

text \<open>After the older reader has read a newer object, the next value it reads is the member it does not know.\<close>

lemma V1_desyncs:
  assumes "length (pv2_name q) < 100"
  shows "version_A3 B (struct_enc PlayerV2_layout q) = Check (pv2_score q \<noteq> 0x5A5A5A5A)"
proof -
  let ?t = "le_bytes (0x5A5A5A5A :: u32)" and ?k = "known_part q" and ?s = "le_bytes (pv2_score q)"
  have l: "length ?k \<le> 1000" using short_V2(3) [OF assms] by (simp add: V2_bytes)
  have r: "Read_value B PlayerV1_formatter (make_reader (?k @ ?s @ ?t)) =
      (Ret \<lparr>pv1_id = pv2_id q, pv1_name = pv2_name q\<rparr>, make_reader (?k @ ?s @ ?t)\<lparr>r_pos := length ?k\<rparr>)"
    using Read_start [OF V1_reads_V2 [OF short_V2(1) [OF assms]] short_V2(2) [OF assms], of "?s @ ?t" B] l
    by (simp add: Read_value_def make_reader_def)
  have "ReadInt32 B (make_reader (?k @ ?s @ ?t)\<lparr>r_pos := length ?k\<rparr>) =
      (Ret (pv2_score q), make_reader (?k @ ?s @ ?t)\<lparr>r_pos := length ?k + 4\<rparr>)"
    using Read_from [OF decodes_ReadRaw [of any_limits B "pv2_score q"], where opts = default_options and p = "length ?k"
        and rest = ?t and data = "?k @ ?s @ ?t"] l
    by (simp add: ReadInt32_def make_reader_def)
  with r show ?thesis by (simp add: version_A3_def with_sentinel_appends V2_bytes)
qed

section \<open>The VersionTolerant object\<close>

definition vt_members :: "bytes list" where
  "vt_members = [le_bytes (77 :: u32), enc_string (bytes_of_string ''legacy-mode''), le_bytes (0x3F000000 :: u32)]"

lemma vt_members_short:
  "length vt_members = 3" "\<forall>bs \<in> set vt_members. length bs < 100" "length (concat vt_members) < 100"
  "length (vt_enc vt_members) < 200"
  using length_enc_string_le [of "bytes_of_string ''legacy-mode''"]
  by (simp_all add: vt_members_def vt_enc_def enc_varint_def)

lemma version_B1_bytes: "version_B1 B = return (vt_enc vt_members)"
proof -
  let ?w = "make_vt_writer writer_default" and ?n = "bytes_of_string ''legacy-mode''"
  have "emits B (Write B uint32_formatter 77) (le_bytes (77 :: u32))"
    "emits B (Write B string_formatter ?n) (enc_string ?n)"
    "emits B (Write B float_formatter 0x3F000000) (le_bytes (0x3F000000 :: u32))"
    using uint32_codec.writes string_codec.writes [of ?n] float_codec.writes by (simp_all add: string_ok_def)
  note m = this
  obtain s1 where s1: "WriteMember B uint32_formatter 77 ?w = (Ret (), s1)" "vt_buffered [le_bytes (77 :: u32)] s1" "vw_out s1 = writer_default"
    using WriteMember_buffers [OF m(1) vt_buffered_start] by (auto simp: make_vt_writer_def)
  obtain s2 where s2: "WriteMember B string_formatter ?n s1 = (Ret (), s2)" "vt_buffered [le_bytes (77 :: u32), enc_string ?n] s2" "vw_out s2 = writer_default"
    using WriteMember_buffers [OF m(2) s1(2)] s1(3) vt_members_short(3) by (auto simp: vt_members_def)
  obtain s3 where s3: "WriteMember B float_formatter 0x3F000000 s2 = (Ret (), s3)" "vt_buffered vt_members s3" "vw_out s3 = writer_default"
    using WriteMember_buffers [OF m(3) s2(2)] s2(3) vt_members_short(3) by (auto simp: vt_members_def)
  obtain s4 where s4: "vt_Finish B s3 = (Ret (), s4)" "appended writer_default (vt_enc vt_members) (Ret (), vw_out s4)"
    using vt_Finish_writes [OF s3(2), of B] s3(3) vt_members_short by auto
  then have "GetSpan (vw_out s4) = vt_enc vt_members" by (auto elim: appendedE)
  with s1(1) s2(1) s3(1) s4(1) show ?thesis
    by (simp add: version_B1_def vt_destroy_def constructed_def return_def)
qed

text \<open>Reading a member of the object through the constructed reader.\<close>

lemma vt_start:
  assumes "length rest < 100"
  obtains s P where "make_vt_reader B (make_reader (vt_enc vt_members @ rest)) = (Ret (), s)"
    "vt_at (make_reader (vt_enc vt_members @ rest)) P vt_members 0 s" "P + length (concat vt_members) = length (vt_enc vt_members)"
    "\<not> vr_isNull s" "vr_count s = 3"
proof -
  let ?r = "make_reader (vt_enc vt_members @ rest)"
  have "reader_inv ?r" using vt_members_short(4) assms by (simp add: make_reader_def)
  then obtain s P where "make_vt_reader B ?r = (Ret (), s)" "vt_at ?r P vt_members 0 s"
    "P + length (concat vt_members) = length (vt_enc vt_members)"
    using make_vt_reader_at [of ?r vt_members rest B] vt_members_short by (force simp: make_reader_def)
  then show thesis using that [of s P] by (simp add: vt_at_def vt_members_short)
qed

lemma version_B2_passes: "passes (version_B2 B (vt_enc vt_members))"
proof -
  let ?r = "make_reader (vt_enc vt_members)"
  obtain s P where s: "make_vt_reader B ?r = (Ret (), s)" "vt_at ?r P vt_members 0 s" "\<not> vr_isNull s" "vr_count s = 3"
    by (rule vt_start [where rest = "[]" and B = B, simplified])
  obtain s1 where s1: "ReadMember B uint32_formatter 0 s = (Ret (77, True), s1)" "vt_at ?r P vt_members 1 s1"
    using ReadMember_at [OF s(2) _ uint32_codec.reads, of 77 "[]"] by (auto simp: vt_members_def)
  obtain s2 where s2: "SkipMember B s1 = (Ret True, s2)" "vt_at ?r P vt_members 2 s2"
    using SkipMember_at [OF s1(2), of B] by (auto simp: vt_members_def numeral_2_eq_2)
  obtain s3 where s3: "ReadMember B float_formatter 0 s2 = (Ret (0x3F000000, True), s3)" "vt_at ?r P vt_members 3 s3"
    using ReadMember_at [OF s2(2) _ float_codec.reads, of "0x3F000000" "[]"] by (auto simp: vt_members_def numeral_3_eq_3)
  obtain s4 where "vr_Finish B s3 = (Ret (), s4)" using vr_Finish_at [OF s3(2), of B] by auto
  with s s1(1) s2(1) s3(1) show ?thesis
    by (simp add: version_B2_def constructed_def float_eq_def float_nan_def passing)
qed

lemma version_B3_passes: "passes (version_B3 B (vt_enc vt_members))"
proof -
  let ?t = "le_bytes (0x5A5A5A5A :: u32)"
  let ?d = "vt_enc vt_members @ ?t"
  obtain s P where s: "make_vt_reader B (make_reader ?d) = (Ret (), s)" "vt_at (make_reader ?d) P vt_members 0 s"
    "P + length (concat vt_members) = length (vt_enc vt_members)"
    by (rule vt_start [where rest = ?t and B = B]) simp_all
  obtain s1 where s1: "ReadMember B uint32_formatter 0 s = (Ret (77, True), s1)" "vt_at (make_reader ?d) P vt_members 1 s1"
    using ReadMember_at [OF s(2) _ uint32_codec.reads, of 77 "[]"] by (auto simp: vt_members_def)
  obtain s2 where s2: "vr_Finish B s1 = (Ret (), s2)" "vr_in s2 = make_reader ?d\<lparr>r_pos := length (vt_enc vt_members)\<rparr>"
    using vr_Finish_at [OF s1(2), of B] s(3) by auto
  have "ReadInt32 B (vr_in s2) = (Ret 0x5A5A5A5A, make_reader ?d\<lparr>r_pos := length (vt_enc vt_members) + 4\<rparr>)"
    using Read_from [OF decodes_ReadRaw [of any_limits B "0x5A5A5A5A :: u32"], where opts = default_options
        and p = "length (vt_enc vt_members)" and rest = "[]" and data = ?d] vt_members_short(4)
    by (simp add: ReadInt32_def make_reader_def s2(2))
  with s(1) s1(1) s2(1) show ?thesis
    by (simp add: version_B3_def constructed_def with_sentinel_appends passing)
qed

text \<open>The VersionTolerant layout costs one length byte per member of this object.\<close>

lemma version_cost_value: "version_cost B (vt_enc vt_members) = return (28, 31, 3)"
proof -
  have "length (enc_string (bytes_of_string ''legacy-mode'')) = 19" by (simp add: enc_string_def)
  then show ?thesis
    by (simp add: version_cost_def Serialize_V2 vt_enc_def vt_members_def enc_varint_def struct_enc_def player_layouts return_def)
qed

lemma version_main_ok: "version_main B True = (Ret 0, True)"
proof -
  let ?q = "\<lparr>pv2_id = 9, pv2_name = bytes_of_string ''new'', pv2_score = 0x41480000\<rparr>"
  show ?thesis
    using version_A2_passes [of ?q B] V1_desyncs [of ?q B] version_A1_passes version_B2_passes version_B3_passes
    by (simp add: version_main_def Serialize_V2 version_B1_bytes version_cost_value seq_passes)
qed

end
