(* ===== verification/Truncation.thy ===== *)
theory Truncation
  imports ServerPackets
begin

text \<open>
  Truncated input. \<open>decodes\<close> says what happens when the encoding of a value is there; \<open>truncates\<close> says that
  an operation records an error when the input ends anywhere inside it. The notion is closed under the
  composition of readers, so that a formatter keeps it (\<open>strict_codec\<close>), a struct inherits it from its members
  (\<open>strict_struct\<close>) and a collection from its elements. It follows that no encoding of a type is a proper
  prefix of another one. The last part are the limits of \<^verbatim>\<open>ReaderOptions\<close>: lengths, strings and depths above them are
  reported too.
\<close>

section \<open>Rejected input\<close>

definition rejects :: "(ReaderOptions \<Rightarrow> nat \<Rightarrow> bool) \<Rightarrow> (build \<Rightarrow> 'a rop) \<Rightarrow> bytes \<Rightarrow> bool" where
  "rejects F act bs \<longleftrightarrow> (\<forall>B r. reader_inv r \<longrightarrow> r_error r = ErrorNone \<longrightarrow> drop (r_pos r) (r_data r) = bs \<longrightarrow>
     F (r_options r) (unat (r_depth r)) \<longrightarrow> r_error (snd (act B r)) \<noteq> ErrorNone)"

definition truncates :: "(ReaderOptions \<Rightarrow> nat \<Rightarrow> bool) \<Rightarrow> (build \<Rightarrow> 'a rop) \<Rightarrow> bytes \<Rightarrow> bool" where
  "truncates F act bs \<longleftrightarrow> (\<forall>n < length bs. rejects F act (take n bs))"

named_theorems truncate_intros "operations that report truncated input"

lemma rejectsI:
  assumes "\<And>B r. reader_inv r \<Longrightarrow> r_error r = ErrorNone \<Longrightarrow> drop (r_pos r) (r_data r) = bs \<Longrightarrow>
    F (r_options r) (unat (r_depth r)) \<Longrightarrow> length (r_data r) = r_pos r + length bs \<Longrightarrow> r_error (snd (act B r)) \<noteq> ErrorNone"
  shows "rejects F act bs"
  unfolding rejects_def
proof (intro allI impI)
  fix B r
  assume r: "reader_inv r" "r_error r = ErrorNone" "drop (r_pos r) (r_data r) = bs" "F (r_options r) (unat (r_depth r))"
  then have "length (r_data r) = r_pos r + length bs" by (auto simp: reader_inv_def)
  with r show "r_error (snd (act B r)) \<noteq> ErrorNone" by (rule assms)
qed

lemma rejectsD:
  "rejects F act bs \<Longrightarrow> reader_inv r \<Longrightarrow> r_error r = ErrorNone \<Longrightarrow> drop (r_pos r) (r_data r) = bs \<Longrightarrow>
     F (r_options r) (unat (r_depth r)) \<Longrightarrow> r_error (snd (act B r)) \<noteq> ErrorNone"
  by (simp add: rejects_def)

lemma truncates_Nil [simp, truncate_intros]: "truncates F act []"
  by (simp add: truncates_def)

lemma truncates_mono: "truncates F act bs \<Longrightarrow> (\<And>opts d. G opts d \<Longrightarrow> F opts d) \<Longrightarrow> truncates G act bs"
  by (simp add: truncates_def rejects_def)

text \<open>A recorded error survives what follows.\<close>

lemma error_survives:
  assumes m: "reader_action m" "reader_inv r" "r_error (snd (m B r)) \<noteq> ErrorNone" and f: "\<And>x. reader_action (\<lambda>B. f B x)"
  shows "r_error (snd (bind (m B) (f B) r)) \<noteq> ErrorNone"
proof (cases "m B" r "f B" rule: bind_cases)
  case (Ret x s)
  have "reader_inv s" using reader_action.keeps_inv [OF m(1,2), of B] Ret(1) by simp
  from reader_action.error_sticks [OF f this, of B x] m(3) Ret show ?thesis by simp
qed (use m(3) in simp_all)

lemma rejects_bind:
  assumes "rejects F m bs" "reader_action m" "\<And>x. reader_action (\<lambda>B. f B x)"
  shows "rejects F (\<lambda>B. bind (m B) (f B)) bs"
  using rejectsD [OF assms(1)] by (intro rejectsI error_survives [OF assms(2) _ _ assms(3)])

text \<open>An operation that decodes a part and then meets something it rejects.\<close>

lemma rejects_after:
  assumes d: "\<And>B. decodes G (m B) bs v" and f: "rejects F (\<lambda>B. f B v) cs"
    and G: "\<And>opts d. F opts d \<Longrightarrow> G opts d"
  shows "rejects F (\<lambda>B. bind (m B) (f B)) (bs @ cs)"
proof (rule rejectsI)
  fix B r assume r: "reader_inv r" "r_error r = ErrorNone" "drop (r_pos r) (r_data r) = bs @ cs"
    "F (r_options r) (unat (r_depth r))" "length (r_data r) = r_pos r + length (bs @ cs)"
  let ?s = "r\<lparr>r_pos := r_pos r + length bs\<rparr>"
  have "m B r = (Ret v, ?s)" using decodesD [OF d r(1,2,3) G [OF r(4)]] .
  moreover have "r_error (snd (f B v ?s)) \<noteq> ErrorNone"
    by (rule rejectsD [OF f]) (use r drop_eq_append_drop [OF r(3)] in \<open>simp_all add: reader_inv_def\<close>)
  ultimately show "r_error (snd (bind (m B) (f B) r)) \<noteq> ErrorNone" by simp
qed

lemma truncates_bind:
  assumes d: "\<And>B. decodes F (m B) bs v" and m: "truncates F m bs" "reader_action m"
    and f: "truncates F (\<lambda>B. f B v) cs" "\<And>x. reader_action (\<lambda>B. f B x)" and ds: "ds = bs @ cs"
  shows "truncates F (\<lambda>B. bind (m B) (f B)) ds"
  unfolding truncates_def
proof (intro allI impI)
  fix n assume n: "n < length ds"
  show "rejects F (\<lambda>B. bind (m B) (f B)) (take n ds)"
  proof (cases "n < length bs")
    case True
    with m show ?thesis unfolding ds by (intro rejects_bind f(2)) (simp_all add: truncates_def)
  next
    case False
    then have "rejects F (\<lambda>B. f B v) (take (n - length bs) cs)" using f(1) n ds by (simp add: truncates_def)
    from rejects_after [where m = m and f = f, OF d this] show ?thesis using False by (simp add: ds)
  qed
qed

section \<open>Operations of the reader\<close>

lemma EnsureBytes_rejects: "length bs < n \<Longrightarrow> rejects F (\<lambda>B. EnsureBytes B n) bs"
proof (rule rejectsI)
  fix B r assume n: "length bs < n" and r: "reader_inv r" "r_error r = ErrorNone" "length (r_data r) = r_pos r + length bs"
  from r(1) show "r_error (snd (EnsureBytes B n r)) \<noteq> ErrorNone"
    by (cases rule: EnsureBytes_cases [where B = B and n = n]) (use n r in \<open>auto simp: seq_def bind_def Fail_def Let_def\<close>)
qed

lemma rejects_ensure:
  assumes "length bs < n" "reader_action g"
  shows "rejects F (\<lambda>B. bind (EnsureBytes B n) (\<lambda>ok. if \<not> ok then g B else f B)) bs"
proof -
  have g: "rejects F (\<lambda>B. bind (EnsureBytes B n) (\<lambda>ok. g B)) bs"
    by (intro rejects_bind EnsureBytes_rejects reader_intros assms)
  show ?thesis
  proof (rule rejectsI)
    fix B r assume r: "reader_inv r" "r_error r = ErrorNone" "drop (r_pos r) (r_data r) = bs" "F (r_options r) (unat (r_depth r))"
      "length (r_data r) = r_pos r + length bs"
    from r(1) have "bind (EnsureBytes B n) (\<lambda>ok. if \<not> ok then g B else f B) r = bind (EnsureBytes B n) (\<lambda>ok. g B) r"
      by (cases rule: EnsureBytes_cases [where B = B and n = n]) (use r assms(1) in \<open>auto simp: seq_def bind_def Fail_def Let_def\<close>)
    with rejectsD [OF g r(1-4), of B] show "r_error (snd (bind (EnsureBytes B n) (\<lambda>ok. if \<not> ok then g B else f B) r)) \<noteq> ErrorNone"
      by simp
  qed
qed

lemma truncates_ensure:
  assumes "length bs \<le> n" "reader_action g"
  shows "truncates F (\<lambda>B. bind (EnsureBytes B n) (\<lambda>ok. if \<not> ok then g B else f B)) bs"
  using assms by (auto simp: truncates_def intro: rejects_ensure)

lemma truncates_ReadByte [truncate_intros]: "truncates F ReadByte [b]"
  unfolding ReadByte_def by (intro truncates_ensure reader_intros) simp

lemma truncates_ReadRaw [truncate_intros]: "truncates F (\<lambda>B. ReadRaw B :: 'a::len word rop) (le_bytes (w :: 'a word))"
  unfolding ReadRaw_def by (intro truncates_ensure reader_intros) simp

lemma truncates_ReadUnmanaged [truncate_intros]: "length bs = n \<Longrightarrow> truncates F (\<lambda>B. ReadUnmanaged B n) bs"
  unfolding ReadUnmanaged_def by (intro truncates_ensure reader_intros) simp

lemma truncates_bind_raw:
  assumes "8 dvd LENGTH('a::len)" "truncates F (\<lambda>B. f B w) cs" "\<And>x. reader_action (\<lambda>B. f B x)" "ds = le_bytes (w :: 'a word) @ cs"
  shows "truncates F (\<lambda>B. bind (ReadRaw B) (f B)) ds"
  by (rule truncates_bind [where m = ReadRaw and v = w])
    (use assms in \<open>auto intro: decodes_ReadRaw truncates_ReadRaw reader_intros\<close>)

lemma truncates_map:
  assumes "truncates F m bs" "reader_action m"
  shows "truncates F (\<lambda>B. bind (m B) (\<lambda>x. return (g x))) bs"
  using assms by (auto simp: truncates_def intro!: rejects_bind reader_intros)

lemma truncates_ReadBool [truncate_intros]: "truncates F ReadBool [if b then 1 else 0]"
  unfolding ReadBool_def by (intro truncates_map truncate_intros reader_intros)

lemma truncates_ReadObjectHeader [truncate_intros]: "truncates F ReadObjectHeader [n]"
  unfolding ReadObjectHeader_def
  by (rule truncates_bind [where cs = "[]", OF decodes_ReadByte truncates_ReadByte])
    (intro reader_intros | simp)+

lemma truncates_gets_Failed:
  assumes "truncates F (\<lambda>B. f B False) bs"
  shows "truncates F (\<lambda>B. bind (gets Failed) (f B)) bs"
  using assms by (simp add: truncates_def rejects_def Failed_def)

lemma CheckStringLength_rejects:
  assumes "length bs < unat n"
  shows "rejects F (\<lambda>B. CheckStringLength B n 1) bs"
proof (rule rejectsI)
  fix B r assume r: "reader_inv r" "r_error r = ErrorNone" "length (r_data r) = r_pos r + length bs"
  then have "Remaining r = length bs" by (simp add: Remaining_eq)
  with assms r(2) show "r_error (snd (CheckStringLength B n 1 r)) \<noteq> ErrorNone"
    by (simp add: CheckStringLength_def seq_def bind_def Fail_def Let_def)
qed

lemma truncates_ReadString [truncate_intros]:
  assumes "length s < 2 ^ 31"
  shows "truncates F ReadString (enc_string s)"
proof (cases "s = []")
  case True
  then show ?thesis unfolding ReadString_def enc_string_def
    by (intro truncates_bind_raw [where w = 0 and cs = "[]"] reader_intros) simp_all
next
  case False
  let ?n = "word_of_nat (length s) :: u32"
  have n: "unat ?n = length s" using assms by (intro unat_of_nat_32) simp
  note h = string_header [of "length s"]
  let ?body = "\<lambda>B. bind (CheckStringLength B ?n 1) (\<lambda>ok.
           if \<not> ok then return (Some [])
           else bind (EnsureBytes B (unat ?n)) (\<lambda>ok.
             if \<not> ok then return (Some [])
             else bind (take_bytes (unat ?n)) (\<lambda>s. return (Some s))))"
  have body: "truncates F ?body s" unfolding truncates_def
    by (intro allI impI rejects_bind CheckStringLength_rejects reader_intros) (simp add: n)
  have "truncates F (\<lambda>B. bind (ReadRaw B) (\<lambda>_ :: u32. ?body B)) (le_bytes (utf16_length_bytes 0 s) @ s)"
    by (rule truncates_bind_raw [where f = "\<lambda>B _. ?body B", OF _ body]) (intro reader_intros | simp)+
  then have "truncates F (\<lambda>B. bind (gets Failed) (\<lambda>failed. if failed then return (Some [])
       else if NOT ?n = -1 then return None
       else if NOT ?n = 0 then return (Some [])
       else if sint (NOT ?n) > 0 then bind (ReadUtf16String B (NOT ?n)) (\<lambda>s. return (Some s))
       else bind (ReadRaw B) (\<lambda>_ :: u32.
         bind (CheckStringLength B (NOT (NOT ?n)) 1) (\<lambda>ok.
           if \<not> ok then return (Some [])
           else bind (EnsureBytes B (unat (NOT (NOT ?n)))) (\<lambda>ok.
             if \<not> ok then return (Some [])
             else bind (take_bytes (unat (NOT (NOT ?n)))) (\<lambda>s. return (Some s))))))) (le_bytes (utf16_length_bytes 0 s) @ s)"
    by (intro truncates_gets_Failed) (use False h assms in \<open>simp cong: if_cong\<close>)
  then show ?thesis unfolding ReadString_def
    by (intro truncates_bind_raw [where w = "NOT ?n"] reader_intros)
      (use False in \<open>simp_all add: enc_string_def\<close>)
qed


section \<open>Collections\<close>

text \<open>A count that the input cannot hold is reported at once, any other leads to the elements.\<close>

lemma truncates_counted:
  assumes n: "length xs < 2 ^ 31" and f: "truncates F (\<lambda>B. f B (word_of_nat (length xs))) (concat (map enc xs))"
    "\<And>x. reader_action (\<lambda>B. f B x)"
  shows "truncates F (\<lambda>B. bind (ReadCollectionLength B k) (f B)) (enc_collection enc xs)"
proof -
  let ?n = "word_of_nat (length xs) :: u32"
  let ?limits = "\<lambda>B. bind (gets (\<lambda>r. (r_options r, Remaining r))) (\<lambda>(options, remaining).
       if ?n > maxCollectionLength options then
         seq (Fail B LengthLimit ''collection length above the configured limit'') (return (-1))
       else if k > 0 \<and> unat ?n > remaining div k then
         seq (Fail B LengthLimit ''collection length exceeds the remaining input'') (return (-1))
       else return ?n)"
  have a: "reader_action ?limits" by (intro reader_intros) simp_all
  have e: "r_error (snd (?limits B r)) \<noteq> ErrorNone \<or> ?limits B r = (Ret ?n, r)" if "r_error r = ErrorNone" for B r
    using that by (simp add: seq_def bind_def Fail_def Let_def)
  have limits: "truncates F (\<lambda>B. bind (?limits B) (f B)) (concat (map enc xs))"
    unfolding truncates_def
  proof (intro allI impI rejectsI)
    fix m B r
    assume m: "m < length (concat (map enc xs))" and r: "reader_inv r" "r_error r = ErrorNone"
      "drop (r_pos r) (r_data r) = take m (concat (map enc xs))" "F (r_options r) (unat (r_depth r))"
    show "r_error (snd (bind (?limits B) (f B) r)) \<noteq> ErrorNone"
    proof (cases "r_error (snd (?limits B r)) = ErrorNone")
      case True
      with e [OF r(2), of B] have "bind (?limits B) (f B) r = f B ?n r" by auto
      moreover have "r_error (snd (f B ?n r)) \<noteq> ErrorNone"
        using f(1) m r
        by (intro rejectsD [where act = "\<lambda>B. f B ?n" and F = F and bs = "take m (concat (map enc xs))"])
          (simp_all add: truncates_def)
      ultimately show ?thesis by simp
    qed (rule error_survives [OF a r(1) _ f(2)])
  qed
  have "truncates F (\<lambda>B. bind (ReadRaw B) (\<lambda>len. bind (if sint len < 0 then
       if len \<noteq> NULL_COLLECTION then
         seq (Fail B LengthLimit ''negative collection length'') (return (-1))
       else return (-1)
     else bind (gets (\<lambda>r. (r_options r, Remaining r))) (\<lambda>(options, remaining).
       if len > maxCollectionLength options then
         seq (Fail B LengthLimit ''collection length above the configured limit'') (return (-1))
       else if k > 0 \<and> unat len > remaining div k then
         seq (Fail B LengthLimit ''collection length exceeds the remaining input'') (return (-1))
       else return len)) (f B))) (enc_collection enc xs)"
    by (rule truncates_bind_raw [where w = ?n])
      (use limits sint_of_nat_32 [OF n] in \<open>(intro reader_intros f(2) | simp add: enc_collection_def enc_length_def)+\<close>)
  then show ?thesis by (simp add: ReadCollectionLength_def bind_assoc)
qed

lemma truncates_read_loop:
  assumes "\<And>x acc B. x \<in> set xs \<Longrightarrow> decodes F (body B acc) (enc x) (upd acc x)"
    "\<And>x acc. x \<in> set xs \<Longrightarrow> truncates F (\<lambda>B. body B acc) (enc x)" "\<And>acc. reader_action (\<lambda>B. body B acc)"
  shows "truncates F (\<lambda>B. read_loop (length xs) (body B) acc) (concat (map enc xs))"
  using assms
proof (induction xs arbitrary: acc)
  case (Cons x xs)
  have "truncates F (\<lambda>B. bind (body B acc) (read_loop (length xs) (body B))) (concat (map enc (x # xs)))"
  proof (rule truncates_bind)
    show "decodes F (body B acc) (enc x) (upd acc x)" for B using Cons.prems(1) by simp
    show "truncates F (\<lambda>B. body B acc) (enc x)" using Cons.prems(2) by simp
    show "truncates F (\<lambda>B. read_loop (length xs) (body B) (upd acc x)) (concat (map enc xs))"
      using Cons.prems by (intro Cons.IH) simp_all
  qed (use Cons.prems(3) in \<open>auto intro: reader_intros\<close>)
  then show ?case unfolding list.size add_Suc_right add_0_right read_loop.simps
    by (intro truncates_gets_Failed) simp
qed simp

section \<open>Objects\<close>

lemma nested_rejects:
  assumes body: "rejects G body bs" "reader_action body"
    and lim: "\<And>opts d. F opts d \<Longrightarrow> Suc d \<le> unat (maxDepth opts) \<and> G opts (Suc d)"
  shows "rejects F (\<lambda>B. bind (EnterObject B) (\<lambda>ok. if \<not> ok then g
      else bind (body B) (\<lambda>x. seq LeaveObject (return x)))) bs"
proof (rule rejectsI)
  fix B r
  assume r: "reader_inv r" "r_error r = ErrorNone" "drop (r_pos r) (r_data r) = bs" "F (r_options r) (unat (r_depth r))"
  let ?s = "r\<lparr>r_depth := r_depth r + 1\<rparr>"
  note l = lim [OF r(4)]
  have "Suc (unat (r_depth r)) < 2 ^ 32"
    using l unat_less_32 [of "maxDepth (r_options r)"] by simp
  then have d: "unat (r_depth r + 1) = Suc (unat (r_depth r))"
    by (simp add: unat_word_ariths)
  then have "EnterObject B r = (Ret True, ?s)"
    using l by (simp add: EnterObject_def word_less_nat_alt)
  moreover have s: "reader_inv ?s" using r(1) by (simp add: reader_inv_def)
  moreover have "r_error (snd (body B ?s)) \<noteq> ErrorNone"
    by (rule rejectsD [OF body(1)]) (use r l d s in simp_all)
  then have "r_error (snd (bind (body B) (\<lambda>x. seq LeaveObject (return x)) ?s)) \<noteq> ErrorNone"
    by (intro error_survives [OF body(2) s, where f = "\<lambda>B x. seq LeaveObject (return x)"] reader_intros)
  ultimately show "r_error (snd (bind (EnterObject B) (\<lambda>ok. if \<not> ok then g
      else bind (body B) (\<lambda>x. seq LeaveObject (return x))) r)) \<noteq> ErrorNone" by simp
qed

lemma truncates_nested:
  assumes "truncates G body bs" "reader_action body"
    "\<And>opts d. F opts d \<Longrightarrow> Suc d \<le> unat (maxDepth opts) \<and> G opts (Suc d)"
  shows "truncates F (\<lambda>B. bind (EnterObject B) (\<lambda>ok. if \<not> ok then g
      else bind (body B) (\<lambda>x. seq LeaveObject (return x)))) bs"
  using assms by (auto simp: truncates_def intro: nested_rejects)

section \<open>Limits\<close>

lemma rejects_mono: "rejects F act bs \<Longrightarrow> (\<And>opts d. G opts d \<Longrightarrow> F opts d) \<Longrightarrow> rejects G act bs"
  by (simp add: rejects_def)

lemma Fail_rejects:
  assumes "c \<noteq> ErrorNone"
  shows "rejects F (\<lambda>B. seq (Fail B c what) (return x)) bs"
  using assms by (intro rejectsI) (simp add: seq_def bind_def Fail_def Let_def)

text \<open>A reserved object header.\<close>

lemma reserved_header_rejected:
  assumes "249 < n" "n \<noteq> 255"
  shows "rejects F ReadObjectHeader (n # rest)"
proof -
  have "rejects F (\<lambda>B. if n = NULL_OBJECT then return \<lparr>count = 0, isNull = True\<rparr>
      else if n > MAX_MEMBER_COUNT then seq (Fail B InvalidHeader ''reserved object header value 250..254'')
        (return \<lparr>count = 0, isNull = True\<rparr>) else return \<lparr>count = n, isNull = False\<rparr>) rest"
    using assms Fail_rejects [of InvalidHeader] by simp
  then have "rejects F ReadObjectHeader ([n] @ rest)" unfolding ReadObjectHeader_def [abs_def]
    by (intro rejects_after [OF decodes_ReadByte [where F = any_limits and b = n]]) simp_all
  then show ?thesis by simp
qed

text \<open>A collection length above the limit, or one that the rest of the input cannot hold.\<close>

lemma excessive_length_rejected:
  assumes n: "0 \<le> sint n"
  shows "rejects (\<lambda>opts d. maxCollectionLength opts < n \<or> 0 < k \<and> length rest div k < unat n)
    (\<lambda>B. ReadCollectionLength B k) (le_bytes n @ rest)"
proof -
  let ?F = "\<lambda>opts (d :: nat). maxCollectionLength opts < n \<or> 0 < k \<and> length rest div k < unat n"
  have "rejects ?F (\<lambda>B. bind (gets (\<lambda>r. (r_options r, Remaining r))) (\<lambda>(options, remaining).
       if n > maxCollectionLength options then
         seq (Fail B LengthLimit ''collection length above the configured limit'') (return (-1))
       else if k > 0 \<and> unat n > remaining div k then
         seq (Fail B LengthLimit ''collection length exceeds the remaining input'') (return (-1))
       else return n)) rest"
    by (intro rejectsI) (auto simp: Remaining_eq seq_def bind_def Fail_def Let_def)
  then have "rejects ?F (\<lambda>B. bind (ReadRaw B) (\<lambda>len. if sint len < 0 then
       if len \<noteq> NULL_COLLECTION then
         seq (Fail B LengthLimit ''negative collection length'') (return (-1))
       else return (-1)
     else bind (gets (\<lambda>r. (r_options r, Remaining r))) (\<lambda>(options, remaining).
       if len > maxCollectionLength options then
         seq (Fail B LengthLimit ''collection length above the configured limit'') (return (-1))
       else if k > 0 \<and> unat len > remaining div k then
         seq (Fail B LengthLimit ''collection length exceeds the remaining input'') (return (-1))
       else return len))) (le_bytes n @ rest)"
    using n by (intro rejects_after [OF decodes_ReadRaw [where F = any_limits and w = n]]) simp_all
  then show ?thesis by (simp add: ReadCollectionLength_def)
qed

text \<open>A string longer than the limit.\<close>

lemma long_string_rejected:
  assumes "s \<noteq> []" "length s < 2 ^ 31"
  shows "rejects (\<lambda>opts d. \<not> string_fits s opts) ReadString (enc_string s)"
proof -
  let ?n = "word_of_nat (length s) :: u32" and ?F = "\<lambda>opts (d :: nat). \<not> string_fits s opts"
  have n: "unat ?n = length s" using assms by (intro unat_of_nat_32) simp
  note h = string_header [of "length s"]
  have "rejects ?F (\<lambda>B. CheckStringLength B ?n 1) s"
    by (intro rejectsI) (auto simp: CheckStringLength_def string_fits_def n word_less_nat_alt seq_def bind_def Fail_def Let_def)
  then have "rejects ?F (\<lambda>B. bind (CheckStringLength B ?n 1) (\<lambda>ok.
           if \<not> ok then return (Some [])
           else bind (EnsureBytes B (unat ?n)) (\<lambda>ok.
             if \<not> ok then return (Some [])
             else bind (take_bytes (unat ?n)) (\<lambda>s. return (Some s))))) s"
    by (intro rejects_bind reader_intros)
  then have "rejects ?F (\<lambda>B. bind (ReadRaw B) (\<lambda>_ :: u32. bind (CheckStringLength B ?n 1) (\<lambda>ok.
           if \<not> ok then return (Some [])
           else bind (EnsureBytes B (unat ?n)) (\<lambda>ok.
             if \<not> ok then return (Some [])
             else bind (take_bytes (unat ?n)) (\<lambda>s. return (Some s)))))) (le_bytes (utf16_length_bytes 0 s) @ s)"
    by (intro rejects_after [OF decodes_ReadRaw [where F = any_limits and w = "utf16_length_bytes 0 s"]]) simp_all
  then have "rejects ?F ReadString (le_bytes (NOT ?n) @ le_bytes (utf16_length_bytes 0 s) @ s)"
    unfolding ReadString_def [abs_def]
    by (intro rejects_after [OF decodes_ReadRaw [where F = any_limits and w = "NOT ?n"]])
      (use assms h in \<open>simp_all add: rejects_def Failed_def cong: if_cong\<close>)
  then show ?thesis using assms by (simp add: enc_string_def)
qed

text \<open>An object nested deeper than the limit.\<close>

lemma deep_object_rejected:
  assumes "n \<le> 249" "reader_action (\<lambda>B. read_members B (unat n) 0 ms v)"
  shows "rejects (\<lambda>opts d. unat (maxDepth opts) \<le> d \<and> d < 2 ^ 32 - 1) (\<lambda>B. IMemoryPackable_Deserialize B init ms v) (n # rest)"
proof -
  let ?F = "\<lambda>opts (d :: nat). unat (maxDepth opts) \<le> d \<and> d < 2 ^ 32 - 1"
  have "rejects ?F EnterObject rest"
  proof (rule rejectsI)
    fix B and r :: reader assume r: "r_error r = ErrorNone" "?F (r_options r) (unat (r_depth r))"
    then have "unat (r_depth r + 1) = Suc (unat (r_depth r))" by (simp add: unat_word_ariths)
    with r show "r_error (snd (EnterObject B r)) \<noteq> ErrorNone"
      by (simp add: EnterObject_def word_less_nat_alt seq_def bind_def Fail_def Let_def)
  qed
  then have "rejects ?F (\<lambda>B. bind (EnterObject B) (\<lambda>ok. if \<not> ok then return v
      else bind (read_members B (unat n) 0 ms v) (\<lambda>v'. seq LeaveObject (return v')))) rest"
    by (intro rejects_bind reader_intros assms(2))
  then have "rejects ?F (\<lambda>B. bind (ReadObjectHeader B) (\<lambda>header.
       if isNull header then return init
       else bind (EnterObject B) (\<lambda>ok.
         if \<not> ok then return v
         else bind (read_members B (unat (count header)) 0 ms v) (\<lambda>v'.
           seq LeaveObject (return v'))))) ([n] @ rest)"
    by (intro rejects_after [OF decodes_ReadObjectHeader [OF assms(1), where F = any_limits]]) (simp_all cong: if_cong)
  then show ?thesis by (simp add: IMemoryPackable_Deserialize_def)
qed

section \<open>Formatters\<close>

locale strict_codec = codec +
  assumes truncated: "ok v \<Longrightarrow> truncates (fits v) (\<lambda>B. Read B T v0) (enc v)"
begin

text \<open>Every build reports a truncated encoding.\<close>

lemma truncated_input:
  assumes "ok v" "fits v default_options 0" "length (enc v) < 2 ^ 63" "n < length (enc v)"
  shows "\<exists>e. e \<noteq> ErrorNone \<and> TryDeserialize B T (take n (enc v)) = Ret (Inl e)"
    "has_exceptions B \<Longrightarrow> \<exists>e. Deserialize B T (take n (enc v)) = Throw e"
proof -
  let ?r = "make_reader (take n (enc v))"
  let ?res = "Read B T (value_init T) ?r"
  have r: "reader_inv ?r" "r_error ?r = ErrorNone" using assms(3) by (simp_all add: make_reader_def)
  have e: "r_error (snd ?res) \<noteq> ErrorNone"
    using truncated [OF assms(1), of "value_init T"] assms(2,4) r
    by (intro rejectsD [of "fits v" _ "take n (enc v)"]) (simp_all add: truncates_def make_reader_def)
  have s: "reader_step B ?r ?res" by (rule reader_action.step [OF safe r(1)])
  show "\<exists>e. e \<noteq> ErrorNone \<and> TryDeserialize B T (take n (enc v)) = Ret (Inl e)"
    using e s by (auto simp: TryDeserialize_def reader_step_def Failed_def split: prod.splits outcome.splits)
  show "\<exists>e. Deserialize B T (take n (enc v)) = Throw e" if "has_exceptions B"
    using e s that r(2) by (cases "fst ?res") (auto simp: Deserialize_def reader_step_def split: prod.splits)
qed

text \<open>No encoding is a proper prefix of another one.\<close>

lemma prefix_free:
  assumes v: "ok v" "fits v opts 0" and w: "ok w" "fits w opts 0" "length (enc w) < 2 ^ 63"
    and p: "enc w = enc v @ cs"
  shows "cs = []"
proof (rule ccontr)
  assume "cs \<noteq> []"
  let ?r = "make_reader_with (enc v) opts"
  have r: "reader_inv ?r" using w(3) p by simp
  have "enc v = take (length (enc v)) (enc w)" "length (enc v) < length (enc w)" using p \<open>cs \<noteq> []\<close> by simp_all
  then have "rejects (fits w) (\<lambda>B. Read B T (value_init T)) (enc v)"
    using truncated [OF w(1), of "value_init T"] by (metis truncates_def)
  from rejectsD [OF this r, of undefined] w(2) have "r_error (snd (Read undefined T (value_init T) ?r)) \<noteq> ErrorNone" by simp
  moreover have "Read undefined T (value_init T) ?r = (Ret v, ?r\<lparr>r_pos := length (enc v)\<rparr>)"
    using decodesD [OF reads [OF v(1)] r, of "[]"] v(2) by simp
  ultimately show False by simp
qed

end


text \<open>Members, structs and collections of such types.\<close>

locale strict_member = member_codec +
  assumes member_truncated: "m_ok S s \<Longrightarrow> truncates (m_fits S s) (\<lambda>B. read_member M B d) (m_enc S s)"

lemma truncates_read_members:
  assumes "\<And>m S. (m, S) \<in> set ms \<Longrightarrow> strict_member m S" "members_ok ms s"
    "\<And>opts d. F opts d \<Longrightarrow> members_fit ms s opts d" "i + length ms \<le> cnt"
  shows "truncates F (\<lambda>B. read_members B cnt i (map fst ms) d) (members_enc ms s)"
  using assms
proof (induction ms arbitrary: i d)
  case (Cons p ms)
  obtain m S where p: "p = (m, S)" by (cases p)
  then have m: "strict_member m S" using Cons.prems(1) by simp
  then have c: "member_codec m S" by (rule strict_member.axioms)
  have ok: "m_ok S s" "members_ok ms s" using Cons.prems(2) by (simp_all add: p)
  have fit: "m_fits S s opts e \<and> members_fit ms s opts e" if "F opts e" for opts e
    using Cons.prems(3) [OF that] by (simp add: p)
  have rest: "member_codec n T" if "(n, T) \<in> set ms" for n T
    using Cons.prems(1) that by (auto intro: strict_member.axioms(1))
  have "truncates F (\<lambda>B. bind (read_member m B d) (read_members B cnt (Suc i) (map fst ms))) (m_enc S s @ members_enc ms s)"
  proof (rule truncates_bind)
    show "decodes F (read_member m B d) (m_enc S s) (m_copy S s d)" for B
      using fit by (intro decodes_mono [OF member_codec.reads [OF c ok(1)]]) simp
    show "truncates F (\<lambda>B. read_member m B d) (m_enc S s)"
      using fit by (intro truncates_mono [OF strict_member.member_truncated [OF m ok(1)]]) simp
    show "truncates F (\<lambda>B. read_members B cnt (Suc i) (map fst ms) (m_copy S s d)) (members_enc ms s)"
      using Cons.prems ok fit by (intro Cons.IH) simp_all
  qed (use c rest in \<open>auto intro: member_codec.safe safe_read_members\<close>)
  then show ?case using Cons.prems(4) by (simp add: p)
qed simp

locale strict_struct = struct_codec +
  assumes strict_members: "(m, S) \<in> set ms \<Longrightarrow> strict_member m S"
begin

lemma truncates_struct:
  assumes "members_ok ms s"
  shows "truncates (struct_fits ms s) (\<lambda>B. IMemoryPackable_Deserialize B init (map fst ms) d) (struct_enc ms s)"
proof -
  let ?n = "word_of_nat (length ms) :: byte"
  have n: "unat ?n = length ms" "?n \<le> 249"
    using count by (simp_all add: unat_of_nat take_bit_nat_eq_self word_le_nat_alt)
  have "truncates (members_fit ms s) (\<lambda>B. read_members B (length ms) 0 (map fst ms) d) (members_enc ms s)"
    by (rule truncates_read_members) (use strict_members assms in simp_all)
  then have "truncates (struct_fits ms s) (\<lambda>B. bind (EnterObject B) (\<lambda>ok. if \<not> ok then return d
      else bind (read_members B (length ms) 0 (map fst ms) d) (\<lambda>v. seq LeaveObject (return v)))) (members_enc ms s)"
    by (rule truncates_nested) (auto simp: struct_fits_def intro: safe_read_members members)
  then show ?thesis unfolding IMemoryPackable_Deserialize_def
    by (intro truncates_bind [OF decodes_ReadObjectHeader [OF n(2)] truncates_ReadObjectHeader] reader_intros
        safe_read_members members) (simp_all add: n struct_enc_def cong: if_cong)
qed

end

sublocale strict_struct \<subseteq> strict_codec "MEMORYPACK_DEFINE init (map fst ms)" "struct_enc ms" "members_ok ms" "struct_fits ms"
  by unfold_locales (simp add: Read_def MEMORYPACK_DEFINE_def truncates_struct)

context strict_codec
begin

lemma strict_member_field: "strict_member (member T get put) (field enc ok fits get put)"
proof (intro strict_member.intro member_field strict_member_axioms.intro)
  fix s d assume "m_ok (field enc ok fits get put) s"
  then show "truncates (m_fits (field enc ok fits get put) s) (\<lambda>B. read_member (member T get put) B d) (m_enc (field enc ok fits get put) s)"
    by (simp add: member_def truncates_map truncated safe)
qed

lemma vector_strict: "strict_codec (vector_formatter T) (enc_collection enc) (all_ok ok) (all_fit fits)"
proof (intro strict_codec.intro vector_codec strict_codec_axioms.intro)
  fix vs v0 assume vs: "all_ok ok vs"
  let ?body = "\<lambda>B out. bind (Read_value B T) (\<lambda>v. return (out @ [v]))"
  have "truncates (all_fit fits vs) (\<lambda>B. read_loop (length vs) (?body B) []) (concat (map enc vs))"
  proof (rule truncates_read_loop)
    fix v out B assume "v \<in> set vs"
    with vs show "decodes (all_fit fits vs) (?body B out) (enc v) (out @ [v])"
      by (intro decodes_map [OF decodes_element]) (auto simp: all_ok_def)
    from vs \<open>v \<in> set vs\<close> show "truncates (all_fit fits vs) (\<lambda>B. ?body B out) (enc v)"
      unfolding Read_value_def
      by (intro truncates_map safe truncates_mono [OF truncated]) (auto simp: all_ok_def all_fit_def)
  qed (intro reader_intros safe_value)
  then have "truncates (all_fit fits vs) (\<lambda>B. if sint (word_of_nat (length vs) :: u32) \<le> 0 then return []
      else read_loop (unat (word_of_nat (length vs) :: u32)) (?body B) []) (concat (map enc vs))"
    using vs sint_of_nat_32 [of "length vs"] unat_of_nat_32 [of "length vs"] by (cases "vs = []") (simp_all add: all_ok_def)
  then have "truncates (all_fit fits vs) (\<lambda>B. ReadCollection B T) (enc_collection enc vs)"
    unfolding ReadCollection_def using vs
    by (intro truncates_counted reader_intros safe_value) (simp_all add: all_ok_def)
  then show "truncates (all_fit fits vs) (\<lambda>B. Read B (vector_formatter T) v0) (enc_collection enc vs)"
    by (simp add: Read_def vector_formatter_def class_formatter_def)
qed

end


section \<open>The formatters of the library\<close>

lemmas word_formatter_ops = Read_def uint8_formatter_def uint16_formatter_def uint32_formatter_def uint64_formatter_def
  float_formatter_def double_formatter_def bool_formatter_def ReadUInt8_def raw_operations

interpretation strict_bool: strict_codec bool_formatter "\<lambda>b. [if b then 1 else 0]" "\<lambda>_. True" "\<lambda>_ _ _. True"
  by unfold_locales (simp add: word_formatter_ops truncates_ReadBool)

interpretation strict_uint8: strict_codec uint8_formatter le_bytes "\<lambda>_. True" "\<lambda>_ _ _. True"
  by unfold_locales (simp add: word_formatter_ops truncates_ReadByte)

interpretation strict_uint16: strict_codec uint16_formatter le_bytes "\<lambda>_. True" "\<lambda>_ _ _. True"
  by unfold_locales (simp add: word_formatter_ops truncates_ReadRaw)

interpretation strict_uint32: strict_codec uint32_formatter le_bytes "\<lambda>_. True" "\<lambda>_ _ _. True"
  by unfold_locales (simp add: word_formatter_ops truncates_ReadRaw)

interpretation strict_uint64: strict_codec uint64_formatter le_bytes "\<lambda>_. True" "\<lambda>_ _ _. True"
  by unfold_locales (simp add: word_formatter_ops truncates_ReadRaw)

interpretation strict_float: strict_codec float_formatter le_bytes "\<lambda>_. True" "\<lambda>_ _ _. True"
  by unfold_locales (simp add: word_formatter_ops truncates_ReadRaw)

interpretation strict_double: strict_codec double_formatter le_bytes "\<lambda>_. True" "\<lambda>_ _ _. True"
  by unfold_locales (simp add: word_formatter_ops truncates_ReadRaw)

interpretation strict_string: strict_codec string_formatter enc_string string_ok "\<lambda>s opts d. string_fits s opts"
proof unfold_locales
  fix v v0 assume "string_ok v"
  then have "truncates (\<lambda>opts d. string_fits v opts) (\<lambda>B. bind (ReadString_into B) (\<lambda>x. return (fst x))) (enc_string v)"
    unfolding ReadString_into_def string_ok_def
    by (intro truncates_map truncates_bind [OF decodes_ReadString truncates_ReadString, where cs = "[]"] reader_intros) simp_all
  then show "truncates (\<lambda>opts d. string_fits v opts) (\<lambda>B. Read B string_formatter v0) (enc_string v)"
    by (simp add: Read_def string_formatter_def case_prod_beta')
qed

lemma unmanaged_strict:
  "0 < sz \<Longrightarrow> strict_codec (MEMORYPACK_UNMANAGED sz) (\<lambda>v. v) (\<lambda>v. length v = sz) (\<lambda>_ _ _. True)"
  by (intro strict_codec.intro unmanaged_codec strict_codec_axioms.intro)
    (simp_all add: Read_def MEMORYPACK_UNMANAGED_def truncates_ReadUnmanaged)

lemma vector_arith_strict:
  assumes "8 dvd LENGTH('a::len)" "LENGTH('a) \<le> 64"
  shows "strict_codec (vector_formatter_arith :: 'a word list MemoryPackFormatter) (enc_collection le_bytes)
    (all_ok (\<lambda>_. True)) (all_fit (\<lambda>_ _ _. True))"
proof (intro strict_codec.intro vector_arith_codec assms strict_codec_axioms.intro)
  fix xs v0 :: "'a word list" assume xs: "all_ok (\<lambda>_. True) xs"
  let ?n = "word_of_nat (length xs) :: u32" and ?k = "sizeof TYPE('a)"
  let ?f = "\<lambda>B (len :: u32). if sint len \<le> 0 then return []
       else bind (EnsureBytes B (size_mul (unat len) ?k)) (\<lambda>ok.
         if \<not> ok then return []
         else if native B = Little then
           bind (take_bytes (size_mul (unat len) ?k)) (\<lambda>bs. return (map (of_mem Little) (chunks (unat len) ?k bs)))
         else read_times (unat len) (ReadRaw B) [])"
  have len: "length (concat (map le_bytes xs)) = length xs * ?k" by (rule length_concat_map_const) simp
  have n: "unat ?n = length xs" "length xs < 2 ^ 31" using xs by (simp_all add: all_ok_def unat_of_nat_32)
  have "?k \<le> 8" using assms(2) by (simp add: sizeof_def)
  with n(2) have "length xs * ?k \<le> 2 ^ 31 * 8" by (intro mult_le_mono) simp_all
  then have m: "size_mul (unat ?n) ?k = length xs * ?k" unfolding n(1) by (simp add: size_mul_def)
  have "truncates (all_fit (\<lambda>_ _ _. True) xs) (\<lambda>B. ?f B ?n) (concat (map le_bytes xs))"
  proof (cases "xs = []")
    case False
    then have "\<not> sint ?n \<le> 0" using sint_of_nat_32 [OF n(2)] by simp
    then have e: "(\<lambda>B. ?f B ?n) = (\<lambda>B. bind (EnsureBytes B (length xs * ?k)) (\<lambda>ok.
         if \<not> ok then return []
         else if native B = Little then
           bind (take_bytes (length xs * ?k)) (\<lambda>bs. return (map (of_mem Little) (chunks (unat ?n) ?k bs)))
         else read_times (unat ?n) (ReadRaw B) []))" unfolding m by simp
    show ?thesis unfolding e by (intro truncates_ensure reader_intros) (simp add: len)
  qed simp
  then have "truncates (all_fit (\<lambda>_ _ _. True) xs) (ReadVector :: build \<Rightarrow> 'a word list rop) (enc_collection le_bytes xs)"
    unfolding ReadVector_def [abs_def] by (rule truncates_counted [OF n(2), where f = ?f]) (intro reader_intros)
  then show "truncates (all_fit (\<lambda>_ _ _. True) xs) (\<lambda>B. Read B vector_formatter_arith v0) (enc_collection le_bytes xs)"
    by (simp add: Read_def vector_formatter_arith_def class_formatter_def)
qed

named_theorems strict_members "a member of a struct reports a truncated encoding"

lemma strict_word_members [strict_members]:
  "strict_member (member uint8_formatter g p) (word_field g p)"
  "strict_member (member uint16_formatter g' p') (word_field g' p')"
  "strict_member (member uint32_formatter g1 p1) (word_field g1 p1)"
  "strict_member (member uint64_formatter g2 p2) (word_field g2 p2)"
  "strict_member (member float_formatter g1 p1) (word_field g1 p1)"
  "strict_member (member double_formatter g2 p2) (word_field g2 p2)"
  unfolding word_field_def
  by (rule strict_uint8.strict_member_field strict_uint16.strict_member_field strict_uint32.strict_member_field
      strict_uint64.strict_member_field strict_float.strict_member_field strict_double.strict_member_field)+

lemma strict_bool_member [strict_members]: "strict_member (member bool_formatter g p) (bool_field g p)"
  unfolding bool_field_def by (rule strict_bool.strict_member_field)

lemma strict_string_member [strict_members]: "strict_member (member string_formatter g p) (string_field g p)"
  unfolding string_field_def by (rule strict_string.strict_member_field)

lemma strict_vector_members [strict_members]:
  "strict_member (member vector_formatter_arith g8 p8) (vector_field (g8 :: 's \<Rightarrow> 8 word list) p8)"
  "strict_member (member vector_formatter_arith g16 p16) (vector_field (g16 :: 's \<Rightarrow> 16 word list) p16)"
  "strict_member (member vector_formatter_arith g32 p32) (vector_field (g32 :: 's \<Rightarrow> 32 word list) p32)"
  "strict_member (member vector_formatter_arith g64 p64) (vector_field (g64 :: 's \<Rightarrow> 64 word list) p64)"
  unfolding vector_field_def by (intro strict_codec.strict_member_field vector_arith_strict; simp)+

lemma strict_strings_member [strict_members]:
  "strict_member (member (vector_formatter string_formatter) g p) (strings_field g p)"
  unfolding strings_field_def by (intro strict_codec.strict_member_field strict_string.vector_strict)

lemma strict_raw_member [strict_members]:
  "0 < sz \<Longrightarrow> strict_member (member (MEMORYPACK_UNMANAGED sz) g p) (raw_field sz g p)"
  unfolding raw_field_def by (intro strict_codec.strict_member_field unmanaged_strict)

context strict_struct
begin

lemma strict_objects_member:
  "strict_member (member (vector_formatter (MEMORYPACK_DEFINE init (map fst ms))) g p) (objects_field ms g p)"
  unfolding objects_field_def by (rule strict_codec.strict_member_field [OF vector_strict])

end

section \<open>The packets of the server\<close>

interpretation strict_Entity: strict_struct Entity_init Entity_layout
  by (intro strict_struct.intro Entity.struct_codec_axioms strict_struct_axioms.intro)
    (auto simp: server_layouts Vector3_formatter_def intro: strict_members)

interpretation strict_SpawnResponse: strict_struct "\<lparr>sprs_entities = []\<rparr>" SpawnResponse_layout
  by (intro strict_struct.intro SpawnResponse.struct_codec_axioms strict_struct_axioms.intro)
    (auto simp: SpawnResponse_layout_def SpawnResponse_members_def Entity_formatter_def
      intro: strict_Entity.strict_objects_member [unfolded server_members])

end
