(* ===== verification/Hostile.thy ===== *)
theory Hostile
  imports Examples Truncation
begin

text \<open>
  Malformed and hostile input (\<^verbatim>\<open>examples/08_error_handling.cpp\<close>): truncated packets, reserved headers, forged
  lengths, the limits of \<^verbatim>\<open>ReaderOptions\<close>, trailing bytes and the \<^verbatim>\<open>std::expected\<close> functions. Every attempt that the
  program expects to fail does so, in both error models, and every valid one succeeds (\<open>hostile_main_ok\<close>).
\<close>

record DemoPacket =
  dpk_id :: u32
  dpk_name :: bytes

record Inner =
  inn_v :: u32

definition DemoPacket_members :: "DemoPacket member list" where
  "DemoPacket_members = [member uint32_formatter dpk_id (\<lambda>x. dpk_id_update (\<lambda>_. x)),
     member string_formatter dpk_name (\<lambda>x. dpk_name_update (\<lambda>_. x))]"

definition Inner_members :: "Inner member list" where
  "Inner_members = [member uint32_formatter inn_v (\<lambda>x. inn_v_update (\<lambda>_. x))]"

definition DemoPacket_init :: DemoPacket where
  "DemoPacket_init = \<lparr>dpk_id = 0, dpk_name = []\<rparr>"

definition Inner_init :: Inner where
  "Inner_init = \<lparr>inn_v = 0\<rparr>"

definition DemoPacket_formatter :: "DemoPacket MemoryPackFormatter" where
  "DemoPacket_formatter = MEMORYPACK_DEFINE DemoPacket_init DemoPacket_members"

definition Inner_formatter :: "Inner MemoryPackFormatter" where
  "Inner_formatter = MEMORYPACK_DEFINE Inner_init Inner_members"

section \<open>Layouts\<close>

definition DemoPacket_layout :: "DemoPacket layout" where
  "DemoPacket_layout = zip DemoPacket_members [word_field dpk_id (\<lambda>x. dpk_id_update (\<lambda>_. x)),
     string_field dpk_name (\<lambda>x. dpk_name_update (\<lambda>_. x))]"

definition Inner_layout :: "Inner layout" where
  "Inner_layout = zip Inner_members [word_field inn_v (\<lambda>x. inn_v_update (\<lambda>_. x))]"

lemmas hostile_layouts =
  DemoPacket_layout_def DemoPacket_members_def
  Inner_layout_def Inner_members_def

lemma hostile_members [simp]:
  "map fst DemoPacket_layout = DemoPacket_members"
  "map fst Inner_layout = Inner_members"
  by (simp_all add: hostile_layouts)

interpretation DemoPacket: struct_codec DemoPacket_init DemoPacket_layout
  by (rule struct_codec.intro) (auto simp: hostile_layouts intro: struct_members)

interpretation Inner: struct_codec Inner_init Inner_layout
  by (rule struct_codec.intro) (auto simp: hostile_layouts intro: struct_members)

lemmas hostile_formatters =
  DemoPacket_formatter_def
  Inner_formatter_def

text \<open>An object inside an object.\<close>

record Outer =
  out_inner :: Inner

definition Outer_members :: "Outer member list" where
  "Outer_members = [member Inner_formatter out_inner (\<lambda>x. out_inner_update (\<lambda>_. x))]"

definition Outer_init :: Outer where
  "Outer_init = \<lparr>out_inner = Inner_init\<rparr>"

definition Outer_formatter :: "Outer MemoryPackFormatter" where
  "Outer_formatter = MEMORYPACK_DEFINE Outer_init Outer_members"

definition Outer_layout :: "Outer layout" where
  "Outer_layout = zip Outer_members
     [field (struct_enc Inner_layout) (members_ok Inner_layout) (struct_fits Inner_layout) out_inner (\<lambda>x. out_inner_update (\<lambda>_. x))]"

lemma Outer_layout_members [simp]: "map fst Outer_layout = Outer_members"
  by (simp add: Outer_layout_def Outer_members_def)

interpretation Outer: struct_codec Outer_init Outer_layout
  by (rule struct_codec.intro)
    (auto simp: Outer_layout_def Outer_members_def Inner_formatter_def intro: Inner.member_field [unfolded hostile_members])

interpretation strict_DemoPacket: strict_struct DemoPacket_init DemoPacket_layout
  by (intro strict_struct.intro DemoPacket.struct_codec_axioms strict_struct_axioms.intro)
    (auto simp: hostile_layouts intro: strict_members)

section \<open>The program\<close>

text \<open>An attempt ends with the error code of its reader, unless an exception leaves it.\<close>

definition attempt :: "'a rop \<Rightarrow> reader \<Rightarrow> MemoryPackError outcome" where
  "attempt m r = fst (bind m (\<lambda>_. gets r_error) r)"

definition ExpectFailure :: "build \<Rightarrow> MemoryPackError outcome \<Rightarrow> (bool, unit) op" where
  "ExpectFailure B result =
     (if has_exceptions B then
        (case result of Throw e \<Rightarrow> Check (exn_code e \<noteq> ErrorNone)
         | _ \<Rightarrow> bind (lift result) (\<lambda>code. Check (code \<noteq> ErrorNone)))
      else bind (lift result) (\<lambda>code. Check (code \<noteq> ErrorNone)))"

definition hostile_reads :: "build \<Rightarrow> (bool, unit) op" where
  "hostile_reads B =
     bind (lift (Serialize B DemoPacket_formatter \<lparr>dpk_id = 7, dpk_name = bytes_of_string ''hello''\<rparr>)) (\<lambda>full.
     bind (lift (if 7 \<le> length full then Ret (take 7 full) else UB)) (\<lambda>truncated.
     seq (ExpectFailure B (attempt (Read B DemoPacket_formatter DemoPacket_init) (make_reader truncated)))
    (seq (ExpectFailure B (attempt (ReadInt64 B) (make_reader [])))
    (seq (ExpectFailure B (attempt (ReadObjectHeader B) (make_reader [0xFC])))
         (ExpectFailure B (attempt (ReadVector B :: u32 list rop)
            (make_reader [0xFF, 0xFF, 0xFF, 0x7F, 0x01, 0x02, 0x03, 0x04])))))))"

definition hostile_limits :: "build \<Rightarrow> (bool, unit) op" where
  "hostile_limits B =
     bind (lift (Serialize B vector_formatter_arith [1, 2, 3, 4, 5 :: u32])) (\<lambda>list.
     seq (ExpectFailure B (attempt (ReadVector B :: u32 list rop)
           (make_reader_with list (default_options\<lparr>maxCollectionLength := 3\<rparr>))))
    (bind (with_local (ReadVector B :: u32 list rop)
           (make_reader_with list (default_options\<lparr>maxCollectionLength := 1000\<rparr>))) (\<lambda>(values, reader).
     seq (Check (\<not> Failed reader \<and> length values = 5))
    (bind (lift (Serialize B string_formatter (bytes_of_string ''abcdefghij''))) (\<lambda>str.
     seq (ExpectFailure B (attempt (ReadString B) (make_reader_with str (default_options\<lparr>maxStringLength := 4\<rparr>))))
    (bind (lift (Serialize B Outer_formatter \<lparr>out_inner = \<lparr>inn_v = 42\<rparr>\<rparr>)) (\<lambda>nested.
     seq (ExpectFailure B (attempt (Read_value B Outer_formatter)
           (make_reader_with nested (default_options\<lparr>maxDepth := 1\<rparr>))))
    (bind (with_local (Read_value B Outer_formatter)
           (make_reader_with nested (default_options\<lparr>maxDepth := 2\<rparr>))) (\<lambda>(value, reader).
       Check (\<not> Failed reader \<and> inn_v (out_inner value) = 42))))))))))"

definition hostile_exact :: "build \<Rightarrow> (bool, unit) op" where
  "hostile_exact B =
     bind (lift (Serialize B DemoPacket_formatter \<lparr>dpk_id = 1, dpk_name = bytes_of_string ''x''\<rparr>)) (\<lambda>bytes.
     let bytes = bytes @ [0xAA] @ [0xBB] in
     bind (lift (Deserialize B DemoPacket_formatter bytes)) (\<lambda>lenient.
     seq (Check (dpk_id lenient = 1))
         (ExpectFailure B (attempt (seq (Read B DemoPacket_formatter DemoPacket_init) (RequireEnd B)) (make_reader bytes)))))"

definition hostile_expected :: "build \<Rightarrow> (bool, unit) op" where
  "hostile_expected B =
     bind (lift (Serialize B DemoPacket_formatter \<lparr>dpk_id = 4, dpk_name = bytes_of_string ''ok''\<rparr>)) (\<lambda>good.
     bind (lift (TryDeserialize B DemoPacket_formatter good)) (\<lambda>parsed.
     seq (Check (case parsed of Inr _ \<Rightarrow> True | Inl _ \<Rightarrow> False))
    (bind (lift (TryDeserialize B DemoPacket_formatter [0x02, 0x01])) (\<lambda>failed.
     seq (Check (case failed of Inr _ \<Rightarrow> False | Inl e \<Rightarrow> e = BufferUnderflow))
    (bind (lift (fst (TrySerializeTo B DemoPacket_formatter (Some (replicate 4 0))
           \<lparr>dpk_id = 1, dpk_name = bytes_of_string ''far too long''\<rparr>))) (\<lambda>overflowed.
     seq (Check (case overflowed of Inr _ \<Rightarrow> False | Inl e \<Rightarrow> e = BufferOverflow))
    (bind (lift (fst (TrySerializeTo B DemoPacket_formatter (Some (replicate 64 0))
           \<lparr>dpk_id = 1, dpk_name = bytes_of_string ''fits''\<rparr>))) (\<lambda>written.
       Check (case written of Inr _ \<Rightarrow> True | Inl _ \<Rightarrow> False)))))))))"

definition hostile_main :: "build \<Rightarrow> (bool, int) op" where
  "hostile_main B = seq (hostile_reads B) (seq (hostile_limits B) (seq (hostile_exact B) (seq (hostile_expected B) exit_code)))"

section \<open>Attempts that fail\<close>

text \<open>An operation that records an error fails the attempt in both error models.\<close>

lemma attempt_fails:
  assumes act: "reader_action act" and r: "reader_inv r" "r_error r = ErrorNone"
    and e: "r_error (snd (act B r)) \<noteq> ErrorNone"
  shows "passes (ExpectFailure B (attempt (act B) r))"
  using reader_action.step [OF act r(1), of B] e r(2)
  by (cases "act B r" rule: outcome_state_cases)
    (auto simp: reader_step_def ExpectFailure_def attempt_def passing)

lemma rejected_attempt:
  assumes "reader_action act" "rejects F act bs" "F opts 0" "length bs < 2 ^ 63"
  shows "passes (ExpectFailure B (attempt (act B) (make_reader_with bs opts)))"
  using assms by (intro attempt_fails assms(1) rejectsD [OF assms(2)]) simp_all

text \<open>A short name: what the program sends.\<close>

lemma short_packet:
  assumes "length (dpk_name p) < 100"
  shows "members_ok DemoPacket_layout p" "struct_fits DemoPacket_layout p default_options 0"
    "length (struct_enc DemoPacket_layout p) \<le> 1000"
  using assms length_enc_string_le [of "dpk_name p"]
  by (simp_all add: hostile_layouts struct_enc_def struct_fits_def string_ok_def string_fits_def default_options_def)

lemma Serialize_packet:
  "length (dpk_name p) < 100 \<Longrightarrow> Serialize B DemoPacket_formatter p = Ret (struct_enc DemoPacket_layout p)"
  using DemoPacket.Serialize_message [unfolded hostile_members, of p B] short_packet [of p]
  by (simp add: hostile_formatters)

lemma packet_safe: "reader_action (\<lambda>B. Read B DemoPacket_formatter v)"
  using DemoPacket.safe [of v] by (simp add: hostile_formatters)

lemma packet_truncated:
  assumes "length (dpk_name p) < 100" "n < length (struct_enc DemoPacket_layout p)"
  shows "rejects (struct_fits DemoPacket_layout p) (\<lambda>B. Read B DemoPacket_formatter v) (take n (struct_enc DemoPacket_layout p))"
  using strict_DemoPacket.truncated [OF short_packet(1) [OF assms(1)], of v] assms(2)
  by (simp add: hostile_formatters truncates_def)

lemma hostile_reads_passes: "passes (hostile_reads B)"
proof -
  let ?p = "\<lparr>dpk_id = 7, dpk_name = bytes_of_string ''hello''\<rparr>"
  let ?full = "struct_enc DemoPacket_layout ?p"
  have len: "7 < length ?full" by (simp add: struct_enc_def hostile_layouts enc_string_def)
  have s: "length (dpk_name ?p) < 100" by simp
  have 1: "passes (ExpectFailure B (attempt (Read B DemoPacket_formatter DemoPacket_init) (make_reader (take 7 ?full))))"
    unfolding make_reader_def
    by (rule rejected_attempt [OF packet_safe packet_truncated [OF s len] short_packet(2) [OF s]]) simp
  have "rejects any_limits ReadInt64 (take 0 (le_bytes (0 :: u64)))"
    unfolding ReadInt64_def [abs_def] using truncates_ReadRaw [of any_limits "0 :: u64"] by (auto simp: truncates_def dest: spec [of _ 0])
  then have 2: "passes (ExpectFailure B (attempt (ReadInt64 B) (make_reader [])))"
    unfolding make_reader_def
    by (intro rejected_attempt [where F = any_limits and act = ReadInt64]) (simp_all add: ReadInt64_def [abs_def] reader_intros)
  have 3: "passes (ExpectFailure B (attempt (ReadObjectHeader B) (make_reader [0xFC])))"
    unfolding make_reader_def
    by (intro rejected_attempt [where F = any_limits] reserved_header_rejected reader_intros) simp_all
  have forged: "le_bytes (0x7FFFFFFF :: u32) = [0xFF, 0xFF, 0xFF, 0x7F]" by code_simp
  have "rejects any_limits (\<lambda>B. ReadVector B :: u32 list rop) (le_bytes (0x7FFFFFFF :: u32) @ [1, 2, 3, 4])"
    unfolding ReadVector_def
    by (intro rejects_bind rejects_mono [OF excessive_length_rejected] reader_intros) (simp_all add: sizeof_def)
  then have 4: "passes (ExpectFailure B (attempt (ReadVector B :: u32 list rop)
      (make_reader [0xFF, 0xFF, 0xFF, 0x7F, 0x01, 0x02, 0x03, 0x04])))"
    unfolding make_reader_def
    using forged by (intro rejected_attempt [where F = any_limits] reader_intros) simp_all
  show ?thesis using len 1 2 3 4 by (simp add: hostile_reads_def Serialize_packet passing)
qed

text \<open>The limits.\<close>

lemma vector_over_limit:
  assumes "length xs < 2 ^ 31"
  shows "rejects (\<lambda>opts d. unat (maxCollectionLength opts) < length xs) (\<lambda>B. ReadVector B :: u32 list rop) (enc_collection le_bytes xs)"
proof -
  let ?n = "word_of_nat (length xs) :: u32"
  have n: "unat ?n = length xs" "0 \<le> sint ?n" using assms sint_of_nat_32 [of "length xs"] by (simp_all add: unat_of_nat_32)
  have "rejects (\<lambda>opts d. unat (maxCollectionLength opts) < length xs) (\<lambda>B. ReadCollectionLength B (sizeof TYPE(32))) (enc_collection le_bytes xs)"
    unfolding enc_collection_def enc_length_def
    by (rule rejects_mono [OF excessive_length_rejected [OF n(2)]]) (simp add: word_less_nat_alt n)
  then show ?thesis unfolding ReadVector_def by (intro rejects_bind reader_intros)
qed

lemma Inner_too_deep:
  "rejects (\<lambda>opts d. unat (maxDepth opts) = Suc d \<and> Suc d < 2 ^ 32 - 1) (\<lambda>B. Read B Outer_formatter v) (struct_enc Outer_layout \<lparr>out_inner = i\<rparr>)"
proof -
  let ?F = "\<lambda>opts d. unat (maxDepth opts) = d \<and> d < 2 ^ 32 - 1"
  have "rejects ?F (\<lambda>B. Read B Inner_formatter w) (struct_enc Inner_layout i)" for w
  proof -
    have "reader_action (\<lambda>B. read_members B 1 0 Inner_members w)"
      using safe_read_members [of Inner_layout 1 0 w] Inner.members by simp
    then have "rejects ?F (\<lambda>B. IMemoryPackable_Deserialize B Inner_init Inner_members w) (1 # members_enc Inner_layout i)"
      by (intro rejects_mono [OF deep_object_rejected]) simp_all
    moreover have "length Inner_layout = 1" by (simp add: hostile_layouts)
    ultimately show ?thesis by (simp add: Read_def Inner_formatter_def MEMORYPACK_DEFINE_def struct_enc_def)
  qed
  then have m: "rejects ?F (\<lambda>B. read_members B 1 0 Outer_members v) (struct_enc Inner_layout i)"
    using Inner.safe [unfolded hostile_members]
    by (auto simp: Outer_members_def member_def hostile_formatters intro!: rejects_bind reader_intros)
  have s: "reader_action (\<lambda>B. read_members B 1 0 Outer_members v)"
    using safe_read_members [of Outer_layout 1 0 v] Outer.members by simp
  have "rejects (\<lambda>opts d. unat (maxDepth opts) = Suc d \<and> Suc d < 2 ^ 32 - 1) (\<lambda>B. bind (EnterObject B) (\<lambda>ok. if \<not> ok then return v
      else bind (read_members B 1 0 Outer_members v) (\<lambda>x. seq LeaveObject (return x)))) (struct_enc Inner_layout i)"
    by (rule nested_rejects [OF m s]) auto
  then have "rejects (\<lambda>opts d. unat (maxDepth opts) = Suc d \<and> Suc d < 2 ^ 32 - 1) (\<lambda>B. IMemoryPackable_Deserialize B Outer_init Outer_members v)
      ([1] @ struct_enc Inner_layout i)"
    unfolding IMemoryPackable_Deserialize_def
    by (intro rejects_after [OF decodes_ReadObjectHeader [where F = any_limits and n = 1]]) (simp_all cong: if_cong)
  then show ?thesis
    by (simp add: Read_def Outer_formatter_def MEMORYPACK_DEFINE_def struct_enc_def Outer_layout_def Outer_members_def)
qed

lemma hostile_limits_passes: "passes (hostile_limits B)"
proof -
  let ?xs = "[1, 2, 3, 4, 5 :: u32]" and ?s = "bytes_of_string ''abcdefghij''" and ?o = "\<lparr>out_inner = \<lparr>inn_v = 42\<rparr>\<rparr>"
  let ?list = "enc_collection le_bytes ?xs" and ?nested = "struct_enc Outer_layout ?o"
  have s1: "Serialize B vector_formatter_arith ?xs = Ret ?list"
    by (rule codec.serialize [OF vector_arith_codec]) (simp_all add: all_ok_def enc_collection_def enc_length_def)
  have s2: "Serialize B string_formatter ?s = Ret (enc_string ?s)"
    by (rule string_codec.serialize) (simp_all add: string_ok_def enc_string_def)
  have s3: "Serialize B Outer_formatter ?o = Ret ?nested"
    unfolding Outer_formatter_def
    by (rule Outer.serialize [unfolded Outer_layout_members])
      (simp_all add: Outer_layout_def Outer_members_def hostile_layouts struct_enc_def)
  have r1: "passes (ExpectFailure B (attempt (ReadVector B :: u32 list rop)
           (make_reader_with ?list (default_options\<lparr>maxCollectionLength := 3\<rparr>))))"
    by (rule rejected_attempt [OF reader_action_ReadVector vector_over_limit])
      (simp_all add: enc_collection_def enc_length_def)
  have a1: "ReadVector B (make_reader_with ?list (default_options\<lparr>maxCollectionLength := 1000\<rparr>)) =
      (Ret ?xs, make_reader_with ?list (default_options\<lparr>maxCollectionLength := 1000\<rparr>)\<lparr>r_pos := length ?list\<rparr>)"
    using Read_start [where rest = "[]", OF decodes_ReadVector [of ?xs "\<lambda>opts d. 5 \<le> unat (maxCollectionLength opts)" B]]
    by (simp add: enc_collection_def enc_length_def)
  have r2: "passes (ExpectFailure B (attempt (ReadString B) (make_reader_with (enc_string ?s) (default_options\<lparr>maxStringLength := 4\<rparr>))))"
    by (rule rejected_attempt [OF reader_action_ReadString long_string_rejected])
      (simp_all add: string_fits_def enc_string_def)
  have r3: "passes (ExpectFailure B (attempt (Read_value B Outer_formatter) (make_reader_with ?nested (default_options\<lparr>maxDepth := 1\<rparr>))))"
    unfolding Read_value_def
    by (rule rejected_attempt [OF _ Inner_too_deep])
      (use Outer.safe in \<open>simp_all add: Outer_formatter_def struct_enc_def Outer_layout_def Outer_members_def hostile_layouts\<close>)
  have a3: "Read_value B Outer_formatter (make_reader_with ?nested (default_options\<lparr>maxDepth := 2\<rparr>)) =
      (Ret ?o, make_reader_with ?nested (default_options\<lparr>maxDepth := 2\<rparr>)\<lparr>r_pos := length ?nested\<rparr>)"
    using Read_start [where rest = "[]", OF Outer.reads_value [of ?o B]]
    by (simp add: Outer_formatter_def struct_fits_def struct_enc_def Outer_layout_def Outer_members_def hostile_layouts)
  show ?thesis using r1 r2 r3
    by (simp add: hostile_limits_def s1 s2 s3 a1 a3 Failed_def passing)
qed

section \<open>Trailing bytes and expected\<close>

lemma RequireEnd_rejects: "bs \<noteq> [] \<Longrightarrow> rejects F RequireEnd bs"
  by (intro rejectsI) (auto simp: RequireEnd_def IsEnd_def reader_inv_def seq_def bind_def Fail_def Let_def)

lemma hostile_exact_passes: "passes (hostile_exact B)"
proof -
  let ?p = "\<lparr>dpk_id = 1, dpk_name = bytes_of_string ''x''\<rparr>" and ?t = "[0xAA, 0xBB] :: bytes"
  let ?e = "struct_enc DemoPacket_layout ?p"
  have s: "length (dpk_name ?p) < 100" by simp
  have d: "decodes (struct_fits DemoPacket_layout ?p) (Read B DemoPacket_formatter v) ?e ?p" for v B
    using DemoPacket.reads [OF short_packet(1) [OF s], of B v] by (simp add: hostile_formatters)
  have 1: "Deserialize B DemoPacket_formatter (?e @ ?t) = Ret ?p"
    using short_packet(3) [OF s] by (intro Deserialize_decodes [OF d short_packet(2) [OF s]]) simp
  have "rejects (struct_fits DemoPacket_layout ?p) (\<lambda>B. seq (Read B DemoPacket_formatter DemoPacket_init) (RequireEnd B)) (?e @ ?t)"
    unfolding seq_def by (intro rejects_after [OF d] RequireEnd_rejects) simp_all
  then have "passes (ExpectFailure B (attempt (seq (Read B DemoPacket_formatter DemoPacket_init) (RequireEnd B)) (make_reader (?e @ ?t))))"
    unfolding make_reader_def
    by (rule rejected_attempt [where act = "\<lambda>B. seq (Read B DemoPacket_formatter DemoPacket_init) (RequireEnd B)", rotated])
      (use short_packet(2,3) [OF s] in \<open>(intro reader_intros packet_safe | simp)+\<close>)
  with 1 show ?thesis by (simp add: hostile_exact_def Serialize_packet Let_def passing)
qed

lemma truncated_id: "TryDeserialize B DemoPacket_formatter [2, 1] = Ret (Inl BufferUnderflow)"
proof -
  let ?r = "make_reader [2, 1]"
  have "ReadObjectHeader B ?r = (Ret \<lparr>count = 2, isNull = False\<rparr>, ?r\<lparr>r_pos := 1\<rparr>)"
    using Read_start [OF decodes_ReadObjectHeader [of 2 any_limits B], where opts = default_options and rest = "[1]"] by (simp add: make_reader_def)
  moreover have "EnterObject B (?r\<lparr>r_pos := 1\<rparr>) = (Ret True, ?r\<lparr>r_pos := 1, r_depth := 1\<rparr>)"
    by (simp add: EnterObject_def make_reader_def make_reader_with_def default_options_def)
  ultimately show ?thesis
    by (cases "has_exceptions B")
      (simp_all add: TryDeserialize_def Read_def hostile_formatters MEMORYPACK_DEFINE_def IMemoryPackable_Deserialize_def
        Inner_members_def DemoPacket_members_def member_def uint32_formatter_def string_formatter_def ReadUInt32_def ReadRaw_def ReadString_into_def ReadString_def
        EnsureBytes_def Fail_def seq_def bind_def return_def gets_def LeaveObject_def Failed_def make_reader_def make_reader_with_def size_sub_def sizeof_def)
qed

text \<open>\<^verbatim>\<open>TrySerializeTo\<close> succeeds exactly when the encoding fits into the buffer.\<close>

context codec
begin

lemma try_serialize_to:
  assumes "ok v" "length mem < 2 ^ 64"
  shows "fst (TrySerializeTo B T (Some mem) v) =
    Ret (if length (enc v) \<le> length mem then Inr (length (enc v)) else Inl BufferOverflow)"
proof (cases "length (enc v) \<le> length mem")
  case True
  with emitsD(1) [OF writes [OF assms(1)], of "writer_span (Some mem)" B] assms(2)
  obtain w where w: "Write B T v (writer_span (Some mem)) = (Ret (), w)" "writer_inv w" "w_error w = ErrorNone" "GetSpan w = enc v"
    by (auto elim: appendedE)
  with length_GetSpan [OF w(2)] True show ?thesis by (simp add: TrySerializeTo_def WriterFailed_def)
next
  case False
  with emitsD(2) [OF writes [OF assms(1)], of "writer_span (Some mem)" B] assms(2)
  obtain res w where "Write B T v (writer_span (Some mem)) = (res, w)" "w_error w = BufferOverflow"
    "if has_exceptions B then \<exists>e. res = Throw e \<and> exn_code e = BufferOverflow else res = Ret ()"
    by (auto simp: overflowed_def)
  with False show ?thesis by (auto simp: TrySerializeTo_def WriterFailed_def split: if_splits)
qed

end

lemma hostile_expected_passes: "passes (hostile_expected B)"
proof -
  let ?g = "\<lparr>dpk_id = 4, dpk_name = bytes_of_string ''ok''\<rparr>"
  let ?l = "\<lparr>dpk_id = 1, dpk_name = bytes_of_string ''far too long''\<rparr>" and ?f = "\<lparr>dpk_id = 1, dpk_name = bytes_of_string ''fits''\<rparr>"
  have s: "length (dpk_name ?g) < 100" "length (dpk_name ?l) < 100" "length (dpk_name ?f) < 100" by simp_all
  have 1: "TryDeserialize B DemoPacket_formatter (struct_enc DemoPacket_layout ?g) = Ret (Inr ?g)"
    using DemoPacket.deserialize_round_trip(3) [OF short_packet(1,2) [OF s(1)], of "[]" B] short_packet(3) [OF s(1)]
    by (simp add: hostile_formatters)
  have t: "fst (TrySerializeTo B DemoPacket_formatter (Some (replicate n 0)) p) =
      Ret (if length (struct_enc DemoPacket_layout p) \<le> n then Inr (length (struct_enc DemoPacket_layout p)) else Inl BufferOverflow)"
    if "length (dpk_name p) < 100" "n < 1000" for p n
    using DemoPacket.try_serialize_to [OF short_packet(1) [OF that(1)], of "replicate n 0" B] that(2)
    by (simp add: hostile_formatters)
  have l: "length (struct_enc DemoPacket_layout ?l) = 25" "length (struct_enc DemoPacket_layout ?f) = 17"
    by (simp_all add: struct_enc_def hostile_layouts enc_string_def)
  show ?thesis
    by (simp add: hostile_expected_def Serialize_packet 1 truncated_id t l passing)
qed

lemma hostile_main_ok: "hostile_main B True = (Ret 0, True)"
  by (simp add: hostile_main_def seq_passes hostile_reads_passes hostile_limits_passes hostile_exact_passes hostile_expected_passes)

end
