(* ===== verification/Nullables.thy ===== *)
theory Nullables
  imports Examples
begin

text \<open>
  The four null encodings (\<^verbatim>\<open>examples/03_nullable.cpp\<close>): a nullable value is a copy of the .NET struct, a null string
  and a null collection are the header -1, a null object is the byte 255. The sizes that the program prints are
  8, 4, 4 and 1 (\<open>null_sizes_value\<close>), and every check holds: null and empty stay different (\<open>nullable_main_ok\<close>).
\<close>

record Profile =
  prf_id :: u32
  prf_nick :: bytes

definition Profile_members :: "Profile member list" where
  "Profile_members = [member uint32_formatter prf_id (\<lambda>x. prf_id_update (\<lambda>_. x)),
     member string_formatter prf_nick (\<lambda>x. prf_nick_update (\<lambda>_. x))]"

definition Profile_init :: Profile where
  "Profile_init = \<lparr>prf_id = 0, prf_nick = []\<rparr>"

definition Profile_formatter :: "Profile MemoryPackFormatter" where
  "Profile_formatter = MEMORYPACK_DEFINE Profile_init Profile_members"

section \<open>Layouts\<close>

definition Profile_layout :: "Profile layout" where
  "Profile_layout = zip Profile_members [word_field prf_id (\<lambda>x. prf_id_update (\<lambda>_. x)),
     string_field prf_nick (\<lambda>x. prf_nick_update (\<lambda>_. x))]"

lemmas profile_layouts =
  Profile_layout_def Profile_members_def

lemma profile_members [simp]:
  "map fst Profile_layout = Profile_members"
  by (simp_all add: profile_layouts)

interpretation Profile: struct_codec Profile_init Profile_layout
  by (rule struct_codec.intro) (auto simp: profile_layouts intro: struct_members)

lemmas profile_formatters =
  Profile_formatter_def

section \<open>The program\<close>

definition optional_int :: "u32 option MemoryPackFormatter" where
  "optional_int = optional_nullable 4"

definition optional_double :: "u64 option MemoryPackFormatter" where
  "optional_double = optional_nullable 8"

definition optional_list :: "u32 list option MemoryPackFormatter" where
  "optional_list = optional_collection vector_formatter_arith"

definition optional_profile :: "Profile option MemoryPackFormatter" where
  "optional_profile = optional_object Profile_formatter"

definition neo :: Profile where
  "neo = \<lparr>prf_id = 5, prf_nick = bytes_of_string ''neo''\<rparr>"

definition nullable_shows :: "build \<Rightarrow> (bool, unit) op" where
  "nullable_shows B =
     seq (Show B optional_int (Some 42))
    (seq (Show B optional_int None)
    (seq (Show B optional_double None)
    (seq (Show B optional_string (Some (bytes_of_string ''hi'')))
    (seq (Show B optional_string (Some []))
    (seq (Show B optional_string None)
    (seq (Show B optional_list (Some [1, 2]))
    (seq (Show B optional_list (Some []))
    (seq (Show B optional_list None)
    (seq (Show B optional_profile (Some neo))
         (Show B optional_profile None))))))))))"

text \<open>The printed sizes of the four nulls.\<close>

definition null_sizes :: "build \<Rightarrow> (bool, size_t list) op" where
  "null_sizes B =
     bind (lift (Serialize B optional_int None)) (\<lambda>a.
     bind (lift (Serialize B optional_string None)) (\<lambda>b.
     bind (lift (Serialize B optional_list None)) (\<lambda>c.
     bind (lift (Serialize B optional_profile None)) (\<lambda>d.
       return [length a, length b, length c, length d]))))"

definition nullable_checks :: "build \<Rightarrow> (bool, unit) op" where
  "nullable_checks B =
     seq (bind (sent_back B optional_int (Some 42)) (\<lambda>v. Check (v = Some 42)))
    (seq (bind (sent_back B optional_int None) (\<lambda>v. Check (v = None)))
    (seq (bind (sent_back B optional_string None) (\<lambda>v. Check (v = None)))
    (seq (bind (sent_back B optional_string (Some [])) (\<lambda>emptyBack. Check (case emptyBack of Some s \<Rightarrow> s = [] | None \<Rightarrow> False)))
    (seq (bind (sent_back B optional_list None) (\<lambda>v. Check (v = None)))
    (seq (bind (sent_back B optional_list (Some [])) (\<lambda>emptyList. Check (case emptyList of Some l \<Rightarrow> l = [] | None \<Rightarrow> False)))
    (seq (bind (sent_back B optional_profile None) (\<lambda>v. Check (v = None)))
         (bind (sent_back B optional_profile (Some neo)) (\<lambda>profile.
            Check (case profile of Some p \<Rightarrow> prf_nick p = bytes_of_string ''neo'' | None \<Rightarrow> False)))))))))"

definition nullable_main :: "build \<Rightarrow> (bool, int) op" where
  "nullable_main B = seq (nullable_shows B) (seq (null_sizes B) (seq (nullable_checks B) exit_code))"

section \<open>The checks hold\<close>

abbreviation "null_word \<equiv> le_bytes (-1 :: u32)"

interpretation optional_int: codec optional_int "nullable_enc 4" "\<lambda>_. True" "\<lambda>_ _ _. True"
  unfolding optional_int_def by (rule optional_nullable_codec) simp_all

interpretation optional_double: codec optional_double "nullable_enc 8" "\<lambda>_. True" "\<lambda>_ _ _. True"
  unfolding optional_double_def by (rule optional_nullable_codec) simp_all

interpretation optional_text: codec optional_string "opt_enc null_word enc_string" "opt_ok string_ok"
  "opt_fits (\<lambda>s opts d. string_fits s opts)"
  by (rule optional_string_codec)

interpretation optional_list: codec optional_list "opt_enc null_word (enc_collection le_bytes)"
  "opt_ok (all_ok (\<lambda>_. True))" "opt_fits (all_fit (\<lambda>_ _ _. True))"
  unfolding optional_list_def
  by (intro nullable_collection.optional_codec nullable_collection.intro vector_arith_codec
      nullable_collection_axioms.intro collection_header) (simp_all add: all_ok_def)

interpretation optional_profile: codec optional_profile "opt_enc [255] (struct_enc Profile_layout)"
  "opt_ok (members_ok Profile_layout)" "opt_fits (struct_fits Profile_layout)"
  unfolding optional_profile_def profile_formatters
  by (rule Profile.object.optional_codec [unfolded profile_members])

lemma neo_short:
  "members_ok Profile_layout neo" "struct_fits Profile_layout neo default_options 0" "length (struct_enc Profile_layout neo) \<le> 100"
  using length_enc_string_le [of "bytes_of_string ''neo''"]
  by (simp_all add: profile_layouts neo_def struct_enc_def struct_fits_def string_ok_def string_fits_def default_options_def)

lemma optional_sizes:
  "length (nullable_enc 4 (v :: u32 option)) = 8" "length (nullable_enc 8 (w :: u64 option)) = 16"
  by (cases v; simp add: nullable_enc_def NullableLayout_Size_def NullableLayout_ValueOffset_def sizeof_def)
    (cases w; simp add: nullable_enc_def NullableLayout_Size_def NullableLayout_ValueOffset_def sizeof_def)

lemmas optional_encodings = optional_sizes all_ok_def all_fit_def string_ok_def string_fits_def default_options_def
  enc_collection_def enc_length_def enc_string_def

lemma nullable_shows_passes: "passes (nullable_shows B)"
  unfolding nullable_shows_def
  by (intro passing optional_int.passes_Show optional_double.passes_Show optional_text.passes_Show optional_list.passes_Show
      optional_profile.passes_Show)
    (use neo_short in \<open>simp_all add: optional_encodings\<close>)

lemma null_sizes_value: "null_sizes B = return [8, 4, 4, 1]"
  using optional_int.Serialize_message [of None B] optional_text.Serialize_message [of None B]
    optional_list.Serialize_message [of None B] optional_profile.Serialize_message [of None B]
  by (simp add: null_sizes_def optional_encodings return_def)

lemma nullable_checks_passes: "passes (nullable_checks B)"
  unfolding nullable_checks_def
  by (intro passing optional_int.passes_sent_back optional_text.passes_sent_back optional_list.passes_sent_back
      optional_profile.passes_sent_back)
    (use neo_short in \<open>simp_all add: optional_encodings neo_def\<close>)

lemma nullable_main_ok: "nullable_main B True = (Ret 0, True)"
  by (simp add: nullable_main_def seq_passes nullable_shows_passes null_sizes_value nullable_checks_passes)

end
