(* ===== verification/FixedBuffer.thy ===== *)
theory FixedBuffer
  imports Examples
begin

text \<open>
  Serialization without allocation (\<^verbatim>\<open>examples/06_fixed_buffer.cpp\<close>): a stack array, one writer that is cleared and
  reused for every message, a frame whose length is patched in after the body, and a buffer that is too small.
  \<open>reused_loop_sends\<close> is the loop invariant of the reused writer for any number of messages; every check holds
  on every build (\<open>fixed_main_ok\<close>).
\<close>

unbundle bit_operations_syntax

record Telemetry =
  tel_tick :: u32
  tel_x :: u32
  tel_y :: u32
  tel_z :: u32

definition Telemetry_members :: "Telemetry member list" where
  "Telemetry_members = [member uint32_formatter tel_tick (\<lambda>x. tel_tick_update (\<lambda>_. x)),
     member float_formatter tel_x (\<lambda>x. tel_x_update (\<lambda>_. x)),
     member float_formatter tel_y (\<lambda>x. tel_y_update (\<lambda>_. x)),
     member float_formatter tel_z (\<lambda>x. tel_z_update (\<lambda>_. x))]"

definition Telemetry_init :: Telemetry where
  "Telemetry_init = \<lparr>tel_tick = 0, tel_x = 0, tel_y = 0, tel_z = 0\<rparr>"

definition Telemetry_formatter :: "Telemetry MemoryPackFormatter" where
  "Telemetry_formatter = MEMORYPACK_DEFINE Telemetry_init Telemetry_members"

section \<open>Layouts\<close>

definition Telemetry_layout :: "Telemetry layout" where
  "Telemetry_layout = zip Telemetry_members [word_field tel_tick (\<lambda>x. tel_tick_update (\<lambda>_. x)),
     word_field tel_x (\<lambda>x. tel_x_update (\<lambda>_. x)),
     word_field tel_y (\<lambda>x. tel_y_update (\<lambda>_. x)),
     word_field tel_z (\<lambda>x. tel_z_update (\<lambda>_. x))]"

lemmas telemetry_layouts =
  Telemetry_layout_def Telemetry_members_def

lemma telemetry_members [simp]:
  "map fst Telemetry_layout = Telemetry_members"
  by (simp_all add: telemetry_layouts)

interpretation Telemetry: struct_codec Telemetry_init Telemetry_layout
  by (rule struct_codec.intro) (auto simp: telemetry_layouts intro: struct_members)

lemmas telemetry_formatters =
  Telemetry_formatter_def

section \<open>The program\<close>

definition telemetry_1 :: Telemetry where
  "telemetry_1 = \<lparr>tel_tick = 1, tel_x = 0x3F800000, tel_y = 0x40000000, tel_z = 0x40400000\<rparr>"

definition fixed_direct :: "build \<Rightarrow> (bool, unit) op" where
  "fixed_direct B =
     (case SerializeTo B Telemetry_formatter (Some (replicate 64 0)) telemetry_1 of (res, buffer) \<Rightarrow>
        bind (lift res) (\<lambda>written.
        bind (lift (subspan buffer 0 written)) (\<lambda>used.
        bind (lift (Deserialize B Telemetry_formatter used)) (\<lambda>received.
          seq (Check (tel_tick received = 1 \<and> float_eq (tel_z received) 0x40400000))
              (Check (written = 17))))))"

fun reused_loop :: "build \<Rightarrow> nat list \<Rightarrow> writer \<Rightarrow> size_t \<Rightarrow> (bool, writer \<times> size_t) op" where
  "reused_loop B [] writer totalSent = return (writer, totalSent)"
| "reused_loop B (tick # rounds) writer totalSent =
     bind (with_local (seq Clear (Write B Telemetry_formatter
         \<lparr>tel_tick = word_of_nat tick, tel_x = float_of_nat tick, tel_y = 0, tel_z = 0\<rparr>)) writer) (\<lambda>(_, writer).
       (let frame = GetSpan writer; totalSent = size_add totalSent (length frame) in
        bind (lift (Deserialize B Telemetry_formatter frame)) (\<lambda>received.
          seq (Check (tel_tick received = word_of_nat tick)) (reused_loop B rounds writer totalSent))))"

definition fixed_reused :: "build \<Rightarrow> (bool, unit) op" where
  "fixed_reused B =
     bind (reused_loop B [1, 2, 3] (writer_array (replicate 256 0)) 0) (\<lambda>(writer, totalSent).
       seq (Check (totalSent = 3 * 17))
           (Check (RemainingCapacity writer_default = 2 ^ 64 - 1)))"

text \<open>Step C of the frame: the identifier and the length in the reserved bytes.\<close>

definition fill_header :: "u16 \<Rightarrow> size_t \<Rightarrow> bytes \<Rightarrow> (bool, bytes) op" where
  "fill_header packetId bodyLength sendBuffer =
     (let len = word_of_nat bodyLength :: u64 in
     bind (lift (put_at 0 (ucast (packetId AND 0xFF)) sendBuffer)) (\<lambda>sendBuffer.
     bind (lift (put_at 1 (ucast (drop_bit 8 packetId AND 0xFF)) sendBuffer)) (\<lambda>sendBuffer.
     bind (lift (put_at 2 (ucast (len AND 0xFF)) sendBuffer)) (\<lambda>sendBuffer.
     bind (lift (put_at 3 (ucast (drop_bit 8 len AND 0xFF)) sendBuffer)) (\<lambda>sendBuffer.
     bind (lift (put_at 4 (ucast (drop_bit 16 len AND 0xFF)) sendBuffer)) (\<lambda>sendBuffer.
     lift (put_at 5 (ucast (drop_bit 24 len AND 0xFF)) sendBuffer)))))))"

definition fixed_patched :: "build \<Rightarrow> (bool, unit) op" where
  "fixed_patched B =
     bind (with_local (Write B Telemetry_formatter
         \<lparr>tel_tick = 99, tel_x = 0x40800000, tel_y = 0x40A00000, tel_z = 0x40C00000\<rparr>)
       (writer_vector (replicate 6 0))) (\<lambda>(_, writer).
     let sendBuffer = Data writer in
     seq (Check (Size writer = length sendBuffer))
    (let bodyLength = size_sub (length sendBuffer) 6 in
     bind (fill_header 0x2A bodyLength sendBuffer) (\<lambda>sendBuffer.
     seq (Check (bodyLength = 17))
    (bind (lift (subspan sendBuffer 6 bodyLength)) (\<lambda>body.
     bind (lift (Deserialize B Telemetry_formatter body)) (\<lambda>received.
       Check (tel_tick received = 99 \<and> float_eq (tel_y received) 0x40A00000)))))))"

definition fixed_overflow :: "build \<Rightarrow> (bool, unit) op" where
  "fixed_overflow B =
     (case SerializeTo B Telemetry_formatter (Some (replicate 8 0)) telemetry_1 of (res, tiny) \<Rightarrow>
     seq (if has_exceptions B
          then (case res of Throw e \<Rightarrow> Check True | _ \<Rightarrow> bind (lift res) (\<lambda>written. Check False))
          else bind (lift res) (\<lambda>written. Check (written = 0)))
    (bind (with_local (seq (WriteInt32 B 1) (WriteInt32 B 2)) (writer_array tiny)) (\<lambda>(_, writer).
     seq (Check (Size writer = 8 \<and> RemainingCapacity writer = 0))
    (seq (Check (\<not> WriterFailed writer))
    (bind (with_local Clear writer) (\<lambda>(_, writer).
       Check (Size writer = 0 \<and> RemainingCapacity writer = 8)))))))"

definition fixed_main :: "build \<Rightarrow> (bool, int) op" where
  "fixed_main B = seq (fixed_direct B) (seq (fixed_reused B) (seq (fixed_patched B) (seq (fixed_overflow B) exit_code)))"

section \<open>The checks hold\<close>

lemma telemetry_ok:
  "members_ok Telemetry_layout v" "struct_fits Telemetry_layout v default_options 0" "length (struct_enc Telemetry_layout v) = 17"
  by (simp_all add: telemetry_layouts struct_enc_def struct_fits_def default_options_def)

lemma telemetry_emits: "emits B (Write B Telemetry_formatter v) (struct_enc Telemetry_layout v)"
  using Telemetry.writes [OF telemetry_ok(1), of B v] by (simp add: telemetry_formatters)

lemma telemetry_back [simp]: "Deserialize B Telemetry_formatter (struct_enc Telemetry_layout v) = Ret v"
  using Telemetry.Deserialize_message [OF telemetry_ok(1,2), of v B] telemetry_ok(3) [of v] by (simp add: telemetry_formatters)

lemma fixed_direct_passes: "passes (fixed_direct B)"
proof -
  let ?e = "struct_enc Telemetry_layout telemetry_1"
  obtain mem where m: "SerializeTo B Telemetry_formatter (Some (replicate 64 0)) telemetry_1 = (Ret 17, mem)"
    "length mem = 64" "take 17 mem = ?e"
    using Telemetry.serialize_to [OF telemetry_ok(1), of telemetry_1 "replicate 64 0" B]
    by (auto simp: telemetry_formatters telemetry_ok)
  then show ?thesis
    by (auto simp: fixed_direct_def subspan_def telemetry_1_def float_eq_def float_nan_def intro!: passing)
qed

text \<open>A writer on a fixed buffer of at least 17 bytes.\<close>

definition scratch_writer :: "nat \<Rightarrow> writer \<Rightarrow> bool" where
  "scratch_writer n w \<longleftrightarrow> writer_inv w \<and> is_fixed w \<and> w_fixedCap w = n"

lemma scratch_array: "length mem < 2 ^ 64 \<Longrightarrow> scratch_writer (length mem) (writer_array mem)"
  by (simp add: scratch_writer_def writer_inv_def is_fixed_def writer_array_def writer_default_def)

lemma scratch_emits:
  assumes "scratch_writer n w" "w_error w = ErrorNone" "emits B m bs" "length (GetSpan w) + length bs \<le> n"
  shows "\<exists>w'. m w = (Ret (), w') \<and> scratch_writer n w' \<and> GetSpan w' = GetSpan w @ bs \<and> w_error w' = ErrorNone"
proof -
  have r: "room w (length bs)" using assms(1,4)
    by (auto simp: scratch_writer_def is_fixed_def writer_inv_def GetSpan_def Size_def Data_def room_def split: option.splits)
  with emitsD(1) [OF assms(3), of w] assms(1,2) obtain w' where "m w = (Ret (), w')" "writer_inv w'" "same_target w w'"
    "w_error w' = ErrorNone" "GetSpan w' = GetSpan w @ bs"
    by (auto simp: scratch_writer_def elim: appendedE)
  with assms(1) show ?thesis by (auto simp: scratch_writer_def is_fixed_def same_target_def)
qed

lemma cleared_write:
  assumes "scratch_writer n w" "emits B m bs" "length bs \<le> n"
  obtains w' where "seq Clear m w = (Ret (), w')" "scratch_writer n w'" "GetSpan w' = bs" "w_error w' = ErrorNone"
proof -
  define c where "c = w\<lparr>w_fixedPos := 0, w_error := ErrorNone\<rparr>"
  have c: "Clear w = (Ret (), c)" "scratch_writer n c" "GetSpan c = []" "w_error c = ErrorNone"
    using assms(1) by (auto simp: c_def Clear_def scratch_writer_def is_fixed_def writer_inv_def GetSpan_def Size_def
        split: option.splits)
  from scratch_emits [OF c(2,4) assms(2)] c assms(3) that show thesis by (auto simp: seq_def)
qed

lemma reused_loop_sends:
  assumes "scratch_writer n w" "17 \<le> n" "sent + 17 * length rounds < 2 ^ 64"
  shows "\<exists>w'. reused_loop B rounds w sent = return (w', sent + 17 * length rounds) \<and> scratch_writer n w'"
  using assms
proof (induction rounds arbitrary: w sent)
  case (Cons tick rounds)
  let ?v = "\<lparr>tel_tick = word_of_nat tick, tel_x = float_of_nat tick, tel_y = 0, tel_z = 0\<rparr>"
  from cleared_write [OF Cons.prems(1) telemetry_emits, of ?v B] Cons.prems(2) obtain w' where
    "seq Clear (Write B Telemetry_formatter ?v) w = (Ret (), w')" "scratch_writer n w'" "GetSpan w' = struct_enc Telemetry_layout ?v"
    by (auto simp: telemetry_ok)
  then show ?case using Cons.IH [of w' "sent + 17"] Cons.prems(2,3)
    by (simp add: telemetry_ok Let_def size_add_def add.assoc add.commute)
qed auto

lemma fixed_reused_passes: "passes (fixed_reused B)"
  using reused_loop_sends [OF scratch_array [of "replicate 256 0"], of 0 "[1, 2, 3]" B]
  by (auto simp: fixed_reused_def RemainingCapacity_def writer_default_def intro!: passing)

text \<open>The patched bytes are the header of \<^verbatim>\<open>packet.hpp\<close>.\<close>

lemma fill_header_frame:
  assumes "length h = 6"
  shows "fill_header i n (h @ body) = return (le_bytes i @ le_bytes (word_of_nat n :: u32) @ body)"
proof -
  obtain a b c d e f where h: "h = [a, b, c, d, e, f]" using assms by (auto simp: numeral_eq_Suc length_Suc_conv)
  have mask: "(0xFF :: u64) = mask 8" "(0xFF :: u16) = mask 8" by (simp_all add: mask_eq_exp_minus_1)
  have byte: "ucast (drop_bit k (word_of_nat n :: u64) AND 0xFF) = (ucast (drop_bit k (word_of_nat n :: u32)) :: byte)" if "k < 32 - 7" for k
    using that unfolding mask by (intro bit_eqI) (auto simp: bit_simps)
  have low: "ucast (w AND 0xFF) = (ucast w :: byte)" for w :: u16
    unfolding mask by (intro bit_eqI) (auto simp: bit_simps)
  have "le_bytes i = [ucast (i AND 0xFF), ucast (drop_bit 8 i AND 0xFF)]"
    by (simp add: le_bytes_def upt_rec low)
  moreover have "le_bytes (word_of_nat n :: u32) = map (\<lambda>k. ucast (drop_bit k (word_of_nat n :: u64) AND 0xFF)) [0, 8, 16, 24]"
    using byte [of 0] byte [of 8] byte [of 16] byte [of 24] by (simp add: le_bytes_def upt_rec)
  ultimately show ?thesis by (simp add: fill_header_def put_at_def h Let_def lift_def return_def)
qed

lemma fixed_patched_passes: "passes (fixed_patched B)"
proof -
  let ?v = "\<lparr>tel_tick = 99, tel_x = 0x40800000, tel_y = 0x40A00000, tel_z = 0x40C00000\<rparr>"
  let ?e = "struct_enc Telemetry_layout ?v"
  obtain w where w: "Write B Telemetry_formatter ?v (writer_vector (replicate 6 0)) = (Ret (), w)" "Data w = replicate 6 0 @ ?e"
    "Size w = length (Data w)"
    using writes_vector [OF telemetry_emits, of B ?v "replicate 6 0"] by metis
  have "fill_header 0x2A 17 (replicate 6 0 @ ?e) = return (le_bytes (0x2A :: u16) @ le_bytes (word_of_nat 17 :: u32) @ ?e)"
    by (rule fill_header_frame) simp
  with w show ?thesis
    by (auto simp: fixed_patched_def Let_def subspan_def telemetry_ok size_sub_def float_eq_def float_nan_def intro!: passing)
qed

lemma fixed_overflow_passes: "passes (fixed_overflow B)"
proof -
  obtain mem e where m: "SerializeTo B Telemetry_formatter (Some (replicate 8 0)) telemetry_1 =
      (if has_exceptions B then Throw e else Ret 0, mem)" "length mem = 8"
    using Telemetry.serialize_to_small [OF telemetry_ok(1), of "replicate 8 0" telemetry_1 B]
    by (auto simp: telemetry_formatters telemetry_ok)
  have a: "scratch_writer 8 (writer_array mem)" "w_error (writer_array mem) = ErrorNone" "GetSpan (writer_array mem) = []"
    using scratch_array [of mem] m(2) by (simp_all add: writer_array_def writer_default_def GetSpan_def Size_def)
  have e: "emits B (seq (WriteInt32 B 1) (WriteInt32 B 2)) (le_bytes (1 :: u32) @ le_bytes (2 :: u32))"
    unfolding WriteInt32_def by (intro emits_seq emits_WriteRaw)
  obtain w where w: "seq (WriteInt32 B 1) (WriteInt32 B 2) (writer_array mem) = (Ret (), w)" "scratch_writer 8 w"
    "length (GetSpan w) = 8" "w_error w = ErrorNone"
    using scratch_emits [OF a(1,2) e] a(3) by auto
  then have "Size w = 8" "RemainingCapacity w = 0" "\<not> WriterFailed w" "\<exists>c. Clear w = (Ret (), c) \<and> Size c = 0 \<and> RemainingCapacity c = 8"
    by (auto simp: scratch_writer_def is_fixed_def writer_inv_def RemainingCapacity_def WriterFailed_def Clear_def Size_def
        GetSpan_def Data_def size_sub_def split: option.splits)
  with m w show ?thesis by (auto simp: fixed_overflow_def intro!: passing)
qed

lemma fixed_main_ok: "fixed_main B True = (Ret 0, True)"
  by (simp add: fixed_main_def seq_passes fixed_direct_passes fixed_reused_passes fixed_patched_passes fixed_overflow_passes)

end
