(* ===== verification/Framing.thy ===== *)
theory Framing
  imports Examples
begin

text \<open>
  Packets on a stream (\<^verbatim>\<open>examples/07_packet_framing.cpp\<close>): one packet and its header, three packets in one send
  buffer, their reassembly from chunks of seven bytes and from one chunk by a parser whose callback decodes and
  checks each body, and a header with an absurd length. \<open>chunk_loop_delivers\<close> states the receiving loop for every
  stream, callback and chunk size; the program ends and every check holds (\<open>framing_main_ok\<close>).
\<close>

record FrameLogin =
  fln_userName :: bytes
  fln_level :: u32

record FrameChat =
  fch_from :: bytes
  fch_msg :: bytes

record Heartbeat =
  hbt_timestamp :: u64

definition FrameLogin_members :: "FrameLogin member list" where
  "FrameLogin_members = [member string_formatter fln_userName (\<lambda>x. fln_userName_update (\<lambda>_. x)),
     member uint32_formatter fln_level (\<lambda>x. fln_level_update (\<lambda>_. x))]"

definition FrameChat_members :: "FrameChat member list" where
  "FrameChat_members = [member string_formatter fch_from (\<lambda>x. fch_from_update (\<lambda>_. x)),
     member string_formatter fch_msg (\<lambda>x. fch_msg_update (\<lambda>_. x))]"

definition Heartbeat_members :: "Heartbeat member list" where
  "Heartbeat_members = [member uint64_formatter hbt_timestamp (\<lambda>x. hbt_timestamp_update (\<lambda>_. x))]"

definition FrameLogin_init :: FrameLogin where
  "FrameLogin_init = \<lparr>fln_userName = [], fln_level = 0\<rparr>"

definition FrameChat_init :: FrameChat where
  "FrameChat_init = \<lparr>fch_from = [], fch_msg = []\<rparr>"

definition Heartbeat_init :: Heartbeat where
  "Heartbeat_init = \<lparr>hbt_timestamp = 0\<rparr>"

definition FrameLogin_formatter :: "FrameLogin MemoryPackFormatter" where
  "FrameLogin_formatter = MEMORYPACK_DEFINE FrameLogin_init FrameLogin_members"

definition FrameChat_formatter :: "FrameChat MemoryPackFormatter" where
  "FrameChat_formatter = MEMORYPACK_DEFINE FrameChat_init FrameChat_members"

definition Heartbeat_formatter :: "Heartbeat MemoryPackFormatter" where
  "Heartbeat_formatter = MEMORYPACK_DEFINE Heartbeat_init Heartbeat_members"

section \<open>Layouts\<close>

definition FrameLogin_layout :: "FrameLogin layout" where
  "FrameLogin_layout = zip FrameLogin_members [string_field fln_userName (\<lambda>x. fln_userName_update (\<lambda>_. x)),
     word_field fln_level (\<lambda>x. fln_level_update (\<lambda>_. x))]"

definition FrameChat_layout :: "FrameChat layout" where
  "FrameChat_layout = zip FrameChat_members [string_field fch_from (\<lambda>x. fch_from_update (\<lambda>_. x)),
     string_field fch_msg (\<lambda>x. fch_msg_update (\<lambda>_. x))]"

definition Heartbeat_layout :: "Heartbeat layout" where
  "Heartbeat_layout = zip Heartbeat_members [word_field hbt_timestamp (\<lambda>x. hbt_timestamp_update (\<lambda>_. x))]"

lemmas framing_layouts =
  FrameLogin_layout_def FrameLogin_members_def
  FrameChat_layout_def FrameChat_members_def
  Heartbeat_layout_def Heartbeat_members_def

lemma framing_members [simp]:
  "map fst FrameLogin_layout = FrameLogin_members"
  "map fst FrameChat_layout = FrameChat_members"
  "map fst Heartbeat_layout = Heartbeat_members"
  by (simp_all add: framing_layouts)

interpretation FrameLogin: struct_codec FrameLogin_init FrameLogin_layout
  by (rule struct_codec.intro) (auto simp: framing_layouts intro: struct_members)

interpretation FrameChat: struct_codec FrameChat_init FrameChat_layout
  by (rule struct_codec.intro) (auto simp: framing_layouts intro: struct_members)

interpretation Heartbeat: struct_codec Heartbeat_init Heartbeat_layout
  by (rule struct_codec.intro) (auto simp: framing_layouts intro: struct_members)

lemmas framing_formatters =
  FrameLogin_formatter_def
  FrameChat_formatter_def
  Heartbeat_formatter_def

section \<open>The program\<close>

definition PID_LOGIN :: u16 where "PID_LOGIN = 1"
definition PID_CHAT :: u16 where "PID_CHAT = 2"
definition PID_HEARTBEAT :: u16 where "PID_HEARTBEAT = 3"

text \<open>The globals.\<close>

record demo =
  g_ok :: bool
  g_delivered :: nat

definition demo_Check :: "bool \<Rightarrow> (demo, unit) op" where
  "demo_Check condition = modify (\<lambda>s. if condition then s else s\<lparr>g_ok := False\<rparr>)"

definition Dispatch :: "build \<Rightarrow> u16 \<Rightarrow> bytes \<Rightarrow> (demo, unit) op" where
  "Dispatch B pid body =
     seq (modify (\<lambda>s. s\<lparr>g_delivered := Suc (g_delivered s)\<rparr>))
      (if pid = PID_LOGIN then
         bind (lift (Deserialize B FrameLogin_formatter body)) (\<lambda>value.
           demo_Check (fln_userName value = bytes_of_string ''alice'' \<and> fln_level value = 12))
       else if pid = PID_CHAT then
         bind (lift (Deserialize B FrameChat_formatter body)) (\<lambda>value.
           demo_Check (fch_from value = bytes_of_string ''alice''))
       else if pid = PID_HEARTBEAT then
         bind (lift (Deserialize B Heartbeat_formatter body)) (\<lambda>value.
           demo_Check (hbt_timestamp value = 1700000000))
       else return ())"

definition frame_login :: FrameLogin where
  "frame_login = \<lparr>fln_userName = bytes_of_string ''alice'', fln_level = 12\<rparr>"

definition frame_chat :: FrameChat where
  "frame_chat = \<lparr>fch_from = bytes_of_string ''alice'', fch_msg = bytes_of_string ''hello framing''\<rparr>"

definition frame_beat :: Heartbeat where
  "frame_beat = \<lparr>hbt_timestamp = 1700000000\<rparr>"

definition framing_header :: "build \<Rightarrow> (demo, unit) op" where
  "framing_header B =
     (let P = DefaultPacketHeaderPolicy B in
     bind (lift (MakePacket B P FrameLogin_formatter PID_LOGIN frame_login)) (\<lambda>packet.
     let header = PeekPacketHeader P packet in
     seq (demo_Check (header \<noteq> None))
    (seq (case header of None \<Rightarrow> return ()
          | Some h \<Rightarrow> seq (demo_Check (ph_id h = PID_LOGIN))
              (demo_Check (nat (sint (ph_bodyLength h) mod 2 ^ 64) = size_sub (length packet) (HeaderSize P))))
    (bind (lift (if 3 \<le> length packet then Ret (take 3 packet) else UB)) (\<lambda>three.
       demo_Check (PeekPacketHeader P three = None))))))"

definition append_packet :: "build \<Rightarrow> 'a MemoryPackFormatter \<Rightarrow> u16 \<Rightarrow> 'a \<Rightarrow> bytes \<Rightarrow> (demo, bytes) op" where
  "append_packet B T pid value stream =
     (case WritePacket B (DefaultPacketHeaderPolicy B) T stream pid value of (res, stream) \<Rightarrow>
        bind (lift res) (\<lambda>_. return stream))"

definition framing_stream :: "build \<Rightarrow> (demo, bytes) op" where
  "framing_stream B =
     bind (append_packet B FrameLogin_formatter PID_LOGIN frame_login []) (\<lambda>stream.
     bind (append_packet B FrameChat_formatter PID_CHAT frame_chat stream) (\<lambda>stream.
       append_packet B Heartbeat_formatter PID_HEARTBEAT frame_beat stream))"

text \<open>The loop over the stream. As for \<^const>\<open>Feed\<close>, \<open>None\<close> is a call that never returns.\<close>

function chunk_loop ::
    "PacketHeaderPolicy \<Rightarrow> demo callback \<Rightarrow> bytes \<Rightarrow> size_t \<Rightarrow> demo \<Rightarrow> frame_parser \<Rightarrow> (unit outcome \<times> demo \<times> frame_parser) option" where
  "chunk_loop P onPacket stream offset s parser =
     (if offset < length stream then
        (let n = (if length stream - offset < 7 then length stream - offset else 7) in
         case Feed P (take n (drop offset stream)) onPacket s parser of
           Some (Ret healthy, s, parser) \<Rightarrow>
             chunk_loop P onPacket stream (offset + 7) (snd (demo_Check healthy s)) parser
         | Some (Throw e, s, parser) \<Rightarrow> Some (Throw e, s, parser)
         | Some (UB, s, parser) \<Rightarrow> Some (UB, s, parser)
         | None \<Rightarrow> None)
      else Some (Ret (), s, parser))"
  by pat_completeness auto
termination by (relation "measure (\<lambda>(P, cb, stream, offset, s, p). length stream - offset)") auto

declare chunk_loop.simps [simp del]

definition framing_chunks :: "build \<Rightarrow> bytes \<Rightarrow> demo \<Rightarrow> (unit outcome \<times> demo) option" where
  "framing_chunks B stream s =
     map_option (\<lambda>(res, s, parser).
       seq (lift res) (seq (demo_Check (g_delivered s = 3)) (demo_Check (Buffered parser = 0))) s)
     (chunk_loop (DefaultPacketHeaderPolicy B) (Dispatch B) stream 0 s (make_parser default_maxBodyLength))"

definition framing_single :: "build \<Rightarrow> bytes \<Rightarrow> demo \<Rightarrow> (unit outcome \<times> demo) option" where
  "framing_single B stream s =
     map_option (\<lambda>(res, s, parser).
       bind (lift res) (\<lambda>healthy. seq (demo_Check healthy) (bind (gets g_delivered) (\<lambda>n. demo_Check (n = 3)))) s)
     (Feed (DefaultPacketHeaderPolicy B) stream (Dispatch B) (s\<lparr>g_delivered := 0\<rparr>) (make_parser default_maxBodyLength))"

definition hostile_frame :: bytes where
  "hostile_frame = (replicate 6 0)[0 := 0x01, 2 := 0xFF, 3 := 0xFF, 4 := 0xFF, 5 := 0x7F]"

definition framing_hostile :: "build \<Rightarrow> demo \<Rightarrow> (unit outcome \<times> demo) option" where
  "framing_hostile B s =
     map_option (\<lambda>(res, delivered, guarded).
       bind (lift res) (\<lambda>healthy.
         seq (demo_Check (\<not> healthy)) (seq (demo_Check (delivered = 0)) (demo_Check (Buffered guarded = 0)))) s)
     (Feed (DefaultPacketHeaderPolicy B) hostile_frame (\<lambda>_ _. modify Suc) (0 :: nat) (make_parser 1024))"

text \<open>Statements one after the other, each of which may not end.\<close>

definition after :: "('a outcome \<times> 's) option \<Rightarrow> ('a \<Rightarrow> 's \<Rightarrow> ('b outcome \<times> 's) option) \<Rightarrow> ('b outcome \<times> 's) option" where
  "after r f = (case r of None \<Rightarrow> None | Some (Ret x, s) \<Rightarrow> f x s
     | Some (Throw e, s) \<Rightarrow> Some (Throw e, s) | Some (UB, s) \<Rightarrow> Some (UB, s))"

definition framing_main :: "build \<Rightarrow> demo \<Rightarrow> (int outcome \<times> demo) option" where
  "framing_main B s =
     after (Some (framing_header B s)) (\<lambda>_ s.
     after (Some (framing_stream B s)) (\<lambda>stream s.
     after (framing_chunks B stream s) (\<lambda>_ s.
     after (framing_single B stream s) (\<lambda>_ s.
     after (framing_hostile B s) (\<lambda>_ s. Some (Ret (if g_ok s then 0 else 1), s))))))"

section \<open>The receiving loop\<close>

lemma demo_Check_True [simp]: "demo_Check True s = (Ret (), s)"
  by (simp add: demo_Check_def)

lemma deliver_append: "deliver cb (ps @ qs) = seq (deliver cb ps) (deliver cb qs)"
  by (induction ps) (simp_all add: seq_seq)

lemma deliver_appendE:
  assumes "deliver cb (ps @ qs) s = (Ret (), s')"
  obtains s1 where "deliver cb ps s = (Ret (), s1)" "deliver cb qs s1 = (Ret (), s')"
  using assms by (cases "deliver cb ps s" rule: outcome_state_cases) (auto simp: deliver_append seq_def bind_def)

context frame_policy
begin

lemma chunk_loop_delivers:
  assumes "parser_inv p" "settled P p" "length (fp_buffer p) + length (drop offset stream) < 2 ^ 63"
    and "frames P (fp_maxBodyLength p) (pending p @ drop offset stream) = (ps, Some r)" "deliver cb ps s = (Ret (), s')"
  shows "\<exists>p'. chunk_loop P cb stream offset s p = Some (Ret (), s', p') \<and> parser_inv p' \<and> pending p' = r"
  using assms
proof (induction "length stream - offset" arbitrary: offset s p ps rule: less_induct)
  case less
  show ?case
  proof (cases "offset < length stream")
    case False
    with less.prems(2,4,5) less.prems(1) show ?thesis by (auto simp: chunk_loop.simps settled_def)
  next
    case True
    define n where "n = (if length stream - offset < 7 then length stream - offset else 7)"
    define chunk rest where "chunk = take n (drop offset stream)" and "rest = drop (offset + 7) stream"
    have "rest = drop 7 (drop offset stream)" by (simp add: rest_def add.commute)
    then have cut: "drop offset stream = chunk @ rest" by (auto simp: chunk_def n_def simp del: drop_drop)
    obtain qs r1 where f1: "frames P (fp_maxBodyLength p) (pending p @ chunk) = (qs, r1)" by fastforce
    have all: "frames P (fp_maxBodyLength p) ((pending p @ chunk) @ rest) = (ps, Some r)"
      using less.prems(4) cut by simp
    obtain left where r1: "r1 = Some left"
      using frames_append_bad [of P "fp_maxBodyLength p" "pending p @ chunk" qs rest] f1 all by (cases r1) auto
    obtain qs2 r2 where f2: "frames P (fp_maxBodyLength p) (left @ rest) = (qs2, r2)" by fastforce
    from frames_append [OF f1 [unfolded r1] f2] all have e: "ps = qs @ qs2" "r2 = Some r" by simp_all
    from less.prems(5) obtain s1 where d: "deliver cb qs s = (Ret (), s1)" "deliver cb qs2 s1 = (Ret (), s')"
      unfolding e by (rule deliver_appendE)
    from Feed_frames [OF less.prems(1) _ f1 d(1)] less.prems(3) cut obtain p1
      where p1: "Feed P chunk cb s p = Some (Ret True, s1, p1)" "parser_inv p1" "fp_maxBodyLength p1 = fp_maxBodyLength p"
        "length (fp_buffer p1) \<le> length (fp_buffer p) + length chunk" "pending p1 = left" by (auto simp: r1 kept_def)
    have "settled P p1" using frames_rest [OF f1 [unfolded r1]] p1(3,5) by (simp add: settled_def)
    then have "\<exists>p'. chunk_loop P cb stream (offset + 7) s1 p1 = Some (Ret (), s', p') \<and> parser_inv p' \<and> pending p' = r"
      using less.prems(3) cut p1 f2 e(2) d(2) True by (intro less.hyps) (auto simp: rest_def)
    moreover have "chunk_loop P cb stream offset s p = chunk_loop P cb stream (offset + 7) s1 p1"
      using True p1(1) by (subst chunk_loop.simps) (simp add: Let_def chunk_def n_def)
    ultimately show ?thesis by simp
  qed
qed

end

section \<open>The checks hold\<close>

lemma short_frames:
  "members_ok FrameLogin_layout frame_login" "struct_fits FrameLogin_layout frame_login default_options 0"
  "length (struct_enc FrameLogin_layout frame_login) = 18"
  "members_ok FrameChat_layout frame_chat" "struct_fits FrameChat_layout frame_chat default_options 0"
  "length (struct_enc FrameChat_layout frame_chat) = 35"
  "members_ok Heartbeat_layout frame_beat" "struct_fits Heartbeat_layout frame_beat default_options 0"
  "length (struct_enc Heartbeat_layout frame_beat) = 9"
  by (simp_all add: framing_layouts frame_login_def frame_chat_def frame_beat_def struct_enc_def struct_fits_def
      string_ok_def string_fits_def default_options_def enc_string_def)

abbreviation frame_packets :: "(u16 \<times> bytes) list" where
  "frame_packets \<equiv> [(PID_LOGIN, struct_enc FrameLogin_layout frame_login), (PID_CHAT, struct_enc FrameChat_layout frame_chat),
     (PID_HEARTBEAT, struct_enc Heartbeat_layout frame_beat)]"

abbreviation frame_stream :: "build \<Rightarrow> bytes" where
  "frame_stream B \<equiv> concat (map (packet_bytes (DefaultPacketHeaderPolicy B)) frame_packets)"

lemma dispatched:
  "deliver (Dispatch B) frame_packets s = (Ret (), s\<lparr>g_delivered := g_delivered s + 3\<rparr>)"
proof -
  have "Deserialize B FrameLogin_formatter (struct_enc FrameLogin_layout frame_login) = Ret frame_login"
    "Deserialize B FrameChat_formatter (struct_enc FrameChat_layout frame_chat) = Ret frame_chat"
    "Deserialize B Heartbeat_formatter (struct_enc Heartbeat_layout frame_beat) = Ret frame_beat"
    using FrameLogin.Deserialize_message [OF short_frames(1,2), of B] FrameChat.Deserialize_message [OF short_frames(4,5), of B]
      Heartbeat.Deserialize_message [OF short_frames(7,8), of B]
    by (simp_all add: framing_formatters short_frames)
  then show ?thesis
    by (simp add: Dispatch_def PID_LOGIN_def PID_CHAT_def PID_HEARTBEAT_def frame_login_def frame_chat_def frame_beat_def
        eval_nat_numeral)
qed

interpretation FrameLogin_packet: packet_codec "DefaultPacketHeaderPolicy B" FrameLogin_formatter
  "struct_enc FrameLogin_layout" "members_ok FrameLogin_layout" "struct_fits FrameLogin_layout" for B
  using FrameLogin.codec_axioms by (simp add: packet_codec_def frame_policy_default framing_formatters)

interpretation FrameChat_packet: packet_codec "DefaultPacketHeaderPolicy B" FrameChat_formatter
  "struct_enc FrameChat_layout" "members_ok FrameChat_layout" "struct_fits FrameChat_layout" for B
  using FrameChat.codec_axioms by (simp add: packet_codec_def frame_policy_default framing_formatters)

interpretation Heartbeat_packet: packet_codec "DefaultPacketHeaderPolicy B" Heartbeat_formatter
  "struct_enc Heartbeat_layout" "members_ok Heartbeat_layout" "struct_fits Heartbeat_layout" for B
  using Heartbeat.codec_axioms by (simp add: packet_codec_def frame_policy_default framing_formatters)

lemma header_size: "HeaderSize (DefaultPacketHeaderPolicy B) = 6"
  by (simp add: DefaultPacketHeaderPolicy_def)

lemma framing_header_ok: "framing_header B s = (Ret (), s)"
proof -
  let ?e = "struct_enc FrameLogin_layout frame_login" and ?P = "DefaultPacketHeaderPolicy B"
  have m: "MakePacket B ?P FrameLogin_formatter PID_LOGIN frame_login = Ret (packet_bytes ?P (PID_LOGIN, ?e))"
    by (rule FrameLogin_packet.MakePacket_ok) (simp_all add: short_frames DefaultPacketHeaderPolicy_def)
  have l: "length (packet_bytes ?P (PID_LOGIN, ?e)) = 24"
    by (simp add: packet_bytes_def default_policy.length_Write header_size short_frames)
  have "PeekPacketHeader ?P (packet_bytes ?P (PID_LOGIN, ?e)) = Some \<lparr>ph_id = PID_LOGIN, ph_bodyLength = 18\<rparr>"
    using default_policy.PeekPacketHeader_packet [of B "(PID_LOGIN, ?e)" "[]"] by (simp add: short_frames)
  moreover have "PeekPacketHeader ?P (take 3 (packet_bytes ?P (PID_LOGIN, ?e))) = None"
    using l by (simp add: PeekPacketHeader_def header_size)
  ultimately show ?thesis using l by (simp add: framing_header_def m header_size Let_def size_sub_def)
qed

lemma framing_stream_ok: "framing_stream B s = (Ret (frame_stream B), s)"
proof -
  have "append_packet B FrameLogin_formatter PID_LOGIN frame_login out =
      return (out @ packet_bytes (DefaultPacketHeaderPolicy B) (PID_LOGIN, struct_enc FrameLogin_layout frame_login))"
    if "length out < 1000" for out
    using FrameLogin_packet.WritePacket_ok [OF short_frames(1), of out B B PID_LOGIN] that
    by (simp add: append_packet_def header_size short_frames return_def)
  moreover have "append_packet B FrameChat_formatter PID_CHAT frame_chat out =
      return (out @ packet_bytes (DefaultPacketHeaderPolicy B) (PID_CHAT, struct_enc FrameChat_layout frame_chat))"
    if "length out < 1000" for out
    using FrameChat_packet.WritePacket_ok [OF short_frames(4), of out B B PID_CHAT] that
    by (simp add: append_packet_def header_size short_frames return_def)
  moreover have "append_packet B Heartbeat_formatter PID_HEARTBEAT frame_beat out =
      return (out @ packet_bytes (DefaultPacketHeaderPolicy B) (PID_HEARTBEAT, struct_enc Heartbeat_layout frame_beat))"
    if "length out < 1000" for out
    using Heartbeat_packet.WritePacket_ok [OF short_frames(7), of out B B PID_HEARTBEAT] that
    by (simp add: append_packet_def header_size short_frames return_def)
  ultimately show ?thesis
    by (simp add: framing_stream_def packet_bytes_def default_policy.length_Write header_size short_frames)
qed

lemma frame_stream_frames:
  "frames (DefaultPacketHeaderPolicy B) default_maxBodyLength (frame_stream B) = (frame_packets, Some [])"
  by (rule default_policy.frames_packets) (simp add: short_frames default_maxBodyLength_def)

lemma frame_stream_short: "length (frame_stream B) < 1000"
  by (simp add: packet_bytes_def default_policy.length_Write header_size short_frames)

lemma fresh_parser:
  "parser_inv (make_parser n)" "pending (make_parser n) = []" "fp_buffer (make_parser n) = []"
  "fp_maxBodyLength (make_parser n) = n"
  by (simp_all add: make_parser_def parser_inv_def pending_def)

lemma framing_chunks_ok:
  assumes "g_delivered s = 0"
  shows "framing_chunks B (frame_stream B) s = Some (Ret (), s\<lparr>g_delivered := 3\<rparr>)"
proof -
  let ?S = "frame_stream B" and ?p = "make_parser default_maxBodyLength"
  have "\<exists>p. chunk_loop (DefaultPacketHeaderPolicy B) (Dispatch B) ?S 0 s ?p = Some (Ret (), s\<lparr>g_delivered := 3\<rparr>, p) \<and>
      parser_inv p \<and> pending p = []"
  proof (rule default_policy.chunk_loop_delivers [OF fresh_parser(1) default_policy.settled_start])
    show "frames (DefaultPacketHeaderPolicy B) (fp_maxBodyLength ?p) (pending ?p @ drop 0 ?S) = (frame_packets, Some [])"
      using frame_stream_frames by (simp only: fresh_parser drop_0 append_Nil)
    show "length (fp_buffer ?p) + length (drop 0 ?S) < 2 ^ 63"
      using frame_stream_short [of B] by (simp only: fresh_parser drop_0) simp
    show "deliver (Dispatch B) frame_packets s = (Ret (), s\<lparr>g_delivered := 3\<rparr>)"
      using dispatched [of B s] assms by simp
  qed
  then obtain p where "chunk_loop (DefaultPacketHeaderPolicy B) (Dispatch B) ?S 0 s ?p = Some (Ret (), s\<lparr>g_delivered := 3\<rparr>, p)"
    "parser_inv p" "pending p = []" by blast
  then show ?thesis by (simp add: framing_chunks_def Buffered_pending lift_def seq_def bind_def)
qed

lemma framing_single_ok: "framing_single B (frame_stream B) s = Some (Ret (), s\<lparr>g_delivered := 3\<rparr>)"
proof -
  obtain p where "Feed (DefaultPacketHeaderPolicy B) (frame_stream B) (Dispatch B) (s\<lparr>g_delivered := 0\<rparr>) (make_parser default_maxBodyLength) =
      Some (Ret True, s\<lparr>g_delivered := 3\<rparr>, p)"
    using default_policy.Feed_frames [OF fresh_parser(1), of default_maxBodyLength "frame_stream B" B frame_packets "Some []"]
      frame_stream_frames [of B] frame_stream_short [of B] dispatched [of B "s\<lparr>g_delivered := 0\<rparr>"]
    by (fastforce simp: fresh_parser)
  then show ?thesis by (simp add: framing_single_def lift_def seq_def bind_def)
qed

lemma framing_hostile_ok: "framing_hostile B s = Some (Ret (), s)"
proof -
  let ?P = "DefaultPacketHeaderPolicy B"
  have h: "hostile_frame = le_bytes (1 :: u16) @ le_bytes (0x7FFFFFFF :: u32)" by code_simp
  have "policy_Write ?P 1 0x7FFFFFFF = hostile_frame"
    by (simp add: h DefaultPacketHeaderPolicy_def DefaultPacketHeaderPolicy_Write_def)
  then have "header_at ?P hostile_frame = (1, 0x7FFFFFFF)" and l: "length hostile_frame = 6"
    using default_policy.Read_Write [of B 1 "0x7FFFFFFF"] default_policy.length_Write [of B 1 "0x7FFFFFFF"]
    by (auto simp: header_at_def DefaultPacketHeaderPolicy_def)
  then have "frames ?P 1024 hostile_frame = ([], None)"
    by (subst frames.simps) (simp add: DefaultPacketHeaderPolicy_def bad_length_def)
  then obtain p where "Feed ?P hostile_frame (\<lambda>_ _. modify Suc) 0 (make_parser 1024) = Some (Ret False, 0, p)"
    "parser_inv p" "pending p = []"
    using default_policy.Feed_frames [OF fresh_parser(1), of 1024 hostile_frame B "[]" None "\<lambda>_ _. modify Suc" 0 0] l
    by (auto simp: fresh_parser kept_def)
  then show ?thesis by (simp add: framing_hostile_def Buffered_pending lift_def seq_def bind_def)
qed

lemma framing_main_ok:
  "framing_main B \<lparr>g_ok = True, g_delivered = 0\<rparr> = Some (Ret 0, \<lparr>g_ok = True, g_delivered = 3\<rparr>)"
  by (simp only: framing_main_def after_def option.case prod.case outcome.case framing_header_ok framing_stream_ok
      framing_chunks_ok framing_single_ok framing_hostile_ok demo.simps if_True)

end
