(* ===== verification/Unmanaged.thy ===== *)
theory Unmanaged
  imports Examples
begin

text \<open>
  Unmanaged structs (\<^verbatim>\<open>examples/05_unmanaged_struct.cpp\<close>). A value is its object representation, padding included, on
  a little-endian host (the library asserts it). \<open>scrub_nth\<close> says byte by byte what the scrubbing macro sends: the
  members, and zero everywhere else, so that objects with equal members are sent alike (\<open>scrubbed_alike\<close>); a
  \<^verbatim>\<open>std::optional\<close> of the same type copies the object and does send the padding (\<open>optional_sends_object\<close>). Every check
  of the program holds (\<open>unmanaged_main_ok\<close>).
\<close>

section \<open>The structs\<close>

text \<open>An assignment to a member of a struct, and the \<^verbatim>\<open>float\<close> member at an offset.\<close>

definition set_member :: "nat \<Rightarrow> bytes \<Rightarrow> bytes \<Rightarrow> bytes" where
  "set_member offset bs object = take offset object @ bs @ drop (offset + length bs) object"

definition u32_at :: "nat \<Rightarrow> bytes \<Rightarrow> u32" where
  "u32_at offset object = of_le_bytes (take 4 (drop offset object))"

definition Vec3 :: "u32 \<Rightarrow> u32 \<Rightarrow> u32 \<Rightarrow> bytes" where
  "Vec3 x y z = le_bytes x @ le_bytes y @ le_bytes z"

definition Vec3_eq :: "bytes \<Rightarrow> bytes \<Rightarrow> bool" where
  "Vec3_eq a b \<longleftrightarrow> float_eq (u32_at 0 a) (u32_at 0 b) \<and> float_eq (u32_at 4 a) (u32_at 4 b) \<and> float_eq (u32_at 8 a) (u32_at 8 b)"

definition Vec3_parts :: "(size_t \<times> size_t) list" where
  "Vec3_parts = [(0, 4), (4, 4), (8, 4)]"

definition Vec3_formatter :: "bytes MemoryPackFormatter" where
  "Vec3_formatter = MEMORYPACK_UNMANAGED 12"

definition PaddedStat_eq :: "bytes \<Rightarrow> bytes \<Rightarrow> bool" where
  "PaddedStat_eq a b \<longleftrightarrow> hd a = hd b \<and> u32_at 4 a = u32_at 4 b"

definition PaddedStat_formatter :: "bytes MemoryPackFormatter" where
  "PaddedStat_formatter = MEMORYPACK_UNMANAGED 8"

definition PaddedStatScrubbed_formatter :: "bytes MemoryPackFormatter" where
  "PaddedStatScrubbed_formatter = MEMORYPACK_UNMANAGED_SCRUBBED 8 [(0, 1), (4, 4)]"

text \<open>The formatter of \<^verbatim>\<open>std::optional\<close> for an unmanaged struct.\<close>

definition optional_unmanaged :: "size_t \<Rightarrow> size_t \<Rightarrow> bytes option MemoryPackFormatter" where
  "optional_unmanaged align sz = class_formatter None
     (\<lambda>B v. WriteNullable_raw B align sz v) (\<lambda>B v. ReadNullable_raw B align sz)"

record ManagedVec3 =
  mv3_x :: u32
  mv3_y :: u32
  mv3_z :: u32

record Transform =
  trf_position :: bytes
  trf_scale :: bytes
  trf_label :: bytes

definition ManagedVec3_members :: "ManagedVec3 member list" where
  "ManagedVec3_members = [member float_formatter mv3_x (\<lambda>x. mv3_x_update (\<lambda>_. x)),
     member float_formatter mv3_y (\<lambda>x. mv3_y_update (\<lambda>_. x)),
     member float_formatter mv3_z (\<lambda>x. mv3_z_update (\<lambda>_. x))]"

definition Transform_members :: "Transform member list" where
  "Transform_members = [member Vec3_formatter trf_position (\<lambda>x. trf_position_update (\<lambda>_. x)),
     member Vec3_formatter trf_scale (\<lambda>x. trf_scale_update (\<lambda>_. x)),
     member string_formatter trf_label (\<lambda>x. trf_label_update (\<lambda>_. x))]"

definition ManagedVec3_init :: ManagedVec3 where
  "ManagedVec3_init = \<lparr>mv3_x = 0, mv3_y = 0, mv3_z = 0\<rparr>"

definition Transform_init :: Transform where
  "Transform_init = \<lparr>trf_position = replicate 12 0, trf_scale = replicate 12 0, trf_label = []\<rparr>"

definition ManagedVec3_formatter :: "ManagedVec3 MemoryPackFormatter" where
  "ManagedVec3_formatter = MEMORYPACK_DEFINE ManagedVec3_init ManagedVec3_members"

definition Transform_formatter :: "Transform MemoryPackFormatter" where
  "Transform_formatter = MEMORYPACK_DEFINE Transform_init Transform_members"

section \<open>Layouts\<close>

definition ManagedVec3_layout :: "ManagedVec3 layout" where
  "ManagedVec3_layout = zip ManagedVec3_members [word_field mv3_x (\<lambda>x. mv3_x_update (\<lambda>_. x)),
     word_field mv3_y (\<lambda>x. mv3_y_update (\<lambda>_. x)),
     word_field mv3_z (\<lambda>x. mv3_z_update (\<lambda>_. x))]"

definition Transform_layout :: "Transform layout" where
  "Transform_layout = zip Transform_members [raw_field 12 trf_position (\<lambda>x. trf_position_update (\<lambda>_. x)),
     raw_field 12 trf_scale (\<lambda>x. trf_scale_update (\<lambda>_. x)),
     string_field trf_label (\<lambda>x. trf_label_update (\<lambda>_. x))]"

lemmas unmanaged_layouts =
  ManagedVec3_layout_def ManagedVec3_members_def
  Transform_layout_def Transform_members_def

lemma unmanaged_members [simp]:
  "map fst ManagedVec3_layout = ManagedVec3_members"
  "map fst Transform_layout = Transform_members"
  by (simp_all add: unmanaged_layouts)

interpretation ManagedVec3: struct_codec ManagedVec3_init ManagedVec3_layout
  by (rule struct_codec.intro) (auto simp: unmanaged_layouts Vec3_formatter_def intro: struct_members)

interpretation Transform: struct_codec Transform_init Transform_layout
  by (rule struct_codec.intro) (auto simp: unmanaged_layouts Vec3_formatter_def intro: struct_members)

lemmas unmanaged_formatters =
  ManagedVec3_formatter_def
  Transform_formatter_def

section \<open>The program\<close>

abbreviation vec :: "nat \<Rightarrow> nat \<Rightarrow> nat \<Rightarrow> bytes" where
  "vec x y z \<equiv> Vec3 (float_of_nat x) (float_of_nat y) (float_of_nat z)"

definition sample_vec :: bytes where
  "sample_vec = Vec3 0x3FC00000 0x40200000 0x40600000"

definition unmanaged_header :: "build \<Rightarrow> (bool, unit) op" where
  "unmanaged_header B =
     bind (lift (Serialize B Vec3_formatter sample_vec)) (\<lambda>vecBytes.
     bind (lift (Serialize B ManagedVec3_formatter \<lparr>mv3_x = 0x3FC00000, mv3_y = 0x40200000, mv3_z = 0x40600000\<rparr>)) (\<lambda>managedBytes.
     seq (Check (length vecBytes = 12))
    (seq (Check (length managedBytes = 13))
    (bind (lift (Deserialize B Vec3_formatter vecBytes)) (\<lambda>received. Check (Vec3_eq received sample_vec))))))"

text \<open>\<open>memset(&stat, c, sizeof stat); stat.tier = 3; stat.score = 0x11223344;\<close>\<close>

definition filled_stat :: "byte \<Rightarrow> bytes" where
  "filled_stat c = set_member 4 (le_bytes (0x11223344 :: u32)) (set_member 0 [3] (replicate 8 c))"

definition padding_is_zero :: "bytes \<Rightarrow> (bool, bool) op" where
  "padding_is_zero bs = bind (lift (byte_at bs 1)) (\<lambda>b1. if b1 \<noteq> 0 then return False
     else bind (lift (byte_at bs 2)) (\<lambda>b2. if b2 \<noteq> 0 then return False
     else bind (lift (byte_at bs 3)) (\<lambda>b3. return (b3 = 0))))"

definition unmanaged_padding :: "build \<Rightarrow> (bool, bytes) op" where
  "unmanaged_padding B =
     bind (lift (Serialize B PaddedStat_formatter (filled_stat 0))) (\<lambda>statBytes.
     bind (lift (Serialize B PaddedStat_formatter (filled_stat 0xCD))) (\<lambda>noisyBytes.
     bind (lift (Deserialize B PaddedStat_formatter noisyBytes)) (\<lambda>received.
     seq (Check (PaddedStat_eq received (filled_stat 0xCD)))
    (bind (lift (byte_at noisyBytes 1)) (\<lambda>b.
     seq (Check (b = 0xCD))
    (seq (Check (noisyBytes \<noteq> statBytes))
    (seq (Check (length statBytes = 8))
    (bind (lift (Deserialize B PaddedStat_formatter statBytes)) (\<lambda>received.
     seq (Check (PaddedStat_eq received (filled_stat 0)))
    (bind (padding_is_zero statBytes) (\<lambda>z. seq (Check z) (return statBytes))))))))))))"

definition unmanaged_scrubbed :: "build \<Rightarrow> bytes \<Rightarrow> (bool, unit) op" where
  "unmanaged_scrubbed B statBytes =
     bind (lift (Serialize B PaddedStatScrubbed_formatter (filled_stat 0xCD))) (\<lambda>scrubbedBytes.
     bind (padding_is_zero scrubbedBytes) (\<lambda>z.
     seq (Check z)
    (seq (Check (scrubbedBytes = statBytes))
    (bind (lift (Deserialize B PaddedStatScrubbed_formatter scrubbedBytes)) (\<lambda>received.
       Check (PaddedStat_eq received (filled_stat 0xCD)))))))"

definition cloud :: "bytes list" where
  "cloud = [vec 1 2 3, vec 4 5 6, vec 7 8 9]"

definition unmanaged_bulk :: "build \<Rightarrow> (bool, unit) op" where
  "unmanaged_bulk B =
     bind (with_local (WriteUnmanagedCollection B cloud) writer_default) (\<lambda>(_, writer).
     bind (with_local (ReadUnmanagedCollection B 12) (make_reader (GetSpan writer))) (\<lambda>(cloudBack, reader).
     seq (Check (Size writer = 4 + 3 * 12))
    (seq (Check (list_all2 Vec3_eq cloudBack cloud))
         (Check (IsEnd reader)))))"

definition sample_transform :: Transform where
  "sample_transform = \<lparr>trf_position = vec 0 1 0, trf_scale = vec 2 2 2, trf_label = bytes_of_string ''player''\<rparr>"

definition unmanaged_nested :: "build \<Rightarrow> (bool, unit) op" where
  "unmanaged_nested B =
     bind (sent_back B Transform_formatter sample_transform) (\<lambda>transformBack.
       Check (Vec3_eq (trf_position transformBack) (trf_position sample_transform)
         \<and> Vec3_eq (trf_scale transformBack) (trf_scale sample_transform)
         \<and> trf_label transformBack = trf_label sample_transform))"

definition unmanaged_optional :: "build \<Rightarrow> (bool, unit) op" where
  "unmanaged_optional B =
     bind (lift (Serialize B (optional_unmanaged 4 12) (Some sample_vec))) (\<lambda>optionalBytes. Check (length optionalBytes = 16))"

definition unmanaged_main :: "build \<Rightarrow> (bool, int) op" where
  "unmanaged_main B =
     seq (unmanaged_header B)
    (bind (unmanaged_padding B) (\<lambda>statBytes.
     seq (unmanaged_scrubbed B statBytes)
    (seq (unmanaged_bulk B)
    (seq (unmanaged_nested B)
    (seq (unmanaged_optional B)
         exit_code)))))"

section \<open>What the scrubbing macro sends\<close>

text \<open>The members lie inside the object.\<close>

definition parts_inside :: "size_t \<Rightarrow> (size_t \<times> size_t) list \<Rightarrow> bool" where
  "parts_inside sz members \<longleftrightarrow> (\<forall>(offset, n) \<in> set members. offset + n \<le> sz)"

definition in_parts :: "(size_t \<times> size_t) list \<Rightarrow> nat \<Rightarrow> bool" where
  "in_parts members i \<longleftrightarrow> (\<exists>(offset, n) \<in> set members. offset \<le> i \<and> i < offset + n)"

lemma scrub_member_nth:
  assumes "length v = sz" "length buf = sz" "offset + n \<le> sz" "i < sz"
  shows "scrub_member v buf (offset, n) ! i = (if offset \<le> i \<and> i < offset + n then v ! i else buf ! i)"
    "length (scrub_member v buf (offset, n)) = sz"
  using assms by (auto simp: scrub_member_def nth_append min_def)

lemma scrub_nth:
  assumes "length v = sz" "parts_inside sz members"
  shows "length (scrub sz members v) = sz"
    and "i < sz \<Longrightarrow> scrub sz members v ! i = (if in_parts members i then v ! i else 0)"
proof -
  have "length (foldl (scrub_member v) buf members) = sz \<and>
      (\<forall>i < sz. foldl (scrub_member v) buf members ! i = (if in_parts members i then v ! i else buf ! i))"
    if "length buf = sz" for buf using that assms(2)
  proof (induction members arbitrary: buf)
    case (Cons m members)
    obtain offset n where m: "m = (offset, n)" by force
    with Cons.prems have inside: "offset + n \<le> sz" "parts_inside sz members" by (auto simp: parts_inside_def)
    note step = scrub_member_nth [OF assms(1) Cons.prems(1) inside(1)]
    have l: "length (scrub_member v buf m) = sz" using inside(1) Cons.prems(1) assms(1) by (simp add: m scrub_member_def)
    from Cons.IH [OF l inside(2)] show ?case by (auto simp: m step in_parts_def)
  qed (simp add: in_parts_def)
  from this [of "replicate sz 0"] show "length (scrub sz members v) = sz"
    "i < sz \<Longrightarrow> scrub sz members v ! i = (if in_parts members i then v ! i else 0)"
    by (simp_all add: scrub_def)
qed

lemma scrubbed_alike:
  assumes "length v = sz" "length v' = sz" "parts_inside sz members" "\<forall>i < sz. in_parts members i \<longrightarrow> v ! i = v' ! i"
  shows "scrub sz members v = scrub sz members v'"
  using assms by (intro nth_equalityI) (auto simp: scrub_nth)

lemma scrub_idem: "length v = sz \<Longrightarrow> parts_inside sz members \<Longrightarrow> scrub sz members (scrub sz members v) = scrub sz members v"
  by (intro nth_equalityI) (auto simp: scrub_nth)

lemma Serialize_scrubbed:
  assumes "length v = sz" "parts_inside sz members" "sz \<le> 2 ^ 62"
  shows "Serialize B (MEMORYPACK_UNMANAGED_SCRUBBED sz members) v = Ret (scrub sz members v)"
  using assms emits_AppendBytes [of B "scrub sz members v"]
  by (intro Serialize_emits) (simp_all add: Write_def MEMORYPACK_UNMANAGED_SCRUBBED_def WriteBytes_def scrub_nth)

lemma Deserialize_scrubbed:
  assumes "0 < sz" "length bs = sz" "sz < 2 ^ 63"
  shows "Deserialize B (MEMORYPACK_UNMANAGED_SCRUBBED sz members) bs = Ret bs"
  using Deserialize_decodes [where rest = "[]" and F = any_limits and T = "MEMORYPACK_UNMANAGED_SCRUBBED sz members" and bs = bs and v = bs] assms
  by (simp add: Read_def MEMORYPACK_UNMANAGED_SCRUBBED_def decodes_ReadUnmanaged)

section \<open>An optional unmanaged struct\<close>

definition raw_nullable_enc :: "size_t \<Rightarrow> size_t \<Rightarrow> bytes option \<Rightarrow> bytes" where
  "raw_nullable_enc align sz v = (case v of
     None \<Rightarrow> replicate (NullableLayout_Size align sz) 0
   | Some x \<Rightarrow> (1 # replicate (align - 1) 0) @ x @ replicate (NullableLayout_Size align sz - align - sz) 0)"

lemma emits_optional_unmanaged:
  assumes "0 < align" "length x = sz"
  shows "emits B (WriteNullable_raw B align sz (Some x)) (raw_nullable_enc align sz (Some x))"
proof -
  let ?n = "NullableLayout_Size align sz"
  note b = NullableLayout_bounds [OF assms(1), of sz]
  have t: "take align ((replicate ?n 0)[0 := 1]) = (1 :: byte) # replicate (align - 1) 0"
    using assms b(1) by (cases align; cases ?n) (simp_all add: min_def)
  have d: "drop (align + sz) ((replicate ?n 0)[0 := 1]) = replicate (?n - align - sz) (0 :: byte)"
    using assms by (simp add: drop_update_cancel)
  have "store ((replicate ?n 0)[0 := 1]) align x = Some (raw_nullable_enc align sz (Some x))"
    using b(1) assms(2) by (simp add: store_def t d raw_nullable_enc_def)
  then show ?thesis using emits_AppendBytes [of B "raw_nullable_enc align sz (Some x)"]
    by (simp add: WriteNullable_raw_def NullableLayout_ValueOffset_def)
qed

lemma optional_sends_object:
  assumes "0 < align" "length x = sz" "2 * align + sz \<le> 2 ^ 62"
  shows "Serialize B (optional_unmanaged align sz) (Some x) = Ret (raw_nullable_enc align sz (Some x))"
    "length (raw_nullable_enc align sz (Some x)) = NullableLayout_Size align sz"
    "take sz (drop align (raw_nullable_enc align sz (Some x))) = x"
proof -
  note b = NullableLayout_bounds [OF assms(1), of sz]
  show l: "length (raw_nullable_enc align sz (Some x)) = NullableLayout_Size align sz"
    using assms b(1) by (simp add: raw_nullable_enc_def)
  then show "Serialize B (optional_unmanaged align sz) (Some x) = Ret (raw_nullable_enc align sz (Some x))"
    using assms b(2) emits_optional_unmanaged [OF assms(1,2), of B]
    by (intro Serialize_emits) (simp_all add: Write_def optional_unmanaged_def class_formatter_def)
  show "take sz (drop align (raw_nullable_enc align sz (Some x))) = x"
    using assms(1,2) by (cases align) (simp_all add: raw_nullable_enc_def)
qed

section \<open>The checks hold\<close>

interpretation Vec3: codec Vec3_formatter "\<lambda>v. v" "\<lambda>v. length v = 12" "\<lambda>_ _ _. True"
  unfolding Vec3_formatter_def by (rule unmanaged_codec) simp

interpretation PaddedStat: codec PaddedStat_formatter "\<lambda>v. v" "\<lambda>v. length v = 8" "\<lambda>_ _ _. True"
  unfolding PaddedStat_formatter_def by (rule unmanaged_codec) simp

lemma Vec3_exact: "UNMANAGED_EXACT_assert 12 Vec3_parts"
  by (simp add: UNMANAGED_EXACT_assert_def Vec3_parts_def)

lemma length_Vec3 [simp]: "length (Vec3 x y z) = 12"
  by (simp add: Vec3_def)

lemma Vec3_eq_refl: "\<not> float_nan x \<Longrightarrow> \<not> float_nan y \<Longrightarrow> \<not> float_nan z \<Longrightarrow> Vec3_eq (Vec3 x y z) (Vec3 x y z)"
  by (simp add: Vec3_eq_def Vec3_def u32_at_def float_eq_def)

lemma small_floats: "n < 10 \<Longrightarrow> \<not> float_nan (float_of_nat n)"
proof -
  have "list_all (\<lambda>n. \<not> float_nan (float_of_nat n)) [0 ..< 10]" by code_simp
  then show "n < 10 \<Longrightarrow> \<not> float_nan (float_of_nat n)" by (simp add: list_all_iff)
qed

lemma small_vec: "x < 10 \<Longrightarrow> y < 10 \<Longrightarrow> z < 10 \<Longrightarrow> Vec3_eq (vec x y z) (vec x y z)"
  by (intro Vec3_eq_refl small_floats)

lemma sample_vec_ok: "length sample_vec = 12" "Vec3_eq sample_vec sample_vec"
  unfolding sample_vec_def by (simp, intro Vec3_eq_refl) (simp_all add: float_nan_def)

lemma unmanaged_header_passes: "passes (unmanaged_header B)"
proof -
  let ?m = "\<lparr>mv3_x = 0x3FC00000, mv3_y = 0x40200000, mv3_z = 0x40600000\<rparr>"
  have "Serialize B ManagedVec3_formatter ?m = Ret (struct_enc ManagedVec3_layout ?m)" "length (struct_enc ManagedVec3_layout ?m) = 13"
    using ManagedVec3.Serialize_message [of ?m B] by (simp_all add: unmanaged_formatters unmanaged_layouts struct_enc_def)
  then show ?thesis using Vec3.Serialize_message [of sample_vec B] Vec3.Deserialize_message [of sample_vec B] sample_vec_ok
    by (simp add: unmanaged_header_def passing)
qed

lemma filled_stat_bytes: "filled_stat c = [3, c, c, c, 0x44, 0x33, 0x22, 0x11]"
proof -
  have "le_bytes (0x11223344 :: u32) = [0x44, 0x33, 0x22, 0x11]" by code_simp
  then show ?thesis by (simp add: filled_stat_def set_member_def numeral_eq_Suc)
qed

lemma filled_stat_eq: "PaddedStat_eq (filled_stat c) (filled_stat d)"
  by (simp add: PaddedStat_eq_def filled_stat_bytes u32_at_def)

lemma zero_padding: "padding_is_zero (filled_stat 0) = return True"
  by (simp add: padding_is_zero_def filled_stat_bytes byte_at_def return_def)

lemma filled_stat_simps:
  "length (filled_stat c) = 8" "byte_at (filled_stat c) (Suc 0) = Ret c" "filled_stat c = filled_stat d \<longleftrightarrow> c = d"
  by (auto simp: filled_stat_bytes byte_at_def)

lemma unmanaged_padding_value: "unmanaged_padding B = return (filled_stat 0)"
  using PaddedStat.Serialize_message [of "filled_stat 0" B] PaddedStat.Serialize_message [of "filled_stat 0xCD" B]
    PaddedStat.Deserialize_message [of "filled_stat 0" B] PaddedStat.Deserialize_message [of "filled_stat 0xCD" B]
  by (simp add: unmanaged_padding_def filled_stat_simps filled_stat_eq zero_padding return_def)

lemma scrubbed_stat: "scrub 8 [(0, 1), (4, 4)] (filled_stat c) = filled_stat 0"
  by (simp add: filled_stat_bytes scrub_def scrub_member_def numeral_eq_Suc)

lemma unmanaged_scrubbed_passes: "passes (unmanaged_scrubbed B (filled_stat 0))"
proof -
  have "Serialize B PaddedStatScrubbed_formatter (filled_stat 0xCD) = Ret (filled_stat 0)"
    unfolding PaddedStatScrubbed_formatter_def scrubbed_stat [of "0xCD", symmetric]
    by (rule Serialize_scrubbed) (simp_all add: filled_stat_bytes parts_inside_def)
  moreover have "Deserialize B PaddedStatScrubbed_formatter (filled_stat 0) = Ret (filled_stat 0)"
    unfolding PaddedStatScrubbed_formatter_def by (rule Deserialize_scrubbed) (simp_all add: filled_stat_bytes)
  ultimately show ?thesis by (simp add: unmanaged_scrubbed_def zero_padding filled_stat_eq passing)
qed

lemma unmanaged_bulk_passes: "passes (unmanaged_bulk B)"
proof -
  let ?e = "enc_collection (\<lambda>r. r) cloud"
  have e: "length ?e = 40" by (simp add: enc_collection_def enc_length_def cloud_def)
  have "emits B (WriteUnmanagedCollection B cloud) ?e"
    by (rule emits_WriteUnmanagedCollection) (simp add: cloud_def)
  from emitsD(1) [OF this, of writer_default] e obtain w where
    w: "WriteUnmanagedCollection B cloud writer_default = (Ret (), w)" "GetSpan w = ?e" "writer_inv w"
    by (auto elim: appendedE)
  have s: "Size w = 40" using length_GetSpan [OF w(3)] w(2) e by simp
  have d: "decodes (\<lambda>opts d. 3 \<le> unat (maxCollectionLength opts)) (ReadUnmanagedCollection B 12) ?e cloud"
    by (rule decodes_ReadUnmanagedCollection) (auto simp: cloud_def)
  have "ReadUnmanagedCollection B 12 (make_reader ?e) = (Ret cloud, make_reader ?e\<lparr>r_pos := 40\<rparr>)"
    using Read_start [OF d, where opts = default_options and rest = "[]"] e by (simp add: default_options_def make_reader_def)
  with s w e show ?thesis
    by (simp add: unmanaged_bulk_def)
      (auto simp: cloud_def small_vec IsEnd_def make_reader_def make_reader_with_def intro!: passing)
qed

lemma unmanaged_nested_passes: "passes (unmanaged_nested B)"
  unfolding unmanaged_nested_def unmanaged_formatters
  by (rule Transform.passes_sent_back [unfolded unmanaged_members])
    (auto simp: sample_transform_def unmanaged_layouts struct_enc_def struct_fits_def string_ok_def string_fits_def default_options_def
      enc_string_def small_vec intro!: passing)

lemma unmanaged_optional_passes: "passes (unmanaged_optional B)"
  using optional_sends_object(1) [of 4 sample_vec 12 B] optional_sends_object(2) [of 4 sample_vec 12] sample_vec_ok
  by (simp add: unmanaged_optional_def NullableLayout_Size_def passing)

lemma unmanaged_main_ok: "unmanaged_main B True = (Ret 0, True)"
  by (simp add: unmanaged_main_def seq_passes unmanaged_header_passes unmanaged_padding_value unmanaged_scrubbed_passes
      unmanaged_bulk_passes unmanaged_nested_passes unmanaged_optional_passes)

end
