(* ===== verification/DotnetDemo.thy ===== *)
theory DotnetDemo
  imports Examples
begin

text \<open>
  The .NET value types (\<^verbatim>\<open>examples/10_dotnet_types.cpp\<close>): text and bytes of a \<^verbatim>\<open>Guid\<close>, ticks and kind of a \<^verbatim>\<open>DateTime\<close>,
  durations, half-precision floats, a record of all four and the sizes of the others. The clock is a parameter:
  its period (\<open>per\<close> clock units make 100 ns) and the time \<open>now\<close> that it returns; \<open>clock_drift\<close> shows that the way
  through \<^verbatim>\<open>DateTime\<close> loses less than one tick. Every check holds on every build (\<open>dotnet_main_ok\<close>).
\<close>

section \<open>The record\<close>

record SessionRecord =
  ssr_sessionId :: Guid
  ssr_startedAt :: DateTime
  ssr_duration :: TimeSpan
  ssr_quality :: Half

definition SessionRecord_init :: SessionRecord where
  "SessionRecord_init = \<lparr>ssr_sessionId = Guid_init, ssr_startedAt = \<lparr>dateData = 0\<rparr>, ssr_duration = \<lparr>ticks = 0\<rparr>,
     ssr_quality = \<lparr>half_bits = 0\<rparr>\<rparr>"

definition SessionRecord_members :: "SessionRecord member list" where
  "SessionRecord_members = [member Guid_formatter ssr_sessionId (\<lambda>x. ssr_sessionId_update (\<lambda>_. x)),
     member DateTime_formatter ssr_startedAt (\<lambda>x. ssr_startedAt_update (\<lambda>_. x)),
     member TimeSpan_formatter ssr_duration (\<lambda>x. ssr_duration_update (\<lambda>_. x)),
     member Half_formatter ssr_quality (\<lambda>x. ssr_quality_update (\<lambda>_. x))]"

definition SessionRecord_formatter :: "SessionRecord MemoryPackFormatter" where
  "SessionRecord_formatter = MEMORYPACK_DEFINE SessionRecord_init SessionRecord_members"

definition SessionRecord_layout :: "SessionRecord layout" where
  "SessionRecord_layout = zip SessionRecord_members
    [field Guid_enc (\<lambda>g. length (data4 g) = 8) (\<lambda>_ _ _. True) ssr_sessionId (\<lambda>x. ssr_sessionId_update (\<lambda>_. x)),
     field (\<lambda>v. le_bytes (dateData v)) (\<lambda>_. True) (\<lambda>_ _ _. True) ssr_startedAt (\<lambda>x. ssr_startedAt_update (\<lambda>_. x)),
     field (\<lambda>v. le_bytes (ticks v)) (\<lambda>_. True) (\<lambda>_ _ _. True) ssr_duration (\<lambda>x. ssr_duration_update (\<lambda>_. x)),
     field (\<lambda>v. le_bytes (half_bits v)) (\<lambda>_. True) (\<lambda>_ _ _. True) ssr_quality (\<lambda>x. ssr_quality_update (\<lambda>_. x))]"

lemmas session_layout = SessionRecord_layout_def SessionRecord_members_def

lemma session_members [simp]: "map fst SessionRecord_layout = SessionRecord_members"
  by (simp add: session_layout)

interpretation SessionRecord: struct_codec SessionRecord_init SessionRecord_layout
  by (rule struct_codec.intro)
    (auto simp: session_layout intro: Guid_codec.member_field DateTime_codec.member_field TimeSpan_codec.member_field
      Half_codec.member_field)

section \<open>The program\<close>

text \<open>\<^verbatim>\<open>TimeSpan::FromDuration\<close> of a duration whose unit is \<open>k\<close> ticks: the cast multiplies.\<close>

definition FromDuration_coarse :: "int \<Rightarrow> int \<Rightarrow> TimeSpan outcome" where
  "FromDuration_coarse k d = (case int64 (d * k) of Ret t \<Rightarrow> Ret \<lparr>ticks = t\<rparr> | Throw e \<Rightarrow> Throw e | UB \<Rightarrow> UB)"

definition guid_text :: bytes where
  "guid_text = bytes_of_string ''01020304-0506-0708-090a-0b0c0d0e0f10''"

definition dotnet_guid :: "build \<Rightarrow> (bool, unit) op" where
  "dotnet_guid B =
     (let parsed = Guid_Parse guid_text in
     seq (Check (parsed \<noteq> None))
    (seq (case parsed of None \<Rightarrow> return ()
          | Some g \<Rightarrow>
              bind (lift (Serialize B Guid_formatter g)) (\<lambda>bytes.
              seq (Check (length bytes = 16))
             (bind (lift (Deserialize B Guid_formatter bytes)) (\<lambda>received.
              seq (Check (received = g)) (Check (Guid_ToString g = guid_text))))))
    (seq (Check (Guid_Parse (bytes_of_string ''not-a-guid'') = None))
         (Check (Guid_Parse (bytes_of_string ''01020304-0506-0708-090a-0b0c0d0e0f1'') = None)))))"

definition example_date :: "DateTimeKind \<Rightarrow> DateTime" where
  "example_date kind = FromTicks 638000000000000000 kind"

text \<open>The clock: \<open>now\<close> is its count of units since 1970, \<open>per\<close> the units in 100 ns.\<close>

definition dotnet_clock :: "int \<Rightarrow> int \<Rightarrow> (bool, unit) op" where
  "dotnet_clock per now =
     bind (lift (FromTimePoint per now)) (\<lambda>asDt.
     bind (lift (ToTimePoint per asDt)) (\<lambda>t.
     let received = sint t;
         drift = (if received > now then received - now else now - received) sdiv (per * TICKS_PER_SECOND) in
     seq (Check (drift = 0)) (Check (GetKind asDt = Utc))))"

definition dotnet_date :: "build \<Rightarrow> int \<Rightarrow> int \<Rightarrow> (bool, unit) op" where
  "dotnet_date B per now =
     (let dt = example_date Utc in
     bind (lift (Serialize B DateTime_formatter dt)) (\<lambda>bytes.
     seq (Check (length bytes = 8))
    (bind (lift (Deserialize B DateTime_formatter bytes)) (\<lambda>received.
     seq (Check (received = dt))
    (seq (Check (GetKind dt = Utc))
    (seq (Check (GetTicks dt = 638000000000000000))
         (dotnet_clock per now)))))))"

definition dotnet_span :: "build \<Rightarrow> (bool, unit) op" where
  "dotnet_span B =
     bind (lift (FromDuration_coarse TICKS_PER_SECOND 90)) (\<lambda>span.
     bind (lift (ToDuration span)) (\<lambda>printed.
     bind (lift (Serialize B TimeSpan_formatter span)) (\<lambda>bytes.
     seq (Check (length bytes = 8))
    (seq (Check (ticks span = 900000000))
    (bind (lift (ToDuration span)) (\<lambda>d.
     seq (Check (sint d = 90 * 1000000000))
    (bind (lift (Deserialize B TimeSpan_formatter bytes)) (\<lambda>received.
     seq (Check (ticks received = ticks span))
         (Check (ticks (FromDuration 100 150) = 1))))))))))"

definition exact_halves :: "u32 list" where
  "exact_halves = [0, 0x3F800000, 0xBF800000, 0x3F000000, 0x3FC00000, 0xBE800000, 0x477FE000]"

definition dotnet_half :: "build \<Rightarrow> (bool, unit) op" where
  "dotnet_half B =
     (let quality = FromFloat 0x3F400000 in
     bind (lift (ToFloat quality)) (\<lambda>printed.
     bind (lift (Serialize B Half_formatter quality)) (\<lambda>bytes.
     seq (Check (length bytes = 2))
    (bind (lift (Deserialize B Half_formatter bytes)) (\<lambda>received.
     seq (Check (received = quality))
         (for_each (\<lambda>f. bind (lift (ToFloat (FromFloat f))) (\<lambda>x. Check (float_eq x f))) exact_halves))))))"

definition dotnet_record :: "build \<Rightarrow> (bool, unit) op" where
  "dotnet_record B =
     (let sessionId = Guid_Parse (bytes_of_string ''2f9a1c40-1111-2222-3333-444455556666'') in
     seq (Check (sessionId \<noteq> None))
    (bind (lift (FromDuration_coarse (60 * TICKS_PER_SECOND) 3)) (\<lambda>duration.
     let record = \<lparr>ssr_sessionId = (case sessionId of Some g \<Rightarrow> g | None \<Rightarrow> ssr_sessionId SessionRecord_init),
           ssr_startedAt = example_date Utc, ssr_duration = duration, ssr_quality = FromFloat 0x3F400000\<rparr> in
     bind (lift (Serialize B SessionRecord_formatter record)) (\<lambda>bytes.
     seq (Check (length bytes = 35))
    (bind (lift (Deserialize B SessionRecord_formatter bytes)) (\<lambda>received.
     bind (lift (ToFloat (ssr_quality received))) (\<lambda>printed.
     seq (Check (ssr_sessionId received = ssr_sessionId record))
    (seq (Check (ssr_startedAt received = ssr_startedAt record))
    (seq (Check (ticks (ssr_duration received) = ticks (ssr_duration record)))
         (Check (ssr_quality received = ssr_quality record)))))))))))"

definition dotnet_rest :: "build \<Rightarrow> (bool, unit) op" where
  "dotnet_rest B =
     (let dto = \<lparr>offsetMinutes = 9 * 60, dateTime = example_date Unspecified\<rparr> in
     bind (lift (Serialize B DateTimeOffset_formatter dto)) (\<lambda>a.
     bind (lift (Serialize B Decimal_formatter \<lparr>decimal_bits = replicate 16 0\<rparr>)) (\<lambda>b.
     bind (lift (Serialize B Int128_formatter \<lparr>low128 = 0x0123456789ABCDEF, high128 = 1\<rparr>)) (\<lambda>c.
     bind (lift (Serialize B Vector3_formatter
       (le_bytes (0x3F800000 :: u32) @ le_bytes (0x40000000 :: u32) @ le_bytes (0x40400000 :: u32)))) (\<lambda>d.
     seq (Check (length a = 16)) (seq (Check (length b = 16)) (seq (Check (length c = 16)) (seq (Check (length d = 12))
    (bind (sent_back B DateTimeOffset_formatter dto) (\<lambda>received. Check (received = dto)))))))))))"

definition dotnet_main :: "build \<Rightarrow> int \<Rightarrow> int \<Rightarrow> (bool, int) op" where
  "dotnet_main B per now =
     seq (dotnet_guid B) (seq (dotnet_date B per now) (seq (dotnet_span B) (seq (dotnet_half B)
    (seq (dotnet_record B) (seq (dotnet_rest B) exit_code)))))"

section \<open>The clock\<close>

text \<open>A clock after 1970 whose count is a 64-bit integer.\<close>

definition clock_in_range :: "int \<Rightarrow> int \<Rightarrow> bool" where
  "clock_in_range per now \<longleftrightarrow> 0 < per \<and> 0 \<le> now \<and> now < 2 ^ 63 \<and> now < per * 2 ^ 61"

lemma clock_drift:
  assumes "clock_in_range per now"
  obtains dt where "FromTimePoint per now = Ret dt" "GetKind dt = Utc" "ToTimePoint per dt = Ret (word_of_int (now div per * per))"
    "sint (word_of_int (now div per * per) :: u64) = now div per * per" "0 \<le> now - now div per * per" "now - now div per * per < per"
proof -
  from assms have per: "0 < per" "0 \<le> now" "now < 2 ^ 63" "now < per * 2 ^ 61" by (simp_all add: clock_in_range_def)
  let ?q = "now div per"
  define t where "t = ?q + TICKS_AT_UNIX_EPOCH"
  have q: "0 \<le> ?q" "?q * per \<le> now" using per pos_imp_zdiv_nonneg_iff [of per now] div_mult_mod_eq [of now per] pos_mod_sign [of per now]
    by linarith+
  then have "?q * per < 2 ^ 61 * per" using per(4) by (simp add: mult.commute)
  then have bound: "?q < 2 ^ 61" using per(1) by (simp add: mult_less_cancel_right)
  have s: "now sdiv per = ?q" using per by (cases "now = 0") (simp_all add: signed_divide_int_def sgn_if)
  have t: "0 \<le> t" "t < 2 ^ 62" using q(1) bound by (simp_all add: t_def TICKS_AT_UNIX_EPOCH_def)
  have "(word_of_int t :: u64) < 2 ^ 62"
    using t by (simp add: word_less_alt unsigned_of_int take_bit_int_eq_self)
  from FromTicks_round_trip [OF this, of Utc]
  have dt: "GetTicks (FromTicks (word_of_int t) Utc) = word_of_int t" "GetKind (FromTicks (word_of_int t) Utc) = Utc"
    by (simp_all add: Utc_def)
  have st: "sint (word_of_int t :: u64) = t" using t by (intro sint_of_int_64) simp
  have qp: "0 \<le> ?q * per" "?q * per < 2 ^ 63" using q per mult_nonneg_nonneg [OF q(1), of per] by linarith+
  have e: "t - TICKS_AT_UNIX_EPOCH = ?q" by (simp add: t_def)
  show thesis
  proof (rule that)
    show "FromTimePoint per now = Ret (FromTicks (word_of_int t) Utc)"
      using t unfolding FromTimePoint_def s t_def [symmetric] by (simp add: int64_def)
    show "ToTimePoint per (FromTicks (word_of_int t) Utc) = Ret (word_of_int (?q * per))"
      unfolding ToTimePoint_def dt(1) st e int64_def using qp by simp
    show "sint (word_of_int (?q * per) :: u64) = ?q * per" using qp by (intro sint_of_int_64) linarith
    show "now - ?q * per < per" using pos_mod_bound [OF per(1), of now] by (simp add: minus_div_mult_eq_mod)
  qed (use dt q in simp_all)
qed

lemma dotnet_clock_passes: "clock_in_range per now \<Longrightarrow> passes (dotnet_clock per now)"
proof -
  assume ok: "clock_in_range per now"
  then have per: "0 < per" by (simp add: clock_in_range_def)
  from clock_drift [OF ok] obtain dt where dt: "FromTimePoint per now = Ret dt" "GetKind dt = Utc"
    "ToTimePoint per dt = Ret (word_of_int (now div per * per))"
    "sint (word_of_int (now div per * per) :: u64) = now div per * per" "0 \<le> now - now div per * per" "now - now div per * per < per" .
  have "(now - now div per * per) sdiv (per * TICKS_PER_SECOND) = 0"
    using dt(5,6) per by (simp add: signed_divide_int_def TICKS_PER_SECOND_def div_pos_pos_trivial)
  with dt show ?thesis by (simp add: dotnet_clock_def Let_def passing)
qed

section \<open>The checks hold\<close>

lemma guid_parsed:
  "Guid_Parse guid_text = Some \<lparr>data1 = 0x01020304, data2 = 0x0506, data3 = 0x0708, data4 = [9, 10, 11, 12, 13, 14, 15, 16]\<rparr>"
  "Guid_ToString \<lparr>data1 = 0x01020304, data2 = 0x0506, data3 = 0x0708, data4 = [9, 10, 11, 12, 13, 14, 15, 16]\<rparr> = guid_text"
  "Guid_Parse (bytes_of_string ''not-a-guid'') = None"
  "Guid_Parse (bytes_of_string ''01020304-0506-0708-090a-0b0c0d0e0f1'') = None"
  "Guid_Parse (bytes_of_string ''2f9a1c40-1111-2222-3333-444455556666'') =
     Some \<lparr>data1 = 0x2f9a1c40, data2 = 0x1111, data3 = 0x2222, data4 = [0x33, 0x33, 0x44, 0x44, 0x55, 0x55, 0x66, 0x66]\<rparr>"
  by code_simp+

lemma dotnet_guid_passes: "passes (dotnet_guid B)"
proof -
  let ?g = "\<lparr>data1 = 0x01020304, data2 = 0x0506, data3 = 0x0708, data4 = [9, 10, 11, 12, 13, 14, 15, 16]\<rparr>"
  have "length (Guid_enc ?g) = 16" by (simp add: Guid_enc_def)
  then show ?thesis using Guid_codec.Serialize_message [of ?g B] Guid_codec.Deserialize_message [of ?g B]
    by (simp add: dotnet_guid_def guid_parsed passing)
qed

lemma example_date_fields: "GetKind (example_date Utc) = Utc" "GetTicks (example_date Utc) = 638000000000000000"
  using FromTicks_round_trip [of 638000000000000000 Utc] by (simp_all add: example_date_def Utc_def)

lemma dotnet_date_passes: "clock_in_range per now \<Longrightarrow> passes (dotnet_date B per now)"
  using DateTime_codec.Serialize_message [of "example_date Utc" B] DateTime_codec.Deserialize_message [of "example_date Utc" B]
  by (simp add: dotnet_date_def example_date_fields dotnet_clock_passes passing)

lemma dotnet_span_passes: "passes (dotnet_span B)"
proof -
  have "FromDuration_coarse TICKS_PER_SECOND 90 = Ret \<lparr>ticks = 900000000\<rparr>" "ToDuration \<lparr>ticks = 900000000\<rparr> = Ret 90000000000"
    "sint (90000000000 :: u64) = 90000000000" "ticks (FromDuration 100 150) = 1"
    by code_simp+
  then show ?thesis
    using TimeSpan_codec.Serialize_message [of "\<lparr>ticks = 900000000\<rparr>" B] TimeSpan_codec.Deserialize_message [of "\<lparr>ticks = 900000000\<rparr>" B]
    by (simp add: dotnet_span_def passing)
qed

lemma halves_exact: "\<forall>f \<in> set exact_halves. ToFloat (FromFloat f) = Ret f \<and> float_eq f f"
  by code_simp

lemma quality: "ToFloat (FromFloat 0x3F400000) = Ret 0x3F400000"
  by code_simp

lemma dotnet_half_passes: "passes (dotnet_half B)"
  using Half_codec.Serialize_message [of "FromFloat 0x3F400000" B] Half_codec.Deserialize_message [of "FromFloat 0x3F400000" B] halves_exact
  by (auto simp: dotnet_half_def quality intro!: passing passes_for_each)

lemma dotnet_record_passes: "passes (dotnet_record B)"
proof -
  let ?g = "\<lparr>data1 = 0x2f9a1c40, data2 = 0x1111, data3 = 0x2222, data4 = [0x33, 0x33, 0x44, 0x44, 0x55, 0x55, 0x66, 0x66]\<rparr>"
  let ?r = "\<lparr>ssr_sessionId = ?g, ssr_startedAt = example_date Utc, ssr_duration = \<lparr>ticks = 1800000000\<rparr>,
    ssr_quality = FromFloat 0x3F400000\<rparr>"
  have d: "FromDuration_coarse (60 * TICKS_PER_SECOND) 3 = Ret \<lparr>ticks = 1800000000\<rparr>" by code_simp
  have "members_ok SessionRecord_layout ?r" "struct_fits SessionRecord_layout ?r default_options 0"
    and l: "length (struct_enc SessionRecord_layout ?r) = 35"
    by (simp_all add: session_layout struct_enc_def struct_fits_def default_options_def Guid_enc_def)
  then have "Serialize B SessionRecord_formatter ?r = Ret (struct_enc SessionRecord_layout ?r)"
    "Deserialize B SessionRecord_formatter (struct_enc SessionRecord_layout ?r) = Ret ?r"
    using SessionRecord.Serialize_message [of ?r B] SessionRecord.Deserialize_message [of ?r B]
    by (simp_all add: SessionRecord_formatter_def)
  then show ?thesis by (simp add: dotnet_record_def guid_parsed d l quality Let_def passing)
qed

lemma dotnet_rest_passes: "passes (dotnet_rest B)"
proof -
  let ?v = "le_bytes (0x3F800000 :: u32) @ le_bytes (0x40000000 :: u32) @ le_bytes (0x40400000 :: u32)"
  let ?o = "\<lparr>offsetMinutes = 9 * 60, dateTime = example_date Unspecified\<rparr>"
  have o: "length (DateTimeOffset_enc v) = 16" for v by (simp add: DateTimeOffset_enc_def)
  have "codec Vector3_formatter (\<lambda>v. v) (\<lambda>v. length v = 12) (\<lambda>_ _ _. True)"
    unfolding Vector3_formatter_def by (rule unmanaged_codec) simp
  then have "Serialize B Vector3_formatter ?v = Ret ?v" by (rule codec.serialize) simp_all
  moreover have "bind (sent_back B DateTimeOffset_formatter ?o) f = f ?o" for f :: "_ \<Rightarrow> (bool, unit) op"
    by (rule DateTimeOffset_codec.received_message) (simp_all add: o)
  ultimately show ?thesis
    using DateTimeOffset_codec.Serialize_message [of ?o B] o Decimal_codec.Serialize_message [of "\<lparr>decimal_bits = replicate 16 0\<rparr>" B]
      Int128_codec.Serialize_message [of "\<lparr>low128 = 0x0123456789ABCDEF, high128 = 1\<rparr>" B]
    by (simp add: dotnet_rest_def Let_def passing)
qed

lemma dotnet_main_ok: "clock_in_range per now \<Longrightarrow> dotnet_main B per now True = (Ret 0, True)"
  by (simp add: dotnet_main_def seq_passes dotnet_guid_passes dotnet_date_passes dotnet_span_passes dotnet_half_passes
      dotnet_record_passes dotnet_rest_passes)

end
