(* ===== verification/Basics.thy ===== *)
theory Basics
  imports Examples "HOL-Library.List_Lexorder"
begin

text \<open>
  The first two examples: a flat struct (\<^verbatim>\<open>examples/01_quick_start.cpp\<close>) and nested objects and collections
  (\<^verbatim>\<open>examples/02_nested_and_collections.cpp\<close>). A \<^verbatim>\<open>std::set<int32_t>\<close> is ordered by the signed values of its elements
  (\<open>signed_set\<close>), a \<^verbatim>\<open>std::map<std::string, int32_t>\<close> by the bytes of its keys. Both programs exit with 0 on every
  build (\<open>quick_main_ok\<close>, \<open>collections_main_ok\<close>), and every inventory within the limits survives the round trip
  (\<open>Inventory\<close>).
\<close>

record QuickLogin =
  qln_userId :: u32
  qln_userName :: bytes
  qln_level :: u32
  qln_isAdmin :: bool

record Item =
  itm_id :: u32
  itm_name :: bytes

definition QuickLogin_members :: "QuickLogin member list" where
  "QuickLogin_members = [member uint32_formatter qln_userId (\<lambda>x. qln_userId_update (\<lambda>_. x)),
     member string_formatter qln_userName (\<lambda>x. qln_userName_update (\<lambda>_. x)),
     member float_formatter qln_level (\<lambda>x. qln_level_update (\<lambda>_. x)),
     member bool_formatter qln_isAdmin (\<lambda>x. qln_isAdmin_update (\<lambda>_. x))]"

definition Item_members :: "Item member list" where
  "Item_members = [member uint32_formatter itm_id (\<lambda>x. itm_id_update (\<lambda>_. x)),
     member string_formatter itm_name (\<lambda>x. itm_name_update (\<lambda>_. x))]"

definition QuickLogin_init :: QuickLogin where
  "QuickLogin_init = \<lparr>qln_userId = 0, qln_userName = [], qln_level = 0, qln_isAdmin = False\<rparr>"

definition Item_init :: Item where
  "Item_init = \<lparr>itm_id = 0, itm_name = []\<rparr>"

definition QuickLogin_formatter :: "QuickLogin MemoryPackFormatter" where
  "QuickLogin_formatter = MEMORYPACK_DEFINE QuickLogin_init QuickLogin_members"

definition Item_formatter :: "Item MemoryPackFormatter" where
  "Item_formatter = MEMORYPACK_DEFINE Item_init Item_members"

section \<open>Layouts\<close>

definition QuickLogin_layout :: "QuickLogin layout" where
  "QuickLogin_layout = zip QuickLogin_members [word_field qln_userId (\<lambda>x. qln_userId_update (\<lambda>_. x)),
     string_field qln_userName (\<lambda>x. qln_userName_update (\<lambda>_. x)),
     word_field qln_level (\<lambda>x. qln_level_update (\<lambda>_. x)),
     bool_field qln_isAdmin (\<lambda>x. qln_isAdmin_update (\<lambda>_. x))]"

definition Item_layout :: "Item layout" where
  "Item_layout = zip Item_members [word_field itm_id (\<lambda>x. itm_id_update (\<lambda>_. x)),
     string_field itm_name (\<lambda>x. itm_name_update (\<lambda>_. x))]"

lemmas basic_layouts =
  QuickLogin_layout_def QuickLogin_members_def
  Item_layout_def Item_members_def

lemma basic_members [simp]:
  "map fst QuickLogin_layout = QuickLogin_members"
  "map fst Item_layout = Item_members"
  by (simp_all add: basic_layouts)

interpretation QuickLogin: struct_codec QuickLogin_init QuickLogin_layout
  by (rule struct_codec.intro) (auto simp: basic_layouts intro: struct_members)

interpretation Item: struct_codec Item_init Item_layout
  by (rule struct_codec.intro) (auto simp: basic_layouts intro: struct_members)

lemmas basic_formatters =
  QuickLogin_formatter_def
  Item_formatter_def

section \<open>Signed sets\<close>

definition signed_set :: "(u32 list, u32) container" where
  "signed_set = \<lparr>c_empty = [], c_items = (\<lambda>c. c),
     c_insert = (\<lambda>x c. map word_of_int (set_insert (sint x) (map sint c)))\<rparr>"

lemma signed_inserts:
  "foldl (\<lambda>c x. c_insert signed_set x c) acc xs = map word_of_int (foldl (\<lambda>c x. set_insert x c) (map sint acc) (map sint xs))"
proof (induction xs arbitrary: acc)
  case (Cons x xs)
  have "set_insert (sint x) (map sint acc) = map sint (map word_of_int (set_insert (sint x) (map sint acc)) :: u32 list)"
  proof -
    have "set (set_insert a bs) \<subseteq> insert a (set bs)" for a :: int and bs by (induction bs) auto
    then have "set (set_insert (sint x) (map sint acc)) \<subseteq> range (sint :: u32 \<Rightarrow> int)" by fastforce
    then have "map (sint \<circ> (word_of_int :: int \<Rightarrow> u32)) (set_insert (sint x) (map sint acc)) = set_insert (sint x) (map sint acc)"
      by (intro map_idI) auto
    then show ?thesis by simp
  qed
  with Cons.IH show ?case by (simp add: signed_set_def)
qed (simp add: map_idI)

interpretation signed_set: rebuildable signed_set "sorted_wrt (\<lambda>a b. sint a < sint b)"
proof
  fix c :: "u32 list" assume c: "sorted_wrt (\<lambda>a b. sint a < sint b) c"
  have "foldl (\<lambda>c x. set_insert x c) [] (map sint c) = map sint c"
    using foldl_set_insert [of "[]" "map sint c"] c by (simp add: sorted_wrt_map)
  then have "foldl (\<lambda>c x. c_insert signed_set x c) [] c = map word_of_int (map sint c)"
    unfolding signed_inserts by simp
  then show "foldl (\<lambda>c x. c_insert signed_set x c) (c_empty signed_set) (c_items signed_set c) = c"
    by (simp add: signed_set_def comp_def)
qed

section \<open>The inventory\<close>

record Inventory =
  inv_equipped :: Item
  inv_bag :: "Item list"
  inv_grid :: "u32 list list"
  inv_counts :: "(bytes \<times> u32) list"
  inv_tags :: "u32 list"
  inv_note :: "bytes option"

definition Inventory_init :: Inventory where
  "Inventory_init = \<lparr>inv_equipped = Item_init, inv_bag = [], inv_grid = [], inv_counts = [], inv_tags = [], inv_note = None\<rparr>"

abbreviation "counts_formatter \<equiv> MapFormatter string_formatter uint32_formatter std_map"
abbreviation "tags_formatter \<equiv> SetFormatter uint32_formatter signed_set"
abbreviation "grid_formatter \<equiv> vector_formatter (vector_formatter_arith :: u32 list MemoryPackFormatter)"

definition Inventory_members :: "Inventory member list" where
  "Inventory_members = [member Item_formatter inv_equipped (\<lambda>x. inv_equipped_update (\<lambda>_. x)),
     member (vector_formatter Item_formatter) inv_bag (\<lambda>x. inv_bag_update (\<lambda>_. x)),
     member grid_formatter inv_grid (\<lambda>x. inv_grid_update (\<lambda>_. x)),
     member counts_formatter inv_counts (\<lambda>x. inv_counts_update (\<lambda>_. x)),
     member tags_formatter inv_tags (\<lambda>x. inv_tags_update (\<lambda>_. x)),
     member optional_string inv_note (\<lambda>x. inv_note_update (\<lambda>_. x))]"

definition Inventory_formatter :: "Inventory MemoryPackFormatter" where
  "Inventory_formatter = MEMORYPACK_DEFINE Inventory_init Inventory_members"

interpretation counts: map_codec string_formatter enc_string string_ok "\<lambda>s opts d. string_fits s opts"
  uint32_formatter le_bytes "\<lambda>_. True" "\<lambda>_ _ _. True" std_map "sorted_wrt (\<lambda>a b. fst a < fst b)"
  by unfold_locales

interpretation tags: set_codec uint32_formatter le_bytes "\<lambda>_. True" "\<lambda>_ _ _. True" signed_set "sorted_wrt (\<lambda>a b. sint a < sint b)"
  by unfold_locales

interpretation bag: codec "vector_formatter Item_formatter" "enc_collection (struct_enc Item_layout)"
  "all_ok (members_ok Item_layout)" "all_fit (struct_fits Item_layout)"
  using Item.vector_codec by (simp add: basic_formatters)

interpretation grid: codec grid_formatter "enc_collection (enc_collection le_bytes)" "all_ok (all_ok (\<lambda>_. True))"
  "all_fit (all_fit (\<lambda>_ _ _. True))"
  by (intro codec.vector_codec vector_arith_codec) simp

interpretation remark: codec optional_string "opt_enc (le_bytes (-1 :: u32)) enc_string" "opt_ok string_ok"
  "opt_fits (\<lambda>s opts d. string_fits s opts)"
  by (rule optional_string_codec)

definition Inventory_layout :: "Inventory layout" where
  "Inventory_layout = zip Inventory_members
    [field (struct_enc Item_layout) (members_ok Item_layout) (struct_fits Item_layout) inv_equipped (\<lambda>x. inv_equipped_update (\<lambda>_. x)),
     field (enc_collection (struct_enc Item_layout)) (all_ok (members_ok Item_layout)) (all_fit (struct_fits Item_layout))
       inv_bag (\<lambda>x. inv_bag_update (\<lambda>_. x)),
     field (enc_collection (enc_collection le_bytes)) (all_ok (all_ok (\<lambda>_. True))) (all_fit (all_fit (\<lambda>_ _ _. True)))
       inv_grid (\<lambda>x. inv_grid_update (\<lambda>_. x)),
     field (\<lambda>m. enc_collection (\<lambda>(x, y). enc_string x @ le_bytes y) (c_items std_map m))
       (\<lambda>m. sorted_wrt (\<lambda>a b. fst a < fst b) m \<and> all_ok (\<lambda>(x, y). string_ok x \<and> True) (c_items std_map m))
       (\<lambda>m. all_fit (\<lambda>(x, y) opts d. string_fits x opts \<and> True) (c_items std_map m)) inv_counts (\<lambda>x. inv_counts_update (\<lambda>_. x)),
     field (\<lambda>c. enc_collection le_bytes (c_items signed_set c))
       (\<lambda>c. sorted_wrt (\<lambda>a b. sint a < sint b) c \<and> all_ok (\<lambda>_. True) (c_items signed_set c))
       (\<lambda>c. all_fit (\<lambda>_ _ _. True) (c_items signed_set c)) inv_tags (\<lambda>x. inv_tags_update (\<lambda>_. x)),
     field (opt_enc (le_bytes (-1 :: u32)) enc_string) (opt_ok string_ok) (opt_fits (\<lambda>s opts d. string_fits s opts))
       inv_note (\<lambda>x. inv_note_update (\<lambda>_. x))]"

lemmas inventory_layout = Inventory_layout_def Inventory_members_def

lemma inventory_members [simp]: "map fst Inventory_layout = Inventory_members"
  by (simp add: inventory_layout)

interpretation Inventory: struct_codec Inventory_init Inventory_layout
  using Item.member_field [unfolded basic_members] bag.member_field [unfolded basic_formatters] grid.member_field
    counts.map.member_field tags.set.member_field remark.member_field
  by (intro struct_codec.intro) (auto simp: inventory_layout basic_formatters)

section \<open>The programs\<close>

definition alice :: QuickLogin where
  "alice = \<lparr>qln_userId = 1001, qln_userName = bytes_of_string ''Alice'', qln_level = 0x41480000, qln_isAdmin = True\<rparr>"

definition quick_main :: "build \<Rightarrow> (bool, int) op" where
  "quick_main B =
     bind (lift (Serialize B QuickLogin_formatter alice)) (\<lambda>bytes.
     bind (lift (Deserialize B QuickLogin_formatter bytes)) (\<lambda>received.
       return (if qln_userId received = qln_userId alice \<and> qln_userName received = qln_userName alice
           \<and> float_eq (qln_level received) (qln_level alice) \<and> qln_isAdmin received = qln_isAdmin alice
         then 0 else 1)))"

definition item :: "u32 \<Rightarrow> string \<Rightarrow> Item" where
  "item n s = \<lparr>itm_id = n, itm_name = bytes_of_string s\<rparr>"

text \<open>Containers from an initializer list.\<close>

definition map_of_list :: "(string \<times> u32) list \<Rightarrow> (bytes \<times> u32) list" where
  "map_of_list xs = foldl (\<lambda>m (k, v). c_insert std_map (bytes_of_string k, v) m) (c_empty std_map) xs"

definition set_of_list :: "u32 list \<Rightarrow> u32 list" where
  "set_of_list xs = foldl (\<lambda>c x. c_insert signed_set x c) (c_empty signed_set) xs"

definition collection_shows :: "build \<Rightarrow> (bool, unit) op" where
  "collection_shows B =
     seq (Show B Item_formatter (item 7 ''axe''))
    (seq (Show B (vector_formatter Item_formatter) [item 1 ''a'', item 2 ''b''])
    (seq (Show B (vector_formatter Item_formatter) [])
    (seq (Show B grid_formatter [[1, 2], [3]])
    (seq (Show B counts_formatter (map_of_list [(''hp'', 100), (''mp'', 50)]))
    (seq (Show B tags_formatter (set_of_list [3, 1, 2]))
    (seq (Show B optional_string (Some (bytes_of_string ''hi'')))
         (Show B optional_string None)))))))"

definition starter_kit :: Inventory where
  "starter_kit = \<lparr>inv_equipped = item 7 ''axe'', inv_bag = [item 1 ''a'', item 2 ''b''], inv_grid = [[1, 2], [3]],
     inv_counts = map_of_list [(''hp'', 100), (''mp'', 50)], inv_tags = set_of_list [3, 1, 2],
     inv_note = Some (bytes_of_string ''starter kit'')\<rparr>"

definition collections_main :: "build \<Rightarrow> (bool, int) op" where
  "collections_main B =
     seq (collection_shows B)
    (bind (lift (Serialize B Inventory_formatter starter_kit)) (\<lambda>bytes.
     bind (lift (Deserialize B Inventory_formatter bytes)) (\<lambda>received.
       return (if itm_name (inv_equipped received) = itm_name (inv_equipped starter_kit)
           \<and> length (inv_bag received) = length (inv_bag starter_kit) \<and> inv_grid received = inv_grid starter_kit
           \<and> inv_counts received = inv_counts starter_kit \<and> inv_tags received = inv_tags starter_kit
           \<and> inv_note received = inv_note starter_kit
         then 0 else 1))))"

section \<open>Both programs succeed\<close>

lemma quick_main_ok: "quick_main B s = (Ret 0, s)"
proof -
  have "members_ok QuickLogin_layout alice" "struct_fits QuickLogin_layout alice default_options 0"
    "length (struct_enc QuickLogin_layout alice) = 23"
    by (simp_all add: basic_layouts alice_def struct_enc_def struct_fits_def string_ok_def string_fits_def default_options_def enc_string_def)
  with QuickLogin.Serialize_message [of alice B] QuickLogin.Deserialize_message [of alice B] show ?thesis
    by (simp add: quick_main_def basic_formatters) (simp add: alice_def float_eq_def float_nan_def)
qed

lemma initial_containers:
  "map_of_list [(''hp'', 100), (''mp'', 50)] = [(bytes_of_string ''hp'', 100), (bytes_of_string ''mp'', 50)]"
  "set_of_list [3, 1, 2] = [1, 2, 3]"
  by code_simp+

lemma hp_before_mp: "bytes_of_string ''hp'' < bytes_of_string ''mp''"
  by code_simp

lemmas kit_defs = starter_kit_def initial_containers item_def basic_layouts struct_enc_def struct_fits_def string_ok_def string_fits_def
  default_options_def enc_string_def all_ok_def all_fit_def enc_collection_def enc_length_def std_map_def signed_set_def hp_before_mp

lemma starter_kit_short:
  "members_ok Inventory_layout starter_kit" "struct_fits Inventory_layout starter_kit default_options 0"
  "length (struct_enc Inventory_layout starter_kit) \<le> 1000"
  by (simp_all add: inventory_layout kit_defs)

lemma collection_shows_passes: "passes (collection_shows B)"
  unfolding collection_shows_def
  by (intro passing Item.passes_Show [unfolded basic_members, folded basic_formatters] bag.passes_Show grid.passes_Show
      counts.map.passes_Show tags.set.passes_Show remark.passes_Show)
    (simp_all add: kit_defs)

lemma collections_main_ok: "collections_main B s = (Ret 0, s)"
  using Inventory.Serialize_message [OF starter_kit_short(1), of B] Inventory.Deserialize_message [OF starter_kit_short(1,2), of B]
    starter_kit_short(3)
  by (simp add: collections_main_def seq_passes collection_shows_passes Inventory_formatter_def)

end
