(* ===== verification/Generated.thy ===== *)
theory Generated
  imports GamePackets
begin

unbundle bit_operations_syntax

text \<open>
  What the code generator emits for flat structs, from the expected outputs of its tests
  (\<^verbatim>\<open>tools/cs2cpp.Tests/Expected\<close>): \<^verbatim>\<open>Plain.hpp\<close>, \<^verbatim>\<open>OrderIgnore.hpp\<close> and \<^verbatim>\<open>Dispatch.hpp\<close> in the macro style,
  \<^verbatim>\<open>PlainExplicit.hpp\<close> and \<^verbatim>\<open>DispatchExplicitOff.hpp\<close> with spelled-out serializers for the same structs.

  An operation is \<open>depth_free\<close> when it neither reads nor changes the nesting depth of the reader. The explicit
  readers do not count the depth at all, and the members of a flat struct are \<open>depth_free\<close>, so both styles write the
  same bytes and read the same value or report the same error on every input (\<open>same_reader\<close>). They differ on a
  null object read into an existing one (\<open>explicit_keeps_value\<close>).
\<close>

record PlainLogin =
  pln_username :: bytes
  pln_level :: u32
  pln_remember :: bool
  pln_score :: u64

record FieldPacket =
  fdp_id :: u32
  fdp_name :: bytes
  fdp_stamp :: u64

record RecordPacket =
  rcp_id :: u32
  rcp_name :: bytes

record DispatchLogin =
  dsl_username :: bytes
  dsl_level :: u32

record DispatchResponse =
  dsr_success :: bool
  dsr_playerId :: u32

record OrderedPacket =
  ord_first :: u32
  ord_second :: u32
  ord_trailing :: bytes

definition PlainLogin_members :: "PlainLogin member list" where
  "PlainLogin_members = [member string_formatter pln_username (\<lambda>x. pln_username_update (\<lambda>_. x)),
     member uint32_formatter pln_level (\<lambda>x. pln_level_update (\<lambda>_. x)),
     member bool_formatter pln_remember (\<lambda>x. pln_remember_update (\<lambda>_. x)),
     member double_formatter pln_score (\<lambda>x. pln_score_update (\<lambda>_. x))]"

definition FieldPacket_members :: "FieldPacket member list" where
  "FieldPacket_members = [member uint32_formatter fdp_id (\<lambda>x. fdp_id_update (\<lambda>_. x)),
     member string_formatter fdp_name (\<lambda>x. fdp_name_update (\<lambda>_. x)),
     member uint64_formatter fdp_stamp (\<lambda>x. fdp_stamp_update (\<lambda>_. x))]"

definition RecordPacket_members :: "RecordPacket member list" where
  "RecordPacket_members = [member uint32_formatter rcp_id (\<lambda>x. rcp_id_update (\<lambda>_. x)),
     member string_formatter rcp_name (\<lambda>x. rcp_name_update (\<lambda>_. x))]"

definition DispatchLogin_members :: "DispatchLogin member list" where
  "DispatchLogin_members = [member string_formatter dsl_username (\<lambda>x. dsl_username_update (\<lambda>_. x)),
     member uint32_formatter dsl_level (\<lambda>x. dsl_level_update (\<lambda>_. x))]"

definition DispatchResponse_members :: "DispatchResponse member list" where
  "DispatchResponse_members = [member bool_formatter dsr_success (\<lambda>x. dsr_success_update (\<lambda>_. x)),
     member uint32_formatter dsr_playerId (\<lambda>x. dsr_playerId_update (\<lambda>_. x))]"

definition OrderedPacket_members :: "OrderedPacket member list" where
  "OrderedPacket_members = [member uint32_formatter ord_first (\<lambda>x. ord_first_update (\<lambda>_. x)),
     member uint32_formatter ord_second (\<lambda>x. ord_second_update (\<lambda>_. x)),
     member string_formatter ord_trailing (\<lambda>x. ord_trailing_update (\<lambda>_. x))]"

definition PlainLogin_init :: PlainLogin where
  "PlainLogin_init = \<lparr>pln_username = [], pln_level = 0, pln_remember = False, pln_score = 0\<rparr>"

definition FieldPacket_init :: FieldPacket where
  "FieldPacket_init = \<lparr>fdp_id = 0, fdp_name = [], fdp_stamp = 0\<rparr>"

definition RecordPacket_init :: RecordPacket where
  "RecordPacket_init = \<lparr>rcp_id = 0, rcp_name = []\<rparr>"

definition DispatchLogin_init :: DispatchLogin where
  "DispatchLogin_init = \<lparr>dsl_username = [], dsl_level = 0\<rparr>"

definition DispatchResponse_init :: DispatchResponse where
  "DispatchResponse_init = \<lparr>dsr_success = False, dsr_playerId = 0\<rparr>"

definition OrderedPacket_init :: OrderedPacket where
  "OrderedPacket_init = \<lparr>ord_first = 0, ord_second = 0, ord_trailing = []\<rparr>"

definition PlainLogin_formatter :: "PlainLogin MemoryPackFormatter" where
  "PlainLogin_formatter = MEMORYPACK_DEFINE PlainLogin_init PlainLogin_members"

definition FieldPacket_formatter :: "FieldPacket MemoryPackFormatter" where
  "FieldPacket_formatter = MEMORYPACK_DEFINE FieldPacket_init FieldPacket_members"

definition RecordPacket_formatter :: "RecordPacket MemoryPackFormatter" where
  "RecordPacket_formatter = MEMORYPACK_DEFINE RecordPacket_init RecordPacket_members"

definition DispatchLogin_formatter :: "DispatchLogin MemoryPackFormatter" where
  "DispatchLogin_formatter = MEMORYPACK_DEFINE DispatchLogin_init DispatchLogin_members"

definition DispatchResponse_formatter :: "DispatchResponse MemoryPackFormatter" where
  "DispatchResponse_formatter = MEMORYPACK_DEFINE DispatchResponse_init DispatchResponse_members"

definition OrderedPacket_formatter :: "OrderedPacket MemoryPackFormatter" where
  "OrderedPacket_formatter = MEMORYPACK_DEFINE OrderedPacket_init OrderedPacket_members"

section \<open>Layouts\<close>

definition PlainLogin_layout :: "PlainLogin layout" where
  "PlainLogin_layout = zip PlainLogin_members [string_field pln_username (\<lambda>x. pln_username_update (\<lambda>_. x)),
     word_field pln_level (\<lambda>x. pln_level_update (\<lambda>_. x)),
     bool_field pln_remember (\<lambda>x. pln_remember_update (\<lambda>_. x)),
     word_field pln_score (\<lambda>x. pln_score_update (\<lambda>_. x))]"

definition FieldPacket_layout :: "FieldPacket layout" where
  "FieldPacket_layout = zip FieldPacket_members [word_field fdp_id (\<lambda>x. fdp_id_update (\<lambda>_. x)),
     string_field fdp_name (\<lambda>x. fdp_name_update (\<lambda>_. x)),
     word_field fdp_stamp (\<lambda>x. fdp_stamp_update (\<lambda>_. x))]"

definition RecordPacket_layout :: "RecordPacket layout" where
  "RecordPacket_layout = zip RecordPacket_members [word_field rcp_id (\<lambda>x. rcp_id_update (\<lambda>_. x)),
     string_field rcp_name (\<lambda>x. rcp_name_update (\<lambda>_. x))]"

definition DispatchLogin_layout :: "DispatchLogin layout" where
  "DispatchLogin_layout = zip DispatchLogin_members [string_field dsl_username (\<lambda>x. dsl_username_update (\<lambda>_. x)),
     word_field dsl_level (\<lambda>x. dsl_level_update (\<lambda>_. x))]"

definition DispatchResponse_layout :: "DispatchResponse layout" where
  "DispatchResponse_layout = zip DispatchResponse_members [bool_field dsr_success (\<lambda>x. dsr_success_update (\<lambda>_. x)),
     word_field dsr_playerId (\<lambda>x. dsr_playerId_update (\<lambda>_. x))]"

definition OrderedPacket_layout :: "OrderedPacket layout" where
  "OrderedPacket_layout = zip OrderedPacket_members [word_field ord_first (\<lambda>x. ord_first_update (\<lambda>_. x)),
     word_field ord_second (\<lambda>x. ord_second_update (\<lambda>_. x)),
     string_field ord_trailing (\<lambda>x. ord_trailing_update (\<lambda>_. x))]"

lemmas generated_layouts =
  PlainLogin_layout_def PlainLogin_members_def
  FieldPacket_layout_def FieldPacket_members_def
  RecordPacket_layout_def RecordPacket_members_def
  DispatchLogin_layout_def DispatchLogin_members_def
  DispatchResponse_layout_def DispatchResponse_members_def
  OrderedPacket_layout_def OrderedPacket_members_def

lemma generated_members [simp]:
  "map fst PlainLogin_layout = PlainLogin_members"
  "map fst FieldPacket_layout = FieldPacket_members"
  "map fst RecordPacket_layout = RecordPacket_members"
  "map fst DispatchLogin_layout = DispatchLogin_members"
  "map fst DispatchResponse_layout = DispatchResponse_members"
  "map fst OrderedPacket_layout = OrderedPacket_members"
  by (simp_all add: generated_layouts)

interpretation PlainLogin: struct_codec PlainLogin_init PlainLogin_layout
  by (rule struct_codec.intro) (auto simp: generated_layouts intro: struct_members)

interpretation FieldPacket: struct_codec FieldPacket_init FieldPacket_layout
  by (rule struct_codec.intro) (auto simp: generated_layouts intro: struct_members)

interpretation RecordPacket: struct_codec RecordPacket_init RecordPacket_layout
  by (rule struct_codec.intro) (auto simp: generated_layouts intro: struct_members)

interpretation DispatchLogin: struct_codec DispatchLogin_init DispatchLogin_layout
  by (rule struct_codec.intro) (auto simp: generated_layouts intro: struct_members)

interpretation DispatchResponse: struct_codec DispatchResponse_init DispatchResponse_layout
  by (rule struct_codec.intro) (auto simp: generated_layouts intro: struct_members)

interpretation OrderedPacket: struct_codec OrderedPacket_init OrderedPacket_layout
  by (rule struct_codec.intro) (auto simp: generated_layouts intro: struct_members)

lemmas generated_formatters =
  PlainLogin_formatter_def
  FieldPacket_formatter_def
  RecordPacket_formatter_def
  DispatchLogin_formatter_def
  DispatchResponse_formatter_def
  OrderedPacket_formatter_def

section \<open>The explicit style\<close>

text \<open>\<open>s.value_or("")\<close>\<close>

definition value_or_empty :: "bytes option \<Rightarrow> bytes" where
  "value_or_empty s = (case s of Some x \<Rightarrow> x | None \<Rightarrow> [])"

definition PlainLogin_Serialize :: "build \<Rightarrow> PlainLogin option \<Rightarrow> unit wop" where
  "PlainLogin_Serialize B v = (case v of
     None \<Rightarrow> WriteNullObjectHeader B
   | Some v \<Rightarrow>
       seq (WriteObjectHeader B 4)
      (seq (WriteString B (pln_username v))
      (seq (WriteInt32 B (pln_level v))
      (seq (WriteBool B (pln_remember v))
           (WriteDouble B (pln_score v))))))"

definition PlainLogin_Deserialize :: "build \<Rightarrow> PlainLogin \<Rightarrow> PlainLogin rop" where
  "PlainLogin_Deserialize B v = bind (ReadObjectHeader B) (\<lambda>header.
     if isNull header then return v
     else
       bind (if count header \<ge> 1 then bind (ReadString B) (\<lambda>s. return (v\<lparr>pln_username := value_or_empty s\<rparr>)) else return v) (\<lambda>v.
       bind (if count header \<ge> 2 then bind (ReadInt32 B) (\<lambda>x. return (v\<lparr>pln_level := x\<rparr>)) else return v) (\<lambda>v.
       bind (if count header \<ge> 3 then bind (ReadBool B) (\<lambda>x. return (v\<lparr>pln_remember := x\<rparr>)) else return v) (\<lambda>v.
       if count header \<ge> 4 then bind (ReadDouble B) (\<lambda>x. return (v\<lparr>pln_score := x\<rparr>)) else return v))))"

definition PlainLogin_explicit :: "PlainLogin MemoryPackFormatter" where
  "PlainLogin_explicit = handwritten PlainLogin_init PlainLogin_Serialize PlainLogin_Deserialize"

definition FieldPacket_Serialize :: "build \<Rightarrow> FieldPacket option \<Rightarrow> unit wop" where
  "FieldPacket_Serialize B v = (case v of
     None \<Rightarrow> WriteNullObjectHeader B
   | Some v \<Rightarrow>
       seq (WriteObjectHeader B 3)
      (seq (WriteInt32 B (fdp_id v))
      (seq (WriteString B (fdp_name v))
           (WriteInt64 B (fdp_stamp v)))))"

definition FieldPacket_Deserialize :: "build \<Rightarrow> FieldPacket \<Rightarrow> FieldPacket rop" where
  "FieldPacket_Deserialize B v = bind (ReadObjectHeader B) (\<lambda>header.
     if isNull header then return v
     else
       bind (if count header \<ge> 1 then bind (ReadInt32 B) (\<lambda>x. return (v\<lparr>fdp_id := x\<rparr>)) else return v) (\<lambda>v.
       bind (if count header \<ge> 2 then bind (ReadString B) (\<lambda>s. return (v\<lparr>fdp_name := value_or_empty s\<rparr>)) else return v) (\<lambda>v.
       if count header \<ge> 3 then bind (ReadInt64 B) (\<lambda>x. return (v\<lparr>fdp_stamp := x\<rparr>)) else return v)))"

definition FieldPacket_explicit :: "FieldPacket MemoryPackFormatter" where
  "FieldPacket_explicit = handwritten FieldPacket_init FieldPacket_Serialize FieldPacket_Deserialize"

definition RecordPacket_Serialize :: "build \<Rightarrow> RecordPacket option \<Rightarrow> unit wop" where
  "RecordPacket_Serialize B v = (case v of
     None \<Rightarrow> WriteNullObjectHeader B
   | Some v \<Rightarrow>
       seq (WriteObjectHeader B 2)
      (seq (WriteInt32 B (rcp_id v))
           (WriteString B (rcp_name v))))"

definition RecordPacket_Deserialize :: "build \<Rightarrow> RecordPacket \<Rightarrow> RecordPacket rop" where
  "RecordPacket_Deserialize B v = bind (ReadObjectHeader B) (\<lambda>header.
     if isNull header then return v
     else
       bind (if count header \<ge> 1 then bind (ReadInt32 B) (\<lambda>x. return (v\<lparr>rcp_id := x\<rparr>)) else return v) (\<lambda>v.
       if count header \<ge> 2 then bind (ReadString B) (\<lambda>s. return (v\<lparr>rcp_name := value_or_empty s\<rparr>)) else return v))"

definition RecordPacket_explicit :: "RecordPacket MemoryPackFormatter" where
  "RecordPacket_explicit = handwritten RecordPacket_init RecordPacket_Serialize RecordPacket_Deserialize"

definition DispatchLogin_Serialize :: "build \<Rightarrow> DispatchLogin option \<Rightarrow> unit wop" where
  "DispatchLogin_Serialize B v = (case v of
     None \<Rightarrow> WriteNullObjectHeader B
   | Some v \<Rightarrow>
       seq (WriteObjectHeader B 2)
      (seq (WriteString B (dsl_username v))
           (WriteInt32 B (dsl_level v))))"

definition DispatchLogin_Deserialize :: "build \<Rightarrow> DispatchLogin \<Rightarrow> DispatchLogin rop" where
  "DispatchLogin_Deserialize B v = bind (ReadObjectHeader B) (\<lambda>header.
     if isNull header then return v
     else
       bind (if count header \<ge> 1 then bind (ReadString B) (\<lambda>s. return (v\<lparr>dsl_username := value_or_empty s\<rparr>)) else return v) (\<lambda>v.
       if count header \<ge> 2 then bind (ReadInt32 B) (\<lambda>x. return (v\<lparr>dsl_level := x\<rparr>)) else return v))"

definition DispatchLogin_explicit :: "DispatchLogin MemoryPackFormatter" where
  "DispatchLogin_explicit = handwritten DispatchLogin_init DispatchLogin_Serialize DispatchLogin_Deserialize"

definition DispatchResponse_Serialize :: "build \<Rightarrow> DispatchResponse option \<Rightarrow> unit wop" where
  "DispatchResponse_Serialize B v = (case v of
     None \<Rightarrow> WriteNullObjectHeader B
   | Some v \<Rightarrow>
       seq (WriteObjectHeader B 2)
      (seq (WriteBool B (dsr_success v))
           (WriteInt32 B (dsr_playerId v))))"

definition DispatchResponse_Deserialize :: "build \<Rightarrow> DispatchResponse \<Rightarrow> DispatchResponse rop" where
  "DispatchResponse_Deserialize B v = bind (ReadObjectHeader B) (\<lambda>header.
     if isNull header then return v
     else
       bind (if count header \<ge> 1 then bind (ReadBool B) (\<lambda>x. return (v\<lparr>dsr_success := x\<rparr>)) else return v) (\<lambda>v.
       if count header \<ge> 2 then bind (ReadInt32 B) (\<lambda>x. return (v\<lparr>dsr_playerId := x\<rparr>)) else return v))"

definition DispatchResponse_explicit :: "DispatchResponse MemoryPackFormatter" where
  "DispatchResponse_explicit = handwritten DispatchResponse_init DispatchResponse_Serialize DispatchResponse_Deserialize"

lemmas explicit_defs =
  PlainLogin_explicit_def PlainLogin_Serialize_def PlainLogin_Deserialize_def
  FieldPacket_explicit_def FieldPacket_Serialize_def FieldPacket_Deserialize_def
  RecordPacket_explicit_def RecordPacket_Serialize_def RecordPacket_Deserialize_def
  DispatchLogin_explicit_def DispatchLogin_Serialize_def DispatchLogin_Deserialize_def
  DispatchResponse_explicit_def DispatchResponse_Serialize_def DispatchResponse_Deserialize_def

section \<open>Operations that ignore the depth\<close>

definition depth_free :: "'a rop \<Rightarrow> bool" where
  "depth_free m \<longleftrightarrow> (\<forall>r d. m (r\<lparr>r_depth := d\<rparr>) = (case m r of (res, r') \<Rightarrow> (res, r'\<lparr>r_depth := d\<rparr>)))"

named_theorems depth_intros "operations that ignore the nesting depth"

lemma depth_freeD: "depth_free m \<Longrightarrow> m r = (res, r') \<Longrightarrow> m (r\<lparr>r_depth := d\<rparr>) = (res, r'\<lparr>r_depth := d\<rparr>)"
  by (simp add: depth_free_def)

lemma depth_free_keeps: "depth_free m \<Longrightarrow> m r = (res, r') \<Longrightarrow> r_depth r' = r_depth r"
  using depth_freeD [of m r res r' "r_depth r"] by (cases r; cases r') simp

lemma depth_free_return [depth_intros]: "depth_free (return x)"
  by (simp add: depth_free_def return_def)

lemma depth_free_bind [depth_intros]: "depth_free m \<Longrightarrow> (\<And>x. depth_free (f x)) \<Longrightarrow> depth_free (bind m f)"
  unfolding depth_free_def bind_def by (auto split: prod.splits outcome.splits)

lemma depth_free_seq [depth_intros]: "depth_free m \<Longrightarrow> depth_free k \<Longrightarrow> depth_free (seq m k)"
  unfolding seq_def by (intro depth_intros)

lemma depth_free_if [depth_intros]: "depth_free m \<Longrightarrow> depth_free k \<Longrightarrow> depth_free (if c then m else k)"
  by simp

lemma depth_free_option [depth_intros]:
  "depth_free m \<Longrightarrow> (\<And>x. depth_free (k x)) \<Longrightarrow> depth_free (case v of None \<Rightarrow> m | Some x \<Rightarrow> k x)"
  by (cases v) simp_all

lemma depth_free_gets [depth_intros]: "(\<And>r d. f (r\<lparr>r_depth := d\<rparr>) = f r) \<Longrightarrow> depth_free (gets f)"
  by (simp add: depth_free_def gets_def)

lemma depth_free_Fail [depth_intros]: "depth_free (Fail B code what)"
  by (simp add: depth_free_def Fail_def Let_def)

lemma depth_free_EnsureBytes [depth_intros]: "depth_free (EnsureBytes B n)"
  unfolding depth_free_def EnsureBytes_def
  by (auto simp: Fail_def seq_def bind_def return_def Let_def)

lemma depth_free_take_bytes [depth_intros]: "depth_free (take_bytes n)"
  by (simp add: depth_free_def take_bytes_def)

lemma depth_free_ReadByte [depth_intros]: "depth_free (ReadByte B)"
  unfolding ReadByte_def by (intro depth_intros)

lemma depth_free_ReadRaw [depth_intros]: "depth_free (ReadRaw B)"
  unfolding ReadRaw_def by (intro depth_intros)

lemma depth_free_ReadBool [depth_intros]: "depth_free (ReadBool B)"
  unfolding ReadBool_def by (intro depth_intros)

lemma depth_free_CheckStringLength [depth_intros]: "depth_free (CheckStringLength B n k)"
  unfolding CheckStringLength_def case_prod_beta
  by (intro depth_intros) (simp_all add: Remaining_def)

lemma depth_free_rewind [depth_intros]: "depth_free (modify (\<lambda>r. r\<lparr>r_pos := f (r_pos r)\<rparr>))"
  by (simp add: depth_free_def modify_def)

lemma depth_free_utf16_loop [depth_intros]: "depth_free (utf16_loop B n out)"
proof (induction n arbitrary: out rule: less_induct)
  case (less n)
  show ?case
  proof (cases n)
    case (Suc k)
    have "depth_free (utf16_loop B k o1)" "0 < k \<Longrightarrow> depth_free (utf16_loop B (k - 1) o1)" for o1
      using less [of k] less [of "k - 1"] Suc by simp_all
    then show ?thesis unfolding Suc utf16_loop.simps by (cases "0 < k") (simp, intro depth_intros, auto intro!: depth_intros)+
  qed (simp only: utf16_loop.simps depth_free_return)
qed

lemma depth_free_ReadString [depth_intros]: "depth_free (ReadString B)"
  unfolding ReadString_def ReadUtf16String_def by (intro depth_intros) (simp add: Failed_def)

lemma depth_free_ReadObjectHeader [depth_intros]: "depth_free (ReadObjectHeader B)"
  unfolding ReadObjectHeader_def by (intro depth_intros)

lemma depth_free_read_members:
  "(\<And>m v. m \<in> set ms \<Longrightarrow> depth_free (read_member m B v)) \<Longrightarrow> depth_free (read_members B cnt i ms v)"
  by (induction ms arbitrary: i v) (auto intro!: depth_intros)

section \<open>The two styles agree\<close>

text \<open>The common shape of the explicit readers.\<close>

definition flat_Deserialize :: "build \<Rightarrow> 's member list \<Rightarrow> 's \<Rightarrow> 's rop" where
  "flat_Deserialize B ms v = bind (ReadObjectHeader B) (\<lambda>header.
     if isNull header then return v else read_members B (unat (count header)) 0 ms v)"

lemma same_reader:
  assumes ms: "\<And>m v. m \<in> set ms \<Longrightarrow> depth_free (read_member m B v)"
    and r: "r_depth r = 0" "maxDepth (r_options r) \<noteq> 0" and opts: "reader_inv r"
  shows "\<exists>res r1 d. flat_Deserialize B ms init r = (res, r1) \<and> IMemoryPackable_Deserialize B init ms init r = (res, r1\<lparr>r_depth := d\<rparr>)"
proof (cases "ReadObjectHeader B r")
  case (Pair out r1)
  have depth: "r_depth r1 = 0" using depth_free_keeps [OF depth_free_ReadObjectHeader Pair] r(1) by simp
  have options: "r_options r1 = r_options r"
    using reader_action.step [OF reader_action_ReadObjectHeader opts, of B] by (simp add: Pair reader_step_def same_input_def split: outcome.splits)
  show ?thesis
  proof (cases out)
    case (Ret header)
    show ?thesis
    proof (cases "isNull header")
      case True
      then show ?thesis using Pair Ret
        by (auto simp: flat_Deserialize_def IMemoryPackable_Deserialize_def bind_def return_def intro!: exI [of _ "r_depth r1"])
    next
      case False
      obtain res r2 where r2: "read_members B (unat (count header)) 0 ms init r1 = (res, r2)" by fastforce
      note free = depth_free_read_members [OF ms, of ms]
      from depth_freeD [OF free r2] depth_free_keeps [OF free r2] depth
      have r3: "read_members B (unat (count header)) 0 ms init (r1\<lparr>r_depth := 1\<rparr>) = (res, r2\<lparr>r_depth := 1\<rparr>)" "r_depth r2 = 0" by auto
      have "EnterObject B r1 = (Ret True, r1\<lparr>r_depth := 1\<rparr>)"
        using depth options r(2) by (simp add: EnterObject_def word_neq_0_conv not_less word_less_1)
      with r2 r3 False Pair Ret show ?thesis
        by (cases res) (auto simp: flat_Deserialize_def IMemoryPackable_Deserialize_def bind_def seq_def return_def LeaveObject_def modify_def)
    qed
  qed (use Pair in \<open>auto simp: flat_Deserialize_def IMemoryPackable_Deserialize_def bind_def intro!: exI [of _ "r_depth r1"]\<close>)
qed


lemma depth_free_RequireEnd [depth_intros]: "depth_free (RequireEnd B)"
  unfolding RequireEnd_def by (intro depth_intros) (simp add: IsEnd_def)

text \<open>Two formatters that cannot be told apart by the entry points on an input \<open>data\<close>.\<close>

definition same_results :: "'s MemoryPackFormatter \<Rightarrow> 's MemoryPackFormatter \<Rightarrow> build \<Rightarrow> bytes \<Rightarrow> bool" where
  "same_results X Y B data \<longleftrightarrow>
     Deserialize B X data = Deserialize B Y data \<and> DeserializeExact B X data = DeserializeExact B Y data \<and>
     TryDeserialize B X data = TryDeserialize B Y data"

lemma same_resultsI:
  assumes "value_init X = value_init Y"
    and "Read B X (value_init Y) (make_reader data) = (res, r1)"
    and "Read B Y (value_init Y) (make_reader data) = (res, r1\<lparr>r_depth := d\<rparr>)"
  shows "same_results X Y B data"
proof -
  have end_same: "fst (bind (RequireEnd B) (\<lambda>_. return v) (r1\<lparr>r_depth := d\<rparr>)) = fst (bind (RequireEnd B) (\<lambda>_. return v) r1)" for v
    using depth_freeD [of "bind (RequireEnd B) (\<lambda>_. return v)" r1 _ _ d]
    by (metis depth_free_RequireEnd depth_free_bind depth_free_return fst_conv prod.exhaust)
  have exact: "fst (bind (Read B Z (value_init Z)) (\<lambda>value. bind (RequireEnd B) (\<lambda>_. return value)) (make_reader data)) =
      (case Read B Z (value_init Z) (make_reader data) of
         (Ret v, r) \<Rightarrow> fst (bind (RequireEnd B) (\<lambda>_. return v) r) | (Throw e, r) \<Rightarrow> Throw e | (UB, r) \<Rightarrow> UB)" for Z :: "'a MemoryPackFormatter"
    unfolding bind_def [of "Read B Z (value_init Z)"] by (simp split: prod.splits outcome.splits)
  from assms show ?thesis
    by (cases res) (simp_all add: same_results_def Deserialize_def DeserializeExact_def TryDeserialize_def exact end_same Failed_def)
qed

text \<open>Where the explicit reader of a struct has the common shape, its two styles give the same results.\<close>

lemma same_styles:
  assumes "deser B (value_init (MEMORYPACK_DEFINE init ms)) = flat_Deserialize B ms init"
    and "\<And>m v. m \<in> set ms \<Longrightarrow> depth_free (read_member m B v)" and "length data < 2 ^ 63"
  shows "same_results (handwritten init ser deser) (MEMORYPACK_DEFINE init ms) B data"
proof -
  have "\<exists>res r1 d. flat_Deserialize B ms init (make_reader data) = (res, r1) \<and>
      IMemoryPackable_Deserialize B init ms init (make_reader data) = (res, r1\<lparr>r_depth := d\<rparr>)"
    using assms(2,3) by (intro same_reader) (simp_all add: make_reader_def make_reader_with_def [of _ default_options] default_options_def
        flip: make_reader_with_def)
  with assms(1) show ?thesis
    by (auto intro!: same_resultsI simp: handwritten_def MEMORYPACK_DEFINE_def Read_def)
qed

lemma Read_string: "bind (Read B string_formatter v) f = bind (ReadString B) (\<lambda>s. f (value_or_empty s))"
  by (auto simp: Read_def string_formatter_def ReadString_into_def value_or_empty_def bind_def return_def fun_eq_iff
      split: prod.splits outcome.splits option.splits)

lemma Read_scalars:
  "Read B bool_formatter b = ReadBool B" "Read B uint32_formatter x = ReadInt32 B"
  "Read B uint64_formatter y = ReadInt64 B" "Read B double_formatter y = ReadDouble B"
  by (simp_all add: Read_def bool_formatter_def uint32_formatter_def uint64_formatter_def double_formatter_def
      ReadUInt32_def ReadInt32_def ReadUInt64_def ReadInt64_def)

lemma Write_scalars:
  "Write B string_formatter s = WriteString B s" "Write B bool_formatter b = WriteBool B b"
  "Write B uint32_formatter x = WriteInt32 B x" "Write B uint64_formatter y = WriteInt64 B y"
  "Write B double_formatter y = WriteDouble B y"
  by (simp_all add: Write_def string_formatter_def bool_formatter_def uint32_formatter_def uint64_formatter_def double_formatter_def
      WriteUInt32_def WriteInt32_def WriteUInt64_def WriteInt64_def)

lemma depth_free_scalars [depth_intros]:
  "depth_free (Read B bool_formatter b)" "depth_free (Read B uint32_formatter x)"
  "depth_free (Read B uint64_formatter y)" "depth_free (Read B double_formatter y)"
  by (simp_all add: Read_scalars ReadInt32_def ReadInt64_def ReadDouble_def depth_intros)

lemma depth_free_member [depth_intros]:
  "depth_free (Read B T (get v)) \<Longrightarrow> depth_free (read_member (member T get put) B v)"
  by (simp add: member_def) (intro depth_intros)

lemma depth_free_string_member [depth_intros]: "depth_free (read_member (member string_formatter get put) B v)"
  by (simp add: member_def Read_string) (intro depth_intros)

lemma count_tests:
  "0 < unat (c :: byte) \<longleftrightarrow> 1 \<le> c" "Suc 0 < unat c \<longleftrightarrow> 2 \<le> c" "Suc (Suc 0) < unat c \<longleftrightarrow> 3 \<le> c"
  "Suc (Suc (Suc 0)) < unat c \<longleftrightarrow> 4 \<le> c"
  by (auto simp: word_le_nat_alt)

lemma read_members_abs:
  "read_members B cnt i [] = return"
  "read_members B cnt i (m # ms) = (\<lambda>v. bind (if cnt > i then read_member m B v else return v) (read_members B cnt (Suc i) ms))"
  by (simp_all add: fun_eq_iff)

lemma Write_styles:
  "Write B (handwritten init ser deser) v = ser B (Some v)"
  "Write B (MEMORYPACK_DEFINE init ms) v = IMemoryPackable_Serialize B ms (Some v)"
  by (simp_all add: Write_def handwritten_def MEMORYPACK_DEFINE_def)

lemmas generated_members_def =
  PlainLogin_members_def
  FieldPacket_members_def
  RecordPacket_members_def
  DispatchLogin_members_def
  DispatchResponse_members_def

lemma explicit_readers:
  "PlainLogin_Deserialize B = flat_Deserialize B PlainLogin_members"
  "FieldPacket_Deserialize B = flat_Deserialize B FieldPacket_members"
  "RecordPacket_Deserialize B = flat_Deserialize B RecordPacket_members"
  "DispatchLogin_Deserialize B = flat_Deserialize B DispatchLogin_members"
  "DispatchResponse_Deserialize B = flat_Deserialize B DispatchResponse_members"
  by (rule ext, simp only: explicit_defs flat_Deserialize_def generated_members_def read_members_abs member_def member.simps
      Read_string Read_scalars count_tests bind_return)+

lemma members_depth_free:
  "m0 \<in> set PlainLogin_members \<Longrightarrow> depth_free (read_member m0 B v0)"
  "m1 \<in> set FieldPacket_members \<Longrightarrow> depth_free (read_member m1 B v1)"
  "m2 \<in> set RecordPacket_members \<Longrightarrow> depth_free (read_member m2 B v2)"
  "m3 \<in> set DispatchLogin_members \<Longrightarrow> depth_free (read_member m3 B v3)"
  "m4 \<in> set DispatchResponse_members \<Longrightarrow> depth_free (read_member m4 B v4)"
  by (auto simp: generated_members_def intro!: depth_intros)

lemma styles_read_alike:
  assumes "length data < 2 ^ 63"
  shows "same_results PlainLogin_explicit PlainLogin_formatter B data"
    "same_results FieldPacket_explicit FieldPacket_formatter B data"
    "same_results RecordPacket_explicit RecordPacket_formatter B data"
    "same_results DispatchLogin_explicit DispatchLogin_formatter B data"
    "same_results DispatchResponse_explicit DispatchResponse_formatter B data"
  unfolding PlainLogin_explicit_def FieldPacket_explicit_def RecordPacket_explicit_def DispatchLogin_explicit_def DispatchResponse_explicit_def generated_formatters
  by (intro same_styles assms; simp add: explicit_readers MEMORYPACK_DEFINE_def members_depth_free)+

lemma seq_unit: "seq m (return ()) = (m :: ('s, unit) op)"
  by (simp add: seq_def)

lemma styles_write_alike:
  "Serialize B PlainLogin_explicit x0 = Serialize B PlainLogin_formatter x0"
  "Serialize B FieldPacket_explicit x1 = Serialize B FieldPacket_formatter x1"
  "Serialize B RecordPacket_explicit x2 = Serialize B RecordPacket_formatter x2"
  "Serialize B DispatchLogin_explicit x3 = Serialize B DispatchLogin_formatter x3"
  "Serialize B DispatchResponse_explicit x4 = Serialize B DispatchResponse_formatter x4"
  by (simp_all add: Serialize_def seq_unit Write_styles explicit_defs generated_formatters
      IMemoryPackable_Serialize_def generated_members_def member_def Write_scalars)

text \<open>A null object read into an existing one: the explicit reader returns before it touches the members, the macro
  assigns a fresh object.\<close>

lemma null_into:
  "Deserialize_into B (handwritten init ser (\<lambda>B. flat_Deserialize B ms)) [255] v = Ret v"
  "Deserialize_into B (MEMORYPACK_DEFINE init ms) [255] v = Ret init"
proof -
  have "ReadObjectHeader B (make_reader [255]) = (Ret \<lparr>count = 0, isNull = True\<rparr>, (make_reader [255])\<lparr>r_pos := 1\<rparr>)"
    by (simp add: ReadObjectHeader_def ReadByte_def EnsureBytes_def Remaining_def take_bytes_def make_reader_def
        make_reader_with_def bind_def return_def NULL_OBJECT_def Failed_def)
  then show "Deserialize_into B (handwritten init ser (\<lambda>B. flat_Deserialize B ms)) [255] v = Ret v"
    "Deserialize_into B (MEMORYPACK_DEFINE init ms) [255] v = Ret init"
    by (simp_all add: Deserialize_into_def Read_def handwritten_def MEMORYPACK_DEFINE_def flat_Deserialize_def IMemoryPackable_Deserialize_def
        bind_def return_def)
qed

lemma explicit_keeps_value:
  "Deserialize_into B PlainLogin_explicit [255] v = Ret v"
  "Deserialize_into B PlainLogin_formatter [255] v = Ret PlainLogin_init"
  using null_into(1) [of B PlainLogin_init PlainLogin_Serialize PlainLogin_members v] null_into(2) [of B PlainLogin_init PlainLogin_members v]
  by (simp_all add: PlainLogin_explicit_def PlainLogin_formatter_def explicit_readers [abs_def])

section \<open>The generated dispatch table\<close>

datatype dispatched = LoginRequestBody DispatchLogin | LoginResponseBody DispatchResponse

definition Generated_DispatchPacket :: "build \<Rightarrow> u16 \<Rightarrow> bytes \<Rightarrow> (dispatched \<Rightarrow> ('s, unit) op) \<Rightarrow> ('s, bool) op" where
  "Generated_DispatchPacket B pid body handler =
     (if pid = 1 then dispatch_as B DispatchLogin_formatter (\<lambda>v. handler (LoginRequestBody v)) body
      else if pid = 2 then dispatch_as B DispatchResponse_formatter (\<lambda>v. handler (LoginResponseBody v)) body
      else return False)"

lemma Generated_DispatchPacket_delivers:
  assumes "string_ok (dsl_username q)" "string_fits (dsl_username q) default_options"
    "length (dsl_username q) \<le> 2 ^ 62"
  shows "Generated_DispatchPacket B 1 (struct_enc DispatchLogin_layout q) handler = seq (handler (LoginRequestBody q)) (return True)"
    and "Generated_DispatchPacket B 2 (struct_enc DispatchResponse_layout a) handler = seq (handler (LoginResponseBody a)) (return True)"
    and "pid \<notin> {1, 2} \<Longrightarrow> Generated_DispatchPacket B pid body handler = return False"
  using assms DispatchLogin.dispatch_as_enc [of q B "\<lambda>v. handler (LoginRequestBody v)"]
    DispatchResponse.dispatch_as_enc [of a B "\<lambda>v. handler (LoginResponseBody v)"]
  by (simp_all add: Generated_DispatchPacket_def generated_formatters struct_fits_def struct_enc_def generated_layouts
      default_options_def enc_string_def enc_length_def)

section \<open>The schema hash\<close>

text \<open>\<^verbatim>\<open>SchemaHash.cs\<close>. The strings of C\# are given by their UTF-8 bytes.\<close>

record PackableType =
  pkt_Name :: bytes
  pkt_CsTypes :: "bytes list"

definition BuildCanonicalString :: "PackableType list \<Rightarrow> bytes" where
  "BuildCanonicalString types = concat (map (\<lambda>t.
     pkt_Name t @ bytes_of_string ''('' @
     concat (map (\<lambda>(i, ty). bytes_of_string (to_string i) @ bytes_of_string '':'' @ ty @ bytes_of_string '';'')
       (enumerate 0 (pkt_CsTypes t))) @
     bytes_of_string '')'' @ [10]) types)"

definition FnvOffsetBasis :: u64 where "FnvOffsetBasis = 0xcbf29ce484222325"
definition FnvPrime :: u64 where "FnvPrime = 0x100000001b3"

definition fnv_step :: "byte \<Rightarrow> u64 \<Rightarrow> u64" where
  "fnv_step b hash = (hash XOR ucast b) * FnvPrime"

definition Fnv1a64 :: "bytes \<Rightarrow> u64" where
  "Fnv1a64 bs = fold fnv_step bs FnvOffsetBasis"

definition Compute :: "PackableType list \<Rightarrow> u64" where
  "Compute types = Fnv1a64 (BuildCanonicalString types)"

text \<open>The schema of \<^verbatim>\<open>Dispatch.hpp\<close> and the constant generated for it.\<close>

definition Dispatch_types :: "PackableType list" where
  "Dispatch_types =
     [\<lparr>pkt_Name = bytes_of_string ''LoginRequest'', pkt_CsTypes = [bytes_of_string ''string?'', bytes_of_string ''int'']\<rparr>,
      \<lparr>pkt_Name = bytes_of_string ''LoginResponse'', pkt_CsTypes = [bytes_of_string ''bool'', bytes_of_string ''int'']\<rparr>]"

definition PACKET_SCHEMA_HASH :: u64 where "PACKET_SCHEMA_HASH = 0xA7CEC854C3062379"

lemma Dispatch_canonical: "BuildCanonicalString Dispatch_types =
    bytes_of_string ''LoginRequest(0:string?;1:int;)'' @ [10] @ bytes_of_string ''LoginResponse(0:bool;1:int;)'' @ [10]"
  by (simp add: Dispatch_types_def BuildCanonicalString_def bytes_of_string_def to_string.simps decimal_digit_def)

lemma Dispatch_canonical_bytes: "BuildCanonicalString Dispatch_types =
    [76, 111, 103, 105, 110, 82, 101, 113, 117, 101, 115, 116, 40, 48, 58, 115, 116, 114, 105, 110, 103, 63,
     59, 49, 58, 105, 110, 116, 59, 41, 10, 76, 111, 103, 105, 110, 82, 101, 115, 112, 111, 110, 115, 101, 40,
     48, 58, 98, 111, 111, 108, 59, 49, 58, 105, 110, 116, 59, 41, 10]"
  by (simp add: Dispatch_canonical bytes_of_string_def)

lemma schema_hash_constant: "Compute Dispatch_types = PACKET_SCHEMA_HASH"
  unfolding Compute_def Dispatch_canonical_bytes by code_simp

text \<open>Both parts of a step are injective: the prime is odd, so multiplying by it can be undone.\<close>

lemma FnvPrime_inverse: "FnvPrime * 0xce965057aff6957b = 1"
  by (simp add: FnvPrime_def)

lemma FnvPrime_cancel: "a * FnvPrime = b * FnvPrime \<longleftrightarrow> a = b"
proof
  assume "a * FnvPrime = b * FnvPrime"
  then have "a * FnvPrime * 0xce965057aff6957b = b * FnvPrime * 0xce965057aff6957b" by simp
  then show "a = b" unfolding mult.assoc FnvPrime_inverse by simp
qed simp

lemma xor_cancel:
  "(a :: 'a::len word) XOR c = b XOR c \<longleftrightarrow> a = b" "c XOR a = c XOR b \<longleftrightarrow> a = b"
  by (metis xor.assoc xor.right_neutral xor_self_eq) (metis xor.assoc xor.left_neutral xor_self_eq)

lemma byte_cancel: "(ucast b :: u64) = ucast c \<longleftrightarrow> b = (c :: byte)"
proof
  have wide: "unat (ucast x :: u64) = unat x" for x :: byte
    using unsigned_less [of x, where ?'a = nat] by (intro unat_ucast_le) simp
  assume "(ucast b :: u64) = ucast c"
  from arg_cong [OF this, of unat] show "b = c" by (simp add: wide word_unat_eq_iff)
qed simp

lemma fnv_step_inject:
  "fnv_step b g = fnv_step b h \<longleftrightarrow> g = h" "fnv_step b h = fnv_step c h \<longleftrightarrow> b = c"
  by (simp_all add: fnv_step_def FnvPrime_cancel xor_cancel byte_cancel)

lemma fnv_fold_inject: "fold fnv_step bs g = fold fnv_step bs h \<longleftrightarrow> g = h"
  by (induction bs arbitrary: g h) (simp_all add: fnv_step_inject)

lemma Fnv1a64_one_byte: "Fnv1a64 (xs @ b # ys) = Fnv1a64 (xs @ c # ys) \<longleftrightarrow> b = c"
  by (simp add: Fnv1a64_def fnv_fold_inject fnv_step_inject)

end
