(* ===== verification/GeneratedTypes.thy ===== *)
theory GeneratedTypes
  imports Generated Nullables Unmanaged Basics DotnetDemo Versions
begin

text \<open>
  The expected outputs of the code generator whose members are not all flat: nullable strings
  (\<^verbatim>\<open>PlainNullableStrings.hpp\<close>), collections and .NET types (\<^verbatim>\<open>Collections.hpp\<close>), enums (\<^verbatim>\<open>Enums.hpp\<close>), nested objects
  (\<^verbatim>\<open>Nested.hpp\<close>, \<^verbatim>\<open>NestedNamespaced.hpp\<close>), unmanaged structs (\<^verbatim>\<open>Unmanaged.hpp\<close>), \<^verbatim>\<open>std::array\<close> members
  (\<^verbatim>\<open>StdArray.hpp\<close>) and a version-tolerant object (\<^verbatim>\<open>VersionTolerant.hpp\<close>). Each struct meets the codec contract, so every
  value in range is written and read again. What is not sent as it is in memory shows in the range: an unmanaged
  struct has zero padding, and a set or a map has its keys in the signed order of the standard containers.
\<close>

section \<open>Fields\<close>

text \<open>\<^verbatim>\<open>std::map<int32_t, V>\<close>: ordered by the signed key; \<^verbatim>\<open>emplace\<close> keeps the value of a key already there.\<close>

fun signed_emplace :: "u32 \<times> 'v \<Rightarrow> (u32 \<times> 'v) list \<Rightarrow> (u32 \<times> 'v) list" where
  "signed_emplace kv [] = [kv]"
| "signed_emplace kv (lw # m) =
     (if sint (fst kv) < sint (fst lw) then kv # lw # m
      else if sint (fst lw) < sint (fst kv) then lw # signed_emplace kv m else lw # m)"

definition signed_map :: "((u32 \<times> 'v) list, u32 \<times> 'v) container" where
  "signed_map = \<lparr>c_empty = [], c_items = (\<lambda>c. c), c_insert = signed_emplace\<rparr>"

abbreviation signed_keys :: "(u32 \<times> 'v) list \<Rightarrow> bool" where
  "signed_keys \<equiv> sorted_wrt (\<lambda>a b. sint (fst a) < sint (fst b))"

lemma signed_emplace_last: "\<forall>y \<in> set ys. sint (fst y) < sint (fst kv) \<Longrightarrow> signed_emplace kv ys = ys @ [kv]"
  by (induction ys) auto

lemma foldl_signed_emplace:
  "signed_keys (acc @ xs) \<Longrightarrow> foldl (\<lambda>c x. signed_emplace x c) acc xs = acc @ xs"
proof (induction xs arbitrary: acc)
  case (Cons x xs)
  then have "signed_emplace x acc = acc @ [x]" by (intro signed_emplace_last) (auto simp: sorted_wrt_append)
  with Cons.IH [of "acc @ [x]"] Cons.prems show ?case by simp
qed simp

interpretation signed_map: rebuildable signed_map signed_keys
  by unfold_locales (simp add: signed_map_def foldl_signed_emplace)

text \<open>A scrubbed struct in memory whose padding is zero, as every received one has it.\<close>

definition scrubbed_ok :: "size_t \<Rightarrow> (size_t \<times> size_t) list \<Rightarrow> bytes \<Rightarrow> bool" where
  "scrubbed_ok sz parts v \<longleftrightarrow> length v = sz \<and> scrub sz parts v = v"

definition scrubbed_field :: "size_t \<Rightarrow> (size_t \<times> size_t) list \<Rightarrow> ('s \<Rightarrow> bytes) \<Rightarrow> (bytes \<Rightarrow> 's \<Rightarrow> 's) \<Rightarrow> 's member_spec" where
  "scrubbed_field sz parts = field (scrub sz parts) (scrubbed_ok sz parts) (\<lambda>_ _ _. True)"

definition PaddedStruct_parts :: "(size_t \<times> size_t) list" where
  "PaddedStruct_parts = [(0, 1), (4, 4)]"

definition PackedStruct_parts :: "(size_t \<times> size_t) list" where
  "PackedStruct_parts = [(0, 1), (1, 4)]"

lemma PackedStruct_exact: "UNMANAGED_EXACT_assert 5 PackedStruct_parts"
  by (simp add: UNMANAGED_EXACT_assert_def PackedStruct_parts_def)

lemma scrubbed_codec:
  assumes "0 < sz" "parts_inside sz parts"
  shows "codec (MEMORYPACK_UNMANAGED_SCRUBBED sz parts) (scrub sz parts) (scrubbed_ok sz parts) (\<lambda>_ _ _. True)"
proof -
  have "codec (MEMORYPACK_UNMANAGED sz) (\<lambda>v. v) (\<lambda>v. length v = sz) (\<lambda>_ _ _. True)"
    by (rule unmanaged_codec) (rule assms(1))
  then show ?thesis using assms emits_AppendBytes
    by (auto simp: codec_def Read_def Write_def MEMORYPACK_UNMANAGED_SCRUBBED_def MEMORYPACK_UNMANAGED_def scrubbed_ok_def
        WriteBytes_def MinEncodedSize_def)
qed

definition raw_opt_ok :: "size_t \<Rightarrow> bytes option \<Rightarrow> bool" where
  "raw_opt_ok sz v \<longleftrightarrow> (case v of None \<Rightarrow> True | Some x \<Rightarrow> length x = sz)"

lemma optional_unmanaged_codec:
  assumes "0 < align"
  shows "codec (optional_unmanaged align sz) (raw_nullable_enc align sz) (raw_opt_ok sz) (\<lambda>_ _ _. True)"
  unfolding optional_unmanaged_def
proof (rule class_codecI)
  let ?n = "NullableLayout_Size align sz"
  note b = NullableLayout_bounds [OF assms, of sz]
  obtain a where a: "align = Suc a" using assms gr0_implies_Suc by blast
  fix B :: build and v v0 :: "bytes option" assume ok: "raw_opt_ok sz v"
  have "(replicate n 0)[0 := 0] = replicate n (0 :: byte)" for n by (cases n) simp_all
  with ok show "emits B (WriteNullable_raw B align sz v) (raw_nullable_enc align sz v)"
    using emits_optional_unmanaged [OF assms] emits_AppendBytes [of B "replicate ?n 0"]
    by (cases v) (simp_all add: raw_opt_ok_def WriteNullable_raw_def raw_nullable_enc_def)
  have n: "length (raw_nullable_enc align sz v) = ?n" "raw_nullable_enc align sz v \<noteq> []"
    using ok b(1) assms by (cases v; simp add: raw_nullable_enc_def raw_opt_ok_def)+
  then show "raw_nullable_enc align sz v \<noteq> []" by simp
  show "decodes any_limits (ReadNullable_raw B align sz) (raw_nullable_enc align sz v) v"
    unfolding ReadNullable_raw_def
  proof (rule decodes_take)
    show "decodes any_limits (if hd (raw_nullable_enc align sz v) = 0 then return None
       else return (Some (take sz (drop (NullableLayout_ValueOffset align) (raw_nullable_enc align sz v))))) [] v"
      using ok n by (cases v) (simp_all add: raw_opt_ok_def raw_nullable_enc_def NullableLayout_ValueOffset_def a hd_replicate)
  qed (simp add: n)
next
  show "reader_action (\<lambda>B. ReadNullable_raw B align sz)"
    unfolding ReadNullable_raw_def by (intro reader_intros)
qed

lemmas generated_fields = codec.member_field [OF optional_string_codec] Guid_codec.member_field DateTime_codec.member_field
  TimeSpan_codec.member_field DateTimeOffset_codec.member_field Decimal_codec.member_field Half_codec.member_field
  Int128_codec.member_field UInt128_codec.member_field

lemma enum_members [struct_members]:
  "member_codec (member enum_formatter g8 p8) (word_field (g8 :: 's \<Rightarrow> 8 word) p8)"
  "member_codec (member enum_formatter g16 p16) (word_field (g16 :: 's \<Rightarrow> 16 word) p16)"
  "member_codec (member enum_formatter g32 p32) (word_field (g32 :: 's \<Rightarrow> 32 word) p32)"
  "member_codec (member (vector_formatter enum_formatter) g p) (vector_field (g :: 's \<Rightarrow> 8 word list) p)"
  unfolding word_field_def vector_field_def
  by (intro codec.member_field codec.vector_codec enum_codec; simp)+

section \<open>The structs\<close>

record NullableLogin =
  nln_username :: "bytes option"
  nln_level :: u32
  nln_remember :: bool
  nln_score :: u64

record DotNetPacket =
  dnp_id :: Guid
  dnp_createdAt :: DateTime
  dnp_duration :: TimeSpan
  dnp_offset :: DateTimeOffset
  dnp_price :: Decimal
  dnp_ratio :: Half
  dnp_big :: Int128
  dnp_uBig :: UInt128
  dnp_initial :: u16

record EnumPacket =
  enp_color :: byte
  enp_signedness :: u16
  enp_wide :: u32
  enp_palette :: "byte list"

record NestedItem =
  nit_itemId :: u32
  nit_itemName :: bytes
  nit_count :: u32

record ManagedStruct =
  mgs_id :: u32
  mgs_label :: bytes

definition NullableLogin_members :: "NullableLogin member list" where
  "NullableLogin_members = [member optional_string nln_username (\<lambda>x. nln_username_update (\<lambda>_. x)),
     member uint32_formatter nln_level (\<lambda>x. nln_level_update (\<lambda>_. x)),
     member bool_formatter nln_remember (\<lambda>x. nln_remember_update (\<lambda>_. x)),
     member double_formatter nln_score (\<lambda>x. nln_score_update (\<lambda>_. x))]"

definition DotNetPacket_members :: "DotNetPacket member list" where
  "DotNetPacket_members = [member Guid_formatter dnp_id (\<lambda>x. dnp_id_update (\<lambda>_. x)),
     member DateTime_formatter dnp_createdAt (\<lambda>x. dnp_createdAt_update (\<lambda>_. x)),
     member TimeSpan_formatter dnp_duration (\<lambda>x. dnp_duration_update (\<lambda>_. x)),
     member DateTimeOffset_formatter dnp_offset (\<lambda>x. dnp_offset_update (\<lambda>_. x)),
     member Decimal_formatter dnp_price (\<lambda>x. dnp_price_update (\<lambda>_. x)),
     member Half_formatter dnp_ratio (\<lambda>x. dnp_ratio_update (\<lambda>_. x)),
     member Int128_formatter dnp_big (\<lambda>x. dnp_big_update (\<lambda>_. x)),
     member UInt128_formatter dnp_uBig (\<lambda>x. dnp_uBig_update (\<lambda>_. x)),
     member uint16_formatter dnp_initial (\<lambda>x. dnp_initial_update (\<lambda>_. x))]"

definition EnumPacket_members :: "EnumPacket member list" where
  "EnumPacket_members = [member enum_formatter enp_color (\<lambda>x. enp_color_update (\<lambda>_. x)),
     member enum_formatter enp_signedness (\<lambda>x. enp_signedness_update (\<lambda>_. x)),
     member enum_formatter enp_wide (\<lambda>x. enp_wide_update (\<lambda>_. x)),
     member (vector_formatter enum_formatter) enp_palette (\<lambda>x. enp_palette_update (\<lambda>_. x))]"

definition NestedItem_members :: "NestedItem member list" where
  "NestedItem_members = [member uint32_formatter nit_itemId (\<lambda>x. nit_itemId_update (\<lambda>_. x)),
     member string_formatter nit_itemName (\<lambda>x. nit_itemName_update (\<lambda>_. x)),
     member uint32_formatter nit_count (\<lambda>x. nit_count_update (\<lambda>_. x))]"

definition ManagedStruct_members :: "ManagedStruct member list" where
  "ManagedStruct_members = [member uint32_formatter mgs_id (\<lambda>x. mgs_id_update (\<lambda>_. x)),
     member string_formatter mgs_label (\<lambda>x. mgs_label_update (\<lambda>_. x))]"

definition NullableLogin_init :: NullableLogin where
  "NullableLogin_init = \<lparr>nln_username = None, nln_level = 0, nln_remember = False, nln_score = 0\<rparr>"

definition DotNetPacket_init :: DotNetPacket where
  "DotNetPacket_init = \<lparr>dnp_id = Guid_init, dnp_createdAt = \<lparr>dateData = 0\<rparr>, dnp_duration = \<lparr>ticks = 0\<rparr>, dnp_offset = \<lparr>offsetMinutes = 0, dateTime = \<lparr>dateData = 0\<rparr>\<rparr>, dnp_price = \<lparr>decimal_bits = replicate 16 0\<rparr>, dnp_ratio = \<lparr>half_bits = 0\<rparr>, dnp_big = \<lparr>low128 = 0, high128 = 0\<rparr>, dnp_uBig = \<lparr>ulow128 = 0, uhigh128 = 0\<rparr>, dnp_initial = 0\<rparr>"

definition EnumPacket_init :: EnumPacket where
  "EnumPacket_init = \<lparr>enp_color = 0, enp_signedness = 0, enp_wide = 0, enp_palette = []\<rparr>"

definition NestedItem_init :: NestedItem where
  "NestedItem_init = \<lparr>nit_itemId = 0, nit_itemName = [], nit_count = 0\<rparr>"

definition ManagedStruct_init :: ManagedStruct where
  "ManagedStruct_init = \<lparr>mgs_id = 0, mgs_label = []\<rparr>"

definition NullableLogin_formatter :: "NullableLogin MemoryPackFormatter" where
  "NullableLogin_formatter = MEMORYPACK_DEFINE NullableLogin_init NullableLogin_members"

definition DotNetPacket_formatter :: "DotNetPacket MemoryPackFormatter" where
  "DotNetPacket_formatter = MEMORYPACK_DEFINE DotNetPacket_init DotNetPacket_members"

definition EnumPacket_formatter :: "EnumPacket MemoryPackFormatter" where
  "EnumPacket_formatter = MEMORYPACK_DEFINE EnumPacket_init EnumPacket_members"

definition NestedItem_formatter :: "NestedItem MemoryPackFormatter" where
  "NestedItem_formatter = MEMORYPACK_DEFINE NestedItem_init NestedItem_members"

definition ManagedStruct_formatter :: "ManagedStruct MemoryPackFormatter" where
  "ManagedStruct_formatter = MEMORYPACK_DEFINE ManagedStruct_init ManagedStruct_members"

section \<open>Layouts\<close>

definition NullableLogin_layout :: "NullableLogin layout" where
  "NullableLogin_layout = zip NullableLogin_members [(field (opt_enc (le_bytes (-1 :: u32)) enc_string) (opt_ok string_ok) (opt_fits (\<lambda>s opts d. string_fits s opts))) nln_username (\<lambda>x. nln_username_update (\<lambda>_. x)),
     word_field nln_level (\<lambda>x. nln_level_update (\<lambda>_. x)),
     bool_field nln_remember (\<lambda>x. nln_remember_update (\<lambda>_. x)),
     word_field nln_score (\<lambda>x. nln_score_update (\<lambda>_. x))]"

definition DotNetPacket_layout :: "DotNetPacket layout" where
  "DotNetPacket_layout = zip DotNetPacket_members [(field (Guid_enc) (\<lambda>g. length (data4 g) = 8) (\<lambda>_ _ _. True)) dnp_id (\<lambda>x. dnp_id_update (\<lambda>_. x)),
     (field (\<lambda>v. le_bytes (dateData v)) (\<lambda>_. True) (\<lambda>_ _ _. True)) dnp_createdAt (\<lambda>x. dnp_createdAt_update (\<lambda>_. x)),
     (field (\<lambda>v. le_bytes (ticks v)) (\<lambda>_. True) (\<lambda>_ _ _. True)) dnp_duration (\<lambda>x. dnp_duration_update (\<lambda>_. x)),
     (field (DateTimeOffset_enc) (\<lambda>_. True) (\<lambda>_ _ _. True)) dnp_offset (\<lambda>x. dnp_offset_update (\<lambda>_. x)),
     (field (decimal_bits) (\<lambda>v. length (decimal_bits v) = 16) (\<lambda>_ _ _. True)) dnp_price (\<lambda>x. dnp_price_update (\<lambda>_. x)),
     (field (\<lambda>v. le_bytes (half_bits v)) (\<lambda>_. True) (\<lambda>_ _ _. True)) dnp_ratio (\<lambda>x. dnp_ratio_update (\<lambda>_. x)),
     (field (\<lambda>v. le_bytes (low128 v) @ le_bytes (high128 v)) (\<lambda>_. True) (\<lambda>_ _ _. True)) dnp_big (\<lambda>x. dnp_big_update (\<lambda>_. x)),
     (field (\<lambda>v. le_bytes (ulow128 v) @ le_bytes (uhigh128 v)) (\<lambda>_. True) (\<lambda>_ _ _. True)) dnp_uBig (\<lambda>x. dnp_uBig_update (\<lambda>_. x)),
     word_field dnp_initial (\<lambda>x. dnp_initial_update (\<lambda>_. x))]"

definition EnumPacket_layout :: "EnumPacket layout" where
  "EnumPacket_layout = zip EnumPacket_members [word_field enp_color (\<lambda>x. enp_color_update (\<lambda>_. x)),
     word_field enp_signedness (\<lambda>x. enp_signedness_update (\<lambda>_. x)),
     word_field enp_wide (\<lambda>x. enp_wide_update (\<lambda>_. x)),
     vector_field enp_palette (\<lambda>x. enp_palette_update (\<lambda>_. x))]"

definition NestedItem_layout :: "NestedItem layout" where
  "NestedItem_layout = zip NestedItem_members [word_field nit_itemId (\<lambda>x. nit_itemId_update (\<lambda>_. x)),
     string_field nit_itemName (\<lambda>x. nit_itemName_update (\<lambda>_. x)),
     word_field nit_count (\<lambda>x. nit_count_update (\<lambda>_. x))]"

definition ManagedStruct_layout :: "ManagedStruct layout" where
  "ManagedStruct_layout = zip ManagedStruct_members [word_field mgs_id (\<lambda>x. mgs_id_update (\<lambda>_. x)),
     string_field mgs_label (\<lambda>x. mgs_label_update (\<lambda>_. x))]"

lemmas gentype_layouts =
  NullableLogin_layout_def NullableLogin_members_def
  DotNetPacket_layout_def DotNetPacket_members_def
  EnumPacket_layout_def EnumPacket_members_def
  NestedItem_layout_def NestedItem_members_def
  ManagedStruct_layout_def ManagedStruct_members_def

lemma gentype_members [simp]:
  "map fst NullableLogin_layout = NullableLogin_members"
  "map fst DotNetPacket_layout = DotNetPacket_members"
  "map fst EnumPacket_layout = EnumPacket_members"
  "map fst NestedItem_layout = NestedItem_members"
  "map fst ManagedStruct_layout = ManagedStruct_members"
  by (simp_all add: gentype_layouts)

interpretation NullableLogin: struct_codec NullableLogin_init NullableLogin_layout
  by (rule struct_codec.intro) (auto simp: gentype_layouts intro: struct_members generated_fields)

interpretation DotNetPacket: struct_codec DotNetPacket_init DotNetPacket_layout
  by (rule struct_codec.intro) (auto simp: gentype_layouts intro: struct_members generated_fields)

interpretation EnumPacket: struct_codec EnumPacket_init EnumPacket_layout
  by (rule struct_codec.intro) (auto simp: gentype_layouts intro: struct_members generated_fields)

interpretation NestedItem: struct_codec NestedItem_init NestedItem_layout
  by (rule struct_codec.intro) (auto simp: gentype_layouts intro: struct_members generated_fields)

interpretation ManagedStruct: struct_codec ManagedStruct_init ManagedStruct_layout
  by (rule struct_codec.intro) (auto simp: gentype_layouts intro: struct_members generated_fields)

lemmas gentype_formatters =
  NullableLogin_formatter_def
  DotNetPacket_formatter_def
  EnumPacket_formatter_def
  NestedItem_formatter_def
  ManagedStruct_formatter_def

section \<open>Fields of structs\<close>

interpretation scores: map_codec uint32_formatter le_bytes "\<lambda>_. True" "\<lambda>_ _ _. True"
  string_formatter enc_string string_ok "\<lambda>s opts d. string_fits s opts" signed_map signed_keys
  by unfold_locales

lemma parts_in_range [simp]: "parts_inside 12 Vec3_parts" "parts_inside 8 PaddedStruct_parts"
  by (simp_all add: parts_inside_def Vec3_parts_def PaddedStruct_parts_def)

lemma unmanaged_fields [struct_members]:
  "0 < sz \<Longrightarrow> parts_inside sz parts \<Longrightarrow> member_codec (member (MEMORYPACK_UNMANAGED_SCRUBBED sz parts) g p) (scrubbed_field sz parts g p)"
  unfolding scrubbed_field_def by (intro codec.member_field scrubbed_codec)

lemma scrubbed_field_simps [simp]:
  "m_enc (scrubbed_field sz parts g p) s = scrub sz parts (g s)" "m_ok (scrubbed_field sz parts g p) s \<longleftrightarrow> scrubbed_ok sz parts (g s)"
  "m_fits (scrubbed_field sz parts g p) s opts d \<longleftrightarrow> True" "m_copy (scrubbed_field sz parts g p) s v = p (g s) v"
  by (simp_all add: scrubbed_field_def)

lemmas nested_fields = scores.map.member_field [unfolded simp_thms] counts.map.member_field [unfolded simp_thms] tags.set.member_field
  codec.member_field [OF int_string.pair_codec, unfolded simp_thms] grid.member_field
  codec.member_field [OF optional_nullable_codec [of 4]] codec.member_field [OF optional_unmanaged_codec [of 4]]
  codec.member_field [OF codec.vector_codec [OF scrubbed_codec]]
  NestedItem.objects_member [unfolded gentype_members, folded gentype_formatters]
  codec.member_field [OF NestedItem.object.optional_codec, unfolded gentype_members, folded gentype_formatters]
  ManagedStruct.member_field [unfolded gentype_members, folded gentype_formatters]

section \<open>The nested structs\<close>

record NestedInventory =
  niv_ownerId :: u32
  niv_equipped :: "NestedItem option"
  niv_items :: "NestedItem list"

record CollectionPacket =
  clp_scores :: "(u32 \<times> bytes) list"
  clp_lookup :: "(bytes \<times> u32) list"
  clp_tags :: "u32 list"
  clp_head :: "u32 \<times> bytes"
  clp_rows :: "u32 list list"
  clp_maybeInt :: "u32 option"
  clp_maybeFloat :: "u32 option"

record UnmanagedHolder =
  umh_position :: bytes
  umh_padded :: bytes
  umh_packed :: bytes
  umh_maybeVec :: "bytes option"
  umh_points :: "bytes list"
  umh_managed :: ManagedStruct

definition NestedInventory_members :: "NestedInventory member list" where
  "NestedInventory_members = [member uint32_formatter niv_ownerId (\<lambda>x. niv_ownerId_update (\<lambda>_. x)),
     member (optional_object NestedItem_formatter) niv_equipped (\<lambda>x. niv_equipped_update (\<lambda>_. x)),
     member (vector_formatter NestedItem_formatter) niv_items (\<lambda>x. niv_items_update (\<lambda>_. x))]"

definition CollectionPacket_members :: "CollectionPacket member list" where
  "CollectionPacket_members = [member (MapFormatter uint32_formatter string_formatter signed_map) clp_scores (\<lambda>x. clp_scores_update (\<lambda>_. x)),
     member counts_formatter clp_lookup (\<lambda>x. clp_lookup_update (\<lambda>_. x)),
     member tags_formatter clp_tags (\<lambda>x. clp_tags_update (\<lambda>_. x)),
     member (pair_formatter uint32_formatter string_formatter) clp_head (\<lambda>x. clp_head_update (\<lambda>_. x)),
     member grid_formatter clp_rows (\<lambda>x. clp_rows_update (\<lambda>_. x)),
     member (optional_nullable 4) clp_maybeInt (\<lambda>x. clp_maybeInt_update (\<lambda>_. x)),
     member (optional_nullable 4) clp_maybeFloat (\<lambda>x. clp_maybeFloat_update (\<lambda>_. x))]"

definition UnmanagedHolder_members :: "UnmanagedHolder member list" where
  "UnmanagedHolder_members = [member (MEMORYPACK_UNMANAGED_SCRUBBED 12 Vec3_parts) umh_position (\<lambda>x. umh_position_update (\<lambda>_. x)),
     member (MEMORYPACK_UNMANAGED_SCRUBBED 8 PaddedStruct_parts) umh_padded (\<lambda>x. umh_padded_update (\<lambda>_. x)),
     member (MEMORYPACK_UNMANAGED 5) umh_packed (\<lambda>x. umh_packed_update (\<lambda>_. x)),
     member (optional_unmanaged 4 12) umh_maybeVec (\<lambda>x. umh_maybeVec_update (\<lambda>_. x)),
     member (vector_formatter (MEMORYPACK_UNMANAGED_SCRUBBED 12 Vec3_parts)) umh_points (\<lambda>x. umh_points_update (\<lambda>_. x)),
     member ManagedStruct_formatter umh_managed (\<lambda>x. umh_managed_update (\<lambda>_. x))]"

definition NestedInventory_init :: NestedInventory where
  "NestedInventory_init = \<lparr>niv_ownerId = 0, niv_equipped = None, niv_items = []\<rparr>"

definition CollectionPacket_init :: CollectionPacket where
  "CollectionPacket_init = \<lparr>clp_scores = [], clp_lookup = [], clp_tags = [], clp_head = (0, []), clp_rows = [], clp_maybeInt = None, clp_maybeFloat = None\<rparr>"

definition UnmanagedHolder_init :: UnmanagedHolder where
  "UnmanagedHolder_init = \<lparr>umh_position = replicate 12 0, umh_padded = replicate 8 0, umh_packed = replicate 5 0, umh_maybeVec = None, umh_points = [], umh_managed = ManagedStruct_init\<rparr>"

definition NestedInventory_formatter :: "NestedInventory MemoryPackFormatter" where
  "NestedInventory_formatter = MEMORYPACK_DEFINE NestedInventory_init NestedInventory_members"

definition CollectionPacket_formatter :: "CollectionPacket MemoryPackFormatter" where
  "CollectionPacket_formatter = MEMORYPACK_DEFINE CollectionPacket_init CollectionPacket_members"

definition UnmanagedHolder_formatter :: "UnmanagedHolder MemoryPackFormatter" where
  "UnmanagedHolder_formatter = MEMORYPACK_DEFINE UnmanagedHolder_init UnmanagedHolder_members"

section \<open>Layouts\<close>

definition NestedInventory_layout :: "NestedInventory layout" where
  "NestedInventory_layout = zip NestedInventory_members [word_field niv_ownerId (\<lambda>x. niv_ownerId_update (\<lambda>_. x)),
     (field (opt_enc [255] (struct_enc NestedItem_layout)) (opt_ok (members_ok NestedItem_layout)) (opt_fits (struct_fits NestedItem_layout))) niv_equipped (\<lambda>x. niv_equipped_update (\<lambda>_. x)),
     (objects_field NestedItem_layout) niv_items (\<lambda>x. niv_items_update (\<lambda>_. x))]"

definition CollectionPacket_layout :: "CollectionPacket layout" where
  "CollectionPacket_layout = zip CollectionPacket_members [(field (\<lambda>m. enc_collection (\<lambda>(x, y). le_bytes x @ enc_string y) (c_items signed_map m)) (\<lambda>m. signed_keys m \<and> all_ok (\<lambda>(x, y). string_ok y) (c_items signed_map m)) (\<lambda>m. all_fit (\<lambda>(x, y) opts d. string_fits y opts) (c_items signed_map m))) clp_scores (\<lambda>x. clp_scores_update (\<lambda>_. x)),
     (field (\<lambda>m. enc_collection (\<lambda>(x, y). enc_string x @ le_bytes y) (c_items std_map m)) (\<lambda>m. sorted_wrt (\<lambda>a b. fst a < fst b) m \<and> all_ok (\<lambda>(x, y). string_ok x) (c_items std_map m)) (\<lambda>m. all_fit (\<lambda>(x, y) opts d. string_fits x opts) (c_items std_map m))) clp_lookup (\<lambda>x. clp_lookup_update (\<lambda>_. x)),
     (field (\<lambda>c. enc_collection le_bytes (c_items signed_set c)) (\<lambda>c. sorted_wrt (\<lambda>a b. sint a < sint b) c \<and> all_ok (\<lambda>_. True) (c_items signed_set c)) (\<lambda>c. all_fit (\<lambda>_ _ _. True) (c_items signed_set c))) clp_tags (\<lambda>x. clp_tags_update (\<lambda>_. x)),
     (field (\<lambda>(x, y). le_bytes x @ enc_string y) (\<lambda>(x, y). string_ok y) (\<lambda>(x, y) opts d. string_fits y opts)) clp_head (\<lambda>x. clp_head_update (\<lambda>_. x)),
     (field (enc_collection (enc_collection le_bytes)) (all_ok (all_ok (\<lambda>_. True))) (all_fit (all_fit (\<lambda>_ _ _. True)))) clp_rows (\<lambda>x. clp_rows_update (\<lambda>_. x)),
     (field (nullable_enc 4) (\<lambda>_. True) (\<lambda>_ _ _. True)) clp_maybeInt (\<lambda>x. clp_maybeInt_update (\<lambda>_. x)),
     (field (nullable_enc 4) (\<lambda>_. True) (\<lambda>_ _ _. True)) clp_maybeFloat (\<lambda>x. clp_maybeFloat_update (\<lambda>_. x))]"

definition UnmanagedHolder_layout :: "UnmanagedHolder layout" where
  "UnmanagedHolder_layout = zip UnmanagedHolder_members [(scrubbed_field 12 Vec3_parts) umh_position (\<lambda>x. umh_position_update (\<lambda>_. x)),
     (scrubbed_field 8 PaddedStruct_parts) umh_padded (\<lambda>x. umh_padded_update (\<lambda>_. x)),
     (raw_field 5) umh_packed (\<lambda>x. umh_packed_update (\<lambda>_. x)),
     (field (raw_nullable_enc 4 12) (raw_opt_ok 12) (\<lambda>_ _ _. True)) umh_maybeVec (\<lambda>x. umh_maybeVec_update (\<lambda>_. x)),
     (field (enc_collection (scrub 12 Vec3_parts)) (all_ok (scrubbed_ok 12 Vec3_parts)) (all_fit (\<lambda>_ _ _. True))) umh_points (\<lambda>x. umh_points_update (\<lambda>_. x)),
     (field (struct_enc ManagedStruct_layout) (members_ok ManagedStruct_layout) (struct_fits ManagedStruct_layout)) umh_managed (\<lambda>x. umh_managed_update (\<lambda>_. x))]"

lemmas gennest_layouts =
  NestedInventory_layout_def NestedInventory_members_def
  CollectionPacket_layout_def CollectionPacket_members_def
  UnmanagedHolder_layout_def UnmanagedHolder_members_def

lemma gennest_members [simp]:
  "map fst NestedInventory_layout = NestedInventory_members"
  "map fst CollectionPacket_layout = CollectionPacket_members"
  "map fst UnmanagedHolder_layout = UnmanagedHolder_members"
  by (simp_all add: gennest_layouts)

interpretation NestedInventory: struct_codec NestedInventory_init NestedInventory_layout
  by (rule struct_codec.intro) (auto simp: gennest_layouts intro: struct_members nested_fields)

interpretation CollectionPacket: struct_codec CollectionPacket_init CollectionPacket_layout
  by (rule struct_codec.intro) (auto simp: gennest_layouts intro: struct_members nested_fields)

interpretation UnmanagedHolder: struct_codec UnmanagedHolder_init UnmanagedHolder_layout
  by (rule struct_codec.intro) (auto simp: gennest_layouts intro: struct_members nested_fields)

lemmas gennest_formatters =
  NestedInventory_formatter_def
  CollectionPacket_formatter_def
  UnmanagedHolder_formatter_def

section \<open>Members that are standard arrays\<close>

record TransformData =
  trd_id :: u32
  trd_quaternion :: "u32 list"
  trd_matrix :: "u32 list"

definition TransformData_init :: TransformData where
  "TransformData_init = \<lparr>trd_id = 0, trd_quaternion = replicate 4 0, trd_matrix = replicate 16 0\<rparr>"

definition TransformData_Serialize :: "build \<Rightarrow> TransformData option \<Rightarrow> unit wop" where
  "TransformData_Serialize B v = (case v of
     None \<Rightarrow> WriteNullObjectHeader B
   | Some v \<Rightarrow>
       seq (WriteObjectHeader B 3)
      (seq (WriteInt32 B (trd_id v))
      (seq (WriteArray_std B (trd_quaternion v))
           (WriteArray_std B (trd_matrix v)))))"

definition TransformData_Deserialize :: "build \<Rightarrow> TransformData \<Rightarrow> TransformData rop" where
  "TransformData_Deserialize B v = bind (ReadObjectHeader B) (\<lambda>header.
     if isNull header then return v
     else
       bind (if count header \<ge> 1 then bind (ReadInt32 B) (\<lambda>x. return (v\<lparr>trd_id := x\<rparr>)) else return v) (\<lambda>v.
       bind (if count header \<ge> 2 then bind (ReadArray_std B 4) (\<lambda>a. return (v\<lparr>trd_quaternion := a\<rparr>)) else return v) (\<lambda>v.
       if count header \<ge> 3 then bind (ReadArray_std B 16) (\<lambda>a. return (v\<lparr>trd_matrix := a\<rparr>)) else return v)))"

definition TransformData_formatter :: "TransformData MemoryPackFormatter" where
  "TransformData_formatter = handwritten TransformData_init TransformData_Serialize TransformData_Deserialize"

definition TransformData_ok :: "TransformData \<Rightarrow> bool" where
  "TransformData_ok v \<longleftrightarrow> length (trd_quaternion v) = 4 \<and> length (trd_matrix v) = 16"

definition TransformData_enc :: "TransformData \<Rightarrow> bytes" where
  "TransformData_enc v = 3 # le_bytes (trd_id v) @ enc_collection le_bytes (trd_quaternion v) @ enc_collection le_bytes (trd_matrix v)"

lemma decodes_std_array:
  assumes "length (xs :: u32 list) = N" "0 < N" "N < 2 ^ 31"
  shows "decodes (\<lambda>opts d. N \<le> unat (maxCollectionLength opts)) (ReadArray_std B N) (enc_collection le_bytes xs) xs"
proof -
  have "decodes (\<lambda>opts d. N \<le> unat (maxCollectionLength opts)) (ReadArray B (replicate N 0) (word_of_nat N))
      (enc_array xs (word_of_nat N)) (xs, word_of_nat N)"
    using assms by (intro decodes_array) (auto simp: array_ok_def unat_of_nat_32)
  from decodes_map [OF this, of fst xs] show ?thesis unfolding ReadArray_std_def
    using assms by (simp add: enc_array_def unat_of_nat_32 case_prod_beta')
qed

interpretation TransformData: message_codec TransformData_formatter TransformData_enc TransformData_ok
  "\<lambda>v opts d. 16 \<le> unat (maxCollectionLength opts)"
proof (rule message_codec.intro)
  fix B v assume ok: "TransformData_ok v"
  then show "emits B (Write B TransformData_formatter v) (TransformData_enc v)"
    unfolding TransformData_formatter_def message_simps TransformData_Serialize_def TransformData_enc_def
      MemoryPackFormatter.simps option.case WriteInt32_def TransformData_ok_def
    by (intro emits_header emits_seq emits_WriteRaw emits_WriteArray_std) auto
  let ?F = "\<lambda>opts d. 16 \<le> unat (maxCollectionLength opts)"
  have "decodes ?F (bind (ReadRaw B) (\<lambda>i. bind (ReadArray_std B 4) (\<lambda>a. bind (ReadArray_std B 16) (\<lambda>b.
      return \<lparr>trd_id = i, trd_quaternion = a, trd_matrix = b\<rparr>))))
      (le_bytes (trd_id v) @ enc_collection le_bytes (trd_quaternion v) @ enc_collection le_bytes (trd_matrix v) @ []) v"
    using ok by (intro decodes_raw decodes_bind [OF decodes_mono [OF decodes_std_array]] decodes_done)
      (auto simp: TransformData_ok_def)
  then show "decodes ?F (Read B TransformData_formatter (value_init TransformData_formatter)) (TransformData_enc v) v"
    unfolding TransformData_formatter_def message_simps TransformData_Deserialize_def TransformData_enc_def
      MemoryPackFormatter.simps ReadInt32_def TransformData_init_def
    by (intro decodes_header) (simp_all add: bind_assoc)
next
  show "reader_action (\<lambda>B. Read B TransformData_formatter (value_init TransformData_formatter))"
    unfolding TransformData_formatter_def message_simps TransformData_Deserialize_def MemoryPackFormatter.simps ReadInt32_def
    by (intro reader_intros) simp_all
qed

section \<open>A version-tolerant object\<close>

record VersionTolerantPacket =
  vtp_id :: u32
  vtp_name :: bytes
  vtp_score :: u32

definition VersionTolerantPacket_init :: VersionTolerantPacket where
  "VersionTolerantPacket_init = \<lparr>vtp_id = 0, vtp_name = [], vtp_score = 0\<rparr>"

text \<open>The local \<^verbatim>\<open>VersionTolerantWriter vt(w)\<close>: its destructor runs at the end of the scope, after an exception too.\<close>

definition with_vt_writer :: "build \<Rightarrow> (vt_writer, unit) op \<Rightarrow> unit wop" where
  "with_vt_writer B m = (\<lambda>w. case m (make_vt_writer w) of
     (UB, vt) \<Rightarrow> (UB, vw_out vt)
   | (res, vt) \<Rightarrow> (case vt_destroy B vt of (UB, w') \<Rightarrow> (UB, w') | (_, w') \<Rightarrow> (res, w')))"

definition with_vt_reader :: "build \<Rightarrow> (vt_reader, 'a) op \<Rightarrow> 'a rop" where
  "with_vt_reader B m = (\<lambda>r. case make_vt_reader B r of
     (Ret _, vt) \<Rightarrow> (case m vt of (res, vt') \<Rightarrow> (res, vr_in vt'))
   | (Throw e, vt) \<Rightarrow> (Throw e, vr_in vt)
   | (UB, vt) \<Rightarrow> (UB, vr_in vt))"

definition VersionTolerantPacket_Serialize :: "build \<Rightarrow> VersionTolerantPacket option \<Rightarrow> unit wop" where
  "VersionTolerantPacket_Serialize B v = (case v of
     None \<Rightarrow> WriteNullObjectHeader B
   | Some v \<Rightarrow> with_vt_writer B
       (seq (WriteMember B uint32_formatter (vtp_id v))
       (seq (WriteMember B string_formatter (vtp_name v))
            (WriteMember B float_formatter (vtp_score v)))))"

definition VersionTolerantPacket_Deserialize :: "build \<Rightarrow> VersionTolerantPacket \<Rightarrow> VersionTolerantPacket rop" where
  "VersionTolerantPacket_Deserialize B v = with_vt_reader B (bind (gets vr_isNull) (\<lambda>null.
     if null then return v
     else
       bind (ReadMember B uint32_formatter (vtp_id v)) (\<lambda>(x, _). let v = v\<lparr>vtp_id := x\<rparr> in
       bind (ReadMember B string_formatter (vtp_name v)) (\<lambda>(x, _). let v = v\<lparr>vtp_name := x\<rparr> in
       bind (ReadMember B float_formatter (vtp_score v)) (\<lambda>(x, _). let v = v\<lparr>vtp_score := x\<rparr> in
       seq (vr_Finish B) (return v))))))"

definition VersionTolerantPacket_formatter :: "VersionTolerantPacket MemoryPackFormatter" where
  "VersionTolerantPacket_formatter =
     handwritten VersionTolerantPacket_init VersionTolerantPacket_Serialize VersionTolerantPacket_Deserialize"

definition vtp_members :: "VersionTolerantPacket \<Rightarrow> bytes list" where
  "vtp_members v = [le_bytes (vtp_id v), enc_string (vtp_name v), le_bytes (vtp_score v)]"

lemma vtp_sizes:
  assumes "length (vtp_name v) < 2 ^ 31"
  shows "\<forall>bs \<in> set (vtp_members v). length bs < 2 ^ 32" "length (concat (vtp_members v)) < 2 ^ 32"
    "length (vtp_members v) = 3" "length (vt_enc (vtp_members v)) < 2 ^ 33"
  using assms length_enc_string_le [of "vtp_name v"]
  by (simp_all add: vtp_members_def vt_enc_def enc_varint_def)

lemma vtp_buffered:
  assumes "length (vtp_name v) < 2 ^ 31"
  shows "\<exists>vt. seq (WriteMember B uint32_formatter (vtp_id v)) (seq (WriteMember B string_formatter (vtp_name v))
      (WriteMember B float_formatter (vtp_score v))) (make_vt_writer w) = (Ret (), vt) \<and> vt_buffered (vtp_members v) vt \<and> vw_out vt = w"
proof -
  note sizes = vtp_sizes [OF assms]
  have m: "emits B (Write B uint32_formatter (vtp_id v)) (le_bytes (vtp_id v))"
    "emits B (Write B string_formatter (vtp_name v)) (enc_string (vtp_name v))"
    "emits B (Write B float_formatter (vtp_score v)) (le_bytes (vtp_score v))"
    using uint32_codec.writes string_codec.writes [of "vtp_name v"] float_codec.writes assms by (simp_all add: string_ok_def)
  obtain s1 where s1: "WriteMember B uint32_formatter (vtp_id v) (make_vt_writer w) = (Ret (), s1)"
    "vt_buffered [le_bytes (vtp_id v)] s1" "vw_out s1 = w"
    using WriteMember_buffers [OF m(1) vt_buffered_start] by (auto simp: make_vt_writer_def)
  obtain s2 where s2: "WriteMember B string_formatter (vtp_name v) s1 = (Ret (), s2)"
    "vt_buffered [le_bytes (vtp_id v), enc_string (vtp_name v)] s2" "vw_out s2 = w"
    using WriteMember_buffers [OF m(2) s1(2)] s1(3) sizes(2) by (auto simp: vtp_members_def)
  obtain s3 where "WriteMember B float_formatter (vtp_score v) s2 = (Ret (), s3)" "vt_buffered (vtp_members v) s3" "vw_out s3 = w"
    using WriteMember_buffers [OF m(3) s2(2)] s2(3) sizes(2) by (auto simp: vtp_members_def)
  with s1(1) s2(1) show ?thesis by simp
qed

text \<open>Written where there is room, and a failed writer where there is not: the destructor swallows the exception.\<close>

lemma vtp_Write:
  assumes "length (vtp_name v) < 2 ^ 31" "writer_inv w" "w_error w = ErrorNone"
  shows "room w (length (vt_enc (vtp_members v))) \<Longrightarrow> appended w (vt_enc (vtp_members v)) (Write B VersionTolerantPacket_formatter v w)"
    and "is_fixed w \<Longrightarrow> \<not> room w (length (vt_enc (vtp_members v))) \<Longrightarrow>
      \<exists>w'. Write B VersionTolerantPacket_formatter v w = (Ret (), w') \<and> same_target w w' \<and> w_error w' = BufferOverflow"
proof -
  let ?bss = "vtp_members v"
  obtain vt where vt: "seq (WriteMember B uint32_formatter (vtp_id v)) (seq (WriteMember B string_formatter (vtp_name v))
      (WriteMember B float_formatter (vtp_score v))) (make_vt_writer w) = (Ret (), vt)" "vt_buffered ?bss vt" "vw_out vt = w"
    using vtp_buffered [OF assms(1)] by blast
  then have W: "Write B VersionTolerantPacket_formatter v w = vt_destroy B vt" if "fst (vt_destroy B vt) = Ret ()"
    using that by (cases "vt_destroy B vt")
      (simp add: Write_styles VersionTolerantPacket_formatter_def VersionTolerantPacket_Serialize_def with_vt_writer_def)
  {
    assume "room w (length (vt_enc ?bss))"
    with vt_Finish_writes [OF vt(2), of B] vtp_sizes(3) [OF assms(1)] assms(2,3) vt(3)
    show "appended w (vt_enc ?bss) (Write B VersionTolerantPacket_formatter v w)"
      using W by (force simp: vt_destroy_def)
  next
    assume fixed: "is_fixed w" "\<not> room w (length (vt_enc ?bss))"
    let ?m = "seq (WriteObjectHeader B (word_of_nat (length ?bss)))
      (seq (for_each (WriteVarIntLength B) (map (\<lambda>bs. word_of_nat (length bs)) ?bss)) (WriteBytes B (concat ?bss)))"
    have "overflowed B w (?m w)"
      using emitsD(2) [OF emits_vt assms(2,3) fixed] vtp_sizes(3) [OF assms(1)] by simp
    moreover have "vt_Finish B vt = on_out ?m (vt\<lparr>vw_finished := True\<rparr>)"
      using vt(2) vtp_sizes(3) [OF assms(1)] by (simp add: vt_Finish_def vt_buffered_def Let_def on_out_seq [abs_def] fun_eq_iff)
    ultimately show "\<exists>w'. Write B VersionTolerantPacket_formatter v w = (Ret (), w') \<and> same_target w w' \<and> w_error w' = BufferOverflow"
      using W vt(3) by (cases "?m w") (auto simp: vt_destroy_def on_out_def overflowed_def split: outcome.splits if_splits)
  }
qed

lemma vtp_Serialize:
  assumes "length (vtp_name v) < 2 ^ 31"
  shows "Serialize B VersionTolerantPacket_formatter v = Ret (vt_enc (vtp_members v))"
proof -
  obtain w where w: "Write B VersionTolerantPacket_formatter v writer_default = (Ret (), w)" "writer_inv w" "same_target writer_default w"
    "GetSpan w = vt_enc (vtp_members v)"
    using vtp_Write(1) [OF assms, of writer_default B] vtp_sizes(4) [OF assms] by (auto elim: appendedE)
  then have "w_vec w = None" "w_fixedBuf w = None" by (simp_all add: same_target_def)
  with w TakeBuffer_owned [OF w(2)] show ?thesis by (simp add: Serialize_def)
qed

lemma vtp_small_buffer:
  assumes "length (vtp_name v) < 2 ^ 31" "length mem < length (vt_enc (vtp_members v))"
  shows "fst (SerializeTo B VersionTolerantPacket_formatter (Some mem) v) = Ret 0"
    and "fst (TrySerializeTo B VersionTolerantPacket_formatter (Some mem) v) = Ret (Inl BufferOverflow)"
proof -
  have "length mem < 2 ^ 64" using assms(2) vtp_sizes(4) [OF assms(1)] by simp
  then obtain w where "Write B VersionTolerantPacket_formatter v (writer_span (Some mem)) = (Ret (), w)" "w_error w = BufferOverflow"
    using vtp_Write(2) [OF assms(1), of "writer_span (Some mem)" B] assms(2) by auto
  then show "fst (SerializeTo B VersionTolerantPacket_formatter (Some mem) v) = Ret 0"
    "fst (TrySerializeTo B VersionTolerantPacket_formatter (Some mem) v) = Ret (Inl BufferOverflow)"
    by (simp_all add: SerializeTo_def TrySerializeTo_def WriterFailed_def)
qed

text \<open>A later version may have appended members: they are skipped.\<close>

lemma vtp_Deserialize:
  assumes "string_fits (vtp_name v) default_options" "length (vtp_name v) < 2 ^ 31"
    "length ys \<le> 246" "\<forall>bs \<in> set ys. length bs < 2 ^ 32" "length (vt_enc (vtp_members v @ ys) @ rest) < 2 ^ 63"
  shows "Read B VersionTolerantPacket_formatter u (make_reader (vt_enc (vtp_members v @ ys) @ rest)) =
    (Ret v, (make_reader (vt_enc (vtp_members v @ ys) @ rest))\<lparr>r_pos := length (vt_enc (vtp_members v @ ys))\<rparr>)"
proof -
  let ?bss = "vtp_members v @ ys" let ?r = "make_reader (vt_enc ?bss @ rest)"
  have r: "reader_inv ?r" "r_error ?r = ErrorNone" "drop (r_pos ?r) (r_data ?r) = vt_enc ?bss @ rest" "r_options ?r = default_options"
    using assms(5) by (simp_all add: make_reader_def make_reader_with_def reader_inv_def)
  have n: "length ?bss \<le> 249" "\<forall>bs \<in> set ?bss. length bs < 2 ^ 32"
    using vtp_sizes [OF assms(2)] assms(3,4) by auto
  obtain s P where s: "make_vt_reader B ?r = (Ret (), s)" "vt_at ?r P ?bss 0 s" "P + length (concat ?bss) = length (vt_enc ?bss)"
    using make_vt_reader_at [OF r(1-3) n, of B] by (auto simp: make_reader_def make_reader_with_def)
  obtain s1 where s1: "ReadMember B uint32_formatter (vtp_id u) s = (Ret (vtp_id v, True), s1)" "vt_at ?r P ?bss 1 s1"
    using ReadMember_at [OF s(2) _ uint32_codec.reads, of "vtp_id v" "[]"] by (auto simp: vtp_members_def)
  obtain s2 where s2: "ReadMember B string_formatter (vtp_name u) s1 = (Ret (vtp_name v, True), s2)" "vt_at ?r P ?bss 2 s2"
    using ReadMember_at [OF s1(2) _ string_codec.reads, of "vtp_name v" "[]"] assms(1,2) r(4)
    by (auto simp: vtp_members_def string_ok_def numeral_2_eq_2)
  obtain s3 where s3: "ReadMember B float_formatter (vtp_score u) s2 = (Ret (vtp_score v, True), s3)" "vt_at ?r P ?bss 3 s3"
    using ReadMember_at [OF s2(2) _ float_codec.reads, of "vtp_score v" "[]"] by (auto simp: vtp_members_def numeral_3_eq_3)
  obtain s4 where s4: "vr_Finish B s3 = (Ret (), s4)" "vr_in s4 = ?r\<lparr>r_pos := P + length (concat ?bss)\<rparr>"
    using vr_Finish_at [OF s3(2)] by blast
  have "\<not> vr_isNull s" using s(2) by (simp add: vt_at_def)
  with s s1(1) s2(1) s3(1) s4 show ?thesis
    by (simp add: Read_def VersionTolerantPacket_formatter_def handwritten_def VersionTolerantPacket_Deserialize_def with_vt_reader_def Let_def)
qed

end
