(* ===== verification/Wellformed.thy ===== *)
theory Wellformed
  imports GamePackets
begin

text \<open>
  What a decoded value is like, whatever the input was. \<open>gives m P\<close> says that an operation which returns, returns
  a value with the property \<open>P\<close>; it is closed under the composition of readers. With it the invariants of the decoded
  types follow for arbitrary bytes: the fixed arrays of the hand-written packets keep their length while their counts
  stay within it.
\<close>

section \<open>Results of an operation\<close>

definition gives :: "('s, 'a) op \<Rightarrow> ('a \<Rightarrow> bool) \<Rightarrow> bool" where
  "gives m P \<longleftrightarrow> (\<forall>s x s'. m s = (Ret x, s') \<longrightarrow> P x)"

named_theorems gives_intros "properties of the results of operations"

lemma givesD: "gives m P \<Longrightarrow> m s = (Ret x, s') \<Longrightarrow> P x"
  unfolding gives_def by blast

lemma gives_any: "gives m (\<lambda>_. True)"
  by (simp add: gives_def)

lemma gives_return [gives_intros]: "P x \<Longrightarrow> gives (return x) P"
  by (simp add: gives_def return_def)

lemma gives_bind:
  assumes "gives m Q" "\<And>x. Q x \<Longrightarrow> gives (f x) P"
  shows "gives (bind m f) P"
  using assms unfolding gives_def bind_def by (fastforce split: prod.splits outcome.splits)

text \<open>Most operations are followed by one that does not depend on their result.\<close>

lemma gives_then [gives_intros]: "(\<And>x. gives (f x) P) \<Longrightarrow> gives (bind m f) P"
  by (rule gives_bind [OF gives_any]) simp

lemma gives_if [gives_intros]: "(c \<Longrightarrow> gives m P) \<Longrightarrow> (\<not> c \<Longrightarrow> gives k P) \<Longrightarrow> gives (if c then m else k) P"
  by simp

lemma gives_option:
  "(v = None \<Longrightarrow> gives m P) \<Longrightarrow> (\<And>x. v = Some x \<Longrightarrow> gives (k x) P) \<Longrightarrow> gives (case v of None \<Rightarrow> m | Some x \<Rightarrow> k x) P"
  by (cases v) simp_all

section \<open>Fixed arrays\<close>

lemma gives_ReadArray:
  assumes "length arr = N" "0 < N" "N < 2 ^ 31"
  shows "gives (ReadArray B (arr :: 'a::len word list) (word_of_nat N)) (\<lambda>(a, n). length a = N \<and> unat n \<le> N)"
proof -
  have m: "sint (word_of_nat N :: u32) = int N" "unat (word_of_nat N :: u32) = N"
    using sint_of_nat_32 [OF assms(3)] assms(3) by (simp_all add: unat_of_nat_32)
  have le: "unat (if sint (len :: u32) \<le> int N then len else word_of_nat N) \<le> N" if "0 < sint len" for len
    using unat_sint_pos [OF that] m by auto
  have c: "gives (copy_front arr xs) (\<lambda>a. length a = N)" for xs :: "'a word list"
    using assms(1) by (auto simp: gives_def copy_front_def)
  have inner: "gives (if sint k > 0 then
        bind (EnsureBytes B sz) (\<lambda>ok. if \<not> ok then return None
          else bind (if native B = Little then bind (take_bytes sz) (\<lambda>bs. return (f bs)) else g)
            (\<lambda>xs. bind (copy_front arr xs) (\<lambda>a. return (Some a))))
      else return (Some arr)) (\<lambda>res. case res of None \<Rightarrow> True | Some a \<Rightarrow> length a = N)" for k :: u32 and sz f g
    by (intro gives_intros gives_bind [OF c]) (simp_all add: assms(1))
  have rest: "gives (if sint (len - k) > 0 then bind (EnsureBytes B sz) (\<lambda>ok. if \<not> ok then return (a, k)
        else bind (take_bytes sz) (\<lambda>_. return (a, k))) else return (a, k)) (\<lambda>(a, n). length a = N \<and> unat n \<le> N)"
    if "length a = N" "unat k \<le> N" for a :: "'a word list" and len k :: u32 and sz
    using that by (intro gives_intros) simp_all
  show ?thesis unfolding ReadArray_def Let_def m
    by (rule gives_then, rule gives_if, simp add: gives_return assms(1), rule gives_bind [OF inner], rule gives_option,
        simp add: gives_return assms(1), rule rest, simp, rule le, simp)
qed

text \<open>One step of a hand-written reader, which updates a struct with the property \<open>P\<close>.\<close>

lemma gives_update:
  assumes "P v" "gives m Q" "\<And>x. Q x \<Longrightarrow> P (f x v)"
  shows "gives (if c then bind m (\<lambda>x. return (f x v)) else return v) P"
  using assms(1,3) by (intro gives_if gives_bind [OF assms(2)] gives_return) simp_all

definition SkillSlotData_inv :: "SkillSlotData \<Rightarrow> bool" where
  "SkillSlotData_inv v \<longleftrightarrow> length (ssd_skillIds v) = 8 \<and> unat (ssd_skillCount v) \<le> 8 \<and>
     length (ssd_cooldowns v) = 8 \<and> unat (ssd_cooldownCount v) \<le> 8"

definition MapTileRow_inv :: "MapTileRow \<Rightarrow> bool" where
  "MapTileRow_inv v \<longleftrightarrow> length (mtr_tiles v) = 64 \<and> unat (mtr_tileCount v) \<le> 64 \<and>
     length (mtr_heights v) = 64 \<and> unat (mtr_heightCount v) \<le> 64"

definition MixedFormatPacket_inv :: "MixedFormatPacket \<Rightarrow> bool" where
  "MixedFormatPacket_inv v \<longleftrightarrow> length (mfp_fixedBonuses v) = 4 \<and> unat (mfp_fixedBonusCount v) \<le> 4 \<and>
     length (mfp_tagBytes v) = 16 \<and> unat (mfp_tagByteCount v) \<le> 16"

lemmas packet_invs = SkillSlotData_inv_def MapTileRow_inv_def MixedFormatPacket_inv_def

lemmas array_results =
  gives_ReadArray [where N = 8, simplified] gives_ReadArray [where N = 64, simplified]
  gives_ReadArray [where N = 4, simplified] gives_ReadArray [where N = 16, simplified]

text \<open>Every reader keeps the invariant of its struct, so that a decoded struct has it.\<close>

lemma gives_step:
  assumes "P v" "gives m Q" "\<And>x. Q x \<Longrightarrow> P (f x v)" "\<And>u. P u \<Longrightarrow> gives (k u) P"
  shows "gives (bind (if c then bind m (\<lambda>x. return (f x v)) else return v) k) P"
  by (rule gives_bind [OF gives_update [of P v m Q]]) (use assms in simp_all)

lemma gives_header:
  "P v \<Longrightarrow> (\<And>header. gives (k header) P) \<Longrightarrow> gives (bind (ReadObjectHeader B) (\<lambda>header. if isNull header then return v else k header)) P"
  by (intro gives_then gives_if gives_return)

lemma gives_SkillSlotData: "SkillSlotData_inv v \<Longrightarrow> gives (SkillSlotData_Deserialize B v) SkillSlotData_inv"
proof -
  have a1: "gives (ReadArray B (ssd_skillIds u) 8) (\<lambda>p. length (fst p) = 8 \<and> unat (snd p) \<le> 8)" if "SkillSlotData_inv u" for u
    using that by (intro array_results(1) [unfolded case_prod_beta']) (simp add: packet_invs)
  have a2: "gives (ReadArray B (ssd_cooldowns u) 8) (\<lambda>p. length (fst p) = 8 \<and> unat (snd p) \<le> 8)" if "SkillSlotData_inv u" for u
    using that by (intro array_results(1) [unfolded case_prod_beta']) (simp add: packet_invs)
  assume v: "SkillSlotData_inv v"
  show ?thesis unfolding SkillSlotData_Deserialize_def case_prod_beta'
    by (rule gives_header, rule v)
      ((rule gives_step [OF _ gives_any], rule v, use v in \<open>simp add: packet_invs\<close>),
       (rule gives_step [OF _ a1], assumption, assumption, simp add: packet_invs),
       (rule gives_update [OF _ a2], assumption, assumption, simp add: packet_invs))
qed

lemma gives_MapTileRow: "MapTileRow_inv v \<Longrightarrow> gives (MapTileRow_Deserialize B v) MapTileRow_inv"
proof -
  have a1: "gives (ReadArray B (mtr_tiles u) 64) (\<lambda>p. length (fst p) = 64 \<and> unat (snd p) \<le> 64)" if "MapTileRow_inv u" for u
    using that by (intro array_results(2) [unfolded case_prod_beta']) (simp add: packet_invs)
  have a2: "gives (ReadArray B (mtr_heights u) 64) (\<lambda>p. length (fst p) = 64 \<and> unat (snd p) \<le> 64)" if "MapTileRow_inv u" for u
    using that by (intro array_results(2) [unfolded case_prod_beta']) (simp add: packet_invs)
  assume v: "MapTileRow_inv v"
  show ?thesis unfolding MapTileRow_Deserialize_def case_prod_beta'
    by (rule gives_header, rule v)
      ((rule gives_step [OF _ gives_any], rule v, use v in \<open>simp add: packet_invs\<close>),
       (rule gives_step [OF _ a1], assumption, assumption, simp add: packet_invs),
       (rule gives_update [OF _ a2], assumption, assumption, simp add: packet_invs))
qed

lemma gives_MixedFormatPacket: "MixedFormatPacket_inv v \<Longrightarrow> gives (MixedFormatPacket_Deserialize B v) MixedFormatPacket_inv"
proof -
  have a1: "gives (ReadArray B (mfp_fixedBonuses u) 4) (\<lambda>p. length (fst p) = 4 \<and> unat (snd p) \<le> 4)" if "MixedFormatPacket_inv u" for u
    using that by (intro array_results(3) [unfolded case_prod_beta']) (simp add: packet_invs)
  have a2: "gives (ReadArray B (mfp_tagBytes u) 16) (\<lambda>p. length (fst p) = 16 \<and> unat (snd p) \<le> 16)" if "MixedFormatPacket_inv u" for u
    using that by (intro array_results(4) [unfolded case_prod_beta']) (simp add: packet_invs)
  assume v: "MixedFormatPacket_inv v"
  show ?thesis unfolding MixedFormatPacket_Deserialize_def case_prod_beta'
    by (rule gives_header, rule v)
      ((rule gives_step [OF _ gives_any], rule v, use v in \<open>simp add: packet_invs\<close>),
       (rule gives_step [OF _ gives_any], assumption, simp add: packet_invs),
       (rule gives_step [OF _ a1], assumption, assumption, simp add: packet_invs),
       (rule gives_step [OF _ a2], assumption, assumption, simp add: packet_invs),
       (rule gives_update [OF _ gives_any], assumption, simp add: packet_invs))
qed

lemma SkillSlotData_decoded: "gives (Read B SkillSlotData_formatter (value_init SkillSlotData_formatter)) SkillSlotData_inv"
proof -
  have "SkillSlotData_inv SkillSlotData_init" by (simp add: SkillSlotData_inv_def SkillSlotData_init_def)
  from gives_SkillSlotData [OF this] show ?thesis by (simp add: Read_def SkillSlotData_formatter_def handwritten_def)
qed

lemma MapTileRow_decoded: "gives (Read B MapTileRow_formatter (value_init MapTileRow_formatter)) MapTileRow_inv"
proof -
  have "MapTileRow_inv MapTileRow_init" by (simp add: MapTileRow_inv_def MapTileRow_init_def)
  from gives_MapTileRow [OF this] show ?thesis by (simp add: Read_def MapTileRow_formatter_def handwritten_def)
qed

lemma MixedFormatPacket_decoded: "gives (Read B MixedFormatPacket_formatter (value_init MixedFormatPacket_formatter)) MixedFormatPacket_inv"
proof -
  have "MixedFormatPacket_inv MixedFormatPacket_init" by (simp add: MixedFormatPacket_inv_def MixedFormatPacket_init_def)
  from gives_MixedFormatPacket [OF this] show ?thesis by (simp add: Read_def MixedFormatPacket_formatter_def handwritten_def)
qed

text \<open>No reader of such a struct stores outside an array: \<^verbatim>\<open>TryDeserialize\<close> reports an error or returns a struct with
  the invariant.\<close>

lemma arrays_kept:
  assumes "length data < 2 ^ 63"
  shows "\<exists>r. TryDeserialize B SkillSlotData_formatter data = Ret r \<and> (\<forall>v. r = Inr v \<longrightarrow> SkillSlotData_inv v)"
    "\<exists>r. TryDeserialize B MapTileRow_formatter data = Ret r \<and> (\<forall>v. r = Inr v \<longrightarrow> MapTileRow_inv v)"
    "\<exists>r. TryDeserialize B MixedFormatPacket_formatter data = Ret r \<and> (\<forall>v. r = Inr v \<longrightarrow> MixedFormatPacket_inv v)"
proof -
  have kept: "\<exists>r. TryDeserialize B T data = Ret r \<and> (\<forall>v. r = Inr v \<longrightarrow> P v)"
    if "\<exists>r. TryDeserialize B T data = Ret r" "gives (Read B T (value_init T)) P" for T :: "'a MemoryPackFormatter" and P
    using that by (cases "Read B T (value_init T) (make_reader data)" rule: outcome_state_cases)
      (auto simp: TryDeserialize_def gives_def)
  show "\<exists>r. TryDeserialize B SkillSlotData_formatter data = Ret r \<and> (\<forall>v. r = Inr v \<longrightarrow> SkillSlotData_inv v)"
    by (rule kept [OF SkillSlotData.message_try_total [OF assms] SkillSlotData_decoded])
  show "\<exists>r. TryDeserialize B MapTileRow_formatter data = Ret r \<and> (\<forall>v. r = Inr v \<longrightarrow> MapTileRow_inv v)"
    by (rule kept [OF MapTileRow.message_try_total [OF assms] MapTileRow_decoded])
  show "\<exists>r. TryDeserialize B MixedFormatPacket_formatter data = Ret r \<and> (\<forall>v. r = Inr v \<longrightarrow> MixedFormatPacket_inv v)"
    by (rule kept [OF MixedFormatPacket.message_try_total [OF assms] MixedFormatPacket_decoded])
qed

end
