(* ===== verification/ServerMain.thy ===== *)
theory ServerMain
  imports Server ChatConsole
begin

text \<open>
  The program around \<^verbatim>\<open>Connection\<close> in \<^verbatim>\<open>samples/CppServer/main.cpp\<close>: \<^verbatim>\<open>main\<close> with its argument, the system calls that
  open the listener, the accept loop and the detached threads. \<open>server_step\<close> interleaves the accept loop with
  the rounds of the receive loops, one thread per accepted client, on one world that all of them share: the sockets of
  the process and its clock. A thread reaches the world through the descriptor that its \<^verbatim>\<open>Connection\<close> got, and the
  destructor closes this descriptor when the loop ends, after which the operating system may give it to another client.

  \<open>sockets_ok\<close> is what the program relies on of the operating system. \<open>server_inv\<close> is the invariant: the descriptors of
  the running threads are in use and distinct, and every client was sent, on its own connection, the answers to a front
  part of the packets that it sent itself; \<open>thread_round\<close> says that the next round of a thread ends normally, and that
  all packets of its client are answered when it is the last one. The log is not modelled, and a round is one step. When
  \<^verbatim>\<open>accept\<close> fails, \<^verbatim>\<open>main\<close> returns and ends the process; the model lets the threads run on, which only adds states.
\<close>

section \<open>Start\<close>

definition SERVER_PORT_DEFAULT :: u16 where "SERVER_PORT_DEFAULT = 25003"

text \<open>The port from the arguments after the program name; \<open>None\<close> is the usage message.\<close>

definition server_port :: "bytes list \<Rightarrow> u16 option" where
  "server_port args = (case args of
     [] \<Rightarrow> Some SERVER_PORT_DEFAULT
   | arg # _ \<Rightarrow> (let parsed = strtol arg in
       if parsed \<le> 0 \<or> parsed > 65535 then None else Some (word_of_int parsed)))"

text \<open>The system calls in the order of \<^verbatim>\<open>main\<close>, and whether they succeed.\<close>

datatype system_call = Startup | Socket | Bind u16 | Listen

text \<open>The exit code of a failed start with the state of the listener, or the listening program.\<close>

datatype start = Exit int "bool" | Listening u16

definition server_start :: "(system_call \<Rightarrow> bool) \<Rightarrow> bytes list \<Rightarrow> start" where
  "server_start succeeds args = (case server_port args of
     None \<Rightarrow> Exit 1 False
   | Some port \<Rightarrow>
       if \<not> succeeds Startup then Exit 1 False
       else if \<not> succeeds Socket then Exit 1 False
       else let listener = True in
         if \<not> succeeds (Bind port) then Exit 1 (\<not> listener)
         else if \<not> succeeds Listen then Exit 1 (\<not> listener)
         else Listening port)"

text \<open>A listener that was opened is closed again when the start fails, and the port is never zero.\<close>

lemma server_start_result:
  "server_start succeeds args = Exit code open \<Longrightarrow> code = 1 \<and> \<not> open"
  "server_start succeeds args = Listening port \<Longrightarrow> port \<noteq> 0 \<and> succeeds (Bind port) \<and> succeeds Listen"
proof -
  show "server_start succeeds args = Exit code open \<Longrightarrow> code = 1 \<and> \<not> open"
    by (auto simp: server_start_def Let_def split: option.splits if_splits)
  have "p \<noteq> 0" if "server_port args = Some p" for p
  proof (cases args)
    case (Cons arg more_args)
    with that have n: "0 < strtol arg" "strtol arg < 2 ^ 16" "p = word_of_int (strtol arg)"
      by (auto simp: server_port_def Let_def split: if_splits)
    then have "uint p = strtol arg" by (simp add: uint_word_of_int)
    with n(1) show ?thesis by auto
  qed (use that in \<open>simp add: server_port_def SERVER_PORT_DEFAULT_def\<close>)
  then show "server_start succeeds args = Listening port \<Longrightarrow> port \<noteq> 0 \<and> succeeds (Bind port) \<and> succeeds Listen"
    by (auto simp: server_start_def Let_def split: option.splits if_splits)
qed

section \<open>One round of the receive loop\<close>

text \<open>The body of the loop in \<^verbatim>\<open>Run\<close>: the outcome says whether the loop goes on.\<close>

definition Run_round :: "build \<Rightarrow> 'w host \<Rightarrow> 'w connection \<Rightarrow> (bool outcome \<times> 'w connection) option" where
  "Run_round B H c =
     (if \<not> c_alive c then Some (Ret False, c)
      else case h_recv H 4096 (c_world c) of (chunk, w) \<Rightarrow>
        if chunk = [] then Some (Ret False, c\<lparr>c_world := w\<rparr>)
        else map_option (\<lambda>(out, c', p). (out, c'\<lparr>c_parser := p\<rparr>))
          (Feed (DefaultPacketHeaderPolicy B) chunk (on_packet B H) (c\<lparr>c_world := w\<rparr>) (c_parser c)))"

lemma Run_rounds:
  "Run B H c = (case Run_round B H c of
     None \<Rightarrow> None
   | Some (Ret True, c') \<Rightarrow> Run B H c'
   | Some (Ret False, c') \<Rightarrow> Some (Ret (), c')
   | Some (Throw e, c') \<Rightarrow> Some (Throw e, c')
   | Some (UB, c') \<Rightarrow> Some (UB, c'))"
  by (subst Run.simps)
    (auto simp: Run_round_def Option.bind_eq_Some_conv split: prod.splits option.splits outcome.splits bool.splits if_splits)

section \<open>The running server\<close>

text \<open>What the threads share of the operating system, on the state \<open>'w\<close> of the outside world: the sockets by their
  descriptors, \<^verbatim>\<open>accept\<close> (\<open>None\<close> is \<^verbatim>\<open>INVALID_SOCKET\<close>), \<^verbatim>\<open>close\<close>, and what happens to the world meanwhile.\<close>

record 'w system =
  os_host :: "nat \<Rightarrow> 'w host"
  os_accept :: "'w \<Rightarrow> nat option \<times> 'w"
  os_close :: "nat \<Rightarrow> 'w \<Rightarrow> 'w"
  os_passes :: "'w \<Rightarrow> 'w \<Rightarrow> bool"

text \<open>A detached thread: its descriptor, the number of the connection, and the \<^verbatim>\<open>Connection\<close>, whose world is the shared one
  whenever it runs. \<open>t_open\<close> holds until the destructor has closed the descriptor; \<open>t_accepted\<close> is the world in which
  the client was accepted.\<close>

record 'w thread =
  t_sock :: nat
  t_id :: u32
  t_accepted :: 'w
  t_conn :: "'w connection"
  t_open :: bool

record 'w server =
  sv_nextId :: u32
  sv_threads :: "'w thread list"
  sv_accepting :: bool
  sv_world :: 'w

definition server_init :: "'w \<Rightarrow> 'w server" where
  "server_init w = \<lparr>sv_nextId = 0, sv_threads = [], sv_accepting = True, sv_world = w\<rparr>"

definition open_socks :: "'w server \<Rightarrow> nat list" where
  "open_socks s = map t_sock (filter t_open (sv_threads s))"

text \<open>\<open>const int id = ++g_nextConnectionId; std::thread([client, id] { ... }).detach();\<close>\<close>

definition accept_client :: "nat \<Rightarrow> 'w \<Rightarrow> 'w server \<Rightarrow> 'w server" where
  "accept_client sock w s = s\<lparr>sv_nextId := sv_nextId s + 1, sv_world := w,
     sv_threads := sv_threads s @ [\<lparr>t_sock = sock, t_id = sv_nextId s + 1, t_accepted = w, t_conn = make_connection w, t_open = True\<rparr>]\<rparr>"

definition thread_runs :: "build \<Rightarrow> 'w system \<Rightarrow> 'w \<Rightarrow> 'w thread \<Rightarrow> (bool outcome \<times> 'w connection) option" where
  "thread_runs B OS w t = Run_round B (os_host OS (t_sock t)) ((t_conn t)\<lparr>c_world := w\<rparr>)"

inductive server_step :: "build \<Rightarrow> 'w system \<Rightarrow> 'w server \<Rightarrow> 'w server \<Rightarrow> bool" for B OS where
  accepted: "sv_accepting s \<Longrightarrow> os_accept OS (sv_world s) = (Some sock, w) \<Longrightarrow> server_step B OS s (accept_client sock w s)"
| accept_failed: "sv_accepting s \<Longrightarrow> os_accept OS (sv_world s) = (None, w) \<Longrightarrow>
    server_step B OS s (s\<lparr>sv_accepting := False, sv_world := w\<rparr>)"
| continues: "i < length (sv_threads s) \<Longrightarrow> t = sv_threads s ! i \<Longrightarrow> t_open t \<Longrightarrow> thread_runs B OS (sv_world s) t = Some (Ret True, c) \<Longrightarrow>
    server_step B OS s (s\<lparr>sv_threads := (sv_threads s)[i := t\<lparr>t_conn := c\<rparr>], sv_world := c_world c\<rparr>)"
| ends: "i < length (sv_threads s) \<Longrightarrow> t = sv_threads s ! i \<Longrightarrow> t_open t \<Longrightarrow> thread_runs B OS (sv_world s) t = Some (Ret False, c) \<Longrightarrow>
    server_step B OS s (s\<lparr>sv_threads := (sv_threads s)[i := t\<lparr>t_conn := c, t_open := False\<rparr>],
      sv_world := os_close OS (t_sock t) (c_world c)\<rparr>)"
| passes: "os_passes OS (sv_world s) w \<Longrightarrow> server_step B OS s (s\<lparr>sv_world := w\<rparr>)"

section \<open>What the operating system promises\<close>

text \<open>For the descriptors in \<open>S\<close> nothing was sent or received.\<close>

definition undisturbed :: "(nat \<Rightarrow> 'w \<Rightarrow> bytes) \<Rightarrow> (nat \<Rightarrow> 'w \<Rightarrow> bytes) \<Rightarrow> nat set \<Rightarrow> 'w \<Rightarrow> 'w \<Rightarrow> bool" where
  "undisturbed inp out S w w' \<longleftrightarrow> (\<forall>s \<in> S. inp s w' = inp s w \<and> out s w' = out s w)"

text \<open>\<open>used\<close> are the descriptors in use, \<open>inp s\<close> the bytes that the peer of \<open>s\<close> is still to deliver, \<open>out s\<close> those sent
  to it. Sockets are streams and do not influence each other; \<^verbatim>\<open>accept\<close> returns a descriptor that is not in use, for a
  connection on which nothing was sent; \<^verbatim>\<open>close\<close> ends the use of a descriptor.\<close>

definition sockets_ok ::
    "'w system \<Rightarrow> ('w \<Rightarrow> nat set) \<Rightarrow> (nat \<Rightarrow> 'w \<Rightarrow> bytes) \<Rightarrow> (nat \<Rightarrow> 'w \<Rightarrow> bytes) \<Rightarrow> bool" where
  "sockets_ok OS used inp out \<longleftrightarrow>
     (\<forall>s. duplex (os_host OS s) (inp s) (out s) \<and> clock_ok (os_host OS s)) \<and>
     (\<forall>s buf w. used (snd (h_send (os_host OS s) buf w)) = used w \<and>
        undisturbed inp out (- {s}) w (snd (h_send (os_host OS s) buf w))) \<and>
     (\<forall>s n w. used (snd (h_recv (os_host OS s) n w)) = used w \<and>
        undisturbed inp out (- {s}) w (snd (h_recv (os_host OS s) n w))) \<and>
     (\<forall>w sock w'. os_accept OS w = (Some sock, w') \<longrightarrow> sock \<notin> used w \<and> used w' = insert sock (used w) \<and>
        out sock w' = [] \<and> length (inp sock w') < 2 ^ 63 \<and> undisturbed inp out (used w) w w') \<and>
     (\<forall>w w'. os_accept OS w = (None, w') \<longrightarrow> used w' = used w \<and> undisturbed inp out (used w) w w') \<and>
     (\<forall>s w. used (os_close OS s w) = used w - {s} \<and> undisturbed inp out (used w - {s}) w (os_close OS s w)) \<and>
     (\<forall>w w'. os_passes OS w w' \<longrightarrow> used w' = used w \<and> undisturbed inp out (used w) w w')"

lemma sockets_okD:
  assumes "sockets_ok OS used inp out"
  shows "duplex (os_host OS s) (inp s) (out s)" "clock_ok (os_host OS s)"
    "used (snd (h_send (os_host OS s) buf w)) = used w" "undisturbed inp out (- {s}) w (snd (h_send (os_host OS s) buf w))"
    "used (snd (h_recv (os_host OS s) n w)) = used w" "undisturbed inp out (- {s}) w (snd (h_recv (os_host OS s) n w))"
    "os_accept OS w = (Some sock, w') \<Longrightarrow> sock \<notin> used w \<and> used w' = insert sock (used w) \<and> out sock w' = [] \<and>
       length (inp sock w') < 2 ^ 63 \<and> undisturbed inp out (used w) w w'"
    "os_accept OS w = (None, w') \<Longrightarrow> used w' = used w \<and> undisturbed inp out (used w) w w'"
    "used (os_close OS s w) = used w - {s}" "undisturbed inp out (used w - {s}) w (os_close OS s w)"
    "os_passes OS w w' \<Longrightarrow> used w' = used w \<and> undisturbed inp out (used w) w w'"
  using assms by (simp_all add: sockets_ok_def)

section \<open>One thread\<close>

text \<open>A running thread has received a front part of its client's bytes, and has sent the answers to the packets in it.\<close>

definition thread_inv :: "build \<Rightarrow> 'w system \<Rightarrow> (nat \<Rightarrow> 'w \<Rightarrow> bytes) \<Rightarrow> (nat \<Rightarrow> 'w \<Rightarrow> bytes) \<Rightarrow> 'w \<Rightarrow> 'w thread \<Rightarrow> bool" where
  "thread_inv B OS inp out w t \<longleftrightarrow> (\<exists>received ms.
     inp (t_sock t) (t_accepted t) = received @ inp (t_sock t) w \<and>
     frames (DefaultPacketHeaderPolicy B) MAX_BODY_LENGTH received = (ms, Some (pending (c_parser (t_conn t)))) \<and>
     (c_alive (t_conn t) \<longrightarrow> run_state B (inp (t_sock t)) ((t_conn t)\<lparr>c_world := w\<rparr>)) \<and>
     (accepts (h_send (os_host OS (t_sock t))) \<longrightarrow> (\<exists>rs. served B ms rs (c_alive (t_conn t)) \<and>
        out (t_sock t) w = concat (map (packet_bytes (DefaultPacketHeaderPolicy B)) rs))))"

lemma thread_inv_stable:
  assumes "thread_inv B OS inp out w t" "undisturbed inp out S w w'" "t_sock t \<in> S"
  shows "thread_inv B OS inp out w' t"
proof -
  have "inp (t_sock t) w' = inp (t_sock t) w" "out (t_sock t) w' = out (t_sock t) w"
    using assms(2,3) by (simp_all add: undisturbed_def)
  with assms(1) show ?thesis by (simp add: thread_inv_def run_state_def conn_ok_def)
qed

lemma thread_inv_accepted:
  assumes "length (inp sock w) < 2 ^ 63" "out sock w = []"
  shows "thread_inv B OS inp out w \<lparr>t_sock = sock, t_id = i, t_accepted = w, t_conn = make_connection w, t_open = True\<rparr>"
proof -
  have "frames (DefaultPacketHeaderPolicy B) MAX_BODY_LENGTH [] = ([], Some (pending (c_parser (make_connection w))))"
    using default_policy.settled_start [of B MAX_BODY_LENGTH] by (simp add: settled_def make_connection_def pending_def make_parser_def)
  moreover have "(make_connection w)\<lparr>c_world := w\<rparr> = make_connection w" by (simp add: make_connection_def)
  ultimately show ?thesis
    using assms run_state_start [of "inp sock" w B] by (auto simp: thread_inv_def make_connection_def intro!: exI [of _ "[]"])
qed

text \<open>A round reaches the world only through its own descriptor.\<close>

lemma round_world:
  assumes "sockets_ok OS used inp out" "h_recv (os_host OS s) n w = (chunk, w1)" "by_sends (os_host OS s) w1 w2"
  shows "used w2 = used w" "undisturbed inp out (- {s}) w w2"
proof -
  have "used w1 = used w" "undisturbed inp out (- {s}) w w1"
    using sockets_okD(5,6) [OF assms(1), where s = s and n = n and w = w] assms(2) by simp_all
  moreover have "used w2 = used w1" by (rule by_sends_keeps [OF assms(3)]) (rule sockets_okD(3) [OF assms(1)])
  moreover have "inp s' w2 = inp s' w1 \<and> out s' w2 = out s' w1" if "s' \<noteq> s" for s'
    using by_sends_keeps [OF assms(3), where f = "inp s'"] by_sends_keeps [OF assms(3), where f = "out s'"]
      sockets_okD(4) [OF assms(1)] that by (simp add: undisturbed_def)
  ultimately show "used w2 = used w" "undisturbed inp out (- {s}) w w2" by (simp_all add: undisturbed_def)
qed

text \<open>What the last round of a thread leaves behind.\<close>

definition all_answered :: "build \<Rightarrow> (nat \<Rightarrow> 'w \<Rightarrow> bytes) \<Rightarrow> (nat \<Rightarrow> 'w \<Rightarrow> bytes) \<Rightarrow> 'w thread \<Rightarrow> 'w \<Rightarrow> bool" where
  "all_answered B inp out t w \<longleftrightarrow> (\<forall>ms r. frames (DefaultPacketHeaderPolicy B) MAX_BODY_LENGTH (inp (t_sock t) (t_accepted t)) = (ms, r) \<longrightarrow>
     (\<exists>rs alive. served B ms rs alive \<and> out (t_sock t) w = concat (map (packet_bytes (DefaultPacketHeaderPolicy B)) rs)))"

lemma round_chunk:
  assumes OS: "sockets_ok OS used inp out" and inv: "thread_inv B OS inp out w t" and alive: "c_alive (t_conn t)"
    and recv: "h_recv (os_host OS (t_sock t)) 4096 w = (chunk, w1)" "chunk \<noteq> []"
  shows "\<exists>go c. thread_runs B OS w t = Some (Ret go, c) \<and> used (c_world c) = used w \<and> undisturbed inp out (- {t_sock t}) w (c_world c) \<and>
    (if go then thread_inv B OS inp out (c_world c) (t\<lparr>t_conn := c\<rparr>)
     else accepts (h_send (os_host OS (t_sock t))) \<longrightarrow> all_answered B inp out t (c_world c))"
proof -
  let ?P = "DefaultPacketHeaderPolicy B" and ?s = "t_sock t" let ?H = "os_host OS ?s" and ?c = "(t_conn t)\<lparr>c_world := w\<rparr>"
  note H = sockets_okD(2,1) [OF OS, where s = ?s]
  from inv obtain received ms where ms: "inp ?s (t_accepted t) = received @ inp ?s w"
      "frames ?P MAX_BODY_LENGTH received = (ms, Some (pending (c_parser (t_conn t))))" "run_state B (inp ?s) ?c"
      "accepts (h_send ?H) \<longrightarrow> (\<exists>rs. served B ms rs True \<and> out ?s w = concat (map (packet_bytes ?P) rs))"
    using alive by (auto simp: thread_inv_def)
  obtain qs r where f: "frames ?P MAX_BODY_LENGTH (pending (c_parser ?c) @ chunk) = (qs, r)" by fastforce
  from Feed_chunk [OF H ms(3) _ f] recv(1) obtain c1 p1 where c1:
      "Feed ?P chunk (on_packet B ?H) (?c\<lparr>c_world := w1\<rparr>) (c_parser ?c) = Some (Ret (r \<noteq> None), c1, p1)"
      "handled B ?H (inp ?s) (out ?s) qs (?c\<lparr>c_world := w1\<rparr>) c1" "pending p1 = kept r"
      "c_alive c1 \<longrightarrow> r \<noteq> None \<longrightarrow> run_state B (inp ?s) (c1\<lparr>c_parser := p1\<rparr>)" by auto
  have run: "thread_runs B OS w t = Some (Ret (r \<noteq> None), c1\<lparr>c_parser := p1\<rparr>)"
    using alive recv c1(1) by (simp add: thread_runs_def Run_round_def)
  have stream: "inp ?s w = chunk @ inp ?s w1" "out ?s w1 = out ?s w"
    using H(2) recv(1) by (auto simp: duplex_def receives_in_order_def) (metis snd_conv)
  have i: "inp ?s (c_world c1) = inp ?s w1" "by_sends ?H w1 (c_world c1)" using c1(2) by (simp_all add: handled_def)
  have answers: "\<exists>rs. served B (ms @ qs) rs (c_alive c1) \<and> out ?s (c_world c1) = concat (map (packet_bytes ?P) rs)"
    if "accepts (h_send ?H)"
  proof -
    from ms(4) that obtain rs where "served B ms rs True" "out ?s w = concat (map (packet_bytes ?P) rs)" by blast
    moreover from c1(2) that obtain rs' where "served B qs rs' (c_alive c1)" "emitted (out ?s) B rs' w1 (c_world c1)"
      by (auto simp: handled_def)
    ultimately show ?thesis using served_append [of B ms rs qs rs'] stream(2) by (auto simp: emitted_def intro!: exI [of _ "rs @ rs'"])
  qed
  have "if r \<noteq> None then thread_inv B OS inp out (c_world c1) (t\<lparr>t_conn := c1\<lparr>c_parser := p1\<rparr>\<rparr>)
     else accepts (h_send ?H) \<longrightarrow> all_answered B inp out t (c_world c1)"
  proof (cases r)
    case None
    with frames_append [OF ms(2), of chunk qs None] f have "frames ?P MAX_BODY_LENGTH (received @ chunk) = (ms @ qs, None)" by simp
    from frames_append_bad [OF this, of "inp ?s w1"] have "frames ?P MAX_BODY_LENGTH ((received @ chunk) @ inp ?s w1) = (ms @ qs, None)" .
    with None answers ms(1) stream(1) show ?thesis by (auto simp: all_answered_def)
  next
    case (Some rest)
    with frames_append [OF ms(2), of chunk qs r] f have "frames ?P MAX_BODY_LENGTH (received @ chunk) = (ms @ qs, Some (pending p1))"
      using c1(3) by (simp add: kept_def)
    moreover have "inp ?s (t_accepted t) = (received @ chunk) @ inp ?s (c_world c1)" using ms(1) stream(1) i(1) by simp
    moreover have "c_alive c1 \<longrightarrow> run_state B (inp ?s) (c1\<lparr>c_parser := p1, c_world := c_world c1\<rparr>)" using c1(4) Some by simp
    ultimately show ?thesis using Some answers unfolding thread_inv_def by (intro if_P [THEN iffD2]) auto
  qed
  with run round_world [OF OS recv(1) i(2)] show ?thesis by fastforce
qed

text \<open>The packets that a running thread has answered are the first ones of its client.\<close>

lemma answered_so_far:
  assumes "thread_inv B OS inp out w t" "accepts (h_send (os_host OS (t_sock t)))"
    "frames (DefaultPacketHeaderPolicy B) MAX_BODY_LENGTH (inp (t_sock t) (t_accepted t)) = (ms, r)"
  obtains ms1 ms2 rs where "ms = ms1 @ ms2" "served B ms1 rs (c_alive (t_conn t))"
    "out (t_sock t) w = concat (map (packet_bytes (DefaultPacketHeaderPolicy B)) rs)"
    "inp (t_sock t) w = [] \<Longrightarrow> c_alive (t_conn t) \<Longrightarrow> ms2 = []"
proof -
  let ?P = "DefaultPacketHeaderPolicy B" and ?s = "t_sock t" and ?p = "pending (c_parser (t_conn t))"
  from assms(1,2) obtain received ms1 rs where m: "inp ?s (t_accepted t) = received @ inp ?s w"
      "frames ?P MAX_BODY_LENGTH received = (ms1, Some ?p)" "served B ms1 rs (c_alive (t_conn t))"
      "out ?s w = concat (map (packet_bytes ?P) rs)"
    by (auto simp: thread_inv_def)
  obtain ms2 r2 where f: "frames ?P MAX_BODY_LENGTH (?p @ inp ?s w) = (ms2, r2)" by fastforce
  with frames_append [OF m(2)] m(1) assms(3) have "ms = ms1 @ ms2" by simp
  moreover have "ms2 = []" if "inp ?s w = []" using f that frames_rest [OF m(2)] by simp
  ultimately show ?thesis using that m(3,4) by blast
qed

lemma thread_round:
  assumes OS: "sockets_ok OS used inp out" and inv: "thread_inv B OS inp out w t"
  shows "\<exists>go c. thread_runs B OS w t = Some (Ret go, c) \<and> used (c_world c) = used w \<and> undisturbed inp out (- {t_sock t}) w (c_world c) \<and>
    (if go then thread_inv B OS inp out (c_world c) (t\<lparr>t_conn := c\<rparr>)
     else accepts (h_send (os_host OS (t_sock t))) \<longrightarrow> delivers (h_recv (os_host OS (t_sock t))) (inp (t_sock t)) \<longrightarrow>
       all_answered B inp out t (c_world c))"
proof -
  let ?s = "t_sock t" and ?c = "(t_conn t)\<lparr>c_world := w\<rparr>" let ?H = "os_host OS ?s"
  obtain chunk w1 where recv: "h_recv ?H 4096 w = (chunk, w1)" by force
  consider "\<not> c_alive (t_conn t)" | "c_alive (t_conn t)" "chunk = []" | "c_alive (t_conn t)" "chunk \<noteq> []" by blast
  then show ?thesis
  proof cases
    case 1
    have "all_answered B inp out t w" if a: "accepts (h_send ?H)"
      unfolding all_answered_def
    proof (intro allI impI)
      fix ms r assume "frames (DefaultPacketHeaderPolicy B) MAX_BODY_LENGTH (inp ?s (t_accepted t)) = (ms, r)"
      from answered_so_far [OF inv a this] 1 show "\<exists>rs alive. served B ms rs alive \<and>
          out ?s w = concat (map (packet_bytes (DefaultPacketHeaderPolicy B)) rs)" by (metis served_closed)
    qed
    moreover have "thread_runs B OS w t = Some (Ret False, ?c)" using 1 by (simp add: thread_runs_def Run_round_def)
    ultimately show ?thesis by (intro exI [of _ False] exI [of _ ?c]) (simp add: undisturbed_def)
  next
    case 2
    have out: "out ?s w1 = out ?s w" using sockets_okD(1) [OF OS, where s = ?s] recv unfolding duplex_def by (metis snd_conv)
    have "all_answered B inp out t w1" if a: "accepts (h_send ?H)" "delivers (h_recv ?H) (inp ?s)"
      unfolding all_answered_def
    proof (intro allI impI)
      fix ms r assume f: "frames (DefaultPacketHeaderPolicy B) MAX_BODY_LENGTH (inp ?s (t_accepted t)) = (ms, r)"
      have "inp ?s w = []" using a(2) recv 2 unfolding delivers_def by (metis fst_conv zero_less_numeral)
      with answered_so_far [OF inv a(1) f] 2 out show "\<exists>rs alive. served B ms rs alive \<and>
          out ?s w1 = concat (map (packet_bytes (DefaultPacketHeaderPolicy B)) rs)" by (metis append_Nil2)
    qed
    moreover have "thread_runs B OS w t = Some (Ret False, ?c\<lparr>c_world := w1\<rparr>)"
      using 2 recv by (simp add: thread_runs_def Run_round_def)
    ultimately show ?thesis using round_world [OF OS recv by_sends_refl]
      by (intro exI [of _ False] exI [of _ "?c\<lparr>c_world := w1\<rparr>"]) simp
  next
    case 3
    from round_chunk [OF OS inv this(1) recv this(2)] show ?thesis by (metis (full_types))
  qed
qed

section \<open>The invariant of the server\<close>

definition server_inv :: "build \<Rightarrow> 'w system \<Rightarrow> ('w \<Rightarrow> nat set) \<Rightarrow> (nat \<Rightarrow> 'w \<Rightarrow> bytes) \<Rightarrow> (nat \<Rightarrow> 'w \<Rightarrow> bytes) \<Rightarrow> 'w server \<Rightarrow> bool" where
  "server_inv B OS used inp out s \<longleftrightarrow>
     (\<forall>t \<in> set (sv_threads s). t_open t \<longrightarrow> thread_inv B OS inp out (sv_world s) t) \<and>
     distinct (open_socks s) \<and> set (open_socks s) \<subseteq> used (sv_world s) \<and>
     map t_id (sv_threads s) = map word_of_nat [1 ..< Suc (length (sv_threads s))] \<and>
     sv_nextId s = word_of_nat (length (sv_threads s))"

lemma server_inv_init: "server_inv B OS used inp out (server_init w)"
  by (simp add: server_inv_def server_init_def open_socks_def)

text \<open>A change of the world that the running threads do not notice.\<close>

lemma server_inv_world:
  assumes "server_inv B OS used inp out s" "undisturbed inp out (used (sv_world s)) (sv_world s) w" "used w = used (sv_world s)"
  shows "server_inv B OS used inp out (s\<lparr>sv_accepting := a, sv_world := w\<rparr>)"
proof -
  have "t_sock t \<in> used (sv_world s)" if "t \<in> set (sv_threads s)" "t_open t" for t
    using assms(1) that by (auto simp: server_inv_def open_socks_def)
  with assms show ?thesis by (auto simp: server_inv_def open_socks_def intro: thread_inv_stable)
qed

text \<open>A step of one thread: the descriptors of the others are different from its own.\<close>

lemma other_socks:
  assumes "distinct (map t_sock (filter t_open ts))" "i < length ts" "t_open (ts ! i)" "j < length ts" "j \<noteq> i" "t_open (ts ! j)"
  shows "t_sock (ts ! j) \<noteq> t_sock (ts ! i)"
proof -
  let ?a = "take i ts" and ?b = "drop (Suc i) ts"
  have ts: "ts = ?a @ ts ! i # ?b" using assms(2) by (rule id_take_nth_drop)
  have "distinct (map t_sock (filter t_open (?a @ ts ! i # ?b)))" using assms(1) ts by simp
  then have d: "t_sock (ts ! i) \<notin> set (map t_sock (filter t_open ?a))" "t_sock (ts ! i) \<notin> set (map t_sock (filter t_open ?b))"
    using assms(3) by simp_all
  have "ts ! j \<in> set ?a \<or> ts ! j \<in> set ?b"
  proof (cases "j < i")
    case True
    then have "?a ! j = ts ! j" "j < length ?a" using assms(2) by simp_all
    then show ?thesis by (metis nth_mem)
  next
    case False
    then have "?b ! (j - Suc i) = ts ! j" "j - Suc i < length ?b" using assms(2,4,5) by simp_all
    then show ?thesis by (metis nth_mem)
  qed
  then have "t_sock (ts ! j) \<in> set (map t_sock (filter t_open ?a)) \<or> t_sock (ts ! j) \<in> set (map t_sock (filter t_open ?b))"
    using assms(6) by auto
  with d show ?thesis by metis
qed

lemma open_socks_update:
  assumes "i < length ts" "t_sock t' = t_sock (ts ! i)" "t_open t' \<longrightarrow> t_open (ts ! i)" "distinct (map t_sock (filter t_open ts))"
  shows "distinct (map t_sock (filter t_open (ts[i := t'])))"
proof -
  have ts: "ts = take i ts @ ts ! i # drop (Suc i) ts" using assms(1) by (rule id_take_nth_drop)
  have "distinct (map t_sock (filter t_open (take i ts @ ts ! i # drop (Suc i) ts)))" using assms(4) ts by simp
  then show ?thesis using assms(1-3) by (simp add: upd_conv_take_nth_drop split: if_splits)
qed

lemma server_inv_update:
  assumes inv: "server_inv B OS used inp out s" and i: "i < length (sv_threads s)" "t_open (sv_threads s ! i)"
    and t': "t_sock t' = t_sock (sv_threads s ! i)" "t_id t' = t_id (sv_threads s ! i)"
      "t_open t' \<Longrightarrow> thread_inv B OS inp out w t' \<and> t_sock t' \<in> used w"
    and w: "undisturbed inp out (used (sv_world s) - {t_sock (sv_threads s ! i)}) (sv_world s) w"
      "used (sv_world s) - {t_sock (sv_threads s ! i)} \<subseteq> used w"
  shows "server_inv B OS used inp out (s\<lparr>sv_threads := (sv_threads s)[i := t'], sv_world := w\<rparr>)"
proof -
  let ?ts = "sv_threads s" let ?us = "?ts[i := t']"
  have d: "distinct (map t_sock (filter t_open ?ts))" using inv by (simp add: server_inv_def open_socks_def)
  have own: "thread_inv B OS inp out w u \<and> t_sock u \<in> used w" if u: "u \<in> set ?us" "t_open u" for u
  proof -
    from u(1) obtain j where j: "j < length ?ts" "u = ?us ! j" by (auto simp: in_set_conv_nth)
    show ?thesis
    proof (cases "j = i")
      case False
      then have uj: "u = ?ts ! j" using j by simp
      then have "t_sock u \<noteq> t_sock (?ts ! i)" using other_socks [OF d i] j(1) False u(2) by simp
      moreover have "thread_inv B OS inp out (sv_world s) u" "t_sock u \<in> used (sv_world s)"
        using inv uj j(1) u(2) by (auto simp: server_inv_def open_socks_def)
      ultimately show ?thesis using w thread_inv_stable [OF _ w(1)] by auto
    qed (use j i(1) u(2) t'(3) in simp)
  qed
  have ids: "map t_id ?us = map t_id ?ts" using i t'(2) by (simp add: map_update) (metis list_update_id nth_map)
  have "set (map t_sock (filter t_open ?us)) \<subseteq> used w" using own by auto
  moreover have "distinct (map t_sock (filter t_open ?us))" by (rule open_socks_update [OF i(1) t'(1) _ d]) (use i in simp)
  ultimately show ?thesis using inv own ids by (simp add: server_inv_def open_socks_def)
qed

lemma server_inv_step:
  assumes "server_step B OS s s'" "server_inv B OS used inp out s" "sockets_ok OS used inp out"
  shows "server_inv B OS used inp out s'"
  using assms(1,2)
proof induction
  case (accepted s sock w)
  note a = sockets_okD(7) [OF assms(3) accepted(2)]
  let ?t = "\<lparr>t_sock = sock, t_id = sv_nextId s + 1, t_accepted = w, t_conn = make_connection w, t_open = True\<rparr>"
  have "thread_inv B OS inp out w ?t" using a by (intro thread_inv_accepted) simp_all
  moreover have "thread_inv B OS inp out w t \<and> t_sock t \<in> used (sv_world s)" if "t \<in> set (sv_threads s)" "t_open t" for t
  proof -
    have "thread_inv B OS inp out (sv_world s) t" "t_sock t \<in> used (sv_world s)"
      using accepted(3) that by (auto simp: server_inv_def open_socks_def)
    with a show ?thesis by (auto intro: thread_inv_stable [of B OS inp out "sv_world s"])
  qed
  ultimately show ?case using accepted(3) a
    by (auto simp: server_inv_def accept_client_def open_socks_def)
next
  case (accept_failed s w)
  from server_inv_world [OF accept_failed(3), of w False] sockets_okD(8) [OF assms(3) accept_failed(2)] show ?case by simp
next
  case (passes s w)
  from server_inv_world [OF passes(2), of w "sv_accepting s"] sockets_okD(11) [OF assms(3) passes(1)] show ?case by simp
next
  case (continues i s t c)
  have inv: "thread_inv B OS inp out (sv_world s) t" "t_sock t \<in> used (sv_world s)"
    using continues by (auto simp: server_inv_def open_socks_def)
  from thread_round [OF assms(3) inv(1)] continues(4) have "used (c_world c) = used (sv_world s)"
    "undisturbed inp out (- {t_sock t}) (sv_world s) (c_world c)" "thread_inv B OS inp out (c_world c) (t\<lparr>t_conn := c\<rparr>)" by auto
  with continues inv(2) show ?case by (intro server_inv_update) (auto simp: undisturbed_def)
next
  case (ends i s t c)
  have "thread_inv B OS inp out (sv_world s) t" using ends by (auto simp: server_inv_def)
  from thread_round [OF assms(3) this] ends(4) have "used (c_world c) = used (sv_world s)"
    "undisturbed inp out (- {t_sock t}) (sv_world s) (c_world c)" by auto
  with ends sockets_okD(9,10) [OF assms(3), where s = "t_sock t" and w = "c_world c"] show ?case
    by (intro server_inv_update) (auto simp: undisturbed_def)
qed

lemma server_inv_reachable:
  "(server_step B OS)\<^sup>*\<^sup>* (server_init w) s \<Longrightarrow> sockets_ok OS used inp out \<Longrightarrow> server_inv B OS used inp out s"
  by (induction rule: rtranclp_induct) (auto intro: server_inv_init server_inv_step)

text \<open>Connection numbers repeat only after \<open>2 ^ 32\<close> clients.\<close>

lemma connection_ids_distinct:
  assumes "server_inv B OS used inp out s" "length (sv_threads s) < 2 ^ 32"
  shows "distinct (map t_id (sv_threads s))"
proof -
  have "inj_on (word_of_nat :: nat \<Rightarrow> u32) {1 ..< Suc (length (sv_threads s))}"
    using assms(2) by (auto intro!: inj_onI dest!: arg_cong [where f = unat] simp: unat_of_nat take_bit_nat_eq_self)
  then show ?thesis using assms(1) by (simp add: server_inv_def distinct_map del: upt_Suc)
qed

end
