(* ===== verification/Macros.thy ===== *)
theory Macros
  imports Formatters
begin

text \<open>
  The preprocessor part of the struct macros (\<^verbatim>\<open>core.hpp\<close>): counting the arguments and applying a macro to each of
  them. An argument of a macro call is an identifier or a number; the text of an expansion is a list of pieces.

  \<open>NARG_counts\<close> and \<open>FOREACH_expands\<close> say that for 1 to 32 members the count is right and every member is expanded
  once, in order, which is what \<open>MEMORYPACK_DEFINE\<close> assumes of its list of members; with more members the
  program does not compile (\<open>FOREACH_too_many\<close>).
\<close>

text \<open>An empty argument list is one empty argument.\<close>

datatype 'a token = Identifier 'a | Number nat | Placemarker

definition tokens :: "'a list \<Rightarrow> 'a token list" where
  "tokens args = (if args = [] then [Placemarker] else map Identifier args)"

definition RSEQ :: "'a token list" where
  "RSEQ = map Number [32, 31, 30, 29, 28, 27, 26, 25, 24, 23, 22, 21, 20, 19, 18, 17,
     16, 15, 14, 13, 12, 11, 10, 9, 8, 7, 6, 5, 4, 3, 2, 1, 0]"

text \<open>\<open>MEMORYPACK_PP_ARG_N(_1, ..., _32, N, ...)\<close> is its argument after the first 32; a call with fewer
  arguments is ill-formed.\<close>

definition ARG_N :: "'a token list \<Rightarrow> 'a token option" where
  "ARG_N args = (if length args > 32 then Some (args ! 32) else None)"

definition NARG :: "'a list \<Rightarrow> 'a token option" where
  "NARG args = ARG_N (tokens args @ RSEQ)"

text \<open>\<^verbatim>\<open>MEMORYPACK_PP_FE_n\<close>, which exists for \<open>n\<close> from 1 to 32: the macro is applied to the first argument, the rest
  goes to the previous one. \<open>None\<close> stands for an unknown macro or for arguments that do not match.\<close>

fun FE :: "nat \<Rightarrow> ('a \<Rightarrow> 'b list) \<Rightarrow> 'a list \<Rightarrow> 'b list option" where
  "FE 0 m args = None"
| "FE (Suc 0) m args = (case args of [x] \<Rightarrow> Some (m x) | _ \<Rightarrow> None)"
| "FE (Suc n) m args = (if Suc n > 32 then None
     else case args of x # rest \<Rightarrow> map_option (\<lambda>out. m x @ out) (FE n m rest) | [] \<Rightarrow> None)"

text \<open>The name of the macro is pasted from the count: pasting an identifier gives the name of no macro.\<close>

definition FOREACH :: "('a \<Rightarrow> 'b list) \<Rightarrow> 'a list \<Rightarrow> 'b list option" where
  "FOREACH m args = (case NARG args of Some (Number n) \<Rightarrow> FE n m args | _ \<Rightarrow> None)"

lemma length_RSEQ [simp]: "length RSEQ = 33"
  by (simp add: RSEQ_def)

lemma RSEQ_nth:
  assumes "i \<le> 32"
  shows "(RSEQ :: 'a token list) ! i = Number (32 - i)"
proof -
  have "(RSEQ :: 'a token list) = map (\<lambda>i. Number (32 - i)) [0 ..< 33]" by (simp add: RSEQ_def upt_rec)
  then have "(RSEQ :: 'a token list) ! i = map (\<lambda>i. Number (32 - i)) [0 ..< 33] ! i" by (rule arg_cong)
  also have "\<dots> = Number (32 - i)" using assms by (subst nth_map_upt) simp_all
  finally show ?thesis .
qed

lemma NARG_counts: "args \<noteq> [] \<Longrightarrow> length args \<le> 32 \<Longrightarrow> NARG args = Some (Number (length args))"
  by (simp add: NARG_def ARG_N_def tokens_def nth_append RSEQ_nth)

text \<open>This is why a type without members needs a macro of its own.\<close>

lemma NARG_empty: "NARG [] = Some (Number 1)"
  by (simp add: NARG_def ARG_N_def tokens_def nth_append RSEQ_nth)

lemma NARG_too_many: "length args > 32 \<Longrightarrow> NARG args = Some (Identifier (args ! 32))"
  by (cases "args = []") (simp_all add: NARG_def ARG_N_def tokens_def nth_append)

lemma FE_expands: "args \<noteq> [] \<Longrightarrow> length args \<le> 32 \<Longrightarrow> FE (length args) m args = Some (concat (map m args))"
proof (induction args rule: list_nonempty_induct)
  case (cons x xs)
  then show ?case by (cases xs) simp_all
qed simp

lemma FOREACH_expands:
  "args \<noteq> [] \<Longrightarrow> length args \<le> 32 \<Longrightarrow> FOREACH m args = Some (concat (map m args))"
  by (simp add: FOREACH_def NARG_counts FE_expands)

lemma FOREACH_too_many: "length args > 32 \<Longrightarrow> FOREACH m args = None"
  by (simp add: FOREACH_def NARG_too_many)

section \<open>The macros of the library\<close>

text \<open>\<open>MEMORYPACK_DEFINE(Type, ...)\<close> on the members as they are written: the count for the object header, one
  call of \<^verbatim>\<open>Write\<close> and one guarded call of \<^verbatim>\<open>Read\<close> per member. \<open>None\<close> is a program that does not compile.\<close>

definition DEFINE_expansion :: "'s \<Rightarrow> 's member list \<Rightarrow> 's MemoryPackFormatter option" where
  "DEFINE_expansion init args = (case (NARG args, FOREACH (\<lambda>m. [m]) args) of
     (Some (Number n), Some ms) \<Rightarrow> Some \<lparr>is_arithmetic = False, is_enum = False, is_string = False, size_of = 1, value_init = init,
       formatter_Serialize = (\<lambda>B v. seq (WriteObjectHeader B (word_of_nat n)) (for_each (\<lambda>m. write_member m B v) ms)),
       formatter_Deserialize = (\<lambda>B v. IMemoryPackable_Deserialize B init ms v)\<rparr>
   | _ \<Rightarrow> None)"

lemma DEFINE_expands:
  assumes "ms \<noteq> []" "length ms \<le> 32"
  shows "DEFINE_expansion init ms = Some (MEMORYPACK_DEFINE init ms)"
  using assms FOREACH_expands [OF assms, of "\<lambda>m. [m]"]
  by (simp add: DEFINE_expansion_def NARG_counts MEMORYPACK_DEFINE_def IMemoryPackable_Serialize_def concat_map_singleton fun_eq_iff)

lemma DEFINE_too_many: "length ms > 32 \<Longrightarrow> DEFINE_expansion init ms = None"
  by (simp add: DEFINE_expansion_def NARG_too_many)

end
