(* ===== verification/Benchmarks.thy ===== *)
theory Benchmarks
  imports Examples Framing GeneratedTypes
begin

text \<open>
  The benchmark suite (\<^verbatim>\<open>benchmarks/memorypack_bench.cpp\<close>). The benchmark library is a parameter: it decides the
  number \<open>n\<close> of iterations of a loop \<^verbatim>\<open>for (auto _ : state)\<close>. A benchmark returns what its iterations make observable
  with \<^verbatim>\<open>DoNotOptimize\<close> and \<^verbatim>\<open>ClobberMemory\<close>, and the throughput that it reports; times are not modelled, nor are the calls
  of \<^verbatim>\<open>reserve\<close> on vectors, which leave their contents alone.

  The lemmas say that every benchmark does the work it is meant to measure, in every iteration: all buffer modes hold
  the same bytes, every decoding gives the value that was encoded, also in place and through string views, and the
  parser of the framing benchmark, reused all the time, delivers every frame.
\<close>

section \<open>Payload types\<close>

record BenchPlayerState =
  bps_id :: u32
  bps_x :: u32
  bps_y :: u32
  bps_z :: u32
  bps_name :: bytes

record BenchChatMessage =
  bcm_timestamp :: u64
  bcm_sender :: bytes
  bcm_body :: bytes

record BenchItem =
  bit_id :: u32
  bit_name :: bytes
  bit_count :: u32

record BenchItemList =
  bil_items :: "BenchItem list"

record Vec3Generic =
  v3g_x :: u32
  v3g_y :: u32
  v3g_z :: u32

definition BenchPlayerState_members :: "BenchPlayerState member list" where
  "BenchPlayerState_members = [member uint32_formatter bps_id (\<lambda>x. bps_id_update (\<lambda>_. x)),
     member float_formatter bps_x (\<lambda>x. bps_x_update (\<lambda>_. x)),
     member float_formatter bps_y (\<lambda>x. bps_y_update (\<lambda>_. x)),
     member float_formatter bps_z (\<lambda>x. bps_z_update (\<lambda>_. x)),
     member string_formatter bps_name (\<lambda>x. bps_name_update (\<lambda>_. x))]"

definition BenchChatMessage_members :: "BenchChatMessage member list" where
  "BenchChatMessage_members = [member uint64_formatter bcm_timestamp (\<lambda>x. bcm_timestamp_update (\<lambda>_. x)),
     member string_formatter bcm_sender (\<lambda>x. bcm_sender_update (\<lambda>_. x)),
     member string_formatter bcm_body (\<lambda>x. bcm_body_update (\<lambda>_. x))]"

definition BenchItem_members :: "BenchItem member list" where
  "BenchItem_members = [member uint32_formatter bit_id (\<lambda>x. bit_id_update (\<lambda>_. x)),
     member string_formatter bit_name (\<lambda>x. bit_name_update (\<lambda>_. x)),
     member uint32_formatter bit_count (\<lambda>x. bit_count_update (\<lambda>_. x))]"

definition Vec3Generic_members :: "Vec3Generic member list" where
  "Vec3Generic_members = [member float_formatter v3g_x (\<lambda>x. v3g_x_update (\<lambda>_. x)),
     member float_formatter v3g_y (\<lambda>x. v3g_y_update (\<lambda>_. x)),
     member float_formatter v3g_z (\<lambda>x. v3g_z_update (\<lambda>_. x))]"

definition BenchPlayerState_init :: BenchPlayerState where
  "BenchPlayerState_init = \<lparr>bps_id = 0, bps_x = 0, bps_y = 0, bps_z = 0, bps_name = []\<rparr>"

definition BenchChatMessage_init :: BenchChatMessage where
  "BenchChatMessage_init = \<lparr>bcm_timestamp = 0, bcm_sender = [], bcm_body = []\<rparr>"

definition BenchItem_init :: BenchItem where
  "BenchItem_init = \<lparr>bit_id = 0, bit_name = [], bit_count = 0\<rparr>"

definition BenchItemList_init :: BenchItemList where
  "BenchItemList_init = \<lparr>bil_items = []\<rparr>"

definition Vec3Generic_init :: Vec3Generic where
  "Vec3Generic_init = \<lparr>v3g_x = 0, v3g_y = 0, v3g_z = 0\<rparr>"

definition BenchPlayerState_formatter :: "BenchPlayerState MemoryPackFormatter" where
  "BenchPlayerState_formatter = MEMORYPACK_DEFINE BenchPlayerState_init BenchPlayerState_members"

definition BenchChatMessage_formatter :: "BenchChatMessage MemoryPackFormatter" where
  "BenchChatMessage_formatter = MEMORYPACK_DEFINE BenchChatMessage_init BenchChatMessage_members"

definition BenchItem_formatter :: "BenchItem MemoryPackFormatter" where
  "BenchItem_formatter = MEMORYPACK_DEFINE BenchItem_init BenchItem_members"

definition BenchItemList_members :: "BenchItemList member list" where
  "BenchItemList_members = [member (vector_formatter BenchItem_formatter) bil_items (\<lambda>x. bil_items_update (\<lambda>_. x))]"

definition BenchItemList_formatter :: "BenchItemList MemoryPackFormatter" where
  "BenchItemList_formatter = MEMORYPACK_DEFINE BenchItemList_init BenchItemList_members"

definition Vec3Generic_formatter :: "Vec3Generic MemoryPackFormatter" where
  "Vec3Generic_formatter = MEMORYPACK_DEFINE Vec3Generic_init Vec3Generic_members"

text \<open>A \<^verbatim>\<open>Vec3\<close> and a \<^verbatim>\<open>Vec3Scrubbed\<close> are their object representations.\<close>

definition BenchVec3_formatter :: "bytes MemoryPackFormatter" where
  "BenchVec3_formatter = MEMORYPACK_UNMANAGED 12"

definition Vec3Scrubbed_formatter :: "bytes MemoryPackFormatter" where
  "Vec3Scrubbed_formatter = MEMORYPACK_UNMANAGED_SCRUBBED 12 [(0, 4), (4, 4), (8, 4)]"

section \<open>Sample data\<close>

definition kFixedBufferSize :: size_t where "kFixedBufferSize = 256"

definition kItemCount :: nat where "kItemCount = 100"

definition kVec3Count :: nat where "kVec3Count = 4096"

definition kPlayerStatePacketId :: u16 where "kPlayerStatePacketId = 1001"

definition MakePlayerState :: BenchPlayerState where
  "MakePlayerState = \<lparr>bps_id = 42, bps_x = 0x3FC00000, bps_y = 0xC0100000, bps_z = 0x42C98000,
     bps_name = bytes_of_string ''Player1''\<rparr>"

definition MakeChatMessage :: BenchChatMessage where
  "MakeChatMessage = \<lparr>bcm_timestamp = 1700000000000, bcm_sender = bytes_of_string ''player_1234'',
     bcm_body = bytes_of_string ''Heading to the north gate now, bring potions and a spare key.''\<rparr>"

definition MakeIntVector :: "nat \<Rightarrow> u32 list" where
  "MakeIntVector k = map word_of_nat [0 ..< k]"

definition MakeItemList :: "nat \<Rightarrow> BenchItemList" where
  "MakeItemList k = \<lparr>bil_items = map (\<lambda>i. \<lparr>bit_id = word_of_nat i, bit_name = bytes_of_string (''item_'' @ to_string i),
     bit_count = word_of_nat (i mod 7 + 1)\<rparr>) [0 ..< k]\<rparr>"

text \<open>The products are exact: the integers below \<open>2 ^ 24\<close> are \<^verbatim>\<open>float\<close>s.\<close>

definition MakeVec3s :: "(u32 \<Rightarrow> u32 \<Rightarrow> u32 \<Rightarrow> 'v) \<Rightarrow> nat \<Rightarrow> 'v list" where
  "MakeVec3s T k = map (\<lambda>i. T (float_of_nat i) (float_of_nat (i * 2)) (float_of_nat (i * 3))) [0 ..< k]"

section \<open>The loop and its report\<close>

record throughput =
  bytes_processed :: u64
  payload_bytes :: nat

text \<open>A product of \<^verbatim>\<open>int64_t\<close> that overflows is undefined.\<close>

definition SetThroughput :: "nat \<Rightarrow> size_t \<Rightarrow> throughput outcome" where
  "SetThroughput iterations payloadBytes =
     (if iterations * payloadBytes < 2 ^ 63
      then Ret \<lparr>bytes_processed = word_of_nat (iterations * payloadBytes), payload_bytes = payloadBytes\<rparr> else UB)"

type_synonym ('s, 'x) bench = "('s, 'x list \<times> throughput) op"

text \<open>\<open>for (auto _ : state) { ... }\<close>: an iteration gives its observation and the local objects for the next one.\<close>

primrec bench_loop :: "nat \<Rightarrow> ('l \<Rightarrow> ('s, 'x \<times> 'l) op) \<Rightarrow> 'l \<Rightarrow> ('s, 'x list) op" where
  "bench_loop 0 body l = return []"
| "bench_loop (Suc n) body l = bind (body l) (\<lambda>(x, l). bind (bench_loop n body l) (\<lambda>xs. return (x # xs)))"

definition bench_report :: "nat \<Rightarrow> size_t \<Rightarrow> 'x list \<Rightarrow> ('s, 'x) bench" where
  "bench_report n payloadSize xs = bind (lift (SetThroughput n payloadSize)) (\<lambda>t. return (xs, t))"

section \<open>The benchmarks\<close>

text \<open>Fresh vectors.\<close>

definition serialize_fresh :: "build \<Rightarrow> 'a MemoryPackFormatter \<Rightarrow> 'a \<Rightarrow> nat \<Rightarrow> ('s, bytes) bench" where
  "serialize_fresh B T value n =
     bind (lift (Serialize B T value)) (\<lambda>payload.
     bind (bench_loop n (\<lambda>l. bind (lift (Serialize B T value)) (\<lambda>bytes. return (bytes, l))) ()) (bench_report n (length payload)))"

definition BM_Serialize_SmallPacket :: "build \<Rightarrow> nat \<Rightarrow> ('s, bytes) bench" where
  "BM_Serialize_SmallPacket B n = serialize_fresh B BenchPlayerState_formatter MakePlayerState n"

definition BM_Serialize_OwnedBuffer :: "build \<Rightarrow> nat \<Rightarrow> ('s, bytes) bench" where
  "BM_Serialize_OwnedBuffer B n = serialize_fresh B BenchPlayerState_formatter MakePlayerState n"

text \<open>\<open>T out{}; memorypack::Deserialize(bytes.data(), bytes.size(), out);\<close>\<close>

definition deserialize_fresh :: "build \<Rightarrow> 'a MemoryPackFormatter \<Rightarrow> 'a \<Rightarrow> 'a \<Rightarrow> nat \<Rightarrow> ('s, 'a) bench" where
  "deserialize_fresh B T init value n =
     bind (lift (Serialize B T value)) (\<lambda>bytes.
     bind (bench_loop n (\<lambda>l. bind (lift (Deserialize_into B T bytes init)) (\<lambda>out. return (out, l))) ()) (bench_report n (length bytes)))"

definition BM_Deserialize_SmallPacket :: "build \<Rightarrow> nat \<Rightarrow> ('s, BenchPlayerState) bench" where
  "BM_Deserialize_SmallPacket B n = deserialize_fresh B BenchPlayerState_formatter BenchPlayerState_init MakePlayerState n"

definition BM_Deserialize_ChatMessage :: "build \<Rightarrow> nat \<Rightarrow> ('s, BenchChatMessage) bench" where
  "BM_Deserialize_ChatMessage B n = deserialize_fresh B BenchChatMessage_formatter BenchChatMessage_init MakeChatMessage n"

definition BM_Deserialize_ItemList :: "build \<Rightarrow> nat \<Rightarrow> ('s, BenchItemList) bench" where
  "BM_Deserialize_ItemList B n = deserialize_fresh B BenchItemList_formatter BenchItemList_init (MakeItemList kItemCount) n"

text \<open>One writer that is cleared for every message: the size and the written bytes.\<close>

definition reused_writer :: "unit wop \<Rightarrow> size_t \<Rightarrow> size_t \<Rightarrow> nat \<Rightarrow> ('s, (size_t \<times> bytes)) bench" where
  "reused_writer write capacity payloadSize n =
     bind (with_local (Reserve capacity) writer_default) (\<lambda>(_, writer).
     bind (bench_loop n (\<lambda>writer. bind (with_local (seq Clear write) writer) (\<lambda>(_, writer).
         return ((Size writer, GetSpan writer), writer))) writer) (bench_report n payloadSize))"

definition BM_Serialize_ReusedWriter :: "build \<Rightarrow> nat \<Rightarrow> ('s, (size_t \<times> bytes)) bench" where
  "BM_Serialize_ReusedWriter B n =
     bind (lift (Serialize B BenchPlayerState_formatter MakePlayerState)) (\<lambda>payload.
       reused_writer (Write B BenchPlayerState_formatter MakePlayerState) kFixedBufferSize (length payload) n)"

text \<open>A vector of the caller that is cleared for every message.\<close>

definition external_vector :: "build \<Rightarrow> 'a MemoryPackFormatter \<Rightarrow> 'a \<Rightarrow> nat \<Rightarrow> ('s, bytes) bench" where
  "external_vector B T value n =
     bind (lift (Serialize B T value)) (\<lambda>payload.
     bind (bench_loop n (\<lambda>buffer. case Serialize_append B T value [] of
         (res, buffer) \<Rightarrow> bind (lift res) (\<lambda>_. return (buffer, buffer))) []) (bench_report n (length payload)))"

definition BM_Serialize_ExternalVector :: "build \<Rightarrow> nat \<Rightarrow> ('s, bytes) bench" where
  "BM_Serialize_ExternalVector B n = external_vector B BenchPlayerState_formatter MakePlayerState n"

definition BM_Serialize_IntVector :: "build \<Rightarrow> nat \<Rightarrow> nat \<Rightarrow> ('s, bytes) bench" where
  "BM_Serialize_IntVector B arg n = external_vector B vector_formatter_arith (MakeIntVector arg) n"

definition BM_Serialize_ChatMessage :: "build \<Rightarrow> nat \<Rightarrow> ('s, bytes) bench" where
  "BM_Serialize_ChatMessage B n = external_vector B BenchChatMessage_formatter MakeChatMessage n"

definition BM_Serialize_ItemList :: "build \<Rightarrow> nat \<Rightarrow> ('s, bytes) bench" where
  "BM_Serialize_ItemList B n = external_vector B BenchItemList_formatter (MakeItemList kItemCount) n"

text \<open>A stack buffer: the returned size and the buffer.\<close>

definition BM_Serialize_FixedBuffer :: "build \<Rightarrow> nat \<Rightarrow> ('s, (size_t \<times> bytes)) bench" where
  "BM_Serialize_FixedBuffer B n =
     bind (lift (Serialize B BenchPlayerState_formatter MakePlayerState)) (\<lambda>payload.
     bind (bench_loop n (\<lambda>buffer. case SerializeTo B BenchPlayerState_formatter (Some buffer) MakePlayerState of
         (res, buffer) \<Rightarrow> bind (lift res) (\<lambda>written. return ((written, buffer), buffer)))
       (replicate kFixedBufferSize 0)) (bench_report n (length payload)))"

text \<open>\<open>std::memcpy\<close> of \<open>n\<close> bytes between two buffers.\<close>

definition memcpy :: "bytes \<Rightarrow> bytes \<Rightarrow> size_t \<Rightarrow> bytes outcome" where
  "memcpy destination source n =
     (if n \<le> length destination \<and> n \<le> length source then Ret (take n source @ drop n destination) else UB)"

definition BM_Memcpy_Baseline :: "build \<Rightarrow> nat \<Rightarrow> ('s, bytes) bench" where
  "BM_Memcpy_Baseline B n =
     bind (lift (Serialize B BenchPlayerState_formatter MakePlayerState)) (\<lambda>source.
     bind (bench_loop n (\<lambda>destination. bind (lift (memcpy destination source (length source)))
         (\<lambda>destination. return (destination, destination))) (replicate kFixedBufferSize 0)) (bench_report n (length source)))"

definition BM_Deserialize_IntVector :: "build \<Rightarrow> nat \<Rightarrow> nat \<Rightarrow> ('s, u32 list) bench" where
  "BM_Deserialize_IntVector B arg n =
     bind (lift (Serialize B vector_formatter_arith (MakeIntVector arg))) (\<lambda>bytes.
     bind (bench_loop n (\<lambda>l. bind (lift (Deserialize B vector_formatter_arith bytes)) (\<lambda>out. return (out, l))) ())
       (bench_report n (length bytes)))"

text \<open>A new reader on the same bytes in every iteration; the destination keeps its memory, not its contents.\<close>

definition read_in_place :: "'a rop \<Rightarrow> bytes \<Rightarrow> nat \<Rightarrow> ('s, 'a) bench" where
  "read_in_place read bytes n =
     bind (bench_loop n (\<lambda>l. bind (with_local read (make_reader bytes)) (\<lambda>(out, reader). return (out, l))) ())
       (bench_report n (length bytes))"

definition BM_Deserialize_IntVector_InPlace :: "build \<Rightarrow> nat \<Rightarrow> nat \<Rightarrow> ('s, u32 list) bench" where
  "BM_Deserialize_IntVector_InPlace B arg n =
     bind (lift (Serialize B vector_formatter_arith (MakeIntVector arg))) (\<lambda>bytes. read_in_place (ReadVector B) bytes n)"

definition read_views :: "build \<Rightarrow> (ObjectHeader \<times> u64 \<times> bytes option \<times> bytes option) rop" where
  "read_views B =
     bind (ReadObjectHeader B) (\<lambda>header.
     bind (ReadInt64 B) (\<lambda>timestamp.
     bind (ReadStringView B) (\<lambda>sender.
     bind (ReadStringView B) (\<lambda>body. return (header, timestamp, sender, body)))))"

definition BM_Deserialize_ChatMessage_StringView ::
    "build \<Rightarrow> nat \<Rightarrow> ('s, (ObjectHeader \<times> u64 \<times> bytes option \<times> bytes option)) bench" where
  "BM_Deserialize_ChatMessage_StringView B n =
     bind (lift (Serialize B BenchChatMessage_formatter MakeChatMessage)) (\<lambda>bytes. read_in_place (read_views B) bytes n)"

definition BM_Serialize_UnmanagedCollection :: "build \<Rightarrow> nat \<Rightarrow> ('s, (size_t \<times> bytes)) bench" where
  "BM_Serialize_UnmanagedCollection B n =
     (let values = MakeVec3s Vec3 kVec3Count in
      bind (with_local (WriteUnmanagedCollection B values) writer_default) (\<lambda>(_, probe).
        reused_writer (WriteUnmanagedCollection B values) (Size probe) (Size probe) n))"

definition BM_Deserialize_UnmanagedCollection :: "build \<Rightarrow> nat \<Rightarrow> ('s, bytes list) bench" where
  "BM_Deserialize_UnmanagedCollection B n =
     bind (with_local (seq (WriteUnmanagedCollection B (MakeVec3s Vec3 kVec3Count)) (TakeBuffer B)) writer_default)
       (\<lambda>(bytes, writer). read_in_place (ReadUnmanagedCollection B 12) bytes n)"

text \<open>\<open>writer.Write(values)\<close> on a reused writer.\<close>

definition reused_values :: "build \<Rightarrow> 'a MemoryPackFormatter \<Rightarrow> 'a list \<Rightarrow> nat \<Rightarrow> ('s, (size_t \<times> bytes)) bench" where
  "reused_values B T values n =
     bind (lift (Serialize B (vector_formatter T) values)) (\<lambda>payload.
       reused_writer (Write B (vector_formatter T) values) (length payload) (length payload) n)"

definition BM_Serialize_GenericCollection :: "build \<Rightarrow> nat \<Rightarrow> ('s, (size_t \<times> bytes)) bench" where
  "BM_Serialize_GenericCollection B n = reused_values B Vec3Generic_formatter (MakeVec3s Vec3Generic.make kVec3Count) n"

definition BM_Deserialize_GenericCollection :: "build \<Rightarrow> nat \<Rightarrow> ('s, Vec3Generic list) bench" where
  "BM_Deserialize_GenericCollection B n =
     bind (lift (Serialize B (vector_formatter Vec3Generic_formatter) (MakeVec3s Vec3Generic.make kVec3Count))) (\<lambda>bytes.
       read_in_place (ReadCollection B Vec3Generic_formatter) bytes n)"

definition BM_Serialize_UnmanagedExact_PerElement :: "build \<Rightarrow> nat \<Rightarrow> ('s, (size_t \<times> bytes)) bench" where
  "BM_Serialize_UnmanagedExact_PerElement B n = reused_values B BenchVec3_formatter (MakeVec3s Vec3 kVec3Count) n"

definition BM_Serialize_UnmanagedScrubbed_PerElement :: "build \<Rightarrow> nat \<Rightarrow> ('s, (size_t \<times> bytes)) bench" where
  "BM_Serialize_UnmanagedScrubbed_PerElement B n = reused_values B Vec3Scrubbed_formatter (MakeVec3s Vec3 kVec3Count) n"

text \<open>The framing benchmark. The callback decodes into \<open>decoded\<close>; as for \<^const>\<open>Feed\<close>, \<open>None\<close> is a call that never
  returns. An iteration makes the identifiers, the flag and the decoded value observable.\<close>

definition framing_callback :: "build \<Rightarrow> (u16 list \<times> BenchPlayerState) callback" where
  "framing_callback B pid body =
     bind (gets snd) (\<lambda>decoded.
     bind (lift (Deserialize_into B BenchPlayerState_formatter body decoded)) (\<lambda>decoded.
       modify (\<lambda>(ids, _). (ids @ [pid], decoded))))"

primrec framing_loop ::
    "build \<Rightarrow> nat \<Rightarrow> frame_parser \<Rightarrow> BenchPlayerState \<Rightarrow> (u16 list \<times> bool \<times> BenchPlayerState) list outcome option" where
  "framing_loop B 0 parser decoded = Some (Ret [])"
| "framing_loop B (Suc n) parser decoded =
     (case MakePacket B (DefaultPacketHeaderPolicy B) BenchPlayerState_formatter kPlayerStatePacketId MakePlayerState of
        Ret frame \<Rightarrow>
          (case Feed (DefaultPacketHeaderPolicy B) frame (framing_callback B) ([], decoded) parser of
             Some (Ret ok, (ids, decoded), parser) \<Rightarrow>
               map_option (\<lambda>r. case r of Ret xs \<Rightarrow> Ret ((ids, ok, decoded) # xs) | Throw e \<Rightarrow> Throw e | UB \<Rightarrow> UB)
                 (framing_loop B n parser decoded)
           | Some (Throw e, _, _) \<Rightarrow> Some (Throw e)
           | Some (UB, _, _) \<Rightarrow> Some UB
           | None \<Rightarrow> None)
      | Throw e \<Rightarrow> Some (Throw e)
      | UB \<Rightarrow> Some UB)"

definition BM_PacketFraming_RoundTrip ::
    "build \<Rightarrow> nat \<Rightarrow> ((u16 list \<times> bool \<times> BenchPlayerState) list \<times> throughput) outcome option" where
  "BM_PacketFraming_RoundTrip B n =
     (case MakePacket B (DefaultPacketHeaderPolicy B) BenchPlayerState_formatter kPlayerStatePacketId MakePlayerState of
        Ret frame \<Rightarrow>
          map_option (\<lambda>r. fst (bind (lift r) (bench_report n (length frame)) ()))
            (framing_loop B n (make_parser default_maxBodyLength) BenchPlayerState_init)
      | Throw e \<Rightarrow> Some (Throw e)
      | UB \<Rightarrow> Some UB)"

section \<open>Layouts\<close>

definition BenchPlayerState_layout :: "BenchPlayerState layout" where
  "BenchPlayerState_layout = zip BenchPlayerState_members [word_field bps_id (\<lambda>x. bps_id_update (\<lambda>_. x)),
     word_field bps_x (\<lambda>x. bps_x_update (\<lambda>_. x)),
     word_field bps_y (\<lambda>x. bps_y_update (\<lambda>_. x)),
     word_field bps_z (\<lambda>x. bps_z_update (\<lambda>_. x)),
     string_field bps_name (\<lambda>x. bps_name_update (\<lambda>_. x))]"

definition BenchChatMessage_layout :: "BenchChatMessage layout" where
  "BenchChatMessage_layout = zip BenchChatMessage_members [word_field bcm_timestamp (\<lambda>x. bcm_timestamp_update (\<lambda>_. x)),
     string_field bcm_sender (\<lambda>x. bcm_sender_update (\<lambda>_. x)),
     string_field bcm_body (\<lambda>x. bcm_body_update (\<lambda>_. x))]"

definition BenchItem_layout :: "BenchItem layout" where
  "BenchItem_layout = zip BenchItem_members [word_field bit_id (\<lambda>x. bit_id_update (\<lambda>_. x)),
     string_field bit_name (\<lambda>x. bit_name_update (\<lambda>_. x)),
     word_field bit_count (\<lambda>x. bit_count_update (\<lambda>_. x))]"

definition BenchItemList_layout :: "BenchItemList layout" where
  "BenchItemList_layout = zip BenchItemList_members [objects_field BenchItem_layout bil_items (\<lambda>x. bil_items_update (\<lambda>_. x))]"

definition Vec3Generic_layout :: "Vec3Generic layout" where
  "Vec3Generic_layout = zip Vec3Generic_members [word_field v3g_x (\<lambda>x. v3g_x_update (\<lambda>_. x)),
     word_field v3g_y (\<lambda>x. v3g_y_update (\<lambda>_. x)),
     word_field v3g_z (\<lambda>x. v3g_z_update (\<lambda>_. x))]"

lemmas bench_layouts = BenchPlayerState_layout_def BenchPlayerState_members_def BenchChatMessage_layout_def
  BenchChatMessage_members_def BenchItem_layout_def BenchItem_members_def BenchItemList_layout_def BenchItemList_members_def
  Vec3Generic_layout_def Vec3Generic_members_def

lemma bench_members [simp]:
  "map fst BenchPlayerState_layout = BenchPlayerState_members" "map fst BenchChatMessage_layout = BenchChatMessage_members"
  "map fst BenchItem_layout = BenchItem_members" "map fst BenchItemList_layout = BenchItemList_members"
  "map fst Vec3Generic_layout = Vec3Generic_members"
  by (simp_all add: bench_layouts)

interpretation BenchPlayerState: struct_codec BenchPlayerState_init BenchPlayerState_layout
  by (rule struct_codec.intro) (auto simp: bench_layouts intro: struct_members)

interpretation BenchChatMessage: struct_codec BenchChatMessage_init BenchChatMessage_layout
  by (rule struct_codec.intro) (auto simp: bench_layouts intro: struct_members)

interpretation BenchItem: struct_codec BenchItem_init BenchItem_layout
  by (rule struct_codec.intro) (auto simp: bench_layouts intro: struct_members)

interpretation BenchItemList: struct_codec BenchItemList_init BenchItemList_layout
  by (rule struct_codec.intro) (auto simp: BenchItemList_layout_def BenchItemList_members_def BenchItem_formatter_def
      intro: BenchItem.objects_member [unfolded bench_members])

interpretation Vec3Generic: struct_codec Vec3Generic_init Vec3Generic_layout
  by (rule struct_codec.intro) (auto simp: bench_layouts intro: struct_members)

section \<open>Loops\<close>

lemma bench_loop_inv:
  assumes "\<And>l. I l \<Longrightarrow> \<exists>x l'. body l = return (x, l') \<and> P x \<and> I l'"
  shows "I l \<Longrightarrow> \<exists>xs. bench_loop n body l = return xs \<and> length xs = n \<and> (\<forall>x \<in> set xs. P x)"
proof (induction n arbitrary: l)
  case (Suc n)
  from assms [OF Suc.prems] obtain x l' where x: "body l = return (x, l')" "P x" "I l'" by blast
  from Suc.IH [OF x(3)] obtain xs where "bench_loop n body l' = return xs" "length xs = n" "\<forall>x \<in> set xs. P x" by blast
  with x show ?case by (intro exI [of _ "x # xs"]) (simp add: return_def)
qed simp

lemma bench_loop_same:
  assumes "\<And>l. I l \<Longrightarrow> \<exists>l'. body l = return (x, l') \<and> I l'" "I l"
  shows "bench_loop n body l = return (replicate n x)"
proof -
  have "\<exists>xs. bench_loop n body l = return xs \<and> length xs = n \<and> (\<forall>y \<in> set xs. y = x)"
    by (rule bench_loop_inv [of I body "\<lambda>y. y = x", OF _ assms(2)]) (use assms(1) in blast)
  then show ?thesis by (auto simp: replicate_length_same intro: replicate_eqI)
qed

text \<open>A writer on its internal vector.\<close>

definition owned_writer :: "writer \<Rightarrow> bool" where
  "owned_writer w \<longleftrightarrow> writer_inv w \<and> w_vec w = None \<and> w_fixedBuf w = None"

lemma owned_cleared:
  assumes "owned_writer w" "emits B m bs" "length bs \<le> 2 ^ 62"
  shows "\<exists>w'. seq Clear m w = (Ret (), w') \<and> owned_writer w' \<and> GetSpan w' = bs \<and> Size w' = length bs"
proof -
  let ?c = "w\<lparr>w_ownedPos := 0, w_error := ErrorNone\<rparr>"
  have c: "Clear w = (Ret (), ?c)" "writer_inv ?c" "GetSpan ?c = []" "room ?c (length bs)"
    using assms(1,3) by (simp_all add: Clear_def owned_writer_def writer_inv_def GetSpan_def Size_def room_def)
  from emitsD(1) [OF assms(2), of ?c] c obtain w' where
    w': "m ?c = (Ret (), w')" "writer_inv w'" "same_target ?c w'" "GetSpan w' = bs" by (auto elim: appendedE)
  with c(1) assms(1) length_GetSpan [of w'] show ?thesis by (auto simp: owned_writer_def same_target_def seq_def)
qed

lemma reused_writer_spec:
  assumes "emits B m bs" "length bs \<le> 2 ^ 62" "k < 2 ^ 64"
  shows "(reused_writer m k p n :: ('s, _) bench) = bench_report n p (replicate n (length bs, bs))"
proof -
  have "\<exists>w. Reserve k writer_default = (Ret (), w) \<and> owned_writer w"
    using assms(3) by (auto simp: Reserve_def owned_writer_def writer_inv_def writer_default_def resize_def)
  then obtain w where w: "Reserve k writer_default = (Ret (), w)" "owned_writer w" by blast
  have "bench_loop n (\<lambda>writer. bind (with_local (seq Clear m) writer) (\<lambda>(_, writer).
      return ((Size writer, GetSpan writer), writer))) w = (return (replicate n (length bs, bs)) :: ('s, _) op)"
  proof (rule bench_loop_same [of owned_writer, OF _ w(2)])
    fix w assume "owned_writer w"
    from owned_cleared [OF this assms(1,2)] show "\<exists>l'. bind (with_local (seq Clear m) w) (\<lambda>(_, writer).
        return ((Size writer, GetSpan writer), writer)) = return ((length bs, bs), l') \<and> owned_writer l'" by (auto simp: return_def)
  qed
  with w(1) show ?thesis by (simp add: reused_writer_def return_def)
qed

lemma read_in_place_spec:
  assumes "decodes F m bs v" "F default_options 0" "length bs < 2 ^ 63"
  shows "(read_in_place m bs n :: ('s, _) bench) = bench_report n (length bs) (replicate n v)"
proof -
  have "\<exists>r. m (make_reader bs) = (Ret v, r)"
    using decodesD [OF assms(1), of "make_reader bs" "[]"] assms(2,3) by (simp add: make_reader_def)
  then obtain r where "m (make_reader bs) = (Ret v, r)" by blast
  then have "bench_loop n (\<lambda>l. bind (with_local m (make_reader bs)) (\<lambda>(out, reader). return (out, l))) () = (return (replicate n v) :: ('s, _) op)"
    by (intro bench_loop_same [of "\<lambda>_. True"]) (auto simp: return_def)
  then show ?thesis by (simp add: read_in_place_def return_def)
qed

context codec
begin

lemma serialize_fresh_spec:
  assumes "ok v" "length (enc v) \<le> 2 ^ 62"
  shows "(serialize_fresh B T v n :: ('s, _) bench) = bench_report n (length (enc v)) (replicate n (enc v))"
proof -
  have e: "Serialize B T v = Ret (enc v)" by (rule Serialize_emits [OF writes [OF assms(1)] assms(2)])
  have "bench_loop n (\<lambda>l. bind (lift (Serialize B T v)) (\<lambda>bytes. return (bytes, l))) () = (return (replicate n (enc v)) :: ('s, _) op)"
    by (rule bench_loop_same [of "\<lambda>_. True"]) (auto simp: e return_def)
  then show ?thesis by (simp add: serialize_fresh_def return_def e)
qed

lemma deserialize_fresh_spec:
  assumes "ok v" "fits v default_options 0" "length (enc v) \<le> 2 ^ 62"
  shows "(deserialize_fresh B T init v n :: ('s, _) bench) = bench_report n (length (enc v)) (replicate n v)"
proof -
  have e: "Serialize B T v = Ret (enc v)" by (rule Serialize_emits [OF writes [OF assms(1)] assms(3)])
  have d: "Deserialize_into B T (enc v) init = Ret v"
    using decodesD [OF reads [OF assms(1)], of "make_reader (enc v)" "[]"] assms(2,3) by (simp add: Deserialize_into_def make_reader_def)
  have "bench_loop n (\<lambda>l. bind (lift (Deserialize_into B T (enc v) init)) (\<lambda>out. return (out, l))) () = (return (replicate n v) :: ('s, _) op)"
    by (rule bench_loop_same [of "\<lambda>_. True"]) (auto simp: d return_def)
  then show ?thesis by (simp add: deserialize_fresh_def return_def e)
qed

lemma external_vector_spec:
  assumes "ok v" "length (enc v) \<le> 2 ^ 62"
  shows "(external_vector B T v n :: ('s, _) bench) = bench_report n (length (enc v)) (replicate n (enc v))"
proof -
  have e: "Serialize B T v = Ret (enc v)" by (rule Serialize_emits [OF writes [OF assms(1)] assms(2)])
  have a: "Serialize_append B T v [] = (Ret (), enc v)" using serialize_append [OF assms(1), of B "[]"] by simp
  have "bench_loop n (\<lambda>buffer. case Serialize_append B T v [] of (res, buffer) \<Rightarrow>
      bind (lift res) (\<lambda>_. return (buffer, buffer))) [] = (return (replicate n (enc v)) :: ('s, _) op)"
    by (rule bench_loop_same [of "\<lambda>_. True"]) (auto simp: a return_def)
  then show ?thesis by (simp add: external_vector_def return_def e)
qed

end


section \<open>The measured values\<close>

lemmas bench_formatters = BenchPlayerState_formatter_def BenchChatMessage_formatter_def BenchItem_formatter_def
  BenchItemList_formatter_def Vec3Generic_formatter_def

lemmas struct_sizes = struct_enc_def struct_fits_def string_ok_def string_fits_def default_options_def enc_string_def

lemma player_packet:
  "members_ok BenchPlayerState_layout MakePlayerState" "struct_fits BenchPlayerState_layout MakePlayerState default_options 0"
  "length (struct_enc BenchPlayerState_layout MakePlayerState) = 32"
  by (simp_all add: bench_layouts MakePlayerState_def struct_sizes)

lemma chat_packet:
  "members_ok BenchChatMessage_layout MakeChatMessage" "struct_fits BenchChatMessage_layout MakeChatMessage default_options 0"
  "length (struct_enc BenchChatMessage_layout MakeChatMessage) = 97"
  by (simp_all add: bench_layouts MakeChatMessage_def struct_sizes)

lemma items_packet:
  "members_ok BenchItemList_layout (MakeItemList kItemCount)"
  "struct_fits BenchItemList_layout (MakeItemList kItemCount) default_options 0"
  "length (struct_enc BenchItemList_layout (MakeItemList kItemCount)) \<le> 20000"
proof -
  have name: "length (to_string i) \<le> 100" if "i < 100" for i using length_to_string [of i] that by simp
  show "members_ok BenchItemList_layout (MakeItemList kItemCount)"
    "struct_fits BenchItemList_layout (MakeItemList kItemCount) default_options 0"
    using le_less_trans [OF name]
    by (auto simp: bench_layouts MakeItemList_def kItemCount_def struct_fits_def string_ok_def string_fits_def default_options_def
        all_ok_def all_fit_def intro!: le_trans [OF name])
  have "length (struct_enc BenchItem_layout it) \<le> 130" if it: "it \<in> set (bil_items (MakeItemList kItemCount))" for it
  proof -
    from it name have "length (bit_name it) \<le> 105" by (auto simp: MakeItemList_def kItemCount_def)
    with length_enc_string_le [of "bit_name it"] show ?thesis by (simp add: bench_layouts struct_enc_def)
  qed
  from length_concat_map_le [of "bil_items (MakeItemList kItemCount)" "struct_enc BenchItem_layout" 130, OF this]
  show "length (struct_enc BenchItemList_layout (MakeItemList kItemCount)) \<le> 20000"
    by (simp add: BenchItemList_layout_def BenchItemList_members_def struct_enc_def enc_collection_def enc_length_def)
      (simp add: MakeItemList_def kItemCount_def)
qed

lemma generic_vectors:
  "all_ok (members_ok Vec3Generic_layout) (MakeVec3s Vec3Generic.make kVec3Count)"
  "all_fit (struct_fits Vec3Generic_layout) (MakeVec3s Vec3Generic.make kVec3Count) default_options 0"
  "length (enc_collection (struct_enc Vec3Generic_layout) (MakeVec3s Vec3Generic.make kVec3Count)) = 53252"
proof -
  show "all_ok (members_ok Vec3Generic_layout) (MakeVec3s Vec3Generic.make kVec3Count)"
    "all_fit (struct_fits Vec3Generic_layout) (MakeVec3s Vec3Generic.make kVec3Count) default_options 0"
    by (simp_all add: bench_layouts MakeVec3s_def kVec3Count_def struct_fits_def default_options_def all_ok_def all_fit_def)
  have "length (concat (map (struct_enc Vec3Generic_layout) (MakeVec3s Vec3Generic.make kVec3Count))) =
      length (MakeVec3s Vec3Generic.make kVec3Count) * 13"
    by (rule length_concat_map_const) (simp add: bench_layouts struct_enc_def)
  then show "length (enc_collection (struct_enc Vec3Generic_layout) (MakeVec3s Vec3Generic.make kVec3Count)) = 53252"
    by (simp add: enc_collection_def enc_length_def) (simp add: MakeVec3s_def kVec3Count_def)
qed

lemma raw_vectors:
  "all_ok (\<lambda>v. length v = 12) (MakeVec3s Vec3 kVec3Count)" "length (MakeVec3s Vec3 kVec3Count) = 4096"
  "length (enc_collection (\<lambda>v. v) (MakeVec3s Vec3 kVec3Count)) = 49156"
proof -
  show ok: "all_ok (\<lambda>v. length v = 12) (MakeVec3s Vec3 kVec3Count)" and n: "length (MakeVec3s Vec3 kVec3Count) = 4096"
    by (auto simp: MakeVec3s_def kVec3Count_def Vec3_def all_ok_def)
  have "length (concat (map (\<lambda>v. v) (MakeVec3s Vec3 kVec3Count))) = length (MakeVec3s Vec3 kVec3Count) * 12"
    by (rule length_concat_map_const) (use ok in \<open>simp add: all_ok_def\<close>)
  with n show "length (enc_collection (\<lambda>v. v) (MakeVec3s Vec3 kVec3Count)) = 49156" by (simp add: enc_collection_def enc_length_def)
qed

text \<open>The three members cover a \<^verbatim>\<open>Vec3Scrubbed\<close>: there is no padding to clear.\<close>

lemma scrub_vec3: "length v = 12 \<Longrightarrow> scrub 12 [(0, 4), (4, 4), (8, 4)] v = v"
  by (rule nth_equalityI) (auto simp: scrub_nth parts_inside_def in_parts_def)

lemma integer_vector:
  assumes "k < 2 ^ 31"
  shows "all_ok (\<lambda>_. True) (MakeIntVector k)" "all_fit (\<lambda>_ _ _. True) (MakeIntVector k) default_options 0"
    "length (enc_collection le_bytes (MakeIntVector k)) = 4 + 4 * k"
proof -
  have "length (concat (map le_bytes (MakeIntVector k))) = length (MakeIntVector k) * 4"
    by (rule length_concat_map_const) simp
  then show "all_ok (\<lambda>_. True) (MakeIntVector k)" "all_fit (\<lambda>_ _ _. True) (MakeIntVector k) default_options 0"
    "length (enc_collection le_bytes (MakeIntVector k)) = 4 + 4 * k"
    using assms by (simp_all add: MakeIntVector_def all_ok_def all_fit_def default_options_def enc_collection_def enc_length_def)
qed

section \<open>The benchmarks do their work\<close>

lemma small_packet:
  "(BM_Serialize_SmallPacket B n :: ('s, _) bench) = bench_report n 32 (replicate n (struct_enc BenchPlayerState_layout MakePlayerState))"
  "(BM_Serialize_OwnedBuffer B n :: ('s, _) bench) = bench_report n 32 (replicate n (struct_enc BenchPlayerState_layout MakePlayerState))"
  "(BM_Serialize_ExternalVector B n :: ('s, _) bench) = bench_report n 32 (replicate n (struct_enc BenchPlayerState_layout MakePlayerState))"
  "(BM_Deserialize_SmallPacket B n :: ('s, _) bench) = bench_report n 32 (replicate n MakePlayerState)"
  using BenchPlayerState.serialize_fresh_spec [OF player_packet(1), of B n] BenchPlayerState.external_vector_spec [OF player_packet(1), of B n]
    BenchPlayerState.deserialize_fresh_spec [OF player_packet(1,2), of B BenchPlayerState_init n]
  by (simp_all add: player_packet BM_Serialize_SmallPacket_def BM_Serialize_OwnedBuffer_def BM_Serialize_ExternalVector_def
      BM_Deserialize_SmallPacket_def bench_formatters)

lemma player_serialized: "Serialize B BenchPlayerState_formatter MakePlayerState = Ret (struct_enc BenchPlayerState_layout MakePlayerState)"
  using BenchPlayerState.serialize [OF player_packet(1), of B] by (simp add: player_packet bench_formatters)

lemma small_packet_reused:
  "(BM_Serialize_ReusedWriter B n :: ('s, _) bench) =
     bench_report n 32 (replicate n (32, struct_enc BenchPlayerState_layout MakePlayerState))"
  using reused_writer_spec [OF BenchPlayerState.writes [OF player_packet(1), of B], where k = kFixedBufferSize and p = 32 and n = n] player_serialized [of B]
  by (simp add: BM_Serialize_ReusedWriter_def player_packet bench_formatters kFixedBufferSize_def)

lemma small_packet_memcpy:
  "(BM_Memcpy_Baseline B n :: ('s, _) bench) =
     bench_report n 32 (replicate n (struct_enc BenchPlayerState_layout MakePlayerState @ replicate 224 0))"
proof -
  let ?e = "struct_enc BenchPlayerState_layout MakePlayerState"
  have "(bench_loop n (\<lambda>destination. bind (lift (memcpy destination ?e (length ?e)))
      (\<lambda>destination. return (destination, destination))) (replicate kFixedBufferSize 0) :: ('s, _) op) =
      return (replicate n (?e @ replicate 224 0))"
    by (rule bench_loop_same [of "\<lambda>l. length l = 256 \<and> drop 32 l = replicate 224 0"])
      (auto simp: memcpy_def player_packet kFixedBufferSize_def return_def)
  then show ?thesis by (simp add: BM_Memcpy_Baseline_def player_serialized player_packet return_def)
qed

lemma small_packet_fixed:
  "\<exists>xs. (BM_Serialize_FixedBuffer B n :: ('s, _) bench) = bench_report n 32 xs \<and> length xs = n \<and>
     (\<forall>(written, buffer) \<in> set xs. written = 32 \<and> length buffer = 256 \<and> take 32 buffer = struct_enc BenchPlayerState_layout MakePlayerState)"
proof -
  let ?e = "struct_enc BenchPlayerState_layout MakePlayerState"
  have "\<exists>xs. (bench_loop n (\<lambda>buffer. case SerializeTo B BenchPlayerState_formatter (Some buffer) MakePlayerState of
      (res, buffer) \<Rightarrow> bind (lift res) (\<lambda>written. return ((written, buffer), buffer))) (replicate kFixedBufferSize 0) :: ('s, _) op) =
      return xs \<and> length xs = n \<and> (\<forall>x \<in> set xs. case x of (written, buffer) \<Rightarrow> written = 32 \<and> length buffer = 256 \<and> take 32 buffer = ?e)"
  proof (rule bench_loop_inv [of "\<lambda>l. length l = 256"])
    fix buffer :: bytes assume "length buffer = 256"
    with BenchPlayerState.serialize_to [OF player_packet(1), where mem = buffer and B = B] obtain buffer' where
      "SerializeTo B BenchPlayerState_formatter (Some buffer) MakePlayerState = (Ret 32, buffer')" "length buffer' = 256"
      "take 32 buffer' = ?e" by (auto simp: player_packet bench_formatters)
    then show "\<exists>x l'. (case SerializeTo B BenchPlayerState_formatter (Some buffer) MakePlayerState of (res, buffer) \<Rightarrow>
        bind (lift res) (\<lambda>written. return ((written, buffer), buffer))) = (return (x, l') :: ('s, _) op) \<and>
        (case x of (written, buffer) \<Rightarrow> written = 32 \<and> length buffer = 256 \<and> take 32 buffer = ?e) \<and> length l' = 256"
      by (auto simp: return_def)
  qed (simp add: kFixedBufferSize_def)
  then show ?thesis by (auto simp: BM_Serialize_FixedBuffer_def player_serialized player_packet return_def)
qed

text \<open>The integers, in a new vector and in place.\<close>

lemma integer_benchmarks:
  assumes "arg < 2 ^ 31"
  shows "(BM_Serialize_IntVector B arg n :: ('s, _) bench) = bench_report n (4 + 4 * arg) (replicate n (enc_collection le_bytes (MakeIntVector arg)))"
    and "(BM_Deserialize_IntVector B arg n :: ('s, _) bench) = bench_report n (4 + 4 * arg) (replicate n (MakeIntVector arg))"
    and "(BM_Deserialize_IntVector_InPlace B arg n :: ('s, _) bench) = bench_report n (4 + 4 * arg) (replicate n (MakeIntVector arg))"
proof -
  note v = integer_vector [OF assms]
  have c: "codec (vector_formatter_arith :: u32 list MemoryPackFormatter) (enc_collection le_bytes) (all_ok (\<lambda>_. True)) (all_fit (\<lambda>_ _ _. True))"
    by (rule vector_arith_codec) simp
  have e: "Serialize B vector_formatter_arith (MakeIntVector arg) = Ret (enc_collection le_bytes (MakeIntVector arg))"
    using codec.serialize [OF c v(1), of B] v(3) assms by simp
  have d: "Deserialize B vector_formatter_arith (enc_collection le_bytes (MakeIntVector arg)) = Ret (MakeIntVector arg)"
    using codec.deserialize_round_trip(1) [OF c v(1,2), where B = B and rest = "[]"] v(3) assms by simp
  show "(BM_Serialize_IntVector B arg n :: ('s, _) bench) = bench_report n (4 + 4 * arg) (replicate n (enc_collection le_bytes (MakeIntVector arg)))"
    using codec.external_vector_spec [OF c v(1), of B n] v(3) assms by (simp add: BM_Serialize_IntVector_def)
  have "(bench_loop n (\<lambda>l. bind (lift (Deserialize B vector_formatter_arith (enc_collection le_bytes (MakeIntVector arg))))
      (\<lambda>out. return (out, l))) () :: ('s, _) op) = return (replicate n (MakeIntVector arg))"
    by (rule bench_loop_same [of "\<lambda>_. True"]) (auto simp: d return_def)
  then show "(BM_Deserialize_IntVector B arg n :: ('s, _) bench) = bench_report n (4 + 4 * arg) (replicate n (MakeIntVector arg))"
    by (simp add: BM_Deserialize_IntVector_def e v(3) return_def)
  have "decodes (all_fit (\<lambda>_ _ _. True) (MakeIntVector arg)) (ReadVector B) (enc_collection le_bytes (MakeIntVector arg)) (MakeIntVector arg)"
    using v(1) by (intro decodes_ReadVector) (auto simp: all_ok_def all_fit_def)
  from read_in_place_spec [OF this v(2)] v(3) assms
  show "(BM_Deserialize_IntVector_InPlace B arg n :: ('s, _) bench) = bench_report n (4 + 4 * arg) (replicate n (MakeIntVector arg))"
    by (simp add: BM_Deserialize_IntVector_InPlace_def e)
qed

text \<open>The chat message, with strings of its own and with views into the input.\<close>

lemma decodes_gets: "(\<And>x. decodes F (f x) bs w) \<Longrightarrow> decodes F (bind (gets g) f) bs w"
  by (simp add: decodes_def)

lemma decodes_ReadStringView:
  assumes s: "s \<noteq> []" and len: "length s < 2 ^ 31" and lim: "\<And>opts d. F opts d \<Longrightarrow> string_fits s opts"
  shows "decodes F (ReadStringView B) (enc_string s) (Some s)"
proof -
  let ?n = "word_of_nat (length s) :: u32"
  have n: "unat ?n = length s" using len by (intro unat_of_nat_32) simp
  note h = string_header [of "length s"]
  let ?body = "bind (CheckStringLength B ?n 1) (\<lambda>ok. if \<not> ok then return None
     else bind (EnsureBytes B (unat ?n)) (\<lambda>ok. if \<not> ok then return None
       else bind (take_bytes (unat ?n)) (\<lambda>s. return (Some s))))"
  have "decodes F ?body s (Some s)"
    using lim unfolding n
    by (intro decodes_CheckStringLength) (auto simp: n string_fits_def word_le_nat_alt intro!: decodes_take decodes_return)
  then have "decodes F (bind (ReadRaw B) (\<lambda>_ :: u32. ?body)) (le_bytes (utf16_length_bytes 0 s) @ s) (Some s)"
    by (intro decodes_skip [OF decodes_ReadRaw]) simp_all
  then show ?thesis unfolding ReadStringView_def
    by (intro decodes_gets decodes_bind_eq [OF decodes_ReadRaw [where w = "NOT ?n"],
          where cs = "le_bytes (utf16_length_bytes 0 s) @ s"] decodes_gets_Failed)
      (use s h len in \<open>simp_all add: enc_string_def cong: if_cong\<close>)
qed

lemma decodes_read_views:
  assumes "F = (\<lambda>opts d. string_fits (bcm_sender m) opts \<and> string_fits (bcm_body m) opts)"
    and "bcm_sender m \<noteq> []" "bcm_body m \<noteq> []" "members_ok BenchChatMessage_layout m"
  shows "decodes F (read_views B) (struct_enc BenchChatMessage_layout m)
    (\<lparr>count = 3, isNull = False\<rparr>, bcm_timestamp m, Some (bcm_sender m), Some (bcm_body m))"
proof -
  have "decodes F (read_views B) ([3] @ le_bytes (bcm_timestamp m) @ enc_string (bcm_sender m) @ enc_string (bcm_body m) @ [])
    (\<lparr>count = 3, isNull = False\<rparr>, bcm_timestamp m, Some (bcm_sender m), Some (bcm_body m))"
    unfolding read_views_def ReadInt64_def
    by (intro decodes_bind [OF decodes_ReadObjectHeader] decodes_bind [OF decodes_ReadRaw] decodes_bind [OF decodes_ReadStringView]
        decodes_return) (use assms in \<open>auto simp: bench_layouts string_ok_def\<close>)
  then show ?thesis by (simp add: bench_layouts struct_enc_def)
qed

lemma chat_benchmarks:
  "(BM_Serialize_ChatMessage B n :: ('s, _) bench) = bench_report n 97 (replicate n (struct_enc BenchChatMessage_layout MakeChatMessage))"
  "(BM_Deserialize_ChatMessage B n :: ('s, _) bench) = bench_report n 97 (replicate n MakeChatMessage)"
  "(BM_Deserialize_ChatMessage_StringView B n :: ('s, _) bench) = bench_report n 97 (replicate n (\<lparr>count = 3, isNull = False\<rparr>,
     bcm_timestamp MakeChatMessage, Some (bcm_sender MakeChatMessage), Some (bcm_body MakeChatMessage)))"
proof -
  show "(BM_Serialize_ChatMessage B n :: ('s, _) bench) = bench_report n 97 (replicate n (struct_enc BenchChatMessage_layout MakeChatMessage))"
    "(BM_Deserialize_ChatMessage B n :: ('s, _) bench) = bench_report n 97 (replicate n MakeChatMessage)"
    using BenchChatMessage.external_vector_spec [OF chat_packet(1), of B n]
      BenchChatMessage.deserialize_fresh_spec [OF chat_packet(1,2), of B BenchChatMessage_init n]
    by (simp_all add: chat_packet BM_Serialize_ChatMessage_def BM_Deserialize_ChatMessage_def bench_formatters)
  have m: "bcm_sender MakeChatMessage \<noteq> []" "bcm_body MakeChatMessage \<noteq> []"
    "string_fits (bcm_sender MakeChatMessage) default_options" "string_fits (bcm_body MakeChatMessage) default_options"
    by (simp_all add: MakeChatMessage_def string_fits_def default_options_def)
  have "Serialize B BenchChatMessage_formatter MakeChatMessage = Ret (struct_enc BenchChatMessage_layout MakeChatMessage)"
    using BenchChatMessage.serialize [OF chat_packet(1), of B] by (simp add: chat_packet bench_formatters)
  with read_in_place_spec [OF decodes_read_views [OF refl m(1,2) chat_packet(1)], of B n] m(3,4) chat_packet(3)
  show "(BM_Deserialize_ChatMessage_StringView B n :: ('s, _) bench) = bench_report n 97 (replicate n (\<lparr>count = 3, isNull = False\<rparr>,
     bcm_timestamp MakeChatMessage, Some (bcm_sender MakeChatMessage), Some (bcm_body MakeChatMessage)))"
    by (simp add: BM_Deserialize_ChatMessage_StringView_def)
qed

lemma item_benchmarks:
  "(BM_Serialize_ItemList B n :: ('s, _) bench) = bench_report n (length (struct_enc BenchItemList_layout (MakeItemList kItemCount)))
     (replicate n (struct_enc BenchItemList_layout (MakeItemList kItemCount)))"
  "(BM_Deserialize_ItemList B n :: ('s, _) bench) = bench_report n (length (struct_enc BenchItemList_layout (MakeItemList kItemCount)))
     (replicate n (MakeItemList kItemCount))"
  using BenchItemList.external_vector_spec [OF items_packet(1), of B n] items_packet(3)
    BenchItemList.deserialize_fresh_spec [OF items_packet(1,2), of B BenchItemList_init n]
  by (simp_all add: BM_Serialize_ItemList_def BM_Deserialize_ItemList_def bench_formatters)

text \<open>The unmanaged structs as one block, and element by element.\<close>

context codec
begin

lemma reused_values_spec:
  assumes "all_ok ok vs" "length (enc_collection enc vs) \<le> 2 ^ 62"
  shows "(reused_values B T vs n :: ('s, _) bench) =
    bench_report n (length (enc_collection enc vs)) (replicate n (length (enc_collection enc vs), enc_collection enc vs))"
proof -
  have w: "emits B (Write B (vector_formatter T) vs) (enc_collection enc vs)" by (rule codec.writes [OF vector_codec assms(1)])
  have "Serialize B (vector_formatter T) vs = Ret (enc_collection enc vs)" by (rule codec.serialize [OF vector_codec assms])
  with reused_writer_spec [OF w assms(2), where k = "length (enc_collection enc vs)"] assms(2) show ?thesis
    by (simp add: reused_values_def)
qed

end

lemma unmanaged_blocks:
  "(BM_Serialize_UnmanagedCollection B n :: ('s, _) bench) =
     bench_report n 49156 (replicate n (49156, enc_collection (\<lambda>v. v) (MakeVec3s Vec3 kVec3Count)))"
  "(BM_Deserialize_UnmanagedCollection B n :: ('s, _) bench) = bench_report n 49156 (replicate n (MakeVec3s Vec3 kVec3Count))"
proof -
  let ?vs = "MakeVec3s Vec3 kVec3Count" and ?w = "\<lambda>B. WriteUnmanagedCollection B (MakeVec3s Vec3 kVec3Count)"
  have w: "emits B (?w B) (enc_collection (\<lambda>v. v) ?vs)" by (rule emits_WriteUnmanagedCollection) (simp add: raw_vectors)
  from emitsD(1) [OF w, of writer_default] raw_vectors(3) obtain wr where
    wr: "?w B writer_default = (Ret (), wr)" "GetSpan wr = enc_collection (\<lambda>v. v) ?vs" "writer_inv wr" "same_target writer_default wr"
    by (auto elim: appendedE)
  have s: "Size wr = 49156" using length_GetSpan [OF wr(3)] wr(2) raw_vectors(3) by simp
  show "(BM_Serialize_UnmanagedCollection B n :: ('s, _) bench) = bench_report n 49156 (replicate n (49156, enc_collection (\<lambda>v. v) ?vs))"
    using reused_writer_spec [OF w, where k = 49156 and p = 49156 and n = n]
    by (simp add: BM_Serialize_UnmanagedCollection_def wr(1) s raw_vectors)
  have t: "fst (TakeBuffer B wr) = Ret (enc_collection (\<lambda>v. v) ?vs)"
    using TakeBuffer_owned [OF wr(3)] wr(2,4) by (simp add: same_target_def)
  then obtain wr' where t: "TakeBuffer B wr = (Ret (enc_collection (\<lambda>v. v) ?vs), wr')" by (cases "TakeBuffer B wr") simp
  have "decodes (\<lambda>opts d. 4096 \<le> unat (maxCollectionLength opts)) (ReadUnmanagedCollection B 12) (enc_collection (\<lambda>v. v) ?vs) ?vs"
    using raw_vectors(1,2) by (intro decodes_ReadUnmanagedCollection) (auto simp: all_ok_def)
  from read_in_place_spec [OF this, where n = n]
  show "(BM_Deserialize_UnmanagedCollection B n :: ('s, _) bench) = bench_report n 49156 (replicate n ?vs)"
    by (simp add: BM_Deserialize_UnmanagedCollection_def wr(1) t raw_vectors default_options_def)
qed

lemma unmanaged_elements:
  "(BM_Serialize_UnmanagedExact_PerElement B n :: ('s, _) bench) =
     bench_report n 49156 (replicate n (49156, enc_collection (\<lambda>v. v) (MakeVec3s Vec3 kVec3Count)))"
  "(BM_Serialize_UnmanagedScrubbed_PerElement B n :: ('s, _) bench) =
     bench_report n 49156 (replicate n (49156, enc_collection (\<lambda>v. v) (MakeVec3s Vec3 kVec3Count)))"
proof -
  let ?vs = "MakeVec3s Vec3 kVec3Count" and ?p = "[(0, 4), (4, 4), (8, 4)]"
  have c: "codec (MEMORYPACK_UNMANAGED 12) (\<lambda>v. v) (\<lambda>v. length v = 12) (\<lambda>_ _ _. True)" by (rule unmanaged_codec) simp
  from codec.reused_values_spec [OF c raw_vectors(1), where B = B and n = n]
  show "(BM_Serialize_UnmanagedExact_PerElement B n :: ('s, _) bench) = bench_report n 49156 (replicate n (49156, enc_collection (\<lambda>v. v) ?vs))"
    by (simp add: BM_Serialize_UnmanagedExact_PerElement_def BenchVec3_formatter_def raw_vectors)
  have s: "codec (MEMORYPACK_UNMANAGED_SCRUBBED 12 ?p) (scrub 12 ?p) (scrubbed_ok 12 ?p) (\<lambda>_ _ _. True)"
    by (rule scrubbed_codec) (simp_all add: parts_inside_def)
  have l: "length v = 12" if "v \<in> set ?vs" for v using raw_vectors(1) that by (simp add: all_ok_def)
  have ok: "all_ok (scrubbed_ok 12 ?p) ?vs" using raw_vectors(1) by (simp add: all_ok_def scrubbed_ok_def scrub_vec3)
  have e: "enc_collection (scrub 12 ?p) ?vs = enc_collection (\<lambda>v. v) ?vs"
    using l by (simp add: enc_collection_def scrub_vec3 cong: map_cong)
  from codec.reused_values_spec [OF s ok, where B = B and n = n]
  show "(BM_Serialize_UnmanagedScrubbed_PerElement B n :: ('s, _) bench) = bench_report n 49156 (replicate n (49156, enc_collection (\<lambda>v. v) ?vs))"
    by (simp add: BM_Serialize_UnmanagedScrubbed_PerElement_def Vec3Scrubbed_formatter_def e raw_vectors)
qed

lemma generic_elements:
  "(BM_Serialize_GenericCollection B n :: ('s, _) bench) = bench_report n 53252
     (replicate n (53252, enc_collection (struct_enc Vec3Generic_layout) (MakeVec3s Vec3Generic.make kVec3Count)))"
  "(BM_Deserialize_GenericCollection B n :: ('s, _) bench) = bench_report n 53252 (replicate n (MakeVec3s Vec3Generic.make kVec3Count))"
proof -
  note v = generic_vectors and c = Vec3Generic.vector_codec
  show "(BM_Serialize_GenericCollection B n :: ('s, _) bench) = bench_report n 53252
     (replicate n (53252, enc_collection (struct_enc Vec3Generic_layout) (MakeVec3s Vec3Generic.make kVec3Count)))"
    using Vec3Generic.reused_values_spec [OF v(1), where B = B and n = n]
    by (simp add: BM_Serialize_GenericCollection_def v(3) bench_formatters)
  have "Serialize B (vector_formatter Vec3Generic_formatter) (MakeVec3s Vec3Generic.make kVec3Count) =
      Ret (enc_collection (struct_enc Vec3Generic_layout) (MakeVec3s Vec3Generic.make kVec3Count))"
    using codec.serialize [OF c v(1), of B] by (simp add: v(3) bench_formatters)
  moreover have d: "decodes (all_fit (struct_fits Vec3Generic_layout) (MakeVec3s Vec3Generic.make kVec3Count))
      (ReadCollection B Vec3Generic_formatter)
      (enc_collection (struct_enc Vec3Generic_layout) (MakeVec3s Vec3Generic.make kVec3Count)) (MakeVec3s Vec3Generic.make kVec3Count)"
    using Vec3Generic.decodes_ReadCollection [of _ B] v(1) by (simp add: all_ok_def bench_formatters)
  ultimately show "(BM_Deserialize_GenericCollection B n :: ('s, _) bench) = bench_report n 53252 (replicate n (MakeVec3s Vec3Generic.make kVec3Count))"
    using read_in_place_spec [OF d v(2), where n = n] by (simp add: BM_Deserialize_GenericCollection_def v(3))
qed

text \<open>The framing benchmark: the parser, kept for all iterations, delivers one packet in each and its memory stays bounded.\<close>

interpretation BenchPlayerState_packet: packet_codec "DefaultPacketHeaderPolicy B" BenchPlayerState_formatter
  "struct_enc BenchPlayerState_layout" "members_ok BenchPlayerState_layout" "struct_fits BenchPlayerState_layout" for B
  using BenchPlayerState.codec_axioms by (simp add: packet_codec_def frame_policy_default bench_formatters)

abbreviation player_frame :: "build \<Rightarrow> bytes" where
  "player_frame B \<equiv> packet_bytes (DefaultPacketHeaderPolicy B) (kPlayerStatePacketId, struct_enc BenchPlayerState_layout MakePlayerState)"

lemma player_framed:
  "MakePacket B (DefaultPacketHeaderPolicy B) BenchPlayerState_formatter kPlayerStatePacketId MakePlayerState = Ret (player_frame B)"
  "length (player_frame B) = 38"
  "frames (DefaultPacketHeaderPolicy B) default_maxBodyLength (player_frame B) =
     ([(kPlayerStatePacketId, struct_enc BenchPlayerState_layout MakePlayerState)], Some [])"
proof -
  show "MakePacket B (DefaultPacketHeaderPolicy B) BenchPlayerState_formatter kPlayerStatePacketId MakePlayerState = Ret (player_frame B)"
    by (rule BenchPlayerState_packet.MakePacket_ok) (simp_all add: player_packet header_size)
  show "length (player_frame B) = 38" by (simp add: packet_bytes_def default_policy.length_Write header_size player_packet)
  show "frames (DefaultPacketHeaderPolicy B) default_maxBodyLength (player_frame B) =
     ([(kPlayerStatePacketId, struct_enc BenchPlayerState_layout MakePlayerState)], Some [])"
    using default_policy.frames_packets [of "[(kPlayerStatePacketId, struct_enc BenchPlayerState_layout MakePlayerState)]"]
    by (simp add: player_packet default_maxBodyLength_def)
qed

lemma framing_delivered:
  "deliver (framing_callback B) [(kPlayerStatePacketId, struct_enc BenchPlayerState_layout MakePlayerState)] ([], decoded) =
     (Ret (), ([kPlayerStatePacketId], MakePlayerState))"
  using BenchPlayerState.deserialize_round_trip(2) [OF player_packet(1,2), where B = B and rest = "[]" and ?v0.0 = decoded]
  by (simp add: framing_callback_def player_packet bench_formatters)

lemma framing_iterations:
  "parser_inv p \<Longrightarrow> pending p = [] \<Longrightarrow> fp_maxBodyLength p = default_maxBodyLength \<Longrightarrow> length (fp_buffer p) < 2 ^ 62 \<Longrightarrow>
   framing_loop B n p decoded = Some (Ret (replicate n ([kPlayerStatePacketId], True, MakePlayerState)))"
proof (induction n arbitrary: p decoded)
  case (Suc n)
  let ?P = "DefaultPacketHeaderPolicy B"
  have f: "frames ?P (fp_maxBodyLength p) (pending p @ player_frame B) =
      ([(kPlayerStatePacketId, struct_enc BenchPlayerState_layout MakePlayerState)], Some [])"
    using Suc.prems player_framed(3) by simp
  have len: "length (fp_buffer p) + length (player_frame B) < 2 ^ 63" using Suc.prems(4) player_framed(2) [of B] by simp
  from default_policy.Feed_frames [OF Suc.prems(1) len f framing_delivered [of B decoded]] obtain p' where
    p': "Feed ?P (player_frame B) (framing_callback B) ([], decoded) p = Some (Ret True, ([kPlayerStatePacketId], MakePlayerState), p')"
      "parser_inv p'" "fp_maxBodyLength p' = fp_maxBodyLength p" "pending p' = []" by (auto simp: kept_def)
  from default_policy.Feed_bounded [OF Suc.prems(1) len f framing_delivered p'(1)]
  have "length (fp_buffer p') < 2 ^ 62" using Suc.prems(3) by (simp add: header_size default_maxBodyLength_def)
  from Suc.IH [OF p'(2,4) _ this] p' Suc.prems(3) show ?case by (simp add: player_framed(1))
qed simp

lemma framing_round_trips:
  "BM_PacketFraming_RoundTrip B n = Some (fst (bench_report n 38 (replicate n ([kPlayerStatePacketId], True, MakePlayerState)) ()))"
  using framing_iterations [OF fresh_parser(1,2,4), of B n BenchPlayerState_init]
  by (simp add: BM_PacketFraming_RoundTrip_def player_framed fresh_parser)

end
