(* ===== verification/Spec2Isabelle.thy ===== *)
theory Spec2Isabelle
  imports VersionTolerant Server GameClient ChatConsole WindowThreads Unions Versions Hostile Nullables FixedBuffer Framing Unmanaged DotnetDemo Basics GeneratedTypes Wellformed ServerMain Macros Benchmarks
begin

text \<open>
  \<^bold>\<open>MemoryPackCpp\<close> is a header-only C++ implementation of the MemoryPack binary format of .NET. This
  development models the library (\<^verbatim>\<open>include/memorypack\<close>) and the protocol code of its samples and
  proves what makes them correct: round trips between builds and hosts, safety on arbitrary input,
  the behaviour of every error path, and the refinement of an abstract stream parser.

  \<^bold>\<open>The program and its model.\<close>

  \<^item> \<^verbatim>\<open>core.hpp\<close>. \<open>Errors\<close> holds the error codes, the exception class and the outcome of an operation
    (\<open>Ret\<close>, \<open>Throw\<close>, \<open>UB\<close> for undefined behaviour) with the state-passing operations \<open>bind\<close>, \<open>seq\<close>,
    \<open>gets\<close>, \<open>modify\<close>. A \<open>build\<close> says whether exceptions are compiled in and the byte order of the
    host. \<open>Encoding\<close> is \<^verbatim>\<open>byteswap\<close> and \<^verbatim>\<open>endian_convert\<close>, \<open>Unicode\<close> the UTF-8 and UTF-16 helpers.
    \<open>Writer\<close> is \<^verbatim>\<open>MemoryPackWriter\<close>: the record \<open>writer\<close> has its three buffer modes (internal vector,
    caller's vector, fixed buffer). \<open>Reader\<close> is \<^verbatim>\<open>MemoryPackReader\<close> on the record \<open>reader\<close>.
    \<open>Formatters\<close> has \<^verbatim>\<open>MemoryPackFormatter\<close> as a record of functions, the core formatters, the macros
    \<^verbatim>\<open>MEMORYPACK_DEFINE\<close>, \<^verbatim>\<open>MEMORYPACK_UNMANAGED\<close> and the free functions \<^verbatim>\<open>Serialize\<close>, \<^verbatim>\<open>Deserialize\<close>,
    \<^verbatim>\<open>TryDeserialize\<close> and their variants. \<open>Macros\<close> has the preprocessor part of \<^verbatim>\<open>MEMORYPACK_DEFINE\<close>, which counts and
    expands the list of members. \<open>VersionTolerant\<close> has the two classes of that layout.
  \<^item> \<^verbatim>\<open>containers.hpp\<close>: theory \<open>Containers\<close>. \<^verbatim>\<open>dotnet.hpp\<close>: theory \<open>Dotnet\<close>. \<^verbatim>\<open>packet.hpp\<close>: theory
    \<open>Packet\<close>.
  \<^item> \<^verbatim>\<open>samples/CppServer\<close>: the structs of \<^verbatim>\<open>packets.hpp\<close> are theory \<open>ServerPackets\<close>, on the member
    specifications of theory \<open>Structs\<close>; the class \<^verbatim>\<open>Connection\<close> of \<^verbatim>\<open>main.cpp\<close> is theory \<open>Server\<close>. The
    socket and the clock are the record \<open>host\<close>, a parameter. \<open>reply\<close> and \<open>served\<close> are its
    specification. \<open>ServerMain\<close> is \<^verbatim>\<open>main\<close> with the accept loop: \<open>server_step\<close> interleaves it with the rounds of one
    thread per client, all on one world (the record \<open>system\<close> is a parameter and \<open>sockets_ok\<close> what the program relies on of
    it), \<open>server_inv\<close> is its invariant. \<open>Bounds\<close> limits the size of decoded values, which the server's responses rely on.
  \<^item> \<^verbatim>\<open>samples/CppClient\<close>: \<open>GamePackets\<close> has the structs of \<^verbatim>\<open>packets.hpp\<close> with their generated and
    hand-written serializers and \<^verbatim>\<open>DispatchPacket\<close>; \<open>Net\<close> has the socket helpers of \<^verbatim>\<open>main.cpp\<close>,
    \<open>GameClient\<close> its ten tests and \<^verbatim>\<open>main\<close>.
  \<^item> \<^verbatim>\<open>samples/ChatClient\<close> and \<^verbatim>\<open>samples/ChatClientConsole\<close>: \<open>ChatPackets\<close> has their common protocol.
    \<open>ChatConsole\<close> is the console client: \<open>chat_client\<close> is the state of its two threads, \<open>receive_round\<close>
    one round of \<^verbatim>\<open>ReceiveLoop\<close>, \<open>handle_line\<close> one round of the command loop, \<open>chat_step\<close> their
    interleaving and \<open>chat_inv\<close> its invariant.
    \<open>ChatWindow\<close> is the Win32 client: \<open>chat_window\<close> is its state with the controls of its window, \<open>WndProc\<close> the
    window procedure. \<open>WindowThreads\<close> interleaves the messages of the window and the user's input with the receive
    threads, which advance one access to shared state at a time (\<open>thread_step\<close>, \<open>window_step\<close>, \<open>window_run\<close>); \<open>sock_race\<close> is
    the data race on the variable that holds the socket, which \<open>UB\<close> does not include. What the
    program calls of Windows is the record \<open>windows\<close>, a parameter.
  \<^item> \<^verbatim>\<open>examples\<close>: each program is a function from the build to its exit code, on the flag that its checks clear.
    \<open>Examples\<close> has what they share, \<open>Basics\<close> is 01 and 02, \<open>Nullables\<close> 03, \<open>Unions\<close> 04, \<open>Unmanaged\<close> 05, \<open>FixedBuffer\<close> 06,
    \<open>Framing\<close> 07, \<open>Hostile\<close> 08, \<open>Versions\<close> 09 and \<open>DotnetDemo\<close> 10. Every check of every program is shown to hold in every
    build that compiles it; on the way these theories have the general facts that the examples demonstrate: what a scrubbed struct
    sends, how two versions of a struct read each other, which limits reject a hostile input.
  \<^item> \<^verbatim>\<open>tools/cs2cpp.Tests/Expected\<close>, what the code generator emits: \<open>Generated\<close> has the flat structs in both styles of the
    generator with the dispatch table and the schema hash (\<^verbatim>\<open>tools/cs2cpp/SchemaHash.cs\<close>), \<open>GeneratedTypes\<close> the structs with
    nullable, nested, collection, .NET and unmanaged members and a version-tolerant one, \<open>Unions\<close> the union.
    The structs of \<^verbatim>\<open>FixedArray.hpp\<close> and \<^verbatim>\<open>FixedArrayExplicit.hpp\<close> are, up to two names of members, those of \<open>GamePackets\<close>,
    and have no definitions of their own.
  \<^item> \<^verbatim>\<open>benchmarks\<close>: \<open>Benchmarks\<close> has every benchmark as a function of the number of its iterations. Each is shown to do in every
    iteration the work that it measures, on reused and on fresh objects alike; times are not modelled.

  \<^bold>\<open>Representation.\<close> Machine integers are words (a signed one is its bit pattern, read with
  \<^const>\<open>sint\<close>), \<^verbatim>\<open>size_t\<close> is a natural number with its wrap-around written out, floats are their IEEE bit
  patterns, strings are byte lists, memory areas are byte lists whose out-of-range access is \<open>UB\<close>.
  A reference parameter is an argument and a component of the result. An unmanaged struct is its object representation,
  copied as it is; the \<^verbatim>\<open>static_assert\<close>s that allow this on little-endian hosts only are the predicate \<open>unmanaged_assert\<close> on
  the build. The operations are defined for every build, and what a copied struct means to its receiver is stated for the
  builds that compile.

  \<^bold>\<open>Interfaces.\<close> \<open>emits\<close> (a writer operation appends exactly these bytes, or reports the overflow of
  a fixed buffer) and \<open>decodes\<close> (a reader operation consumes exactly these bytes and returns this
  value) are closed under composition; \<open>reader_action\<close> is the locale of operations that keep the
  reader's invariant, never reach \<open>UB\<close>, keep the first error, and agree in both builds. \<open>codec\<close> is
  the contract of a formatter and gives the theorems on the free functions once, \<open>message_codec\<close> its
  weaker form for values that are decoded into a fresh object; \<open>struct_codec\<close>,
  \<open>set_codec\<close>, \<open>map_codec\<close>, \<open>nullable_object\<close>, \<open>nullable_collection\<close>, \<open>variant_codec\<close> and \<open>tuple_codec\<close>
  build codecs from codecs; \<open>strict_codec\<close> and \<open>strict_struct\<close> (theory \<open>Truncation\<close>) extend them by the rejection of every
  truncated encoding; \<open>frame_policy\<close> and \<open>packet_codec\<close> are the contracts of the framing. Every
  locale is interpreted on the formatters of the library and on the structs of the samples. \<open>gives\<close> (theory
  \<open>Wellformed\<close>) states what a decoded value is like whatever the input was, and \<open>depth_free\<close> (theory \<open>Generated\<close>) that a
  reader ignores the nesting depth; both are closed under composition too.

  \<^bold>\<open>Loops.\<close> Loops with a known number of rounds are structural recursions; the growth loop of the
  writer, the normalisation loop of \<^verbatim>\<open>Half::ToFloat\<close> and the loop of \<^verbatim>\<open>Feed\<close> are \<open>partial_function\<close>s whose
  value \<open>None\<close> is the loop that never ends, and are shown to return. The internal buffer is assumed
  to stay below \<open>2 ^ 62\<close> bytes and an input below \<open>2 ^ 63\<close>: beyond, no object can exist.

  \<^bold>\<open>Not modelled.\<close> Allocation failure; the sockets, consoles and windows of the samples (sockets are
  parameters) and the text that the programs print; compile-time checks (\<^verbatim>\<open>static_assert\<close>, concepts) other than
  the size check of \<^verbatim>\<open>MEMORYPACK_UNMANAGED_EXACT\<close> and \<open>unmanaged_assert\<close>; the message loop inside a message box of the Win32
  client; the interleaving of the server's threads within one round of a receive loop; of the C# tools everything but the schema hash; the test suites.
\<close>

unbundle bit_operations_syntax

section \<open>Limits of the default options\<close>

lemma default_limits [simp]:
  "unat (maxCollectionLength default_options) = 2 ^ 32 - 1" "unat (maxStringLength default_options) = 2 ^ 32 - 1"
  "unat (maxDepth default_options) = 256"
  by (simp_all add: default_options_def)

lemma default_string_fits [simp]: "length s < 2 ^ 31 \<Longrightarrow> string_fits s default_options"
  by (simp add: string_fits_def)

lemma default_all_fit:
  "length vs < 2 ^ 31 \<Longrightarrow> (\<And>v. v \<in> set vs \<Longrightarrow> fits v default_options d) \<Longrightarrow> all_fit fits vs default_options d"
  by (simp add: all_fit_def)

lemma SpawnResponse_valid:
  assumes "length (sprs_entities v) < 2 ^ 31"
    "\<forall>e \<in> set (sprs_entities v). length (ent_position e) = 12 \<and> length (ent_name e) < 2 ^ 31"
  shows "members_ok SpawnResponse_layout v" "struct_fits SpawnResponse_layout v default_options 0"
proof -
  have "members_ok Entity_layout e \<and> struct_fits Entity_layout e default_options 1" if "e \<in> set (sprs_entities v)" for e
    using assms(2) that by (simp add: Entity_layout_def Entity_members_def struct_fits_def string_ok_def)
  then show "members_ok SpawnResponse_layout v" "struct_fits SpawnResponse_layout v default_options 0"
    using assms(1) by (auto simp: SpawnResponse_layout_def SpawnResponse_members_def struct_fits_def all_ok_def
        intro!: default_all_fit)
qed

text \<open>An entity and a response with their values: the position is three floats, given by their bits, which a host keeps in
  its own byte order.\<close>

definition entity_on :: "build \<Rightarrow> u32 \<times> (u32 \<times> u32 \<times> u32) \<times> bytes \<Rightarrow> Entity" where
  "entity_on B = (\<lambda>(i, (x, y, z), name). \<lparr>ent_id = i,
     ent_position = mem_bytes (native B) x @ mem_bytes (native B) y @ mem_bytes (native B) z, ent_name = name\<rparr>)"

definition response_on :: "build \<Rightarrow> (u32 \<times> (u32 \<times> u32 \<times> u32) \<times> bytes) list \<Rightarrow> SpawnResponse" where
  "response_on B es = \<lparr>sprs_entities = map (entity_on B) es\<rparr>"

lemma response_on_same: "unmanaged_assert B \<Longrightarrow> unmanaged_assert B' \<Longrightarrow> response_on B' es = response_on B es"
  by (simp add: response_on_def entity_on_def unmanaged_assert_def)

text \<open>Both ways to report an error, for one type and one input.\<close>

definition reports_alike :: "endian \<Rightarrow> bytes \<Rightarrow> 'a MemoryPackFormatter \<Rightarrow> bool" where
  "reports_alike e data T \<longleftrightarrow> TryDeserialize (no_exceptions e) T data = TryDeserialize (with_exceptions e) T data"

theorem object_with_fewer_members:
  assumes "struct_codec ms" "members_ok ms s" "n \<le> length ms"
    "struct_fits (take n ms) s default_options 0" "length (members_enc (take n ms) s) < 2 ^ 62"
  shows "Deserialize B (MEMORYPACK_DEFINE init (map fst ms)) (word_of_nat n # members_enc (take n ms) s) =
    Ret (copy_members (take n ms) s init)"
proof -
  let ?bs = "word_of_nat n # members_enc (take n ms) s"
  have n: "n \<le> 249" using struct_codec.count [OF assms(1)] assms(3) by simp
  have "decodes (struct_fits (take n ms) s) (IMemoryPackable_Deserialize B init (map fst ms) init) ?bs
      (copy_members (take n ms) s init)"
    by (rule struct_codec.decodes_struct [OF assms(1,2) n]) simp
  from decodesD [OF this, of "make_reader ?bs" "[]"] assms(4,5) show ?thesis
    by (simp add: Deserialize_def Read_def MEMORYPACK_DEFINE_def make_reader_def)
qed

theorem object_with_fewer_members_witness:
  "Deserialize (with_exceptions Little) EchoResponse_formatter [2, 7, 0, 0, 0, 254, 255, 255, 255, 1, 0, 0, 0, 65] =
     Ret \<lparr>ers_seq = 7, ers_text = [65], ers_serverTimeTicks = 0\<rparr>"
proof -
  let ?v = "\<lparr>ers_seq = 7, ers_text = [65], ers_serverTimeTicks = 5\<rparr>"
  have e: "le_bytes (7 :: u32) = [7, 0, 0, 0]" "enc_string [65] = [254, 255, 255, 255, 1, 0, 0, 0, 65]"
    by code_simp+
  have "struct_fits (take 2 EchoResponse_layout) ?v default_options 0"
    by (simp add: EchoResponse_layout_def EchoResponse_members_def struct_fits_def)
  with object_with_fewer_members [OF EchoResponse.struct_codec_axioms, of ?v 2 "with_exceptions Little"] e show ?thesis
    by (simp add: EchoResponse_formatter_def) (simp add: EchoResponse_layout_def EchoResponse_members_def string_ok_def)
qed

theorem newer_sender_leaves_members_unread:
  assumes "struct_codec ms" "members_ok ms s" "length ms < n" "n \<le> 249"
    "struct_fits ms s default_options 0" "length (members_enc ms s @ extra) < 2 ^ 62"
  shows "\<exists>r. Read B (MEMORYPACK_DEFINE init (map fst ms)) init
      (make_reader (word_of_nat n # members_enc ms s @ extra)) = (Ret s, r) \<and>
    r_error r = ErrorNone \<and> Remaining r = length extra"
proof -
  let ?bs = "word_of_nat n # members_enc ms s"
  have t: "take n ms = ms" using assms(3) by simp
  have "decodes (struct_fits ms s) (IMemoryPackable_Deserialize B init (map fst ms) init) ?bs
      (copy_members ms s init)"
    using struct_codec.decodes_struct [OF assms(1,2,4), of "struct_fits ms s" B init init] t by simp
  from decodesD [OF this, of "make_reader (?bs @ extra)" extra] assms(5,6)
    struct_codec.complete [OF assms(1), of s init] show ?thesis
    by (simp add: Read_def MEMORYPACK_DEFINE_def make_reader_def Remaining_def)
qed

theorem newer_sender_leaves_members_unread_witness:
  "\<exists>r. Read (with_exceptions Little) (MEMORYPACK_DEFINE \<lparr>sprq_count = 0\<rparr> (map fst SpawnRequest_layout)) \<lparr>sprq_count = 0\<rparr>
      (make_reader (word_of_nat 2 # members_enc SpawnRequest_layout \<lparr>sprq_count = 7\<rparr> @ [9])) = (Ret \<lparr>sprq_count = 7\<rparr>, r) \<and>
    r_error r = ErrorNone \<and> Remaining r = length [9 :: byte]"
  by (rule newer_sender_leaves_members_unread [OF SpawnRequest.struct_codec_axioms])
    (simp_all add: SpawnRequest_layout_def SpawnRequest_members_def struct_fits_def)

theorem fixed_buffer_holds_the_encoding:
  assumes "string_ok (ers_text v)" "length (struct_enc EchoResponse_layout v) \<le> length mem" "length mem < 2 ^ 64"
  shows "\<exists>n mem'. SerializeTo B EchoResponse_formatter (Some mem) v = (Ret n, mem') \<and>
    length mem' = length mem \<and> Deserialize B' EchoResponse_formatter (take n mem') = Ret v"
proof -
  have ok: "members_ok EchoResponse_layout v" "struct_fits EchoResponse_layout v default_options 0"
    using assms(1) by (simp_all add: EchoResponse_layout_def EchoResponse_members_def struct_fits_def string_ok_def)
  have "length (struct_enc EchoResponse_layout v) < 2 ^ 63"
    using assms(1) by (simp add: EchoResponse_layout_def EchoResponse_members_def struct_enc_def enc_string_def string_ok_def)
  then show ?thesis
    using EchoResponse_packet.serialize_to [OF ok(1) assms(2,3), of B]
      EchoResponse_packet.deserialize_round_trip(1) [OF ok, of "[]" B'] by auto
qed

theorem fixed_buffer_holds_the_encoding_witness:
  "\<exists>n mem'. SerializeTo (no_exceptions Little) EchoResponse_formatter (Some (replicate 32 0))
       \<lparr>ers_seq = 1, ers_text = [72, 73], ers_serverTimeTicks = 2\<rparr> = (Ret n, mem') \<and>
     length mem' = length (replicate 32 (0 :: byte)) \<and>
     Deserialize (no_exceptions Little) EchoResponse_formatter (take n mem') =
       Ret \<lparr>ers_seq = 1, ers_text = [72, 73], ers_serverTimeTicks = 2\<rparr>"
  by (rule fixed_buffer_holds_the_encoding)
    (simp_all add: string_ok_def EchoResponse_layout_def EchoResponse_members_def struct_enc_def enc_string_def)

text \<open>The buffer is too small: an exception or 0, and no byte outside it was written.\<close>

definition reports_overflow :: "build \<Rightarrow> 'a MemoryPackFormatter \<Rightarrow> bytes \<Rightarrow> 'a \<Rightarrow> bool" where
  "reports_overflow B T mem v \<longleftrightarrow> (\<exists>mem' e. SerializeTo B T (Some mem) v =
     (if has_exceptions B then Throw e else Ret 0, mem') \<and> exn_code e = BufferOverflow \<and> length mem' = length mem)"

theorem null_span_is_not_a_fixed_buffer:
  "fst (SerializeTo B uint32_formatter None v) = Ret 4"
proof -
  have "writer_span None = writer_default" by (simp add: writer_span_def writer_default_def span_size_def)
  moreover from emitsD(1) [OF uint32_codec.writes [where B = B and v = v], of writer_default]
  obtain w where "Write B uint32_formatter v writer_default = (Ret (), w)" "writer_inv w" "w_error w = ErrorNone"
    "GetSpan w = le_bytes v" by (auto elim: appendedE)
  ultimately show ?thesis using length_GetSpan [of w] by (simp add: SerializeTo_def WriterFailed_def)
qed

theorem string_round_trip:
  assumes "length s < 2 ^ 31"
  shows "\<exists>bs. Serialize B string_formatter s = Ret bs \<and> DeserializeExact B' string_formatter bs = Ret s"
  using assms by (intro string_codec.transfer) (simp_all add: string_ok_def enc_string_def)

theorem string_round_trip_witness:
  "\<exists>bs. Serialize (no_exceptions Little) string_formatter [0xC3, 0xA9, 0xFF] = Ret bs \<and>
     DeserializeExact (with_exceptions Big) string_formatter bs = Ret [0xC3, 0xA9, 0xFF]"
  by (rule string_round_trip) simp

lemma length_enc_utf16_string: "length (enc_utf16_string us) = 4 + 2 * length us"
proof -
  have "length (concat (map le_bytes us)) = length us * 2" by (rule length_concat_map_const) simp
  then show ?thesis by (simp add: enc_utf16_string_def enc_length_def)
qed

theorem utf16_wire_string_is_transcoded:
  assumes "0 < length us" "length us < 2 ^ 31"
  shows "DeserializeExact B string_formatter (enc_utf16_string us) = Ret (utf16_to_utf8 us)"
proof -
  have "decodes (\<lambda>opts d. length us \<le> unat (maxStringLength opts)) (ReadString B) (enc_utf16_string us)
      (Some (utf16_to_utf8 us))"
    using assms by (intro decodes_ReadString_utf16) simp_all
  from decodesD [OF this, of "make_reader (enc_utf16_string us)" "[]"] assms length_enc_utf16_string [of us] show ?thesis
    by (simp add: DeserializeExact_def Read_def string_formatter_def ReadString_into_def make_reader_def
        RequireEnd_def IsEnd_def bind_def gets_def return_def)
qed

theorem utf16_wire_string_is_transcoded_witness:
  "DeserializeExact (no_exceptions Little) string_formatter (enc_utf16_string [0x48, 0xD83D, 0xDE00, 0xD800]) =
     Ret [0x48, 0xF0, 0x9F, 0x98, 0x80, 0xEF, 0xBF, 0xBD]"
proof -
  have "utf16_to_utf8 [0x48, 0xD83D, 0xDE00, 0xD800] = [0x48, 0xF0, 0x9F, 0x98, 0x80, 0xEF, 0xBF, 0xBD]" by code_simp
  with utf16_wire_string_is_transcoded [of "[0x48, 0xD83D, 0xDE00, 0xD800]" "no_exceptions Little"] show ?thesis by simp
qed

theorem u16string_round_trip:
  assumes "length s < 2 ^ 31" "well_formed_utf16 s"
  shows "\<exists>bs. Serialize B u16string_formatter s = Ret bs \<and> DeserializeExact B' u16string_formatter bs = Ret s"
  using assms by (intro u16string_codec.transfer) (simp_all add: u16string_ok_def u16string_fits_def length_enc_utf16_string)

theorem wire_is_little_endian_on_every_host:
  "Serialize B uint64_formatter w = Ret (le_bytes w) \<and> DeserializeExact B' uint64_formatter (le_bytes w) = Ret w \<and>
   Serialize B uint16_formatter h = Ret (le_bytes h) \<and> DeserializeExact B' uint16_formatter (le_bytes h) = Ret h"
  using uint64_codec.serialize [of w B] uint64_codec.deserialize_exact [of w B']
    uint16_codec.serialize [of h B] uint16_codec.deserialize_exact [of h B'] by simp

theorem map_round_trip:
  assumes "sorted_wrt (\<lambda>a b. fst a < fst b) m" "length m < 2 ^ 31" "\<forall>(k, v) \<in> set m. length v < 2 ^ 31"
    "length (enc_collection (\<lambda>(k, v). le_bytes k @ enc_string v) m) \<le> 2 ^ 62"
  shows "\<exists>bs. Serialize B (MapFormatter uint32_formatter string_formatter std_map) m = Ret bs \<and>
    DeserializeExact B' (MapFormatter uint32_formatter string_formatter std_map) bs = Ret m"
  using assms by (intro int_string_map.map.transfer)
    (auto simp: std_map_def all_ok_def string_ok_def intro!: default_all_fit)

theorem nullable_value_round_trip:
  "\<exists>bs. Serialize B (optional_nullable 8 :: u64 option MemoryPackFormatter) v = Ret bs \<and> length bs = 16 \<and>
     DeserializeExact B' (optional_nullable 8 :: u64 option MemoryPackFormatter) bs = Ret v"
proof -
  have len: "length (nullable_enc 8 v) = 16"
    by (cases v) (simp_all add: nullable_enc_def NullableLayout_Size_def NullableLayout_ValueOffset_def)
  have c: "codec (optional_nullable 8 :: u64 option MemoryPackFormatter) (nullable_enc 8) (\<lambda>_. True) (\<lambda>_ _ _. True)"
    by (rule optional_nullable_codec) simp_all
  show ?thesis using codec.serialize [OF c, of v B] codec.deserialize_exact [OF c, of v B'] len by simp
qed

lemma null_byte_reads_null:
  assumes "length rest < 2 ^ 62"
  shows "Deserialize B (unique_ptr_formatter T) (255 # rest) = Ret None"
    "Deserialize B (optional_object T) (255 # rest) = Ret None"
  using assms
  by (simp_all add: Deserialize_def unique_ptr_formatter_def optional_object_def PeekIsNull_def bind_def gets_def
      return_def ReadByte_def EnsureBytes_def take_bytes_def make_reader_def make_reader_with_def)

lemma Serialize_Some:
  "Serialize B (unique_ptr_formatter T) (Some x) = Serialize B T x"
  "Serialize B (optional_object T) (Some x) = Serialize B T x"
  by (simp_all add: Serialize_def unique_ptr_formatter_def optional_object_def)

lemma vt_three_members:
  assumes "length t < 2 ^ 31"
  shows "\<exists>st. seq (WriteMember B uint32_formatter a) (seq (WriteMember B string_formatter t)
      (seq (WriteMember B uint64_formatter c) (vt_Finish B))) (make_vt_writer writer_default) = (Ret (), st) \<and>
    GetSpan (vw_out st) = vt_enc [le_bytes a, enc_string t, le_bytes c]"
proof -
  have len: "length (enc_string t) < 2 ^ 32" using assms by (simp add: enc_string_def)
  obtain s1 where s1: "WriteMember B uint32_formatter a (make_vt_writer writer_default) = (Ret (), s1)"
      "vt_buffered ([] @ [le_bytes a]) s1" "vw_out s1 = writer_default"
    using WriteMember_buffers [OF uint32_codec.writes [OF TrueI, where B = B and v = a] vt_buffered_start [of writer_default]]
    by (auto simp: make_vt_writer_def)
  obtain s2 where s2: "WriteMember B string_formatter t s1 = (Ret (), s2)"
      "vt_buffered (([] @ [le_bytes a]) @ [enc_string t]) s2" "vw_out s2 = writer_default"
    using WriteMember_buffers [OF string_codec.writes [where B = B and v = t] s1(2)] assms len s1(3) by (auto simp: string_ok_def)
  obtain s3 where s3: "WriteMember B uint64_formatter c s2 = (Ret (), s3)"
      "vt_buffered ((([] @ [le_bytes a]) @ [enc_string t]) @ [le_bytes c]) s3" "vw_out s3 = writer_default"
    using WriteMember_buffers [OF uint64_codec.writes [OF TrueI, where B = B and v = c] s2(2)] len s2(3) by auto
  have "length (vt_enc [le_bytes a, enc_string t, le_bytes c]) \<le> 2 ^ 62"
    using len by (simp add: vt_enc_def enc_varint_def)
  with vt_Finish_writes [of "[le_bytes a, enc_string t, le_bytes c]" s3 B] s3(2,3) obtain s4
    where "vt_Finish B s3 = (Ret (), s4)" "appended writer_default (vt_enc [le_bytes a, enc_string t, le_bytes c]) (Ret (), vw_out s4)"
    by auto
  then show ?thesis using s1(1) s2(1) s3(1) by (simp add: seq_def bind_def appended_def)
qed

theorem version_tolerant_reader_is_safe_with_exceptions:
  assumes "has_exceptions B" "reader_inv r" "r_error r = ErrorNone" "make_vt_reader B r = (Ret (), s)"
  shows "vt_safe (ReadMember B string_formatter out s) \<and> vt_safe (SkipMember B s) \<and> vt_safe (vr_Finish B s)"
  using make_vt_reader_inv [OF assms] ReadMember_safe [OF string_codec.safe] SkipMember_safe vr_Finish_safe by blast

theorem impossible_length_closes_the_stream:
  assumes "parser_inv p" "length (fp_buffer p) + length bytes < 2 ^ 63" "6 \<le> length (pending p @ bytes)"
    and "bad_length (fp_maxBodyLength p) (snd (header_at (DefaultPacketHeaderPolicy B) (pending p @ bytes)))"
  shows "\<exists>p'. Feed (DefaultPacketHeaderPolicy B) bytes cb st p = Some (Ret False, st, p') \<and> Buffered p' = 0"
proof -
  have "frames (DefaultPacketHeaderPolicy B) (fp_maxBodyLength p) (pending p @ bytes) = ([], None)"
    using assms(3,4) by (subst frames.simps) (simp add: DefaultPacketHeaderPolicy_def)
  from default_policy.Feed_frames [OF assms(1,2) this, of cb st st] show ?thesis
    by (auto simp: Buffered_pending kept_def)
qed

theorem impossible_length_closes_the_stream_witness:
  "\<exists>p'. Feed (DefaultPacketHeaderPolicy (no_exceptions Little)) [1, 0, 255, 255, 255, 255] collect [] (make_parser 4) =
     Some (Ret False, [], p') \<and> Buffered p' = 0"
proof (rule impossible_length_closes_the_stream)
  show "bad_length (fp_maxBodyLength (make_parser 4)) (snd (header_at (DefaultPacketHeaderPolicy (no_exceptions Little))
      (pending (make_parser 4) @ [1, 0, 255, 255, 255, 255])))" by code_simp
qed (simp_all add: make_parser_def parser_inv_def)

theorem throwing_handler_keeps_the_packet:
  assumes "parser_inv p" "length (fp_buffer p) + length bytes < 2 ^ 63"
    and "frames (DefaultPacketHeaderPolicy B) (fp_maxBodyLength p) (pending p @ bytes) = (ps @ (pid, body) # qs, r)"
    and "deliver cb ps st = (Ret (), st1)" "cb pid body st1 = (Throw e, st')"
  shows "\<exists>p'. Feed (DefaultPacketHeaderPolicy B) bytes cb st p = Some (Throw e, st', p') \<and> parser_inv p' \<and>
    frames (DefaultPacketHeaderPolicy B) (fp_maxBodyLength p') (pending p') = ((pid, body) # qs, r)"
proof -
  let ?q = "p\<lparr>fp_buffer := fp_buffer p @ bytes\<rparr>"
  have "parser_inv ?q" "pending ?q = pending p @ bytes" using assms(1,2) by (simp_all add: parser_inv_def pending_def)
  with default_policy.feed_loop_throws [of ?q B ps pid body qs r cb st st1 e st'] assms(3-5) show ?thesis
    by (simp add: Feed_def)
qed

theorem throwing_handler_keeps_the_packet_witness:
  "\<exists>p'. Feed (DefaultPacketHeaderPolicy (no_exceptions Little)) [7, 0, 0, 0, 0, 0]
      (\<lambda>pid body st. (Throw (make_exception InvalidHeader 0 []), st)) () (make_parser 4) =
      Some (Throw (make_exception InvalidHeader 0 []), (), p') \<and> parser_inv p' \<and>
    frames (DefaultPacketHeaderPolicy (no_exceptions Little)) (fp_maxBodyLength p') (pending p') = ([(7, [])], Some [])"
proof -
  have "frames (DefaultPacketHeaderPolicy (no_exceptions Little)) 4 [7, 0, 0, 0, 0, 0] = ([(7, [])], Some [])" by code_simp
  then show ?thesis by (intro throwing_handler_keeps_the_packet [where ps = "[]" and ?st1.0 = "()"])
      (simp_all add: make_parser_def parser_inv_def pending_def)
qed

theorem packet_exchange:
  assumes "\<forall>(pid, v) \<in> set vs. length (ers_text v) < 2 ^ 30 \<and> length (struct_enc EchoResponse_layout v) \<le> limit"
    and "\<forall>i < length vs. MakePacket B (DefaultPacketHeaderPolicy B) EchoResponse_formatter (fst (vs ! i)) (snd (vs ! i)) = Ret (packets ! i)"
    and "length packets = length vs" "concat received = concat packets" "length (concat received) < 2 ^ 63"
  shows "\<exists>ms p'. feed_all (DefaultPacketHeaderPolicy B) collect received [] (make_parser limit) = Some (Ret True, ms, p') \<and>
    map (\<lambda>(pid, body). (pid, TryDeserialize B EchoResponse_formatter body)) ms = map (\<lambda>(pid, v). (pid, Ret (Inr v))) vs"
proof (rule EchoResponse_packet.exchange [OF _ assms(2-5)])
  have "members_ok EchoResponse_layout v \<and> struct_fits EchoResponse_layout v default_options 0 \<and>
      length (struct_enc EchoResponse_layout v) < 2 ^ 31" if "length (ers_text v) < 2 ^ 30" for v
    using that by (simp add: EchoResponse_layout_def EchoResponse_members_def struct_fits_def string_ok_def
        struct_enc_def enc_string_def)
  then show "\<forall>(pid, v) \<in> set vs. members_ok EchoResponse_layout v \<and> struct_fits EchoResponse_layout v default_options 0 \<and>
      length (struct_enc EchoResponse_layout v) < 2 ^ 31 \<and> length (struct_enc EchoResponse_layout v) \<le> limit"
    using assms(1) by blast
qed

theorem packet_exchange_witness:
  "\<exists>ms p'. feed_all (DefaultPacketHeaderPolicy (no_exceptions Little)) collect
      [packet_bytes (DefaultPacketHeaderPolicy (no_exceptions Little)) (202, struct_enc EchoResponse_layout
         \<lparr>ers_seq = 1, ers_text = [72], ers_serverTimeTicks = 2\<rparr>)] [] (make_parser 64) = Some (Ret True, ms, p') \<and>
    map (\<lambda>(pid, body). (pid, TryDeserialize (no_exceptions Little) EchoResponse_formatter body)) ms =
      [(202, Ret (Inr \<lparr>ers_seq = 1, ers_text = [72], ers_serverTimeTicks = 2\<rparr>))]"
proof -
  let ?B = "no_exceptions Little" and ?v = "\<lparr>ers_seq = 1, ers_text = [72], ers_serverTimeTicks = 2\<rparr>"
  let ?bs = "packet_bytes (DefaultPacketHeaderPolicy ?B) (202, struct_enc EchoResponse_layout ?v)"
  have len: "length (struct_enc EchoResponse_layout ?v) = 22"
    by (simp add: EchoResponse_layout_def EchoResponse_members_def struct_enc_def enc_string_def)
  have "MakePacket ?B (DefaultPacketHeaderPolicy ?B) EchoResponse_formatter 202 ?v = Ret ?bs"
    using len by (intro EchoResponse_packet.MakePacket_ok)
      (simp_all add: EchoResponse_layout_def EchoResponse_members_def string_ok_def DefaultPacketHeaderPolicy_def)
  then show ?thesis
    using packet_exchange [of "[(202, ?v)]" 64 ?B "[?bs]" "[?bs]"] len
    by (simp add: packet_bytes_def default_policy.length_Write) (simp add: DefaultPacketHeaderPolicy_def)
qed

theorem guid_text_round_trip:
  assumes "length (data4 g) = 8"
  shows "Guid_Parse (Guid_ToString g) = Some g"
  by (rule Guid_text_round_trip [OF assms])

theorem guid_text_round_trip_witness:
  "Guid_Parse (Guid_ToString \<lparr>data1 = 0x12345678, data2 = 0xABCD, data3 = 1, data4 = [0, 1, 2, 3, 4, 5, 6, 0xFF]\<rparr>) =
     Some \<lparr>data1 = 0x12345678, data2 = 0xABCD, data3 = 1, data4 = [0, 1, 2, 3, 4, 5, 6, 0xFF]\<rparr>"
  by (rule guid_text_round_trip) simp

theorem half_rounds_half_up:
  "FromFloat 0x3F801000 = \<lparr>half_bits = 0x3C01\<rparr> \<and> ToFloat \<lparr>half_bits = 0x3C00\<rparr> = Ret 0x3F800000 \<and>
   ToFloat \<lparr>half_bits = 0x3C01\<rparr> = Ret 0x3F802000"
  by (intro conjI; code_simp)

theorem date_time_fields_round_trip:
  assumes "t < 2 ^ 62" "k < 4"
  shows "GetTicks (FromTicks t k) = t \<and> GetKind (FromTicks t k) = k"
  by (rule FromTicks_round_trip [OF assms])

theorem time_span_duration_range:
  "ToDuration t = (if - 92233720368547758 \<le> sint (ticks t) \<and> sint (ticks t) \<le> 92233720368547758
     then Ret (word_of_int (sint (ticks t) * 100)) else UB)"
  by (rule ToDuration_defined)

theorem date_time_fields_round_trip_witness:
  "GetTicks (FromTicks 638000000000000000 1) = 638000000000000000 \<and> GetKind (FromTicks 638000000000000000 1) = 1"
  by (rule date_time_fields_round_trip) simp_all

theorem u16string_round_trip_witness:
  "\<exists>bs. Serialize (no_exceptions Little) u16string_formatter [0x48, 0xD83D, 0xDE00] = Ret bs \<and>
     DeserializeExact (with_exceptions Big) u16string_formatter bs = Ret [0x48, 0xD83D, 0xDE00]"
  by (rule u16string_round_trip) (simp, code_simp)

theorem map_round_trip_witness:
  "\<exists>bs. Serialize (no_exceptions Little) (MapFormatter uint32_formatter string_formatter std_map) [(1, [65]), (2, [])] = Ret bs \<and>
     DeserializeExact (with_exceptions Little) (MapFormatter uint32_formatter string_formatter std_map) bs = Ret [(1, [65]), (2, [])]"
  by (rule map_round_trip) (simp_all add: enc_collection_def enc_length_def enc_string_def)

theorem version_tolerant_reader_is_safe_with_exceptions_witness:
  "vt_safe (vr_Finish (with_exceptions Little) (snd (make_vt_reader (with_exceptions Little) (make_reader [1, 0]))))"
proof -
  obtain s P where s: "make_vt_reader (with_exceptions Little) (make_reader [1, 0]) = (Ret (), s)"
    using make_vt_reader_at [of "make_reader [1, 0]" "[[]]" "[]" "with_exceptions Little"]
    by (auto simp: make_reader_def vt_enc_def enc_varint_def)
  then have "vt_safe (vr_Finish (with_exceptions Little) s)"
    using version_tolerant_reader_is_safe_with_exceptions [of "with_exceptions Little" "make_reader [1, 0]" s "[]"]
    by (simp add: make_reader_def)
  with s show ?thesis by simp
qed

text \<open>A host whose socket is a pair of byte strings, still to be received and already sent.\<close>

definition stream_host :: "(bytes \<times> bytes) host" where
  "stream_host = \<lparr>h_send = (\<lambda>buf (i, out). (int (length buf), i, out @ buf)),
     h_recv = (\<lambda>n (i, out). (take n i, drop n i, out)), h_now = (\<lambda>_. 0)\<rparr>"

lemma stream_host_ok: "clock_ok stream_host" "duplex stream_host fst snd" "accepts (h_send stream_host)"
    "delivers (h_recv stream_host) fst"
  by (auto simp: stream_host_def clock_ok_def duplex_def accepts_def delivers_def receives_in_order_def sends_in_order_def)

lemma limits_simps [simp]: "maxCollectionLength MakeReaderLimits = 4096" "maxStringLength MakeReaderLimits = 4096"
    "maxDepth MakeReaderLimits = 8"
  by (simp_all add: MakeReaderLimits_def)

lemma sum_bound: "\<bar>sum_list (map sint (vs :: u32 list))\<bar> \<le> 2 ^ 31 * int (length vs)"
proof (induction vs)
  case (Cons v vs)
  then show ?case using sint_range_32 [of v] by (simp add: abs_if split: if_splits)
qed simp

theorem socket_packet_round_trip:
  assumes s: "sends_in_order send out" "send_packet B send pid body w = (True, w')" "out w = []"
    and r: "receives_in_order recv inp" "delivers recv inp" "inp v = out w' @ later"
    and n: "length body < 2 ^ 31"
  shows "\<exists>v'. recv_packet B recv v = (Some (pid, body), v') \<and> inp v' = later"
  using send_packet_ok [OF s(1,2) n] s(3) r(3) recv_packet_delivers [OF r(1,2) n] by simp

theorem socket_packet_round_trip_witness:
  "\<exists>v'. recv_packet (no_exceptions Big) (\<lambda>n i. (take n i, drop n i)) [0, 9, 0, 0, 0, 2, 5, 6, 77] = (Some (9, [5, 6]), v') \<and> v' = [77]"
proof -
  have "send_packet (no_exceptions Big) (\<lambda>buf o'. (int (length buf), o' @ buf)) 9 [5, 6] [] = (True, [0, 9, 0, 0, 0, 2, 5, 6])"
    by code_simp
  from socket_packet_round_trip [OF _ this, where out = "\<lambda>o'. o'" and inp = "\<lambda>i. i" and recv = "\<lambda>n i. (take n i, drop n i)" and
      v = "[0, 9, 0, 0, 0, 2, 5, 6, 77]" and later = "[77]"]
  show ?thesis by (simp add: sends_in_order_def receives_in_order_def delivers_def)
qed

lemma recv_bounded_stream: "recv_bounded stream_host"
  by (simp add: recv_bounded_def stream_host_def case_prod_beta)

text \<open>A client that has connected under the name \<open>a\<close>.\<close>

definition chat_sample :: "bytes \<times> bytes \<Rightarrow> (bytes \<times> bytes) chat_client" where
  "chat_sample w = (make_chat_client \<lparr>s_username = [97], s_room = DEFAULT_ROOM, s_host = DEFAULT_HOST, s_port = DEFAULT_PORT\<rparr> w)
     \<lparr>cc_running := True, cc_receiving := True, cc_printed := [str ''[system] connected to 127.0.0.1:25002'']\<rparr>"

lemma chat_sample_start: "chat_start Connected [[], [97], str ''lobby''] [] w = Some (chat_sample w)"
proof -
  have "chat_settings [[], [97], str ''lobby''] [] =
      (Some \<lparr>s_username = [97], s_room = DEFAULT_ROOM, s_host = DEFAULT_HOST, s_port = DEFAULT_PORT\<rparr>, [])"
    by code_simp
  moreover have "str ''[system] connected to '' @ DEFAULT_HOST @ str '':'' @ str (to_string (unat DEFAULT_PORT)) =
      str ''[system] connected to 127.0.0.1:25002''"
    by (simp add: bytes_of_string_def DEFAULT_HOST_def DEFAULT_PORT_def to_string.simps decimal_digit_def)
  ultimately show ?thesis
    by (simp add: chat_start_def Connect_def seq_def Print_def chat_sample_def make_chat_client_def)
qed

lemma chat_sample_lines: "short_lines [[], [97], str ''lobby'']" "short_lines []"
  by (simp_all add: short_lines_def bytes_of_string_def)

lemma chat_inv_sample: "chat_inv (chat_sample w)"
  using chat_start_inv [OF chat_sample_start chat_sample_lines] by blast

text \<open>The line of a whisper, and the packet it sends.\<close>

lemma command_whisper:
  assumes to: "to \<noteq> []" "\<not> blank (hd to)" "32 \<notin> set to"
    and m: "message \<noteq> []" "\<not> blank (hd message)" "\<not> blank_end (last message)"
  shows "command (Trim (str ''/w '' @ to @ [32] @ message)) = Whisper to message"
proof -
  let ?rest = "to @ 32 # message"
  have w: "str ''/w '' = [47, 119, 32]" by code_simp
  have q: "str ''/quit'' = [47, 113, 117, 105, 116]" by code_simp
  have j: "str ''/join'' = [47, 106, 111, 105, 110]" "str ''/join '' = [47, 106, 111, 105, 110, 32]" by code_simp+
  have t: "Trim (str ''/w '' @ to @ [32] @ message) = 47 # 119 # 32 # ?rest"
    using m unfolding w by (subst Trim_id) (simp_all add: blank_def)
  have r: "Trim ?rest = ?rest" using to m by (intro Trim_id) simp_all
  have s: "takeWhile (\<lambda>c. c \<noteq> 32) ?rest = to" using to(3) by (subst takeWhile_append2) auto
  have "command (47 # 119 # 32 # ?rest) = Whisper to message"
    unfolding command_def w q j StartsWith_def Let_def using r s Trim_id [OF m] m(1) by simp
  with t show ?thesis by simp
qed

definition skill_sample :: SkillSlotData where
  "skill_sample = \<lparr>ssd_playerId = 7, ssd_skillIds = [1, 2, 99, 99, 0, 0, 0, 0], ssd_skillCount = 2,
     ssd_cooldowns = [5, 0, 0, 0, 0, 0, 0, 77], ssd_cooldownCount = 1\<rparr>"

text \<open>A server that sends the packets of the client back, with a login response first.\<close>

definition echoed_replies :: "GamePacket list" where
  "echoed_replies = LoginResponsePacket \<lparr>lrs_success = True, lrs_playerId = 1001, lrs_message = []\<rparr> # tl (client_requests 0)"

lemma echoed_replies_ok: "client_replies echoed_replies"
proof -
  have "reply_ok (LoginResponsePacket \<lparr>lrs_success = True, lrs_playerId = 1001, lrs_message = []\<rparr>)"
    by (simp add: reply_ok_def game_layouts struct_enc_def struct_fits_def string_ok_def string_fits_def default_options_def enc_string_def)
  moreover have "length (inv_itemNames inventory_request) \<le> length (inv_itemCounts inventory_request)"
    by (simp add: inventory_request_def)
  ultimately show ?thesis using requests_ok array_requests_ok
    unfolding client_replies_def echoed_replies_def client_requests_def by (simp add: reply_ok_def)
qed

lemma command_valid:
  assumes "\<forall>x. c = ChatAlternative x \<longrightarrow> length (chc_text x) < 2 ^ 31"
  shows "Command_ok c" "Command_fits c default_options 0"
    "length (enc_union_tag (variant_tag Command_alternatives c) @ Command_enc c) \<le> 2 ^ 62"
  using assms length_enc_string_le [of "case c of ChatAlternative m \<Rightarrow> chc_text m | _ \<Rightarrow> []"]
  by (cases c; simp add: union_layouts struct_enc_def struct_fits_def string_ok_def string_fits_def
      default_options_def tag_cost)+

definition ascii_windows :: "nat \<Rightarrow> (nat \<times> bytes \<times> bytes, wide list \<times> nat option) windows" where
  "ascii_windows k = \<lparr>ws_socket = (\<lambda>(n, i, out). (Some n, Suc n, i, out)), ws_connect = (\<lambda>s w. (s \<noteq> None, w)),
     ws_send = (\<lambda>s buf (n, i, out). (int (length buf), n, i, out @ buf)),
     ws_recv = (\<lambda>s len (n, i, out). (take (min len k) i, n, drop (min len k) i, out)), ws_close = (\<lambda>s w. w), post_limit = 10000,
     to_wide = map ucast, to_utf8 = map ucast, edit_append = (@),
     lb_resetcontent = (\<lambda>_. ([], None)), lb_addstring = (\<lambda>s (us, sel). (us @ [s], sel)),
     lb_findstringexact = (\<lambda>s (us, sel). if s \<in> set us then Some (length (takeWhile (\<lambda>u. u \<noteq> s) us)) else None),
     lb_deletestring = (\<lambda>i (us, sel). (take i us @ drop (Suc i) us, None)), lb_getcursel = snd, lb_text = (\<lambda>i (us, sel). us ! i)\<rparr>"

lemma takeWhile_found: "s \<in> set us \<Longrightarrow> length (takeWhile (\<lambda>u. u \<noteq> s) us) < length us"
  by (induction us) auto

lemma ascii_windows_ok: "windows_ok (ascii_windows k)" "list_box (ascii_windows k) fst"
  by (auto simp: windows_ok_def list_box_def ascii_windows_def takeWhile_found split: if_splits)

lemma ascii_windows_stream:
  "receives_in_order (ws_recv (ascii_windows k) s) (\<lambda>(n, i, out). i)"
  "0 < k \<Longrightarrow> delivers (ws_recv (ascii_windows k) s) (\<lambda>(n, i, out). i)"
  by (auto simp: receives_in_order_def delivers_def ascii_windows_def)

lemma SendExact_stream:
  "cw_world c = (n, i, out) \<Longrightarrow> SendExact (ascii_windows k) s buf c = (Ret True, c\<lparr>cw_world := (n, i, out @ buf)\<rparr>)"
  by (cases "buf = []") (simp_all add: SendExact_def ascii_windows_def send_loop.simps [of _ "[]" 0] send_loop.simps [of _ buf 0] send_loop.simps [of _ buf "length buf"])

lemma window_SendPacket_stream:
  assumes "cw_sock c \<noteq> None" "cw_world c = (n, i, out)"
  shows "\<exists>out'. window_SendPacket B (ascii_windows k) pid body c = (Ret True, c\<lparr>cw_world := (n, i, out')\<rparr>)"
proof -
  let ?blen = "word_of_nat (length body) :: u32" and ?s = "cw_sock c"
  let ?hdr = "mem_bytes (native B) (ChatPacketId_value pid) @ mem_bytes (native B) ?blen"
  have "SendExact (ascii_windows k) ?s body (c\<lparr>cw_world := (n, i, out @ ?hdr)\<rparr>) =
      (Ret True, c\<lparr>cw_world := (n, i, (out @ ?hdr) @ body)\<rparr>)"
    using SendExact_stream [of "c\<lparr>cw_world := (n, i, out @ ?hdr)\<rparr>"] by simp
  then have "(if sint ?blen > 0 then SendExact (ascii_windows k) ?s body else return True) (c\<lparr>cw_world := (n, i, out @ ?hdr)\<rparr>) =
      (Ret True, c\<lparr>cw_world := (n, i, if sint ?blen > 0 then (out @ ?hdr) @ body else out @ ?hdr)\<rparr>)"
    by (simp only: return_apply split: if_split) simp
  then show ?thesis unfolding window_SendPacket_def Let_def bind_gets
    using assms(1) by (simp only: if_False bind_Ret [where m = "SendExact (ascii_windows k) ?s ?hdr", OF SendExact_stream [OF assms(2)]] not_True_eq_False) blast
qed

text \<open>The state after a successful press of the login button.\<close>

lemma login_step:
  assumes "cw_open c" "cw_enabled c ID_BTN_LOGIN" "cw_text c ID_EDIT_USERNAME = [65]" "cw_world c = (n, i, out)"
  shows "\<exists>out'. window_step B (ascii_windows k) items c (Command ID_BTN_LOGIN)
    (c\<lparr>cw_sock := Some n, cw_username := [65], cw_running := True, cw_hRecvThread := Some (length (cw_threads c)),
       cw_threads := cw_threads c @ [LoopHead], cw_world := (Suc n, i, out')\<rparr>)"
proof -
  let ?c = "c\<lparr>cw_sock := Some n, cw_world := (Suc n, i, out), cw_username := [65], cw_running := True,
    cw_hRecvThread := Some (length (cw_threads c)), cw_threads := cw_threads c @ [LoopHead]\<rparr>"
  obtain bs where bs: "Serialize B ChatLoginRequest_formatter \<lparr>clq_username = [65]\<rparr> = Ret bs"
    using string_messages(1) [of "[65]" "[]" B] by auto
  obtain out' where "window_SendPacket B (ascii_windows k) ChatLoginRequestId bs ?c = (Ret True, ?c\<lparr>cw_world := (Suc n, i, out')\<rparr>)"
    using window_SendPacket_stream [of ?c "Suc n" i out B k ChatLoginRequestId bs] by auto
  then have "WndProc B (ascii_windows k) (WM_COMMAND (CtrlId_value ID_BTN_LOGIN)) c = (Ret (), ?c\<lparr>cw_world := (Suc n, i, out')\<rparr>)"
    using assms(3,4) bs by (simp add: WndProc_def on_command_def OnLogin_def open_socket_def connect_socket_def create_thread_def
        send_value_def seq_def WideToUtf8_def ascii_windows_def)
  with window_step.command [OF assms(1,2)] show ?thesis by fastforce
qed

text \<open>The server answers a join with a member whose name has 300 characters, and the user selects it.\<close>

abbreviation long_name_packet :: ChatPacket where
  "long_name_packet \<equiv> RoomJoinResponsePacket \<lparr>rjs_success = True, rjs_existingUsers = [replicate 300 65]\<rparr>"

definition long_name_frame :: bytes where
  "long_name_frame = native_header (with_exceptions Little) 104 (word_of_nat (length (chat_enc long_name_packet))) @ chat_enc long_name_packet"

lemma long_name_ok: "chat_ok long_name_packet" "length (chat_enc long_name_packet) < 2 ^ 31"
  by (simp_all add: chat_layouts string_ok_def all_ok_def all_fit_def struct_fits_def string_fits_def default_options_def struct_enc_def
      enc_string_def enc_collection_def enc_length_def)

lemma run_step: "window_run B W items c0 as c \<Longrightarrow> window_step B W items c a c' \<Longrightarrow> \<exists>as. window_run B W items c0 as c'"
  by (blast intro: window_run.extend)

lemma run_run: "window_run B W items c0 as c \<Longrightarrow> window_run B W items c bs c' \<Longrightarrow> \<exists>as. window_run B W items c0 as c'"
  using run_append by blast

lemma long_name_reachable:
  "\<exists>as c. window_run (with_exceptions Little) (ascii_windows 100) fst (make_window ([], None) (0, long_name_frame, [])) as c \<and>
     lb_getcursel (ascii_windows 100) (cw_listUsers c) = Some 0 \<and> length (lb_text (ascii_windows 100) 0 (cw_listUsers c)) = 300 \<and>
     cw_enabled c ID_BTN_PM \<and> cw_open c"
proof -
  let ?B = "with_exceptions Little" and ?W = "ascii_windows 100" and ?p = long_name_packet
  let ?c0 = "make_window ([], None) (0, long_name_frame, []) :: (nat \<times> bytes \<times> bytes, wide list \<times> nat option) chat_window"
  let ?run = "window_run ?B ?W fst ?c0"
  let ?c1 = "?c0\<lparr>cw_text := (cw_text ?c0)(ID_EDIT_USERNAME := [65])\<rparr>"
  have r1: "\<exists>as. ?run as ?c1" by (rule run_step [OF window_run.start window_step.edit]) (simp_all add: edit_limit_def)
  have "\<exists>out. window_step ?B ?W fst ?c1 (Command ID_BTN_LOGIN) (?c1\<lparr>cw_sock := Some 0, cw_username := [65], cw_running := True,
      cw_hRecvThread := Some (length (cw_threads ?c1)), cw_threads := cw_threads ?c1 @ [LoopHead], cw_world := (Suc 0, long_name_frame, out)\<rparr>)"
    by (rule login_step) simp_all
  then obtain out c2 where c2: "window_step ?B ?W fst ?c1 (Command ID_BTN_LOGIN) c2" "cw_threads c2 = [LoopHead]" "cw_running c2"
      "cw_world c2 = (Suc 0, long_name_frame, out)" "cw_exit c2 = None" "cw_open c2" "cw_posted c2 = []" "cw_sock c2 = Some 0" by fastforce
  have r2: "\<exists>as. ?run as c2" using r1 run_step [OF _ c2(1)] by blast
  obtain w3 where w3: "RecvPacket ?B ?W (cw_sock c2) (cw_world c2) = (Some (104, chat_enc ?p), w3)"
    using recv_packet_delivers [OF ascii_windows_stream(1) ascii_windows_stream(2) [of 100 "cw_sock c2"] long_name_ok(2), of "cw_world c2" ?B 104 "[]"] c2(4)
    by (auto simp: RecvPacket_eq long_name_frame_def)
  let ?c3 = "c2\<lparr>cw_world := w3, cw_posted := [NetPacket 104 (chat_enc ?p)]\<rparr>" and ?c4 = "c2\<lparr>cw_world := w3, cw_posted := []\<rparr>"
  have "\<exists>k. window_run ?B ?W fst c2 (replicate k (ThreadStep 0)) ?c3"
    using recv_round [of 0 c2 ?W ?B 104 "chat_enc ?p" w3 fst] c2 w3 by (simp add: ascii_windows_def)
  with r2 run_run have r3: "\<exists>as. ?run as ?c3" by blast
  obtain c5 where c5: "HandleNetPacket ?B ?W 104 (chat_enc ?p) ?c4 = (Ret (), c5)" "fst (cw_listUsers c5) = [replicate 300 65]"
    using HandleNetPacket_roster [OF ascii_windows_ok(2) long_name_ok(1), of ?B 100 ?c4] long_name_ok(2)
    by (auto simp: Utf8ToWide_def ascii_windows_def c_str_def)
  then have net: "WndProc ?B ?W (WM_NET (NetPacket 104 (chat_enc ?p))) ?c4 = (Ret (), c5)" by (simp add: WndProc_def)
  then have s4: "window_step ?B ?W fst ?c3 (Deliver (NetPacket 104 (chat_enc ?p))) c5"
    by (intro window_step.deliver) (simp_all add: c2(6))
  have "answered_join ?B (Deliver (NetPacket 104 (chat_enc ?p)))"
    using long_name_ok by (auto simp: answered_join_def chat_deserialize)
  then have pm: "cw_enabled c5 ID_BTN_PM"
    using step_enabled [OF s4] by (simp add: enabled_after_def accepted_login_def)
  have s5: "window_step ?B ?W fst c5 Select (c5\<lparr>cw_listUsers := ([replicate 300 65], Some 0)\<rparr>)"
    using net_preserves(1) [OF net] c2(6) by (intro window_step.select) (simp_all add: c5(2))
  have "\<exists>as. ?run as (c5\<lparr>cw_listUsers := ([replicate 300 65], Some 0)\<rparr>)" using r3 run_step [OF _ s4] run_step [OF _ s5] by blast
  with pm net_preserves(1) [OF net] c2(6) show ?thesis by (fastforce simp: ascii_windows_def)
qed

text \<open>Pressing the login button twice, before the answer to the first login.\<close>

text \<open>A packet that announces twelve skills for the eight slots.\<close>

abbreviation twelve_skills :: bytes where
  "twelve_skills \<equiv> 3 # le_bytes (7 :: u32) @ enc_collection le_bytes [1, 2, 3, 4, 5, 6, 7, 8, 9, 10, 11, 12 :: u32] @ enc_collection le_bytes ([] :: u32 list)"

theorem schema_hash_is_generated:
  "Compute Dispatch_types = PACKET_SCHEMA_HASH \<and> (Fnv1a64 (xs @ b # ys) = Fnv1a64 (xs @ c # ys) \<longleftrightarrow> b = c)"
  by (simp add: schema_hash_constant Fnv1a64_one_byte)

lemma Vec3_scrubbed: "length v = 12 \<Longrightarrow> scrub 12 Vec3_parts v = v"
proof -
  have "in_parts Vec3_parts i" if "i < 12" for i using that by (auto simp: in_parts_def Vec3_parts_def)
  then show "length v = 12 \<Longrightarrow> scrub 12 Vec3_parts v = v" by (intro nth_equalityI) (simp_all add: scrub_nth)
qed

lemma Write_scrubbed: "Write B (MEMORYPACK_UNMANAGED_SCRUBBED sz parts) v = WriteBytes B (scrub sz parts v)"
  by (simp add: Write_def MEMORYPACK_UNMANAGED_SCRUBBED_def)

text \<open>The holder as it arrives: the padding of its one padded member is zero.\<close>

definition received_holder :: "UnmanagedHolder \<Rightarrow> UnmanagedHolder" where
  "received_holder v = v\<lparr>umh_padded := scrub 8 PaddedStruct_parts (umh_padded v)\<rparr>"

lemma holder_sent_alike: "length (umh_padded v) = 8 \<Longrightarrow> Serialize B UnmanagedHolder_formatter (received_holder v) = Serialize B UnmanagedHolder_formatter v"
  by (simp add: Serialize_def Write_styles UnmanagedHolder_formatter_def IMemoryPackable_Serialize_def UnmanagedHolder_members_def member_def
      received_holder_def Write_scrubbed scrub_idem)

lemma received_holder_ok:
  assumes "length (umh_position v) = 12" "length (umh_padded v) = 8" "length (umh_packed v) = 5"
    "\<forall>p. umh_maybeVec v = Some p \<longrightarrow> length p = 12" "\<forall>p \<in> set (umh_points v). length p = 12"
    "length (umh_points v) < 2 ^ 31" "length (mgs_label (umh_managed v)) < 2 ^ 31"
  shows "members_ok UnmanagedHolder_layout (received_holder v)" "struct_fits UnmanagedHolder_layout (received_holder v) default_options 0"
proof -
  show "members_ok UnmanagedHolder_layout (received_holder v)"
    using assms by (simp add: gennest_layouts gentype_layouts received_holder_def scrubbed_ok_def Vec3_scrubbed scrub_idem scrub_nth
        raw_opt_ok_def all_ok_def string_ok_def split: option.split)
  show "struct_fits UnmanagedHolder_layout (received_holder v) default_options 0"
    using assms by (simp add: gennest_layouts gentype_layouts struct_fits_def received_holder_def default_all_fit default_string_fits)
qed





lemma truncated_lengths_UB:
  "fst (vr_Finish (no_exceptions e) (snd (make_vt_reader (no_exceptions e) (make_reader [2])))) = UB"
proof -
  have two: "skip_members B 2 = bind (SkipMember B) (\<lambda>_. bind (SkipMember B) (\<lambda>_. return ()))" for B
    by (simp add: numeral_2_eq_2)
  show ?thesis unfolding truncated_lengths
    by (simp add: two vr_Finish_def SkipMember_def Let_def seq_def bind_def on_in_def modify_def return_def Seek_def
        make_reader_def gets_def word_le_nat_alt)
qed

section \<open>Properties\<close>

text \<open>
  C1: A value of the nested packet type SpawnResponse (a vector of objects with an integer, an
  unmanaged Vector3 of three floats and a string) that Serialize encodes in one program is decoded
  by DeserializeExact in another to the same value, float by float, with no byte left over,
  whether the two programs are compiled with or without exceptions. Both are built for a little-
  endian host, which the static_assert of the unmanaged copy demands.
\<close>

theorem spawn_response_round_trip:
  assumes "unmanaged_assert B" "unmanaged_assert B'"
    and "length es < 2 ^ 31" "\<forall>(i, p, name) \<in> set es. length name < 2 ^ 31"
    and "length (struct_enc SpawnResponse_layout (response_on B es)) \<le> 2 ^ 62"
  shows "\<exists>bs. Serialize B SpawnResponse_formatter (response_on B es) = Ret bs \<and>
    DeserializeExact B' SpawnResponse_formatter bs = Ret (response_on B' es)"
proof -
  let ?v = "response_on B es"
  have "length (sprs_entities ?v) < 2 ^ 31"
    "\<forall>e \<in> set (sprs_entities ?v). length (ent_position e) = 12 \<and> length (ent_name e) < 2 ^ 31"
    using assms(3,4) by (auto simp: response_on_def entity_on_def)
  from SpawnResponse_valid [OF this] assms(5) show ?thesis unfolding response_on_same [OF assms(1,2)]
    using SpawnResponse_packet.serialize [of ?v B] SpawnResponse_packet.deserialize_exact [of ?v B'] by auto
qed

theorem spawn_response_round_trip_witness:
  "\<exists>bs. Serialize (no_exceptions Little) SpawnResponse_formatter
       (response_on (no_exceptions Little) [(1000, (0x3F800000, 0, 0xC0000000), [69, 48])]) = Ret bs \<and>
     DeserializeExact (with_exceptions Little) SpawnResponse_formatter bs =
       Ret (response_on (with_exceptions Little) [(1000, (0x3F800000, 0, 0xC0000000), [69, 48])])"
  by (rule spawn_response_round_trip)
    (simp_all add: unmanaged_assert_def response_on_def entity_on_def SpawnResponse_layout_def SpawnResponse_members_def Entity_layout_def
      Entity_members_def struct_enc_def enc_collection_def enc_length_def enc_string_def)

text \<open>
  C2: TryDeserialize of arbitrary bytes returns a value or an error for every request type of the
  server, for nested objects and for maps: it never reads outside the input (no undefined
  behaviour) and no exception escapes, in builds with and without exceptions.
\<close>

theorem hostile_input_is_reported:
  assumes "length data < 2 ^ 63"
  shows "(\<exists>res. TryDeserialize B EchoRequest_formatter data = Ret res) \<and>
    (\<exists>res. TryDeserialize B SumRequest_formatter data = Ret res) \<and>
    (\<exists>res. TryDeserialize B SpawnRequest_formatter data = Ret res) \<and>
    (\<exists>res. TryDeserialize B SpawnResponse_formatter data = Ret res) \<and>
    (\<exists>res. TryDeserialize B (MapFormatter uint32_formatter string_formatter std_map) data = Ret res)"
  using EchoRequest_packet.try_deserialize_total [OF assms] SumRequest_packet.try_deserialize_total [OF assms]
    SpawnRequest_packet.try_deserialize_total [OF assms] SpawnResponse_packet.try_deserialize_total [OF assms]
    int_string_map.map.try_deserialize_total [OF assms] by blast

theorem hostile_input_is_reported_witness:
  "\<exists>res. TryDeserialize (no_exceptions Little) SpawnResponse_formatter [1, 255, 255, 255, 127, 3] = Ret res"
  using hostile_input_is_reported [of "[1, 255, 255, 255, 127, 3]" "no_exceptions Little"] by simp

text \<open>
  C3: A serialized SpawnResponse that is cut anywhere before its end is reported by every build:
  TryDeserialize returns an error, and Deserialize throws in a build with exceptions.
\<close>

theorem truncated_message_is_rejected:
  assumes "length (sprs_entities v) < 2 ^ 31"
    and "\<forall>e \<in> set (sprs_entities v). length (ent_position e) = 12 \<and> length (ent_name e) < 2 ^ 31"
    and "length (struct_enc SpawnResponse_layout v) \<le> 2 ^ 62"
  shows "\<exists>bs. Serialize B SpawnResponse_formatter v = Ret bs \<and>
    (\<forall>n < length bs. (\<exists>e. e \<noteq> ErrorNone \<and> TryDeserialize B' SpawnResponse_formatter (take n bs) = Ret (Inl e)) \<and>
      (has_exceptions B' \<longrightarrow> (\<exists>e. Deserialize B' SpawnResponse_formatter (take n bs) = Throw e)))"
  using SpawnResponse_packet.serialize [of v B] strict_SpawnResponse.truncated_input [of v _ B']
    SpawnResponse_valid [OF assms(1,2)] assms(3) by (auto simp: server_formatters)

theorem truncated_message_is_rejected_witness:
  "\<exists>bs e. Serialize (no_exceptions Little) SpawnResponse_formatter
       \<lparr>sprs_entities = [\<lparr>ent_id = 1000, ent_position = replicate 12 7, ent_name = [69, 48]\<rparr>]\<rparr> = Ret bs \<and>
     e \<noteq> ErrorNone \<and> TryDeserialize (with_exceptions Little) SpawnResponse_formatter (take 20 bs) = Ret (Inl e)"
proof -
  let ?v = "\<lparr>sprs_entities = [\<lparr>ent_id = 1000, ent_position = replicate 12 7, ent_name = [69, 48]\<rparr>]\<rparr>"
  have v: "length (sprs_entities ?v) < 2 ^ 31"
    "\<forall>e \<in> set (sprs_entities ?v). length (ent_position e) = 12 \<and> length (ent_name e) < 2 ^ 31"
    "length (struct_enc SpawnResponse_layout ?v) \<le> 2 ^ 62" "20 < length (struct_enc SpawnResponse_layout ?v)"
    by (simp_all add: SpawnResponse_layout_def SpawnResponse_members_def Entity_layout_def Entity_members_def
        struct_enc_def enc_collection_def enc_length_def enc_string_def)
  have "Serialize (no_exceptions Little) SpawnResponse_formatter ?v = Ret (struct_enc SpawnResponse_layout ?v)"
    using SpawnResponse_packet.serialize [of ?v "no_exceptions Little"] SpawnResponse_valid [OF v(1,2)] v(3) by simp
  with truncated_message_is_rejected [OF v(1-3), of "no_exceptions Little" "with_exceptions Little"] v(4) show ?thesis by auto
qed

text \<open>
  C4: On a cooperative stream socket the connection answers the packets of the received stream in
  order with the replies of the abstract server, until the first packet without a reply, however
  the stream is cut into chunks; the receive loop ends with the stream.
\<close>

theorem server_answers_the_stream:
  assumes "clock_ok H" "duplex H inp out" "accepts (h_send H)" "delivers (h_recv H) inp"
    and "length (inp w) < 2 ^ 63"
    and "frames (DefaultPacketHeaderPolicy B) MAX_BODY_LENGTH (inp w) = (ms, r)"
  shows "\<exists>c' rs alive. Run B H (make_connection w) = Some (Ret (), c') \<and> served B ms rs alive \<and>
    out (c_world c') = out w @ concat (map (packet_bytes (DefaultPacketHeaderPolicy B)) rs)"
  by (rule Run_answers [OF assms])

theorem server_answers_the_stream_witness:
  "\<exists>c' rs alive. Run (no_exceptions Little) stream_host (make_connection ([7, 0, 0, 0, 0, 0], [])) = Some (Ret (), c') \<and>
     served (no_exceptions Little) [(7, [])] rs alive \<and>
     snd (c_world c') = [] @ concat (map (packet_bytes (DefaultPacketHeaderPolicy (no_exceptions Little))) rs)"
proof -
  let ?P = "DefaultPacketHeaderPolicy (no_exceptions Little)"
  have "packet_bytes ?P (7, []) = [7, 0, 0, 0, 0, 0]" by code_simp
  then have f: "frames ?P MAX_BODY_LENGTH (fst ([7, 0, 0, 0, 0, 0], [])) = ([(7, [])], Some [])"
    using default_policy.frames_packets [of "[(7, [])]" MAX_BODY_LENGTH "no_exceptions Little"] by simp
  from server_answers_the_stream [OF stream_host_ok _ f] show ?thesis by simp
qed

text \<open>
  C5: Whatever bytes a client sends, and whether or not its socket accepts the answers, the
  connection's receive loop ends without undefined behaviour and without an escaping exception.
\<close>

theorem server_is_safe_on_any_stream:
  assumes "clock_ok H" "duplex H inp out" "length (inp w) < 2 ^ 63"
  shows "\<exists>c'. Run B H (make_connection w) = Some (Ret (), c')"
proof -
  obtain ms r where "frames (DefaultPacketHeaderPolicy B) MAX_BODY_LENGTH
      (pending (c_parser (make_connection w)) @ inp (c_world (make_connection w))) = (ms, r)" by fastforce
  from Run_serves [OF assms(1,2) run_state_start [of inp w, OF assms(3)] this] show ?thesis by blast
qed

theorem server_is_safe_on_any_stream_witness:
  "\<exists>c'. Run (with_exceptions Little) stream_host (make_connection ([201, 0, 255, 255, 255, 255, 7], [])) = Some (Ret (), c')"
  by (rule server_is_safe_on_any_stream [OF stream_host_ok(1,2)]) simp



text \<open>
  C7: In every state that the two threads of the console chat client can reach, whatever the
  server sends and the user types: the parser's memory is bounded by one frame and the compaction
  threshold, the end of the session has been reported at most once, and the next receive round and
  the next input line are handled without an exception or undefined behaviour.
\<close>

theorem chat_session_is_safe:
  assumes "chat_start result argv input w = Some c" "short_lines argv" "short_lines input"
    and "recv_bounded H" "(chat_step B H)\<^sup>*\<^sup>* c c'"
  shows "length (fp_buffer (cc_parser c')) \<le> 6 + 65536 + 4096 \<and>
    length (filter report (cc_printed c')) \<le> 1 \<and>
    (\<exists>c''. receive_round B H c' = Some (Ret (), c'')) \<and>
    (\<forall>l. length l < 2 ^ 30 \<longrightarrow> (\<exists>goes_on c''. handle_line B H l c' = (Ret goes_on, c'')))"
proof -
  have "chat_inv c'"
    using chat_start_inv [OF assms(1-3)] chat_reachable_inv [OF assms(5) _ assms(4)] by blast
  with receive_round_returns [OF this assms(4), of B] handle_line_returns [OF this, of _ B H] show ?thesis
    by (auto simp: chat_inv_def reports_def chat_MAX_BODY_LENGTH_def split: if_splits)
qed

theorem chat_session_is_safe_witness:
  "\<exists>c'. chat_step (no_exceptions Little) stream_host (chat_sample ([], [])) c' \<and>
    length (fp_buffer (cc_parser c')) \<le> 6 + 65536 + 4096 \<and> length (filter report (cc_printed c')) \<le> 1 \<and>
    (\<exists>c''. receive_round (no_exceptions Little) stream_host c' = Some (Ret (), c'')) \<and>
    (\<forall>l. length l < 2 ^ 30 \<longrightarrow> (\<exists>goes_on c''. handle_line (no_exceptions Little) stream_host l c' = (Ret goes_on, c'')))"
proof -
  let ?c = "chat_sample ([], [])"
  obtain c' where "receive_round (no_exceptions Little) stream_host ?c = Some (Ret (), c')"
    using receive_round_returns [OF chat_inv_sample recv_bounded_stream] by blast
  then have "chat_step (no_exceptions Little) stream_host ?c c'"
    by (intro chat_step.receive) (simp_all add: chat_sample_def)
  with chat_session_is_safe [OF chat_sample_start chat_sample_lines recv_bounded_stream r_into_rtranclp] show ?thesis
    by blast
qed

text \<open>
  C8: A line /w <user> <message> sends one PrivateChat frame with the sender's name, the target
  and the message; a client that receives this frame, however it is cut, prints the sender, the
  target and the message.
\<close>

theorem chat_whisper_arrives:
  assumes H: "duplex H inp out" "accepts (h_send H)" and H': "recv_bounded H'"
    and u: "length (cc_username c) \<le> 4096"
    and to: "to \<noteq> []" "\<not> blank (hd to)" "32 \<notin> set to" "length to \<le> 4096"
    and m: "message \<noteq> []" "\<not> blank (hd message)" "\<not> blank_end (last message)" "length message \<le> 4096"
    and d: "chat_inv d" "cc_running d" "h_recv H' 4096 (cc_world d) = (chunk, w)" "chunk \<noteq> []"
      "pending (cc_parser d) @ chunk = packet_bytes (DefaultPacketHeaderPolicy B) (ChatPacketId_value PrivateChatId,
         struct_enc PrivateChat_layout \<lparr>pch_senderName = cc_username c, pch_targetName = to, pch_message = message\<rparr>)"
  shows "\<exists>c' d'. handle_line B H (str ''/w '' @ to @ [32] @ message) c = (Ret True, c') \<and>
    out (cc_world c') = out (cc_world c) @ pending (cc_parser d) @ chunk \<and>
    receive_round B H' d = Some (Ret (), d') \<and>
    cc_printed d' = cc_printed d @ [str ''*'' @ cc_username c @ str '' -> '' @ to @ str ''* '' @ message]"
proof -
  let ?v = "\<lparr>pch_senderName = cc_username c, pch_targetName = to, pch_message = message\<rparr>"
  let ?p = "PrivateChatPacket ?v"
  have "length (str ''/w '' @ to @ [32] @ message) < 2 ^ 30" using to(4) m(4) by (simp add: bytes_of_string_def)
  from handle_line_command [OF this, of c B H] u command_whisper [OF to(1-3) m(1-3)]
  have c: "handle_line B H (str ''/w '' @ to @ [32] @ message) c = (Ret True, sent_packet B H ?p c)"
    by (simp add: run_command_def)
  obtain w' where s: "send_exact (h_send H) (pending (cc_parser d) @ chunk) (cc_world c) = (True, w')"
    using send_loop_accepts [OF H(2), of "pending (cc_parser d) @ chunk" 0 "cc_world c"]
    by (metis send_exact_def prod.collapse)
  have o: "out (cc_world (sent_packet B H ?p c)) = out (cc_world c) @ pending (cc_parser d) @ chunk"
    using send_exact_ok [OF _ s, of out] H(1) s d(5) by (simp add: duplex_def sent_packet_def Let_def send_exact_def)
  have ok: "chat_fits ?p"
    using u to(4) m(4) by (simp add: chat_layouts string_ok_def struct_fits_def string_fits_def chat_MakeReaderLimits_def)
  have "length (chat_enc ?p) \<le> chat_MAX_BODY_LENGTH"
    using u to(4) m(4) length_enc_string_le [of "cc_username c"] length_enc_string_le [of to] length_enc_string_le [of message]
    by (simp add: chat_layouts struct_enc_def chat_MAX_BODY_LENGTH_def)
  with receive_round_shows [OF d(1,2) H' d(3,4), of "[?p]" B "[]"] ok d(5)
    default_policy.frames_packets [of "[]" chat_MAX_BODY_LENGTH B]
  obtain d' where "receive_round B H' d = Some (Ret (), d')" "cc_printed d' = cc_printed d @ [chat_line ?p]" by auto
  with c o show ?thesis by simp
qed

theorem chat_whisper_arrives_witness:
  "\<exists>c' d'. handle_line (no_exceptions Little) stream_host (str ''/w '' @ [98] @ [32] @ [104, 105]) (chat_sample ([], [])) = (Ret True, c') \<and>
    snd (cc_world c') = [] @ packet_bytes (DefaultPacketHeaderPolicy (no_exceptions Little)) (ChatPacketId_value PrivateChatId,
      struct_enc PrivateChat_layout \<lparr>pch_senderName = [97], pch_targetName = [98], pch_message = [104, 105]\<rparr>) \<and>
    receive_round (no_exceptions Little) stream_host (chat_sample (snd (cc_world c'), [])) = Some (Ret (), d') \<and>
    last (cc_printed d') = str ''*a -> b* hi''"
proof -
  let ?B = "no_exceptions Little"
  let ?f = "packet_bytes (DefaultPacketHeaderPolicy ?B) (ChatPacketId_value PrivateChatId,
    struct_enc PrivateChat_layout \<lparr>pch_senderName = [97], pch_targetName = [98], pch_message = [104, 105]\<rparr>)"
  have "length ?f = 35"
    by (simp add: packet_bytes_def DefaultPacketHeaderPolicy_def DefaultPacketHeaderPolicy_Write_def struct_enc_def chat_layouts enc_string_def)
  then have f: "?f \<noteq> []" "length ?f \<le> 4096" by auto
  have p: "pending (cc_parser (chat_sample w)) = []" "cc_username (chat_sample w) = [97]" "cc_world (chat_sample w) = w"
      "cc_running (chat_sample w)" for w
    by (simp_all add: chat_sample_def make_chat_client_def make_parser_def pending_def)
  have l: "str ''*'' @ 97 # str '' -> '' @ 98 # str ''* '' @ [104, 105] = str ''*a -> b* hi''" by code_simp
  have r: "h_recv stream_host 4096 (?f, []) = (?f, [], [])" using f(2) by (simp add: stream_host_def)
  from chat_whisper_arrives [OF stream_host_ok(2,3) recv_bounded_stream, where c = "chat_sample ([], [])" and to = "[98]"
      and message = "[104, 105]" and d = "chat_sample (?f, [])" and chunk = ?f and w = "([], [])" and B = ?B] f r
  show ?thesis by (auto simp: p l chat_inv_sample blank_def blank_end_def)
qed

text \<open>
  C9: A packet of the game protocol that is serialized on one build and host and passed with its
  identifier to DispatchPacket on another reaches the handler: the generated packets as the same
  value, and the hand-written ones with fixed arrays (whose counts must lie within the arrays)
  with the same members, counts and elements in use, while the slots behind the count arrive as
  zeros whatever they held.
\<close>

theorem game_dispatch_round_trip:
  assumes "game_sendable p" "length (game_enc p) \<le> 2 ^ 62"
  shows "\<exists>bs. serialize_packet B p = Ret bs \<and>
    DispatchPacket B' (GamePacketId_value (game_id p)) bs handler st = seq (handler (game_received p)) (return True) st"
proof -
  let ?q = "game_received p"
  note q = sendable_received [OF assms(1)]
  have "length (game_enc ?q) \<le> 2 ^ 62" using assms(2) q(3) by simp
  from serialize_packet_enc [OF q(1) this, of B] DispatchPacket_enc [OF q(1) this, of B' handler] q(2-4) show ?thesis by simp
qed

theorem game_dispatch_round_trip_witness:
  "\<exists>bs. serialize_packet (no_exceptions Little) (SkillSlotDataPacket skill_sample) = Ret bs \<and>
    DispatchPacket (with_exceptions Big) 9 bs (\<lambda>p st. (Ret (), st @ [p])) [] =
      (Ret True, [SkillSlotDataPacket \<lparr>ssd_playerId = 7, ssd_skillIds = [1, 2, 0, 0, 0, 0, 0, 0], ssd_skillCount = 2,
         ssd_cooldowns = [5, 0, 0, 0, 0, 0, 0, 0], ssd_cooldownCount = 1\<rparr>])"
proof -
  have "replicate 6 0 = [0, 0, 0, 0, 0, 0 :: u32]" "replicate 7 0 = [0, 0, 0, 0, 0, 0, 0 :: u32]"
    by (simp_all add: eval_nat_numeral)
  then have s: "game_received (SkillSlotDataPacket skill_sample) = SkillSlotDataPacket \<lparr>ssd_playerId = 7,
      ssd_skillIds = [1, 2, 0, 0, 0, 0, 0, 0], ssd_skillCount = 2, ssd_cooldowns = [5, 0, 0, 0, 0, 0, 0, 0], ssd_cooldownCount = 1\<rparr>"
    by (simp add: skill_sample_def used_slots_def)
  have "game_sendable (SkillSlotDataPacket skill_sample)" "length (game_enc (SkillSlotDataPacket skill_sample)) \<le> 2 ^ 62"
    "GamePacketId_value (game_id (SkillSlotDataPacket skill_sample)) = 9"
    by (simp_all add: skill_sample_def slots_ok_def SkillSlotData_enc_def enc_array_def enc_collection_def enc_length_def)
  from game_dispatch_round_trip [OF this(1,2), of "no_exceptions Little" "with_exceptions Big" "\<lambda>p st. (Ret (), st @ [p])" "[]", unfolded s] this(3)
  show ?thesis by (simp add: seq_def)
qed

text \<open>
  C10: Against a server whose ten responses are of the expected types, within the limits and with
  as many item counts as item names, the client program runs all its tests, sends its ten requests
  in order, consumes exactly the responses and exits with 0, however the socket splits the stream.
\<close>

theorem game_client_session_passes:
  assumes "duplex H inp out" "accepts (h_send H)" "delivers (h_recv H) inp"
    and "client_replies qs" "inp w = concat (map (game_frame B) qs) @ rest"
  shows "\<exists>w' now. client_main B H True True w = (Ret 0, w') \<and> inp w' = rest \<and>
    out w' = out w @ concat (map (game_frame B) (client_requests now))"
  by (rule client_main_passes [OF assms])

theorem game_client_session_passes_witness:
  "\<exists>w' now. client_main (no_exceptions Little) stream_host True True (concat (map (game_frame (no_exceptions Little)) echoed_replies) @ [], []) = (Ret 0, w') \<and>
    fst w' = [] \<and> snd w' = [] @ concat (map (game_frame (no_exceptions Little)) (client_requests now))"
  using game_client_session_passes [OF stream_host_ok(2-4) echoed_replies_ok,
    of "(concat (map (game_frame (no_exceptions Little)) echoed_replies) @ [], [])" "no_exceptions Little" "[]"] by simp

text \<open>
  C11: The two styles of the code generator are interchangeable for the structs whose members are
  strings and scalars: the spelled-out serializers of PlainExplicit.hpp and
  DispatchExplicitOff.hpp write the same bytes as the macro of Plain.hpp and Dispatch.hpp, and on
  every input Deserialize, DeserializeExact and TryDeserialize give the same value or the same
  error.
\<close>

theorem explicit_and_macro_styles_agree:
  assumes "length data < 2 ^ 63"
  shows "(\<forall>v. Serialize B PlainLogin_explicit v = Serialize B PlainLogin_formatter v) \<and>
      same_results PlainLogin_explicit PlainLogin_formatter B data \<and>
    (\<forall>v. Serialize B FieldPacket_explicit v = Serialize B FieldPacket_formatter v) \<and>
      same_results FieldPacket_explicit FieldPacket_formatter B data \<and>
    (\<forall>v. Serialize B RecordPacket_explicit v = Serialize B RecordPacket_formatter v) \<and>
      same_results RecordPacket_explicit RecordPacket_formatter B data \<and>
    (\<forall>v. Serialize B DispatchLogin_explicit v = Serialize B DispatchLogin_formatter v) \<and>
      same_results DispatchLogin_explicit DispatchLogin_formatter B data \<and>
    (\<forall>v. Serialize B DispatchResponse_explicit v = Serialize B DispatchResponse_formatter v) \<and>
      same_results DispatchResponse_explicit DispatchResponse_formatter B data"
  using styles_read_alike [OF assms] by (simp add: styles_write_alike)

theorem explicit_and_macro_styles_agree_witness:
  "same_results PlainLogin_explicit PlainLogin_formatter (with_exceptions Big) [1, 0, 0, 0, 0] \<and>
   same_results DispatchResponse_explicit DispatchResponse_formatter (no_exceptions Little) [255]"
  using explicit_and_macro_styles_agree [of "[1, 0, 0, 0, 0]" "with_exceptions Big"]
    explicit_and_macro_styles_agree [of "[255]" "no_exceptions Little"] by simp

text \<open>
  C12: In every state that the Win32 chat client can reach, whatever the server sends and however
  its threads interleave, a message of its window leads to an access outside an array or a buffer
  exactly when it is the private-message button and the selected member's name has 256 or more
  characters, which then overflow the buffer target. The witness is a run that reaches such a
  state with the button enabled, since the names come from the server. Data races are another kind
  of undefined behaviour, which this statement does not exclude.
\<close>

theorem window_overflow_iff_long_name:
  assumes "window_run B W items (make_window l w) as c" "windows_ok W" "\<forall>m. msg = WM_NET m \<longrightarrow> m \<in> set (cw_posted c)"
  shows "fst (WndProc B W msg c) = UB \<longleftrightarrow> msg = WM_COMMAND (CtrlId_value ID_BTN_PM) \<and>
    (\<exists>sel. lb_getcursel W (cw_listUsers c) = Some sel \<and> length (lb_text W sel (cw_listUsers c)) \<ge> 256)"
  using window_UB_iff [OF assms(1,2)] assms(3) by (simp add: name_too_long_def)

theorem window_overflow_iff_long_name_witness:
  "\<exists>as c. window_run (with_exceptions Little) (ascii_windows 100) fst (make_window ([], None) (0, long_name_frame, [])) as c \<and>
     cw_enabled c ID_BTN_PM \<and> fst (WndProc (with_exceptions Little) (ascii_windows 100) (WM_COMMAND 109) c) = UB"
proof -
  obtain as c where c: "window_run (with_exceptions Little) (ascii_windows 100) fst (make_window ([], None) (0, long_name_frame, [])) as c"
     "lb_getcursel (ascii_windows 100) (cw_listUsers c) = Some 0" "length (lb_text (ascii_windows 100) 0 (cw_listUsers c)) = 300"
     "cw_enabled c ID_BTN_PM"
    using long_name_reachable by blast
  from window_overflow_iff_long_name [OF c(1) ascii_windows_ok(1), of "WM_COMMAND 109"] c show ?thesis by auto
qed

text \<open>
  C13: In every run of the Win32 chat client the login button is pressed only while no login was
  accepted, the join button only after an accepted login, and the chat and private-message buttons
  only after a join was answered: the enabling of the controls enforces the order of the protocol.
\<close>

theorem requests_follow_the_answers:
  assumes "window_run B W items (make_window l w) (as @ [Command h]) c"
  shows "(h = ID_BTN_LOGIN \<longrightarrow> (\<forall>a \<in> set as. \<not> accepted_login B a)) \<and> (h = ID_BTN_JOIN \<longrightarrow> (\<exists>a \<in> set as. accepted_login B a)) \<and>
    (h = ID_BTN_SEND \<or> h = ID_BTN_PM \<longrightarrow> (\<exists>a \<in> set as. answered_join B a))"
  by (rule run_order [OF assms])

theorem requests_follow_the_answers_witness:
  "\<exists>as c. window_run (with_exceptions Little) (ascii_windows 100) fst (make_window ([], None) (0, long_name_frame, [])) (as @ [Command ID_BTN_SEND]) c \<and>
     (\<exists>a \<in> set as. answered_join (with_exceptions Little) a)"
proof -
  let ?B = "with_exceptions Little" and ?W = "ascii_windows 100" and ?start = "make_window ([], None) (0, long_name_frame, [])"
  obtain as c where c: "window_run ?B ?W fst ?start as c" "cw_enabled c ID_BTN_PM" "cw_open c"
    using long_name_reachable by blast
  let ?c = "c\<lparr>cw_text := (cw_text c)(ID_EDIT_MESSAGE := [])\<rparr>"
  have en: "cw_enabled c ID_BTN_SEND" "cw_enabled c ID_EDIT_MESSAGE" using run_enabled(3-5) [OF c(1)] c(2) by simp_all
  have s1: "window_step ?B ?W fst c (Edit ID_EDIT_MESSAGE []) ?c"
    using c(3) en(2) by (intro window_step.edit) (simp_all add: edit_limit_def)
  have s2: "window_step ?B ?W fst ?c (Command ID_BTN_SEND) ?c"
    using c(3) en(1) by (intro window_step.command) (simp_all add: WndProc_def on_command_def OnSendChat_def)
  have "window_run ?B ?W fst ?start ((as @ [Edit ID_EDIT_MESSAGE []]) @ [Command ID_BTN_SEND]) ?c"
    by (rule window_run.extend [OF window_run.extend [OF c(1) s1] s2])
  from requests_follow_the_answers [OF this] this show ?thesis by blast
qed

text \<open>
  C14: After the window of the Win32 chat client was closed no handler runs any more: what follows
  are steps of the receive threads that exist, at most 2 ^ 31 + 10 of each, and at most one return
  from wWinMain, after which nothing follows. Until then wWinMain can return, and its exit code is
  the 0 that WM_DESTROY passed to PostQuitMessage.
\<close>

theorem closed_window_ends:
  assumes "window_run B W items (make_window l w) (as @ Close # bs) c" "windows_ok W"
  shows "(\<forall>a \<in> set (butlast bs). \<exists>i < length (cw_threads c). a = ThreadStep i) \<and>
    (bs \<noteq> [] \<longrightarrow> last bs = Leave \<or> (\<exists>i < length (cw_threads c). last bs = ThreadStep i)) \<and>
    (\<forall>i. count_list bs (ThreadStep i) \<le> 2 ^ 31 + 10) \<and>
    (cw_exit c = None \<longrightarrow> window_step B W items c Leave (c\<lparr>cw_exit := Some 0\<rparr>)) \<and>
    (cw_exit c \<noteq> None \<longrightarrow> cw_exit c = Some 0)"
  using closing_ends [OF assms] unfolding closed_actions_def by blast

theorem closed_window_ends_witness:
  "\<exists>c. window_run (no_exceptions Little) (ascii_windows 1) fst (make_window ([], None) (0, [], [])) ([] @ Close # []) c \<and>
     window_step (no_exceptions Little) (ascii_windows 1) fst c Leave (c\<lparr>cw_exit := Some 0\<rparr>)"
proof -
  let ?B = "no_exceptions Little" and ?c = "make_window ([], None) (0, [], []) :: (nat \<times> bytes \<times> bytes, wide list \<times> nat option) chat_window"
  obtain c where s: "window_step ?B (ascii_windows 1) fst ?c Close c" "cw_exit c = None"
    using window_step.close [of ?c ?B "ascii_windows 1" _ fst] by (fastforce simp: destroy_eq)
  then have c: "window_run ?B (ascii_windows 1) fst ?c ([] @ Close # []) c" using window_run.extend [OF window_run.start s(1)] by simp
  from closed_window_ends [OF this ascii_windows_ok(1)] c s(2) show ?thesis by blast
qed

text \<open>
  C15: Two presses of the login button before the first answer lead to two receive threads on the
  same socket, each with a part of the header of the first packet.
\<close>

theorem second_login_shares_the_stream:
  "\<exists>as c. window_run B (ascii_windows 3) fst (make_window l (0, [x0, x1, x2, x3, x4, x5] @ rest, [])) as c \<and>
     cw_threads c = [ReadHeader (Some 1) [x0, x1, x2], ReadHeader (Some 1) [x3, x4, x5]]"
proof -
  let ?W = "ascii_windows 3" and ?s = "Some (1 :: nat)"
  let ?c0 = "make_window l (0, [x0, x1, x2, x3, x4, x5] @ rest, []) :: (nat \<times> bytes \<times> bytes, wide list \<times> nat option) chat_window"
  let ?run = "\<lambda>c. \<exists>as. window_run B ?W fst ?c0 as c" and ?c1 = "?c0\<lparr>cw_text := (cw_text ?c0)(ID_EDIT_USERNAME := [65])\<rparr>"
  have r1: "?run ?c1" by (rule run_step [OF window_run.start window_step.edit]) (simp_all add: edit_limit_def)
  from login_step [of ?c1 0 "[x0, x1, x2, x3, x4, x5] @ rest" "[]" B 3 fst]
  obtain c2 out where c2: "window_step B ?W fst ?c1 (Command ID_BTN_LOGIN) c2" "cw_threads c2 = [LoopHead]" "cw_open c2"
      "cw_world c2 = (1, [x0, x1, x2, x3, x4, x5] @ rest, out)" "cw_exit c2 = None" "cw_enabled c2 ID_BTN_LOGIN"
      "cw_text c2 ID_EDIT_USERNAME = [65]" by fastforce
  from login_step [OF c2(3,6,7,4), of B 3 fst] c2(2,5)
  obtain c3 out' where c3: "window_step B ?W fst c2 (Command ID_BTN_LOGIN) c3" "cw_threads c3 = [LoopHead, LoopHead]"
      "cw_world c3 = (2, [x0, x1, x2, x3, x4, x5] @ rest, out')" "cw_exit c3 = None" "cw_sock c3 = ?s" "cw_running c3" by fastforce
  have r3: "?run c3" using r1 run_step [OF _ c2(1)] run_step [OF _ c3(1)] by blast
  have go: "?run (thread_step B ?W i c)" if "?run c" "i < length (cw_threads c)" "cw_exit c = None" for i c
    using that alone_run [of B ?W i c "thread_step B ?W i c" fst] alone_step [OF alone_refl] run_run by blast
  let ?d1 = "c3\<lparr>cw_threads := [ReadHeader ?s [], LoopHead]\<rparr>" and ?d2 = "c3\<lparr>cw_threads := [ReadHeader ?s [], ReadHeader ?s []]\<rparr>"
  let ?d3 = "c3\<lparr>cw_threads := [ReadHeader ?s [x0, x1, x2], ReadHeader ?s []], cw_world := (2, [x3, x4, x5] @ rest, out')\<rparr>"
  let ?d4 = "c3\<lparr>cw_threads := [ReadHeader ?s [x0, x1, x2], ReadHeader ?s [x3, x4, x5]], cw_world := (2, rest, out')\<rparr>"
  note eval = thread_step_def goto_def recv_more_def ascii_windows_def
  have "thread_step B ?W 0 (thread_step B ?W 0 c3) = ?d1" using c3 by (simp add: eval)
  then have "?run ?d1" using go [of "thread_step B ?W 0 c3" 0] go [of c3 0] r3 c3 by simp
  moreover have "thread_step B ?W 1 (thread_step B ?W 1 ?d1) = ?d2" using c3 by (simp add: eval)
  ultimately have "?run ?d2" using go [of "thread_step B ?W 1 ?d1" 1] go [of ?d1 1] c3 by simp
  moreover have "thread_step B ?W 0 ?d2 = ?d3" using c3 by (simp add: eval)
  ultimately have "?run ?d3" using go [of ?d2 0] c3 by simp
  moreover have "thread_step B ?W 1 ?d3 = ?d4" using c3 by (simp add: eval)
  ultimately have "?run ?d4" using go [of ?d3 1] c3 by simp
  then show ?thesis by fastforce
qed

text \<open>
  C16: An optional union of the three commands (one with a tag above 249), present or null,
  survives writing and reading between any two builds and hosts.
\<close>

theorem nullable_union_round_trip:
  assumes "\<forall>x. v = Some (ChatAlternative x) \<longrightarrow> length (chc_text x) < 2 ^ 31"
  shows "\<exists>bs. Serialize B (optional_object Command_formatter) v = Ret bs \<and>
    DeserializeExact B' (optional_object Command_formatter) bs = Ret v"
proof (rule optional_command.transfer)
  have c: "c = ChatAlternative x \<longrightarrow> length (chc_text x) < 2 ^ 31" if "v = Some c" for c x
    using assms that by simp
  show "opt_ok Command_ok v" "opt_fits Command_fits v default_options 0"
    "length (opt_enc [255] (\<lambda>v. enc_union_tag (variant_tag Command_alternatives v) @ Command_enc v) v) \<le> 2 ^ 62"
    using command_valid c by (cases v; simp add: opt_enc_def)+
qed

theorem nullable_union_round_trip_witness:
  "\<exists>bs. Serialize (no_exceptions Big) (optional_object Command_formatter) (Some (ChatAlternative \<lparr>chc_text = [103, 103]\<rparr>)) = Ret bs \<and>
    DeserializeExact (with_exceptions Little) (optional_object Command_formatter) bs = Ret (Some (ChatAlternative \<lparr>chc_text = [103, 103]\<rparr>))"
  by (rule nullable_union_round_trip) simp

text \<open>
  C17: However a stream of framed packets is cut into received chunks, feeding the chunks to the
  parser delivers exactly these packets in order, and nothing stays buffered.
\<close>

theorem any_chunking_delivers_the_packets:
  assumes "\<forall>m \<in> set ms. length (snd m) < 2 ^ 31 \<and> length (snd m) \<le> limit"
    and "concat received = concat (map (packet_bytes (DefaultPacketHeaderPolicy B)) ms)"
    and "length (concat received) < 2 ^ 63"
  shows "\<exists>p'. feed_all (DefaultPacketHeaderPolicy B) collect received [] (make_parser limit) = Some (Ret True, ms, p') \<and>
    Buffered p' = 0"
  by (rule default_policy.stream_round_trip [OF assms])

theorem any_chunking_delivers_the_packets_witness:
  "\<exists>p'. feed_all (DefaultPacketHeaderPolicy (no_exceptions Little)) collect
      [[201, 0, 2], [0, 0, 0, 72], [73, 204, 0, 0, 0, 0, 0]] [] (make_parser 16) =
      Some (Ret True, [(201, [72, 73]), (204, [])], p') \<and> Buffered p' = 0"
proof -
  have "packet_bytes (DefaultPacketHeaderPolicy (no_exceptions Little)) (201, [72, 73]) = [201, 0, 2, 0, 0, 0, 72, 73]"
    "packet_bytes (DefaultPacketHeaderPolicy (no_exceptions Little)) (204, []) = [204, 0, 0, 0, 0, 0]" by code_simp+
  then show ?thesis by (intro any_chunking_delivers_the_packets) simp_all
qed

text \<open>
  C18: One call of Feed hands to the callback the packets that the abstract parser cuts from the
  pending bytes followed by the new ones, keeps the incomplete rest (nothing after a violation),
  and preserves the class invariant.
\<close>

theorem feed_refines_the_abstract_parser:
  assumes "parser_inv p" "length (fp_buffer p) + length bytes < 2 ^ 63"
    and "frames (DefaultPacketHeaderPolicy B) (fp_maxBodyLength p) (pending p @ bytes) = (ps, rest)"
    and "deliver cb ps st = (Ret (), st')"
  shows "\<exists>p'. Feed (DefaultPacketHeaderPolicy B) bytes cb st p = Some (Ret (rest \<noteq> None), st', p') \<and> parser_inv p' \<and>
    fp_maxBodyLength p' = fp_maxBodyLength p \<and> pending p' = kept rest"
  using default_policy.Feed_frames [OF assms] by blast

theorem feed_refines_the_abstract_parser_witness:
  "\<exists>p'. Feed (DefaultPacketHeaderPolicy (no_exceptions Little)) [7, 0, 1, 0, 0, 0, 9, 8] collect [] (make_parser 4) =
      Some (Ret True, [(7, [9])], p') \<and> parser_inv p' \<and> fp_maxBodyLength p' = fp_maxBodyLength (make_parser 4) \<and> pending p' = kept (Some [8])"
proof -
  have "frames (DefaultPacketHeaderPolicy (no_exceptions Little)) 4 [7, 0, 1, 0, 0, 0, 9, 8] = ([(7, [9])], Some [8])" by code_simp
  then have "\<exists>p'. Feed (DefaultPacketHeaderPolicy (no_exceptions Little)) [7, 0, 1, 0, 0, 0, 9, 8] collect [] (make_parser 4) =
      Some (Ret (Some [8 :: byte] \<noteq> None), [(7, [9])], p') \<and> parser_inv p' \<and>
      fp_maxBodyLength p' = fp_maxBodyLength (make_parser 4) \<and> pending p' = kept (Some [8])"
    by (intro feed_refines_the_abstract_parser [where ps = "[(7, [9])]"])
      (simp_all add: make_parser_def parser_inv_def pending_def collect_def seq_def bind_def modify_def return_def)
  then show ?thesis by simp
qed

text \<open>
  C19: For the six packet types of the server, nested objects included, and for maps of integers
  to strings, a build with exceptions and one without report the same value or the same error code
  for every input.
\<close>

theorem builds_report_the_same:
  assumes "length data < 2 ^ 63"
  shows "reports_alike e data EchoRequest_formatter \<and> reports_alike e data EchoResponse_formatter \<and>
    reports_alike e data SumRequest_formatter \<and> reports_alike e data SumResponse_formatter \<and>
    reports_alike e data SpawnRequest_formatter \<and> reports_alike e data SpawnResponse_formatter \<and>
    reports_alike e data (MapFormatter uint32_formatter string_formatter std_map)"
  unfolding reports_alike_def
  using EchoRequest_packet.try_deserialize_builds [OF assms] EchoResponse_packet.try_deserialize_builds [OF assms]
    SumRequest_packet.try_deserialize_builds [OF assms] SumResponse_packet.try_deserialize_builds [OF assms]
    SpawnRequest_packet.try_deserialize_builds [OF assms] SpawnResponse_packet.try_deserialize_builds [OF assms]
    int_string_map.map.try_deserialize_builds [OF assms] by blast

theorem builds_report_the_same_witness:
  "TryDeserialize (no_exceptions Little) SpawnResponse_formatter [1, 9, 0, 0, 0] =
     TryDeserialize (with_exceptions Little) SpawnResponse_formatter [1, 9, 0, 0, 0]"
  using builds_report_the_same [of "[1, 9, 0, 0, 0]" Little] by (simp add: reports_alike_def)

text \<open>
  C20: What another sender may write that the library itself would not: entries of a map or
  elements of a set in any order and repeated are decoded to the sorted std::map in which the
  first value of every key has won, and to the sorted std::set of the same elements; a std::array
  of N strings takes the first N elements of a longer sequence, dropping the others, and is filled
  up with empty strings when there are fewer.
\<close>

theorem foreign_containers_are_decoded:
  assumes "length kvs < 2 ^ 31" "\<forall>(k, v) \<in> set kvs. length v < 2 ^ 31" "length xs < 2 ^ 31"
    and "length ss < 2 ^ 31" "\<forall>s \<in> set ss. length s < 2 ^ 31"
    and "length (enc_collection (\<lambda>(k, v). le_bytes k @ enc_string v) kvs) < 2 ^ 63" "length (enc_collection enc_string ss) < 2 ^ 63"
  shows "(\<exists>m. Deserialize B (MapFormatter uint32_formatter string_formatter std_map)
        (enc_collection (\<lambda>(k, v). le_bytes k @ enc_string v) kvs) = Ret m \<and>
      sorted_wrt (\<lambda>a b. fst a < fst b) m \<and> map_of m = map_of kvs) \<and>
    (\<exists>c. Deserialize B (SetFormatter uint32_formatter std_set) (enc_collection le_bytes xs) = Ret c \<and>
      sorted_wrt (<) c \<and> set c = set xs) \<and>
    Deserialize B (array_formatter string_formatter N) (enc_collection enc_string ss) = Ret (take N ss @ replicate (N - length ss) [])"
proof (intro conjI)
  let ?m = "foldl (\<lambda>c x. map_emplace x c) [] kvs" and ?c = "foldl (\<lambda>c x. set_insert x c) [] xs"
  have "Deserialize B (MapFormatter uint32_formatter string_formatter std_map)
      (enc_collection (\<lambda>(k, v). le_bytes k @ enc_string v) kvs @ []) = Ret ?m"
    using assms(1,2,6) int_string.decodes_map_entries [of kvs B std_map]
    by (intro Deserialize_decodes [where F = "all_fit (\<lambda>(x, y) opts d. True \<and> string_fits y opts) kvs"])
      (auto simp: std_map_def all_ok_def string_ok_def intro!: default_all_fit)
  with foldl_map_emplace_any [of "[]" kvs] show "\<exists>m. Deserialize B (MapFormatter uint32_formatter string_formatter std_map)
      (enc_collection (\<lambda>(k, v). le_bytes k @ enc_string v) kvs) = Ret m \<and> sorted_wrt (\<lambda>a b. fst a < fst b) m \<and> map_of m = map_of kvs"
    by (intro exI [of _ ?m]) simp
  have "length (enc_collection le_bytes xs) = 4 + length xs * 4"
    using length_concat_map_const [of xs le_bytes 4] by (simp add: enc_collection_def enc_length_def)
  then have "Deserialize B (SetFormatter uint32_formatter std_set) (enc_collection le_bytes xs @ []) = Ret ?c"
    using assms(3) uint32_codec.decodes_set [of xs B std_set]
    by (intro Deserialize_decodes [where F = "all_fit (\<lambda>_ _ _. True) xs"]) (auto simp: std_set_def all_ok_def intro!: default_all_fit)
  with foldl_set_insert_any [of "[]" xs] show "\<exists>c. Deserialize B (SetFormatter uint32_formatter std_set) (enc_collection le_bytes xs) = Ret c \<and>
      sorted_wrt (<) c \<and> set c = set xs"
    by (intro exI [of _ ?c]) simp
  have "Deserialize B (array_formatter string_formatter N) (enc_collection enc_string ss @ []) = Ret (take N ss @ replicate (N - length ss) [])"
    using assms(4,5,7) string_codec.decodes_any_array [of ss B N]
    by (intro Deserialize_decodes [where F = "all_fit (\<lambda>s opts d. string_fits s opts) ss"])
      (auto simp: string_formatter_def all_ok_def string_ok_def intro!: default_all_fit)
  then show "Deserialize B (array_formatter string_formatter N) (enc_collection enc_string ss) = Ret (take N ss @ replicate (N - length ss) [])"
    by simp
qed

theorem foreign_containers_are_decoded_witness:
  "(\<exists>m. Deserialize (with_exceptions Big) (MapFormatter uint32_formatter string_formatter std_map)
        (enc_collection (\<lambda>(k :: u32, v). le_bytes k @ enc_string v) [(5, [65]), (3, [66]), (5, [67])]) = Ret m \<and> map_of m 5 = Some [65]) \<and>
   Deserialize (with_exceptions Big) (array_formatter string_formatter 2) (enc_collection enc_string [[65], [66], [67]]) = Ret [[65], [66]]"
proof -
  let ?kvs = "[(5, [65]), (3, [66]), (5, [67])] :: (u32 \<times> bytes) list" and ?ss = "[[65], [66], [67]] :: bytes list"
  have len: "length (enc_collection (\<lambda>(k, v). le_bytes k @ enc_string v) ?kvs) < 2 ^ 63" "length (enc_collection enc_string ?ss) < 2 ^ 63"
    by (simp_all add: enc_collection_def enc_length_def enc_string_def)
  have p: "\<forall>(k, v) \<in> set ?kvs. length v < 2 ^ 31" "\<forall>s \<in> set ?ss. length s < 2 ^ 31" "length ?kvs < 2 ^ 31" "length ?ss < 2 ^ 31"
    "length ([] :: u32 list) < 2 ^ 31" by simp_all
  note * = foreign_containers_are_decoded [OF p(3,1,5,4,2) len, of "with_exceptions Big" 2]
  obtain m where m: "Deserialize (with_exceptions Big) (MapFormatter uint32_formatter string_formatter std_map)
      (enc_collection (\<lambda>(k, v). le_bytes k @ enc_string v) ?kvs) = Ret m" "map_of m = map_of ?kvs"
    using conjunct1 [OF *] by (elim exE conjE)
  have "map_of m 5 = Some [65]" unfolding m(2) by simp
  moreover have "take 2 ?ss @ replicate (2 - length ?ss) [] = [[65], [66]]" by simp
  ultimately show ?thesis using conjunct2 [OF conjunct2 [OF *]] m(1) by (intro conjI exI [of _ m]) simp_all
qed

text \<open>
  C21: Whatever bytes arrive, decoding a hand-written packet with fixed arrays never stores
  outside an array: TryDeserialize reports an error or returns a packet whose arrays have their
  declared length and whose counts lie within it, also when the input announces more elements than
  there are slots.
\<close>

theorem decoded_packets_keep_their_arrays:
  assumes "length data < 2 ^ 63"
  shows "(\<exists>res. TryDeserialize B SkillSlotData_formatter data = Ret res \<and> (\<forall>s. res = Inr s \<longrightarrow>
       length (ssd_skillIds s) = 8 \<and> unat (ssd_skillCount s) \<le> 8 \<and> length (ssd_cooldowns s) = 8 \<and> unat (ssd_cooldownCount s) \<le> 8)) \<and>
    (\<exists>res. TryDeserialize B MapTileRow_formatter data = Ret res \<and> (\<forall>r. res = Inr r \<longrightarrow>
       length (mtr_tiles r) = 64 \<and> unat (mtr_tileCount r) \<le> 64 \<and> length (mtr_heights r) = 64 \<and> unat (mtr_heightCount r) \<le> 64)) \<and>
    (\<exists>res. TryDeserialize B MixedFormatPacket_formatter data = Ret res \<and> (\<forall>m. res = Inr m \<longrightarrow>
       length (mfp_fixedBonuses m) = 4 \<and> unat (mfp_fixedBonusCount m) \<le> 4 \<and> length (mfp_tagBytes m) = 16 \<and> unat (mfp_tagByteCount m) \<le> 16))"
  using arrays_kept [OF assms, of B] unfolding packet_invs by blast

theorem decoded_packets_keep_their_arrays_witness:
  "\<exists>res. TryDeserialize (with_exceptions Little) SkillSlotData_formatter twelve_skills = Ret res \<and>
     (\<forall>s. res = Inr s \<longrightarrow> length (ssd_skillIds s) = 8 \<and> unat (ssd_skillCount s) \<le> 8)"
proof -
  have "length twelve_skills < 2 ^ 63" by (simp add: enc_collection_def enc_length_def)
  from decoded_packets_keep_their_arrays [OF this, of "with_exceptions Little"] show ?thesis by blast
qed

text \<open>
  C22: Two objects of a MEMORYPACK_UNMANAGED_SCRUBBED type that agree on the listed members are
  sent as the same bytes: each member byte as it is, and zero for every byte of padding.
\<close>

theorem padding_is_scrubbed:
  assumes "length v = sz" "length v' = sz" "parts_inside sz parts" "sz \<le> 2 ^ 62"
    and "\<forall>i < sz. in_parts parts i \<longrightarrow> v ! i = v' ! i"
  shows "\<exists>bs. Serialize B (MEMORYPACK_UNMANAGED_SCRUBBED sz parts) v = Ret bs \<and>
    Serialize B' (MEMORYPACK_UNMANAGED_SCRUBBED sz parts) v' = Ret bs \<and> length bs = sz \<and>
    (\<forall>i < sz. bs ! i = (if in_parts parts i then v ! i else 0))"
  using Serialize_scrubbed [OF assms(1,3,4), of B] Serialize_scrubbed [OF assms(2,3,4), of B'] scrubbed_alike [OF assms(1,2,3,5)]
    scrub_nth [OF assms(1,3)] by simp

theorem padding_is_scrubbed_witness:
  "Serialize (with_exceptions Little) (MEMORYPACK_UNMANAGED_SCRUBBED 8 PaddedStruct_parts) [3, 170, 170, 170, 1, 2, 3, 4] =
     Ret [3, 0, 0, 0, 1, 2, 3, 4] \<and>
   Serialize (no_exceptions Little) (MEMORYPACK_UNMANAGED_SCRUBBED 8 PaddedStruct_parts) [3, 85, 85, 85, 1, 2, 3, 4] =
     Ret [3, 0, 0, 0, 1, 2, 3, 4]"
proof -
  let ?v = "[3, 170, 170, 170, 1, 2, 3, 4] :: bytes" and ?v' = "[3, 85, 85, 85, 1, 2, 3, 4] :: bytes"
  have "\<forall>i < 8. in_parts PaddedStruct_parts i \<longrightarrow> ?v ! i = ?v' ! i"
    by (auto simp: in_parts_def PaddedStruct_parts_def less_Suc_eq numeral_eq_Suc)
  then obtain bs where bs: "Serialize (with_exceptions Little) (MEMORYPACK_UNMANAGED_SCRUBBED 8 PaddedStruct_parts) ?v = Ret bs"
    "Serialize (no_exceptions Little) (MEMORYPACK_UNMANAGED_SCRUBBED 8 PaddedStruct_parts) ?v' = Ret bs" "length bs = 8"
    "\<forall>i < 8. bs ! i = (if in_parts PaddedStruct_parts i then ?v ! i else 0)"
    using padding_is_scrubbed [of ?v 8 ?v' PaddedStruct_parts "with_exceptions Little" "no_exceptions Little"] by auto
  have "bs = map ((!) bs) [0 ..< 8]" using map_nth [of bs] bs(3) by simp
  also have "\<dots> = map (\<lambda>i. if in_parts PaddedStruct_parts i then ?v ! i else 0) [0 ..< 8]" using bs(4) by simp
  also have "\<dots> = [3, 0, 0, 0, 1, 2, 3, 4]" by (simp add: in_parts_def PaddedStruct_parts_def upt_rec)
  finally have "bs = [3, 0, 0, 0, 1, 2, 3, 4]" .
  with bs(1,2) show ?thesis by simp
qed

text \<open>
  C23: A generated struct with unmanaged members (scrubbed, packed, optional and in a vector) and
  a managed one is received as it was sent, object representations included, except that the
  padding of its padded member is zero; sender and receiver are built for little-endian hosts,
  which the static_assert of the unmanaged copy demands.
\<close>

theorem unmanaged_holder_arrives_scrubbed:
  assumes "unmanaged_assert B" "unmanaged_assert B'" "length (umh_position v) = 12" "length (umh_padded v) = 8" "length (umh_packed v) = 5"
    and "\<forall>p. umh_maybeVec v = Some p \<longrightarrow> length p = 12" "\<forall>p \<in> set (umh_points v). length p = 12"
    and "length (umh_points v) < 2 ^ 31" "length (mgs_label (umh_managed v)) < 2 ^ 31"
    and "length (struct_enc UnmanagedHolder_layout v) \<le> 2 ^ 62"
  shows "\<exists>bs. Serialize B UnmanagedHolder_formatter v = Ret bs \<and>
    DeserializeExact B' UnmanagedHolder_formatter bs = Ret (v\<lparr>umh_padded := scrub 8 PaddedStruct_parts (umh_padded v)\<rparr>)"
proof -
  note ok = received_holder_ok [OF assms(3-9)]
  have "length (struct_enc UnmanagedHolder_layout (received_holder v)) \<le> 2 ^ 62"
    using assms(4,10) by (simp add: struct_enc_def gennest_layouts received_holder_def scrub_idem)
  moreover from this ok(1) have "Serialize B UnmanagedHolder_formatter v = Ret (struct_enc UnmanagedHolder_layout (received_holder v))"
    using UnmanagedHolder.serialize [of "received_holder v" B] holder_sent_alike [OF assms(4), of B] by (simp add: gennest_formatters)
  ultimately show ?thesis
    using ok UnmanagedHolder.deserialize_exact [of "received_holder v" B'] by (simp add: gennest_formatters received_holder_def)
qed

theorem unmanaged_holder_arrives_scrubbed_witness:
  "\<exists>bs. Serialize (with_exceptions Little) UnmanagedHolder_formatter (UnmanagedHolder_init\<lparr>umh_padded := [1, 170, 170, 170, 2, 0, 0, 0]\<rparr>) = Ret bs \<and>
    DeserializeExact (no_exceptions Little) UnmanagedHolder_formatter bs = Ret (UnmanagedHolder_init\<lparr>umh_padded := [1, 0, 0, 0, 2, 0, 0, 0]\<rparr>)"
proof -
  let ?v = "UnmanagedHolder_init\<lparr>umh_padded := [1, 170, 170, 170, 2, 0, 0, 0]\<rparr>"
  have "length (struct_enc UnmanagedHolder_layout ?v) \<le> 2 ^ 62"
    by (simp add: struct_enc_def gennest_layouts gentype_layouts UnmanagedHolder_init_def ManagedStruct_init_def scrub_def scrub_member_def
        Vec3_parts_def PaddedStruct_parts_def raw_nullable_enc_def NullableLayout_Size_def enc_collection_def enc_length_def enc_string_def)
  then have "\<exists>bs. Serialize (with_exceptions Little) UnmanagedHolder_formatter ?v = Ret bs \<and>
      DeserializeExact (no_exceptions Little) UnmanagedHolder_formatter bs = Ret (?v\<lparr>umh_padded := scrub 8 PaddedStruct_parts (umh_padded ?v)\<rparr>)"
    by (intro unmanaged_holder_arrives_scrubbed) (simp_all add: UnmanagedHolder_init_def ManagedStruct_init_def unmanaged_assert_def)
  then show ?thesis by (simp add: scrub_def scrub_member_def PaddedStruct_parts_def numeral_eq_Suc)
qed



text \<open>
  C25: A collection length that ReadCollectionLength accepts is within the configured limit, and
  that many elements of the minimal size are really present in the input, so a forged length
  cannot make the reader allocate more than the input justifies.
\<close>

theorem accepted_length_is_bounded:
  assumes "reader_inv r" "r_error r = ErrorNone"
    and "ReadCollectionLength B k r = (Ret n, s)" "r_error s = ErrorNone" "0 \<le> sint n"
  shows "n \<le> maxCollectionLength (r_options r) \<and> unat n * k \<le> Remaining s \<and> r_pos s = r_pos r + 4"
  by (rule ReadCollectionLength_bound [OF assms])

theorem accepted_length_is_bounded_witness:
  "\<exists>n s. ReadCollectionLength (no_exceptions Little) 2 (make_reader [1, 0, 0, 0, 5, 6]) = (Ret n, s) \<and>
     n \<le> maxCollectionLength default_options \<and> unat n * 2 \<le> Remaining s \<and> r_pos s = 4"
proof -
  let ?r = "make_reader [1, 0, 0, 0, 5, 6]"
  have d: "decodes any_limits (ReadRaw (no_exceptions Little)) (le_bytes (1 :: u32)) (1 :: u32)" by (rule decodes_ReadRaw) simp
  have e: "le_bytes (1 :: u32) = [1, 0, 0, 0]" by code_simp
  have raw: "ReadRaw (no_exceptions Little) ?r = (Ret (1 :: u32), ?r\<lparr>r_pos := 4\<rparr>)"
    using decodesD [OF d, of ?r "[5, 6]"] by (simp add: e make_reader_def)
  have s: "ReadCollectionLength (no_exceptions Little) 2 ?r = (Ret 1, ?r\<lparr>r_pos := 4\<rparr>)"
    using raw by (simp add: ReadCollectionLength_def bind_def gets_def Remaining_def make_reader_def
        default_options_def return_def word_less_nat_alt)
  have "reader_inv ?r" "r_options ?r = default_options" "r_error ?r = ErrorNone" "r_pos ?r = 0" by (simp_all add: make_reader_def)
  with accepted_length_is_bounded [OF _ _ s] s show ?thesis by simp
qed

text \<open>
  C26: A VersionTolerant object of three members, read by a reader that knows the first two, gives
  these two members, and Finish positions the input exactly after the object.
\<close>

theorem version_tolerant_reader_skips_unknown_members:
  assumes "length t < 2 ^ 31" "length rest < 2 ^ 62"
  shows "\<exists>st bs s0 s1. seq (WriteMember B uint32_formatter a) (seq (WriteMember B string_formatter t)
      (seq (WriteMember B uint64_formatter c) (vt_Finish B))) (make_vt_writer writer_default) = (Ret (), st) \<and>
    GetSpan (vw_out st) = bs \<and> make_vt_reader B' (make_reader (bs @ rest)) = (Ret (), s0) \<and>
    bind (ReadMember B' uint32_formatter 0) (\<lambda>x. bind (ReadMember B' string_formatter []) (\<lambda>y.
      seq (vr_Finish B') (return (x, y)))) s0 = (Ret ((a, True), (t, True)), s1) \<and>
    r_pos (vr_in s1) = length bs"
proof -
  let ?bss = "[le_bytes a, enc_string t, le_bytes c]" and ?r = "make_reader (vt_enc [le_bytes a, enc_string t, le_bytes c] @ rest)"
  have small: "length (vt_enc ?bss @ rest) < 2 ^ 63" "length (enc_string t) < 2 ^ 32"
    using assms by (simp_all add: vt_enc_def enc_varint_def enc_string_def)
  obtain st where st: "seq (WriteMember B uint32_formatter a) (seq (WriteMember B string_formatter t)
      (seq (WriteMember B uint64_formatter c) (vt_Finish B))) (make_vt_writer writer_default) = (Ret (), st)"
    "GetSpan (vw_out st) = vt_enc ?bss" using vt_three_members [OF assms(1)] by blast
  have r: "reader_inv ?r" "r_error ?r = ErrorNone" "drop (r_pos ?r) (r_data ?r) = vt_enc ?bss @ rest"
    using small by (simp_all add: make_reader_def)
  obtain s0 P where s0: "make_vt_reader B' ?r = (Ret (), s0)" "vt_at ?r P ?bss 0 s0"
      "P + length (concat ?bss) = length (vt_enc ?bss)"
    using make_vt_reader_at [OF r, of B'] small(2) by (auto simp: make_reader_def)
  have fits: "string_fits t (r_options ?r)" using assms(1) by (simp add: make_reader_def)
  obtain s1 where s1: "ReadMember B' uint32_formatter 0 s0 = (Ret (a, True), s1)" "vt_at ?r P ?bss 1 s1"
    using ReadMember_at [OF s0(2), of any_limits B' uint32_formatter 0 "le_bytes a" a "[]"]
      uint32_codec.reads [OF TrueI, where v = a and B = B' and ?v0.0 = 0] by auto
  obtain s2 where s2: "ReadMember B' string_formatter [] s1 = (Ret (t, True), s2)" "vt_at ?r P ?bss 2 s2"
    using ReadMember_at [OF s1(2), of "\<lambda>opts d. string_fits t opts" B' string_formatter "[]" "enc_string t" t "[]"]
      string_codec.reads [where v = t and B = B' and ?v0.0 = "[]"] assms(1) fits by (auto simp: string_ok_def numeral_2_eq_2)
  obtain s3 where "vr_Finish B' s2 = (Ret (), s3)" "vr_in s3 = ?r\<lparr>r_pos := P + length (concat ?bss)\<rparr>"
    using vr_Finish_at [OF s2(2)] by blast
  then show ?thesis using st s0 s1(1) s2(1) by (auto simp: seq_def bind_def return_def)
qed

theorem version_tolerant_reader_skips_unknown_members_witness:
  "\<exists>st bs s0 s1. seq (WriteMember (no_exceptions Little) uint32_formatter 5) (seq (WriteMember (no_exceptions Little) string_formatter [65])
      (seq (WriteMember (no_exceptions Little) uint64_formatter 9) (vt_Finish (no_exceptions Little)))) (make_vt_writer writer_default) = (Ret (), st) \<and>
    GetSpan (vw_out st) = bs \<and> make_vt_reader (with_exceptions Big) (make_reader (bs @ [1, 2])) = (Ret (), s0) \<and>
    bind (ReadMember (with_exceptions Big) uint32_formatter 0) (\<lambda>x. bind (ReadMember (with_exceptions Big) string_formatter []) (\<lambda>y.
      seq (vr_Finish (with_exceptions Big)) (return (x, y)))) s0 = (Ret ((5, True), ([65], True)), s1) \<and>
    r_pos (vr_in s1) = length bs"
  by (rule version_tolerant_reader_skips_unknown_members) simp_all

text \<open>
  C27: A generated struct with maps, a set, a pair, nested vectors and nullable scalars survives
  writing and reading between any two builds and hosts.
\<close>

theorem collection_packet_round_trip:
  assumes "signed_keys (clp_scores v)" "sorted_wrt (\<lambda>a b. fst a < fst b) (clp_lookup v)"
    and "sorted_wrt (\<lambda>a b. sint a < sint b) (clp_tags v)"
    and "\<forall>s \<in> snd ` set (clp_scores v) \<union> fst ` set (clp_lookup v) \<union> {snd (clp_head v)}. length s < 2 ^ 31"
    and "\<forall>row \<in> set (clp_rows v). length row < 2 ^ 31"
    and "length (clp_scores v) < 2 ^ 31" "length (clp_lookup v) < 2 ^ 31" "length (clp_tags v) < 2 ^ 31" "length (clp_rows v) < 2 ^ 31"
    and "length (struct_enc CollectionPacket_layout v) \<le> 2 ^ 62"
  shows "\<exists>bs. Serialize B CollectionPacket_formatter v = Ret bs \<and> DeserializeExact B' CollectionPacket_formatter bs = Ret v"
proof -
  have s: "length (snd e) < 2 ^ 31" if "e \<in> set (clp_scores v)" for e using assms(4) that by auto
  have l: "length (fst e) < 2 ^ 31" if "e \<in> set (clp_lookup v)" for e using assms(4) that by auto
  have h: "length (snd (clp_head v)) < 2 ^ 31" using assms(4) by auto
  have "members_ok CollectionPacket_layout v"
    using assms(1-3,5-9) s l h
    by (simp add: gennest_layouts all_ok_def string_ok_def signed_map_def std_map_def signed_set_def case_prod_beta)
  moreover have "struct_fits CollectionPacket_layout v default_options 0"
    using assms(5-9) s l h
    by (auto simp: gennest_layouts struct_fits_def signed_map_def std_map_def signed_set_def case_prod_beta intro!: default_all_fit default_string_fits)
  ultimately show ?thesis
    using assms(10) CollectionPacket.serialize [of v B] CollectionPacket.deserialize_exact [of v B'] by (simp add: gennest_formatters)
qed

theorem collection_packet_round_trip_witness:
  "\<exists>bs. Serialize (with_exceptions Big) CollectionPacket_formatter
       (CollectionPacket_init\<lparr>clp_scores := [(-1, [65]), (1, [])], clp_tags := [-5, 3]\<rparr>) = Ret bs \<and>
     DeserializeExact (no_exceptions Little) CollectionPacket_formatter bs =
       Ret (CollectionPacket_init\<lparr>clp_scores := [(-1, [65]), (1, [])], clp_tags := [-5, 3]\<rparr>)"
  by (rule collection_packet_round_trip)
    (simp_all add: CollectionPacket_init_def struct_enc_def gennest_layouts signed_map_def std_map_def signed_set_def enc_collection_def
      enc_length_def enc_string_def nullable_enc_def NullableLayout_Size_def)

text \<open>
  C28: An EchoRequest of at most 4096 bytes of text is answered by an EchoResponse with the same
  sequence number and the text in which each of the 26 letters a to z is replaced by the
  corresponding letter A to Z and every other byte is kept.
\<close>

theorem server_echoes_in_upper_case:
  assumes "clock_ok H" "duplex H inp out" "accepts (h_send H)" "delivers (h_recv H) inp"
    and len_text: "length (erq_text rq) \<le> 4096"
    and inp: "inp w = packet_bytes (DefaultPacketHeaderPolicy B)
      (PacketId_value EchoRequestId, struct_enc EchoRequest_layout rq)"
  shows "\<exists>c' now. Run B H (make_connection w) = Some (Ret (), c') \<and>
    out (c_world c') = out w @ packet_bytes (DefaultPacketHeaderPolicy B) (PacketId_value EchoResponseId,
      struct_enc EchoResponse_layout
        \<lparr>ers_seq = erq_seq rq, ers_text = map ascii_upper (erq_text rq), ers_serverTimeTicks = now\<rparr>)"
proof -
  have ok: "members_ok EchoRequest_layout rq" "struct_fits EchoRequest_layout rq MakeReaderLimits 0"
    using len_text by (simp_all add: server_layouts string_ok_def struct_fits_def string_fits_def)
  have len: "length (struct_enc EchoRequest_layout rq) \<le> MAX_BODY_LENGTH"
    using len_text length_enc_string_le [of "erq_text rq"] by (simp add: server_layouts struct_enc_def MAX_BODY_LENGTH_def)
  then have "decoded B EchoRequest_formatter (struct_enc EchoRequest_layout rq) = Some rq"
    by (intro EchoRequest_packet.decoded_enc [OF ok]) (simp add: MAX_BODY_LENGTH_def)
  then have "reply B now (201, struct_enc EchoRequest_layout rq) =
      Some (202, struct_enc EchoResponse_layout (echo_response now rq))" for now
    by (simp add: reply_def)
  from Run_answers_one [OF assms(1-4) inp _ this [folded PacketId_value.simps]] len
  show ?thesis by (simp add: echo_response_def)
qed

theorem server_echoes_in_upper_case_witness:
  "\<exists>c' now. Run (no_exceptions Little) stream_host (make_connection (packet_bytes (DefaultPacketHeaderPolicy (no_exceptions Little))
      (PacketId_value EchoRequestId, struct_enc EchoRequest_layout \<lparr>erq_seq = 7, erq_text = [104, 122, 33]\<rparr>), [])) = Some (Ret (), c') \<and>
    snd (c_world c') = [] @ packet_bytes (DefaultPacketHeaderPolicy (no_exceptions Little)) (PacketId_value EchoResponseId,
      struct_enc EchoResponse_layout \<lparr>ers_seq = 7, ers_text = [72, 90, 33], ers_serverTimeTicks = now\<rparr>)"
proof -
  let ?rq = "\<lparr>erq_seq = 7, erq_text = [104, 122, 33]\<rparr>"
  have "map ascii_upper [104, 122, 33] = [72, 90, 33]" by (simp add: ascii_upper_def bytes_of_string_def)
  with server_echoes_in_upper_case [OF stream_host_ok, where rq = ?rq and B = "no_exceptions Little" and
    w = "(packet_bytes (DefaultPacketHeaderPolicy (no_exceptions Little)) (PacketId_value EchoRequestId, struct_enc EchoRequest_layout ?rq), [])"]
  show ?thesis by simp
qed

text \<open>
  C29: A SumRequest of at most 4096 values is answered by their exact sum as a 64-bit integer; the
  additions do not overflow.
\<close>

theorem server_sums_exactly:
  assumes "clock_ok H" "duplex H inp out" "accepts (h_send H)" "delivers (h_recv H) inp"
    and vs: "length vs \<le> 4096"
    and inp: "inp w = packet_bytes (DefaultPacketHeaderPolicy B)
      (PacketId_value SumRequestId, struct_enc SumRequest_layout \<lparr>srq_values = vs\<rparr>)"
  shows "\<exists>c' t. Run B H (make_connection w) = Some (Ret (), c') \<and> sint t = sum_list (map sint vs) \<and>
    out (c_world c') = out w @ packet_bytes (DefaultPacketHeaderPolicy B) (PacketId_value SumResponseId,
      struct_enc SumResponse_layout \<lparr>srs_total = t\<rparr>)"
proof -
  let ?rq = "\<lparr>srq_values = vs\<rparr>" and ?t = "word_of_int (sum_list (map sint vs)) :: u64"
  have t: "sint ?t = sum_list (map sint vs)" using vs sum_bound [of vs] by (simp add: sint_of_int_64)
  have ok: "members_ok SumRequest_layout ?rq" "struct_fits SumRequest_layout ?rq MakeReaderLimits 0"
    using vs by (simp_all add: server_layouts all_ok_def struct_fits_def all_fit_def)
  have "length (enc_collection le_bytes vs) = 4 + length vs * 4"
    using length_concat_map_const [of vs le_bytes 4] by (simp add: enc_collection_def enc_length_def)
  then have len: "length (struct_enc SumRequest_layout ?rq) \<le> MAX_BODY_LENGTH"
    using vs by (simp add: server_layouts struct_enc_def MAX_BODY_LENGTH_def)
  then have "decoded B SumRequest_formatter (struct_enc SumRequest_layout ?rq) = Some ?rq"
    by (intro SumRequest_packet.decoded_enc [OF ok]) (simp add: MAX_BODY_LENGTH_def)
  with vs have "reply B now (203, struct_enc SumRequest_layout ?rq) =
      Some (204, struct_enc SumResponse_layout \<lparr>srs_total = ?t\<rparr>)" for now
    by (simp add: reply_def sum_response_def)
  from Run_answers_one [OF assms(1-4) inp _ this [folded PacketId_value.simps]] len t
  show ?thesis by auto
qed

theorem server_sums_exactly_witness:
  "\<exists>c' t. Run (with_exceptions Big) stream_host (make_connection (packet_bytes (DefaultPacketHeaderPolicy (with_exceptions Big))
      (PacketId_value SumRequestId, struct_enc SumRequest_layout \<lparr>srq_values = [0x7FFFFFFF, 0x7FFFFFFF, -1]\<rparr>), [])) = Some (Ret (), c') \<and>
    sint t = 4294967293 \<and>
    snd (c_world c') = [] @ packet_bytes (DefaultPacketHeaderPolicy (with_exceptions Big)) (PacketId_value SumResponseId,
      struct_enc SumResponse_layout \<lparr>srs_total = t\<rparr>)"
proof -
  let ?vs = "[0x7FFFFFFF, 0x7FFFFFFF, -1] :: u32 list"
  have "sum_list (map sint ?vs) = 4294967293" by code_simp
  with server_sums_exactly [OF stream_host_ok, where vs = ?vs and B = "with_exceptions Big" and
    w = "(packet_bytes (DefaultPacketHeaderPolicy (with_exceptions Big)) (PacketId_value SumRequestId, struct_enc SumRequest_layout \<lparr>srq_values = ?vs\<rparr>), [])"]
  show ?thesis by simp
qed

text \<open>
  C30: A string that ReadString returns, in either wire form and whatever length its header
  declares, is at most twice as long as the whole input and has at most four bytes for each unit
  of the configured maxStringLength.
\<close>

theorem decoded_string_is_bounded:
  assumes "length input < 2 ^ 63" "ReadString B (make_reader_with input options) = (Ret (Some s), r)"
  shows "length s \<le> 2 * length input \<and> length s \<le> 4 * unat (maxStringLength options)"
  using yieldsD [OF yields_ReadString _ assms(2)] ReadString_limit [OF _ assms(2)] assms(1) by simp

theorem decoded_string_is_bounded_witness:
  "\<exists>r. ReadString (no_exceptions Little) (make_reader_with [0xFD, 0xFF, 0xFF, 0xFF, 2, 0, 0, 0, 104, 105]
       \<lparr>maxCollectionLength = 8, maxStringLength = 2, maxDepth = 4\<rparr>) = (Ret (Some [104, 105]), r) \<and> length [104 :: byte, 105] \<le> 4 * 2"
proof -
  let ?in = "[0xFD :: byte, 0xFF, 0xFF, 0xFF, 2, 0, 0, 0, 104, 105]" and ?o = "\<lparr>maxCollectionLength = 8, maxStringLength = 2, maxDepth = 4\<rparr>"
  have "enc_string [104, 105] = ?in" by code_simp
  then have "ReadString (no_exceptions Little) (make_reader_with ?in ?o) = (Ret (Some [104, 105]), (make_reader_with ?in ?o)\<lparr>r_pos := length ?in\<rparr>)"
    using decodesD [OF decodes_ReadString [of "[104, 105]" "\<lambda>opts d. string_fits [104, 105] opts" "no_exceptions Little"], of "make_reader_with ?in ?o" "[]"]
    by (simp add: make_reader_with_def reader_inv_def string_fits_def)
  with decoded_string_is_bounded [OF _ this] show ?thesis by simp
qed

text \<open>
  C31: SerializeTo of one of the server's response types (EchoResponse, SumResponse,
  SpawnResponse) into a buffer that is too small throws BufferOverflow, or returns 0 in a build
  without exceptions, and never writes outside the buffer.
\<close>

theorem fixed_buffer_overflow_is_reported:
  assumes "length mem < 2 ^ 64"
  shows "(length (ers_text v) < 2 ^ 31 \<longrightarrow> length mem < length (struct_enc EchoResponse_layout v) \<longrightarrow>
      reports_overflow B EchoResponse_formatter mem v) \<and>
    (length mem < length (struct_enc SumResponse_layout u) \<longrightarrow> reports_overflow B SumResponse_formatter mem u) \<and>
    (length (sprs_entities x) < 2 ^ 31 \<longrightarrow>
      (\<forall>e \<in> set (sprs_entities x). length (ent_position e) = 12 \<and> length (ent_name e) < 2 ^ 31) \<longrightarrow>
      length mem < length (struct_enc SpawnResponse_layout x) \<longrightarrow> reports_overflow B SpawnResponse_formatter mem x)"
proof (intro conjI impI)
  show "reports_overflow B EchoResponse_formatter mem v"
    if "length (ers_text v) < 2 ^ 31" "length mem < length (struct_enc EchoResponse_layout v)"
    unfolding reports_overflow_def by (rule EchoResponse_packet.serialize_to_small [OF _ that(2) assms])
      (use that(1) in \<open>simp add: EchoResponse_layout_def EchoResponse_members_def string_ok_def\<close>)
  show "reports_overflow B SumResponse_formatter mem u" if "length mem < length (struct_enc SumResponse_layout u)"
    unfolding reports_overflow_def by (rule SumResponse_packet.serialize_to_small [OF _ that assms])
      (simp add: SumResponse_layout_def SumResponse_members_def)
  show "reports_overflow B SpawnResponse_formatter mem x" if "length (sprs_entities x) < 2 ^ 31"
    "\<forall>e \<in> set (sprs_entities x). length (ent_position e) = 12 \<and> length (ent_name e) < 2 ^ 31"
    "length mem < length (struct_enc SpawnResponse_layout x)"
    unfolding reports_overflow_def
    by (rule SpawnResponse_packet.serialize_to_small [OF SpawnResponse_valid(1) [OF that(1,2)] that(3) assms])
qed

theorem fixed_buffer_overflow_is_reported_witness:
  "\<exists>mem'. SerializeTo (no_exceptions Little) EchoResponse_formatter (Some [0, 0, 0])
       \<lparr>ers_seq = 1, ers_text = [72, 73], ers_serverTimeTicks = 2\<rparr> = (Ret 0, mem') \<and> length mem' = 3"
proof -
  let ?v = "\<lparr>ers_seq = 1, ers_text = [72, 73], ers_serverTimeTicks = 2\<rparr>"
  have "length [0 :: byte, 0, 0] < length (struct_enc EchoResponse_layout ?v)"
    by (simp add: EchoResponse_layout_def EchoResponse_members_def struct_enc_def)
  then have "reports_overflow (no_exceptions Little) EchoResponse_formatter [0, 0, 0] ?v"
    by (intro fixed_buffer_overflow_is_reported [THEN conjunct1, rule_format]) simp_all
  then show ?thesis by (auto simp: reports_overflow_def)
qed

text \<open>
  C32: The Win32 chat client has a data race on the plain global g_sock: after a login a state is
  reachable in which the next step of the receive thread reads g_sock while the handler of
  WM_DESTROY assigns it. Nothing orders the two: both orders are runs, and the thread then
  receives from the socket, or from INVALID_SOCKET.
\<close>

theorem closing_races_with_the_thread:
  "\<exists>as c. window_run B (ascii_windows k) fst (make_window l (0, input, [])) as c \<and> cw_open c \<and> sock_race B (ascii_windows k) c 0 WM_DESTROY \<and>
     (\<exists>c1. window_run B (ascii_windows k) fst c [ThreadStep 0, Close] c1 \<and> cw_threads c1 ! 0 = ReadHeader (Some 0) []) \<and>
     (\<exists>c2. window_run B (ascii_windows k) fst c [Close, ThreadStep 0] c2 \<and> cw_threads c2 ! 0 = ReadHeader None [])"
proof -
  let ?W = "ascii_windows k"
  let ?c0 = "make_window l (0, input, []) :: (nat \<times> bytes \<times> bytes, wide list \<times> nat option) chat_window"
  let ?c1 = "?c0\<lparr>cw_text := (cw_text ?c0)(ID_EDIT_USERNAME := [65])\<rparr>"
  have r1: "\<exists>as. window_run B ?W fst ?c0 as ?c1" by (rule run_step [OF window_run.start window_step.edit]) (simp_all add: edit_limit_def)
  from login_step [of ?c1 0 input "[]" B k fst] obtain c2 where c2: "window_step B ?W fst ?c1 (Command ID_BTN_LOGIN) c2"
      "cw_threads c2 = [LoopHead]" "cw_open c2" "cw_exit c2 = None" "cw_sock c2 = Some 0" "cw_running c2"
    by fastforce
  define c where "c = thread_step B ?W 0 c2"
  have c: "cw_threads c = [Calling]" "cw_open c" "cw_exit c = None" "cw_sock c = Some 0"
    using c2 by (simp_all add: c_def) (simp add: thread_step_def goto_def)
  have "window_step B ?W fst c2 (ThreadStep 0) c" unfolding c_def using c2 by (intro window_step.thread) simp_all
  with r1 c2(1) run_step obtain as where run: "window_run B ?W fst ?c0 as c" by meson
  have race: "sock_race B ?W c 0 WM_DESTROY" using c by (simp add: sock_race_def destroy_eq)
  from run c(2) race close_race_orders(1,2) [OF race c(2), where items = fst] show ?thesis unfolding c(4) by blast
qed

text \<open>
  C33: A union with a tag that no alternative has is read as the initial value of the first
  alternative, the rest of the input is discarded and no error is reported, not even by
  DeserializeExact.
\<close>

theorem unknown_union_tag_is_silent:
  assumes "t \<notin> {0, 1, 300}" "length bs < 2 ^ 62"
  shows "TryDeserialize B Command_formatter (enc_union_tag t @ bs) = Ret (Inr (MoveAlternative MoveCommand_init)) \<and>
    DeserializeExact B Command_formatter (enc_union_tag t @ bs) = Ret (MoveAlternative MoveCommand_init)"
  using unknown_tag_reads_default [OF assms] by simp

theorem unknown_union_tag_is_silent_witness:
  "TryDeserialize (with_exceptions Little) Command_formatter (enc_union_tag 7 @ [1, 2, 3]) = Ret (Inr (MoveAlternative MoveCommand_init)) \<and>
    DeserializeExact (with_exceptions Little) Command_formatter (enc_union_tag 7 @ [1, 2, 3]) = Ret (MoveAlternative MoveCommand_init)"
  by (rule unknown_union_tag_is_silent) simp_all

text \<open>
  C34: An inventory response with fewer counts than names is decoded without an error, and
  printing it reads beyond the end of the counts.
\<close>

theorem short_inventory_reads_out_of_bounds:
  assumes "duplex H inp out" "accepts (h_send H)" "delivers (h_recv H) inp"
    and "game_ok (InventoryDataPacket v)" "length (game_enc (InventoryDataPacket v)) < 2 ^ 31"
      "length (inv_itemCounts v) < length (inv_itemNames v)"
    and "inp w = game_frame B (InventoryDataPacket v) @ rest"
  shows "\<exists>w'. test_inventory B H w = (UB, w')"
  by (rule test_inventory_UB [OF assms])

theorem short_inventory_reads_out_of_bounds_witness:
  "\<exists>w'. test_inventory (with_exceptions Little) stream_host (game_frame (with_exceptions Little)
      (InventoryDataPacket \<lparr>inv_playerId = 1, inv_itemNames = [[65]], inv_itemCounts = []\<rparr>) @ [], []) = (UB, w')"
  by (rule short_inventory_reads_out_of_bounds [OF stream_host_ok(2-4), where v = "\<lparr>inv_playerId = 1, inv_itemNames = [[65]], inv_itemCounts = []\<rparr>" and rest = "[]"])
    (simp_all add: game_layouts struct_enc_def struct_fits_def string_ok_def string_fits_def all_ok_def all_fit_def
      default_options_def enc_string_def enc_collection_def enc_length_def)

text \<open>
  C35: The length field that WriteString computes with the eight-byte fast path is the number of
  UTF-16 units of the encoded code points.
\<close>

theorem utf16_length_field_is_exact:
  "utf16_length_from_utf8 e (concat (map (append_utf8_codepoint []) cps)) =
     word_of_nat (length (concat (map utf16_of_codepoint cps)))"
  unfolding utf16_length_fast_path by (simp add: utf16_length_codepoints)

text \<open>
  C36: A pointer or optional whose contents begin with the byte 255 is read back as null: a
  unique_ptr to the integer 255 and an optional TimeSpan of -1 tick.
\<close>

theorem null_marker_collision:
  "Serialize B (unique_ptr_formatter uint32_formatter) (Some 0xFF) = Ret [255, 0, 0, 0] \<and>
   Deserialize B' (unique_ptr_formatter uint32_formatter) [255, 0, 0, 0] = Ret None \<and>
   Serialize B (optional_object TimeSpan_formatter) (Some \<lparr>ticks = -1\<rparr>) = Ret (replicate 8 255) \<and>
   Deserialize B' (optional_object TimeSpan_formatter) (replicate 8 255) = Ret None"
proof -
  have e: "le_bytes (0xFF :: u32) = [255, 0, 0, 0]" "le_bytes (-1 :: u64) = replicate 8 255" by code_simp+
  have "replicate 8 (255 :: byte) = 255 # replicate 7 255" by (simp add: numeral_eq_Suc)
  then show ?thesis
    using uint32_codec.serialize [of "0xFF" B] TimeSpan_codec.serialize [of "\<lparr>ticks = -1\<rparr>" B] e
      null_byte_reads_null(1) [of "[0, 0, 0]" B' uint32_formatter]
      null_byte_reads_null(2) [of "replicate 7 255" B' TimeSpan_formatter]
    by (simp add: Serialize_Some)
qed

text \<open>
  C37: A std::optional of an unmanaged struct of 8 bytes sends the object as it is in memory, its
  padding included, also when the struct itself is scrubbed.
\<close>

theorem optional_sends_padding:
  assumes "length v = 8"
  shows "\<exists>bs. Serialize B (optional_unmanaged 4 8) (Some v) = Ret bs \<and> length bs = 12 \<and> take 8 (drop 4 bs) = v"
  using optional_sends_object(1) [of 4 v 8 B] optional_sends_object(2,3) [of 4 v 8] assms by (simp add: NullableLayout_Size_def)

theorem optional_sends_padding_witness:
  "\<exists>bs. Serialize (with_exceptions Little) (optional_unmanaged 4 8) (Some [3, 170, 170, 170, 1, 2, 3, 4]) = Ret bs \<and> length bs = 12 \<and>
     take 8 (drop 4 bs) = [3, 170, 170, 170, 1, 2, 3, 4]"
  by (rule optional_sends_padding) simp

text \<open>
  C38: SerializeTo of a generated version-tolerant object into a buffer that is too small returns
  0 in every build, without an exception also where other types throw, and TrySerializeTo reports
  BufferOverflow.
\<close>

theorem version_tolerant_overflow_is_swallowed:
  assumes "length (vtp_name v) < 2 ^ 31" "Serialize B VersionTolerantPacket_formatter v = Ret bs" "length mem < length bs"
  shows "fst (SerializeTo B VersionTolerantPacket_formatter (Some mem) v) = Ret 0 \<and>
    fst (TrySerializeTo B VersionTolerantPacket_formatter (Some mem) v) = Ret (Inl BufferOverflow)"
  using vtp_small_buffer [OF assms(1), of mem B] vtp_Serialize [OF assms(1), of B] assms(2,3) by simp

theorem version_tolerant_overflow_is_swallowed_witness:
  "fst (SerializeTo (with_exceptions Little) VersionTolerantPacket_formatter (Some [0, 0]) \<lparr>vtp_id = 1, vtp_name = [65], vtp_score = 0\<rparr>) = Ret 0"
  using version_tolerant_overflow_is_swallowed [OF _ vtp_Serialize, of "\<lparr>vtp_id = 1, vtp_name = [65], vtp_score = 0\<rparr>" "[0, 0]" "with_exceptions Little"]
  by (simp add: vtp_members_def vt_enc_def enc_varint_def)

text \<open>
  C39: The five buffer modes that the benchmarks compare (a fresh vector, a reused writer, a
  vector of the caller, a fixed buffer and the copy with memcpy) hold the same packet of 32 bytes
  in every iteration, in every build and on every host, and this packet decodes to the measured
  value.
\<close>

theorem buffer_modes_agree:
  "\<exists>packet. length packet = 32 \<and> (\<forall>B. Deserialize B BenchPlayerState_formatter packet = Ret MakePlayerState) \<and>
     (\<forall>B n. (BM_Serialize_OwnedBuffer B n :: ('s, _) bench) = bench_report n 32 (replicate n packet) \<and>
        (BM_Serialize_ReusedWriter B n :: ('s, _) bench) = bench_report n 32 (replicate n (32, packet)) \<and>
        (BM_Serialize_ExternalVector B n :: ('s, _) bench) = bench_report n 32 (replicate n packet) \<and>
        (BM_Memcpy_Baseline B n :: ('s, _) bench) = bench_report n 32 (replicate n (packet @ replicate 224 0)) \<and>
        (\<exists>fixed. (BM_Serialize_FixedBuffer B n :: ('s, _) bench) = bench_report n 32 fixed \<and> length fixed = n \<and>
           list_all (\<lambda>(written, buffer). written = 32 \<and> length buffer = 256 \<and> take 32 buffer = packet) fixed))"
proof -
  let ?e = "struct_enc BenchPlayerState_layout MakePlayerState"
  have "Deserialize B BenchPlayerState_formatter ?e = Ret MakePlayerState" for B
    using BenchPlayerState.deserialize_round_trip(1) [OF player_packet(1,2), where B = B and rest = "[]"]
    by (simp add: player_packet bench_formatters)
  then show ?thesis
    by (intro exI [of _ ?e] conjI allI small_packet_fixed [folded list_all_iff])
      (simp_all add: player_packet small_packet small_packet_reused small_packet_memcpy)
qed

text \<open>
  C40: Converting a Half that is not a NaN to float (the normalisation loop ends) and back gives
  the same Half.
\<close>

theorem half_round_trip:
  assumes "\<not> is_nan h"
  shows "\<exists>x. ToFloat h = Ret x \<and> FromFloat x = h"
  by (rule Half_ToFloat_FromFloat [OF assms])

theorem half_round_trip_witness: "\<exists>x. ToFloat \<lparr>half_bits = 0x0001\<rparr> = Ret x \<and> FromFloat x = \<lparr>half_bits = 0x0001\<rparr>"
  by (rule half_round_trip) code_simp

end
